(* ===== verification/Prelude.thy ===== *)
theory Prelude
  imports Main "HOL-Library.Word" "HOL-Library.AList"
begin

text \<open>
  Shared vocabulary of the development: byte strings, the JavaScript built-ins the client relies on
  (typed-array slices, big-endian \<open>DataView\<close> accesses, hexadecimal rendering and parsing, the UTF-8
  \<open>TextEncoder\<close> and \<open>TextDecoder\<close>, insertion-ordered \<open>Map\<close> objects), JavaScript exceptions as values,
  and the lemmas about them that the component theories share.

  Conventions. A \<open>Uint8Array\<close> is a list of 8-bit words. A JavaScript number that the program uses as
  a length, an index or a count is a \<open>nat\<close>; a signed quantity is an \<open>int\<close>. A JavaScript string is
  the list of bytes of its UTF-8 encoding, so an ASCII string is the list of its characters and
  \<open>TextEncoder.encode\<close> is a change of type. A thrown exception is an \<open>Inl\<close> value.
\<close>

named_theorems codec_simps \<open>evaluation rules of the byte codecs\<close>
named_theorems jsmap_simps \<open>laws of insertion-ordered maps\<close>

type_synonym byte = "8 word"
type_synonym bytes = "byte list"

datatype js_error =
    RangeError
  | TypeError
  | HandshakeError string
  | JsError string

type_synonym 'a result = "js_error + 'a"

section \<open>Typed-array slices\<close>

text \<open>\<open>xs.slice(a, b)\<close> and \<open>xs.subarray(a, b)\<close> for non-negative bounds, both clamped to the array.\<close>

definition slice :: "nat \<Rightarrow> nat \<Rightarrow> 'a list \<Rightarrow> 'a list" where
  "slice a b xs = take (b - a) (drop a xs)"

lemma slice_whole [simp]: "slice 0 (length xs) xs = xs"
  by (simp add: slice_def)

lemma length_slice: "length (slice a b xs) = min (b - a) (length xs - a)"
  by (simp add: slice_def)

lemma slice_append_exact [codec_simps]:
  "length xs = a \<Longrightarrow> length ys = b - a \<Longrightarrow> slice a b (xs @ ys @ zs) = ys"
  by (simp add: slice_def)

lemma slice_append_right: "length xs \<le> a \<Longrightarrow> slice a b (xs @ ys) = slice (a - length xs) (b - length xs) ys"
  by (simp add: slice_def)

lemma slice_append_left: "b \<le> length xs \<Longrightarrow> slice a b (xs @ ys) = slice a b xs"
  by (cases "a \<le> length xs") (simp_all add: slice_def)

text \<open>Indexing a typed array out of range yields \<open>undefined\<close>, here \<open>None\<close>.\<close>

definition at :: "'a list \<Rightarrow> nat \<Rightarrow> 'a option" where
  "at xs i = (if i < length xs then Some (xs ! i) else None)"

lemma at_Nil [simp]: "at [] i = None"
  by (simp add: at_def)

lemma at_Cons_0 [simp]: "at (x # xs) 0 = Some x"
  by (simp add: at_def)

lemma at_Cons_Suc [simp]: "at (x # xs) (Suc i) = at xs i"
  by (simp add: at_def)

lemma at_Cons_1 [simp]: "at (x # y # xs) 1 = Some y"
  by (simp add: at_def)

section \<open>Big-endian 32-bit integers (DataView)\<close>

text \<open>\<open>setUint32(_, n, false)\<close>: the four bytes of \<open>n\<close> modulo $2^{32}$, most significant first.\<close>

definition u32_be :: "nat \<Rightarrow> bytes" where
  "u32_be n = [word_of_nat (n div 2 ^ 24), word_of_nat (n div 2 ^ 16),
               word_of_nat (n div 2 ^ 8), word_of_nat n]"

text \<open>\<open>getUint32(i, false)\<close>: throws a \<open>RangeError\<close> when fewer than four bytes are left.\<close>

definition get_u32 :: "bytes \<Rightarrow> nat \<Rightarrow> nat result" where
  "get_u32 xs i =
     (if i + 4 \<le> length xs
      then Inr (unat (xs ! i) * 2 ^ 24 + unat (xs ! (i + 1)) * 2 ^ 16
                + unat (xs ! (i + 2)) * 2 ^ 8 + unat (xs ! (i + 3)))
      else Inl RangeError)"

lemma length_u32_be [simp]: "length (u32_be n) = 4"
  by (simp add: u32_be_def)

lemma base256_digits:
  fixes n :: nat
  shows "n div 2 ^ 24 mod 256 * 2 ^ 24 + n div 2 ^ 16 mod 256 * 2 ^ 16 + n div 2 ^ 8 mod 256 * 2 ^ 8
           + n mod 256 = n mod 2 ^ 32"
proof -
  have "n mod 2 ^ 16 = 2 ^ 8 * (n div 2 ^ 8 mod 256) + n mod 256"
    using mod_mult2_eq [of n "2 ^ 8" 256] by simp
  moreover have "n mod 2 ^ 24 = 2 ^ 16 * (n div 2 ^ 16 mod 256) + n mod 2 ^ 16"
    using mod_mult2_eq [of n "2 ^ 16" 256] by simp
  moreover have "n mod 2 ^ 32 = 2 ^ 24 * (n div 2 ^ 24 mod 256) + n mod 2 ^ 24"
    using mod_mult2_eq [of n "2 ^ 24" 256] by simp
  ultimately show ?thesis by simp
qed

lemma get_u32_be [codec_simps]:
  assumes "length xs = i"
  shows "get_u32 (xs @ u32_be n @ ys) i = Inr (n mod 2 ^ 32)"
proof -
  have "(xs @ u32_be n @ ys) ! (i + k) = u32_be n ! k" if "k < 4" for k
    using assms that by (simp add: nth_append)
  from this [of 0] this [of 1] this [of 2] this [of 3]
  have "get_u32 (xs @ u32_be n @ ys) i =
      Inr (n div 2 ^ 24 mod 256 * 2 ^ 24 + n div 2 ^ 16 mod 256 * 2 ^ 16
           + n div 2 ^ 8 mod 256 * 2 ^ 8 + n mod 256)"
    using assms by (simp add: get_u32_def u32_be_def unat_of_nat)
  then show ?thesis by (simp only: base256_digits)
qed

lemma get_u32_error: "get_u32 xs i = Inl e \<longleftrightarrow> e = RangeError \<and> length xs < i + 4"
  by (auto simp: get_u32_def)

lemma get_u32_bound: "get_u32 xs i = Inr n \<Longrightarrow> n < 2 ^ 32"
proof -
  assume "get_u32 xs i = Inr n"
  then have "n = unat (xs ! i) * 2 ^ 24 + unat (xs ! (i + 1)) * 2 ^ 16
                + unat (xs ! (i + 2)) * 2 ^ 8 + unat (xs ! (i + 3))"
    by (auto simp: get_u32_def split: if_splits)
  moreover have "unat (xs ! i) < 256" "unat (xs ! (i + 1)) < 256" "unat (xs ! (i + 2)) < 256"
      "unat (xs ! (i + 3)) < 256"
    using unsigned_less [where ?'a = nat and ?'b = 8] by auto
  ultimately show "n < 2 ^ 32" by simp
qed

section \<open>Hexadecimal strings\<close>

text \<open>\<open>x.toString(16).padStart(2, '0')\<close>, joined over the array.\<close>

definition hex_digits :: string where
  "hex_digits = ''0123456789abcdef''"

definition hex_byte :: "byte \<Rightarrow> string" where
  "hex_byte b = [hex_digits ! (unat b div 16), hex_digits ! (unat b mod 16)]"

definition bytesToHex :: "bytes \<Rightarrow> string" where
  "bytesToHex bs = concat (map hex_byte bs)"

text \<open>
  \<open>parseInt(s, 16)\<close> on an ASCII string: leading white space, an optional sign, an optional \<open>0x\<close>, then
  the longest run of hexadecimal digits; \<open>None\<close> is \<open>NaN\<close>.
\<close>

definition hex_value :: "char \<Rightarrow> nat option" where
  "hex_value c =
     (let n = (of_char c :: nat) in
      if 48 \<le> n \<and> n \<le> 57 then Some (n - 48)
      else if 97 \<le> n \<and> n \<le> 102 then Some (n - 87)
      else if 65 \<le> n \<and> n \<le> 70 then Some (n - 55)
      else None)"

definition is_js_space :: "char \<Rightarrow> bool" where
  "is_js_space c \<longleftrightarrow> (of_char c :: nat) \<in> {9, 10, 11, 12, 13, 32}"

fun hex_run :: "nat \<Rightarrow> string \<Rightarrow> nat" where
  "hex_run acc [] = acc"
| "hex_run acc (c # cs) = (case hex_value c of None \<Rightarrow> acc | Some v \<Rightarrow> hex_run (16 * acc + v) cs)"

definition parse_magnitude :: "string \<Rightarrow> nat option" where
  "parse_magnitude s =
     (let t = (if take 2 s = ''0x'' \<or> take 2 s = ''0X'' then drop 2 s else s) in
      case t of [] \<Rightarrow> None
      | c # _ \<Rightarrow> if hex_value c = None then None else Some (hex_run 0 t))"

definition parseInt16 :: "string \<Rightarrow> int option" where
  "parseInt16 s =
     (case dropWhile is_js_space s of
        [] \<Rightarrow> None
      | c # cs \<Rightarrow>
          if c = CHR ''-'' then map_option (\<lambda>n. - int n) (parse_magnitude cs)
          else if c = CHR ''+'' then map_option int (parse_magnitude cs)
          else map_option int (parse_magnitude (c # cs)))"

text \<open>Storing into a \<open>Uint8Array\<close> element: \<open>NaN\<close> becomes 0, other integers wrap modulo 256.\<close>

definition store_u8 :: "int option \<Rightarrow> byte" where
  "store_u8 v = (case v of None \<Rightarrow> 0 | Some n \<Rightarrow> word_of_int n)"

definition hexToBytes :: "string \<Rightarrow> bytes" where
  "hexToBytes h = map (\<lambda>i. store_u8 (parseInt16 (slice (i * 2) (i * 2 + 2) h))) [0..<length h div 2]"

lemma length_bytesToHex [simp]: "length (bytesToHex bs) = 2 * length bs"
  by (induction bs) (simp_all add: bytesToHex_def hex_byte_def)

lemma bytesToHex_Nil [simp]: "bytesToHex [] = []"
  by (simp add: bytesToHex_def)

lemma bytesToHex_Cons: "bytesToHex (b # bs) = hex_byte b @ bytesToHex bs"
  by (simp add: bytesToHex_def)

lemma hexToBytes_Cons:
  "hexToBytes (c # d # h) = store_u8 (parseInt16 [c, d]) # hexToBytes h"
proof -
  have "[0..<length (c # d # h) div 2] = 0 # map Suc [0..<length h div 2]"
    by (simp add: upt_conv_Cons map_Suc_upt)
  then show ?thesis
    by (simp add: hexToBytes_def slice_def)
qed

text \<open>A byte rendered in hexadecimal parses back: a finite check over the 16 digits.\<close>

lemma hex_digit_facts:
  "n < 16 \<Longrightarrow> hex_value (hex_digits ! n) = Some n \<and> \<not> is_js_space (hex_digits ! n)
      \<and> hex_digits ! n \<noteq> CHR ''-'' \<and> hex_digits ! n \<noteq> CHR ''+'' \<and> hex_digits ! n \<noteq> CHR ''x''
      \<and> hex_digits ! n \<noteq> CHR ''X''"
proof -
  have "\<forall>n \<in> {0..<16}. hex_value (hex_digits ! n) = Some n \<and> \<not> is_js_space (hex_digits ! n)
      \<and> hex_digits ! n \<noteq> CHR ''-'' \<and> hex_digits ! n \<noteq> CHR ''+'' \<and> hex_digits ! n \<noteq> CHR ''x''
      \<and> hex_digits ! n \<noteq> CHR ''X''"
    by code_simp
  then show "n < 16 \<Longrightarrow> ?thesis" by auto
qed

lemma parseInt16_hex_byte: "parseInt16 (hex_byte b) = Some (uint b)"
proof -
  have b: "unat b < 256" using unsigned_less [where ?'a = nat and ?'b = 8, of b] by simp
  then have hi: "unat b div 16 < 16" and lo: "unat b mod 16 < 16" by simp_all
  have "int (16 * (unat b div 16) + unat b mod 16) = uint b"
    by (simp only: mult_div_mod_eq) simp
  with hex_digit_facts [OF hi] hex_digit_facts [OF lo] show ?thesis
    by (simp add: hex_byte_def parseInt16_def parse_magnitude_def)
qed

lemma hexToBytes_bytesToHex [codec_simps]: "hexToBytes (bytesToHex bs) = bs"
proof (induction bs)
  case Nil
  show ?case by (simp add: hexToBytes_def)
next
  case (Cons b bs)
  have "hexToBytes (bytesToHex (b # bs)) = store_u8 (parseInt16 (hex_byte b)) # hexToBytes (bytesToHex bs)"
    by (simp add: bytesToHex_Cons hex_byte_def hexToBytes_Cons)
  with Cons.IH show ?case by (simp add: parseInt16_hex_byte store_u8_def)
qed

lemma bytesToHex_inject [simp]: "bytesToHex xs = bytesToHex ys \<longleftrightarrow> xs = ys"
  by (metis hexToBytes_bytesToHex)

section \<open>UTF-8 text\<close>

definition TextEncoder_encode :: "string \<Rightarrow> bytes" where
  "TextEncoder_encode s = map of_char s"

definition replacement_char :: string where
  "replacement_char = map char_of [239 :: nat, 191, 189]"

text \<open>
  The UTF-8 decoder of the Encoding Standard: \<open>need\<close> continuation bytes are still expected, the next
  one between \<open>lo\<close> and \<open>hi\<close>; \<open>pend\<close> holds the bytes of the sequence read so far. A malformed sequence
  yields U+FFFD and the offending byte is read again as a lead byte.
\<close>

fun utf8_decode :: "nat \<Rightarrow> nat \<Rightarrow> nat \<Rightarrow> string \<Rightarrow> bytes \<Rightarrow> string" where
  "utf8_decode need lo hi pend [] = (if need = 0 then [] else replacement_char)"
| "utf8_decode 0 lo hi pend (b # bs) =
     (let n = unat b; c = char_of n in
      if n < 128 then c # utf8_decode 0 0 0 [] bs
      else if 194 \<le> n \<and> n \<le> 223 then utf8_decode 1 128 191 [c] bs
      else if 224 \<le> n \<and> n \<le> 239 then
        utf8_decode 2 (if n = 224 then 160 else 128) (if n = 237 then 159 else 191) [c] bs
      else if 240 \<le> n \<and> n \<le> 244 then
        utf8_decode 3 (if n = 240 then 144 else 128) (if n = 244 then 143 else 191) [c] bs
      else replacement_char @ utf8_decode 0 0 0 [] bs)"
| "utf8_decode (Suc k) lo hi pend (b # bs) =
     (let n = unat b in
      if lo \<le> n \<and> n \<le> hi then
        (if k = 0 then pend @ [char_of n] @ utf8_decode 0 0 0 [] bs
         else utf8_decode k 128 191 (pend @ [char_of n]) bs)
      else replacement_char @ utf8_decode 0 0 0 [] (b # bs))"

text \<open>\<open>new TextDecoder().decode\<close> drops one leading byte-order mark.\<close>

definition TextDecoder_decode :: "bytes \<Rightarrow> string" where
  "TextDecoder_decode bs =
     utf8_decode 0 0 0 [] (if take 3 bs = [239, 187, 191] then drop 3 bs else bs)"

definition is_ascii :: "string \<Rightarrow> bool" where
  "is_ascii s = list_all (\<lambda>c. (of_char c :: nat) < 128) s"

lemma unat_of_char: "unat (of_char c :: byte) = (of_char c :: nat)"
proof -
  have "(of_char c :: byte) = word_of_nat (of_char c :: nat)"
    by (simp add: of_nat_of_char)
  then show ?thesis by (simp only: unat_of_nat) simp
qed

lemma utf8_decode_ascii: "is_ascii s \<Longrightarrow> utf8_decode 0 0 0 [] (TextEncoder_encode s) = s"
  by (induction s) (simp_all add: TextEncoder_encode_def is_ascii_def unat_of_char Let_def)

lemma decode_encode_ascii [codec_simps]: "is_ascii s \<Longrightarrow> TextDecoder_decode (TextEncoder_encode s) = s"
proof -
  assume a: "is_ascii s"
  have "take 3 (TextEncoder_encode s) \<noteq> [239, 187, 191]"
  proof
    assume "take 3 (TextEncoder_encode s) = [239, 187, 191]"
    then obtain c cs where s: "s = c # cs" and "(of_char c :: byte) = 239"
      by (cases s) (auto simp: TextEncoder_encode_def)
    then have "(of_char c :: nat) = unat (239 :: byte)" by (metis unat_of_char)
    with a s show False by (simp add: is_ascii_def)
  qed
  with utf8_decode_ascii [OF a] show ?thesis by (simp add: TextDecoder_decode_def)
qed

section \<open>Insertion-ordered maps\<close>

text \<open>
  A JavaScript \<open>Map\<close> iterates in insertion order; \<open>set\<close> on a present key keeps its place. That is an
  association list with distinct keys under \<open>AList.update\<close> and \<open>AList.delete\<close>.
\<close>

type_synonym ('k, 'v) jsmap = "('k \<times> 'v) list"

abbreviation jm_get :: "('k, 'v) jsmap \<Rightarrow> 'k \<Rightarrow> 'v option" where
  "jm_get \<equiv> map_of"

abbreviation jm_set :: "'k \<Rightarrow> 'v \<Rightarrow> ('k, 'v) jsmap \<Rightarrow> ('k, 'v) jsmap" where
  "jm_set \<equiv> AList.update"

abbreviation jm_delete :: "'k \<Rightarrow> ('k, 'v) jsmap \<Rightarrow> ('k, 'v) jsmap" where
  "jm_delete \<equiv> AList.delete"

definition jm_has :: "('k, 'v) jsmap \<Rightarrow> 'k \<Rightarrow> bool" where
  "jm_has m k \<longleftrightarrow> map_of m k \<noteq> None"

abbreviation jm_values :: "('k, 'v) jsmap \<Rightarrow> 'v list" where
  "jm_values m \<equiv> map snd m"

definition jm_wf :: "('k, 'v) jsmap \<Rightarrow> bool" where
  "jm_wf m \<longleftrightarrow> distinct (map fst m)"

lemma jm_get_set [jsmap_simps]: "jm_get (jm_set k v m) k' = (if k = k' then Some v else jm_get m k')"
  by (simp add: update_conv)

lemma jm_get_delete [jsmap_simps]: "jm_get (jm_delete k m) k' = (if k = k' then None else jm_get m k')"
  by (simp add: delete_conv)

lemma jm_has_set [jsmap_simps]: "jm_has (jm_set k v m) k' \<longleftrightarrow> k = k' \<or> jm_has m k'"
  by (simp add: jm_has_def jm_get_set)

lemma jm_has_delete [jsmap_simps]: "jm_has (jm_delete k m) k' \<longleftrightarrow> k \<noteq> k' \<and> jm_has m k'"
  by (simp add: jm_has_def jm_get_delete)

lemma jm_has_keys: "jm_has m k \<longleftrightarrow> k \<in> fst ` set m"
  by (auto simp: jm_has_def map_of_eq_None_iff)

lemma jm_wf_Nil [simp]: "jm_wf []"
  by (simp add: jm_wf_def)

lemma jm_wf_set [simp]: "jm_wf m \<Longrightarrow> jm_wf (jm_set k v m)"
  by (simp add: jm_wf_def distinct_update)

lemma jm_wf_delete [simp]: "jm_wf m \<Longrightarrow> jm_wf (jm_delete k m)"
  by (simp add: jm_wf_def distinct_delete)

lemma jm_set_new: "\<not> jm_has m k \<Longrightarrow> jm_set k v m = m @ [(k, v)]"
  by (induction m) (auto simp: jm_has_def split: if_splits)

lemma length_jm_set: "length (jm_set k v m) = (if jm_has m k then length m else Suc (length m))"
  by (induction m) (auto simp: jm_has_def)

lemma jm_get_in_values: "jm_get m k = Some v \<Longrightarrow> v \<in> set (jm_values m)"
  by (force dest: map_of_SomeD)

lemma set_values_set: "set (jm_values (jm_set k v m)) \<subseteq> insert v (set (jm_values m))"
  by (induction m) auto

lemma set_values_delete: "set (jm_values (jm_delete k m)) \<subseteq> set (jm_values m)"
  by (induction m) auto

end
