(* ===== verification/Codec.thy ===== *)
theory Codec
  imports Prelude
begin

text \<open>
  The contract every wire format of the client is held to: decoding an encoded value gives it back.
  \<open>byte_codec\<close> is the interface of one format, \<open>layered_codec\<close> that of a format carried inside another
  (an application frame inside the length-hiding padding). The lemmas proved here once hold for every
  format that interprets the locales.
\<close>

locale byte_codec =
  fixes enc :: "'a \<Rightarrow> bytes"
    and dec :: "bytes \<Rightarrow> 'a result"
    and valid :: "'a \<Rightarrow> bool"
  assumes dec_enc: "valid x \<Longrightarrow> dec (enc x) = Inr x"
begin

lemma enc_inject: "valid x \<Longrightarrow> valid y \<Longrightarrow> enc x = enc y \<longleftrightarrow> x = y"
  by (metis dec_enc sum.inject(2))

lemma dec_unique: "valid x \<Longrightarrow> dec (enc x) = Inr y \<longleftrightarrow> y = x"
  by (auto simp: dec_enc)

lemma dec_no_error: "valid x \<Longrightarrow> dec (enc x) \<noteq> Inl e"
  by (simp add: dec_enc)

end

text \<open>Reading the inner format out of the outer one: an error of either layer is an error.\<close>

definition bind_result :: "'a result \<Rightarrow> ('a \<Rightarrow> 'b result) \<Rightarrow> 'b result" where
  "bind_result r f = (case r of Inl e \<Rightarrow> Inl e | Inr x \<Rightarrow> f x)"

lemma bind_result_simps [simp]:
  "bind_result (Inl e) f = Inl e" "bind_result (Inr x) f = f x"
  by (simp_all add: bind_result_def)

lemma bind_result_Inr: "bind_result r f = Inr y \<longleftrightarrow> (\<exists>x. r = Inr x \<and> f x = Inr y)"
  by (cases r) simp_all

locale layered_codec =
  inner: byte_codec enc dec valid + outer: byte_codec wrap unwrap fits
  for enc :: "'a \<Rightarrow> bytes" and dec valid and wrap :: "bytes \<Rightarrow> bytes" and unwrap fits
begin

lemma layered_dec_enc:
  "valid x \<Longrightarrow> fits (enc x) \<Longrightarrow> bind_result (unwrap (wrap (enc x))) dec = Inr x"
  by (simp add: outer.dec_enc inner.dec_enc)

lemma layered_inject:
  "valid x \<Longrightarrow> valid y \<Longrightarrow> fits (enc x) \<Longrightarrow> fits (enc y) \<Longrightarrow> wrap (enc x) = wrap (enc y) \<longleftrightarrow> x = y"
  by (simp add: outer.enc_inject inner.enc_inject)

end

end
