(* ===== verification/Handshake.thy ===== *)
theory Handshake
  imports Prelude
begin

text \<open>
  The gated mutual key-exchange-and-accept handshake of \<open>client/src/handshake.ts\<close>. The union type
  \<open>HandshakeState\<close> is a datatype with the source's variants; every method of class \<open>Handshake\<close> is a
  function on that state, \<open>Inl\<close> for a thrown \<open>HandshakeError\<close>. A run of method calls is a list of
  \<open>hs_op\<close> values; a call that throws leaves the state as it was.
\<close>

type_synonym peer_key = string

datatype handshake_state =
    Idle
  | OfferSent string
  | OfferReceived string peer_key
  | Established string peer_key
  | Blocked string

definition state_kind :: "handshake_state \<Rightarrow> string" where
  "state_kind s = (case s of
     Idle \<Rightarrow> ''idle''
   | OfferSent _ \<Rightarrow> ''offer-sent''
   | OfferReceived _ _ \<Rightarrow> ''offer-received''
   | Established _ _ \<Rightarrow> ''established''
   | Blocked _ \<Rightarrow> ''blocked'')"

definition quoted :: "string \<Rightarrow> string" where
  "quoted s = [CHR 0x22] @ s @ [CHR 0x22]"

definition requireKind :: "string \<Rightarrow> string \<Rightarrow> handshake_state \<Rightarrow> unit result" where
  "requireKind kind opname s =
     (if state_kind s \<noteq> kind
      then Inl (HandshakeError (opname @ ''() invalid from state '' @ quoted (state_kind s)))
      else Inr ())"

definition sendOffer :: "string \<Rightarrow> handshake_state \<Rightarrow> handshake_state result" where
  "sendOffer conversationId s =
     (case requireKind ''idle'' ''sendOffer'' s of
        Inl e \<Rightarrow> Inl e
      | Inr _ \<Rightarrow> Inr (OfferSent conversationId))"

definition receiveOffer :: "string \<Rightarrow> peer_key \<Rightarrow> handshake_state \<Rightarrow> handshake_state result" where
  "receiveOffer conversationId theirKey s =
     (case requireKind ''idle'' ''receiveOffer'' s of
        Inl e \<Rightarrow> Inl e
      | Inr _ \<Rightarrow> Inr (OfferReceived conversationId theirKey))"

definition accept :: "handshake_state \<Rightarrow> handshake_state result" where
  "accept s = (case s of
     OfferReceived conversationId theirKey \<Rightarrow> Inr (Established conversationId theirKey)
   | _ \<Rightarrow> Inl (HandshakeError (''accept() invalid from state '' @ quoted (state_kind s))))"

definition receiveAccept :: "peer_key \<Rightarrow> handshake_state \<Rightarrow> handshake_state result" where
  "receiveAccept theirKey s = (case s of
     OfferSent conversationId \<Rightarrow> Inr (Established conversationId theirKey)
   | _ \<Rightarrow> Inl (HandshakeError (''receiveAccept() invalid from state '' @ quoted (state_kind s))))"

definition observePeerKey :: "peer_key \<Rightarrow> handshake_state \<Rightarrow> handshake_state" where
  "observePeerKey key s = (case s of
     Established conversationId theirKey \<Rightarrow>
       if key \<noteq> theirKey then Blocked conversationId else s
   | _ \<Rightarrow> s)"

definition canSendMessage :: "handshake_state \<Rightarrow> bool" where
  "canSendMessage s \<longleftrightarrow> (case s of Established _ _ \<Rightarrow> True | _ \<Rightarrow> False)"

definition assertCanSend :: "handshake_state \<Rightarrow> unit result" where
  "assertCanSend s =
     (if \<not> canSendMessage s
      then Inl (HandshakeError (''cannot send: conversation is '' @ quoted (state_kind s)
                                @ '', both parties must accept first''))
      else Inr ())"

datatype hs_op =
    SendOffer string
  | ReceiveOffer string peer_key
  | Accept
  | ReceiveAccept peer_key
  | ObservePeerKey peer_key

definition hs_apply :: "handshake_state \<Rightarrow> hs_op \<Rightarrow> handshake_state result" where
  "hs_apply s oper = (case oper of
     SendOffer c \<Rightarrow> sendOffer c s
   | ReceiveOffer c k \<Rightarrow> receiveOffer c k s
   | Accept \<Rightarrow> accept s
   | ReceiveAccept k \<Rightarrow> receiveAccept k s
   | ObservePeerKey k \<Rightarrow> Inr (observePeerKey k s))"

definition hs_next :: "handshake_state \<Rightarrow> hs_op \<Rightarrow> handshake_state" where
  "hs_next s oper = (case hs_apply s oper of Inl _ \<Rightarrow> s | Inr t \<Rightarrow> t)"

definition hs_run :: "handshake_state \<Rightarrow> hs_op list \<Rightarrow> handshake_state" where
  "hs_run = foldl hs_next"

lemmas hs_op_defs = sendOffer_def receiveOffer_def accept_def receiveAccept_def observePeerKey_def
  requireKind_def state_kind_def hs_apply_def hs_next_def

lemma hs_run_Nil [simp]: "hs_run s [] = s"
  by (simp add: hs_run_def)

lemma hs_run_snoc [simp]: "hs_run s (ops @ [oper]) = hs_next (hs_run s ops) oper"
  by (simp add: hs_run_def)

lemma hs_run_Cons: "hs_run s (oper # ops) = hs_run (hs_next s oper) ops"
  by (simp add: hs_run_def)

lemma canSend_iff: "canSendMessage s \<longleftrightarrow> (\<exists>c k. s = Established c k)"
  by (cases s) (simp_all add: canSendMessage_def)

lemma assertCanSend_ok [simp]: "assertCanSend s = Inr () \<longleftrightarrow> canSendMessage s"
  by (simp add: assertCanSend_def)

text \<open>Which call can lead to each state: inversion of one step.\<close>

lemma hs_next_OfferSent:
  "hs_next s oper = OfferSent c \<Longrightarrow> s = OfferSent c \<or> (s = Idle \<and> oper = SendOffer c)"
  by (cases s; cases oper) (auto simp: hs_op_defs split: if_splits)

lemma hs_next_OfferReceived:
  "hs_next s oper = OfferReceived c k \<Longrightarrow> s = OfferReceived c k \<or> (s = Idle \<and> oper = ReceiveOffer c k)"
  by (cases s; cases oper) (auto simp: hs_op_defs split: if_splits)

lemma hs_next_Established:
  "hs_next s oper = Established c k \<Longrightarrow>
     s = Established c k \<or> (s = OfferSent c \<and> oper = ReceiveAccept k) \<or> (s = OfferReceived c k \<and> oper = Accept)"
  by (cases s; cases oper) (auto simp: hs_op_defs split: if_splits)

lemma hs_next_Blocked [simp]: "hs_next (Blocked c) oper = Blocked c"
  by (cases oper) (auto simp: hs_op_defs)

lemma hs_run_Blocked [simp]: "hs_run (Blocked c) ops = Blocked c"
  by (induction ops) (simp_all add: hs_run_Cons)

lemma hs_run_OfferSent: "hs_run Idle ops = OfferSent c \<Longrightarrow> SendOffer c \<in> set ops"
  by (induction ops rule: rev_induct) (auto dest: hs_next_OfferSent)

lemma hs_run_OfferReceived: "hs_run Idle ops = OfferReceived c k \<Longrightarrow> ReceiveOffer c k \<in> set ops"
  by (induction ops rule: rev_induct) (auto dest: hs_next_OfferReceived)

text \<open>
  C1. No message may be sent before both parties took part: if a run of handshake calls from a new
  object ends with the gate open for conversation \<open>c\<close> and peer key \<open>k\<close>, then either we offered \<open>c\<close> and
  later the peer's acceptance with key \<open>k\<close> arrived, or the peer offered \<open>c\<close> with key \<open>k\<close> and we later
  accepted. Calls that throw change nothing.
\<close>
theorem handshake_gate_requires_both_sides:
  assumes "hs_run Idle ops = Established c k"
  shows "(\<exists>xs ys. ops = xs @ [ReceiveAccept k] @ ys \<and> SendOffer c \<in> set xs)
       \<or> (\<exists>xs ys. ops = xs @ [Accept] @ ys \<and> ReceiveOffer c k \<in> set xs)"
  using assms
proof (induction ops rule: rev_induct)
  case Nil
  then show ?case by simp
next
  case (snoc oper ops)
  from snoc.prems have "hs_next (hs_run Idle ops) oper = Established c k" by simp
  then consider "hs_run Idle ops = Established c k"
    | "hs_run Idle ops = OfferSent c" "oper = ReceiveAccept k"
    | "hs_run Idle ops = OfferReceived c k" "oper = Accept"
    by (auto dest: hs_next_Established)
  then show ?case
  proof cases
    case 1
    then show ?thesis using snoc.IH by (metis append_assoc)
  next
    case 2
    then have "ops @ [oper] = ops @ [ReceiveAccept k] @ []" "SendOffer c \<in> set ops"
      by (auto dest: hs_run_OfferSent)
    then show ?thesis by blast
  next
    case 3
    then have "ops @ [oper] = ops @ [Accept] @ []" "ReceiveOffer c k \<in> set ops"
      by (auto dest: hs_run_OfferReceived)
    then show ?thesis by blast
  qed
qed

theorem handshake_gate_requires_both_sides_witness:
  "hs_run Idle [SendOffer ''c-1'', ReceiveAccept ''ab''] = Established ''c-1'' ''ab''
   \<and> ((\<exists>xs ys. [SendOffer ''c-1'', ReceiveAccept ''ab''] = xs @ [ReceiveAccept ''ab''] @ ys
                \<and> SendOffer ''c-1'' \<in> set xs)
    \<or> (\<exists>xs ys. [SendOffer ''c-1'', ReceiveAccept ''ab''] = xs @ [Accept] @ ys
                \<and> ReceiveOffer ''c-1'' ''ab'' \<in> set xs))"
proof -
  have h: "hs_run Idle [SendOffer ''c-1'', ReceiveAccept ''ab''] = Established ''c-1'' ''ab''"
    by (simp add: hs_run_Cons hs_op_defs)
  show ?thesis using h handshake_gate_requires_both_sides [OF h] by (rule conjI)
qed

text \<open>
  A key change is final: observing any key other than the pinned one closes the gate, and no later
  sequence of handshake calls opens it again.
\<close>
theorem handshake_key_change_is_final:
  assumes "key \<noteq> theirKey"
  shows "\<not> canSendMessage (hs_run (observePeerKey key (Established c theirKey)) ops)"
  using assms by (simp add: observePeerKey_def canSendMessage_def)

theorem handshake_key_change_is_final_witness:
  "''aa'' \<noteq> ''bb'' \<and>
   \<not> canSendMessage (hs_run (observePeerKey ''aa'' (Established ''c'' ''bb'')) [ReceiveAccept ''bb'', Accept])"
  using handshake_key_change_is_final [of "''aa''" "''bb''" "''c''" "[ReceiveAccept ''bb'', Accept]"] by simp

end
