(* ===== verification/Framing.thy ===== *)
theory Framing
  imports Codec
begin

text \<open>
  The application framing of \<open>client/src/session.ts\<close> (frame type, lifetime, revoke and control frames),
  the length-hiding padding of the same file, and the lifetime vocabulary of \<open>client/src/index.ts\<close>.
  Everything here is inside the MLS ciphertext, so the server sees none of it.
\<close>

section \<open>Lifetimes\<close>

datatype lifetime =
    BurnOnRead
  | Duration nat
  | UntilRevoked

definition SUGGESTED_DURATIONS_SECONDS :: "nat list" where
  "SUGGESTED_DURATIONS_SECONDS = [5, 30, 300, 3600, 86400]"

definition DEFAULT_LIFETIME :: lifetime where
  "DEFAULT_LIFETIME = Duration 86400"

definition DELIVERY_FLOOR_SECONDS :: nat where
  "DELIVERY_FLOOR_SECONDS = 86400"

definition SEVEN_DAYS_SECONDS :: nat where
  "SEVEN_DAYS_SECONDS = 604800"

definition deriveTtlSeconds :: "lifetime \<Rightarrow> nat" where
  "deriveTtlSeconds l = (case l of
     Duration s \<Rightarrow> max s DELIVERY_FLOOR_SECONDS
   | _ \<Rightarrow> SEVEN_DAYS_SECONDS)"

section \<open>Frames\<close>

datatype incoming_frame =
    Message bytes lifetime
  | Revoke string

datatype parsed_frame =
    Incoming incoming_frame
  | Control byte byte bytes
  | Ignored

definition FRAME_MESSAGE :: byte where "FRAME_MESSAGE = 0"

definition FRAME_REVOKE :: byte where "FRAME_REVOKE = 1"

definition FRAME_CONTROL :: byte where "FRAME_CONTROL = 2"

definition KIND_BURN :: byte where "KIND_BURN = 0"

definition KIND_DURATION :: byte where "KIND_DURATION = 1"

definition KIND_UNTIL_REVOKED :: byte where "KIND_UNTIL_REVOKED = 2"

definition CONTROL_BUDDY_ICON :: nat where "CONTROL_BUDDY_ICON = 1"

definition CONTROL_PROFILE :: nat where "CONTROL_PROFILE = 2"

definition CONTROL_FILE :: nat where "CONTROL_FILE = 3"

definition CONTROL_CALL :: nat where "CONTROL_CALL = 4"

definition CONTROL_AWAY :: nat where "CONTROL_AWAY = 5"

definition CONTROL_BUDDIES :: nat where "CONTROL_BUDDIES = 6"

definition CONTROL_GROUPS :: nat where "CONTROL_GROUPS = 7"

definition frameMessage :: "bytes \<Rightarrow> lifetime \<Rightarrow> bytes" where
  "frameMessage plaintext l = (case l of
     Duration s \<Rightarrow> [FRAME_MESSAGE, KIND_DURATION] @ u32_be s @ plaintext
   | BurnOnRead \<Rightarrow> [FRAME_MESSAGE, KIND_BURN] @ plaintext
   | UntilRevoked \<Rightarrow> [FRAME_MESSAGE, KIND_UNTIL_REVOKED] @ plaintext)"

definition frameRevoke :: "string \<Rightarrow> bytes" where
  "frameRevoke targetMessageId = [FRAME_REVOKE] @ TextEncoder_encode targetMessageId"

definition frameControl :: "nat \<Rightarrow> nat \<Rightarrow> bytes \<Rightarrow> bytes" where
  "frameControl controlType version payload =
     [FRAME_CONTROL, word_of_nat controlType, word_of_nat version] @ payload"

text \<open>\<open>getUint32\<close> in the duration branch throws on a truncated frame, so parsing is fallible.\<close>

definition parseFrame :: "bytes \<Rightarrow> parsed_frame result" where
  "parseFrame framed =
     (if at framed 0 = Some FRAME_REVOKE then
        Inr (Incoming (Revoke (TextDecoder_decode (drop 1 framed))))
      else if at framed 0 = Some FRAME_CONTROL then
        (if length framed < 3 then Inr Ignored
         else Inr (Control (framed ! 1) (framed ! 2) (drop 3 framed)))
      else if at framed 0 \<noteq> Some FRAME_MESSAGE then Inr Ignored
      else if at framed 1 = Some KIND_DURATION then
        (case get_u32 framed 2 of
           Inl e \<Rightarrow> Inl e
         | Inr seconds \<Rightarrow> Inr (Incoming (Message (drop 6 framed) (Duration seconds))))
      else if at framed 1 = Some KIND_BURN then
        Inr (Incoming (Message (drop 2 framed) BurnOnRead))
      else if at framed 1 = Some KIND_UNTIL_REVOKED then
        Inr (Incoming (Message (drop 2 framed) UntilRevoked))
      else Inr Ignored)"

section \<open>Length-hiding padding\<close>

definition PAD_BUCKETS :: "nat list" where
  "PAD_BUCKETS = [512, 4096, 32768, 262144]"

definition padded_size :: "nat \<Rightarrow> nat" where
  "padded_size need =
     (let largest = (case PAD_BUCKETS of [] \<Rightarrow> 512 | _ \<Rightarrow> last PAD_BUCKETS) in
      case find (\<lambda>b. need \<le> b) PAD_BUCKETS of
        Some sz \<Rightarrow> sz
      | None \<Rightarrow> ((need + largest - 1) div largest) * largest)"

definition padToBucket :: "bytes \<Rightarrow> bytes" where
  "padToBucket data =
     (let sz = padded_size (length data + 4) in
      u32_be (length data) @ data @ replicate (sz - (length data + 4)) 0)"

definition unpadFromBucket :: "bytes \<Rightarrow> bytes result" where
  "unpadFromBucket padded =
     (if length padded < 4 then Inl (JsError ''padding too short'')
      else case get_u32 padded 0 of
        Inl e \<Rightarrow> Inl e
      | Inr len \<Rightarrow>
          if len + 4 > length padded then Inl (JsError ''bad padding length'')
          else Inr (slice 4 (4 + len) padded))"

section \<open>Properties\<close>

lemmas frame_consts = FRAME_MESSAGE_def FRAME_REVOKE_def FRAME_CONTROL_def
  KIND_BURN_def KIND_DURATION_def KIND_UNTIL_REVOKED_def

text \<open>The frame a sender builds for a value of the receiver's type, and the values that survive it.\<close>

definition frame :: "parsed_frame \<Rightarrow> bytes" where
  "frame p = (case p of
     Incoming (Message body l) \<Rightarrow> frameMessage body l
   | Incoming (Revoke target) \<Rightarrow> frameRevoke target
   | Control t v payload \<Rightarrow> frameControl (unat t) (unat v) payload
   | Ignored \<Rightarrow> [])"

definition sendable :: "parsed_frame \<Rightarrow> bool" where
  "sendable p = (case p of
     Incoming (Message body (Duration s)) \<Rightarrow> s < 2 ^ 32
   | Incoming (Message body _) \<Rightarrow> True
   | Incoming (Revoke target) \<Rightarrow> is_ascii target
   | Control _ _ _ \<Rightarrow> True
   | Ignored \<Rightarrow> False)"

lemma parse_frameMessage_Duration:
  "parseFrame (frameMessage body (Duration s)) = Inr (Incoming (Message body (Duration (s mod 2 ^ 32))))"
proof -
  have "get_u32 ([0, 1] @ u32_be s @ body) 2 = Inr (s mod 2 ^ 32)"
    by (rule get_u32_be) simp
  moreover have "drop 6 ([0, 1] @ u32_be s @ body) = body"
    by simp
  ultimately show ?thesis
    by (simp add: parseFrame_def frameMessage_def frame_consts)
qed

lemma parse_frameMessage_other:
  "parseFrame (frameMessage body BurnOnRead) = Inr (Incoming (Message body BurnOnRead))"
  "parseFrame (frameMessage body UntilRevoked) = Inr (Incoming (Message body UntilRevoked))"
  by (simp_all add: parseFrame_def frameMessage_def frame_consts)

lemma parse_frameRevoke:
  "is_ascii target \<Longrightarrow> parseFrame (frameRevoke target) = Inr (Incoming (Revoke target))"
  by (simp add: parseFrame_def frameRevoke_def frame_consts decode_encode_ascii)

lemma parse_frameControl:
  "parseFrame (frameControl t v payload) = Inr (Control (word_of_nat t) (word_of_nat v) payload)"
  by (simp add: parseFrame_def frameControl_def frame_consts)

interpretation frame_codec: byte_codec frame parseFrame sendable
proof unfold_locales
  fix p assume "sendable p"
  then show "parseFrame (frame p) = Inr p"
    by (auto simp: frame_def sendable_def parse_frameMessage_Duration parse_frameMessage_other
        parse_frameRevoke parse_frameControl split: parsed_frame.splits incoming_frame.splits lifetime.splits)
qed

lemma padded_size_ge: "need \<le> padded_size need"
proof (cases "need \<le> 262144")
  case True
  then show ?thesis by (auto simp: padded_size_def PAD_BUCKETS_def)
next
  case False
  have "need \<le> (need + 262144 - 1) div 262144 * 262144"
    using div_mult_mod_eq [of "need + 262144 - 1" "262144 :: nat"] mod_less_divisor [of "262144 :: nat" "need + 262144 - 1"]
    by linarith
  with False show ?thesis by (simp add: padded_size_def PAD_BUCKETS_def)
qed

lemma length_padToBucket: "length (padToBucket data) = padded_size (length data + 4)"
  using padded_size_ge [of "length data + 4"] by (simp add: padToBucket_def Let_def)

lemma unpad_pad: "length data < 2 ^ 32 \<Longrightarrow> unpadFromBucket (padToBucket data) = Inr data"
proof -
  assume small: "length data < 2 ^ 32"
  define fill where "fill = replicate (padded_size (length data + 4) - (length data + 4)) (0 :: byte)"
  have shape: "padToBucket data = u32_be (length data) @ data @ fill"
    by (simp add: padToBucket_def fill_def Let_def)
  have "get_u32 ([] @ u32_be (length data) @ data @ fill) 0 = Inr (length data mod 2 ^ 32)"
    by (rule get_u32_be) simp
  then have "get_u32 (padToBucket data) 0 = Inr (length data)"
    using small by (simp add: shape)
  moreover have "slice 4 (4 + length data) (padToBucket data) = data"
    unfolding shape by (rule slice_append_exact) simp_all
  moreover have "length data + 4 \<le> length (padToBucket data)"
    by (simp add: length_padToBucket padded_size_ge)
  ultimately show ?thesis by (simp add: unpadFromBucket_def)
qed

interpretation pad_codec: byte_codec padToBucket unpadFromBucket "\<lambda>data. length data < 2 ^ 32"
  by unfold_locales (rule unpad_pad)

interpretation wire_codec: layered_codec frame parseFrame sendable
    padToBucket unpadFromBucket "\<lambda>data. length data < 2 ^ 32"
  by unfold_locales

text \<open>
  C2. What a client frames and pads, the receiving client unpads and parses to the same frame: every
  message with its lifetime (seconds below $2^{32}$), every revoke of an ASCII message id and every
  control frame, as long as the frame is shorter than $2^{32}$ bytes.
\<close>
theorem padded_frame_roundtrip:
  assumes "sendable p" and "length (frame p) < 2 ^ 32"
  shows "bind_result (unpadFromBucket (padToBucket (frame p))) parseFrame = Inr p"
  using assms by (rule wire_codec.layered_dec_enc)

theorem padded_frame_roundtrip_witness:
  "sendable (Incoming (Message [72, 105] (Duration 30)))
   \<and> bind_result (unpadFromBucket (padToBucket (frame (Incoming (Message [72, 105] (Duration 30)))))) parseFrame
     = Inr (Incoming (Message [72, 105] (Duration 30)))"
proof -
  have h: "sendable (Incoming (Message [72, 105] (Duration 30)))" by (simp add: sendable_def)
  have l: "length (frame (Incoming (Message [72, 105] (Duration 30)))) < 2 ^ 32"
    by (simp add: frame_def frameMessage_def)
  show ?thesis using h padded_frame_roundtrip [OF h l] by (rule conjI)
qed

text \<open>
  The padded length is a function of the bucket alone: 512, 4096 or 32768 bytes for the small
  buckets and a whole multiple of 262144 above, so two payloads of the same bucket are
  indistinguishable by length.
\<close>
theorem padding_hides_length:
  "length (padToBucket data) =
     (if length data \<le> 508 then 512
      else if length data \<le> 4092 then 4096
      else if length data \<le> 32764 then 32768
      else 262144 * ((length data + 262147) div 262144))"
proof (cases "length data \<le> 262140")
  case True
  then have "(length data + 262147) div 262144 = 1" if "\<not> length data \<le> 32764"
    using that by (simp add: div_eq_dividend_iff)
  with True show ?thesis by (auto simp: length_padToBucket padded_size_def PAD_BUCKETS_def)
next
  case False
  then show ?thesis by (simp add: length_padToBucket padded_size_def PAD_BUCKETS_def)
qed

text \<open>
  Parsing an application frame fails in exactly one case: a message frame of the duration kind
  that is too short to hold its four-byte lifetime makes \<open>getUint32\<close> throw. Every other byte string,
  from an older, newer or hostile peer, yields a frame or is dropped.
\<close>
theorem parseFrame_throws_iff:
  "parseFrame framed = Inl e \<longleftrightarrow>
     e = RangeError \<and> length framed < 6 \<and> at framed 0 = Some FRAME_MESSAGE \<and> at framed 1 = Some KIND_DURATION"
proof (cases "at framed 0 = Some FRAME_MESSAGE \<and> at framed 1 = Some KIND_DURATION")
  case True
  then have "parseFrame framed = Inl e \<longleftrightarrow> get_u32 framed 2 = Inl e"
    by (cases "get_u32 framed 2") (simp_all add: parseFrame_def frame_consts)
  with True show ?thesis by (simp add: get_u32_error)
next
  case False
  then show ?thesis by (simp add: parseFrame_def frame_consts)
qed

end
