(* ===== verification/Session.thy ===== *)
theory Session
  imports Handshake Framing
begin

text \<open>
  The 1:1 conversation \<open>Session\<close> of \<open>client/src/session.ts\<close>: the handshake gate composed with an
  injected MLS conversation object (\<open>ConversationLike\<close>, the wasm class in production).

  The conversation object is not TypeScript of this client: it is a parameter, the record \<open>conv_ops\<close>
  of its methods over references \<open>'r\<close> to conversation objects and a world \<open>'w\<close> that holds their mutable
  state. A method may throw, and what it did to the world before throwing stays done. Every method of
  \<open>Session\<close> takes the session and the world and returns its result (\<open>Inl\<close> when it throws), the
  session and the world. Random bytes are an argument.
\<close>

record ('r, 'w) conv_ops =
  co_createAndAdd :: "'r \<Rightarrow> bytes \<Rightarrow> 'w \<Rightarrow> bytes result \<times> 'w"
  co_joinFromWelcome :: "'r \<Rightarrow> bytes \<Rightarrow> 'w \<Rightarrow> unit result \<times> 'w"
  co_encrypt :: "'r \<Rightarrow> bytes \<Rightarrow> 'w \<Rightarrow> bytes result \<times> 'w"
  co_decrypt :: "'r \<Rightarrow> bytes \<Rightarrow> 'w \<Rightarrow> bytes result \<times> 'w"
  co_peerSignatureKeyHex :: "'r \<Rightarrow> 'w \<Rightarrow> string result"
  co_selfMailbox :: "'r \<Rightarrow> 'w \<Rightarrow> string result"
  co_peerMailbox :: "'r \<Rightarrow> 'w \<Rightarrow> string result"
  co_wipe :: "'r \<Rightarrow> 'w \<Rightarrow> 'w"
  co_make :: "string \<Rightarrow> 'w \<Rightarrow> 'r \<times> 'w"

record identity =
  id_signatureKeyHex :: peer_key
  id_keyPackage :: bytes
  id_label :: string

record offer_msg =
  of_fromSignatureKey :: bytes
  of_keyPackage :: bytes
  of_conversationId :: string
  of_toRoutingKey :: string

record accept_msg =
  ac_fromSignatureKey :: bytes
  ac_keyPackage :: bytes
  ac_conversationId :: string
  ac_mlsWelcome :: bytes
  ac_toRoutingKey :: string

record envelope_msg =
  ev_messageId :: bytes
  ev_routingKey :: string
  ev_payload :: bytes
  ev_ttlSeconds :: nat

record 'r session =
  se_handshake :: handshake_state
  se_conv :: "'r option"
  se_pendingPeerKeyPackage :: "bytes option"
  se_defaultLifetime :: lifetime
  se_me :: identity
  se_conversationId :: string

definition new_session :: "identity \<Rightarrow> string \<Rightarrow> 'r session" where
  "new_session me conversationId =
     \<lparr>se_handshake = Idle, se_conv = None, se_pendingPeerKeyPackage = None,
      se_defaultLifetime = DEFAULT_LIFETIME, se_me = me, se_conversationId = conversationId\<rparr>"

definition setDefaultLifetime :: "lifetime \<Rightarrow> 'r session \<Rightarrow> 'r session" where
  "setDefaultLifetime l s = s\<lparr>se_defaultLifetime := l\<rparr>"

definition canSend :: "'r session \<Rightarrow> bool" where
  "canSend s = canSendMessage (se_handshake s)"

definition requireConv :: "'r session \<Rightarrow> 'r result" where
  "requireConv s = (case se_conv s of
     None \<Rightarrow> Inl (HandshakeError ''no active conversation'')
   | Some conv \<Rightarrow> Inr conv)"

text \<open>The MLS roster's peer key must agree with the accepted one; a disagreement blocks and throws.\<close>

definition crossCheckPeerKey ::
    "('r, 'w) conv_ops \<Rightarrow> 'r \<Rightarrow> 'r session \<Rightarrow> 'w \<Rightarrow> unit result \<times> 'r session" where
  "crossCheckPeerKey ops conv s w = (case co_peerSignatureKeyHex ops conv w of
     Inl e \<Rightarrow> (Inl e, s)
   | Inr key \<Rightarrow>
       let s' = s\<lparr>se_handshake := observePeerKey key (se_handshake s)\<rparr> in
       if \<not> canSendMessage (se_handshake s')
       then (Inl (HandshakeError ''peer key cross-check failed''), s')
       else (Inr (), s'))"

definition makeOffer :: "string \<Rightarrow> 'r session \<Rightarrow> offer_msg result \<times> 'r session" where
  "makeOffer toRoutingKey s = (case sendOffer (se_conversationId s) (se_handshake s) of
     Inl e \<Rightarrow> (Inl e, s)
   | Inr h \<Rightarrow>
       (Inr \<lparr>of_fromSignatureKey = hexToBytes (id_signatureKeyHex (se_me s)),
             of_keyPackage = id_keyPackage (se_me s),
             of_conversationId = se_conversationId s, of_toRoutingKey = toRoutingKey\<rparr>,
        s\<lparr>se_handshake := h\<rparr>))"

definition onAcceptReceived ::
    "('r, 'w) conv_ops \<Rightarrow> accept_msg \<Rightarrow> 'r session \<Rightarrow> 'w \<Rightarrow> unit result \<times> 'r session \<times> 'w" where
  "onAcceptReceived ops acc s w =
     (if ac_conversationId acc \<noteq> se_conversationId s
      then (Inl (HandshakeError ''conversation id mismatch''), s, w)
      else case co_make ops (id_label (se_me s)) w of (conv, w1) \<Rightarrow>
        case co_joinFromWelcome ops conv (ac_mlsWelcome acc) w1 of
          (Inl e, w2) \<Rightarrow> (Inl e, s, w2)
        | (Inr _, w2) \<Rightarrow>
            let s1 = s\<lparr>se_conv := Some conv\<rparr> in
            case receiveAccept (bytesToHex (ac_fromSignatureKey acc)) (se_handshake s1) of
              Inl e \<Rightarrow> (Inl e, s1, w2)
            | Inr h \<Rightarrow> (case crossCheckPeerKey ops conv (s1\<lparr>se_handshake := h\<rparr>) w2 of
                (r, s2) \<Rightarrow> (r, s2, w2)))"

definition onOfferReceived :: "offer_msg \<Rightarrow> 'r session \<Rightarrow> unit result \<times> 'r session" where
  "onOfferReceived offer s =
     (if of_conversationId offer \<noteq> se_conversationId s
      then (Inl (HandshakeError ''conversation id mismatch''), s)
      else case receiveOffer (se_conversationId s) (bytesToHex (of_fromSignatureKey offer)) (se_handshake s) of
        Inl e \<Rightarrow> (Inl e, s)
      | Inr h \<Rightarrow>
          (Inr (), s\<lparr>se_handshake := h, se_pendingPeerKeyPackage := Some (of_keyPackage offer)\<rparr>))"

definition acceptOffer ::
    "('r, 'w) conv_ops \<Rightarrow> string \<Rightarrow> 'r session \<Rightarrow> 'w \<Rightarrow> accept_msg result \<times> 'r session \<times> 'w" where
  "acceptOffer ops toRoutingKey s w = (case se_pendingPeerKeyPackage s of
     None \<Rightarrow> (Inl (HandshakeError ''no offer to accept''), s, w)
   | Some kp \<Rightarrow>
       case co_make ops (id_label (se_me s)) w of (conv, w1) \<Rightarrow>
         case co_createAndAdd ops conv kp w1 of
           (Inl e, w2) \<Rightarrow> (Inl e, s, w2)
         | (Inr welcome, w2) \<Rightarrow>
             let s1 = s\<lparr>se_conv := Some conv\<rparr> in
             case accept (se_handshake s1) of
               Inl e \<Rightarrow> (Inl e, s1, w2)
             | Inr h \<Rightarrow> (case crossCheckPeerKey ops conv (s1\<lparr>se_handshake := h\<rparr>) w2 of
                 (Inl e, s2) \<Rightarrow> (Inl e, s2, w2)
               | (Inr _, s2) \<Rightarrow>
                   (Inr \<lparr>ac_fromSignatureKey = hexToBytes (id_signatureKeyHex (se_me s)),
                         ac_keyPackage = id_keyPackage (se_me s),
                         ac_conversationId = se_conversationId s,
                         ac_mlsWelcome = welcome, ac_toRoutingKey = toRoutingKey\<rparr>, s2, w2)))"

text \<open>\<open>emit\<close>: the gate first, then the mailbox, then padding and encryption; \<open>rnd\<close> is the random id.\<close>

definition emit ::
    "('r, 'w) conv_ops \<Rightarrow> bytes \<Rightarrow> bytes \<Rightarrow> nat \<Rightarrow> 'r session \<Rightarrow> 'w \<Rightarrow> envelope_msg result \<times> 'w" where
  "emit ops rnd framed ttlSeconds s w = (case assertCanSend (se_handshake s) of
     Inl e \<Rightarrow> (Inl e, w)
   | Inr _ \<Rightarrow> (case requireConv s of
       Inl e \<Rightarrow> (Inl e, w)
     | Inr conv \<Rightarrow> (case co_peerMailbox ops conv w of
         Inl e \<Rightarrow> (Inl e, w)
       | Inr mailbox \<Rightarrow> (case co_encrypt ops conv (padToBucket framed) w of
           (Inl e, w1) \<Rightarrow> (Inl e, w1)
         | (Inr ciphertext, w1) \<Rightarrow>
             (Inr \<lparr>ev_messageId = rnd, ev_routingKey = mailbox, ev_payload = ciphertext,
                   ev_ttlSeconds = ttlSeconds\<rparr>, w1)))))"

definition sendMessage ::
    "('r, 'w) conv_ops \<Rightarrow> bytes \<Rightarrow> bytes \<Rightarrow> lifetime option \<Rightarrow> nat option \<Rightarrow> 'r session \<Rightarrow> 'w
       \<Rightarrow> envelope_msg result \<times> 'w" where
  "sendMessage ops rnd plaintext l ttlSeconds s w =
     (let effective = (case l of None \<Rightarrow> se_defaultLifetime s | Some x \<Rightarrow> x) in
      emit ops rnd (frameMessage plaintext effective)
        (case ttlSeconds of None \<Rightarrow> deriveTtlSeconds effective | Some t \<Rightarrow> t) s w)"

definition sendRevoke ::
    "('r, 'w) conv_ops \<Rightarrow> bytes \<Rightarrow> string \<Rightarrow> 'r session \<Rightarrow> 'w \<Rightarrow> envelope_msg result \<times> 'w" where
  "sendRevoke ops rnd targetMessageId s w =
     emit ops rnd (frameRevoke targetMessageId) SEVEN_DAYS_SECONDS s w"

definition inboundMailbox :: "('r, 'w) conv_ops \<Rightarrow> 'r session \<Rightarrow> 'w \<Rightarrow> string result" where
  "inboundMailbox ops s w = bind_result (requireConv s) (\<lambda>conv. co_selfMailbox ops conv w)"

definition receiveMessage ::
    "('r, 'w) conv_ops \<Rightarrow> envelope_msg \<Rightarrow> 'r session \<Rightarrow> 'w \<Rightarrow> parsed_frame result \<times> 'r session \<times> 'w" where
  "receiveMessage ops env s w = (case assertCanSend (se_handshake s) of
     Inl e \<Rightarrow> (Inl e, s, w)
   | Inr _ \<Rightarrow> (case requireConv s of
       Inl e \<Rightarrow> (Inl e, s, w)
     | Inr conv \<Rightarrow> (case co_decrypt ops conv (ev_payload env) w of
         (Inl e, w1) \<Rightarrow> (Inl e, s, w1)
       | (Inr padded, w1) \<Rightarrow> (case co_peerSignatureKeyHex ops conv w1 of
           Inl e \<Rightarrow> (Inl e, s, w1)
         | Inr key \<Rightarrow>
             let s1 = s\<lparr>se_handshake := observePeerKey key (se_handshake s)\<rparr> in
             if \<not> canSendMessage (se_handshake s1)
             then (Inl (HandshakeError ''peer key changed; message dropped''), s1, w1)
             else (bind_result (unpadFromBucket padded) parseFrame, s1, w1)))))"

definition wipe :: "('r, 'w) conv_ops \<Rightarrow> 'r session \<Rightarrow> 'w \<Rightarrow> 'r session \<times> 'w" where
  "wipe ops s w =
     (s\<lparr>se_conv := None, se_pendingPeerKeyPackage := None\<rparr>,
      case se_conv s of None \<Rightarrow> w | Some conv \<Rightarrow> co_wipe ops conv w)"

section \<open>Runs of session calls\<close>

datatype session_call =
    MakeOffer string
  | OnAccept accept_msg
  | OnOffer offer_msg
  | AcceptOffer string
  | SendMessage bytes bytes "lifetime option" "nat option"
  | SendRevoke bytes string
  | ReceiveMessage envelope_msg
  | SetDefaultLifetime lifetime
  | Wipe

definition session_step ::
    "('r, 'w) conv_ops \<Rightarrow> session_call \<Rightarrow> 'r session \<times> 'w \<Rightarrow> 'r session \<times> 'w" where
  "session_step ops call sw = (case sw of (s, w) \<Rightarrow> case call of
     MakeOffer k \<Rightarrow> (snd (makeOffer k s), w)
   | OnAccept a \<Rightarrow> snd (onAcceptReceived ops a s w)
   | OnOffer f \<Rightarrow> (snd (onOfferReceived f s), w)
   | AcceptOffer k \<Rightarrow> snd (acceptOffer ops k s w)
   | SendMessage r p l t \<Rightarrow> (s, snd (sendMessage ops r p l t s w))
   | SendRevoke r m \<Rightarrow> (s, snd (sendRevoke ops r m s w))
   | ReceiveMessage e \<Rightarrow> snd (receiveMessage ops e s w)
   | SetDefaultLifetime l \<Rightarrow> (setDefaultLifetime l s, w)
   | Wipe \<Rightarrow> wipe ops s w)"

definition session_run ::
    "('r, 'w) conv_ops \<Rightarrow> session_call list \<Rightarrow> 'r session \<times> 'w \<Rightarrow> 'r session \<times> 'w" where
  "session_run ops calls sw = foldl (\<lambda>sw call. session_step ops call sw) sw calls"

text \<open>
  The session is bound to its conversation id, and an open gate comes with a conversation object.
\<close>

definition hs_bound :: "string \<Rightarrow> handshake_state \<Rightarrow> bool" where
  "hs_bound cid h = (case h of
     Idle \<Rightarrow> True
   | OfferSent c \<Rightarrow> c = cid
   | OfferReceived c _ \<Rightarrow> c = cid
   | Established c _ \<Rightarrow> c = cid
   | Blocked c \<Rightarrow> c = cid)"

definition session_inv :: "string \<Rightarrow> 'r session \<Rightarrow> bool" where
  "session_inv cid s \<longleftrightarrow> se_conversationId s = cid \<and> hs_bound cid (se_handshake s)
     \<and> (canSend s \<longrightarrow> se_conv s \<noteq> None)"

section \<open>The invariant\<close>

lemmas gate_defs = canSend_def canSendMessage_def hs_bound_def

lemma session_inv_setConv: "session_inv cid s \<Longrightarrow> session_inv cid (s\<lparr>se_conv := Some conv\<rparr>)"
  by (simp add: session_inv_def canSend_def)

lemma session_inv_setHandshake:
  "session_inv cid s \<Longrightarrow> hs_bound cid h \<Longrightarrow> canSendMessage h \<longrightarrow> se_conv s \<noteq> None \<Longrightarrow>
     session_inv cid (s\<lparr>se_handshake := h\<rparr>)"
  by (simp add: session_inv_def canSend_def)

lemma hs_bound_observe: "hs_bound cid h \<Longrightarrow> hs_bound cid (observePeerKey key h)"
  by (cases h) (auto simp: hs_bound_def observePeerKey_def)

lemma canSend_observe: "canSendMessage (observePeerKey key h) \<Longrightarrow> canSendMessage h"
  by (cases h) (auto simp: canSendMessage_def observePeerKey_def)

lemma hs_bound_ops:
  "sendOffer cid h = Inr h' \<Longrightarrow> hs_bound cid h' \<and> \<not> canSendMessage h'"
  "receiveOffer cid k h = Inr h' \<Longrightarrow> hs_bound cid h' \<and> \<not> canSendMessage h'"
  "hs_bound cid h \<Longrightarrow> receiveAccept k h = Inr h' \<Longrightarrow> hs_bound cid h'"
  "hs_bound cid h \<Longrightarrow> accept h = Inr h' \<Longrightarrow> hs_bound cid h'"
  by (auto simp: sendOffer_def receiveOffer_def receiveAccept_def accept_def requireKind_def
      hs_bound_def canSendMessage_def split: sum.splits if_splits handshake_state.splits)

lemma session_inv_observe:
  "session_inv cid s \<Longrightarrow> session_inv cid (s\<lparr>se_handshake := observePeerKey key (se_handshake s)\<rparr>)"
  by (rule session_inv_setHandshake)
    (auto simp: session_inv_def canSend_def hs_bound_observe dest: canSend_observe)

lemma session_inv_crossCheck:
  "session_inv cid s \<Longrightarrow> session_inv cid (snd (crossCheckPeerKey ops conv s w))"
  by (auto simp: crossCheckPeerKey_def Let_def session_inv_observe split: sum.splits)

lemma session_inv_makeOffer: "session_inv cid s \<Longrightarrow> session_inv cid (snd (makeOffer k s))"
  by (auto simp: makeOffer_def session_inv_def canSend_def dest: hs_bound_ops split: sum.splits)

lemma session_inv_onOffer: "session_inv cid s \<Longrightarrow> session_inv cid (snd (onOfferReceived f s))"
  by (auto simp: onOfferReceived_def session_inv_def canSend_def dest: hs_bound_ops split: sum.splits)

lemma session_inv_onAccept:
  assumes "session_inv cid s"
  shows "session_inv cid (fst (snd (onAcceptReceived ops a s w)))"
proof -
  have "session_inv cid (s\<lparr>se_conv := Some conv, se_handshake := h\<rparr>)"
    if "receiveAccept k (se_handshake s) = Inr h" for conv k h
    using assms that by (auto simp: session_inv_def canSend_def dest: hs_bound_ops)
  then have "session_inv cid (snd (crossCheckPeerKey ops conv (s\<lparr>se_conv := Some conv, se_handshake := h\<rparr>) w'))"
    if "receiveAccept k (se_handshake s) = Inr h" for conv k h w'
    using that by (blast intro: session_inv_crossCheck)
  then show ?thesis
    using assms
    by (auto simp: onAcceptReceived_def Let_def session_inv_setConv split: prod.splits sum.splits)
      (metis snd_conv)
qed

lemma session_inv_acceptOffer:
  assumes "session_inv cid s"
  shows "session_inv cid (fst (snd (acceptOffer ops k s w)))"
proof -
  have "session_inv cid (s\<lparr>se_conv := Some conv, se_handshake := h\<rparr>)"
    if "accept (se_handshake s) = Inr h" for conv h
    using assms that by (auto simp: session_inv_def canSend_def dest: hs_bound_ops)
  then have cross: "session_inv cid (snd (crossCheckPeerKey ops conv (s\<lparr>se_conv := Some conv, se_handshake := h\<rparr>) w'))"
    if "accept (se_handshake s) = Inr h" for conv h w'
    using that by (blast intro: session_inv_crossCheck)
  show ?thesis
    using assms cross
    by (auto simp: acceptOffer_def Let_def session_inv_setConv split: prod.splits sum.splits option.splits)
      (metis snd_conv)+
qed

lemma session_inv_receive:
  "session_inv cid s \<Longrightarrow> session_inv cid (fst (snd (receiveMessage ops e s w)))"
  by (auto simp: receiveMessage_def Let_def session_inv_observe split: sum.splits prod.splits)

lemma session_inv_step:
  assumes "session_inv cid s" and "call \<noteq> Wipe"
  shows "session_inv cid (fst (session_step ops call (s, w)))"
proof (cases call)
  case (SetDefaultLifetime l)
  with assms show ?thesis by (simp add: session_step_def setDefaultLifetime_def session_inv_def canSend_def)
qed (use assms in \<open>simp_all add: session_step_def session_inv_makeOffer session_inv_onOffer
      session_inv_onAccept session_inv_acceptOffer session_inv_receive\<close>)

lemma session_run_Cons: "session_run ops (c # cs) sw = session_run ops cs (session_step ops c sw)"
  by (simp add: session_run_def)

lemma session_run_Nil [simp]: "session_run ops [] sw = sw"
  by (simp add: session_run_def)

lemma session_inv_run:
  "session_inv cid s \<Longrightarrow> Wipe \<notin> set calls \<Longrightarrow> session_inv cid (fst (session_run ops calls (s, w)))"
proof (induction calls arbitrary: s w)
  case Nil
  then show ?case by simp
next
  case (Cons c cs)
  obtain s' w' where step: "session_step ops c (s, w) = (s', w')" by fastforce
  with Cons.prems have "session_inv cid s'"
    using session_inv_step [of cid s c ops w] by auto
  with Cons.IH Cons.prems step show ?case by (simp add: session_run_Cons)
qed

lemma session_inv_new: "session_inv cid (new_session me cid)"
  by (simp add: new_session_def session_inv_def gate_defs)

section \<open>A blocked session stays blocked\<close>

lemma crossCheck_Blocked:
  "se_handshake s = Blocked c \<Longrightarrow> se_handshake (snd (crossCheckPeerKey ops conv s w)) = Blocked c"
  by (auto simp: crossCheckPeerKey_def observePeerKey_def Let_def split: sum.splits)

lemma session_step_Blocked:
  "se_handshake s = Blocked c \<Longrightarrow> se_handshake (fst (session_step ops call (s, w))) = Blocked c"
  by (cases call)
    (auto simp: session_step_def makeOffer_def onOfferReceived_def onAcceptReceived_def acceptOffer_def
      receiveMessage_def setDefaultLifetime_def wipe_def sendOffer_def receiveOffer_def receiveAccept_def
      accept_def requireKind_def state_kind_def assertCanSend_def canSendMessage_def Let_def
      split: prod.splits sum.splits option.splits)

lemma session_run_Blocked:
  "se_handshake s = Blocked c \<Longrightarrow> se_handshake (fst (session_run ops calls (s, w))) = Blocked c"
proof (induction calls arbitrary: s w)
  case Nil
  then show ?case by simp
next
  case (Cons call calls)
  obtain s' w' where "session_step ops call (s, w) = (s', w')" by fastforce
  with Cons session_step_Blocked [OF Cons.prems, of ops call w] show ?case
    by (simp add: session_run_Cons)
qed

section \<open>Properties\<close>

text \<open>
  C3. The hard gate: while the conversation is not mutually accepted, sending a message, sending a
  revoke and receiving all throw, and none of them touches the MLS conversation object, so nothing is
  encrypted or decrypted and the session does not change.
\<close>
theorem session_gate_blocks_all_traffic:
  assumes "\<not> canSend s"
  shows "\<exists>e. sendMessage ops rnd p l t s w = (Inl e, w) \<and> sendRevoke ops rnd m s w = (Inl e, w)
           \<and> receiveMessage ops env s w = (Inl e, s, w)"
  using assms
  by (auto simp: canSend_def sendMessage_def sendRevoke_def emit_def receiveMessage_def assertCanSend_def Let_def)

text \<open>A small instance for the witnesses: an MLS object that adds one to every byte.\<close>

definition demo_ops :: "(unit, nat) conv_ops" where
  "demo_ops = \<lparr>co_createAndAdd = (\<lambda>_ kp w. (Inr kp, Suc w)), co_joinFromWelcome = (\<lambda>_ _ w. (Inr (), Suc w)),
     co_encrypt = (\<lambda>_ x w. (Inr (map (\<lambda>b. b + 1) x), Suc w)),
     co_decrypt = (\<lambda>_ x w. (Inr (map (\<lambda>b. b - 1) x), Suc w)),
     co_peerSignatureKeyHex = (\<lambda>_ _. Inr ''ab''), co_selfMailbox = (\<lambda>_ _. Inr ''m-self''),
     co_peerMailbox = (\<lambda>_ _. Inr ''m-peer''), co_wipe = (\<lambda>_ w. 0), co_make = (\<lambda>_ w. ((), w))\<rparr>"

definition demo_me :: identity where
  "demo_me = \<lparr>id_signatureKeyHex = ''cd'', id_keyPackage = [1], id_label = ''me''\<rparr>"

definition demo_session :: "unit session" where
  "demo_session = (new_session demo_me ''c-1'')\<lparr>se_handshake := Established ''c-1'' ''ab'', se_conv := Some ()\<rparr>"

definition demo_env :: envelope_msg where
  "demo_env = \<lparr>ev_messageId = [], ev_routingKey = [], ev_payload = [9], ev_ttlSeconds = 0\<rparr>"

theorem session_gate_blocks_all_traffic_witness:
  "\<not> canSend (new_session demo_me ''c-1'' :: unit session) \<and>
   (\<exists>e. sendMessage demo_ops [1] [2] None None (new_session demo_me ''c-1'') 7 = (Inl e, 7)
      \<and> sendRevoke demo_ops [1] ''00'' (new_session demo_me ''c-1'') 7 = (Inl e, 7)
      \<and> receiveMessage demo_ops demo_env (new_session demo_me ''c-1'') 7 = (Inl e, new_session demo_me ''c-1'', 7))"
proof -
  have h: "\<not> canSend (new_session demo_me ''c-1'' :: unit session)"
    by (simp add: new_session_def gate_defs)
  show ?thesis using h session_gate_blocks_all_traffic [OF h] by (rule conjI)
qed

text \<open>
  The session invariant: after any sequence of calls on a new session that does not wipe it, with
  any behaviour of the MLS object (calls that throw included), the session is still bound to its
  conversation id in every handshake state, and whenever the gate is open a conversation object is
  installed, so sending never fails for lack of one.
\<close>
theorem session_invariant:
  assumes "Wipe \<notin> set calls"
  shows "session_inv cid (fst (session_run ops calls (new_session me cid, w)))"
  using session_inv_new assms by (rule session_inv_run)

theorem session_invariant_witness:
  "session_inv ''c-1'' (fst (session_run demo_ops
     [MakeOffer ''r'', OnAccept \<lparr>ac_fromSignatureKey = [171], ac_keyPackage = [], ac_conversationId = ''c-1'',
        ac_mlsWelcome = [], ac_toRoutingKey = []\<rparr>] (new_session demo_me ''c-1'', 0)))"
  by (rule session_invariant) simp

text \<open>
  C4. A substituted peer key is caught on receipt: if the MLS layer reports a key other than the pinned
  one after decrypting, the plaintext is not returned, and from then on no sequence of session calls
  ever opens the gate again.
\<close>
theorem session_key_change_drops_and_blocks:
  assumes "se_handshake s = Established c pinned" and "se_conv s = Some conv"
    and "co_decrypt ops conv (ev_payload env) w = (Inr padded, w1)"
    and "co_peerSignatureKeyHex ops conv w1 = Inr key" and "key \<noteq> pinned"
  shows "\<exists>e s1. receiveMessage ops env s w = (Inl e, s1, w1)
            \<and> (\<forall>calls w2. \<not> canSend (fst (session_run ops calls (s1, w2))))"
proof -
  let ?s1 = "s\<lparr>se_handshake := Blocked c\<rparr>"
  have "receiveMessage ops env s w = (Inl (HandshakeError ''peer key changed; message dropped''), ?s1, w1)"
    using assms
    by (simp add: receiveMessage_def assertCanSend_def canSendMessage_def requireConv_def observePeerKey_def)
  moreover have "\<not> canSend (fst (session_run ops calls (?s1, w2)))" for calls w2
    using session_run_Blocked [of ?s1 c ops calls w2] by (simp add: canSend_def canSendMessage_def)
  ultimately show ?thesis by blast
qed

theorem session_key_change_drops_and_blocks_witness:
  "\<exists>e s1. receiveMessage demo_ops demo_env (demo_session\<lparr>se_handshake := Established ''c-1'' ''ee''\<rparr>) 7 = (Inl e, s1, 8)
            \<and> (\<forall>calls w2. \<not> canSend (fst (session_run demo_ops calls (s1, w2))))"
  by (rule session_key_change_drops_and_blocks [where c = "''c-1''" and pinned = "''ee''" and conv = "()"
        and padded = "[8]" and key = "''ab''"])
    (simp_all add: demo_session_def demo_ops_def demo_env_def new_session_def)

text \<open>
  End to end: when one client sends a message on an open session and the MLS layer decrypts, at
  the peer, exactly what was encrypted and reports the pinned key, the peer's \<open>receiveMessage\<close> returns
  the same plaintext with the same lifetime and its session is unchanged.
\<close>
theorem session_end_to_end_delivery:
  assumes sent: "sendMessage opsA rnd p l t sA wA = (Inr env, wA')"
    and mls: "\<And>x c. co_encrypt opsA convA x wA = (Inr c, wA') \<Longrightarrow> co_decrypt opsB convB c wB = (Inr x, wB')"
    and conv: "se_conv sA = Some convA" "se_conv sB = Some convB"
    and pinned: "se_handshake sB = Established cB k" "co_peerSignatureKeyHex opsB convB wB' = Inr k"
    and eff: "eff = (case l of None \<Rightarrow> se_defaultLifetime sA | Some x \<Rightarrow> x)"
    and fits: "sendable (Incoming (Message p eff))" "length (frameMessage p eff) < 2 ^ 32"
  shows "receiveMessage opsB env sB wB = (Inr (Incoming (Message p eff)), sB, wB')"
proof -
  from sent eff conv(1) have
    enc: "co_encrypt opsA convA (padToBucket (frameMessage p eff)) wA = (Inr (ev_payload env), wA')"
    by (auto simp: sendMessage_def emit_def requireConv_def Let_def split: sum.splits prod.splits)
  have "bind_result (unpadFromBucket (padToBucket (frame (Incoming (Message p eff))))) parseFrame
      = Inr (Incoming (Message p eff))"
    using fits by (intro wire_codec.layered_dec_enc) (simp_all add: frame_def)
  then have decoded: "bind_result (unpadFromBucket (padToBucket (frameMessage p eff))) parseFrame
      = Inr (Incoming (Message p eff))"
    by (simp add: frame_def)
  have keep: "sB\<lparr>se_handshake := Established cB k\<rparr> = sB" using pinned(1) by simp
  show ?thesis
    using mls [OF enc] conv(2) pinned decoded keep
    by (simp add: receiveMessage_def assertCanSend_def canSendMessage_def requireConv_def observePeerKey_def)
qed

theorem session_end_to_end_delivery_witness:
  "\<exists>env. sendMessage demo_ops [5] [72, 105] None None demo_session 0 = (Inr env, 1) \<and>
   receiveMessage demo_ops env demo_session 3 = (Inr (Incoming (Message [72, 105] (Duration 86400))), demo_session, 4)"
proof -
  let ?env = "\<lparr>ev_messageId = [5], ev_routingKey = ''m-peer'',
     ev_payload = map (\<lambda>b. b + 1) (padToBucket (frameMessage [72, 105] (Duration 86400))), ev_ttlSeconds = 86400\<rparr>"
  have sent: "sendMessage demo_ops [5] [72, 105] None None demo_session 0 = (Inr ?env, 1)"
    by (simp add: sendMessage_def emit_def demo_session_def demo_ops_def new_session_def assertCanSend_def
        canSendMessage_def requireConv_def DEFAULT_LIFETIME_def deriveTtlSeconds_def DELIVERY_FLOOR_SECONDS_def)
  have "receiveMessage demo_ops ?env demo_session 3
      = (Inr (Incoming (Message [72, 105] (Duration 86400))), demo_session, 4)"
    by (rule session_end_to_end_delivery [OF sent, where convA = "()" and convB = "()" and cB = "''c-1''" and k = "''ab''"])
      (auto simp: demo_session_def demo_ops_def new_session_def DEFAULT_LIFETIME_def sendable_def frameMessage_def comp_def)
  with sent show ?thesis by blast
qed

end
