(* ===== verification/Group.thy ===== *)
theory Group
  imports Session
begin

text \<open>
  Multi-device group conversations, \<open>client/src/group.ts\<close>: the byte codecs shared with the Rust core
  (\<open>encodeList\<close>, \<open>decodeList\<close>, \<open>decodeReceived\<close>), the \<open>GroupSession\<close> view of one conversation, and
  \<open>receiveGroup\<close>, which turns one inbound payload into a \<open>GroupReceived\<close>.

  The wasm conversation (\<open>GroupConversationLike\<close>) is a parameter, the record \<open>group_ops\<close> of its methods
  over a world \<open>'w\<close>; methods that an older wasm build may lack are optional.
\<close>

section \<open>Byte codecs\<close>

definition encodeList :: "bytes list \<Rightarrow> bytes" where
  "encodeList items = u32_be (length items) @ concat (map (\<lambda>it. u32_be (length it) @ it) items)"

text \<open>
  The loop of \<open>decodeListAt\<close>: \<open>n\<close> items from position \<open>pos\<close>. A length read past the end throws; the
  bytes of an item are sliced, so a truncated last item is clamped; the position moves on regardless.
\<close>

fun decode_items :: "nat \<Rightarrow> bytes \<Rightarrow> nat \<Rightarrow> (bytes list \<times> nat) result" where
  "decode_items 0 b pos = Inr ([], pos)"
| "decode_items (Suc n) b pos = (case get_u32 b pos of
     Inl e \<Rightarrow> Inl e
   | Inr len \<Rightarrow> (case decode_items n b (pos + 4 + len) of
       Inl e \<Rightarrow> Inl e
     | Inr (items, p) \<Rightarrow> Inr (slice (pos + 4) (pos + 4 + len) b # items, p)))"

definition decodeListAt :: "bytes \<Rightarrow> nat \<Rightarrow> (bytes list \<times> nat) result" where
  "decodeListAt b pos = bind_result (get_u32 b pos) (\<lambda>n. decode_items n b (pos + 4))"

definition decodeList :: "bytes \<Rightarrow> bytes list result" where
  "decodeList b = bind_result (decodeListAt b 0) (\<lambda>r. Inr (fst r))"

datatype decoded =
    DApplication bytes bool
  | DMembership "string list" "string list"
  | DEvicted
  | DProposal

definition decodeReceived :: "bytes \<Rightarrow> decoded result" where
  "decodeReceived b =
     (if at b 0 = Some 0 then Inr (DApplication (drop 2 b) (at b 1 = Some 1))
      else if at b 0 = Some 1 then
        bind_result (decodeListAt b 1) (\<lambda>(added, pos).
          bind_result (decodeListAt b pos) (\<lambda>(removed, _).
            Inr (DMembership (map bytesToHex added) (map bytesToHex removed))))
      else if at b 0 = Some 2 then Inr DEvicted
      else Inr DProposal)"

section \<open>Inbound dispatch\<close>

datatype group_received =
    GMessage incoming_frame bool
  | GMembership "string list" "string list"
  | GEvicted
  | GProposal
  | GControl byte byte bytes bool
  | GIgnored

definition decodeGroupReceived :: "bytes \<Rightarrow> group_received result" where
  "decodeGroupReceived blob = (case decodeReceived blob of
     Inl e \<Rightarrow> Inl e
   | Inr (DApplication plaintext fromOwnAccount) \<Rightarrow>
       (case bind_result (unpadFromBucket plaintext) parseFrame of
          Inl _ \<Rightarrow> Inr GIgnored
        | Inr (Control t v payload) \<Rightarrow> Inr (GControl t v payload fromOwnAccount)
        | Inr Ignored \<Rightarrow> Inr GIgnored
        | Inr (Incoming f) \<Rightarrow> Inr (GMessage f fromOwnAccount))
   | Inr (DMembership added removed) \<Rightarrow> Inr (GMembership added removed)
   | Inr DEvicted \<Rightarrow> Inr GEvicted
   | Inr DProposal \<Rightarrow> Inr GProposal)"

record 'w group_ops =
  go_createGroup :: "bytes \<Rightarrow> 'w \<Rightarrow> bytes result \<times> 'w"
  go_createSelfGroup :: "(bytes \<Rightarrow> 'w \<Rightarrow> bytes result \<times> 'w) option"
  go_createSelf :: "'w \<Rightarrow> bytes result \<times> 'w"
  go_joinFromWelcome :: "bytes \<Rightarrow> 'w \<Rightarrow> string result \<times> 'w"
  go_groupMailbox :: "string \<Rightarrow> 'w \<Rightarrow> string result"
  go_encrypt :: "string \<Rightarrow> bytes \<Rightarrow> 'w \<Rightarrow> bytes result \<times> 'w"
  go_receive :: "bytes \<Rightarrow> 'w \<Rightarrow> bytes result \<times> 'w"
  go_addMember :: "string \<Rightarrow> bytes \<Rightarrow> 'w \<Rightarrow> bytes result \<times> 'w"
  go_stageAdd :: "string \<Rightarrow> bytes \<Rightarrow> 'w \<Rightarrow> bytes result \<times> 'w"
  go_isSelfConversationStrict :: "(string \<Rightarrow> 'w \<Rightarrow> bool result) option"
  go_channelUnlinked :: "(string \<Rightarrow> 'w \<Rightarrow> bool result) option"
  go_peerAccountKeys :: "(string \<Rightarrow> 'w \<Rightarrow> string list result) option"
  go_flushReceiveRatchet :: "(string \<Rightarrow> 'w \<Rightarrow> bool result \<times> 'w) option"
  go_pendingKind :: "string \<Rightarrow> 'w \<Rightarrow> nat result"
  go_signaturePublicKeyHex :: "'w \<Rightarrow> string"
  go_accountKeyHex :: "'w \<Rightarrow> string"
  go_keyPackage :: "'w \<Rightarrow> bytes result \<times> 'w"
  go_groupEpoch :: "(string \<Rightarrow> 'w \<Rightarrow> int) option"
  go_keyPackageLastResort :: "('w \<Rightarrow> bytes result \<times> 'w) option"
  go_keyPackageSelfEligible :: "(bytes \<Rightarrow> 'w \<Rightarrow> bool) option"
  go_closeConversation :: "(string \<Rightarrow> 'w \<Rightarrow> unit result \<times> 'w) option"
  go_listConversations :: "'w \<Rightarrow> string list"
  go_confirmAdd :: "string \<Rightarrow> 'w \<Rightarrow> unit result \<times> 'w"
  go_abortAdd :: "string \<Rightarrow> 'w \<Rightarrow> unit result \<times> 'w"
  go_removeMember :: "string \<Rightarrow> string \<Rightarrow> 'w \<Rightarrow> bytes result \<times> 'w"
  go_stageRemove :: "string \<Rightarrow> string \<Rightarrow> 'w \<Rightarrow> bytes result \<times> 'w"
  go_confirmRemove :: "string \<Rightarrow> 'w \<Rightarrow> unit result \<times> 'w"
  go_abortRemove :: "string \<Rightarrow> 'w \<Rightarrow> unit result \<times> 'w"
  go_pendingTarget :: "string \<Rightarrow> 'w \<Rightarrow> string result"
  go_pendingCommit :: "string \<Rightarrow> 'w \<Rightarrow> bytes result"
  go_pendingWelcome :: "string \<Rightarrow> 'w \<Rightarrow> bytes result"
  go_mailboxTag :: "string \<Rightarrow> 'w \<Rightarrow> string"
  go_roster :: "string \<Rightarrow> 'w \<Rightarrow> string list result"
  go_isSelfConversation :: "string \<Rightarrow> 'w \<Rightarrow> bool result"
  go_selfClassificationReason :: "(string \<Rightarrow> 'w \<Rightarrow> string) option"
  go_abandonDeadSelfGroup :: "(string \<Rightarrow> bool \<Rightarrow> 'w \<Rightarrow> bool result \<times> 'w) option"
  go_credentialCertified :: "('w \<Rightarrow> bool) option"
  go_authorizeDevice :: "string \<Rightarrow> nat \<Rightarrow> string \<Rightarrow> string \<Rightarrow> 'w \<Rightarrow> string result"
  go_adoptCertificate :: "string \<Rightarrow> nat \<Rightarrow> string \<Rightarrow> 'w \<Rightarrow> unit result \<times> 'w"
  go_authorizeScannedDevice :: "bytes \<Rightarrow> nat \<Rightarrow> 'w \<Rightarrow> bytes result"
  go_recoverWithSeed :: "string \<Rightarrow> nat \<Rightarrow> 'w \<Rightarrow> unit result \<times> 'w"
  go_reauthorizeAtEpoch :: "nat \<Rightarrow> 'w \<Rightarrow> unit result \<times> 'w"
  go_certEpoch :: "'w \<Rightarrow> nat"
  go_revokeDevice :: "(string \<Rightarrow> nat \<Rightarrow> 'w \<Rightarrow> string result \<times> 'w) option"
  go_ingestRevocation :: "(string \<Rightarrow> 'w \<Rightarrow> bool result \<times> 'w) option"
  go_revokedCount :: "('w \<Rightarrow> nat) option"
  go_isDeviceRevoked :: "(string \<Rightarrow> 'w \<Rightarrow> bool) option"
  go_accountFloor :: "('w \<Rightarrow> nat) option"

text \<open>Every two-part answer of the wasm is decoded and checked the same way in the source.\<close>

definition two_parts :: "string \<Rightarrow> bytes \<Rightarrow> (bytes \<times> bytes) result" where
  "two_parts what blob = bind_result (decodeList blob) (\<lambda>parts. case parts of
     [x, y] \<Rightarrow> Inr (x, y)
   | _ \<Rightarrow> Inl (JsError what))"

definition receiveGroup ::
    "'w group_ops \<Rightarrow> bytes \<Rightarrow> 'w \<Rightarrow> (string \<times> group_received) result \<times> 'w" where
  "receiveGroup ops payload w = (case go_receive ops payload w of
     (Inl e, w1) \<Rightarrow> (Inl e, w1)
   | (Inr blob, w1) \<Rightarrow>
       (bind_result (two_parts ''receive did not return a group id and a result'' blob) (\<lambda>(gid, inner).
          bind_result (decodeGroupReceived inner) (\<lambda>r. Inr (bytesToHex gid, r))), w1))"

section \<open>GroupSession\<close>

definition gs_create :: "'w group_ops \<Rightarrow> bytes list \<Rightarrow> 'w \<Rightarrow> (bytes \<times> string) result \<times> 'w" where
  "gs_create ops keyPackages w = (case go_createGroup ops (encodeList keyPackages) w of
     (Inl e, w1) \<Rightarrow> (Inl e, w1)
   | (Inr blob, w1) \<Rightarrow>
       (bind_result (two_parts ''createGroup did not return a welcome and a group id'' blob)
          (\<lambda>(welcome, gid). Inr (welcome, bytesToHex gid)), w1))"

definition gs_createSelf :: "'w group_ops \<Rightarrow> 'w \<Rightarrow> string result \<times> 'w" where
  "gs_createSelf ops w = (case go_createSelf ops w of
     (r, w1) \<Rightarrow> (bind_result r (\<lambda>gid. Inr (bytesToHex gid)), w1))"

definition gs_createSelfGroup :: "'w group_ops \<Rightarrow> bytes list \<Rightarrow> 'w \<Rightarrow> (bytes \<times> string) result \<times> 'w" where
  "gs_createSelfGroup ops keyPackages w =
     (let make = (case go_createSelfGroup ops of Some f \<Rightarrow> f | None \<Rightarrow> go_createGroup ops) in
      case make (encodeList keyPackages) w of
        (Inl e, w1) \<Rightarrow> (Inl e, w1)
      | (Inr blob, w1) \<Rightarrow>
          (bind_result (two_parts ''createSelfGroup did not return a welcome and a group id'' blob)
             (\<lambda>(welcome, gid). Inr (welcome, bytesToHex gid)), w1))"

definition gs_isSelfConversationStrict :: "'w group_ops \<Rightarrow> string \<Rightarrow> 'w \<Rightarrow> bool result" where
  "gs_isSelfConversationStrict ops gid w = (case go_isSelfConversationStrict ops of
     None \<Rightarrow> Inr False
   | Some f \<Rightarrow> f gid w)"

definition gs_unlinked :: "'w group_ops \<Rightarrow> string \<Rightarrow> 'w \<Rightarrow> bool" where
  "gs_unlinked ops gid w = (case go_channelUnlinked ops of
     None \<Rightarrow> False
   | Some f \<Rightarrow> (case f gid w of Inl _ \<Rightarrow> False | Inr b \<Rightarrow> b))"

definition gs_peerAccountKeys :: "'w group_ops \<Rightarrow> string \<Rightarrow> 'w \<Rightarrow> string list" where
  "gs_peerAccountKeys ops gid w = (case go_peerAccountKeys ops of
     None \<Rightarrow> []
   | Some f \<Rightarrow> (case f gid w of Inl _ \<Rightarrow> [] | Inr ks \<Rightarrow> ks))"

definition gs_flushReceiveRatchet :: "'w group_ops \<Rightarrow> string \<Rightarrow> 'w \<Rightarrow> bool \<times> 'w" where
  "gs_flushReceiveRatchet ops gid w = (case go_flushReceiveRatchet ops of
     None \<Rightarrow> (False, w)
   | Some f \<Rightarrow> (case f gid w of (Inl _, w1) \<Rightarrow> (False, w1) | (Inr b, w1) \<Rightarrow> (b, w1)))"

text \<open>The common tail of \<open>send\<close>, \<open>sendRevoke\<close> and \<open>sendControl\<close>: mailbox, then padding and encryption.\<close>

definition gs_seal :: "'w group_ops \<Rightarrow> string \<Rightarrow> bytes \<Rightarrow> bytes \<Rightarrow> nat \<Rightarrow> 'w \<Rightarrow> envelope_msg result \<times> 'w" where
  "gs_seal ops gid rnd framed ttl w = (case go_groupMailbox ops gid w of
     Inl e \<Rightarrow> (Inl e, w)
   | Inr mailbox \<Rightarrow> (case go_encrypt ops gid (padToBucket framed) w of
       (Inl e, w1) \<Rightarrow> (Inl e, w1)
     | (Inr ciphertext, w1) \<Rightarrow>
         (Inr \<lparr>ev_messageId = rnd, ev_routingKey = mailbox, ev_payload = ciphertext, ev_ttlSeconds = ttl\<rparr>, w1)))"

definition gs_send ::
    "'w group_ops \<Rightarrow> string \<Rightarrow> bytes \<Rightarrow> bytes \<Rightarrow> lifetime \<Rightarrow> nat option \<Rightarrow> 'w \<Rightarrow> envelope_msg result \<times> 'w" where
  "gs_send ops gid rnd plaintext l ttlSeconds w =
     gs_seal ops gid rnd (frameMessage plaintext l)
       (case ttlSeconds of None \<Rightarrow> deriveTtlSeconds l | Some t \<Rightarrow> t) w"

definition gs_sendRevoke ::
    "'w group_ops \<Rightarrow> string \<Rightarrow> bytes \<Rightarrow> string \<Rightarrow> nat option \<Rightarrow> 'w \<Rightarrow> envelope_msg result \<times> 'w" where
  "gs_sendRevoke ops gid rnd targetMessageId ttlSeconds w =
     gs_seal ops gid rnd (frameRevoke targetMessageId)
       (case ttlSeconds of None \<Rightarrow> SEVEN_DAYS_SECONDS | Some t \<Rightarrow> t) w"

definition gs_sendControl ::
    "'w group_ops \<Rightarrow> string \<Rightarrow> bytes \<Rightarrow> nat \<Rightarrow> nat \<Rightarrow> bytes \<Rightarrow> nat option \<Rightarrow> 'w \<Rightarrow> envelope_msg result \<times> 'w" where
  "gs_sendControl ops gid rnd controlType version payload ttlSeconds w =
     gs_seal ops gid rnd (frameControl controlType version payload)
       (case ttlSeconds of None \<Rightarrow> SEVEN_DAYS_SECONDS | Some t \<Rightarrow> t) w"

definition gs_addDevice :: "'w group_ops \<Rightarrow> string \<Rightarrow> bytes \<Rightarrow> 'w \<Rightarrow> (bytes \<times> bytes) result \<times> 'w" where
  "gs_addDevice ops gid keyPackage w = (case go_addMember ops gid keyPackage w of
     (r, w1) \<Rightarrow> (bind_result r (two_parts ''addMember did not return a commit and a welcome''), w1))"

definition gs_stageAddDevice :: "'w group_ops \<Rightarrow> string \<Rightarrow> bytes \<Rightarrow> 'w \<Rightarrow> (bytes \<times> bytes) result \<times> 'w" where
  "gs_stageAddDevice ops gid keyPackage w = (case go_stageAdd ops gid keyPackage w of
     (r, w1) \<Rightarrow> (bind_result r (two_parts ''stageAdd did not return a commit and a welcome''), w1))"

datatype pending_kind = PendingAdd | PendingRemove

definition gs_pendingKind :: "'w group_ops \<Rightarrow> string \<Rightarrow> 'w \<Rightarrow> pending_kind option result" where
  "gs_pendingKind ops gid w = bind_result (go_pendingKind ops gid w) (\<lambda>k.
     Inr (if k = 1 then Some PendingAdd else if k = 2 then Some PendingRemove else None))"

text \<open>The methods that only forward the group id.\<close>

definition gs_join :: "'w group_ops \<Rightarrow> bytes \<Rightarrow> 'w \<Rightarrow> string result \<times> 'w" where
  "gs_join ops welcome w = go_joinFromWelcome ops welcome w"

definition gs_mailbox :: "'w group_ops \<Rightarrow> string \<Rightarrow> 'w \<Rightarrow> string result" where
  "gs_mailbox ops gid w = go_groupMailbox ops gid w"

definition gs_roster :: "'w group_ops \<Rightarrow> string \<Rightarrow> 'w \<Rightarrow> string list result" where
  "gs_roster ops gid w = go_roster ops gid w"

definition gs_isSelfConversation :: "'w group_ops \<Rightarrow> string \<Rightarrow> 'w \<Rightarrow> bool result" where
  "gs_isSelfConversation ops gid w = go_isSelfConversation ops gid w"

definition gs_selfClassificationReason :: "'w group_ops \<Rightarrow> string \<Rightarrow> 'w \<Rightarrow> string" where
  "gs_selfClassificationReason ops gid w =
     (case go_selfClassificationReason ops of None \<Rightarrow> [] | Some f \<Rightarrow> f gid w)"

definition gs_accountKey :: "'w group_ops \<Rightarrow> 'w \<Rightarrow> string" where
  "gs_accountKey ops w = go_accountKeyHex ops w"

definition gs_confirmAdd :: "'w group_ops \<Rightarrow> string \<Rightarrow> 'w \<Rightarrow> unit result \<times> 'w" where
  "gs_confirmAdd ops gid w = go_confirmAdd ops gid w"

definition gs_abortAdd :: "'w group_ops \<Rightarrow> string \<Rightarrow> 'w \<Rightarrow> unit result \<times> 'w" where
  "gs_abortAdd ops gid w = go_abortAdd ops gid w"

definition gs_removeDevice :: "'w group_ops \<Rightarrow> string \<Rightarrow> string \<Rightarrow> 'w \<Rightarrow> bytes result \<times> 'w" where
  "gs_removeDevice ops gid key w = go_removeMember ops gid key w"

definition gs_stageRemoveDevice :: "'w group_ops \<Rightarrow> string \<Rightarrow> string \<Rightarrow> 'w \<Rightarrow> bytes result \<times> 'w" where
  "gs_stageRemoveDevice ops gid key w = go_stageRemove ops gid key w"

definition gs_confirmRemove :: "'w group_ops \<Rightarrow> string \<Rightarrow> 'w \<Rightarrow> unit result \<times> 'w" where
  "gs_confirmRemove ops gid w = go_confirmRemove ops gid w"

definition gs_abortRemove :: "'w group_ops \<Rightarrow> string \<Rightarrow> 'w \<Rightarrow> unit result \<times> 'w" where
  "gs_abortRemove ops gid w = go_abortRemove ops gid w"

definition gs_pendingTarget :: "'w group_ops \<Rightarrow> string \<Rightarrow> 'w \<Rightarrow> string result" where
  "gs_pendingTarget ops gid w = go_pendingTarget ops gid w"

definition gs_pendingCommit :: "'w group_ops \<Rightarrow> string \<Rightarrow> 'w \<Rightarrow> bytes result" where
  "gs_pendingCommit ops gid w = go_pendingCommit ops gid w"

definition gs_pendingWelcome :: "'w group_ops \<Rightarrow> string \<Rightarrow> 'w \<Rightarrow> bytes result" where
  "gs_pendingWelcome ops gid w = go_pendingWelcome ops gid w"

section \<open>The list codec\<close>

definition list_encodable :: "bytes list \<Rightarrow> bool" where
  "list_encodable items \<longleftrightarrow> length items < 2 ^ 32 \<and> list_all (\<lambda>it. length it < 2 ^ 32) items"

lemma decode_items_encoded:
  assumes "list_all (\<lambda>it. length it < 2 ^ 32) items" and "length xs = pos"
  shows "decode_items (length items) (xs @ concat (map (\<lambda>it. u32_be (length it) @ it) items) @ ys) pos
       = Inr (items, pos + length (concat (map (\<lambda>it. u32_be (length it) @ it) items)))"
  using assms
proof (induction items arbitrary: xs pos)
  case Nil
  then show ?case by simp
next
  case (Cons it items)
  let ?rest = "concat (map (\<lambda>it. u32_be (length it) @ it) items) @ ys"
  let ?b = "xs @ u32_be (length it) @ it @ ?rest"
  have "get_u32 ?b pos = Inr (length it)"
    using Cons.prems by (subst get_u32_be) simp_all
  moreover have "slice (pos + 4) (pos + 4 + length it) ((xs @ u32_be (length it)) @ it @ ?rest) = it"
    by (rule slice_append_exact) (use Cons.prems in simp_all)
  moreover have "decode_items (length items) ((xs @ u32_be (length it) @ it) @ ?rest) (pos + 4 + length it)
      = Inr (items, pos + 4 + length it + length (concat (map (\<lambda>it. u32_be (length it) @ it) items)))"
    by (rule Cons.IH) (use Cons.prems in simp_all)
  ultimately show ?case by simp
qed

lemma decodeListAt_encodeList:
  assumes "list_encodable items" and "length xs = pos"
  shows "decodeListAt (xs @ encodeList items @ ys) pos = Inr (items, pos + length (encodeList items))"
proof -
  let ?body = "concat (map (\<lambda>it. u32_be (length it) @ it) items)"
  have "get_u32 (xs @ u32_be (length items) @ ?body @ ys) pos = Inr (length items)"
    using assms by (subst get_u32_be) (simp_all add: list_encodable_def)
  moreover have "decode_items (length items) ((xs @ u32_be (length items)) @ ?body @ ys) (pos + 4)
      = Inr (items, pos + 4 + length ?body)"
    by (rule decode_items_encoded) (use assms in \<open>simp_all add: list_encodable_def\<close>)
  ultimately show ?thesis by (simp add: decodeListAt_def encodeList_def)
qed

interpretation list_codec: byte_codec encodeList decodeList list_encodable
proof unfold_locales
  fix items assume "list_encodable items"
  then show "decodeList (encodeList items) = Inr items"
    using decodeListAt_encodeList [of items "[]" 0 "[]"] by (simp add: decodeList_def)
qed

lemma decode_items_bound:
  "decode_items n b pos = Inr (items, p) \<Longrightarrow> length items = n \<and> (0 < n \<longrightarrow> pos + 4 * n \<le> length b)"
proof (induction n arbitrary: pos items p)
  case 0
  then show ?case by simp
next
  case (Suc n)
  then obtain len items' where g: "get_u32 b pos = Inr len"
    and d: "decode_items n b (pos + 4 + len) = Inr (items', p)" and i: "length items = Suc (length items')"
    by (auto split: sum.splits)
  from g have "pos + 4 \<le> length b" by (auto simp: get_u32_def split: if_splits)
  with Suc.IH [OF d] i show ?case by (cases n) auto
qed

lemma two_parts_encoded:
  "length x < 2 ^ 32 \<Longrightarrow> length y < 2 ^ 32 \<Longrightarrow> two_parts what (encodeList [x, y]) = Inr (x, y)"
  by (simp add: two_parts_def list_codec.dec_enc list_encodable_def)

section \<open>Properties\<close>

text \<open>
  The length-prefixed list shared with the Rust core round-trips at any position of a larger
  buffer: decoding finds exactly the encoded items and leaves the position right behind them, so
  consecutive lists (the added and the removed members of a membership event) do not run into each
  other.
\<close>
theorem encodeList_roundtrip_in_context:
  assumes "list_encodable items"
  shows "decodeListAt (xs @ encodeList items @ ys) (length xs) = Inr (items, length xs + length (encodeList items))"
  using assms by (rule decodeListAt_encodeList) (rule refl)

theorem encodeList_roundtrip_in_context_witness:
  "list_encodable [[1, 2], [], [3]] \<and>
   decodeListAt ([9] @ encodeList [[1, 2], [], [3]] @ [7]) (length [9 :: byte])
     = Inr ([[1, 2], [], [3]], length [9 :: byte] + length (encodeList [[1, 2], [], [3]]))"
proof -
  have h: "list_encodable [[1, 2], [], [3 :: byte]]" by (simp add: list_encodable_def)
  show ?thesis using h encodeList_roundtrip_in_context [OF h, of "[9]" "[7]"] by (rule conjI)
qed

text \<open>
  A hostile item count cannot make the decoder allocate more than the input pays for: every
  successfully decoded list has at most a quarter as many items as the buffer has bytes.
\<close>
theorem decodeList_items_bounded:
  assumes "decodeList b = Inr items"
  shows "4 + 4 * length items \<le> length b"
proof -
  from assms obtain n p where g: "get_u32 b 0 = Inr n" and d: "decode_items n b 4 = Inr (items, p)"
    by (auto simp: decodeList_def decodeListAt_def bind_result_Inr)
  from g have "4 \<le> length b" by (auto simp: get_u32_def split: if_splits)
  with decode_items_bound [OF d] show ?thesis by auto
qed

theorem decodeList_items_bounded_witness:
  "decodeList (encodeList [[1, 2], [3]]) = Inr [[1, 2], [3]]
   \<and> 4 + 4 * length [[1, 2], [3 :: byte]] \<le> length (encodeList [[1, 2], [3]])"
proof -
  have h: "decodeList (encodeList [[1, 2], [3]]) = Inr [[1, 2], [3]]"
    by (rule list_codec.dec_enc) (simp add: list_encodable_def)
  show ?thesis using h decodeList_items_bounded [OF h] by (rule conjI)
qed

text \<open>
  No application payload wedges the receive loop: whatever bytes a member encrypted, malformed
  padding and truncated frames included, dispatching the decrypted blob succeeds. Only a membership
  blob from the wasm whose lists are malformed can throw.
\<close>
theorem application_payload_never_throws:
  "decodeGroupReceived blob = Inl e \<Longrightarrow> at blob 0 = Some 1"
  by (auto simp: decodeGroupReceived_def decodeReceived_def split: sum.splits decoded.splits parsed_frame.splits if_splits)

theorem application_payload_never_throws_witness:
  "decodeGroupReceived [1] = Inl RangeError \<and> at [1 :: byte] 0 = Some 1"
proof -
  have h: "decodeGroupReceived [1] = Inl RangeError"
    by (simp add: decodeGroupReceived_def decodeReceived_def decodeListAt_def get_u32_def)
  show ?thesis using h application_payload_never_throws [OF h] by (rule conjI)
qed

lemma receive_framed:
  assumes recv: "go_receive ops c w = (Inr (encodeList [gid, [0, if own then 1 else 0] @ padToBucket (frameMessage p l)]), w')"
    and fits: "sendable (Incoming (Message p l))" "length (frameMessage p l) < 2 ^ 32"
      "length gid < 2 ^ 32" "length (padToBucket (frameMessage p l)) + 2 < 2 ^ 32"
  shows "receiveGroup ops c w = (Inr (bytesToHex gid, GMessage (Message p l) own), w')"
proof -
  let ?padded = "padToBucket (frameMessage p l)"
  have "bind_result (unpadFromBucket ?padded) parseFrame = Inr (Incoming (Message p l))"
    using wire_codec.layered_dec_enc [of "Incoming (Message p l)"] fits by (simp add: frame_def)
  then have "decodeGroupReceived ([0, if own then 1 else 0] @ ?padded) = Inr (GMessage (Message p l) own)"
    by (simp add: decodeGroupReceived_def decodeReceived_def)
  moreover have "two_parts what (encodeList [gid, [0, if own then 1 else 0] @ ?padded])
      = Inr (gid, [0, if own then 1 else 0] @ ?padded)" for what
    by (rule two_parts_encoded) (use fits in simp_all)
  ultimately show ?thesis by (simp add: receiveGroup_def recv)
qed

text \<open>
  Group delivery end to end: if a member sends a message and the wasm at a receiver turns the
  ciphertext into the group id and the tagged application blob of the same padded plaintext, with the
  own-account flag it authenticated, then \<open>receiveGroup\<close> yields that group's id, the same plaintext and
  lifetime, and the same own-account attribution.
\<close>
theorem group_end_to_end_delivery:
  assumes sent: "gs_send opsA gid rnd p l t wA = (Inr env, wA')"
    and mls: "\<And>x c. go_encrypt opsA gid x wA = (Inr c, wA') \<Longrightarrow>
        go_receive opsB c wB = (Inr (encodeList [gidB, [0, if own then 1 else 0] @ x]), wB')"
    and fits: "sendable (Incoming (Message p l))" "length (frameMessage p l) < 2 ^ 32"
      "length gidB < 2 ^ 32" "length (padToBucket (frameMessage p l)) + 2 < 2 ^ 32"
  shows "receiveGroup opsB (ev_payload env) wB = (Inr (bytesToHex gidB, GMessage (Message p l) own), wB')"
proof -
  let ?padded = "padToBucket (frameMessage p l)"
  from sent have "go_encrypt opsA gid ?padded wA = (Inr (ev_payload env), wA')"
    by (auto simp: gs_send_def gs_seal_def split: sum.splits prod.splits)
  from mls [OF this] have recv: "go_receive opsB (ev_payload env) wB =
      (Inr (encodeList [gidB, [0, if own then 1 else 0] @ ?padded]), wB')" .
  from receive_framed [OF this fits] show ?thesis .
qed

definition demo_gops :: "nat group_ops" where
  "demo_gops = \<lparr>go_createGroup = (\<lambda>_ w. (Inr [], w)), go_createSelfGroup = None,
     go_createSelf = (\<lambda>w. (Inr [], w)), go_joinFromWelcome = (\<lambda>_ w. (Inr [], w)),
     go_groupMailbox = (\<lambda>g _. Inr g), go_encrypt = (\<lambda>_ x w. (Inr (rev x), Suc w)),
     go_receive = (\<lambda>c w. (Inr (encodeList [[170], [0, 1] @ rev c]), Suc w)),
     go_addMember = (\<lambda>_ _ w. (Inr [], w)), go_stageAdd = (\<lambda>_ _ w. (Inr [], w)),
     go_isSelfConversationStrict = None, go_channelUnlinked = None, go_peerAccountKeys = None,
     go_flushReceiveRatchet = None, go_pendingKind = (\<lambda>_ _. Inr 0),
     go_signaturePublicKeyHex = (\<lambda>_. ''d0''), go_accountKeyHex = (\<lambda>_. ''ac''), go_keyPackage = (\<lambda>w. (Inr [1], Suc w)),
     go_groupEpoch = None, go_keyPackageLastResort = None, go_keyPackageSelfEligible = None,
     go_closeConversation = None, go_listConversations = (\<lambda>_. []),
     go_confirmAdd = (\<lambda>_ w. (Inr (), w)), go_abortAdd = (\<lambda>_ w. (Inr (), w)),
     go_removeMember = (\<lambda>_ _ w. (Inr [2], Suc w)), go_stageRemove = (\<lambda>_ _ w. (Inr [3], Suc w)),
     go_confirmRemove = (\<lambda>_ w. (Inr (), w)), go_abortRemove = (\<lambda>_ w. (Inr (), w)),
     go_pendingTarget = (\<lambda>_ _. Inr []), go_pendingCommit = (\<lambda>_ _. Inr []), go_pendingWelcome = (\<lambda>_ _. Inr []),
     go_mailboxTag = (\<lambda>s _. s), go_roster = (\<lambda>_ _. Inr [''d0'', ''d1'']), go_isSelfConversation = (\<lambda>_ _. Inr False),
     go_selfClassificationReason = None, go_abandonDeadSelfGroup = None, go_credentialCertified = None,
     go_authorizeDevice = (\<lambda>_ _ _ _ _. Inr []), go_adoptCertificate = (\<lambda>_ _ _ w. (Inr (), w)),
     go_authorizeScannedDevice = (\<lambda>_ _ _. Inr []), go_recoverWithSeed = (\<lambda>_ _ w. (Inr (), w)),
     go_reauthorizeAtEpoch = (\<lambda>_ w. (Inr (), w)), go_certEpoch = (\<lambda>_. 0), go_revokeDevice = None,
     go_ingestRevocation = None, go_revokedCount = None, go_isDeviceRevoked = None, go_accountFloor = None\<rparr>"

theorem group_end_to_end_delivery_witness:
  "\<exists>env. gs_send demo_gops ''aa'' [5] [72] BurnOnRead None 0 = (Inr env, 1) \<and>
     receiveGroup demo_gops (ev_payload env) 4 = (Inr (''aa'', GMessage (Message [72] BurnOnRead) True), 5)"
proof -
  let ?env = "\<lparr>ev_messageId = [5], ev_routingKey = ''aa'',
     ev_payload = rev (padToBucket (frameMessage [72] BurnOnRead)), ev_ttlSeconds = 604800\<rparr>"
  have sent: "gs_send demo_gops ''aa'' [5] [72] BurnOnRead None 0 = (Inr ?env, 1)"
    by (simp add: gs_send_def gs_seal_def demo_gops_def deriveTtlSeconds_def SEVEN_DAYS_SECONDS_def)
  have "receiveGroup demo_gops (ev_payload ?env) 4 = (Inr (bytesToHex [170], GMessage (Message [72] BurnOnRead) True), 5)"
    by (rule group_end_to_end_delivery [OF sent])
      (auto simp: demo_gops_def sendable_def frameMessage_def length_padToBucket padded_size_def PAD_BUCKETS_def)
  moreover have "bytesToHex [170] = ''aa''"
    by (simp add: bytesToHex_def hex_byte_def hex_digits_def)
  ultimately show ?thesis using sent by auto
qed

end
