(* ===== verification/Transport.thy ===== *)
theory Transport
  imports Session
begin

text \<open>
  The client transport of \<open>client/src/transport.ts\<close> with its adaptive pacing and retransmission, and the
  browser socket of \<open>client/src/wsadapter.ts\<close> under it.

  \<open>Transport\<close> depends on an injected \<open>Socket\<close> and an injected \<open>WireCodec\<close>. The socket interface is the
  locale \<open>socket_iface\<close>, interpreted on the model of \<open>BrowserSocket\<close>. The protobuf codec is generated
  code and a parameter: \<open>encodePublish\<close> is an argument of the operations, an inbound frame is given
  already decoded (\<open>None\<close> for bytes the codec rejects). Timers are flags; a timer callback is an event
  that happens only while its timer is armed.
\<close>

section \<open>BrowserSocket\<close>

text \<open>\<open>bs_wire\<close> is the sequence of byte strings handed to \<open>WebSocket.send\<close>.\<close>

record browser_socket =
  bs_open :: bool
  bs_closed :: bool
  bs_backlog :: "bytes list"
  bs_wire :: "bytes list"

definition new_socket :: browser_socket where
  "new_socket = \<lparr>bs_open = False, bs_closed = False, bs_backlog = [], bs_wire = []\<rparr>"

definition bs_onopen :: "browser_socket \<Rightarrow> browser_socket" where
  "bs_onopen s = s\<lparr>bs_open := True, bs_wire := bs_wire s @ bs_backlog s, bs_backlog := []\<rparr>"

definition bs_onclose :: "browser_socket \<Rightarrow> browser_socket" where
  "bs_onclose s = s\<lparr>bs_open := False, bs_closed := True, bs_backlog := []\<rparr>"

definition bs_send :: "browser_socket \<Rightarrow> bytes \<Rightarrow> browser_socket result" where
  "bs_send s bs =
     (if bs_closed s then Inl (JsError ''connection closed'')
      else if bs_open s then Inr (s\<lparr>bs_wire := bs_wire s @ [bs]\<rparr>)
      else Inr (s\<lparr>bs_backlog := bs_backlog s @ [bs]\<rparr>))"

definition bs_accepted :: "browser_socket \<Rightarrow> bytes list" where
  "bs_accepted s = bs_wire s @ bs_backlog s"

definition bs_inv :: "browser_socket \<Rightarrow> bool" where
  "bs_inv s \<longleftrightarrow> (bs_open s \<longrightarrow> bs_backlog s = [])"

section \<open>Transport\<close>

definition PUBLISH_GAP_FLOOR_MS :: nat where "PUBLISH_GAP_FLOOR_MS = 55"

definition PUBLISH_GAP_CAP_MS :: nat where "PUBLISH_GAP_CAP_MS = 1000"

definition RATE_LIMIT_CODE :: int where "RATE_LIMIT_CODE = 3"

definition CLEAN_STREAK_TO_EASE :: nat where "CLEAN_STREAK_TO_EASE = 8"

definition MAX_UNCONFIRMED :: nat where "MAX_UNCONFIRMED = 256"

record transport =
  tp_publishQueue :: "envelope_msg list"
  tp_publishTimer :: bool
  tp_currentGapMs :: nat
  tp_cleanSinceBackoff :: nat
  tp_retryTimer :: bool
  tp_unconfirmed :: "(string, envelope_msg) jsmap"

definition new_transport :: transport where
  "new_transport = \<lparr>tp_publishQueue = [], tp_publishTimer = False, tp_currentGapMs = PUBLISH_GAP_FLOOR_MS,
     tp_cleanSinceBackoff = 0, tp_retryTimer = False, tp_unconfirmed = []\<rparr>"

definition hexId :: "bytes \<Rightarrow> string" where
  "hexId b = bytesToHex b"

text \<open>The \<open>while\<close> loop that drops the oldest entries of the retry buffer.\<close>

function trim_unconfirmed :: "(string, envelope_msg) jsmap \<Rightarrow> (string, envelope_msg) jsmap" where
  "trim_unconfirmed u =
     (if length u > MAX_UNCONFIRMED
      then (case u of [] \<Rightarrow> u | (oldest, _) # _ \<Rightarrow> trim_unconfirmed (jm_delete oldest u))
      else u)"
  by pat_completeness auto
termination
proof (relation "measure length")
  fix u :: "(string, envelope_msg) jsmap" and x rest k e
  assume "u = x # rest" "(k, e) = x"
  then show "(jm_delete k u, u) \<in> measure length"
    using length_delete_le [of k rest] by auto
qed simp

definition drainPublishQueue ::
    "('s \<Rightarrow> bytes \<Rightarrow> 's result) \<Rightarrow> (envelope_msg \<Rightarrow> bytes result) \<Rightarrow> transport \<times> 's \<Rightarrow> transport \<times> 's" where
  "drainPublishQueue send enc ts = (case ts of (t, sock) \<Rightarrow>
     if tp_publishTimer t then (t, sock)
     else case tp_publishQueue t of
       [] \<Rightarrow> (t, sock)
     | next # rest \<Rightarrow> (case bind_result (enc next) (send sock) of
         Inl _ \<Rightarrow> (t, sock)
       | Inr sock' \<Rightarrow>
           (t\<lparr>tp_publishQueue := rest,
              tp_unconfirmed := trim_unconfirmed (jm_set (hexId (ev_messageId next)) next (tp_unconfirmed t)),
              tp_publishTimer := True\<rparr>, sock')))"

definition publish ::
    "('s \<Rightarrow> bytes \<Rightarrow> 's result) \<Rightarrow> (envelope_msg \<Rightarrow> bytes result) \<Rightarrow> envelope_msg \<Rightarrow> transport \<times> 's
       \<Rightarrow> transport \<times> 's" where
  "publish send enc env ts = (case ts of (t, sock) \<Rightarrow>
     drainPublishQueue send enc (t\<lparr>tp_publishQueue := tp_publishQueue t @ [env]\<rparr>, sock))"

definition publishTimer_fires ::
    "('s \<Rightarrow> bytes \<Rightarrow> 's result) \<Rightarrow> (envelope_msg \<Rightarrow> bytes result) \<Rightarrow> transport \<times> 's \<Rightarrow> transport \<times> 's" where
  "publishTimer_fires send enc ts = (case ts of (t, sock) \<Rightarrow>
     drainPublishQueue send enc (t\<lparr>tp_publishTimer := False\<rparr>, sock))"

text \<open>\<open>Math.ceil(gap * 1.5)\<close> and \<open>Math.floor(gap / 1.5)\<close> on integers of this size are exact.\<close>

definition grow_gap :: "nat \<Rightarrow> nat" where
  "grow_gap g = min PUBLISH_GAP_CAP_MS ((3 * g + 1) div 2)"

definition ease_gap :: "nat \<Rightarrow> nat" where
  "ease_gap g = max PUBLISH_GAP_FLOOR_MS (2 * g div 3)"

definition onRateLimited :: "transport \<Rightarrow> transport" where
  "onRateLimited t =
     t\<lparr>tp_currentGapMs := grow_gap (tp_currentGapMs t), tp_cleanSinceBackoff := 0, tp_retryTimer := True\<rparr>"

definition retryTimer_fires ::
    "('s \<Rightarrow> bytes \<Rightarrow> 's result) \<Rightarrow> (envelope_msg \<Rightarrow> bytes result) \<Rightarrow> transport \<times> 's \<Rightarrow> transport \<times> 's" where
  "retryTimer_fires send enc ts = (case ts of (t, sock) \<Rightarrow>
     let t1 = t\<lparr>tp_retryTimer := False\<rparr>;
         t2 = (if 0 < length (tp_unconfirmed t1)
               then t1\<lparr>tp_publishQueue := jm_values (tp_unconfirmed t1) @ tp_publishQueue t1, tp_unconfirmed := []\<rparr>
               else t1)
     in drainPublishQueue send enc (t2, sock))"

definition onDelivered :: "bytes \<Rightarrow> transport \<Rightarrow> transport" where
  "onDelivered messageId t =
     (let t1 = t\<lparr>tp_unconfirmed := jm_delete (hexId messageId) (tp_unconfirmed t)\<rparr> in
      if tp_currentGapMs t1 > PUBLISH_GAP_FLOOR_MS then
        (let clean = tp_cleanSinceBackoff t1 + 1 in
         if clean \<ge> CLEAN_STREAK_TO_EASE
         then t1\<lparr>tp_currentGapMs := ease_gap (tp_currentGapMs t1), tp_cleanSinceBackoff := 0\<rparr>
         else t1\<lparr>tp_cleanSinceBackoff := clean\<rparr>)
      else t1)"

definition takePending :: "transport \<Rightarrow> envelope_msg list \<times> transport" where
  "takePending t =
     (jm_values (tp_unconfirmed t) @ tp_publishQueue t,
      t\<lparr>tp_publishTimer := False, tp_retryTimer := False, tp_publishQueue := [], tp_unconfirmed := []\<rparr>)"

definition close_transport :: "transport \<Rightarrow> transport" where
  "close_transport t =
     t\<lparr>tp_publishTimer := False, tp_retryTimer := False, tp_publishQueue := [], tp_unconfirmed := []\<rparr>"

datatype server_frame =
    SDeliver envelope_msg
  | SReceipt bytes
  | SError int string
  | SOffer offer_msg
  | SAccept accept_msg

datatype handler_call =
    OnDeliver envelope_msg
  | OnReceipt bytes
  | OnOfferH offer_msg
  | OnAcceptH accept_msg
  | OnError int string

definition dispatch :: "server_frame option \<Rightarrow> transport \<Rightarrow> transport \<times> handler_call" where
  "dispatch decoded t = (case decoded of
     None \<Rightarrow> (t, OnError (-1) ''undecodable server frame'')
   | Some (SDeliver env) \<Rightarrow> (t, OnDeliver env)
   | Some (SReceipt m) \<Rightarrow> (onDelivered m t, OnReceipt m)
   | Some (SOffer f) \<Rightarrow> (t, OnOfferH f)
   | Some (SAccept a) \<Rightarrow> (t, OnAcceptH a)
   | Some (SError code detail) \<Rightarrow>
       (if code = RATE_LIMIT_CODE then onRateLimited t else t, OnError code detail))"

section \<open>Runs\<close>

datatype tp_event =
    Publish envelope_msg
  | PublishTimer
  | RetryTimer
  | Inbound "server_frame option"

definition tp_step ::
    "('s \<Rightarrow> bytes \<Rightarrow> 's result) \<Rightarrow> (envelope_msg \<Rightarrow> bytes result) \<Rightarrow> tp_event \<Rightarrow> transport \<times> 's \<Rightarrow> transport \<times> 's" where
  "tp_step send enc ev ts = (case ev of
     Publish env \<Rightarrow> publish send enc env ts
   | PublishTimer \<Rightarrow> if tp_publishTimer (fst ts) then publishTimer_fires send enc ts else ts
   | RetryTimer \<Rightarrow> if tp_retryTimer (fst ts) then retryTimer_fires send enc ts else ts
   | Inbound f \<Rightarrow> (fst (dispatch f (fst ts)), snd ts))"

fun tp_run ::
    "('s \<Rightarrow> bytes \<Rightarrow> 's result) \<Rightarrow> (envelope_msg \<Rightarrow> bytes result) \<Rightarrow> tp_event list \<Rightarrow> transport \<times> 's \<Rightarrow> transport \<times> 's" where
  "tp_run send enc [] ts = ts"
| "tp_run send enc (e # es) ts = tp_run send enc es (tp_step send enc e ts)"

definition tp_inv :: "transport \<Rightarrow> bool" where
  "tp_inv t \<longleftrightarrow> PUBLISH_GAP_FLOOR_MS \<le> tp_currentGapMs t \<and> tp_currentGapMs t \<le> PUBLISH_GAP_CAP_MS
     \<and> tp_cleanSinceBackoff t < CLEAN_STREAK_TO_EASE
     \<and> length (tp_unconfirmed t) \<le> MAX_UNCONFIRMED \<and> jm_wf (tp_unconfirmed t)
     \<and> list_all (\<lambda>(k, e). k = hexId (ev_messageId e)) (tp_unconfirmed t)"

section \<open>The bounds invariant\<close>

declare trim_unconfirmed.simps [simp del]

lemmas gap_consts = PUBLISH_GAP_FLOOR_MS_def PUBLISH_GAP_CAP_MS_def CLEAN_STREAK_TO_EASE_def MAX_UNCONFIRMED_def

lemma trim_unconfirmed_small: "length u \<le> MAX_UNCONFIRMED \<Longrightarrow> trim_unconfirmed u = u"
  by (simp add: trim_unconfirmed.simps [of u])

lemma trim_unconfirmed_props:
  "length (trim_unconfirmed u) \<le> MAX_UNCONFIRMED \<and> set (trim_unconfirmed u) \<subseteq> set u
     \<and> (jm_wf u \<longrightarrow> jm_wf (trim_unconfirmed u))"
proof (induction u rule: trim_unconfirmed.induct)
  case (1 u)
  show ?case
  proof (cases "length u > MAX_UNCONFIRMED")
    case False
    then show ?thesis by (simp add: trim_unconfirmed_small)
  next
    case True
    then obtain k e rest where u: "u = (k, e) # rest" by (cases u) auto
    with True have "trim_unconfirmed u = trim_unconfirmed (jm_delete k u)"
      by (subst trim_unconfirmed.simps) simp
    moreover have "set (jm_delete k u) \<subseteq> set u" by (auto simp: AList.delete_eq)
    ultimately show ?thesis using "1.IH" [OF True u refl] jm_wf_delete [of u k] by auto
  qed
qed

definition keyed :: "transport \<Rightarrow> bool" where
  "keyed t \<longleftrightarrow> list_all (\<lambda>(k, e). k = hexId (ev_messageId e)) (tp_unconfirmed t)"

lemma keyed_set: "list_all P u \<Longrightarrow> P (k, v) \<Longrightarrow> list_all P (jm_set k v u)"
  by (induction u) auto

lemma list_all_trim: "list_all P u \<Longrightarrow> list_all P (trim_unconfirmed u)"
  using trim_unconfirmed_props [of u] by (auto simp: list_all_iff)

lemma list_all_jm_delete: "list_all P u \<Longrightarrow> list_all P (jm_delete k u)"
  by (induction u) auto

lemma tp_inv_drain: "tp_inv t \<Longrightarrow> tp_inv (fst (drainPublishQueue send enc (t, sock)))"
  using trim_unconfirmed_props
  by (auto simp: drainPublishQueue_def tp_inv_def list_all_trim keyed_set split: list.splits sum.splits)

lemma tp_inv_frame:
  "tp_inv t \<Longrightarrow> tp_inv (t\<lparr>tp_publishTimer := b\<rparr>)" "tp_inv t \<Longrightarrow> tp_inv (t\<lparr>tp_retryTimer := b\<rparr>)"
  "tp_inv t \<Longrightarrow> tp_inv (t\<lparr>tp_publishQueue := q\<rparr>)"
  "tp_inv t \<Longrightarrow> tp_inv (t\<lparr>tp_publishQueue := q, tp_unconfirmed := []\<rparr>)"
  by (auto simp: tp_inv_def)

lemma grow_gap_bounds: "PUBLISH_GAP_FLOOR_MS \<le> g \<Longrightarrow> PUBLISH_GAP_FLOOR_MS \<le> grow_gap g \<and> grow_gap g \<le> PUBLISH_GAP_CAP_MS"
  by (auto simp: grow_gap_def gap_consts)

lemma ease_gap_bounds: "g \<le> PUBLISH_GAP_CAP_MS \<Longrightarrow> PUBLISH_GAP_FLOOR_MS \<le> ease_gap g \<and> ease_gap g \<le> PUBLISH_GAP_CAP_MS"
  by (auto simp: ease_gap_def gap_consts)

lemma tp_inv_onRateLimited: "tp_inv t \<Longrightarrow> tp_inv (onRateLimited t)"
  using grow_gap_bounds [of "tp_currentGapMs t"] by (auto simp: tp_inv_def onRateLimited_def CLEAN_STREAK_TO_EASE_def)

lemma tp_inv_onDelivered: "tp_inv t \<Longrightarrow> tp_inv (onDelivered m t)"
  using ease_gap_bounds [of "tp_currentGapMs t"] length_delete_le [of "hexId m" "tp_unconfirmed t"]
  by (auto simp: tp_inv_def onDelivered_def Let_def list_all_jm_delete CLEAN_STREAK_TO_EASE_def)

lemma tp_inv_step: "tp_inv t \<Longrightarrow> tp_inv (fst (tp_step send enc ev (t, sock)))"
  by (cases ev)
    (auto simp: tp_step_def publish_def publishTimer_fires_def retryTimer_fires_def dispatch_def Let_def
      intro!: tp_inv_drain tp_inv_frame tp_inv_onRateLimited tp_inv_onDelivered
      split: option.splits server_frame.splits)

lemma tp_inv_run: "tp_inv t \<Longrightarrow> tp_inv (fst (tp_run send enc es (t, sock)))"
proof (induction es arbitrary: t sock)
  case Nil
  then show ?case by simp
next
  case (Cons e es)
  obtain t' sock' where "tp_step send enc e (t, sock) = (t', sock')" by fastforce
  with Cons tp_inv_step [OF Cons.prems, of send enc e sock] show ?case by simp
qed

lemma tp_inv_new: "tp_inv new_transport"
  by (simp add: tp_inv_def new_transport_def gap_consts)

section \<open>No frame is lost\<close>

definition pending :: "transport \<Rightarrow> envelope_msg list" where
  "pending t = fst (takePending t)"

lemma pending_eq: "pending t = jm_values (tp_unconfirmed t) @ tp_publishQueue t"
  by (simp add: pending_def takePending_def)

lemma keyed_has: "keyed t \<Longrightarrow> jm_has (tp_unconfirmed t) (hexId m) \<longleftrightarrow> m \<in> ev_messageId ` set (jm_values (tp_unconfirmed t))"
  by (force simp: keyed_def jm_has_keys list_all_iff hexId_def)

text \<open>While ids are distinct and the buffer has room, draining only moves the head of the queue.\<close>

lemma drain_pending:
  assumes "keyed t" and "distinct (map ev_messageId (pending t))" and "length (pending t) \<le> MAX_UNCONFIRMED"
  shows "pending (fst (drainPublishQueue send enc (t, sock))) = pending t
       \<and> keyed (fst (drainPublishQueue send enc (t, sock)))"
proof (cases "tp_publishTimer t \<or> tp_publishQueue t = []")
  case True
  with assms(1) show ?thesis by (auto simp: drainPublishQueue_def)
next
  case False
  then obtain n rest where q: "tp_publishQueue t = n # rest" by (cases "tp_publishQueue t") auto
  let ?u = "tp_unconfirmed t @ [(hexId (ev_messageId n), n)]"
  have "\<not> jm_has (tp_unconfirmed t) (hexId (ev_messageId n))"
    using assms(1,2) q by (auto simp: keyed_has pending_eq)
  then have "jm_set (hexId (ev_messageId n)) n (tp_unconfirmed t) = ?u" by (rule jm_set_new)
  moreover have "trim_unconfirmed ?u = ?u"
    by (rule trim_unconfirmed_small) (use assms(3) q in \<open>simp add: pending_eq\<close>)
  ultimately show ?thesis
    using False q assms(1)
    by (auto simp: drainPublishQueue_def pending_eq keyed_def split: sum.splits)
qed

definition published :: "tp_event list \<Rightarrow> envelope_msg list" where
  "published es = List.map_filter (\<lambda>e. case e of Publish env \<Rightarrow> Some env | _ \<Rightarrow> None) es"

definition receipted :: "tp_event list \<Rightarrow> bytes set" where
  "receipted es = {m. Inbound (Some (SReceipt m)) \<in> set es}"

lemma published_simps [simp]:
  "published [] = []"
  "published (e # es) = (case e of Publish env \<Rightarrow> [env] | _ \<Rightarrow> []) @ published es"
  by (simp_all add: published_def List.map_filter_simps split: tp_event.splits option.splits)

lemma pending_frame [simp]:
  "pending (t\<lparr>tp_publishTimer := b\<rparr>) = pending t" "pending (t\<lparr>tp_retryTimer := b\<rparr>) = pending t"
  "pending (t\<lparr>tp_publishQueue := tp_publishQueue t @ q\<rparr>) = pending t @ q"
  "pending (onRateLimited t) = pending t"
  by (simp_all add: pending_eq onRateLimited_def)

lemma keyed_frame [simp]:
  "keyed (t\<lparr>tp_publishTimer := b\<rparr>) = keyed t" "keyed (t\<lparr>tp_retryTimer := b\<rparr>) = keyed t"
  "keyed (t\<lparr>tp_publishQueue := q\<rparr>) = keyed t" "keyed (onRateLimited t) = keyed t"
  "keyed (t\<lparr>tp_unconfirmed := []\<rparr>)"
  by (simp_all add: keyed_def onRateLimited_def)

text \<open>A receipt removes the confirmed envelope from the unconfirmed half and nothing else.\<close>

lemma jm_values_delete_keyed:
  "list_all (\<lambda>(k, e). k = hexId (ev_messageId e)) u \<Longrightarrow>
     jm_values (jm_delete (hexId m) u) = filter (\<lambda>e. ev_messageId e \<noteq> m) (jm_values u)"
  by (induction u) (auto simp: hexId_def)

lemma onDelivered_fields:
  "tp_unconfirmed (onDelivered m t) = jm_delete (hexId m) (tp_unconfirmed t)"
  "tp_publishQueue (onDelivered m t) = tp_publishQueue t"
  by (simp_all add: onDelivered_def Let_def)

lemma onDelivered_pending:
  assumes "keyed t"
  shows "pending (onDelivered m t) = filter (\<lambda>e. ev_messageId e \<noteq> m) (jm_values (tp_unconfirmed t)) @ tp_publishQueue t"
    and "keyed (onDelivered m t)"
  using assms by (auto simp: pending_eq onDelivered_fields keyed_def jm_values_delete_keyed list_all_jm_delete)

definition is_receipt :: "tp_event \<Rightarrow> bool" where
  "is_receipt ev \<longleftrightarrow> (\<exists>m. ev = Inbound (Some (SReceipt m)))"

lemma step_pending_other:
  assumes "keyed t" and "distinct (map ev_messageId (pending t @ published [ev]))"
    and "length (pending t @ published [ev]) \<le> MAX_UNCONFIRMED" and "\<not> is_receipt ev"
  shows "pending (fst (tp_step send enc ev (t, sock))) = pending t @ published [ev]
       \<and> keyed (fst (tp_step send enc ev (t, sock)))"
proof (cases ev)
  case (Publish e)
  then show ?thesis
    using assms drain_pending [of "t\<lparr>tp_publishQueue := tp_publishQueue t @ [e]\<rparr>" send enc sock]
    by (simp add: tp_step_def publish_def)
next
  case PublishTimer
  then show ?thesis
    using assms drain_pending [of "t\<lparr>tp_publishTimer := False\<rparr>" send enc sock]
    by (simp add: tp_step_def publishTimer_fires_def)
next
  case RetryTimer
  let ?t2 = "if 0 < length (tp_unconfirmed t)
     then t\<lparr>tp_retryTimer := False, tp_publishQueue := jm_values (tp_unconfirmed t) @ tp_publishQueue t, tp_unconfirmed := []\<rparr>
     else t\<lparr>tp_retryTimer := False\<rparr>"
  have "pending ?t2 = pending t" "keyed ?t2" using assms(1) by (auto simp: pending_eq keyed_def)
  with RetryTimer assms drain_pending [of ?t2 send enc sock] show ?thesis
    by (simp add: tp_step_def retryTimer_fires_def Let_def split: if_splits)
next
  case (Inbound f)
  with assms show ?thesis
    by (auto simp: tp_step_def dispatch_def is_receipt_def split: option.splits server_frame.splits)
qed

lemma filter_not_receipted:
  "m \<in> R \<Longrightarrow> filter (\<lambda>e. ev_messageId e \<noteq> m \<and> ev_messageId e \<notin> R) xs = filter (\<lambda>e. ev_messageId e \<notin> R) xs"
  by (rule filter_cong) auto

lemma distinct_filter_prefix: "distinct (map f (xs @ ys)) \<Longrightarrow> distinct (map f (filter P xs @ ys))"
  by (auto simp: distinct_map_filter)

lemma length_filter_prefix: "length (filter P xs @ ys) \<le> length (xs @ ys)"
  by simp

lemma run_pending:
  assumes "keyed t" and "distinct (map ev_messageId (pending t @ published es))"
    and "length (pending t @ published es) \<le> MAX_UNCONFIRMED" and "receipted es \<subseteq> R"
  shows "filter (\<lambda>e. ev_messageId e \<notin> R) (pending (fst (tp_run send enc es (t, sock))))
       = filter (\<lambda>e. ev_messageId e \<notin> R) (pending t @ published es)"
  using assms
proof (induction es arbitrary: t sock)
  case Nil
  then show ?case by simp
next
  case (Cons ev es)
  obtain t' sock' where step: "tp_step send enc ev (t, sock) = (t', sock')" by fastforce
  have R: "receipted es \<subseteq> R" using Cons.prems(4) by (auto simp: receipted_def)
  show ?case
  proof (cases "is_receipt ev")
    case False
    define pub where "pub = published [ev]"
    have split: "published (ev # es) = pub @ published es" by (simp add: pub_def)
    have "pending t' = pending t @ pub \<and> keyed t'"
      using step_pending_other [of t ev send enc sock] False Cons.prems(1-3) step
      unfolding split pub_def [symmetric] by (simp add: Int_Un_distrib)
    then show ?thesis
      using Cons.IH [of t' sock'] Cons.prems R step unfolding split by simp
  next
    case True
    then obtain m where ev: "ev = Inbound (Some (SReceipt m))" by (auto simp: is_receipt_def)
    with step have t': "t' = onDelivered m t" by (simp add: tp_step_def dispatch_def)
    have m: "m \<in> R" using Cons.prems(4) ev by (auto simp: receipted_def)
    have pub: "published (ev # es) = published es" by (simp add: ev)
    let ?u = "jm_values (tp_unconfirmed t)"
    have p: "pending t' = filter (\<lambda>e. ev_messageId e \<noteq> m) ?u @ tp_publishQueue t" and k: "keyed t'"
      using onDelivered_pending [OF Cons.prems(1)] t' by auto
    let ?rest = "tp_publishQueue t @ published es"
    have before: "pending t @ published es = ?u @ ?rest" by (simp add: pending_eq)
    have after: "pending t' @ published es = filter (\<lambda>e. ev_messageId e \<noteq> m) ?u @ ?rest" by (simp add: p)
    have "distinct (map ev_messageId (pending t' @ published es))"
      using Cons.prems(2) unfolding pub before after by (rule distinct_filter_prefix)
    moreover have "length (pending t' @ published es) \<le> MAX_UNCONFIRMED"
      using length_filter_prefix Cons.prems(3) unfolding pub before after by (rule order_trans)
    ultimately show ?thesis
      using Cons.IH [OF k _ _ R, of sock'] step m unfolding pub before after by (simp add: filter_not_receipted)
  qed
qed

section \<open>The socket interface and the order on the wire\<close>

locale socket_iface =
  fixes send :: "'s \<Rightarrow> bytes \<Rightarrow> 's result"
    and accepted :: "'s \<Rightarrow> bytes list"
    and is_closed :: "'s \<Rightarrow> bool"
    and invar :: "'s \<Rightarrow> bool"
  assumes send_open: "invar s \<Longrightarrow> \<not> is_closed s \<Longrightarrow>
      \<exists>s'. send s b = Inr s' \<and> accepted s' = accepted s @ [b] \<and> \<not> is_closed s' \<and> invar s'"
    and send_closed: "is_closed s \<Longrightarrow> \<exists>e. send s b = Inl e"
begin

lemma send_accepts: "send s b = Inr s' \<Longrightarrow> invar s \<Longrightarrow> accepted s' = accepted s @ [b] \<and> invar s'"
  using send_open [of s b] send_closed [of s b] by (cases "is_closed s") auto

lemma drain_order:
  assumes "\<And>e. enc e = Inr (wire e)" and "drainPublishQueue send enc (t, s) = (t', s')" and "invar s"
  shows "accepted s' @ map wire (tp_publishQueue t') = accepted s @ map wire (tp_publishQueue t) \<and> invar s'"
  using assms send_accepts [of s]
  by (auto simp: drainPublishQueue_def split: if_splits list.splits sum.splits)

lemma step_order:
  assumes enc: "\<And>e. enc e = Inr (wire e)" and "ev \<noteq> RetryTimer"
    and step: "tp_step send enc ev (t, s) = (t', s')" and inv: "invar s"
  shows "accepted s' @ map wire (tp_publishQueue t') =
         accepted s @ map wire (tp_publishQueue t) @ map wire (published [ev]) \<and> invar s'"
proof (cases ev)
  case (Publish e)
  with step drain_order [OF enc _ inv] show ?thesis by (fastforce simp: tp_step_def publish_def)
next
  case PublishTimer
  with step inv drain_order [OF enc _ inv] show ?thesis
    by (fastforce simp: tp_step_def publishTimer_fires_def split: if_splits)
next
  case RetryTimer
  with assms(2) show ?thesis by simp
next
  case (Inbound f)
  with step inv show ?thesis
    by (auto simp: tp_step_def dispatch_def onRateLimited_def onDelivered_fields
        split: if_splits option.splits server_frame.splits)
qed

lemma run_order:
  assumes enc: "\<And>e. enc e = Inr (wire e)" and "RetryTimer \<notin> set es"
    and "tp_run send enc es (t, s) = (t', s')" and "invar s"
  shows "accepted s' @ map wire (tp_publishQueue t') =
         accepted s @ map wire (tp_publishQueue t) @ map wire (published es)"
  using assms(2,3,4)
proof (induction es arbitrary: t s)
  case Nil
  then show ?case by simp
next
  case (Cons ev es)
  obtain t1 s1 where step: "tp_step send enc ev (t, s) = (t1, s1)" by fastforce
  have one: "accepted s1 @ map wire (tp_publishQueue t1) =
      accepted s @ map wire (tp_publishQueue t) @ map wire (published [ev]) \<and> invar s1"
    using Cons.prems by (intro step_order [OF enc _ step]) auto
  with Cons step have "accepted s' @ map wire (tp_publishQueue t') =
      accepted s1 @ map wire (tp_publishQueue t1) @ map wire (published es)"
    by simp
  with one show ?case by simp
qed

end

lemma bs_send_law:
  "bs_inv s \<Longrightarrow> \<not> bs_closed s \<Longrightarrow>
     \<exists>s'. bs_send s b = Inr s' \<and> bs_accepted s' = bs_accepted s @ [b] \<and> \<not> bs_closed s' \<and> bs_inv s'"
  by (cases "bs_open s") (simp_all add: bs_send_def bs_accepted_def bs_inv_def)

interpretation bsock: socket_iface bs_send bs_accepted bs_closed bs_inv
  by unfold_locales (use bs_send_law in \<open>auto simp: bs_send_def\<close>)

section \<open>Pacing\<close>

lemma mono_grow_gap: "mono grow_gap"
  by (rule monoI) (auto simp: grow_gap_def intro!: div_le_mono)

lemma mono_ease_gap: "mono ease_gap"
  by (rule monoI) (auto simp: ease_gap_def intro!: div_le_mono)

lemma grow_gap_le: "grow_gap g \<le> PUBLISH_GAP_CAP_MS"
  by (simp add: grow_gap_def)

lemma ease_gap_ge: "PUBLISH_GAP_FLOOR_MS \<le> ease_gap g"
  by (simp add: ease_gap_def)

lemma funpow_8: "(f ^^ 8) x = f (f (f (f (f (f (f (f x)))))))"
  by (simp add: eval_nat_numeral)

lemma grow_gap_8: "PUBLISH_GAP_FLOOR_MS \<le> g \<Longrightarrow> (grow_gap ^^ 8) g = PUBLISH_GAP_CAP_MS"
proof -
  assume g: "PUBLISH_GAP_FLOOR_MS \<le> g"
  have "(grow_gap ^^ 8) PUBLISH_GAP_FLOOR_MS = PUBLISH_GAP_CAP_MS"
    by (simp add: funpow_8 grow_gap_def gap_consts)
  moreover have "(grow_gap ^^ 8) PUBLISH_GAP_FLOOR_MS \<le> (grow_gap ^^ 8) g"
    using mono_grow_gap g by (rule funpow_mono)
  moreover have "(grow_gap ^^ 8) g \<le> PUBLISH_GAP_CAP_MS"
    by (simp add: funpow_8 grow_gap_le)
  ultimately show ?thesis by simp
qed

lemma ease_gap_8: "g \<le> PUBLISH_GAP_CAP_MS \<Longrightarrow> (ease_gap ^^ 8) g = PUBLISH_GAP_FLOOR_MS"
proof -
  assume g: "g \<le> PUBLISH_GAP_CAP_MS"
  have "(ease_gap ^^ 8) PUBLISH_GAP_CAP_MS = PUBLISH_GAP_FLOOR_MS"
    by (simp add: funpow_8 ease_gap_def gap_consts)
  moreover have "(ease_gap ^^ 8) g \<le> (ease_gap ^^ 8) PUBLISH_GAP_CAP_MS"
    using mono_ease_gap g by (rule funpow_mono)
  moreover have "PUBLISH_GAP_FLOOR_MS \<le> (ease_gap ^^ 8) g"
    by (simp add: funpow_8 ease_gap_ge)
  ultimately show ?thesis by simp
qed

text \<open>The pace fields after one receipt, and after eight of them.\<close>

definition pace :: "transport \<Rightarrow> nat \<times> nat" where
  "pace t = (tp_currentGapMs t, tp_cleanSinceBackoff t)"

definition pace_receipt :: "nat \<times> nat \<Rightarrow> nat \<times> nat" where
  "pace_receipt p = (case p of (g, c) \<Rightarrow>
     if g > PUBLISH_GAP_FLOOR_MS
     then if c + 1 \<ge> CLEAN_STREAK_TO_EASE then (ease_gap g, 0) else (g, c + 1)
     else (g, c))"

lemma pace_onDelivered: "pace (onDelivered m t) = pace_receipt (pace t)"
  by (simp add: pace_def pace_receipt_def onDelivered_def Let_def)

lemma pace_fold: "pace (fold onDelivered ms t) = (pace_receipt ^^ length ms) (pace t)"
  by (induction ms arbitrary: t) (simp_all add: pace_onDelivered funpow_swap1)

lemma pace_steps_below:
  "g > PUBLISH_GAP_FLOOR_MS \<Longrightarrow> c + n < CLEAN_STREAK_TO_EASE \<Longrightarrow> (pace_receipt ^^ n) (g, c) = (g, c + n)"
  by (induction n) (simp_all add: pace_receipt_def)

lemma pace_floor: "(pace_receipt ^^ n) (PUBLISH_GAP_FLOOR_MS, c) = (PUBLISH_GAP_FLOOR_MS, c)"
  by (induction n) (simp_all add: pace_receipt_def)

lemma pace_receipt_8:
  assumes "PUBLISH_GAP_FLOOR_MS \<le> g" and "c < CLEAN_STREAK_TO_EASE"
  shows "\<exists>c' < CLEAN_STREAK_TO_EASE. (pace_receipt ^^ 8) (g, c) = (ease_gap g, c')"
proof (cases "g = PUBLISH_GAP_FLOOR_MS")
  case True
  moreover have "ease_gap PUBLISH_GAP_FLOOR_MS = PUBLISH_GAP_FLOOR_MS"
    by (simp add: ease_gap_def gap_consts)
  ultimately show ?thesis using assms(2) by (auto simp: pace_floor)
next
  case False
  with assms have g: "g > PUBLISH_GAP_FLOOR_MS" by simp
  have "(8 :: nat) = c + Suc (7 - c)" using assms(2) by (simp add: CLEAN_STREAK_TO_EASE_def)
  then have "(pace_receipt ^^ 8) (g, c) = (pace_receipt ^^ c) (pace_receipt ((pace_receipt ^^ (7 - c)) (g, c)))"
    by (metis funpow_add funpow.simps(2) comp_apply)
  also have "\<dots> = (pace_receipt ^^ c) (ease_gap g, 0)"
    using assms(2) by (subst pace_steps_below [OF g]) (simp_all add: g pace_receipt_def CLEAN_STREAK_TO_EASE_def)
  finally have eq: "(pace_receipt ^^ 8) (g, c) = (pace_receipt ^^ c) (ease_gap g, 0)" .
  show ?thesis
  proof (cases "ease_gap g > PUBLISH_GAP_FLOOR_MS")
    case True
    with assms(2) eq show ?thesis by (auto simp: pace_steps_below)
  next
    case False
    then have "ease_gap g = PUBLISH_GAP_FLOOR_MS" using ease_gap_ge [of g] by simp
    with eq show ?thesis by (auto simp: pace_floor CLEAN_STREAK_TO_EASE_def)
  qed
qed

lemma pace_receipt_blocks:
  "PUBLISH_GAP_FLOOR_MS \<le> g \<Longrightarrow> c < CLEAN_STREAK_TO_EASE \<Longrightarrow>
     \<exists>c' < CLEAN_STREAK_TO_EASE. (pace_receipt ^^ (8 * n)) (g, c) = ((ease_gap ^^ n) g, c')"
proof (induction n)
  case 0
  then show ?case by auto
next
  case (Suc n)
  then obtain c' where c': "c' < CLEAN_STREAK_TO_EASE"
    and eq: "(pace_receipt ^^ (8 * n)) (g, c) = ((ease_gap ^^ n) g, c')" by blast
  have "PUBLISH_GAP_FLOOR_MS \<le> (ease_gap ^^ n) g"
    using Suc.prems(1) ease_gap_ge by (cases n) auto
  from pace_receipt_8 [OF this c'] obtain c'' where "c'' < CLEAN_STREAK_TO_EASE"
    "(pace_receipt ^^ 8) ((ease_gap ^^ n) g, c') = (ease_gap ((ease_gap ^^ n) g), c'')" by blast
  moreover have "(pace_receipt ^^ (8 * Suc n)) (g, c) = (pace_receipt ^^ 8) ((pace_receipt ^^ (8 * n)) (g, c))"
    by (simp add: funpow_add)
  ultimately show ?case using eq by auto
qed

section \<open>Properties\<close>

text \<open>
  C12. Delivery is never given up silently: for any interleaving of publishes, timer callbacks,
  receipts, rate-limit errors and other inbound frames, over a socket and a codec that may refuse any
  send, with at most 256 publishes of distinct message ids, the frames a reconnect takes over with
  \<open>takePending\<close> are, apart from confirmed ones, exactly the published frames in publication order.
  Nothing unconfirmed is lost, duplicated or reordered.
\<close>
theorem unconfirmed_frames_survive:
  assumes "distinct (map ev_messageId (published es))" and "length (published es) \<le> MAX_UNCONFIRMED"
  shows "filter (\<lambda>e. ev_messageId e \<notin> receipted es)
           (fst (takePending (fst (tp_run send enc es (new_transport, sock)))))
       = filter (\<lambda>e. ev_messageId e \<notin> receipted es) (published es)"
proof -
  have "keyed new_transport" "pending new_transport = []"
    by (simp_all add: keyed_def pending_eq new_transport_def)
  with assms run_pending [of new_transport es "receipted es" send enc sock] show ?thesis
    by (simp add: pending_def)
qed

definition demo_msg :: "nat \<Rightarrow> envelope_msg" where
  "demo_msg n = \<lparr>ev_messageId = [word_of_nat n], ev_routingKey = ''m'', ev_payload = [7], ev_ttlSeconds = 60\<rparr>"

theorem unconfirmed_frames_survive_witness:
  "filter (\<lambda>e. ev_messageId e \<notin> receipted [Publish (demo_msg 1), Publish (demo_msg 2), Inbound (Some (SReceipt [1])), RetryTimer])
     (fst (takePending (fst (tp_run bs_send (\<lambda>e. Inr (ev_payload e))
        [Publish (demo_msg 1), Publish (demo_msg 2), Inbound (Some (SReceipt [1])), RetryTimer] (new_transport, new_socket)))))
   = filter (\<lambda>e. ev_messageId e \<notin> receipted [Publish (demo_msg 1), Publish (demo_msg 2), Inbound (Some (SReceipt [1])), RetryTimer])
       (published [Publish (demo_msg 1), Publish (demo_msg 2), Inbound (Some (SReceipt [1])), RetryTimer])"
  by (rule unconfirmed_frames_survive) (simp_all add: demo_msg_def MAX_UNCONFIRMED_def)

text \<open>
  The pacer stays within its bounds in every reachable state: the gap between 55 and 1000 ms, at
  most 256 frames in the retry buffer, each filed under its own message id.
\<close>
theorem transport_invariant:
  "tp_inv (fst (tp_run send enc es (new_transport, sock)))"
  using tp_inv_new by (rule tp_inv_run)

text \<open>
  Order on the wire: as long as no retransmission sweep runs, what the browser socket has accepted
  followed by what is still queued is exactly what was published, in order, each frame once, whether
  the WebSocket was still connecting, open or closed.
\<close>
theorem wire_order_is_publication_order:
  assumes "RetryTimer \<notin> set es"
    and "tp_run bs_send (\<lambda>e. Inr (wire e)) es (new_transport, s) = (t', s')" and "bs_inv s"
  shows "bs_accepted s' @ map wire (tp_publishQueue t') = bs_accepted s @ map wire (published es)"
  using bsock.run_order [OF _ assms] by (simp add: new_transport_def)

theorem wire_order_is_publication_order_witness:
  "\<exists>t' s'. tp_run bs_send (\<lambda>e. Inr (ev_messageId e)) [Publish (demo_msg 1), Publish (demo_msg 2), PublishTimer]
        (new_transport, new_socket) = (t', s') \<and>
     bs_accepted s' @ map ev_messageId (tp_publishQueue t')
       = bs_accepted new_socket @ map ev_messageId (published [Publish (demo_msg 1), Publish (demo_msg 2), PublishTimer])"
proof -
  obtain t' s' where run: "tp_run bs_send (\<lambda>e. Inr (ev_messageId e))
      [Publish (demo_msg 1), Publish (demo_msg 2), PublishTimer] (new_transport, new_socket) = (t', s')" by fastforce
  have "bs_accepted s' @ map ev_messageId (tp_publishQueue t')
      = bs_accepted new_socket @ map ev_messageId (published [Publish (demo_msg 1), Publish (demo_msg 2), PublishTimer])"
    by (rule wire_order_is_publication_order [OF _ run]) (simp_all add: bs_inv_def new_socket_def)
  with run show ?thesis by blast
qed

text \<open>
  The pace recovers: from any state within the bounds, however far the gap was driven up, 64
  receipts without another rate-limit error bring it back to the 55 ms floor.
\<close>
theorem pace_recovers_after_64_receipts:
  assumes "tp_inv t" and "length ms = 64"
  shows "tp_currentGapMs (fold onDelivered ms t) = PUBLISH_GAP_FLOOR_MS"
proof -
  from assms(1) have b: "PUBLISH_GAP_FLOOR_MS \<le> tp_currentGapMs t" "tp_currentGapMs t \<le> PUBLISH_GAP_CAP_MS"
    "tp_cleanSinceBackoff t < CLEAN_STREAK_TO_EASE" by (auto simp: tp_inv_def)
  from pace_receipt_blocks [OF b(1,3), of 8] obtain c' where
    "(pace_receipt ^^ (8 * 8)) (pace t) = ((ease_gap ^^ 8) (tp_currentGapMs t), c')" by (auto simp: pace_def)
  then have "pace (fold onDelivered ms t) = (PUBLISH_GAP_FLOOR_MS, c')"
    using b(2) assms(2) by (simp add: pace_fold ease_gap_8)
  then show ?thesis by (simp add: pace_def)
qed

theorem pace_recovers_after_64_receipts_witness:
  "tp_currentGapMs (fold onDelivered (replicate 64 [1]) (onRateLimited new_transport)) = PUBLISH_GAP_FLOOR_MS"
  by (rule pace_recovers_after_64_receipts) (simp_all add: tp_inv_onRateLimited tp_inv_new)

end
