(* ===== verification/Vault.thy ===== *)
theory Vault
  imports Framing
begin

text \<open>
  At-rest sealing of one message (\<open>client/src/vault.ts\<close>): the persisted \<open>VaultRecord\<close>, sealing under a
  fresh per-message key wrapped by the master store key, opening, arming, and sealing of metadata
  blobs. AES-256-GCM is the browser's; it enters as the record \<open>aead\<close> with the two documented laws of
  \<open>aead_ok\<close>. Random bytes drawn by the code are arguments of the operations.
\<close>

section \<open>The cipher\<close>

record aead =
  ae_encrypt :: "bytes \<Rightarrow> bytes \<Rightarrow> bytes \<Rightarrow> bytes \<Rightarrow> bytes"
  ae_decrypt :: "bytes \<Rightarrow> bytes \<Rightarrow> bytes \<Rightarrow> bytes \<Rightarrow> bytes option"

text \<open>
  Arguments are the key, the nonce, the additional data and the text. Decryption returns the plaintext
  of what was encrypted under the same key, nonce and additional data, accepts nothing else, and rejects
  inputs shorter than the 16-byte tag.
\<close>

definition aead_ok :: "aead \<Rightarrow> bool" where
  "aead_ok A \<longleftrightarrow>
     (\<forall>k n a p. ae_decrypt A k n a (ae_encrypt A k n a p) = Some p) \<and>
     (\<forall>k n a c p. ae_decrypt A k n a c = Some p \<longrightarrow> c = ae_encrypt A k n a p) \<and>
     (\<forall>k n a c. length c < 16 \<longrightarrow> ae_decrypt A k n a c = None)"

lemma aead_ok_dec_enc: "aead_ok A \<Longrightarrow> ae_decrypt A k n a (ae_encrypt A k n a p) = Some p"
  by (simp add: aead_ok_def)

lemma aead_ok_enc_dec: "aead_ok A \<Longrightarrow> ae_decrypt A k n a c = Some p \<Longrightarrow> c = ae_encrypt A k n a p"
  by (simp add: aead_ok_def)

lemma aead_ok_short: "aead_ok A \<Longrightarrow> length c < 16 \<Longrightarrow> ae_decrypt A k n a c = None"
  by (simp add: aead_ok_def)

text \<open>A concrete cipher that satisfies the laws: the tag binds key, nonce and additional data.\<close>

definition demo_tag :: "bytes \<Rightarrow> bytes \<Rightarrow> bytes \<Rightarrow> bytes" where
  "demo_tag k n a = replicate 16 (sum_list k) @ k @ n @ a"

definition demo_aead :: aead where
  "demo_aead = \<lparr> ae_encrypt = (\<lambda>k n a p. demo_tag k n a @ p),
     ae_decrypt = (\<lambda>k n a c. let t = demo_tag k n a in
        if take (length t) c = t then Some (drop (length t) c) else None) \<rparr>"

lemma demo_aead_ok: "aead_ok demo_aead"
proof -
  have short: "take (length (demo_tag k n a)) c \<noteq> demo_tag k n a" if "length c < 16" for k n a c
  proof
    assume "take (length (demo_tag k n a)) c = demo_tag k n a"
    then have "length (demo_tag k n a) \<le> length c" by (metis length_take min.cobounded1)
    with that show False by (simp add: demo_tag_def)
  qed
  then show ?thesis
    by (auto simp: aead_ok_def demo_aead_def Let_def split: if_splits) (metis append_take_drop_id)
qed

section \<open>Records\<close>

datatype direction = In | Out

record vault_record =
  messageId :: string
  conversationId :: string
  direction :: direction
  lifetimeKind :: string
  expiresAtMs :: "int option"
  durationSeconds :: "nat option"
  storedAtMs :: int
  is_read :: bool
  ownAuthored :: bool
  v_nonce :: bytes
  v_ciphertext :: bytes
  wrappedPmk :: bytes
  wrapNonce :: bytes

record seal_meta =
  m_messageId :: string
  m_conversationId :: string
  m_direction :: direction
  m_lifetime :: lifetime
  m_ownAuthored :: bool

definition lifetime_kind :: "lifetime \<Rightarrow> string" where
  "lifetime_kind l = (case l of BurnOnRead \<Rightarrow> ''burn-on-read'' | Duration _ \<Rightarrow> ''duration''
     | UntilRevoked \<Rightarrow> ''until-revoked'')"

definition lifetime_seconds :: "lifetime \<Rightarrow> nat option" where
  "lifetime_seconds l = (case l of Duration s \<Rightarrow> Some s | _ \<Rightarrow> None)"

definition vault_aad :: "string \<Rightarrow> string \<Rightarrow> string \<Rightarrow> bytes" where
  "vault_aad mid cid kind =
     TextEncoder_encode (mid @ ''|'' @ cid @ ''|'' @ kind @ ''|'' @ ''AES-GCM'')"

definition expiryMs :: "lifetime \<Rightarrow> int \<Rightarrow> int option" where
  "expiryMs l nowMs = (case l of Duration s \<Rightarrow> Some (nowMs + int s * 1000) | _ \<Rightarrow> None)"

text \<open>The three byte strings \<open>seal\<close> draws from \<open>getRandomValues\<close>.\<close>

record seal_random =
  r_pmk :: bytes
  r_nonce :: bytes
  r_wrapNonce :: bytes

definition seal :: "aead \<Rightarrow> seal_random \<Rightarrow> bytes \<Rightarrow> seal_meta \<Rightarrow> bytes \<Rightarrow> int \<Rightarrow> bool \<Rightarrow> vault_record" where
  "seal A rnd msk meta framedPlaintext nowMs arm =
     (let additional = vault_aad (m_messageId meta) (m_conversationId meta) (lifetime_kind (m_lifetime meta));
          ct = ae_encrypt A (r_pmk rnd) (r_nonce rnd) additional framedPlaintext;
          wp = ae_encrypt A msk (r_wrapNonce rnd) additional (r_pmk rnd)
      in \<lparr> messageId = m_messageId meta, conversationId = m_conversationId meta,
           direction = m_direction meta, lifetimeKind = lifetime_kind (m_lifetime meta),
           expiresAtMs = (if arm then expiryMs (m_lifetime meta) nowMs else None),
           durationSeconds = lifetime_seconds (m_lifetime meta),
           storedAtMs = nowMs, is_read = False,
           ownAuthored = (m_direction meta = Out \<or> m_ownAuthored meta),
           v_nonce = r_nonce rnd, v_ciphertext = ct, wrappedPmk = wp, wrapNonce = r_wrapNonce rnd \<rparr>)"

definition armRecord :: "vault_record \<Rightarrow> int \<Rightarrow> vault_record" where
  "armRecord r nowMs =
     (if lifetimeKind r \<noteq> ''duration'' \<or> expiresAtMs r \<noteq> None then r
      else case durationSeconds r of None \<Rightarrow> r
        | Some s \<Rightarrow> r\<lparr>expiresAtMs := Some (nowMs + int s * 1000)\<rparr>)"

text \<open>A failed \<open>decrypt\<close> rejects with an \<open>OperationError\<close>.\<close>

definition decrypt_error :: js_error where
  "decrypt_error = JsError ''OperationError''"

definition open_record :: "aead \<Rightarrow> bytes \<Rightarrow> vault_record \<Rightarrow> bytes result" where
  "open_record A msk r =
     (let additional = vault_aad (messageId r) (conversationId r) (lifetimeKind r) in
      case ae_decrypt A msk (wrapNonce r) additional (wrappedPmk r) of
        None \<Rightarrow> Inl decrypt_error
      | Some pmk \<Rightarrow>
          (case ae_decrypt A pmk (v_nonce r) additional (v_ciphertext r) of
             None \<Rightarrow> Inl decrypt_error
           | Some framed \<Rightarrow> Inr framed))"

definition sealUnder :: "aead \<Rightarrow> bytes \<Rightarrow> bytes \<Rightarrow> bytes \<Rightarrow> string \<Rightarrow> bytes" where
  "sealUnder A nonce msk plaintext aad = nonce @ ae_encrypt A msk nonce (TextEncoder_encode aad) plaintext"

definition openUnder :: "aead \<Rightarrow> bytes \<Rightarrow> bytes \<Rightarrow> string \<Rightarrow> bytes result" where
  "openUnder A msk sealed aad =
     (if length sealed < 12 then Inl (JsError ''sealed blob too short'')
      else case ae_decrypt A msk (slice 0 12 sealed) (TextEncoder_encode aad) (drop 12 sealed) of
        None \<Rightarrow> Inl decrypt_error | Some p \<Rightarrow> Inr p)"

section \<open>What sealing promises\<close>

lemma seal_fields [simp]:
  "messageId (seal A rnd msk meta p t arm) = m_messageId meta"
  "conversationId (seal A rnd msk meta p t arm) = m_conversationId meta"
  "lifetimeKind (seal A rnd msk meta p t arm) = lifetime_kind (m_lifetime meta)"
  "storedAtMs (seal A rnd msk meta p t arm) = t"
  "\<not> is_read (seal A rnd msk meta p t arm)"
  by (simp_all add: seal_def Let_def)

lemma lifetime_kind_eqs [simp]:
  "lifetime_kind l = ''burn-on-read'' \<longleftrightarrow> l = BurnOnRead"
  "lifetime_kind l = ''until-revoked'' \<longleftrightarrow> l = UntilRevoked"
  "lifetime_kind l = ''duration'' \<longleftrightarrow> lifetime_seconds l \<noteq> None"
  by (simp_all add: lifetime_kind_def lifetime_seconds_def split: lifetime.splits)

lemma armRecord_fields [simp]:
  "messageId (armRecord r t) = messageId r" "conversationId (armRecord r t) = conversationId r"
  "lifetimeKind (armRecord r t) = lifetimeKind r" "is_read (armRecord r t) = is_read r"
  "wrappedPmk (armRecord r t) = wrappedPmk r" "storedAtMs (armRecord r t) = storedAtMs r"
  by (simp_all add: armRecord_def split: option.splits)

lemma open_armRecord [simp]: "open_record A msk (armRecord r t) = open_record A msk r"
  by (auto simp: armRecord_def open_record_def Let_def intro!: option.case_cong split: option.split)

lemma open_seal:
  "aead_ok A \<Longrightarrow> open_record A msk (seal A rnd msk meta p t arm) = Inr p"
  by (simp add: open_record_def seal_def Let_def aead_ok_dec_enc)

lemma armRecord_after_unarmed_seal:
  "expiresAtMs (armRecord (seal A rnd msk meta p t0 False) t) = expiryMs (m_lifetime meta) t"
  by (simp add: armRecord_def seal_def Let_def expiryMs_def lifetime_seconds_def lifetime_kind_def
      split: lifetime.splits)

lemma armRecord_keeps_deadline: "expiresAtMs r = Some d \<Longrightarrow> armRecord r t = r"
  by (simp add: armRecord_def)

lemma open_erased: "aead_ok A \<Longrightarrow> length (wrappedPmk r) < 16 \<Longrightarrow> open_record A msk r = Inl decrypt_error"
  by (simp add: open_record_def aead_ok_short)

lemma openUnder_sealUnder:
  "aead_ok A \<Longrightarrow> length nonce = 12 \<Longrightarrow> openUnder A msk (sealUnder A nonce msk p aad) aad = Inr p"
  by (simp add: openUnder_def sealUnder_def slice_def aead_ok_dec_enc)

lemma openUnder_Inr:
  "aead_ok A \<Longrightarrow> openUnder A msk sealed aad = Inr p \<Longrightarrow>
     sealed = sealUnder A (take 12 sealed) msk p aad"
  by (auto simp: openUnder_def sealUnder_def slice_def split: if_splits option.splits
      dest!: aead_ok_enc_dec) (metis append_take_drop_id)

section \<open>The KeyvaultStore interface\<close>

text \<open>
  The interface the lifetime manager is written against. Updating a present record is exact;
  creating one may drop records (a memory-held store has a ceiling) but never invents or alters any.
\<close>

record 's kv_ops =
  ks_get :: "'s \<Rightarrow> string \<Rightarrow> vault_record option"
  ks_put :: "vault_record \<Rightarrow> 's \<Rightarrow> 's"
  ks_delete :: "string \<Rightarrow> 's \<Rightarrow> 's"
  ks_list :: "'s \<Rightarrow> vault_record list"

definition cryptoErase :: "'s kv_ops \<Rightarrow> string \<Rightarrow> 's \<Rightarrow> 's" where
  "cryptoErase K mid s = ks_delete K mid s"

locale keyvault_store =
  fixes K :: "'s kv_ops" and inv :: "'s \<Rightarrow> bool"
  assumes get_id: "inv s \<Longrightarrow> ks_get K s k = Some r \<Longrightarrow> messageId r = k"
    and inv_put: "inv s \<Longrightarrow> inv (ks_put K r s)"
    and inv_delete: "inv s \<Longrightarrow> inv (ks_delete K k s)"
    and get_put_update: "inv s \<Longrightarrow> ks_get K s (messageId r) \<noteq> None \<Longrightarrow>
      ks_get K (ks_put K r s) k = (if k = messageId r then Some r else ks_get K s k)"
    and get_put_create: "inv s \<Longrightarrow> ks_get K (ks_put K r s) k = None \<or>
      ks_get K (ks_put K r s) k = (if k = messageId r then Some r else ks_get K s k)"
    and get_delete: "inv s \<Longrightarrow> ks_get K (ks_delete K i s) k = (if k = i then None else ks_get K s k)"
    and list_get: "inv s \<Longrightarrow> r \<in> set (ks_list K s) \<longleftrightarrow> (\<exists>k. ks_get K s k = Some r)"
    and list_distinct: "inv s \<Longrightarrow> distinct (map messageId (ks_list K s))"

text \<open>A store that drops nothing on its own.\<close>

locale exact_keyvault_store = keyvault_store +
  assumes get_put: "inv s \<Longrightarrow> ks_get K (ks_put K r s) k = (if k = messageId r then Some r else ks_get K s k)"

end
