(* ===== verification/Idb.thy ===== *)
theory Idb
  imports Vault "HOL-Library.Multiset" "HOL-Library.List_Lexorder" "HOL-Library.Char_ord"
begin

text \<open>
  The IndexedDB adapters of \<open>client/src/idb.ts\<close>: the five object stores, the message keyvault and the
  channel store with their history-off (memory) mode, the sealed session and device-settings stores,
  the master-store-key vault, and the panic wipe. Every method is a total function on \<open>device\<close>, the
  database together with the memory the two adapters of one worker hold; a method runs to completion
  before the next one starts. IndexedDB requests are taken to succeed.
\<close>

section \<open>Object stores\<close>

text \<open>An object store enumerates its records by ascending primary key.\<close>

fun os_put :: "'k::linorder \<Rightarrow> 'v \<Rightarrow> ('k, 'v) jsmap \<Rightarrow> ('k, 'v) jsmap" where
  "os_put k v [] = [(k, v)]"
| "os_put k v ((k', v') # m) =
     (if k = k' then (k, v) # m
      else if k < k' then (k, v) # (k', v') # m
      else (k', v') # os_put k v m)"

definition os_wf :: "('k::linorder, 'v) jsmap \<Rightarrow> bool" where
  "os_wf m \<longleftrightarrow> sorted_wrt (<) (map fst m)"

lemma os_get_put [jsmap_simps]: "jm_get (os_put k v m) k' = (if k = k' then Some v else jm_get m k')"
  by (induction k v m rule: os_put.induct) auto

lemma os_put_keys: "fst ` set (os_put k v m) = insert k (fst ` set m)"
  by (induction k v m rule: os_put.induct) auto

lemma os_wf_Nil [simp]: "os_wf []"
  by (simp add: os_wf_def)

lemma os_wf_put [simp]: "os_wf m \<Longrightarrow> os_wf (os_put k v m)"
proof (induction k v m rule: os_put.induct)
  case (2 k v k' v' m)
  then show ?case using os_put_keys [of k v m] by (auto simp: os_wf_def)
qed (simp add: os_wf_def)

lemma os_wf_delete [simp]: "os_wf m \<Longrightarrow> os_wf (jm_delete k m)"
  by (auto simp: os_wf_def AList.delete_eq sorted_wrt_map intro: sorted_wrt_filter)

lemma os_wf_jm_wf: "os_wf m \<Longrightarrow> jm_wf m"
  by (simp add: os_wf_def jm_wf_def strict_sorted_iff)

lemma set_os_put: "set (os_put k v m) \<subseteq> insert (k, v) (set m)"
  by (induction k v m rule: os_put.induct) auto

lemma set_jm_delete: "set (jm_delete k m) \<subseteq> set m"
  by (auto simp: AList.delete_eq)

lemma set_jm_set: "set (jm_set k v m) \<subseteq> insert (k, v) (set m)"
  by (induction m) auto

section \<open>The database and the adapters' memory\<close>

record kdf_descriptor =
  algo :: string
  kdf_v :: nat
  kdf_m :: nat
  kdf_t :: nat
  kdf_p :: nat

definition KDF_DESCRIPTOR :: kdf_descriptor where
  "KDF_DESCRIPTOR = \<lparr> algo = ''argon2id'', kdf_v = 1, kdf_m = 65536, kdf_t = 3, kdf_p = 1 \<rparr>"

record msk_record =
  msk_id :: string
  wrappedMsk :: bytes
  msk_salt :: bytes
  msk_wrapNonce :: bytes
  msk_kdf :: kdf_descriptor

record sealed_session =
  ss_conversationId :: string
  ss_sealed :: bytes

record channel_record =
  ch_id :: string
  ch_blob :: bytes

record device_setting_record =
  ds_id :: string
  ds_blob :: bytes

record idb =
  vault :: "(string, msk_record) jsmap"
  mls_state :: "(string, sealed_session) jsmap"
  messages :: "(string, vault_record) jsmap"
  channels :: "(string, channel_record) jsmap"
  device_settings :: "(string, device_setting_record) jsmap"

definition empty_db :: idb where
  "empty_db = \<lparr> vault = [], mls_state = [], messages = [], channels = [], device_settings = [] \<rparr>"

record device =
  db :: idb
  kv_ephemeral :: bool
  kv_mem :: "(string, vault_record) jsmap"
  cs_ephemeral :: bool
  cs_mem :: "(string, channel_record) jsmap"

text \<open>A new worker over a database: both adapters start outside history-off mode with empty memory.\<close>

definition new_device :: "idb \<Rightarrow> device" where
  "new_device d = \<lparr> db = d, kv_ephemeral = False, kv_mem = [], cs_ephemeral = False, cs_mem = [] \<rparr>"

section \<open>IndexedDbKeyvaultStore\<close>

definition EPHEMERAL_PER_CONV_MAX :: nat where
  "EPHEMERAL_PER_CONV_MAX = 500"

definition kv_setEphemeral :: "bool \<Rightarrow> device \<Rightarrow> device" where
  "kv_setEphemeral on d = d\<lparr>kv_ephemeral := on, kv_mem := (if on then kv_mem d else [])\<rparr>"

definition kv_get :: "device \<Rightarrow> string \<Rightarrow> vault_record option" where
  "kv_get d mid = (case jm_get (kv_mem d) mid of
      Some held \<Rightarrow> Some held
    | None \<Rightarrow> jm_get (messages (db d)) mid)"

definition mine :: "string \<Rightarrow> (string, vault_record) jsmap \<Rightarrow> vault_record list" where
  "mine cid mem = filter (\<lambda>v. conversationId v = cid) (jm_values mem)"

definition evictOldest :: "string \<Rightarrow> (string, vault_record) jsmap \<Rightarrow> (string, vault_record) jsmap" where
  "evictOldest cid mem =
     (let ms = mine cid mem in
      if length ms \<le> EPHEMERAL_PER_CONV_MAX then mem
      else fold (\<lambda>v m. jm_delete (messageId v) m)
             (take (length ms - EPHEMERAL_PER_CONV_MAX) (sort_key storedAtMs ms)) mem)"

definition kv_put :: "vault_record \<Rightarrow> device \<Rightarrow> device" where
  "kv_put r d =
     (if jm_has (kv_mem d) (messageId r) then d\<lparr>kv_mem := jm_set (messageId r) r (kv_mem d)\<rparr>
      else if kv_ephemeral d \<and> jm_get (messages (db d)) (messageId r) = None then
        d\<lparr>kv_mem := evictOldest (conversationId r) (jm_set (messageId r) r (kv_mem d))\<rparr>
      else d\<lparr>db := (db d)\<lparr>messages := os_put (messageId r) r (messages (db d))\<rparr>\<rparr>)"

definition kv_delete :: "string \<Rightarrow> device \<Rightarrow> device" where
  "kv_delete mid d =
     d\<lparr>kv_mem := jm_delete mid (kv_mem d),
       db := (db d)\<lparr>messages := jm_delete mid (messages (db d))\<rparr>\<rparr>"

definition kv_list :: "device \<Rightarrow> vault_record list" where
  "kv_list d = jm_values (messages (db d)) @ jm_values (kv_mem d)"

text \<open>The \<open>conversationId\<close> index enumerates equal keys by ascending primary key, as the fallback scan does.\<close>

definition kv_listByConversation :: "string \<Rightarrow> device \<Rightarrow> vault_record list" where
  "kv_listByConversation cid d =
     mine cid (messages (db d)) @ (if kv_mem d = [] then [] else mine cid (kv_mem d))"

definition kv_purgeDurable :: "device \<Rightarrow> device" where
  "kv_purgeDurable d = d\<lparr>db := (db d)\<lparr>messages := []\<rparr>\<rparr>"

section \<open>The other stores\<close>

definition ss_save :: "sealed_session \<Rightarrow> idb \<Rightarrow> idb" where
  "ss_save s d = d\<lparr>mls_state := os_put (ss_conversationId s) s (mls_state d)\<rparr>"

definition ss_load :: "string \<Rightarrow> idb \<Rightarrow> sealed_session option" where
  "ss_load cid d = jm_get (mls_state d) cid"

definition ss_delete :: "string \<Rightarrow> idb \<Rightarrow> idb" where
  "ss_delete cid d = d\<lparr>mls_state := jm_delete cid (mls_state d)\<rparr>"

definition cs_setEphemeral :: "bool \<Rightarrow> device \<Rightarrow> device" where
  "cs_setEphemeral on d = d\<lparr>cs_ephemeral := on, cs_mem := (if on then cs_mem d else [])\<rparr>"

definition cs_put :: "channel_record \<Rightarrow> device \<Rightarrow> device" where
  "cs_put r d =
     (if cs_ephemeral d \<or> jm_has (cs_mem d) (ch_id r) then d\<lparr>cs_mem := jm_set (ch_id r) r (cs_mem d)\<rparr>
      else d\<lparr>db := (db d)\<lparr>channels := os_put (ch_id r) r (channels (db d))\<rparr>\<rparr>)"

definition cs_get :: "string \<Rightarrow> device \<Rightarrow> channel_record option" where
  "cs_get i d = (case jm_get (cs_mem d) i of Some held \<Rightarrow> Some held
     | None \<Rightarrow> jm_get (channels (db d)) i)"

definition cs_list :: "device \<Rightarrow> channel_record list" where
  "cs_list d =
     (if cs_mem d = [] then jm_values (channels (db d))
      else jm_values (fold (\<lambda>(i, r) m. jm_set i r m) (cs_mem d)
             (fold (\<lambda>r m. jm_set (ch_id r) r m) (jm_values (channels (db d))) [])))"

definition cs_delete :: "string \<Rightarrow> device \<Rightarrow> device" where
  "cs_delete i d =
     d\<lparr>cs_mem := jm_delete i (cs_mem d), db := (db d)\<lparr>channels := jm_delete i (channels (db d))\<rparr>\<rparr>"

definition cs_purgeDurable :: "device \<Rightarrow> device" where
  "cs_purgeDurable d = d\<lparr>db := (db d)\<lparr>channels := []\<rparr>\<rparr>"

definition ds_put :: "device_setting_record \<Rightarrow> idb \<Rightarrow> idb" where
  "ds_put r d = d\<lparr>device_settings := os_put (ds_id r) r (device_settings d)\<rparr>"

definition ds_get :: "string \<Rightarrow> idb \<Rightarrow> device_setting_record option" where
  "ds_get i d = jm_get (device_settings d) i"

definition ds_list :: "idb \<Rightarrow> device_setting_record list" where
  "ds_list d = jm_values (device_settings d)"

definition ds_delete :: "string \<Rightarrow> idb \<Rightarrow> idb" where
  "ds_delete i d = d\<lparr>device_settings := jm_delete i (device_settings d)\<rparr>"

section \<open>MskVault and the panic wipe\<close>

text \<open>\<open>derive\<close> is the injected Argon2id of the wasm core.\<close>

type_synonym derive_kek = "string \<Rightarrow> bytes \<Rightarrow> bytes"

definition MSK_PREFIX :: string where "MSK_PREFIX = ''msk:''"

definition mv_get :: "string \<Rightarrow> idb \<Rightarrow> msk_record option" where
  "mv_get account d = jm_get (vault d) (MSK_PREFIX @ account)"

definition mv_exists :: "string \<Rightarrow> idb \<Rightarrow> bool" where
  "mv_exists account d \<longleftrightarrow> mv_get account d \<noteq> None"

definition mv_delete :: "string \<Rightarrow> idb \<Rightarrow> idb" where
  "mv_delete account d = d\<lparr>vault := jm_delete (MSK_PREFIX @ account) (vault d)\<rparr>"

definition mv_putRecord :: "msk_record \<Rightarrow> idb \<Rightarrow> idb" where
  "mv_putRecord rec d = d\<lparr>vault := os_put (msk_id rec) rec (vault d)\<rparr>"

record msk_random =
  rnd_salt :: bytes
  rnd_msk :: bytes
  rnd_wrapNonce :: bytes

definition mv_create ::
  "aead \<Rightarrow> derive_kek \<Rightarrow> msk_random \<Rightarrow> string \<Rightarrow> string \<Rightarrow> idb \<Rightarrow> bytes \<times> idb" where
  "mv_create A derive rnd account credential d =
     (let kek = derive credential (rnd_salt rnd);
          wrapped = ae_encrypt A kek (rnd_wrapNonce rnd) (rnd_salt rnd) (rnd_msk rnd)
      in (rnd_msk rnd,
          mv_putRecord \<lparr> msk_id = MSK_PREFIX @ account, wrappedMsk = wrapped, msk_salt = rnd_salt rnd,
             msk_wrapNonce = rnd_wrapNonce rnd, msk_kdf = KDF_DESCRIPTOR \<rparr> d))"

definition mv_unlock :: "aead \<Rightarrow> derive_kek \<Rightarrow> string \<Rightarrow> string \<Rightarrow> idb \<Rightarrow> bytes option" where
  "mv_unlock A derive account credential d =
     (case mv_get account d of
        None \<Rightarrow> None
      | Some rec \<Rightarrow> ae_decrypt A (derive credential (msk_salt rec)) (msk_wrapNonce rec)
                      (msk_salt rec) (wrappedMsk rec))"

text \<open>
  \<open>panicWipe\<close> commits five transactions in order; \<open>panicWipe_trace\<close> lists the database after each of
  them, so that an interruption leaves one of these states.
\<close>

definition clear_vault :: "idb \<Rightarrow> idb" where
  "clear_vault d = d\<lparr>vault := []\<rparr>"

definition panicWipe_steps :: "(idb \<Rightarrow> idb) list" where
  "panicWipe_steps =
     [clear_vault, (\<lambda>d. d\<lparr>messages := []\<rparr>), (\<lambda>d. d\<lparr>mls_state := []\<rparr>),
      (\<lambda>d. d\<lparr>channels := []\<rparr>), (\<lambda>d. d\<lparr>device_settings := []\<rparr>)]"

definition panicWipe :: "idb \<Rightarrow> idb" where
  "panicWipe d = fold (\<lambda>f s. f s) panicWipe_steps d"

definition panicWipe_interrupted :: "nat \<Rightarrow> idb \<Rightarrow> idb" where
  "panicWipe_interrupted n d = fold (\<lambda>f s. f s) (take n panicWipe_steps) d"

section \<open>Reading back what was stored\<close>

lemma mine_subset: "set (mine cid m) \<subseteq> set (jm_values m)"
  by (auto simp: mine_def)

lemma jm_get_fold_delete:
  "jm_get (fold (\<lambda>v m. jm_delete (f v) m) vs m) k = (if k \<in> f ` set vs then None else jm_get m k)"
  by (induction vs arbitrary: m) (auto simp: jsmap_simps)

lemma jm_wf_fold_delete [simp]: "jm_wf m \<Longrightarrow> jm_wf (fold (\<lambda>v m. jm_delete (f v) m) vs m)"
  by (induction vs arbitrary: m) auto

lemma set_fold_delete: "set (fold (\<lambda>v m. jm_delete (f v) m) vs m) \<subseteq> set m"
  by (induction vs arbitrary: m) (auto dest: subsetD [OF set_jm_delete])

lemma evictOldest_get:
  "jm_get (evictOldest cid m) k = None \<or> jm_get (evictOldest cid m) k = jm_get m k"
  by (simp add: evictOldest_def Let_def jm_get_fold_delete)

lemma evictOldest_wf [simp]: "jm_wf m \<Longrightarrow> jm_wf (evictOldest cid m)"
  by (simp add: evictOldest_def Let_def)

lemma set_evictOldest: "set (evictOldest cid m) \<subseteq> set m"
  by (auto simp: evictOldest_def Let_def dest: subsetD [OF set_fold_delete])

text \<open>
  The invariant of the keyvault: keys are unique, every record is filed under its own id, and no id is
  both in memory and on disk.
\<close>

definition id_keyed :: "(string, vault_record) jsmap \<Rightarrow> bool" where
  "id_keyed m \<longleftrightarrow> (\<forall>(k, r) \<in> set m. messageId r = k)"

definition kv_ok :: "device \<Rightarrow> bool" where
  "kv_ok d \<longleftrightarrow> os_wf (messages (db d)) \<and> jm_wf (kv_mem d) \<and> id_keyed (messages (db d)) \<and> id_keyed (kv_mem d) \<and>
     (\<forall>k. jm_has (kv_mem d) k \<longrightarrow> \<not> jm_has (messages (db d)) k)"

lemma id_keyed_mono: "id_keyed m \<Longrightarrow> set m' \<subseteq> insert (messageId r, r) (set m) \<Longrightarrow> id_keyed m'"
  by (auto simp: id_keyed_def)

lemma id_keyed_sub: "id_keyed m \<Longrightarrow> set m' \<subseteq> set m \<Longrightarrow> id_keyed m'"
  by (auto simp: id_keyed_def)

lemmas id_keyed_intros [intro] =
  id_keyed_mono [OF _ set_os_put] id_keyed_mono [OF _ set_jm_set] id_keyed_sub [OF _ set_jm_delete]
  id_keyed_sub [OF _ set_evictOldest]

lemma id_keyed_get: "id_keyed m \<Longrightarrow> jm_get m k = Some r \<Longrightarrow> messageId r = k"
  by (auto simp: id_keyed_def dest!: map_of_SomeD)

lemma kv_ok_get: "kv_ok d \<Longrightarrow> kv_get d k = Some r \<Longrightarrow> messageId r = k"
  by (auto simp: kv_ok_def kv_get_def split: option.splits dest: id_keyed_get)

lemma jm_has_evictOldest: "jm_has (evictOldest cid m) k \<Longrightarrow> jm_has m k"
  using evictOldest_get [of cid m k] by (auto simp: jm_has_def)

lemma kv_ok_put: "kv_ok d \<Longrightarrow> kv_ok (kv_put r d)"
  by (auto simp: kv_ok_def kv_put_def jsmap_simps dest!: jm_has_evictOldest)
     (auto simp: jm_has_def jsmap_simps split: if_splits)

lemma kv_ok_delete: "kv_ok d \<Longrightarrow> kv_ok (kv_delete k d)"
  by (auto simp: kv_ok_def kv_delete_def jsmap_simps)

lemma kv_ok_new: "os_wf (messages d) \<Longrightarrow> id_keyed (messages d) \<Longrightarrow> kv_ok (new_device d)"
  by (simp add: kv_ok_def new_device_def id_keyed_def jm_has_def)

lemma kv_get_put_update:
  "kv_get d (messageId r) \<noteq> None \<Longrightarrow>
     kv_get (kv_put r d) k = (if k = messageId r then Some r else kv_get d k)"
  by (auto simp: kv_get_def kv_put_def jsmap_simps jm_has_def split: option.splits)

lemma kv_get_put_create:
  assumes "kv_ok d"
  shows "kv_get (kv_put r d) k = None \<or>
     kv_get (kv_put r d) k = (if k = messageId r then Some r else kv_get d k)"
proof (cases "jm_has (kv_mem d) (messageId r) \<or> \<not> (kv_ephemeral d \<and> jm_get (messages (db d)) (messageId r) = None)")
  case True
  then show ?thesis by (auto simp: kv_get_def kv_put_def jsmap_simps jm_has_def split: option.splits)
next
  case False
  define m where "m = jm_set (messageId r) r (kv_mem d)"
  have eq: "kv_put r d = d\<lparr>kv_mem := evictOldest (conversationId r) m\<rparr>"
    using False by (simp add: kv_put_def m_def)
  have disk: "jm_get (messages (db d)) k = None" if "jm_get m k \<noteq> None"
    using that False assms by (auto simp: m_def jsmap_simps kv_ok_def jm_has_def split: if_splits)
  show ?thesis
    using evictOldest_get [of "conversationId r" m k] disk False
    by (auto simp: eq kv_get_def m_def jsmap_simps split: option.splits if_splits)
qed

lemma kv_get_delete: "kv_get (kv_delete i d) k = (if k = i then None else kv_get d k)"
  by (simp add: kv_get_def kv_delete_def jsmap_simps split: option.splits)

lemma in_values_iff: "jm_wf m \<Longrightarrow> r \<in> set (jm_values m) \<longleftrightarrow> (\<exists>k. jm_get m k = Some r)"
  by (force simp: jm_wf_def dest: map_of_SomeD)

lemma kv_list_get:
  assumes "kv_ok d" shows "r \<in> set (kv_list d) \<longleftrightarrow> (\<exists>k. kv_get d k = Some r)"
proof -
  have "jm_wf (messages (db d))" "jm_wf (kv_mem d)" using assms by (auto simp: kv_ok_def os_wf_jm_wf)
  then have "r \<in> set (kv_list d) \<longleftrightarrow> (\<exists>k. jm_get (messages (db d)) k = Some r) \<or> (\<exists>k. jm_get (kv_mem d) k = Some r)"
    by (simp only: kv_list_def set_append Un_iff in_values_iff)
  moreover have "kv_get d k = Some r \<longleftrightarrow> jm_get (messages (db d)) k = Some r \<or> jm_get (kv_mem d) k = Some r" for k
    using assms by (auto simp: kv_get_def kv_ok_def jm_has_def split: option.splits)
  ultimately show ?thesis by blast
qed

lemma id_keyed_ids: "id_keyed m \<Longrightarrow> map messageId (jm_values m) = map fst m"
  by (auto simp: id_keyed_def)

lemma kv_list_distinct:
  assumes "kv_ok d" shows "distinct (map messageId (kv_list d))"
proof -
  have w: "jm_wf (messages (db d))" "jm_wf (kv_mem d)" using assms by (auto simp: kv_ok_def os_wf_jm_wf)
  have "map messageId (kv_list d) = map fst (messages (db d)) @ map fst (kv_mem d)"
    using assms id_keyed_ids [of "messages (db d)"] id_keyed_ids [of "kv_mem d"]
    by (simp add: kv_list_def kv_ok_def del: map_map)
  then show ?thesis
    using w assms by (auto simp: jm_wf_def kv_ok_def jm_has_keys)
qed

definition idb_keyvault :: "device kv_ops" where
  "idb_keyvault = \<lparr> ks_get = kv_get, ks_put = kv_put, ks_delete = kv_delete, ks_list = kv_list \<rparr>"

lemma idb_keyvault_simps [simp]:
  "ks_get idb_keyvault = kv_get" "ks_put idb_keyvault = kv_put"
  "ks_delete idb_keyvault = kv_delete" "ks_list idb_keyvault = kv_list"
  by (simp_all add: idb_keyvault_def)

interpretation idb_store: keyvault_store idb_keyvault kv_ok
  by unfold_locales
     (auto simp: kv_ok_put kv_ok_delete kv_list_get kv_list_distinct kv_get_delete kv_get_put_update
       dest: kv_ok_get kv_get_put_create)

text \<open>Outside history-off mode nothing is held in memory and the store is exact.\<close>

definition kv_durable :: "device \<Rightarrow> bool" where
  "kv_durable d \<longleftrightarrow> kv_ok d \<and> \<not> kv_ephemeral d \<and> kv_mem d = []"

lemma kv_durable_ok: "kv_durable d \<Longrightarrow> kv_ok d"
  by (simp add: kv_durable_def)

lemma kv_durable_put: "kv_durable d \<Longrightarrow> kv_durable (kv_put r d)"
  by (auto simp: kv_durable_def kv_ok_put) (auto simp: kv_put_def jm_has_def)

lemma kv_durable_delete: "kv_durable d \<Longrightarrow> kv_durable (kv_delete k d)"
  by (auto simp: kv_durable_def kv_ok_delete) (auto simp: kv_delete_def)

lemma kv_durable_get_put:
  "kv_durable d \<Longrightarrow> kv_get (kv_put r d) k = (if k = messageId r then Some r else kv_get d k)"
  by (auto simp: kv_durable_def kv_put_def kv_get_def jm_has_def jsmap_simps)

interpretation disk_store: exact_keyvault_store idb_keyvault kv_durable
  by unfold_locales
     (auto simp: kv_durable_put kv_durable_delete kv_durable_get_put kv_get_delete
        kv_durable_ok kv_list_get kv_list_distinct dest: kv_durable_ok kv_ok_get)

section \<open>The memory ceiling of history-off mode\<close>

lemma mine_delete: "id_keyed m \<Longrightarrow> mine cid (jm_delete k m) = filter (\<lambda>v. messageId v \<noteq> k) (mine cid m)"
  by (induction m) (auto simp: mine_def id_keyed_def)

lemma mine_fold_delete:
  "id_keyed m \<Longrightarrow> mine cid (fold (\<lambda>v m. jm_delete (messageId v) m) vs m) =
     filter (\<lambda>v. messageId v \<notin> messageId ` set vs) (mine cid m)"
proof (induction vs arbitrary: m)
  case (Cons v vs)
  have "id_keyed (jm_delete (messageId v) m)" using Cons.prems by blast
  with Cons show ?case by (simp add: mine_delete conj_commute)
qed simp

lemma filter_not_taken:
  "distinct (map f xs) \<Longrightarrow> filter (\<lambda>x. f x \<notin> f ` set (take n xs)) xs = drop n xs"
proof -
  assume d: "distinct (map f xs)"
  have "f ` set (take n xs) \<inter> f ` set (drop n xs) = {}"
    using d by (metis append_take_drop_id distinct_append list.set_map map_append)
  then have "filter (\<lambda>x. f x \<notin> f ` set (take n xs)) (take n xs @ drop n xs) = drop n xs"
    by (subst filter_append) (auto simp: filter_empty_conv filter_id_conv simp del: append_take_drop_id)
  then show ?thesis by simp
qed

lemma distinct_mine: "jm_wf m \<Longrightarrow> id_keyed m \<Longrightarrow> distinct (map messageId (mine cid m))"
proof -
  assume "jm_wf m" "id_keyed m"
  then have "distinct (map messageId (jm_values m))" by (simp add: id_keyed_ids jm_wf_def del: map_map)
  then show ?thesis by (simp add: mine_def distinct_map_filter)
qed

lemma evicted_mine:
  assumes "jm_wf m" "id_keyed m" and s_def: "s = sort_key storedAtMs (mine cid m)"
  shows "mset (mine cid (evictOldest cid m)) = mset (drop (length s - EPHEMERAL_PER_CONV_MAX) s)"
proof (cases "length s \<le> EPHEMERAL_PER_CONV_MAX")
  case True
  then show ?thesis by (simp add: evictOldest_def Let_def s_def)
next
  case False
  let ?n = "length s - EPHEMERAL_PER_CONV_MAX"
  have "distinct (map messageId s)"
    using distinct_mine [OF assms(1,2), of cid] by (simp add: s_def distinct_map inj_on_def)
  then have "filter (\<lambda>v. messageId v \<notin> messageId ` set (take ?n s)) s = drop ?n s"
    by (rule filter_not_taken)
  moreover have "mset (filter P (mine cid m)) = mset (filter P s)" for P
    by (simp add: s_def mset_filter)
  ultimately show ?thesis
    using False assms(2) by (simp add: evictOldest_def Let_def s_def mine_fold_delete flip: mset_filter)
qed

lemma evictOldest_bound:
  "jm_wf m \<Longrightarrow> id_keyed m \<Longrightarrow> length (mine cid (evictOldest cid m)) \<le> EPHEMERAL_PER_CONV_MAX"
  using arg_cong [OF evicted_mine [OF _ _ refl], of m size cid] by simp

lemma evictOldest_keeps_newest:
  assumes wf: "jm_wf m" "id_keyed m"
    and v: "v \<in> set (mine cid m)" "v \<notin> set (mine cid (evictOldest cid m))"
    and w: "w \<in> set (mine cid (evictOldest cid m))"
  shows "storedAtMs v \<le> storedAtMs w"
proof -
  define s where "s = sort_key storedAtMs (mine cid m)"
  let ?n = "length s - EPHEMERAL_PER_CONV_MAX"
  have kept: "set (mine cid (evictOldest cid m)) = set (drop ?n s)"
    using evicted_mine [OF wf s_def] by (metis set_mset_mset)
  have "set s = set (mine cid m)" by (simp add: s_def)
  then have "v \<in> set (take ?n s)"
    using v kept by (metis Un_iff append_take_drop_id set_append)
  moreover have "sorted (map storedAtMs (take ?n s @ drop ?n s))" by (simp add: s_def)
  ultimately show ?thesis
    using w kept by (auto simp: sorted_append simp del: append_take_drop_id)
qed

lemma evictOldest_other:
  assumes "id_keyed m" "cid' \<noteq> cid" "jm_wf m"
  shows "mine cid' (evictOldest cid m) = mine cid' m"
proof -
  have "messageId v \<notin> messageId ` set vs"
    if v: "v \<in> set (mine cid' m)" and vs: "set vs \<subseteq> set (mine cid m)" for v vs
  proof
    assume "messageId v \<in> messageId ` set vs"
    then obtain w where w: "w \<in> set (mine cid m)" "messageId w = messageId v" using vs by auto
    have "distinct (map messageId (jm_values m))"
      using assms by (simp add: id_keyed_ids jm_wf_def del: map_map)
    then have "inj_on messageId (set (jm_values m))" by (simp only: distinct_map [of messageId])
    then have "w = v"
      using w v by (meson inj_onD mine_subset subsetD)
    with w v assms(2) show False by (auto simp: mine_def)
  qed
  then have "filter (\<lambda>v. messageId v \<notin> messageId ` set vs) (mine cid' m) = mine cid' m"
    if "set vs \<subseteq> set (mine cid m)" for vs
    using that by (simp add: filter_id_conv)
  moreover have "set (take n (sort_key storedAtMs (mine cid m))) \<subseteq> set (mine cid m)" for n
    by (metis set_sort set_take_subset)
  ultimately show ?thesis
    using assms(1) by (simp add: evictOldest_def Let_def mine_fold_delete)
qed

text \<open>
  History-off mode holds new messages in memory under a ceiling and off the disk. Storing a record
  that is on neither side leaves the database as it was, leaves at most 500 memory records for its
  conversation, keeps every record of the other conversations, and drops a record of the conversation
  only if no kept one is older.
\<close>
theorem history_off_memory_ceiling:
  assumes "kv_ok d" "kv_ephemeral d" "kv_get d (messageId r) = None"
  shows "db (kv_put r d) = db d \<and>
    length (mine (conversationId r) (kv_mem (kv_put r d))) \<le> EPHEMERAL_PER_CONV_MAX \<and>
    (\<forall>cid. cid \<noteq> conversationId r \<longrightarrow> mine cid (kv_mem (kv_put r d)) = mine cid (kv_mem d)) \<and>
    (\<forall>v w. v \<in> insert r (set (mine (conversationId r) (kv_mem d))) \<and>
           v \<notin> set (mine (conversationId r) (kv_mem (kv_put r d))) \<and>
           w \<in> set (mine (conversationId r) (kv_mem (kv_put r d))) \<longrightarrow> storedAtMs v \<le> storedAtMs w)"
proof (intro conjI allI impI; (elim conjE)?)
  define m where "m = jm_set (messageId r) r (kv_mem d)"
  have new: "\<not> jm_has (kv_mem d) (messageId r)" "jm_get (messages (db d)) (messageId r) = None"
    using assms(3) by (auto simp: kv_get_def jm_has_def split: option.splits)
  then have put: "kv_put r d = d\<lparr>kv_mem := evictOldest (conversationId r) m\<rparr>"
    using assms(2) by (simp add: kv_put_def m_def)
  have wf: "jm_wf m" "id_keyed m" using assms(1) by (auto simp: kv_ok_def m_def)
  have m: "m = kv_mem d @ [(messageId r, r)]" using new(1) by (simp add: m_def jm_set_new)
  show "db (kv_put r d) = db d" by (simp add: put)
  show "length (mine (conversationId r) (kv_mem (kv_put r d))) \<le> EPHEMERAL_PER_CONV_MAX"
    using wf by (simp add: put evictOldest_bound)
  show "mine cid (kv_mem (kv_put r d)) = mine cid (kv_mem d)" if "cid \<noteq> conversationId r" for cid
    using wf that by (simp add: put evictOldest_other) (simp add: m mine_def)
  show "storedAtMs v \<le> storedAtMs w"
    if "v \<in> insert r (set (mine (conversationId r) (kv_mem d)))"
      and "v \<notin> set (mine (conversationId r) (kv_mem (kv_put r d)))"
      and "w \<in> set (mine (conversationId r) (kv_mem (kv_put r d)))" for v w
    using evictOldest_keeps_newest [OF wf, of v "conversationId r" w] that by (auto simp: put m mine_def)
qed

definition demo_meta :: "string \<Rightarrow> lifetime \<Rightarrow> seal_meta" where
  "demo_meta i l = \<lparr> m_messageId = i, m_conversationId = ''c1'', m_direction = In, m_lifetime = l,
     m_ownAuthored = False \<rparr>"

definition demo_random :: seal_random where
  "demo_random = \<lparr> r_pmk = [7, 8], r_nonce = [1], r_wrapNonce = [2] \<rparr>"

definition demo_record :: "string \<Rightarrow> lifetime \<Rightarrow> int \<Rightarrow> vault_record" where
  "demo_record i l t = seal demo_aead demo_random [5] (demo_meta i l) [42] t True"

lemma kv_ok_empty: "kv_ok (new_device empty_db)" "kv_ok (kv_setEphemeral True (new_device empty_db))"
  by (simp_all add: kv_ok_def new_device_def empty_db_def kv_setEphemeral_def id_keyed_def jm_has_def)

theorem history_off_memory_ceiling_witness:
  "length (mine ''c1'' (kv_mem (kv_put (demo_record ''m1'' BurnOnRead 10)
      (kv_setEphemeral True (new_device empty_db))))) \<le> 500"
  using history_off_memory_ceiling [OF kv_ok_empty(2), of "demo_record ''m1'' BurnOnRead 10"]
  by (simp add: kv_setEphemeral_def new_device_def empty_db_def kv_get_def demo_record_def demo_meta_def
      EPHEMERAL_PER_CONV_MAX_def)

text \<open>
  A fresh vault unlocks to the key it was created with, other accounts are not touched, and an
  unlock with any credential succeeds only if the key derived from that credential is the one that
  authenticates the stored wrap; deleting the account's record makes every unlock fail.
\<close>
theorem msk_vault_roundtrip:
  assumes "aead_ok A" and "mv_create A derive rnd account credential d = (msk, d')"
  shows "mv_unlock A derive account credential d' = Some msk \<and>
    (\<forall>other c. other \<noteq> account \<longrightarrow> mv_unlock A derive other c d' = mv_unlock A derive other c d) \<and>
    (\<forall>c m. mv_unlock A derive account c d' = Some m \<longrightarrow>
       ae_encrypt A (derive c (rnd_salt rnd)) (rnd_wrapNonce rnd) (rnd_salt rnd) m =
       ae_encrypt A (derive credential (rnd_salt rnd)) (rnd_wrapNonce rnd) (rnd_salt rnd) msk) \<and>
    (\<forall>c. mv_unlock A derive account c (mv_delete account d') = None)"
proof (intro conjI allI impI)
  let ?rec = "\<lparr> msk_id = MSK_PREFIX @ account,
      wrappedMsk = ae_encrypt A (derive credential (rnd_salt rnd)) (rnd_wrapNonce rnd) (rnd_salt rnd) msk,
      msk_salt = rnd_salt rnd, msk_wrapNonce = rnd_wrapNonce rnd, msk_kdf = KDF_DESCRIPTOR \<rparr>"
  have d': "d' = mv_putRecord ?rec d"
    using assms(2) by (auto simp: mv_create_def Let_def)
  have get: "mv_get a d' = (if a = account then Some ?rec else mv_get a d)" for a
    by (simp add: d' mv_get_def mv_putRecord_def jsmap_simps)
  show "mv_unlock A derive account credential d' = Some msk"
    by (simp add: mv_unlock_def get aead_ok_dec_enc [OF assms(1)])
  show "mv_unlock A derive other c d' = mv_unlock A derive other c d" if "other \<noteq> account" for other c
    using that by (simp add: mv_unlock_def get)
  show "ae_encrypt A (derive c (rnd_salt rnd)) (rnd_wrapNonce rnd) (rnd_salt rnd) m =
        ae_encrypt A (derive credential (rnd_salt rnd)) (rnd_wrapNonce rnd) (rnd_salt rnd) msk"
    if "mv_unlock A derive account c d' = Some m" for c m
    using that aead_ok_enc_dec [OF assms(1)] by (simp add: mv_unlock_def get)
  show "mv_unlock A derive account c (mv_delete account d') = None" for c
    by (simp add: mv_unlock_def mv_get_def mv_delete_def jsmap_simps)
qed

theorem msk_vault_roundtrip_witness:
  "mv_unlock demo_aead (\<lambda>c s. TextEncoder_encode c @ s) ''alice'' ''pw''
     (snd (mv_create demo_aead (\<lambda>c s. TextEncoder_encode c @ s) \<lparr> rnd_salt = [1], rnd_msk = [9], rnd_wrapNonce = [3] \<rparr>
        ''alice'' ''pw'' empty_db)) = Some [9]"
  using msk_vault_roundtrip [THEN conjunct1, OF demo_aead_ok, of "\<lambda>c s. TextEncoder_encode c @ s"
      "\<lparr> rnd_salt = [1], rnd_msk = [9], rnd_wrapNonce = [3] \<rparr>" "''alice''" "''pw''" empty_db "[9]"
      "snd (mv_create demo_aead (\<lambda>c s. TextEncoder_encode c @ s)
        \<lparr> rnd_salt = [1], rnd_msk = [9], rnd_wrapNonce = [3] \<rparr> ''alice'' ''pw'' empty_db)"]
  by (simp add: mv_create_def Let_def)

text \<open>
  C13. The panic wipe is fail-safe: interrupted after any positive number of its transactions it has
  already destroyed every account's wrapped key, so no credential unlocks any account; run to the end it
  leaves all five object stores empty.
\<close>
theorem panicWipe_destroys_keys_first:
  "mv_unlock A derive account credential (panicWipe_interrupted (Suc n) d) = None \<and>
   panicWipe d = empty_db \<and> panicWipe_interrupted (length panicWipe_steps) d = panicWipe d"
proof -
  have keep: "vault (fold (\<lambda>f s. f s) fs s) = vault s"
    if "set fs \<subseteq> set (tl panicWipe_steps)" for fs and s :: idb
    using that by (induction fs arbitrary: s) (auto simp: panicWipe_steps_def)
  have "set (take n (tl panicWipe_steps)) \<subseteq> set (tl panicWipe_steps)" by (rule set_take_subset)
  moreover have "take (Suc n) panicWipe_steps = clear_vault # take n (tl panicWipe_steps)"
    by (simp add: panicWipe_steps_def)
  ultimately have "vault (panicWipe_interrupted (Suc n) d) = []"
    using keep by (simp add: panicWipe_interrupted_def clear_vault_def)
  then show ?thesis
    by (simp add: mv_unlock_def mv_get_def panicWipe_interrupted_def)
       (simp add: panicWipe_def panicWipe_steps_def empty_db_def clear_vault_def)
qed

end
