(* ===== verification/Lifetime.thy ===== *)
theory Lifetime
  imports Idb
begin

text \<open>
  \<open>LifetimeManager\<close> of \<open>client/src/lifetime.ts\<close>: storing into the keyvault, arming expiry timers,
  the resume sweep, burn-on-read, revoke and timer expiry. The manager is written against the
  \<open>KeyvaultStore\<close> interface (\<open>kv_ops\<close>); its lemmas are proved in the locales of that interface and used
  for the IndexedDB adapter. The injected hooks become state: \<open>scheduled\<close> is what \<open>schedule\<close> was asked
  for and \<open>cancel\<close> has not removed, \<open>erased\<close> the calls of \<open>onErased\<close>. The clock reading is an argument,
  one per operation.
\<close>

section \<open>The manager\<close>

datatype erasure_reason = ByDuration | ByBurn | ByRevoke

record 's lifetime_manager =
  store :: 's
  timers :: "(string, nat) jsmap"
  scheduled :: "(nat \<times> int \<times> string) list"
  next_handle :: nat
  erased :: "(string \<times> erasure_reason \<times> string) list"

definition new_manager :: "'s \<Rightarrow> 's lifetime_manager" where
  "new_manager s = \<lparr> store = s, timers = [], scheduled = [], next_handle = 0, erased = [] \<rparr>"

definition hook_schedule :: "int \<Rightarrow> string \<Rightarrow> 's lifetime_manager \<Rightarrow> nat \<times> 's lifetime_manager" where
  "hook_schedule due mid m =
     (next_handle m, m\<lparr>scheduled := scheduled m @ [(next_handle m, due, mid)], next_handle := next_handle m + 1\<rparr>)"

definition hook_cancel :: "nat \<Rightarrow> 's lifetime_manager \<Rightarrow> 's lifetime_manager" where
  "hook_cancel h m = m\<lparr>scheduled := filter (\<lambda>e. fst e \<noteq> h) (scheduled m)\<rparr>"

definition hook_onErased ::
  "string \<Rightarrow> erasure_reason \<Rightarrow> string \<Rightarrow> 's lifetime_manager \<Rightarrow> 's lifetime_manager" where
  "hook_onErased mid reason cid m = m\<lparr>erased := erased m @ [(mid, reason, cid)]\<rparr>"

definition cancel_timer :: "string \<Rightarrow> 's lifetime_manager \<Rightarrow> 's lifetime_manager" where
  "cancel_timer mid m =
     (case jm_get (timers m) mid of
        None \<Rightarrow> m
      | Some h \<Rightarrow> (hook_cancel h m)\<lparr>timers := jm_delete mid (timers m)\<rparr>)"

definition expire ::
  "'s kv_ops \<Rightarrow> string \<Rightarrow> erasure_reason \<Rightarrow> 's lifetime_manager \<Rightarrow> 's lifetime_manager" where
  "expire K mid reason m =
     (let m1 = cancel_timer mid m in
      case ks_get K (store m1) mid of
        None \<Rightarrow> m1
      | Some r \<Rightarrow> hook_onErased mid reason (conversationId r) (m1\<lparr>store := cryptoErase K mid (store m1)\<rparr>))"

definition revoke :: "'s kv_ops \<Rightarrow> string \<Rightarrow> 's lifetime_manager \<Rightarrow> 's lifetime_manager" where
  "revoke K mid m = expire K mid ByRevoke m"

definition arm :: "'s kv_ops \<Rightarrow> int \<Rightarrow> vault_record \<Rightarrow> 's lifetime_manager \<Rightarrow> 's lifetime_manager" where
  "arm K now r m =
     (if lifetimeKind r \<noteq> ''duration'' then m
      else case expiresAtMs r of
        None \<Rightarrow> m
      | Some d \<Rightarrow>
          let delay = d - now in
          if delay \<le> 0 then expire K (messageId r) ByDuration m
          else let (h, m1) = hook_schedule (now + delay) (messageId r) m
               in m1\<lparr>timers := jm_set (messageId r) h (timers m1)\<rparr>)"

definition storeIncoming ::
  "aead \<Rightarrow> 's kv_ops \<Rightarrow> seal_random \<Rightarrow> int \<Rightarrow> bytes \<Rightarrow> seal_meta \<Rightarrow> bytes \<Rightarrow> bool \<Rightarrow>
   's lifetime_manager \<Rightarrow> vault_record \<times> 's lifetime_manager" where
  "storeIncoming A K rnd now msk meta plaintext armNow m =
     (case ks_get K (store m) (m_messageId meta) of
        Some existing \<Rightarrow> (existing, m)
      | None \<Rightarrow>
          let r = seal A rnd msk meta plaintext now armNow;
              m1 = m\<lparr>store := ks_put K r (store m)\<rparr>
          in (r, if armNow then arm K now r m1 else m1))"

definition armOnView ::
  "'s kv_ops \<Rightarrow> int \<Rightarrow> string \<Rightarrow> vault_record option \<Rightarrow> 's lifetime_manager \<Rightarrow> 's lifetime_manager" where
  "armOnView K now mid known m =
     (if (case known of None \<Rightarrow> False | Some r \<Rightarrow> expiresAtMs r \<noteq> None \<or> lifetimeKind r \<noteq> ''duration'') then m
      else case ks_get K (store m) mid of
        None \<Rightarrow> m
      | Some r \<Rightarrow>
          if expiresAtMs r \<noteq> None \<or> lifetimeKind r \<noteq> ''duration'' then m
          else let armed = armRecord r now
               in arm K now armed (m\<lparr>store := ks_put K armed (store m)\<rparr>))"

definition sweep_one :: "'s kv_ops \<Rightarrow> int \<Rightarrow> vault_record \<Rightarrow> 's lifetime_manager \<Rightarrow> 's lifetime_manager" where
  "sweep_one K now r m =
     (case expiresAtMs r of
        None \<Rightarrow> m
      | Some d \<Rightarrow>
          if lifetimeKind r \<noteq> ''duration'' then m
          else if d \<le> now then expire K (messageId r) ByDuration m
          else if \<not> jm_has (timers m) (messageId r) then arm K now r m
          else m)"

definition sweepExpired :: "'s kv_ops \<Rightarrow> int \<Rightarrow> 's lifetime_manager \<Rightarrow> 's lifetime_manager" where
  "sweepExpired K now m = fold (sweep_one K now) (ks_list K (store m)) m"

definition tombstone :: "vault_record \<Rightarrow> vault_record" where
  "tombstone r = r\<lparr>is_read := True, v_nonce := [], v_ciphertext := [], wrappedPmk := [], wrapNonce := []\<rparr>"

text \<open>The body of \<open>openBurnOnRead\<close>, which runs under the exclusive lock of the message.\<close>

definition openBurnOnRead ::
  "aead \<Rightarrow> 's kv_ops \<Rightarrow> bytes \<Rightarrow> string \<Rightarrow> 's lifetime_manager \<Rightarrow> bytes option result \<times> 's lifetime_manager" where
  "openBurnOnRead A K msk mid m =
     (case ks_get K (store m) mid of
        None \<Rightarrow> (Inr None, m)
      | Some r \<Rightarrow>
          if is_read r \<or> lifetimeKind r \<noteq> ''burn-on-read'' then (Inr None, m)
          else case open_record A msk r of
            Inl e \<Rightarrow> (Inl e, m)
          | Inr framed \<Rightarrow>
              (Inr (Some framed),
               hook_onErased mid ByBurn (conversationId r) (m\<lparr>store := ks_put K (tombstone r) (store m)\<rparr>)))"

section \<open>Sequences of operations\<close>

text \<open>
  What the owning worker runs, one operation after another, each at a clock reading. \<open>Fire\<close> runs the
  callback of a scheduled timer that is due.
\<close>

datatype lm_op =
    Store seal_random seal_meta bytes bool
  | View string "vault_record option"
  | Sweep
  | OpenBurn string
  | Revoke string
  | Fire nat

definition fire :: "'s kv_ops \<Rightarrow> int \<Rightarrow> nat \<Rightarrow> 's lifetime_manager \<Rightarrow> 's lifetime_manager" where
  "fire K now h m =
     (case jm_get (scheduled m) h of
        None \<Rightarrow> m
      | Some (due, mid) \<Rightarrow> if due \<le> now then expire K mid ByDuration (hook_cancel h m) else m)"

fun lm_step :: "aead \<Rightarrow> 's kv_ops \<Rightarrow> bytes \<Rightarrow> int \<times> lm_op \<Rightarrow> 's lifetime_manager \<Rightarrow>
    bytes option \<times> 's lifetime_manager" where
  "lm_step A K msk (now, Store rnd meta p armNow) m =
     (None, snd (storeIncoming A K rnd now msk meta p armNow m))"
| "lm_step A K msk (now, View mid known) m = (None, armOnView K now mid known m)"
| "lm_step A K msk (now, Sweep) m = (None, sweepExpired K now m)"
| "lm_step A K msk (now, OpenBurn mid) m =
     (case openBurnOnRead A K msk mid m of (Inr out, m') \<Rightarrow> (out, m') | (Inl _, m') \<Rightarrow> (None, m'))"
| "lm_step A K msk (now, Revoke mid) m = (None, revoke K mid m)"
| "lm_step A K msk (now, Fire h) m = (None, fire K now h m)"

fun lm_run :: "aead \<Rightarrow> 's kv_ops \<Rightarrow> bytes \<Rightarrow> (int \<times> lm_op) list \<Rightarrow> 's lifetime_manager \<Rightarrow>
    (lm_op \<times> bytes option) list \<times> 's lifetime_manager" where
  "lm_run A K msk [] m = ([], m)"
| "lm_run A K msk (e # es) m =
     (let (out, m1) = lm_step A K msk e m; (outs, m2) = lm_run A K msk es m1
      in ((snd e, out) # outs, m2))"

text \<open>How often the plaintext of a message was handed to the caller.\<close>

definition burn_reads :: "string \<Rightarrow> (lm_op \<times> bytes option) list \<Rightarrow> nat" where
  "burn_reads mid outs = length (filter (\<lambda>(op, out). op = OpenBurn mid \<and> out \<noteq> None) outs)"

section \<open>The timer invariant\<close>

text \<open>
  Handles are unique; every scheduled expiry belongs to the timer the manager remembers for that
  message, and the message is stored with exactly that deadline; every remembered timer is scheduled.
\<close>

definition timed :: "'s kv_ops \<Rightarrow> 's \<Rightarrow> string \<Rightarrow> int \<Rightarrow> bool" where
  "timed K s i d \<longleftrightarrow> (case ks_get K s i of None \<Rightarrow> False
     | Some r \<Rightarrow> lifetimeKind r = ''duration'' \<and> expiresAtMs r = Some d)"

definition timers_ok :: "'s lifetime_manager \<Rightarrow> bool" where
  "timers_ok m \<longleftrightarrow> distinct (map fst (scheduled m)) \<and> (\<forall>e \<in> set (scheduled m). fst e < next_handle m) \<and>
     (\<forall>h d i. (h, d, i) \<in> set (scheduled m) \<longrightarrow> jm_get (timers m) i = Some h) \<and>
     (\<forall>i h. jm_get (timers m) i = Some h \<longrightarrow> (\<exists>d. (h, d, i) \<in> set (scheduled m)))"

definition deadlines_ok :: "'s kv_ops \<Rightarrow> 's lifetime_manager \<Rightarrow> bool" where
  "deadlines_ok K m \<longleftrightarrow> (\<forall>h d i. (h, d, i) \<in> set (scheduled m) \<longrightarrow> timed K (store m) i d)"

definition lm_ok :: "'s kv_ops \<Rightarrow> ('s \<Rightarrow> bool) \<Rightarrow> 's lifetime_manager \<Rightarrow> bool" where
  "lm_ok K ok m \<longleftrightarrow> ok (store m) \<and> timers_ok m \<and> deadlines_ok K m"

lemma timers_ok_new: "timers_ok (new_manager s)" "deadlines_ok K (new_manager s)"
  by (simp_all add: timers_ok_def deadlines_ok_def new_manager_def)

lemma cancel_timer_simps [simp]:
  "store (cancel_timer i m) = store m" "next_handle (cancel_timer i m) = next_handle m"
  "erased (cancel_timer i m) = erased m"
  by (simp_all add: cancel_timer_def hook_cancel_def split: option.splits)

lemma timers_cancel: "jm_get (timers (cancel_timer i m)) j = (if j = i then None else jm_get (timers m) j)"
  by (simp add: cancel_timer_def hook_cancel_def jsmap_simps split: option.splits)

lemma scheduled_cancel:
  assumes "timers_ok m"
  shows "scheduled (cancel_timer i m) = filter (\<lambda>(h, d, j). j \<noteq> i) (scheduled m)"
proof (cases "jm_get (timers m) i")
  case None
  then show ?thesis using assms
    by (auto simp: cancel_timer_def timers_ok_def intro!: filter_True [symmetric])
next
  case (Some h0)
  then obtain d0 where e0: "(h0, d0, i) \<in> set (scheduled m)" using assms unfolding timers_ok_def by blast
  have "fst e = h0 \<longleftrightarrow> (case e of (h, d, j) \<Rightarrow> j = i)" if "e \<in> set (scheduled m)" for e
  proof -
    obtain h d j where e: "e = (h, d, j)" by (cases e) auto
    have "jm_get (timers m) j = Some h" using that assms by (auto simp: e timers_ok_def)
    moreover have "e = (h0, d0, i)" if "h = h0"
      using \<open>e \<in> set (scheduled m)\<close> e0 assms that map_of_is_SomeI [of "scheduled m" h0]
      unfolding timers_ok_def e by fastforce
    ultimately show ?thesis using Some by (auto simp: e)
  qed
  then show ?thesis using Some
    by (auto simp: cancel_timer_def hook_cancel_def intro!: filter_cong)
qed

lemma timers_ok_cancel:
  assumes "timers_ok m" shows "timers_ok (cancel_timer i m)"
  using assms by (auto simp: timers_ok_def scheduled_cancel [OF assms] timers_cancel distinct_map_filter)

lemma cancel_after_fire:
  assumes "timers_ok m" "(h, d, i) \<in> set (scheduled m)"
  shows "cancel_timer i (hook_cancel h m) = cancel_timer i m"
proof -
  have "jm_get (timers m) i = Some h" using assms by (auto simp: timers_ok_def)
  then show ?thesis by (simp add: cancel_timer_def hook_cancel_def)
qed

lemma timers_ok_frame [simp]:
  "timers_ok (m\<lparr>store := s\<rparr>) = timers_ok m" "timers_ok (m\<lparr>erased := es\<rparr>) = timers_ok m"
  by (simp_all add: timers_ok_def)

lemma timers_ok_schedule:
  assumes "timers_ok m" "\<not> jm_has (timers m) i"
  shows "timers_ok (m\<lparr>scheduled := scheduled m @ [(next_handle m, d, i)], next_handle := next_handle m + 1,
      timers := jm_set i (next_handle m) (timers m)\<rparr>)"
proof -
  have free: "(h, d', i) \<notin> set (scheduled m)" for h d'
    using assms by (auto simp: timers_ok_def jm_has_def)
  have new: "fst e \<noteq> next_handle m" if "e \<in> set (scheduled m)" for e
    using assms(1) that by (auto simp: timers_ok_def)
  show ?thesis
    using assms(1) free new
    by (auto simp: timers_ok_def jsmap_simps)
qed

section \<open>Lemmas of the store interface\<close>

text \<open>What each operation does to the records, over any store that meets the contract.\<close>

definition overdue :: "int \<Rightarrow> vault_record \<Rightarrow> bool" where
  "overdue now r \<longleftrightarrow> lifetimeKind r = ''duration'' \<and> (case expiresAtMs r of None \<Rightarrow> False | Some d \<Rightarrow> d \<le> now)"

context keyvault_store
begin

lemma inv_expire: "inv (store m) \<Longrightarrow> inv (store (expire K i reason m))"
  by (auto simp: expire_def Let_def hook_onErased_def cryptoErase_def inv_delete split: option.splits)

lemma get_expire:
  "inv (store m) \<Longrightarrow> ks_get K (store (expire K i reason m)) k = (if k = i then None else ks_get K (store m) k)"
  by (auto simp: expire_def Let_def hook_onErased_def cryptoErase_def get_delete split: option.splits)

lemma inv_arm: "inv (store m) \<Longrightarrow> inv (store (arm K now r m))"
  by (auto simp: arm_def Let_def hook_schedule_def inv_expire split: option.splits)

lemma get_arm:
  "inv (store m) \<Longrightarrow> ks_get K (store (arm K now r m)) k =
     (if k = messageId r \<and> overdue now r then None else ks_get K (store m) k)"
  by (auto simp: arm_def Let_def hook_schedule_def get_expire overdue_def split: option.splits)

lemma timers_ok_expire: "timers_ok m \<Longrightarrow> timers_ok (expire K i reason m)"
  by (auto simp: expire_def Let_def hook_onErased_def timers_ok_cancel split: option.splits)

lemma scheduled_expire:
  "timers_ok m \<Longrightarrow> scheduled (expire K i reason m) = filter (\<lambda>(h, d, j). j \<noteq> i) (scheduled m)"
  by (auto simp: expire_def Let_def hook_onErased_def scheduled_cancel split: option.splits)

lemma deadlines_ok_expire:
  assumes "inv (store m)" "timers_ok m" "deadlines_ok K m"
  shows "deadlines_ok K (expire K i reason m)"
  using assms by (auto simp: deadlines_ok_def scheduled_expire timed_def get_expire)

lemma lm_ok_expire: "lm_ok K inv m \<Longrightarrow> lm_ok K inv (expire K i reason m)"
  by (simp add: lm_ok_def inv_expire timers_ok_expire deadlines_ok_expire)

lemma erased_expire:
  "ks_get K (store m) i = Some r \<Longrightarrow> erased (expire K i reason m) = erased m @ [(i, reason, conversationId r)]"
  by (simp add: expire_def Let_def hook_onErased_def)

lemma lm_ok_arm:
  assumes ok: "lm_ok K inv m" and r: "ks_get K (store m) (messageId r) = Some r"
    and free: "\<not> jm_has (timers m) (messageId r)"
  shows "lm_ok K inv (arm K now r m)"
proof (cases "lifetimeKind r = ''duration'' \<and> expiresAtMs r \<noteq> None \<and> \<not> overdue now r")
  case False
  then show ?thesis
    using ok by (auto simp: arm_def Let_def overdue_def lm_ok_expire split: option.splits)
next
  case True
  then obtain d where d: "lifetimeKind r = ''duration''" "expiresAtMs r = Some d" "now < d"
    by (auto simp: overdue_def split: option.splits)
  then have eq: "arm K now r m = m\<lparr>scheduled := scheduled m @ [(next_handle m, d, messageId r)],
      next_handle := next_handle m + 1, timers := jm_set (messageId r) (next_handle m) (timers m)\<rparr>"
    by (simp add: arm_def Let_def hook_schedule_def)
  have "deadlines_ok K (arm K now r m)"
    using ok r d by (auto simp: eq lm_ok_def deadlines_ok_def timed_def)
  moreover have "timers_ok (arm K now r m)"
    using timers_ok_schedule [OF _ free, of d] ok by (simp add: eq lm_ok_def)
  moreover have "inv (store (arm K now r m))" using ok by (simp add: lm_ok_def inv_arm)
  ultimately show ?thesis by (simp add: lm_ok_def)
qed

lemma get_sweep_one:
  assumes "inv (store m)"
  shows "ks_get K (store (sweep_one K now r m)) k =
    (if k = messageId r \<and> overdue now r then None else ks_get K (store m) k)"
  using assms
  by (auto simp: sweep_one_def get_expire get_arm overdue_def split: option.splits)

lemma lm_ok_frame:
  assumes "lm_ok K inv m" "inv s" "\<And>i d. timed K (store m) i d \<Longrightarrow> timed K s i d"
  shows "lm_ok K inv (m\<lparr>store := s\<rparr>)"
  using assms by (auto simp: lm_ok_def deadlines_ok_def)

lemma fire_is_expire:
  assumes "lm_ok K inv m" "(h, d, i) \<in> set (scheduled m)" "d \<le> now"
  shows "fire K now h m = expire K i ByDuration m"
proof -
  have "jm_get (scheduled m) h = Some (d, i)"
    using assms by (simp add: lm_ok_def timers_ok_def)
  then show ?thesis
    using assms cancel_after_fire [of m h d i]
    by (simp add: fire_def expire_def lm_ok_def hook_cancel_def)
qed

lemma fire_cases:
  assumes "lm_ok K inv m"
  obtains "fire K now h m = m"
  | d i where "(h, d, i) \<in> set (scheduled m)" "d \<le> now" "fire K now h m = expire K i ByDuration m"
proof (cases "jm_get (scheduled m) h")
  case None
  then show thesis using that(1) by (simp add: fire_def)
next
  case (Some e)
  then obtain d i where e: "e = (d, i)" "(h, d, i) \<in> set (scheduled m)"
    by (cases e) (auto dest: map_of_SomeD)
  show thesis
  proof (cases "d \<le> now")
    case True
    then show thesis using that(2) e fire_is_expire [OF assms] by blast
  next
    case False
    then show thesis using that(1) e Some by (simp add: fire_def)
  qed
qed

end

context exact_keyvault_store
begin

lemma no_timer:
  assumes "lm_ok K inv m" "\<And>d. \<not> timed K (store m) i d"
  shows "\<not> jm_has (timers m) i"
  using assms unfolding lm_ok_def timers_ok_def deadlines_ok_def jm_has_def by blast

lemma lm_ok_put:
  assumes ok: "lm_ok K inv m" and free: "\<And>d. \<not> timed K (store m) (messageId r) d"
  shows "lm_ok K inv (m\<lparr>store := ks_put K r (store m)\<rparr>)"
proof (rule lm_ok_frame [OF ok])
  show "inv (ks_put K r (store m))" using ok by (simp add: lm_ok_def inv_put)
  show "timed K (ks_put K r (store m)) i d" if "timed K (store m) i d" for i d
    using ok free that by (cases "i = messageId r") (simp_all add: timed_def get_put lm_ok_def)
qed

lemma lm_ok_arm_put:
  assumes ok: "lm_ok K inv m" and free: "\<And>d. \<not> timed K (store m) (messageId r) d"
  shows "lm_ok K inv (arm K now r (m\<lparr>store := ks_put K r (store m)\<rparr>))"
proof (rule lm_ok_arm [OF lm_ok_put [OF ok free]])
  show "ks_get K (store (m\<lparr>store := ks_put K r (store m)\<rparr>)) (messageId r) = Some r"
    using ok by (simp add: lm_ok_def get_put)
  show "\<not> jm_has (timers (m\<lparr>store := ks_put K r (store m)\<rparr>)) (messageId r)"
    using no_timer [OF ok free] by simp
qed

lemma lm_ok_storeIncoming:
  assumes "lm_ok K inv m" shows "lm_ok K inv (snd (storeIncoming A K rnd now msk meta p armNow m))"
proof (cases "ks_get K (store m) (m_messageId meta)")
  case None
  let ?r = "seal A rnd msk meta p now armNow"
  have free: "\<not> timed K (store m) (messageId ?r) d" for d using None by (simp add: timed_def)
  show ?thesis
    using lm_ok_put [OF assms free] lm_ok_arm_put [OF assms free, of now] None
    by (cases armNow) (simp_all add: storeIncoming_def Let_def)
qed (use assms in \<open>simp add: storeIncoming_def\<close>)

lemma lm_ok_armOnView:
  assumes ok: "lm_ok K inv m" shows "lm_ok K inv (armOnView K now i known m)"
proof (cases "armOnView K now i known m = m")
  case False
  then obtain r where r: "ks_get K (store m) i = Some r" "expiresAtMs r = None"
    and eq: "armOnView K now i known m = arm K now (armRecord r now) (m\<lparr>store := ks_put K (armRecord r now) (store m)\<rparr>)"
    by (auto simp: armOnView_def Let_def split: option.splits if_splits)
  have "messageId r = i" using get_id [OF _ r(1)] ok by (simp add: lm_ok_def)
  then have "\<not> timed K (store m) (messageId (armRecord r now)) d" for d
    using r by (simp add: timed_def)
  then show ?thesis unfolding eq by (rule lm_ok_arm_put [OF ok])
qed (use ok in simp)

lemma lm_ok_sweep_one:
  assumes ok: "lm_ok K inv m" and r: "ks_get K (store m) (messageId r) = Some r"
  shows "lm_ok K inv (sweep_one K now r m)"
  using lm_ok_arm [OF ok r] lm_ok_expire [OF ok] ok by (auto simp: sweep_one_def split: option.splits)

lemma sweep_one_present:
  assumes "lm_ok K inv m" "distinct (map messageId (r # rs))"
    and "\<forall>x \<in> set (r # rs). ks_get K (store m) (messageId x) = Some x"
  shows "lm_ok K inv (sweep_one K now r m)"
    and "\<forall>x \<in> set rs. ks_get K (store (sweep_one K now r m)) (messageId x) = Some x"
proof -
  have inv: "inv (store m)" using assms(1) by (simp add: lm_ok_def)
  show "lm_ok K inv (sweep_one K now r m)" using assms(1,3) by (simp add: lm_ok_sweep_one)
  show "\<forall>x \<in> set rs. ks_get K (store (sweep_one K now r m)) (messageId x) = Some x"
  proof
    fix x assume "x \<in> set rs"
    moreover from this have "messageId x \<noteq> messageId r" using assms(2) by (auto simp: image_iff)
    ultimately show "ks_get K (store (sweep_one K now r m)) (messageId x) = Some x"
      using assms(3) by (simp add: get_sweep_one [OF inv])
  qed
qed

lemma sweep_fold:
  assumes "lm_ok K inv m" "distinct (map messageId rs)" "\<forall>r \<in> set rs. ks_get K (store m) (messageId r) = Some r"
  shows "lm_ok K inv (fold (sweep_one K now) rs m) \<and>
    ks_get K (store (fold (sweep_one K now) rs m)) k =
       (if \<exists>r \<in> set rs. messageId r = k \<and> overdue now r then None else ks_get K (store m) k)"
  using assms
proof (induction rs arbitrary: m)
  case (Cons r rs)
  have inv: "inv (store m)" using Cons.prems(1) by (simp add: lm_ok_def)
  have d: "distinct (map messageId rs)" using Cons.prems(2) by simp
  show ?case
    using Cons.IH [OF sweep_one_present(1) [OF Cons.prems] d sweep_one_present(2) [OF Cons.prems]]
    by (simp add: get_sweep_one [OF inv] cong: if_cong) blast
qed simp

lemma list_present:
  assumes "inv s" shows "\<forall>r \<in> set (ks_list K s). ks_get K s (messageId r) = Some r"
  using list_get [OF assms] get_id [OF assms] by blast

lemma sweep_ok: "lm_ok K inv m \<Longrightarrow> lm_ok K inv (sweepExpired K now m)"
  using sweep_fold [OF _ list_distinct list_present] by (simp add: sweepExpired_def lm_ok_def)

lemma get_sweep:
  assumes "lm_ok K inv m"
  shows "ks_get K (store (sweepExpired K now m)) k =
    (case ks_get K (store m) k of None \<Rightarrow> None | Some r \<Rightarrow> if overdue now r then None else Some r)"
proof -
  have inv: "inv (store m)" using assms by (simp add: lm_ok_def)
  have "(\<exists>r \<in> set (ks_list K (store m)). messageId r = k \<and> overdue now r) \<longleftrightarrow>
      (\<exists>r. ks_get K (store m) k = Some r \<and> overdue now r)"
    using list_get [OF inv] get_id [OF inv] by blast
  then show ?thesis
    using sweep_fold [OF assms list_distinct [OF inv] list_present [OF inv], of now k]
    by (auto simp: sweepExpired_def split: option.splits)
qed

lemma lm_ok_fire: "lm_ok K inv m \<Longrightarrow> lm_ok K inv (fire K now h m)"
  by (rule fire_cases [of m now h]) (simp_all add: lm_ok_expire)

lemma lm_ok_openBurn:
  assumes "lm_ok K inv m" shows "lm_ok K inv (snd (openBurnOnRead A K msk i m))"
proof -
  have "lm_ok K inv (m\<lparr>store := ks_put K (tombstone r) (store m)\<rparr>)"
    if r: "ks_get K (store m) i = Some r" "lifetimeKind r = ''burn-on-read''" for r
  proof (rule lm_ok_put [OF assms])
    have "messageId r = i" using get_id [OF _ r(1)] assms by (simp add: lm_ok_def)
    then show "\<not> timed K (store m) (messageId (tombstone r)) d" for d
      using r by (simp add: timed_def tombstone_def)
  qed
  then show ?thesis
    using assms by (auto simp: openBurnOnRead_def hook_onErased_def lm_ok_def deadlines_ok_def
        split: option.splits sum.splits)
qed

lemma lm_ok_step: "lm_ok K inv m \<Longrightarrow> lm_ok K inv (snd (lm_step A K msk e m))"
  using lm_ok_openBurn [of m A msk]
  by (cases "(A, K, msk, e, m)" rule: lm_step.cases)
     (auto simp: lm_ok_storeIncoming lm_ok_armOnView sweep_ok revoke_def lm_ok_expire lm_ok_fire
        split: prod.splits sum.splits dest!: arg_cong [where f = snd])

lemma get_storeIncoming_present:
  "inv (store m) \<Longrightarrow> ks_get K (store m) k = Some r \<Longrightarrow>
     ks_get K (store (snd (storeIncoming A K rnd now msk meta p armNow m))) k = Some r"
  by (auto simp: storeIncoming_def Let_def get_arm inv_put get_put split: option.splits)

text \<open>A read burn message keeps its tombstone through every operation but a revoke of that message.\<close>

lemma tombstone_step:
  assumes ok: "lm_ok K inv m" and r: "ks_get K (store m) k = Some r" "is_read r" "lifetimeKind r = ''burn-on-read''"
    and e: "snd e \<noteq> Revoke k"
  shows "ks_get K (store (snd (lm_step A K msk e m))) k = Some r"
proof -
  have inv: "inv (store m)" using ok by (simp add: lm_ok_def)
  have id: "messageId r' = i" if "ks_get K (store m) i = Some r'" for i r' using get_id [OF inv that] .
  consider rnd meta p armNow now where "e = (now, Store rnd meta p armNow)"
    | now i known where "e = (now, View i known)" | now where "e = (now, Sweep)"
    | now i where "e = (now, OpenBurn i)" | now i where "e = (now, Revoke i)" | now h where "e = (now, Fire h)"
    by (metis lm_op.exhaust prod.exhaust)
  then show ?thesis
  proof cases
    case 1
    then show ?thesis using get_storeIncoming_present [OF inv r(1)] by simp
  next
    case 2
    then show ?thesis using r id
      by (auto simp: armOnView_def Let_def get_arm inv inv_put get_put split: option.splits)
  next
    case 3
    then show ?thesis using r by (simp add: get_sweep [OF ok] overdue_def)
  next
    case 4
    then show ?thesis using r id
      by (auto simp: openBurnOnRead_def hook_onErased_def get_put inv tombstone_def split: option.splits sum.splits)
  next
    case 5
    then show ?thesis using r e by (simp add: revoke_def get_expire inv)
  next
    case 6
    have "k \<noteq> i" if "(h, d, i) \<in> set (scheduled m)" for d i
    proof -
      have "timed K (store m) i d" using that ok by (auto simp: lm_ok_def deadlines_ok_def)
      then show ?thesis using r by (auto simp: timed_def)
    qed
    then show ?thesis using r 6 fire_cases [OF ok, of now h] by (metis get_expire inv lm_step.simps(6) snd_conv)
  qed
qed

lemma open_latches:
  assumes "lm_ok K inv m" "lm_step A K msk (now, OpenBurn k) m = (Some p, m')"
  shows "\<exists>r. ks_get K (store m') k = Some (tombstone r) \<and> lifetimeKind r = ''burn-on-read''"
proof -
  have inv: "inv (store m)" using assms by (simp add: lm_ok_def)
  obtain r where r: "ks_get K (store m) k = Some r" "lifetimeKind r = ''burn-on-read''"
    and m': "store m' = ks_put K (tombstone r) (store m)"
    using assms(2) by (auto simp: openBurnOnRead_def hook_onErased_def split: option.splits sum.splits if_splits)
  have "messageId (tombstone r) = k" using get_id [OF inv r(1)] by (simp add: tombstone_def)
  then show ?thesis using r m' inv by (auto simp: get_put)
qed

lemma tombstone_run:
  assumes "lm_ok K inv m" "ks_get K (store m) k = Some r" "is_read r" "lifetimeKind r = ''burn-on-read''"
    and "Revoke k \<notin> snd ` set es"
  shows "burn_reads k (fst (lm_run A K msk es m)) = 0"
  using assms
proof (induction es arbitrary: m)
  case (Cons e es)
  obtain out m1 where st: "lm_step A K msk e m = (out, m1)" by (cases "lm_step A K msk e m")
  have ok1: "lm_ok K inv m1" using lm_ok_step [OF Cons.prems(1), of A msk e] st by simp
  have r1: "ks_get K (store m1) k = Some r"
    using tombstone_step [OF Cons.prems(1-4), of e A msk] Cons.prems(5) st by (simp add: image_iff) metis
  have "out = None" if "snd e = OpenBurn k"
    using st that Cons.prems(2-4) by (cases e) (simp add: openBurnOnRead_def)
  with Cons.IH [OF ok1 r1] Cons.prems show ?case
    by (auto simp: st burn_reads_def split: prod.splits)
qed (simp add: burn_reads_def)

lemma burn_at_most_once:
  assumes "lm_ok K inv m" "Revoke k \<notin> snd ` set es"
  shows "burn_reads k (fst (lm_run A K msk es m)) \<le> 1"
  using assms
proof (induction es arbitrary: m)
  case (Cons e es)
  obtain out m1 where st: "lm_step A K msk e m = (out, m1)" by (cases "lm_step A K msk e m")
  have ok1: "lm_ok K inv m1" using lm_ok_step [OF Cons.prems(1), of A msk e] st by simp
  have no: "Revoke k \<notin> snd ` set es" using Cons.prems(2) by simp
  show ?case
  proof (cases "snd e = OpenBurn k \<and> out \<noteq> None")
    case True
    then obtain now p where "lm_step A K msk (now, OpenBurn k) m = (Some p, m1)"
      using st by (cases e) auto
    then obtain r where "ks_get K (store m1) k = Some (tombstone r)" "lifetimeKind r = ''burn-on-read''"
      using open_latches [OF Cons.prems(1)] by blast
    then have "burn_reads k (fst (lm_run A K msk es m1)) = 0"
      using tombstone_run [OF ok1 _ _ _ no, of "tombstone r" A msk] by (simp add: tombstone_def)
    then show ?thesis by (auto simp: st burn_reads_def split: prod.splits)
  next
    case False
    then show ?thesis using Cons.IH [OF ok1 no] by (auto simp: st burn_reads_def split: prod.splits)
  qed
qed (simp add: burn_reads_def)

end

section \<open>Properties on the IndexedDB keyvault\<close>

lemma lm_ok_new: "ok s \<Longrightarrow> lm_ok K ok (new_manager s)"
  by (simp add: lm_ok_def timers_ok_new) (simp add: new_manager_def)

definition demo_disk :: device where
  "demo_disk = kv_put (demo_record ''m1'' BurnOnRead 10) (new_device empty_db)"

lemma kv_durable_empty: "kv_durable (new_device empty_db)"
  by (simp add: kv_durable_def kv_ok_empty) (simp add: new_device_def)

lemma demo_disk_durable: "kv_durable demo_disk"
  by (simp add: demo_disk_def kv_durable_put kv_durable_empty)

lemma demo_disk_get: "kv_get demo_disk k = (if k = ''m1'' then Some (demo_record ''m1'' BurnOnRead 10) else None)"
proof -
  have "kv_get (new_device empty_db) k = None" by (simp add: kv_get_def new_device_def empty_db_def)
  then show ?thesis
    by (simp add: demo_disk_def kv_durable_get_put kv_durable_empty) (simp add: demo_record_def demo_meta_def)
qed

lemma demo_manager_ok: "lm_ok idb_keyvault kv_durable (new_manager demo_disk)"
  by (rule lm_ok_new) (rule demo_disk_durable)

lemma demo_record_simps [simp]:
  "lifetimeKind (demo_record i l t) = lifetime_kind l" "\<not> is_read (demo_record i l t)"
  "open_record demo_aead [5] (demo_record i l t) = Inr [42]"
  by (simp_all add: demo_record_def demo_meta_def open_seal [OF demo_aead_ok])

text \<open>
  C14. A burn-on-read message is shown at most once. Outside history-off mode, from a consistent state,
  whatever sequence of stores (a redelivery of the same id included), views, sweeps, opens, timer
  callbacks and revokes of other messages runs, the plaintext of a message is handed out at most once.
\<close>
theorem burn_read_at_most_once:
  assumes "lm_ok idb_keyvault kv_durable m" "Revoke mid \<notin> snd ` set es"
  shows "burn_reads mid (fst (lm_run A idb_keyvault msk es m)) \<le> 1"
  by (rule disk_store.burn_at_most_once [OF assms])

theorem burn_read_at_most_once_witness:
  "burn_reads ''m1'' (fst (lm_run demo_aead idb_keyvault [5]
     [(20, OpenBurn ''m1''), (30, Store demo_random (demo_meta ''m1'' BurnOnRead) [42] True), (40, OpenBurn ''m1'')]
     (new_manager demo_disk))) \<le> 1 \<and>
   fst (lm_step demo_aead idb_keyvault [5] (20, OpenBurn ''m1'') (new_manager demo_disk)) = Some [42]"
  using burn_read_at_most_once [OF demo_manager_ok, of "''m1''"
      "[(20, OpenBurn ''m1''), (30, Store demo_random (demo_meta ''m1'' BurnOnRead) [42] True), (40, OpenBurn ''m1'')]"
      demo_aead "[5]"]
  by (simp add: openBurnOnRead_def new_manager_def demo_disk_get del: lm_run.simps)

lemma lm_step_store_preserved:
  assumes put: "\<And>r s. P s \<Longrightarrow> P (ks_put K r s)" and del: "\<And>i s. P s \<Longrightarrow> P (ks_delete K i s)"
    and P: "P (store m)"
  shows "P (store (snd (lm_step A K msk e m)))"
proof -
  have ex: "P (store (expire K i reason m))" if "P (store m)" for i reason m
    using that del by (auto simp: expire_def Let_def hook_onErased_def cryptoErase_def split: option.splits)
  have ar: "P (store (arm K now r m))" if "P (store m)" for now r m
    using that ex by (auto simp: arm_def Let_def hook_schedule_def split: option.splits)
  have sw: "P (store (fold (sweep_one K now) rs m))" if "P (store m)" for now rs m
    using that by (induction rs arbitrary: m) (auto simp: sweep_one_def ex ar split: option.splits)
  show ?thesis
    by (cases "(A, K, msk, e, m)" rule: lm_step.cases)
       (auto simp: storeIncoming_def armOnView_def sweepExpired_def openBurnOnRead_def revoke_def fire_def
          hook_onErased_def hook_cancel_def Let_def ex ar sw put P split: option.splits sum.splits prod.splits)
qed

lemma lm_run_store_preserved:
  assumes "\<And>r s. P s \<Longrightarrow> P (ks_put K r s)" "\<And>i s. P s \<Longrightarrow> P (ks_delete K i s)" "P (store m)"
  shows "P (store (snd (lm_run A K msk es m)))"
  using assms(3)
proof (induction es arbitrary: m)
  case (Cons e es)
  have "P (store (snd (lm_step A K msk e m)))" by (rule lm_step_store_preserved [OF assms(1,2) Cons.prems])
  with Cons.IH show ?case by (auto split: prod.splits) (metis snd_conv)
qed simp

text \<open>
  History-off writes nothing new to disk. Once the mode is on, whatever the lifetime manager is
  asked to do, every message id on disk was on disk before; the mode stays on and the other object
  stores are untouched.
\<close>
theorem history_off_adds_nothing_to_disk:
  assumes "kv_ephemeral (store m)" "m' = snd (lm_run A idb_keyvault msk es m)"
  shows "fst ` set (messages (db (store m'))) \<subseteq> fst ` set (messages (db (store m))) \<and>
    kv_ephemeral (store m') \<and>
    (db (store m'))\<lparr>messages := []\<rparr> = (db (store m))\<lparr>messages := []\<rparr>"
proof -
  let ?P = "\<lambda>d. fst ` set (messages (db d)) \<subseteq> fst ` set (messages (db (store m))) \<and> kv_ephemeral d \<and>
      (db d)\<lparr>messages := []\<rparr> = (db (store m))\<lparr>messages := []\<rparr>"
  have "?P (store (snd (lm_run A idb_keyvault msk es m)))"
  proof (rule lm_run_store_preserved)
    show "?P (ks_put idb_keyvault r d)" if "?P d" for r d
    proof -
      have "messageId r \<in> fst ` set (messages (db d))" if "jm_get (messages (db d)) (messageId r) \<noteq> None"
        using that jm_has_keys [of "messages (db d)"] by (simp add: jm_has_def)
      then show ?thesis using that by (auto simp: kv_put_def os_put_keys)
    qed
    show "?P (ks_delete idb_keyvault i d)" if "?P d" for i d
      using that by (auto simp: kv_delete_def dest!: subsetD [OF set_jm_delete])
  qed (use assms in simp)
  then show ?thesis by (simp add: assms(2))
qed

theorem history_off_adds_nothing_to_disk_witness:
  "messages (db (store (snd (lm_run demo_aead idb_keyvault [5]
      [(1, Store demo_random (demo_meta ''m1'' BurnOnRead) [42] True)]
      (new_manager (kv_setEphemeral True (new_device empty_db))))))) = []"
  using history_off_adds_nothing_to_disk [of "new_manager (kv_setEphemeral True (new_device empty_db))" _
      demo_aead "[5]" "[(1, Store demo_random (demo_meta ''m1'' BurnOnRead) [42] True)]", OF _ refl]
  by (simp add: new_manager_def kv_setEphemeral_def new_device_def empty_db_def del: lm_run.simps)

text \<open>
  The read latch of a burn message goes where the message is. When a burn message stored on disk
  is opened, in either mode, its stored copy no longer opens under any key, and a restarted worker
  over the same database refuses to open the message again.
\<close>
theorem burn_latch_survives_restart:
  assumes "aead_ok A" "kv_ok (store m)" "jm_has (messages (db (store m))) mid"
    and "openBurnOnRead A idb_keyvault msk mid m = (Inr (Some p), m')"
  shows "\<exists>t. jm_get (messages (db (store m'))) mid = Some t \<and> (\<forall>key. open_record A key t = Inl decrypt_error) \<and>
    openBurnOnRead A idb_keyvault msk2 mid (new_manager (new_device (db (store m')))) =
      (Inr None, new_manager (new_device (db (store m'))))"
proof -
  have mem: "\<not> jm_has (kv_mem (store m)) mid" using assms(2,3) by (auto simp: kv_ok_def)
  obtain r where r: "kv_get (store m) mid = Some r" and m': "store m' = kv_put (tombstone r) (store m)"
    using assms(4) by (auto simp: openBurnOnRead_def hook_onErased_def split: option.splits sum.splits if_splits)
  have "messageId r = mid" using kv_ok_get [OF assms(2) r] .
  then have t: "jm_get (messages (db (store m'))) mid = Some (tombstone r)"
    using mem assms(3) by (auto simp: m' kv_put_def tombstone_def jsmap_simps jm_has_def)
  then have "kv_get (new_device (db (store m'))) mid = Some (tombstone r)"
    by (simp add: kv_get_def new_device_def)
  then show ?thesis
    using t open_erased [OF assms(1)] by (simp add: openBurnOnRead_def new_manager_def tombstone_def)
qed

theorem burn_latch_survives_restart_witness:
  "fst (openBurnOnRead demo_aead idb_keyvault [5] ''m1'' (new_manager demo_disk)) = Inr (Some [42]) \<and>
   fst (openBurnOnRead demo_aead idb_keyvault [5] ''m1'' (new_manager (new_device (db (store
     (snd (openBurnOnRead demo_aead idb_keyvault [5] ''m1'' (new_manager demo_disk)))))))) = Inr None"
proof -
  let ?m = "new_manager demo_disk"
  have o: "fst (openBurnOnRead demo_aead idb_keyvault [5] ''m1'' ?m) = Inr (Some [42])"
    by (simp add: openBurnOnRead_def new_manager_def demo_disk_get)
  have ok: "kv_ok (store ?m)" using demo_disk_durable by (simp add: new_manager_def kv_durable_ok)
  have has: "jm_has (messages (db (store ?m))) ''m1''"
    using demo_disk_get [of "''m1''"] demo_disk_durable
    by (simp add: new_manager_def kv_get_def kv_durable_def jm_has_def)
  from burn_latch_survives_restart [OF demo_aead_ok ok has, of "[5]" "[42]"
      "snd (openBurnOnRead demo_aead idb_keyvault [5] ''m1'' ?m)" "[5]"] o
  show ?thesis by (metis fst_conv prod.collapse)
qed

end
