(* ===== verification/LifetimeSweep.thy ===== *)
theory LifetimeSweep
  imports Lifetime
begin

text \<open>
  The resume sweep over the whole life of the keyvault, history-off mode included. In that mode the store
  drops the oldest records of a conversation on its own, and leaving the mode, a purge or a restart of the
  worker drops more, so a timer may outlive its message. What survives is weaker than the invariant of
  \<open>Lifetime\<close> and enough for the sweep: every remembered timer is scheduled, at the deadline of the message
  if the message is still there.
\<close>

section \<open>Remembered timers\<close>

definition handles_ok :: "'s lifetime_manager \<Rightarrow> bool" where
  "handles_ok m \<longleftrightarrow> distinct (map fst (scheduled m)) \<and> (\<forall>e \<in> set (scheduled m). fst e < next_handle m) \<and>
     (\<forall>i h. jm_get (timers m) i = Some h \<longrightarrow> (\<exists>d. (h, d, i) \<in> set (scheduled m)))"

definition deadlines_agree :: "'s kv_ops \<Rightarrow> 's lifetime_manager \<Rightarrow> bool" where
  "deadlines_agree K m \<longleftrightarrow> (\<forall>h d i d'. jm_get (timers m) i = Some h \<and> (h, d, i) \<in> set (scheduled m)
     \<and> timed K (store m) i d' \<longrightarrow> d' = d)"

definition sweepable :: "'s kv_ops \<Rightarrow> ('s \<Rightarrow> bool) \<Rightarrow> 's lifetime_manager \<Rightarrow> bool" where
  "sweepable K ok m \<longleftrightarrow> ok (store m) \<and> handles_ok m \<and> deadlines_agree K m"

lemma sweepable_new: "ok s \<Longrightarrow> sweepable K ok (new_manager s)"
  by (simp add: sweepable_def handles_ok_def deadlines_agree_def new_manager_def)

lemma handles_ok_frame [simp]:
  "handles_ok (m\<lparr>store := s\<rparr>) = handles_ok m" "handles_ok (m\<lparr>erased := es\<rparr>) = handles_ok m"
  by (simp_all add: handles_ok_def)

lemma sweepable_erased [simp]: "sweepable K ok (m\<lparr>erased := es\<rparr>) = sweepable K ok m"
  by (simp add: sweepable_def deadlines_agree_def)

lemma one_entry_per_handle:
  "handles_ok m \<Longrightarrow> (h, e) \<in> set (scheduled m) \<Longrightarrow> (h, e') \<in> set (scheduled m) \<Longrightarrow> e = e'"
  by (auto simp: handles_ok_def dest: eq_key_imp_eq_value)

lemma scheduled_cancel_sub: "set (scheduled (cancel_timer i m)) \<subseteq> set (scheduled m)"
  by (auto simp: cancel_timer_def hook_cancel_def split: option.splits)

lemma cancel_keeps_others:
  assumes "handles_ok m" "(h, d, j) \<in> set (scheduled m)" "j \<noteq> i"
  shows "(h, d, j) \<in> set (scheduled (cancel_timer i m))"
proof (cases "jm_get (timers m) i")
  case (Some g)
  then obtain d' where "(g, d', i) \<in> set (scheduled m)" using assms(1) unfolding handles_ok_def by blast
  then have "h \<noteq> g" using one_entry_per_handle [OF assms(1), of h "(d, j)" "(d', i)"] assms(2,3) by auto
  then show ?thesis using Some assms(2) by (auto simp: cancel_timer_def hook_cancel_def)
qed (use assms in \<open>simp add: cancel_timer_def\<close>)

lemma handles_ok_cancel:
  assumes "handles_ok m" shows "handles_ok (cancel_timer i m)"
proof -
  have "distinct (map fst (scheduled (cancel_timer i m)))"
    using assms by (auto simp: handles_ok_def cancel_timer_def hook_cancel_def distinct_map_filter split: option.splits)
  then show ?thesis
    using assms cancel_keeps_others [OF assms] scheduled_cancel_sub [of i m]
    by (auto simp: handles_ok_def timers_cancel) blast
qed

lemma handles_ok_schedule:
  assumes "handles_ok m"
  shows "handles_ok (m\<lparr>scheduled := scheduled m @ [(next_handle m, d, i)], next_handle := next_handle m + 1,
      timers := jm_set i (next_handle m) (timers m)\<rparr>)"
proof -
  have "fst e \<noteq> next_handle m" if "e \<in> set (scheduled m)" for e using assms that by (auto simp: handles_ok_def)
  then show ?thesis using assms by (auto simp: handles_ok_def jsmap_simps)
qed

lemma sweepable_store:
  assumes "sweepable K ok m" "ok s" "\<And>i d. timed K s i d \<Longrightarrow> timed K (store m) i d"
  shows "sweepable K ok (m\<lparr>store := s\<rparr>)"
  using assms by (simp add: sweepable_def deadlines_agree_def) blast

section \<open>Every operation keeps them\<close>

context keyvault_store
begin

lemma sweepable_expire:
  assumes "sweepable K inv m" shows "sweepable K inv (expire K i reason m)"
proof -
  let ?n = "expire K i reason m"
  have frame: "timers ?n = timers (cancel_timer i m)" "scheduled ?n = scheduled (cancel_timer i m)"
    "handles_ok ?n = handles_ok (cancel_timer i m)"
    by (auto simp: expire_def Let_def hook_onErased_def split: option.splits)
  show ?thesis
    using assms scheduled_cancel_sub [of i m] handles_ok_cancel [of m i]
    by (auto simp: sweepable_def deadlines_agree_def frame inv_expire timed_def get_expire timers_cancel split: if_splits)
qed

text \<open>Arming a stored message whose deadline is that of the argument.\<close>

lemma sweepable_arm:
  assumes inv: "inv (store m)" and h: "handles_ok m"
    and others: "\<And>g d i d'. jm_get (timers m) i = Some g \<Longrightarrow> (g, d, i) \<in> set (scheduled m) \<Longrightarrow>
      timed K (store m) i d' \<Longrightarrow> i \<noteq> messageId r \<Longrightarrow> d' = d"
    and own: "\<And>d. timed K (store m) (messageId r) d \<Longrightarrow> lifetimeKind r = ''duration'' \<and> expiresAtMs r = Some d"
  shows "sweepable K inv (arm K now r m)"
proof (cases "lifetimeKind r = ''duration'' \<and> expiresAtMs r \<noteq> None")
  case False
  have "d' = d" if "jm_get (timers m) i = Some g" "(g, d, i) \<in> set (scheduled m)" "timed K (store m) i d'" for g d i d'
    using others [OF that] own [of d'] that(3) False by (cases "i = messageId r") auto
  moreover have "arm K now r m = m" using False by (auto simp: arm_def)
  ultimately show ?thesis using inv h by (simp add: sweepable_def deadlines_agree_def) blast
next
  case True
  then obtain d where d: "lifetimeKind r = ''duration''" "expiresAtMs r = Some d" by auto
  show ?thesis
  proof (cases "d \<le> now")
    case True
    let ?n = "expire K (messageId r) ByDuration m"
    have frame: "timers ?n = timers (cancel_timer (messageId r) m)" "scheduled ?n = scheduled (cancel_timer (messageId r) m)"
      "handles_ok ?n = handles_ok (cancel_timer (messageId r) m)"
      by (auto simp: expire_def Let_def hook_onErased_def split: option.splits)
    have "sweepable K inv ?n"
      using inv h others scheduled_cancel_sub [of "messageId r" m] handles_ok_cancel [OF h, of "messageId r"]
      by (auto simp: sweepable_def deadlines_agree_def frame inv_expire timed_def get_expire timers_cancel split: if_splits)
    then show ?thesis using d True by (simp add: arm_def)
  next
    case False
    then have eq: "arm K now r m = m\<lparr>scheduled := scheduled m @ [(next_handle m, d, messageId r)],
        next_handle := next_handle m + 1, timers := jm_set (messageId r) (next_handle m) (timers m)\<rparr>"
      using d by (simp add: arm_def Let_def hook_schedule_def)
    have old: "g \<noteq> next_handle m" if "jm_get (timers m) i = Some g" for i g
      using h that by (fastforce simp: handles_ok_def)
    have new: "(next_handle m, d', i) \<notin> set (scheduled m)" for d' i
      using h by (auto simp: handles_ok_def)
    show ?thesis
      unfolding eq using inv handles_ok_schedule [OF h, of "messageId r" d] others own d old new
      by (auto simp: sweepable_def deadlines_agree_def jsmap_simps split: if_splits)
  qed
qed

lemma timed_put:
  assumes "inv s" "timed K (ks_put K r s) i d"
  shows "if i = messageId r then lifetimeKind r = ''duration'' \<and> expiresAtMs r = Some d else timed K s i d"
  using assms get_put_create [OF assms(1), of r i] by (auto simp: timed_def)

lemma sweepable_put:
  assumes "sweepable K inv m" "lifetimeKind r \<noteq> ''duration'' \<or> expiresAtMs r = None"
  shows "sweepable K inv (m\<lparr>store := ks_put K r (store m)\<rparr>)"
proof (rule sweepable_store [OF assms(1)])
  have inv: "inv (store m)" using assms(1) by (simp add: sweepable_def)
  then show "inv (ks_put K r (store m))" by (rule inv_put)
  show "timed K (store m) i d" if "timed K (ks_put K r (store m)) i d" for i d
    using timed_put [OF inv that] assms(2) by (auto split: if_splits)
qed

lemma sweepable_put_arm:
  assumes "sweepable K inv m"
  shows "sweepable K inv (arm K now r (m\<lparr>store := ks_put K r (store m)\<rparr>))"
proof (rule sweepable_arm)
  have inv: "inv (store m)" using assms by (simp add: sweepable_def)
  then show "inv (store (m\<lparr>store := ks_put K r (store m)\<rparr>))" by (simp add: inv_put)
  show "handles_ok (m\<lparr>store := ks_put K r (store m)\<rparr>)" using assms by (simp add: sweepable_def)
  show "lifetimeKind r = ''duration'' \<and> expiresAtMs r = Some d"
    if "timed K (store (m\<lparr>store := ks_put K r (store m)\<rparr>)) (messageId r) d" for d
    using timed_put [OF inv, of r "messageId r" d] that by simp
  fix g d i d'
  assume "jm_get (timers (m\<lparr>store := ks_put K r (store m)\<rparr>)) i = Some g"
    "(g, d, i) \<in> set (scheduled (m\<lparr>store := ks_put K r (store m)\<rparr>))"
    "timed K (store (m\<lparr>store := ks_put K r (store m)\<rparr>)) i d'" "i \<noteq> messageId r"
  then show "d' = d" using assms timed_put [OF inv, of r i d'] by (auto simp: sweepable_def deadlines_agree_def)
qed

lemma sweepable_sweep_one:
  assumes "sweepable K inv m" "\<And>x. ks_get K (store m) (messageId r) = Some x \<Longrightarrow> x = r"
  shows "sweepable K inv (sweep_one K now r m)"
proof -
  have "sweepable K inv (arm K now r m)"
    by (rule sweepable_arm) (use assms in \<open>auto simp: sweepable_def deadlines_agree_def timed_def split: option.splits\<close>)
  then show ?thesis using assms(1) sweepable_expire [OF assms(1)] by (auto simp: sweep_one_def split: option.splits)
qed

lemma sweep_step:
  assumes "sweepable K inv m" "distinct (map messageId (r # rs))"
    and "\<forall>x \<in> set (r # rs). ks_get K (store m) (messageId x) = Some x"
  shows "sweepable K inv (sweep_one K now r m)"
    and "\<forall>x \<in> set rs. ks_get K (store (sweep_one K now r m)) (messageId x) = Some x"
    and "erased (sweep_one K now r m) =
      erased m @ (if overdue now r then [(messageId r, ByDuration, conversationId r)] else [])"
proof -
  have inv: "inv (store m)" using assms(1) by (simp add: sweepable_def)
  show "sweepable K inv (sweep_one K now r m)" by (rule sweepable_sweep_one) (use assms in simp_all)
  have "messageId x \<noteq> messageId r" if "x \<in> set rs" for x using that assms(2) by (auto simp: image_iff)
  then show "\<forall>x \<in> set rs. ks_get K (store (sweep_one K now r m)) (messageId x) = Some x"
    using assms(3) by (simp add: get_sweep_one [OF inv])
  have "ks_get K (store m) (messageId r) = Some r" using assms(3) by simp
  then show "erased (sweep_one K now r m) =
      erased m @ (if overdue now r then [(messageId r, ByDuration, conversationId r)] else [])"
    by (auto simp: sweep_one_def overdue_def erased_expire arm_def Let_def hook_schedule_def split: option.splits)
qed

lemma sweep_fold_all:
  assumes "sweepable K inv m" "distinct (map messageId rs)" "\<forall>r \<in> set rs. ks_get K (store m) (messageId r) = Some r"
  shows "sweepable K inv (fold (sweep_one K now) rs m) \<and>
    ks_get K (store (fold (sweep_one K now) rs m)) k =
       (if \<exists>r \<in> set rs. messageId r = k \<and> overdue now r then None else ks_get K (store m) k) \<and>
    erased (fold (sweep_one K now) rs m) =
      erased m @ map (\<lambda>r. (messageId r, ByDuration, conversationId r)) (filter (overdue now) rs)"
  using assms
proof (induction rs arbitrary: m)
  case (Cons r rs)
  have inv: "inv (store m)" using Cons.prems(1) by (simp add: sweepable_def)
  have d: "distinct (map messageId rs)" using Cons.prems(2) by simp
  note step = sweep_step [OF Cons.prems, of now]
  show ?case
    using Cons.IH [OF step(1) d step(2)] step(3)
    by (simp add: get_sweep_one [OF inv] cong: if_cong) blast
qed simp

lemma sweep_one_remembers:
  assumes "jm_has (timers m) k \<or> messageId r = k \<and> lifetimeKind r = ''duration'' \<and> expiresAtMs r \<noteq> None"
    and "messageId r = k \<longrightarrow> \<not> overdue now r"
  shows "jm_has (timers (sweep_one K now r m)) k"
  using assms
  by (auto simp: sweep_one_def overdue_def expire_def arm_def Let_def hook_onErased_def hook_schedule_def jm_has_def
      timers_cancel jsmap_simps split: option.splits)

lemma sweep_remembers:
  assumes "jm_has (timers m) k \<or> (\<exists>r \<in> set rs. messageId r = k \<and> lifetimeKind r = ''duration'' \<and> expiresAtMs r \<noteq> None)"
    and "\<forall>r \<in> set rs. messageId r = k \<longrightarrow> \<not> overdue now r"
  shows "jm_has (timers (fold (sweep_one K now) rs m)) k"
  using assms
proof (induction rs arbitrary: m)
  case (Cons r rs)
  then have "jm_has (timers (sweep_one K now r m)) k
      \<or> (\<exists>r \<in> set rs. messageId r = k \<and> lifetimeKind r = ''duration'' \<and> expiresAtMs r \<noteq> None)"
    using sweep_one_remembers [of m k r now] by auto
  with Cons show ?case by simp
qed simp

lemma present:
  assumes "inv s" shows "\<forall>r \<in> set (ks_list K s). ks_get K s (messageId r) = Some r"
  using list_get [OF assms] get_id [OF assms] by blast

lemma sweep_all:
  assumes "sweepable K inv m"
  shows "sweepable K inv (sweepExpired K now m)"
    and "ks_get K (store (sweepExpired K now m)) k = (case ks_get K (store m) k of None \<Rightarrow> None
        | Some r \<Rightarrow> if overdue now r then None else Some r)"
    and "erased (sweepExpired K now m) = erased m @ map (\<lambda>r. (messageId r, ByDuration, conversationId r))
        (filter (overdue now) (ks_list K (store m)))"
proof -
  have inv: "inv (store m)" using assms by (simp add: sweepable_def)
  note fold = sweep_fold_all [OF assms list_distinct [OF inv] present [OF inv], of now]
  show "sweepable K inv (sweepExpired K now m)" using fold by (simp add: sweepExpired_def)
  show "erased (sweepExpired K now m) = erased m @ map (\<lambda>r. (messageId r, ByDuration, conversationId r))
        (filter (overdue now) (ks_list K (store m)))"
    using fold by (simp add: sweepExpired_def)
  have "(\<exists>r \<in> set (ks_list K (store m)). messageId r = k \<and> overdue now r) \<longleftrightarrow>
      (\<exists>r. ks_get K (store m) k = Some r \<and> overdue now r)"
    using list_get [OF inv] get_id [OF inv] by blast
  then show "ks_get K (store (sweepExpired K now m)) k = (case ks_get K (store m) k of None \<Rightarrow> None
        | Some r \<Rightarrow> if overdue now r then None else Some r)"
    using fold [of k] by (auto simp: sweepExpired_def split: option.splits)
qed

lemma fire_erases:
  assumes "sweepable K inv m" "(h, d, i) \<in> set (scheduled m)" "d \<le> now"
  shows "ks_get K (store (fire K now h m)) i = None"
proof -
  have "jm_get (scheduled m) h = Some (d, i)"
    using assms by (simp add: sweepable_def handles_ok_def)
  then show ?thesis using assms get_expire [of "hook_cancel h m" i ByDuration i]
    by (simp add: fire_def sweepable_def hook_cancel_def)
qed

text \<open>What the sweep leaves armed has a timer at its deadline, and the timer erases it.\<close>

lemma sweep_arms_all:
  assumes ok: "sweepable K inv m" and m': "m' = sweepExpired K now m"
    and r: "ks_get K (store m') k = Some r" "lifetimeKind r = ''duration''" "expiresAtMs r = Some d"
  shows "now < d \<and> (\<exists>h. (h, d, k) \<in> set (scheduled m') \<and>
      (\<forall>later \<ge> d. ks_get K (store (fire K later h m')) k = None))"
proof -
  have inv: "inv (store m)" using ok by (simp add: sweepable_def)
  have ok': "sweepable K inv m'" unfolding m' by (rule sweep_all(1) [OF ok])
  have old: "ks_get K (store m) k = Some r" and due: "\<not> overdue now r"
    using r(1) sweep_all(2) [OF ok, of now k] by (auto simp: m' split: option.splits if_splits)
  have id: "\<forall>x \<in> set (ks_list K (store m)). messageId x = k \<longrightarrow> \<not> overdue now x"
    using present [OF inv] old due by fastforce
  have "r \<in> set (ks_list K (store m))" "messageId r = k" using old list_get [OF inv] get_id [OF inv] by blast+
  then have "\<exists>x \<in> set (ks_list K (store m)). messageId x = k \<and> lifetimeKind x = ''duration'' \<and> expiresAtMs x \<noteq> None"
    using r(2,3) by blast
  then have "jm_has (timers m') k"
    using sweep_remembers [OF _ id, of m] by (simp add: m' sweepExpired_def)
  then obtain h d' where h: "jm_get (timers m') k = Some h" "(h, d', k) \<in> set (scheduled m')"
    using ok' unfolding sweepable_def handles_ok_def jm_has_def by blast
  moreover have "timed K (store m') k d" using r by (simp add: timed_def)
  ultimately have "d = d'" using ok' by (auto simp: sweepable_def deadlines_agree_def)
  then show ?thesis using h fire_erases [OF ok' h(2)] due r(2,3) by (auto simp: overdue_def)
qed

lemma sweepable_fire:
  assumes "sweepable K inv m" shows "sweepable K inv (fire K now h m)"
proof (cases "jm_get (scheduled m) h")
  case (Some e)
  obtain d i where e: "e = (d, i)" by (cases e)
  have m: "(h, d, i) \<in> set (scheduled m)" using Some by (auto simp: e dest: map_of_SomeD)
  have ok: "handles_ok m" using assms by (simp add: sweepable_def)
  let ?c = "cancel_timer i (hook_cancel h m)"
  have keep: "(g, d', j) \<in> set (scheduled ?c)" if g: "(g, d', j) \<in> set (scheduled m)" "j \<noteq> i" for g d' j
  proof -
    have "g \<noteq> h" using one_entry_per_handle [OF ok, of h "(d, i)" "(d', j)"] m g by auto
    moreover have "jm_get (timers m) i \<noteq> Some g"
    proof
      assume "jm_get (timers m) i = Some g"
      then obtain d'' where "(g, d'', i) \<in> set (scheduled m)" using ok unfolding handles_ok_def by blast
      then show False using one_entry_per_handle [OF ok g(1)] g(2) by auto
    qed
    ultimately show ?thesis using g by (auto simp: cancel_timer_def hook_cancel_def split: option.splits)
  qed
  have sub: "set (scheduled ?c) \<subseteq> set (scheduled m)" and d: "distinct (map fst (scheduled ?c))"
    and t: "jm_get (timers ?c) j = (if j = i then None else jm_get (timers m) j)" for j
    using ok by (auto simp: cancel_timer_def hook_cancel_def handles_ok_def jsmap_simps distinct_map_filter split: option.splits)
  have handles: "handles_ok ?c"
    unfolding handles_ok_def
  proof (intro conjI allI impI ballI d)
    show "fst e < next_handle ?c" if "e \<in> set (scheduled ?c)" for e
      using that sub ok by (auto simp: handles_ok_def hook_cancel_def)
    show "\<exists>d. (g, d, j) \<in> set (scheduled ?c)" if "jm_get (timers ?c) j = Some g" for j g
      using that ok keep unfolding t handles_ok_def by (metis option.distinct(1))
  qed
  let ?n = "expire K i ByDuration (hook_cancel h m)"
  have frame: "timers ?n = timers ?c" "scheduled ?n = scheduled ?c" "handles_ok ?n = handles_ok ?c"
    by (auto simp: expire_def Let_def hook_onErased_def split: option.splits)
  have inv: "inv (store (hook_cancel h m))" "store (hook_cancel h m) = store m"
    using assms by (simp_all add: sweepable_def hook_cancel_def)
  have "sweepable K inv ?n"
    using assms handles sub inv_expire [OF inv(1)] get_expire [OF inv(1)]
    by (auto simp: sweepable_def deadlines_agree_def frame t timed_def inv split: if_splits)
  then show ?thesis using Some assms by (simp add: fire_def e)
qed (use assms in \<open>simp add: fire_def\<close>)

lemma sweepable_lm_step:
  assumes "sweepable K inv m" shows "sweepable K inv (snd (lm_step A K msk e m))"
proof -
  have erased: "sweepable K inv (hook_onErased i reason c n)" if "sweepable K inv n" for i reason c n
    using that by (simp add: hook_onErased_def)
  show ?thesis
    using sweepable_put_arm [OF assms] sweepable_put [OF assms] sweepable_expire [OF assms] sweepable_fire [OF assms]
      sweep_all(1) [OF assms] assms
    by (cases "(A, K, msk, e, m)" rule: lm_step.cases)
       (auto simp: storeIncoming_def armOnView_def openBurnOnRead_def revoke_def Let_def tombstone_def seal_def
          intro!: erased split: option.splits sum.splits)
qed

end

section \<open>The life of the keyvault\<close>

text \<open>
  What happens to the store beside the manager's operations: the controller turns history-off mode on or
  off, purges the stored history, or a restarted worker opens the same database with a new manager.
\<close>

datatype life_op = Manager int lm_op | Mode bool | Purge | Restart

fun life_step :: "aead \<Rightarrow> bytes \<Rightarrow> life_op \<Rightarrow> device lifetime_manager \<Rightarrow> device lifetime_manager" where
  "life_step A msk (Manager now p) m = snd (lm_step A idb_keyvault msk (now, p) m)"
| "life_step A msk (Mode on) m = m\<lparr>store := kv_setEphemeral on (store m)\<rparr>"
| "life_step A msk Purge m = m\<lparr>store := kv_purgeDurable (store m)\<rparr>"
| "life_step A msk Restart m = new_manager (new_device (db (store m)))"

definition life_run :: "aead \<Rightarrow> bytes \<Rightarrow> life_op list \<Rightarrow> idb \<Rightarrow> device lifetime_manager" where
  "life_run A msk es d = fold (life_step A msk) es (new_manager (new_device d))"

lemma mode_switch:
  assumes "kv_ok d"
  shows "kv_ok (kv_setEphemeral on d)" "kv_ok (kv_purgeDurable d)" "kv_ok (new_device (db d))"
    and "kv_get (kv_setEphemeral on d) k \<in> {None, kv_get d k}" "kv_get (kv_purgeDurable d) k \<in> {None, kv_get d k}"
  using assms
  by (auto simp: kv_ok_def kv_setEphemeral_def kv_purgeDurable_def new_device_def kv_get_def jm_has_def id_keyed_def
      split: option.splits)

lemma sweepable_life_step:
  assumes "sweepable idb_keyvault kv_ok m" shows "sweepable idb_keyvault kv_ok (life_step A msk e m)"
proof -
  have ok: "kv_ok (store m)" using assms by (simp add: sweepable_def)
  show ?thesis
  proof (cases e)
    case (Manager now p)
    then show ?thesis using idb_store.sweepable_lm_step [OF assms] by simp
  next
    case (Mode on)
    have "timed idb_keyvault (store m) i d" if "timed idb_keyvault (kv_setEphemeral on (store m)) i d" for i d
      using that mode_switch(4) [OF ok, of on i] by (auto simp: timed_def)
    then show ?thesis unfolding Mode life_step.simps
      by (intro sweepable_store [OF assms mode_switch(1) [OF ok]])
  next
    case Purge
    have "timed idb_keyvault (store m) i d" if "timed idb_keyvault (kv_purgeDurable (store m)) i d" for i d
      using that mode_switch(5) [OF ok, of i] by (auto simp: timed_def)
    then show ?thesis unfolding Purge life_step.simps
      by (intro sweepable_store [OF assms mode_switch(2) [OF ok]])
  next
    case Restart
    then show ?thesis by (simp add: sweepable_new mode_switch(3) [OF ok])
  qed
qed

lemma sweepable_life:
  assumes "kv_ok (new_device d)" shows "sweepable idb_keyvault kv_ok (life_run A msk es d)"
proof -
  have "sweepable idb_keyvault kv_ok (fold (life_step A msk) es m)" if "sweepable idb_keyvault kv_ok m" for m
    using that by (induction es arbitrary: m) (simp_all add: sweepable_life_step)
  then show ?thesis by (simp add: life_run_def sweepable_new assms)
qed

text \<open>C15.
  The resume sweep leaves no message past its deadline and none without a timer. From any well-formed
  database, after any sequence of the manager's operations, switches of history-off mode, purges and
  restarts, in history-off mode or not, \<open>sweepExpired\<close> at time \<open>now\<close> removes exactly the overdue duration
  messages and reports one erasure for each, and every armed duration message that remains, on disk or in
  memory, lies in the future and has a scheduled timer at its deadline, whose callback erases it.
\<close>
theorem sweep_enforces_every_deadline:
  assumes "kv_ok (new_device d)" and "m = life_run A msk es d" and "m' = sweepExpired idb_keyvault now m"
  shows "(\<forall>k. kv_get (store m') k = (case kv_get (store m) k of None \<Rightarrow> None
        | Some r \<Rightarrow> if overdue now r then None else Some r)) \<and>
    erased m' = erased m @ map (\<lambda>r. (messageId r, ByDuration, conversationId r))
        (filter (overdue now) (kv_list (store m))) \<and>
    (\<forall>k r d. kv_get (store m') k = Some r \<and> lifetimeKind r = ''duration'' \<and> expiresAtMs r = Some d \<longrightarrow>
       now < d \<and> (\<exists>h. (h, d, k) \<in> set (scheduled m') \<and>
         (\<forall>later \<ge> d. kv_get (store (fire idb_keyvault later h m')) k = None)))"
proof -
  have ok: "sweepable idb_keyvault kv_ok m" using sweepable_life [OF assms(1)] assms(2) by simp
  show ?thesis
  proof (intro conjI allI impI; (elim conjE)?)
    show "kv_get (store m') k = (case kv_get (store m) k of None \<Rightarrow> None
        | Some r \<Rightarrow> if overdue now r then None else Some r)" for k
      using idb_store.sweep_all(2) [OF ok, of now k] by (simp add: assms(3))
    show "erased m' = erased m @ map (\<lambda>r. (messageId r, ByDuration, conversationId r))
        (filter (overdue now) (kv_list (store m)))"
      using idb_store.sweep_all(3) [OF ok, of now] by (simp add: assms(3))
  next
    fix k r d
    assume "kv_get (store m') k = Some r" "lifetimeKind r = ''duration''" "expiresAtMs r = Some d"
    then have "now < d \<and> (\<exists>h. (h, d, k) \<in> set (scheduled m') \<and>
         (\<forall>later \<ge> d. kv_get (store (fire idb_keyvault later h m')) k = None))"
      using idb_store.sweep_arms_all [OF ok assms(3), of k r d] by simp
    then show "now < d" "\<exists>h. (h, d, k) \<in> set (scheduled m') \<and>
         (\<forall>later \<ge> d. kv_get (store (fire idb_keyvault later h m')) k = None)" by blast+
  qed
qed

text \<open>A message held in memory only, swept at its deadline and before it.\<close>

definition demo_life :: "life_op list" where
  "demo_life = [Mode True, Manager 10 (Store demo_random (demo_meta ''m1'' (Duration 30)) [42] True)]"

lemma demo_life_get:
  "kv_get (store (life_run demo_aead [5] demo_life empty_db)) k =
     (if k = ''m1'' then Some (demo_record ''m1'' (Duration 30) 10) else None)"
  by (simp add: life_run_def demo_life_def storeIncoming_def arm_def hook_schedule_def Let_def new_manager_def
      new_device_def empty_db_def kv_setEphemeral_def kv_get_def kv_put_def evictOldest_def mine_def
      EPHEMERAL_PER_CONV_MAX_def demo_record_def demo_meta_def seal_def jm_has_def jsmap_simps lifetime_kind_def expiryMs_def)

theorem sweep_enforces_every_deadline_witness:
  "kv_get (store (sweepExpired idb_keyvault 30010 (life_run demo_aead [5] demo_life empty_db))) ''m1'' = None \<and>
   (\<exists>h. (h, 30010, ''m1'') \<in> set (scheduled (sweepExpired idb_keyvault 20 (life_run demo_aead [5] demo_life empty_db))))"
proof -
  note all = sweep_enforces_every_deadline [OF kv_ok_empty(1) refl refl, of _ demo_aead "[5]" demo_life]
  have r: "lifetimeKind (demo_record ''m1'' (Duration 30) 10) = ''duration''"
    "expiresAtMs (demo_record ''m1'' (Duration 30) 10) = Some 30010"
    by (simp_all add: demo_record_def seal_def demo_meta_def Let_def lifetime_kind_def expiryMs_def)
  have "kv_get (store (sweepExpired idb_keyvault 30010 (life_run demo_aead [5] demo_life empty_db))) ''m1'' = None"
    using all [of 30010] r by (simp add: demo_life_get overdue_def)
  moreover have "kv_get (store (sweepExpired idb_keyvault 20 (life_run demo_aead [5] demo_life empty_db))) ''m1'' =
      Some (demo_record ''m1'' (Duration 30) 10)"
    using all [of 20] r by (simp add: demo_life_get overdue_def)
  ultimately show ?thesis using all [of 20] r by blast
qed

end
