(* ===== verification/Base64.thy ===== *)
theory Base64
  imports Prelude
begin

text \<open>
  The platform's \<open>btoa\<close> and \<open>atob\<close> (the forgiving-base64 algorithms of the Infra standard) and the
  base64url forms built on them in \<open>client/src/provisioning.ts\<close>.
\<close>

definition b64_alphabet :: string where
  "b64_alphabet = ''ABCDEFGHIJKLMNOPQRSTUVWXYZabcdefghijklmnopqrstuvwxyz0123456789+/''"

definition b64_char :: "nat \<Rightarrow> char" where
  "b64_char n = b64_alphabet ! (n mod 64)"

definition b64_value :: "char \<Rightarrow> nat option" where
  "b64_value c = (let n = length (takeWhile (\<lambda>x. x \<noteq> c) b64_alphabet) in if n < 64 then Some n else None)"

lemma b64_value_char: "n < 64 \<Longrightarrow> b64_value (b64_char n) = Some n"
proof -
  assume n: "n < 64"
  have "\<forall>i \<in> set [0..<64]. b64_value (b64_char i) = Some i" by code_simp
  with n show ?thesis by simp
qed

fun btoa :: "bytes \<Rightarrow> string" where
  "btoa [] = []"
| "btoa [a] = (let x = unat a in [b64_char (x div 4), b64_char (x mod 4 * 16), CHR ''='', CHR ''=''])"
| "btoa [a, b] = (let x = unat a; y = unat b in
     [b64_char (x div 4), b64_char (x mod 4 * 16 + y div 16), b64_char (y mod 16 * 4), CHR ''=''])"
| "btoa (a # b # c # rest) = (let x = unat a; y = unat b; z = unat c in
     b64_char (x div 4) # b64_char (x mod 4 * 16 + y div 16) # b64_char (y mod 16 * 4 + z div 64) #
     b64_char (z mod 64) # btoa rest)"

text \<open>Decoding the digits: four give three bytes, a rest of three or two gives two or one, a rest of one fails.\<close>

fun b64_bytes :: "nat list \<Rightarrow> bytes option" where
  "b64_bytes [] = Some []"
| "b64_bytes [p] = None"
| "b64_bytes [p, q] = Some [of_nat (p * 4 + q div 16)]"
| "b64_bytes [p, q, r] = Some [of_nat (p * 4 + q div 16), of_nat (q mod 16 * 16 + r div 4)]"
| "b64_bytes (p # q # r # s # rest) =
     map_option (\<lambda>bs. of_nat (p * 4 + q div 16) # of_nat (q mod 16 * 16 + r div 4) # of_nat (r mod 4 * 64 + s) # bs)
       (b64_bytes rest)"

definition strip_padding :: "string \<Rightarrow> string" where
  "strip_padding s =
     (if length s mod 4 \<noteq> 0 \<or> s = [] \<or> last s \<noteq> CHR ''='' then s
      else if butlast s \<noteq> [] \<and> last (butlast s) = CHR ''='' then butlast (butlast s) else butlast s)"

definition atob :: "string \<Rightarrow> bytes option" where
  "atob s =
     (let t = strip_padding (filter (\<lambda>c. c \<notin> set [CHR 0x09, CHR 0x0A, CHR 0x0C, CHR 0x0D, CHR '' '']) s);
          ds = map b64_value t
      in if length t mod 4 = 1 \<or> None \<in> set ds then None else b64_bytes (map the ds))"

definition subst_char :: "char \<Rightarrow> char \<Rightarrow> string \<Rightarrow> string" where
  "subst_char a b s = map (\<lambda>c. if c = a then b else c) s"

definition toB64Url :: "bytes \<Rightarrow> string" where
  "toB64Url b =
     rev (dropWhile (\<lambda>c. c = CHR ''='')
       (rev (subst_char (CHR ''/'') (CHR ''_'') (subst_char (CHR ''+'') (CHR ''-'') (btoa b)))))"

definition fromB64Url :: "string \<Rightarrow> bytes option" where
  "fromB64Url s = atob (subst_char (CHR ''_'') (CHR ''/'') (subst_char (CHR ''-'') (CHR ''+'') s))"

section \<open>Round trip\<close>

text \<open>The digits of an encoding without the padding.\<close>

fun b64_digits :: "bytes \<Rightarrow> nat list" where
  "b64_digits [] = []"
| "b64_digits [a] = [unat a div 4, unat a mod 4 * 16]"
| "b64_digits [a, b] = [unat a div 4, unat a mod 4 * 16 + unat b div 16, unat b mod 16 * 4]"
| "b64_digits (a # b # c # rest) =
     [unat a div 4, unat a mod 4 * 16 + unat b div 16, unat b mod 16 * 4 + unat c div 64, unat c mod 64] @
     b64_digits rest"

lemma unat_byte: "unat (b :: byte) < 256"
  by (rule order_less_le_trans [OF unsigned_less]) simp

lemma b64_digits_lt: "\<forall>d \<in> set (b64_digits bs). d < 64"
proof (induction bs rule: b64_digits.induct)
  case (2 a)
  then show ?case using unat_byte [of a] by simp
next
  case (3 a b)
  then show ?case using unat_byte [of a] unat_byte [of b] by simp linarith
next
  case (4 a b c rest)
  then show ?case using unat_byte [of a] unat_byte [of b] unat_byte [of c] by simp linarith
qed simp

lemma byte_of_nat: "n = unat (b :: byte) \<Longrightarrow> of_nat n = b"
  by simp

lemma b64_bytes_digits: "b64_bytes (b64_digits bs) = Some bs"
proof (induction bs rule: b64_digits.induct)
  case (2 a)
  have "unat a div 4 * 4 + unat a mod 4 * 16 div 16 = unat a" by simp
  then show ?case by (simp add: byte_of_nat)
next
  case (3 a b)
  have "(unat a mod 4 * 16 + unat b div 16) div 16 = unat a mod 4" "(unat a mod 4 * 16 + unat b div 16) mod 16 = unat b div 16"
    using unat_byte [of b] by auto
  then show ?case by (simp add: byte_of_nat)
next
  case (4 a b c rest)
  have "(unat a mod 4 * 16 + unat b div 16) div 16 = unat a mod 4" "(unat a mod 4 * 16 + unat b div 16) mod 16 = unat b div 16"
    "(unat b mod 16 * 4 + unat c div 64) div 4 = unat b mod 16" "(unat b mod 16 * 4 + unat c div 64) mod 4 = unat c div 64"
    using unat_byte [of b] unat_byte [of c] by auto
  then show ?case using 4 by (simp add: byte_of_nat)
qed simp

lemma length_b64_digits: "length (b64_digits bs) mod 4 \<noteq> 1"
  by (induction bs rule: b64_digits.induct) simp_all

lemma btoa_digits: "\<exists>k. btoa bs = map b64_char (b64_digits bs) @ replicate k (CHR ''='')"
proof (induction bs rule: btoa.induct)
  case 1
  then show ?case by simp
next
  case (2 a)
  show ?case by (rule exI [of _ 2]) (simp add: Let_def numeral_2_eq_2)
next
  case (3 a b)
  show ?case by (rule exI [of _ 1]) (simp add: Let_def)
next
  case (4 a b c rest)
  then show ?case by (auto simp: Let_def)
qed

definition b64url_char :: "nat \<Rightarrow> char" where
  "b64url_char n = (let c = b64_char n in if c = CHR ''+'' then CHR ''-'' else if c = CHR ''/'' then CHR ''_'' else c)"

definition url_unchar :: "char \<Rightarrow> char" where
  "url_unchar c = (if c = CHR ''-'' then CHR ''+'' else if c = CHR ''_'' then CHR ''/'' else c)"

lemma subst_url_unchar:
  "subst_char (CHR ''_'') (CHR ''/'') (subst_char (CHR ''-'') (CHR ''+'') s) = map url_unchar s"
  by (simp add: subst_char_def url_unchar_def)

lemma dropWhile_none: "\<forall>x \<in> set xs. \<not> P x \<Longrightarrow> dropWhile P xs = xs"
  by (cases xs) simp_all

lemma b64url_char_facts:
  assumes "n < 64"
  shows "b64url_char n \<noteq> CHR ''=''"
    and "url_unchar (b64url_char n) = b64_char n"
    and "b64_char n \<notin> set [CHR 0x09, CHR 0x0A, CHR 0x0C, CHR 0x0D, CHR '' '', CHR ''='']"
proof -
  have "\<forall>i \<in> set [0..<64]. b64url_char i \<noteq> CHR ''='' \<and>
      url_unchar (b64url_char i) = b64_char i \<and>
      b64_char i \<notin> set [CHR 0x09, CHR 0x0A, CHR 0x0C, CHR 0x0D, CHR '' '', CHR ''='']"
    by code_simp
  with assms show "b64url_char n \<noteq> CHR ''=''"
    and "url_unchar (b64url_char n) = b64_char n"
    and "b64_char n \<notin> set [CHR 0x09, CHR 0x0A, CHR 0x0C, CHR 0x0D, CHR '' '', CHR ''='']" by simp_all
qed

lemma toB64Url_digits: "toB64Url bs = map b64url_char (b64_digits bs)"
proof -
  obtain k where k: "btoa bs = map b64_char (b64_digits bs) @ replicate k (CHR ''='')"
    using btoa_digits by blast
  have m: "subst_char (CHR ''/'') (CHR ''_'') (subst_char (CHR ''+'') (CHR ''-'') (btoa bs)) =
      map b64url_char (b64_digits bs) @ replicate k (CHR ''='')"
    by (auto simp: k subst_char_def b64url_char_def Let_def)
  have no_pad: "dropWhile (\<lambda>c. c = CHR ''='') (rev (map b64url_char (b64_digits bs))) =
      rev (map b64url_char (b64_digits bs))"
    using b64_digits_lt [of bs] b64url_char_facts(1) by (intro dropWhile_none) auto
  have "dropWhile (\<lambda>c. c = CHR ''='') (replicate k (CHR ''='') @ xs) = dropWhile (\<lambda>c. c = CHR ''='') xs" for xs
    by (induction k) simp_all
  with no_pad show ?thesis by (simp add: toB64Url_def m)
qed

theorem fromB64Url_toB64Url: "fromB64Url (toB64Url bs) = Some bs"
proof -
  have lt: "d < 64" if "d \<in> set (b64_digits bs)" for d using b64_digits_lt that by blast
  have chars: "subst_char (CHR ''_'') (CHR ''/'') (subst_char (CHR ''-'') (CHR ''+'') (toB64Url bs)) =
      map b64_char (b64_digits bs)"
    using b64url_char_facts(2) [OF lt] by (simp add: toB64Url_digits subst_url_unchar)
  have ws: "filter (\<lambda>c. c \<notin> set [CHR 0x09, CHR 0x0A, CHR 0x0C, CHR 0x0D, CHR '' '']) (map b64_char (b64_digits bs)) =
      map b64_char (b64_digits bs)"
    using b64url_char_facts(3) [OF lt] by (simp add: filter_id_conv)
  have "last (map b64_char (b64_digits bs)) \<noteq> CHR ''=''" if "b64_digits bs \<noteq> []"
    using b64url_char_facts(3) [OF lt] that last_in_set [OF that] by (simp add: last_map)
  then have sp: "strip_padding (map b64_char (b64_digits bs)) = map b64_char (b64_digits bs)"
    by (auto simp: strip_padding_def)
  have vals: "map b64_value (map b64_char (b64_digits bs)) = map Some (b64_digits bs)"
    using b64_value_char lt by simp
  show ?thesis
    using length_b64_digits [of bs]
    by (simp only: fromB64Url_def chars atob_def ws sp vals Let_def)
       (auto simp: b64_bytes_digits comp_def)
qed

end
