(* ===== verification/Provisioning.thy ===== *)
theory Provisioning
  imports Base64 Codec
begin

text \<open>
  Device provisioning (\<open>client/src/provisioning.ts\<close>): the three fixed-size rendezvous messages, the QR
  pairing payload, the sealed-grant frame, and the state machine \<open>Provisioning\<close> with its two ceremonies
  (six-word comparison and QR scan). The injected dependencies (wasm primitives, SHA-256) are the record
  \<open>prov_deps\<close>; publishing, subscribing, acknowledging, events, timers and the calls that authorize or
  adopt a certificate are recorded in order in \<open>fx\<close>.
\<close>

section \<open>Byte buffers\<close>

text \<open>\<open>buf.set(src, off)\<close> throws when the source does not fit.\<close>

definition set_at :: "nat \<Rightarrow> bytes \<Rightarrow> bytes \<Rightarrow> bytes result" where
  "set_at off src b =
     (if off + length src \<le> length b then Inr (take off b @ src @ drop (off + length src) b) else Inl RangeError)"

lemma set_at_length: "set_at off src b = Inr b' \<Longrightarrow> length b' = length b"
  by (auto simp: set_at_def split: if_splits)

section \<open>Rendezvous messages\<close>

definition VER :: byte where "VER = 2"

definition MSG_CHALLENGE :: byte where "MSG_CHALLENGE = 0"

definition MSG_REQUEST :: byte where "MSG_REQUEST = 1"

definition MSG_GRANT :: byte where "MSG_GRANT = 2"

definition PAD :: nat where "PAD = 256"

record challenge =
  c_sessionNonce :: bytes
  c_certEpoch :: nat
  c_accountPubKey :: bytes

record prov_request =
  q_sessionNonce :: bytes
  q_deviceSigKey :: bytes
  q_replyMailbox :: bytes
  q_requestId :: bytes

record grant =
  g_accountPubKey :: bytes
  g_certEpoch :: nat
  g_cert :: bytes
  g_sessionNonce :: bytes

definition pad :: "bytes \<Rightarrow> bytes" where
  "pad buf = slice 0 PAD buf @ replicate (PAD - length buf) 0"

definition encodeChallenge :: "challenge \<Rightarrow> bytes result" where
  "encodeChallenge c =
     bind_result (set_at 2 (c_sessionNonce c) (MSG_CHALLENGE # VER # replicate 68 0)) (\<lambda>b.
     bind_result (set_at 34 (u32_be (c_certEpoch c)) b) (\<lambda>b.
     bind_result (set_at 38 (c_accountPubKey c) b) (\<lambda>b. Inr (pad b))))"

definition decodeChallenge :: "bytes \<Rightarrow> challenge option" where
  "decodeChallenge buf =
     (if length buf < 70 \<or> at buf 0 \<noteq> Some MSG_CHALLENGE \<or> at buf 1 \<noteq> Some VER then None
      else case get_u32 buf 34 of Inl _ \<Rightarrow> None
        | Inr e \<Rightarrow> Some \<lparr> c_sessionNonce = slice 2 34 buf, c_certEpoch = e, c_accountPubKey = slice 38 70 buf \<rparr>)"

definition encodeRequest :: "prov_request \<Rightarrow> bytes result" where
  "encodeRequest r =
     bind_result (set_at 2 (q_sessionNonce r) (MSG_REQUEST # VER # replicate 112 0)) (\<lambda>b.
     bind_result (set_at 34 (q_deviceSigKey r) b) (\<lambda>b.
     bind_result (set_at 66 (q_replyMailbox r) b) (\<lambda>b.
     bind_result (set_at 98 (q_requestId r) b) (\<lambda>b. Inr (pad b)))))"

definition decodeRequest :: "bytes \<Rightarrow> prov_request option" where
  "decodeRequest buf =
     (if length buf < 114 \<or> at buf 0 \<noteq> Some MSG_REQUEST \<or> at buf 1 \<noteq> Some VER then None
      else Some \<lparr> q_sessionNonce = slice 2 34 buf, q_deviceSigKey = slice 34 66 buf,
                  q_replyMailbox = slice 66 98 buf, q_requestId = slice 98 114 buf \<rparr>)"

definition encodeGrant :: "grant \<Rightarrow> bytes result" where
  "encodeGrant g =
     bind_result (set_at 2 (g_accountPubKey g) (MSG_GRANT # VER # replicate 132 0)) (\<lambda>b.
     bind_result (set_at 34 (u32_be (g_certEpoch g)) b) (\<lambda>b.
     bind_result (set_at 38 (g_cert g) b) (\<lambda>b.
     bind_result (set_at 102 (g_sessionNonce g) b) (\<lambda>b. Inr (pad b)))))"

definition decodeGrant :: "bytes \<Rightarrow> grant option" where
  "decodeGrant buf =
     (if length buf < 134 \<or> at buf 0 \<noteq> Some MSG_GRANT \<or> at buf 1 \<noteq> Some VER then None
      else case get_u32 buf 34 of Inl _ \<Rightarrow> None
        | Inr e \<Rightarrow> Some \<lparr> g_accountPubKey = slice 2 34 buf, g_certEpoch = e, g_cert = slice 38 102 buf,
                          g_sessionNonce = slice 102 134 buf \<rparr>)"

text \<open>The sizes the interfaces document.\<close>

definition challenge_ok :: "challenge \<Rightarrow> bool" where
  "challenge_ok c \<longleftrightarrow> length (c_sessionNonce c) = 32 \<and> c_certEpoch c < 2 ^ 32 \<and> length (c_accountPubKey c) = 32"

definition request_ok :: "prov_request \<Rightarrow> bool" where
  "request_ok r \<longleftrightarrow> length (q_sessionNonce r) = 32 \<and> length (q_deviceSigKey r) = 32 \<and>
     length (q_replyMailbox r) = 32 \<and> length (q_requestId r) = 16"

definition grant_ok :: "grant \<Rightarrow> bool" where
  "grant_ok g \<longleftrightarrow> length (g_accountPubKey g) = 32 \<and> g_certEpoch g < 2 ^ 32 \<and> length (g_cert g) = 64 \<and>
     length (g_sessionNonce g) = 32"

lemma set_at_step:
  "length b = off \<Longrightarrow> length src \<le> n \<Longrightarrow>
     set_at off src (b @ replicate n 0) = Inr ((b @ src) @ replicate (n - length src) 0)"
  by (simp add: set_at_def)

lemma encodeChallenge_layout:
  "challenge_ok c \<Longrightarrow> encodeChallenge c =
     Inr ([MSG_CHALLENGE, VER] @ c_sessionNonce c @ u32_be (c_certEpoch c) @ c_accountPubKey c @ replicate 186 0)"
  using set_at_step [of "[MSG_CHALLENGE, VER]" 2 "c_sessionNonce c" 68]
    set_at_step [of "[MSG_CHALLENGE, VER] @ c_sessionNonce c" 34 "u32_be (c_certEpoch c)" 36]
    set_at_step [of "([MSG_CHALLENGE, VER] @ c_sessionNonce c) @ u32_be (c_certEpoch c)" 38 "c_accountPubKey c" 32]
  by (simp add: encodeChallenge_def challenge_ok_def pad_def PAD_def slice_def)

lemma encodeRequest_layout:
  "request_ok r \<Longrightarrow> encodeRequest r = Inr ([MSG_REQUEST, VER] @ q_sessionNonce r @ q_deviceSigKey r @
     q_replyMailbox r @ q_requestId r @ replicate 142 0)"
  using set_at_step [of "[MSG_REQUEST, VER]" 2 "q_sessionNonce r" 112]
    set_at_step [of "[MSG_REQUEST, VER] @ q_sessionNonce r" 34 "q_deviceSigKey r" 80]
    set_at_step [of "([MSG_REQUEST, VER] @ q_sessionNonce r) @ q_deviceSigKey r" 66 "q_replyMailbox r" 48]
    set_at_step [of "(([MSG_REQUEST, VER] @ q_sessionNonce r) @ q_deviceSigKey r) @ q_replyMailbox r" 98 "q_requestId r" 16]
  by (simp add: encodeRequest_def request_ok_def pad_def PAD_def slice_def)

lemma encodeGrant_layout:
  "grant_ok g \<Longrightarrow> encodeGrant g = Inr ([MSG_GRANT, VER] @ g_accountPubKey g @ u32_be (g_certEpoch g) @
     g_cert g @ g_sessionNonce g @ replicate 122 0)"
  using set_at_step [of "[MSG_GRANT, VER]" 2 "g_accountPubKey g" 132]
    set_at_step [of "[MSG_GRANT, VER] @ g_accountPubKey g" 34 "u32_be (g_certEpoch g)" 100]
    set_at_step [of "([MSG_GRANT, VER] @ g_accountPubKey g) @ u32_be (g_certEpoch g)" 38 "g_cert g" 96]
    set_at_step [of "(([MSG_GRANT, VER] @ g_accountPubKey g) @ u32_be (g_certEpoch g)) @ g_cert g" 102 "g_sessionNonce g" 32]
  by (simp add: encodeGrant_def grant_ok_def pad_def PAD_def slice_def)

lemma decode_challenge_layout:
  assumes "length n = 32" "e < 2 ^ 32" "length a = 32"
  shows "decodeChallenge ([MSG_CHALLENGE, VER] @ n @ u32_be e @ a @ rest) =
    Some \<lparr> c_sessionNonce = n, c_certEpoch = e, c_accountPubKey = a \<rparr>"
  using assms get_u32_be [of "[MSG_CHALLENGE, VER] @ n" 34 e "a @ rest"]
    slice_append_exact [of "[MSG_CHALLENGE, VER]" 2 n 34 "u32_be e @ a @ rest"]
    slice_append_exact [of "[MSG_CHALLENGE, VER] @ n @ u32_be e" 38 a 70 rest]
  by (simp add: decodeChallenge_def)

lemma decode_request_layout:
  assumes "length n = 32" "length d = 32" "length m = 32" "length i = 16"
  shows "decodeRequest ([MSG_REQUEST, VER] @ n @ d @ m @ i @ rest) =
    Some \<lparr> q_sessionNonce = n, q_deviceSigKey = d, q_replyMailbox = m, q_requestId = i \<rparr>"
  using assms slice_append_exact [of "[MSG_REQUEST, VER]" 2 n 34 "d @ m @ i @ rest"]
    slice_append_exact [of "[MSG_REQUEST, VER] @ n" 34 d 66 "m @ i @ rest"]
    slice_append_exact [of "[MSG_REQUEST, VER] @ n @ d" 66 m 98 "i @ rest"]
    slice_append_exact [of "[MSG_REQUEST, VER] @ n @ d @ m" 98 i 114 rest]
  by (simp add: decodeRequest_def)

lemma decode_grant_layout:
  assumes "length a = 32" "e < 2 ^ 32" "length c = 64" "length n = 32"
  shows "decodeGrant ([MSG_GRANT, VER] @ a @ u32_be e @ c @ n @ rest) =
    Some \<lparr> g_accountPubKey = a, g_certEpoch = e, g_cert = c, g_sessionNonce = n \<rparr>"
  using assms get_u32_be [of "[MSG_GRANT, VER] @ a" 34 e "c @ n @ rest"]
    slice_append_exact [of "[MSG_GRANT, VER]" 2 a 34 "u32_be e @ c @ n @ rest"]
    slice_append_exact [of "[MSG_GRANT, VER] @ a @ u32_be e" 38 c 102 "n @ rest"]
    slice_append_exact [of "[MSG_GRANT, VER] @ a @ u32_be e @ c" 102 n 134 rest]
  by (simp add: decodeGrant_def)

lemma kind_separation:
  "decodeChallenge (t # bs) \<noteq> None \<Longrightarrow> t = MSG_CHALLENGE"
  "decodeRequest (t # bs) \<noteq> None \<Longrightarrow> t = MSG_REQUEST"
  "decodeGrant (t # bs) \<noteq> None \<Longrightarrow> t = MSG_GRANT"
  by (simp_all add: decodeChallenge_def decodeRequest_def decodeGrant_def split: if_splits)

lemma msg_kinds_distinct [simp]:
  "MSG_CHALLENGE \<noteq> MSG_REQUEST" "MSG_CHALLENGE \<noteq> MSG_GRANT" "MSG_REQUEST \<noteq> MSG_GRANT"
  "MSG_REQUEST \<noteq> MSG_CHALLENGE" "MSG_GRANT \<noteq> MSG_CHALLENGE" "MSG_GRANT \<noteq> MSG_REQUEST"
  by (simp_all add: MSG_CHALLENGE_def MSG_REQUEST_def MSG_GRANT_def)

lemma challenge_roundtrip:
  assumes "challenge_ok c"
  shows "\<exists>b. encodeChallenge c = Inr b \<and> length b = PAD \<and> decodeChallenge b = Some c \<and>
    decodeRequest b = None \<and> decodeGrant b = None"
proof -
  let ?b = "[MSG_CHALLENGE, VER] @ c_sessionNonce c @ u32_be (c_certEpoch c) @ c_accountPubKey c @ replicate 186 0"
  have "decodeChallenge ?b = Some c"
    using assms by (subst decode_challenge_layout) (simp_all add: challenge_ok_def)
  moreover have "decodeRequest ?b = None" "decodeGrant ?b = None"
    using kind_separation(2) [of MSG_CHALLENGE] kind_separation(3) [of MSG_CHALLENGE] by fastforce+
  moreover have "length ?b = PAD" using assms by (simp add: challenge_ok_def PAD_def)
  ultimately show ?thesis using encodeChallenge_layout [OF assms] by blast
qed

lemma request_roundtrip:
  assumes "request_ok r"
  shows "\<exists>b. encodeRequest r = Inr b \<and> length b = PAD \<and> decodeRequest b = Some r \<and>
    decodeChallenge b = None \<and> decodeGrant b = None"
proof -
  let ?b = "[MSG_REQUEST, VER] @ q_sessionNonce r @ q_deviceSigKey r @ q_replyMailbox r @ q_requestId r @ replicate 142 0"
  have "decodeRequest ?b = Some r"
    using assms by (subst decode_request_layout) (simp_all add: request_ok_def)
  moreover have "decodeChallenge ?b = None" "decodeGrant ?b = None"
    using kind_separation(1) [of MSG_REQUEST] kind_separation(3) [of MSG_REQUEST] by fastforce+
  moreover have "length ?b = PAD" using assms by (simp add: request_ok_def PAD_def)
  ultimately show ?thesis using encodeRequest_layout [OF assms] by blast
qed

lemma grant_roundtrip:
  assumes "grant_ok g"
  shows "\<exists>b. encodeGrant g = Inr b \<and> length b = PAD \<and> decodeGrant b = Some g \<and>
    decodeChallenge b = None \<and> decodeRequest b = None"
proof -
  let ?b = "[MSG_GRANT, VER] @ g_accountPubKey g @ u32_be (g_certEpoch g) @ g_cert g @ g_sessionNonce g @ replicate 122 0"
  have "decodeGrant ?b = Some g"
    using assms by (subst decode_grant_layout) (simp_all add: grant_ok_def)
  moreover have "decodeChallenge ?b = None" "decodeRequest ?b = None"
    using kind_separation(1) [of MSG_GRANT] kind_separation(2) [of MSG_GRANT] by fastforce+
  moreover have "length ?b = PAD" using assms by (simp add: grant_ok_def PAD_def)
  ultimately show ?thesis using encodeGrant_layout [OF assms] by blast
qed

section \<open>QR pairing payload and sealed grants\<close>

definition QR_PREFIX :: string where "QR_PREFIX = ''ddpair:''"

definition QR_VER :: byte where "QR_VER = 1"

text \<open>The fixed-size buffer keeps zeros where a key is short; a longer key is cut to 32 bytes.\<close>

definition encodeQrPairing :: "bytes \<Rightarrow> bytes \<Rightarrow> string" where
  "encodeQrPairing deviceSigKey ephPub =
     (let b1 = take 32 deviceSigKey @ replicate (32 - length deviceSigKey) 0;
          b2 = take 32 ephPub @ replicate (32 - length ephPub) 0
      in QR_PREFIX @ toB64Url (QR_VER # b1 @ b2))"

definition decodeQrPairing :: "string \<Rightarrow> (bytes \<times> bytes) option" where
  "decodeQrPairing text =
     (if take (length QR_PREFIX) text \<noteq> QR_PREFIX then None
      else case fromB64Url (drop (length QR_PREFIX) text) of
        None \<Rightarrow> None
      | Some b \<Rightarrow> if length b < 65 \<or> at b 0 \<noteq> Some QR_VER then None else Some (slice 1 33 b, slice 33 65 b))"

definition encodeSealedGrant :: "bytes \<Rightarrow> bytes" where
  "encodeSealedGrant box =
     word_of_nat (length box div 256) # word_of_nat (length box) #
     slice 0 (PAD - 2) box @ replicate (PAD - 2 - length box) 0"

definition decodeSealedGrant :: "bytes \<Rightarrow> bytes option" where
  "decodeSealedGrant buf = (case buf of
      hi # lo # _ \<Rightarrow>
        let len = unat hi * 256 + unat lo in
        if len < 32 \<or> 2 + len > length buf then None else Some (slice 2 (2 + len) buf)
    | _ \<Rightarrow> None)"

lemma qr_pairing_roundtrip:
  "length d = 32 \<Longrightarrow> length e = 32 \<Longrightarrow> decodeQrPairing (encodeQrPairing d e) = Some (d, e)"
  using slice_append_exact [of "[QR_VER]" 1 d 33 e] slice_append_exact [of "QR_VER # d" 33 e 65 "[]"]
  by (simp add: decodeQrPairing_def encodeQrPairing_def Let_def fromB64Url_toB64Url)

lemma sealed_grant_roundtrip:
  assumes "32 \<le> length box" "length box \<le> 254"
  shows "decodeSealedGrant (encodeSealedGrant box) = Some box \<and> length (encodeSealedGrant box) = PAD"
proof -
  have "unat (word_of_nat (length box) :: byte) = length box" using assms by (simp add: unat_of_nat)
  then show ?thesis using assms
    by (simp add: decodeSealedGrant_def encodeSealedGrant_def Let_def PAD_def slice_def)
qed

text \<open>
  C16. The provisioning wire formats carry every message of the documented sizes back unchanged, all as
  frames of 256 bytes, and no frame of one kind is read as another kind. The QR payload and the
  sealed-grant frame return the keys and the box they were built from.
\<close>
theorem provisioning_codecs:
  assumes "challenge_ok c" "request_ok r" "grant_ok g" "32 \<le> length box" "length box \<le> 254"
    and "length dev = 32" "length eph = 32"
  shows "(\<exists>b. encodeChallenge c = Inr b \<and> length b = PAD \<and> decodeChallenge b = Some c \<and>
            decodeRequest b = None \<and> decodeGrant b = None) \<and>
         (\<exists>b. encodeRequest r = Inr b \<and> length b = PAD \<and> decodeRequest b = Some r \<and>
            decodeChallenge b = None \<and> decodeGrant b = None) \<and>
         (\<exists>b. encodeGrant g = Inr b \<and> length b = PAD \<and> decodeGrant b = Some g \<and>
            decodeChallenge b = None \<and> decodeRequest b = None) \<and>
         decodeSealedGrant (encodeSealedGrant box) = Some box \<and> length (encodeSealedGrant box) = PAD \<and>
         decodeQrPairing (encodeQrPairing dev eph) = Some (dev, eph)"
  using assms by (simp add: challenge_roundtrip request_roundtrip grant_roundtrip sealed_grant_roundtrip
      qr_pairing_roundtrip)

theorem provisioning_codecs_witness:
  "decodeQrPairing (encodeQrPairing (replicate 32 7) (replicate 32 9)) = Some (replicate 32 7, replicate 32 9)"
  using provisioning_codecs [of "\<lparr> c_sessionNonce = replicate 32 1, c_certEpoch = 3, c_accountPubKey = replicate 32 2 \<rparr>"
      "\<lparr> q_sessionNonce = replicate 32 1, q_deviceSigKey = replicate 32 2, q_replyMailbox = replicate 32 3, q_requestId = replicate 16 4 \<rparr>"
      "\<lparr> g_accountPubKey = replicate 32 2, g_certEpoch = 3, g_cert = replicate 64 5, g_sessionNonce = replicate 32 1 \<rparr>"
      "replicate 40 6" "replicate 32 7" "replicate 32 9"]
  by (simp add: challenge_ok_def request_ok_def grant_ok_def)

section \<open>The state machine\<close>

datatype prov_role = Idle | SeedHolder | NewDevice | NewDeviceQr

datatype prov_event =
    EvError string
  | EvWindowOpen
  | EvWindowClosed
  | EvWaiting
  | EvDeviceAdded string
  | EvExpired
  | EvAuthorized string
  | EvConfirmDevice string
  | EvShowCode string

datatype ceremony = SixWords | Scanned

datatype prov_timer = WindowTimer | QrTimer

text \<open>
  The observable calls. \<open>Authorize\<close> and \<open>AuthorizeScanned\<close> are the calls of the signer, whatever they
  return; \<open>Adopt\<close> is a call of \<open>adoptCertificate\<close> that returned normally.
\<close>

datatype prov_fx =
    Publish string bytes
  | Subscribe string
  | Ack bytes
  | Push prov_event
  | Authorize string nat string string
  | AuthorizeScanned bytes nat
  | Adopt ceremony string nat string

record pending_device =
  pd_deviceKey :: bytes
  pd_replyMailbox :: bytes
  pd_sasDigestHex :: string

record provisioning =
  role :: prov_role
  provMailbox :: string
  qrEphSecret :: "bytes option"
  qrReplyMailbox :: string
  qrShowHandle :: "nat option"
  sessionNonce :: "bytes option"
  certEpoch :: nat
  windowHandle :: "nat option"
  seenRequests :: "string list"
  pending :: "pending_device option"
  myDeviceKey :: string
  accountPub :: string
  replyMailbox :: string
  joinNonceHex :: string
  joinEpoch :: nat
  p_timers :: "(nat \<times> prov_timer) list"
  p_next :: nat
  fx :: "prov_fx list"

record prov_deps =
  d_accountKeyHex :: string
  d_deviceKeyHex :: string
  d_sasDigestHex :: "string \<Rightarrow> string \<Rightarrow> string \<Rightarrow> nat \<Rightarrow> string"
  d_authorizeDevice :: "string \<Rightarrow> nat \<Rightarrow> string \<Rightarrow> string \<Rightarrow> string result"
  d_adoptCertificate :: "string \<Rightarrow> nat \<Rightarrow> string \<Rightarrow> unit result"
  d_renderSas :: "string \<Rightarrow> string"
  d_hasKeypair :: bool
  d_seal :: "(bytes \<Rightarrow> bytes \<Rightarrow> bytes result) option"
  d_open :: "(bytes \<Rightarrow> bytes \<Rightarrow> bytes result) option"
  d_authorizeScanned :: "(bytes \<Rightarrow> nat \<Rightarrow> bytes result) option"
  d_sha256 :: "bytes \<Rightarrow> bytes"

record prov_frame =
  f_messageId :: bytes
  f_routingKey :: string
  f_payload :: bytes

definition new_provisioning :: provisioning where
  "new_provisioning = \<lparr> role = Idle, provMailbox = [], qrEphSecret = None, qrReplyMailbox = [],
     qrShowHandle = None, sessionNonce = None, certEpoch = 0, windowHandle = None, seenRequests = [],
     pending = None, myDeviceKey = [], accountPub = [], replyMailbox = [], joinNonceHex = [], joinEpoch = 0,
     p_timers = [], p_next = 0, fx = [] \<rparr>"

definition out :: "prov_fx \<Rightarrow> provisioning \<Rightarrow> provisioning" where
  "out e p = p\<lparr>fx := fx p @ [e]\<rparr>"

definition sched :: "prov_timer \<Rightarrow> provisioning \<Rightarrow> nat \<times> provisioning" where
  "sched t p = (p_next p, p\<lparr>p_timers := p_timers p @ [(p_next p, t)], p_next := p_next p + 1\<rparr>)"

definition unsched :: "nat option \<Rightarrow> provisioning \<Rightarrow> provisioning" where
  "unsched h p = (case h of None \<Rightarrow> p | Some i \<Rightarrow> p\<lparr>p_timers := filter (\<lambda>e. fst e \<noteq> i) (p_timers p)\<rparr>)"

definition p_active :: "provisioning \<Rightarrow> bool" where
  "p_active p \<longleftrightarrow> role p \<noteq> Idle"

definition deriveProvMailbox :: "prov_deps \<Rightarrow> string \<Rightarrow> string" where
  "deriveProvMailbox D usernameHash =
     bytesToHex (d_sha256 D (TextEncoder_encode ''deaddrop-provision-v1'' @ hexToBytes usernameHash))"

definition deriveQrReplyMailbox :: "prov_deps \<Rightarrow> bytes \<Rightarrow> string" where
  "deriveQrReplyMailbox D ephPub =
     bytesToHex (d_sha256 D (TextEncoder_encode ''deaddrop-qr-reply-v1'' @ ephPub))"

definition cancelQrShow :: "provisioning \<Rightarrow> provisioning" where
  "cancelQrShow p =
     (let p = (unsched (qrShowHandle p) p)\<lparr>qrShowHandle := None\<rparr>
      in if role p = NewDeviceQr then p\<lparr>qrEphSecret := None, role := Idle\<rparr> else p)"

definition openWindow :: "prov_deps \<Rightarrow> bytes \<Rightarrow> nat \<Rightarrow> string \<Rightarrow> provisioning \<Rightarrow> unit result \<times> provisioning" where
  "openWindow D nonce mintEpoch mailbox p0 =
     (let p = cancelQrShow p0; acct = d_accountKeyHex D in
      if acct = [] then (Inr (), out (Push (EvError ''this device cannot authorize others'')) p)
      else
        let p = p\<lparr>role := SeedHolder, provMailbox := mailbox, sessionNonce := Some nonce, certEpoch := mintEpoch,
                  seenRequests := [], pending := None\<rparr>;
            p = out (Subscribe mailbox) p
        in case encodeChallenge \<lparr> c_sessionNonce = nonce, c_certEpoch = mintEpoch, c_accountPubKey = hexToBytes acct \<rparr> of
             Inl e \<Rightarrow> (Inl e, p)
           | Inr b \<Rightarrow>
               let p = out (Publish mailbox b) p; (h, p) = sched WindowTimer p
               in (Inr (), out (Push EvWindowOpen) (p\<lparr>windowHandle := Some h\<rparr>)))"

definition closeWindow :: "provisioning \<Rightarrow> provisioning" where
  "closeWindow p =
     (if role p \<noteq> SeedHolder then p
      else let p = (unsched (windowHandle p) p)\<lparr>windowHandle := None\<rparr>
           in out (Push EvWindowClosed) (p\<lparr>role := Idle, sessionNonce := None, pending := None\<rparr>))"

definition startJoin :: "prov_deps \<Rightarrow> string \<Rightarrow> provisioning \<Rightarrow> provisioning" where
  "startJoin D mailbox p0 =
     (let p = cancelQrShow p0;
          p = p\<lparr>role := NewDevice, provMailbox := mailbox, myDeviceKey := d_deviceKeyHex D,
                accountPub := [], replyMailbox := []\<rparr>
      in out (Push EvWaiting) (out (Subscribe mailbox) p))"

text \<open>The epoch parsed from the grant is stored by \<open>setUint32\<close>, which reads \<open>NaN\<close> as 0 and wraps.\<close>

definition to_uint32 :: "int option \<Rightarrow> nat" where
  "to_uint32 v = (case v of None \<Rightarrow> 0 | Some n \<Rightarrow> nat (n mod 2 ^ 32))"

definition confirm :: "prov_deps \<Rightarrow> provisioning \<Rightarrow> unit result \<times> provisioning" where
  "confirm D p =
     (case (role p, pending p, sessionNonce p) of
        (SeedHolder, Some pd, Some nonce) \<Rightarrow>
          (let p1 = out (Authorize (bytesToHex (pd_deviceKey pd)) (certEpoch p) (bytesToHex nonce) (pd_sasDigestHex pd)) p in
           case d_authorizeDevice D (bytesToHex (pd_deviceKey pd)) (certEpoch p) (bytesToHex nonce) (pd_sasDigestHex pd) of
             Inl _ \<Rightarrow> (Inr (), out (Push (EvError ''authorization failed'')) p1)
           | Inr grantHex \<Rightarrow>
               (case encodeGrant \<lparr> g_accountPubKey = hexToBytes (slice 0 64 grantHex),
                       g_certEpoch = to_uint32 (parseInt16 (slice 72 80 grantHex)),
                       g_cert = hexToBytes (drop 80 grantHex), g_sessionNonce = nonce \<rparr> of
                  Inl e \<Rightarrow> (Inl e, p1)
                | Inr b \<Rightarrow>
                    let p2 = out (Publish (bytesToHex (pd_replyMailbox pd)) b) p1;
                        p3 = out (Push (EvDeviceAdded (bytesToHex (pd_deviceKey pd)))) p2
                    in (Inr (), closeWindow p3)))
      | _ \<Rightarrow> (Inr (), p))"

text \<open>
  \<open>startQrShow\<close> up to its \<open>await\<close>, and what runs when the mailbox digest is there; other calls may come
  in between.
\<close>

definition startQrShow_begin :: "prov_deps \<Rightarrow> bytes \<Rightarrow> provisioning \<Rightarrow> unit result \<times> provisioning" where
  "startQrShow_begin D kp p =
     (if \<not> d_hasKeypair D then (Inl (JsError ''QR pairing not available''), p)
      else (Inr (), (cancelQrShow p)\<lparr>qrEphSecret := Some (slice 0 32 kp)\<rparr>))"

definition startQrShow_resume :: "prov_deps \<Rightarrow> bytes \<Rightarrow> provisioning \<Rightarrow> string \<times> provisioning" where
  "startQrShow_resume D kp p =
     (let ephPub = slice 32 64 kp;
          p = p\<lparr>qrReplyMailbox := deriveQrReplyMailbox D ephPub, role := NewDeviceQr\<rparr>;
          p = out (Subscribe (qrReplyMailbox p)) p;
          (h, p) = sched QrTimer p;
          p = out (Push EvWaiting) (p\<lparr>qrShowHandle := Some h\<rparr>)
      in (encodeQrPairing (hexToBytes (d_deviceKeyHex D)) ephPub, p))"

definition qrShowLive :: "provisioning \<Rightarrow> bool" where
  "qrShowLive p \<longleftrightarrow> role p = NewDeviceQr \<and> qrEphSecret p \<noteq> None"

definition resubscribeLive :: "provisioning \<Rightarrow> provisioning" where
  "resubscribeLive p =
     (if role p = NewDeviceQr \<and> qrReplyMailbox p \<noteq> [] then out (Subscribe (qrReplyMailbox p)) p else p)"

definition expireQrShow :: "provisioning \<Rightarrow> provisioning" where
  "expireQrShow p =
     (let p = p\<lparr>qrShowHandle := None\<rparr> in
      if role p \<noteq> NewDeviceQr then p
      else out (Push EvExpired) (p\<lparr>qrEphSecret := None, role := Idle\<rparr>))"

definition error_detail :: "js_error \<Rightarrow> string" where
  "error_detail e = (case e of JsError m \<Rightarrow> if m \<noteq> [] then m else ''could not authorize that device''
     | HandshakeError m \<Rightarrow> if m \<noteq> [] then m else ''could not authorize that device''
     | _ \<Rightarrow> ''could not authorize that device'')"

definition grantScanned :: "prov_deps \<Rightarrow> nat \<Rightarrow> string \<Rightarrow> provisioning \<Rightarrow> unit result \<times> provisioning" where
  "grantScanned D mintEpoch qrPayload p =
     (case (d_authorizeScanned D, d_seal D) of
        (Some auth, Some seal) \<Rightarrow>
          if d_accountKeyHex D = [] then (Inr (), out (Push (EvError ''this device cannot authorize others'')) p)
          else (case decodeQrPairing qrPayload of
             None \<Rightarrow> (Inr (), out (Push (EvError ''that is not a DEAD DROP pairing code'')) p)
           | Some (deviceSigKey, ephPub) \<Rightarrow>
               (let p1 = out (AuthorizeScanned deviceSigKey mintEpoch) (p\<lparr>certEpoch := mintEpoch\<rparr>) in
                case bind_result (auth deviceSigKey mintEpoch) (\<lambda>g. seal ephPub g) of
                  Inl e \<Rightarrow> (Inr (), out (Push (EvError (error_detail e))) p1)
                | Inr box \<Rightarrow>
                    (Inr (), out (Push (EvDeviceAdded (bytesToHex deviceSigKey)))
                       (out (Publish (deriveQrReplyMailbox D ephPub) (encodeSealedGrant box)) p1))))
      | _ \<Rightarrow> (Inl (JsError ''QR pairing not available''), p))"

definition onQrGrant :: "prov_deps \<Rightarrow> bytes \<Rightarrow> bytes \<Rightarrow> provisioning \<Rightarrow> provisioning" where
  "onQrGrant D payload mid p =
     (case (qrEphSecret p, d_open D, decodeSealedGrant payload) of
        (Some secret, Some opn, Some box) \<Rightarrow>
          (case opn secret box of
             Inl _ \<Rightarrow> p
           | Inr g \<Rightarrow>
               if length g \<noteq> 32 + 8 + 64 then p
               else case get_u32 (slice 32 40 g) 4 of Inl _ \<Rightarrow> p
                 | Inr epoch \<Rightarrow>
                   let acct = bytesToHex (slice 0 32 g); cert = bytesToHex (slice 40 104 g) in
                   (case d_adoptCertificate D acct epoch cert of
                      Inl _ \<Rightarrow> out (Push (EvError ''could not adopt the authorization'')) p
                    | Inr _ \<Rightarrow>
                        let p = out (Ack mid) (out (Adopt Scanned acct epoch cert) p);
                            p = (unsched (qrShowHandle p) p)\<lparr>qrEphSecret := None, qrShowHandle := None, role := Idle\<rparr>
                        in out (Push (EvAuthorized acct)) p))
      | _ \<Rightarrow> p)"

definition owns :: "string \<Rightarrow> provisioning \<Rightarrow> bool" where
  "owns rk p \<longleftrightarrow> rk \<noteq> [] \<and> (rk = provMailbox p \<or> rk = replyMailbox p \<or> rk = qrReplyMailbox p)"

definition onRequest :: "prov_deps \<Rightarrow> prov_request \<Rightarrow> bytes \<Rightarrow> provisioning \<Rightarrow> provisioning" where
  "onRequest D req mid p =
     (case sessionNonce p of None \<Rightarrow> p
      | Some nonce \<Rightarrow>
          if bytesToHex (q_sessionNonce req) \<noteq> bytesToHex nonce then p
          else
            let rid = bytesToHex (q_requestId req) in
            if rid \<in> set (seenRequests p) then p
            else
              let p = out (Ack mid) (p\<lparr>seenRequests := seenRequests p @ [rid]\<rparr>);
                  digest = d_sasDigestHex D (bytesToHex nonce) (d_accountKeyHex D) (bytesToHex (q_deviceSigKey req)) (certEpoch p)
              in out (Push (EvConfirmDevice (d_renderSas D digest)))
                   (p\<lparr>pending := Some \<lparr> pd_deviceKey = q_deviceSigKey req, pd_replyMailbox = q_replyMailbox req,
                                        pd_sasDigestHex = digest \<rparr>\<rparr>))"

text \<open>\<open>r1\<close> and \<open>r2\<close> are the reply mailbox and the request id drawn at random.\<close>

definition onChallenge :: "prov_deps \<Rightarrow> bytes \<Rightarrow> bytes \<Rightarrow> challenge \<Rightarrow> provisioning \<Rightarrow> unit result \<times> provisioning" where
  "onChallenge D r1 r2 ch p =
     (if accountPub p \<noteq> [] then (Inr (), p)
      else
        let p = p\<lparr>accountPub := bytesToHex (c_accountPubKey ch), joinNonceHex := bytesToHex (c_sessionNonce ch),
                  joinEpoch := c_certEpoch ch, replyMailbox := bytesToHex r1\<rparr>;
            digest = d_sasDigestHex D (joinNonceHex p) (accountPub p) (myDeviceKey p) (joinEpoch p);
            p = out (Subscribe (replyMailbox p)) p
        in case encodeRequest \<lparr> q_sessionNonce = c_sessionNonce ch, q_deviceSigKey = hexToBytes (myDeviceKey p),
                 q_replyMailbox = hexToBytes (replyMailbox p), q_requestId = r2 \<rparr> of
             Inl e \<Rightarrow> (Inl e, p)
           | Inr b \<Rightarrow> (Inr (), out (Push (EvShowCode (d_renderSas D digest))) (out (Publish (provMailbox p) b) p)))"

definition onGrant :: "prov_deps \<Rightarrow> grant \<Rightarrow> bytes \<Rightarrow> provisioning \<Rightarrow> provisioning" where
  "onGrant D g mid p =
     (if bytesToHex (g_sessionNonce g) \<noteq> joinNonceHex p \<or> bytesToHex (g_accountPubKey g) \<noteq> accountPub p then p
      else
        let acct = bytesToHex (g_accountPubKey g); cert = bytesToHex (g_cert g) in
        case d_adoptCertificate D acct (g_certEpoch g) cert of
          Inl _ \<Rightarrow> out (Push (EvError ''could not adopt the authorization'')) p
        | Inr _ \<Rightarrow>
            out (Push (EvAuthorized (accountPub p)))
              ((out (Ack mid) (out (Adopt SixWords acct (g_certEpoch g) cert) p))\<lparr>role := Idle\<rparr>))"

definition handle :: "prov_deps \<Rightarrow> bytes \<Rightarrow> bytes \<Rightarrow> prov_frame \<Rightarrow> provisioning \<Rightarrow> bool result \<times> provisioning" where
  "handle D r1 r2 env p =
     (if role p = SeedHolder \<and> f_routingKey env = provMailbox p then
        (case decodeRequest (f_payload env) of
           Some req \<Rightarrow> (Inr True, onRequest D req (f_messageId env) p)
         | None \<Rightarrow> (Inr False, p))
      else if role p = NewDevice \<and> f_routingKey env = provMailbox p then
        (case decodeChallenge (f_payload env) of
           Some ch \<Rightarrow> (case onChallenge D r1 r2 ch p of (Inl e, p') \<Rightarrow> (Inl e, p') | (Inr _, p') \<Rightarrow> (Inr True, p'))
         | None \<Rightarrow> (Inr False, p))
      else if role p = NewDevice \<and> f_routingKey env = replyMailbox p \<and> decodeGrant (f_payload env) \<noteq> None then
        (case decodeGrant (f_payload env) of
           Some g \<Rightarrow> (Inr True, onGrant D g (f_messageId env) p)
         | None \<Rightarrow> (Inr False, p))
      else if role p = NewDeviceQr \<and> f_routingKey env = qrReplyMailbox p then
        (Inr True, onQrGrant D (f_payload env) (f_messageId env) p)
      else (Inr False, p))"

section \<open>Runs\<close>

datatype prov_op =
    OpenWindow bytes nat string
  | CloseWindow
  | StartJoin string
  | Confirm
  | QrBegin bytes
  | QrResume bytes
  | Resubscribe
  | CancelQr
  | GrantScanned nat string
  | Inbound bytes bytes prov_frame
  | TimerFires nat

definition prov_timer_fires :: "nat \<Rightarrow> provisioning \<Rightarrow> provisioning" where
  "prov_timer_fires h p =
     (case jm_get (p_timers p) h of
        None \<Rightarrow> p
      | Some t \<Rightarrow>
          let p = unsched (Some h) p in
          (case t of WindowTimer \<Rightarrow> closeWindow p | QrTimer \<Rightarrow> expireQrShow p))"

primrec prov_step :: "prov_deps \<Rightarrow> prov_op \<Rightarrow> provisioning \<Rightarrow> provisioning" where
  "prov_step D (OpenWindow nonce epoch mb) p = snd (openWindow D nonce epoch mb p)"
| "prov_step D CloseWindow p = closeWindow p"
| "prov_step D (StartJoin mb) p = startJoin D mb p"
| "prov_step D Confirm p = snd (confirm D p)"
| "prov_step D (QrBegin kp) p = snd (startQrShow_begin D kp p)"
| "prov_step D (QrResume kp) p = snd (startQrShow_resume D kp p)"
| "prov_step D Resubscribe p = resubscribeLive p"
| "prov_step D CancelQr p = cancelQrShow p"
| "prov_step D (GrantScanned epoch qr) p = snd (grantScanned D epoch qr p)"
| "prov_step D (Inbound r1 r2 env) p = snd (handle D r1 r2 env p)"
| "prov_step D (TimerFires h) p = prov_timer_fires h p"

definition prov_run :: "prov_deps \<Rightarrow> prov_op list \<Rightarrow> provisioning" where
  "prov_run D es = fold (prov_step D) es new_provisioning"

text \<open>The calls that hand out or take a certificate.\<close>

definition is_call :: "prov_fx \<Rightarrow> bool" where
  "is_call x = (case x of Authorize _ _ _ _ \<Rightarrow> True | AuthorizeScanned _ _ \<Rightarrow> True | Adopt _ _ _ _ \<Rightarrow> True | _ \<Rightarrow> False)"

definition calls :: "provisioning \<Rightarrow> prov_fx list" where
  "calls p = filter is_call (fx p)"

text \<open>The words of the last device the user was asked to confirm, and the codes this device displayed.\<close>

definition shown_words :: "provisioning \<Rightarrow> string list" where
  "shown_words p = concat (map (\<lambda>x. case x of Push (EvConfirmDevice w) \<Rightarrow> [w] | _ \<Rightarrow> []) (fx p))"

definition shown_codes :: "provisioning \<Rightarrow> string list" where
  "shown_codes p = concat (map (\<lambda>x. case x of Push (EvShowCode w) \<Rightarrow> [w] | _ \<Rightarrow> []) (fx p))"

lemma is_call_simps [simp]:
  "\<not> is_call (Publish k b)" "\<not> is_call (Subscribe k)" "\<not> is_call (Ack m)" "\<not> is_call (Push e)"
  "is_call (Authorize dk n nonce sas)" "is_call (AuthorizeScanned key n)" "is_call (Adopt v acct n cert)"
  by (simp_all add: is_call_def)

lemma unsched_fields [simp]:
  "role (unsched h p) = role p" "qrEphSecret (unsched h p) = qrEphSecret p" "pending (unsched h p) = pending p"
  "sessionNonce (unsched h p) = sessionNonce p" "accountPub (unsched h p) = accountPub p" "certEpoch (unsched h p) = certEpoch p"
  "joinNonceHex (unsched h p) = joinNonceHex p" "joinEpoch (unsched h p) = joinEpoch p"
  "myDeviceKey (unsched h p) = myDeviceKey p" "replyMailbox (unsched h p) = replyMailbox p" "fx (unsched h p) = fx p"
  by (simp_all add: unsched_def split: option.splits)

lemmas log_defs = calls_def shown_words_def shown_codes_def out_def sched_def

lemmas prov_op_defs = closeWindow_def cancelQrShow_def startJoin_def startQrShow_begin_def startQrShow_resume_def
  resubscribeLive_def expireQrShow_def prov_timer_fires_def openWindow_def Let_def

text \<open>Which operation makes which call.\<close>

lemma quiet_ops:
  "calls (closeWindow p) = calls p" "calls (cancelQrShow p) = calls p" "calls (startJoin D mb p) = calls p"
  "calls (snd (openWindow D n e mb p)) = calls p" "calls (snd (startQrShow_begin D kp p)) = calls p"
  "calls (snd (startQrShow_resume D kp p)) = calls p" "calls (resubscribeLive p) = calls p"
  "calls (expireQrShow p) = calls p" "calls (prov_timer_fires h p) = calls p"
  by (simp_all add: prov_op_defs log_defs split: option.split sum.split prov_timer.split)

lemma calls_confirm:
  "calls (snd (confirm D p)) = calls p @
     (case (role p, pending p, sessionNonce p) of
        (SeedHolder, Some pd, Some n) \<Rightarrow>
          [Authorize (bytesToHex (pd_deviceKey pd)) (certEpoch p) (bytesToHex n) (pd_sasDigestHex pd)]
      | _ \<Rightarrow> [])"
  by (simp add: confirm_def closeWindow_def Let_def log_defs split: prov_role.split option.split sum.split)

lemma calls_grantScanned:
  "calls (snd (grantScanned D epoch qr p)) = calls p \<or>
   (\<exists>dk eph. decodeQrPairing qr = Some (dk, eph) \<and> calls (snd (grantScanned D epoch qr p)) = calls p @ [AuthorizeScanned dk epoch])"
  by (auto simp: grantScanned_def Let_def log_defs split: option.split sum.split)

lemma calls_onRequest: "calls (onRequest D req mid p) = calls p"
  by (simp add: onRequest_def Let_def log_defs split: option.split)

lemma calls_onChallenge: "calls (snd (onChallenge D r1 r2 ch p)) = calls p"
  by (simp add: onChallenge_def Let_def log_defs split: sum.split)

lemma calls_onGrant:
  "calls (onGrant D g mid p) = calls p \<or>
   (bytesToHex (g_sessionNonce g) = joinNonceHex p \<and> bytesToHex (g_accountPubKey g) = accountPub p \<and>
    calls (onGrant D g mid p) = calls p @ [Adopt SixWords (accountPub p) (g_certEpoch g) (bytesToHex (g_cert g))])"
  by (auto simp: onGrant_def Let_def log_defs split: sum.split)

lemma calls_onQrGrant:
  "calls (onQrGrant D payload mid p) = calls p \<or>
   (\<exists>s opn box g ep. qrEphSecret p = Some s \<and> d_open D = Some opn \<and> decodeSealedGrant payload = Some box \<and>
      opn s box = Inr g \<and> qrEphSecret (onQrGrant D payload mid p) = None \<and>
      calls (onQrGrant D payload mid p) =
        calls p @ [Adopt Scanned (bytesToHex (slice 0 32 g)) ep (bytesToHex (slice 40 104 g))])"
  by (auto simp: onQrGrant_def Let_def log_defs split: option.split sum.split)

lemma snd_onChallenge_case:
  "snd (case r of (Inl e, p') \<Rightarrow> (Inl e, p') | (Inr u, p') \<Rightarrow> (Inr True, p')) = snd r"
  by (simp split: prod.split sum.split)

lemma handle_cases:
  obtains "snd (handle D r1 r2 env p) = p"
  | req where "role p = SeedHolder" "decodeRequest (f_payload env) = Some req"
      "snd (handle D r1 r2 env p) = onRequest D req (f_messageId env) p"
  | ch where "role p = NewDevice" "decodeChallenge (f_payload env) = Some ch"
      "snd (handle D r1 r2 env p) = snd (onChallenge D r1 r2 ch p)"
  | g where "role p = NewDevice" "f_routingKey env = replyMailbox p" "decodeGrant (f_payload env) = Some g"
      "snd (handle D r1 r2 env p) = onGrant D g (f_messageId env) p"
  | "role p = NewDeviceQr" "f_routingKey env = qrReplyMailbox p"
      "snd (handle D r1 r2 env p) = onQrGrant D (f_payload env) (f_messageId env) p"
proof -
  let ?q = "snd (handle D r1 r2 env p)"
  have "?q = p \<or> (\<exists>req. role p = SeedHolder \<and> decodeRequest (f_payload env) = Some req \<and> ?q = onRequest D req (f_messageId env) p) \<or>
    (\<exists>ch. role p = NewDevice \<and> decodeChallenge (f_payload env) = Some ch \<and> ?q = snd (onChallenge D r1 r2 ch p)) \<or>
    (\<exists>g. role p = NewDevice \<and> f_routingKey env = replyMailbox p \<and> decodeGrant (f_payload env) = Some g \<and>
       ?q = onGrant D g (f_messageId env) p) \<or>
    (role p = NewDeviceQr \<and> f_routingKey env = qrReplyMailbox p \<and> ?q = onQrGrant D (f_payload env) (f_messageId env) p)"
    by (simp add: handle_def snd_onChallenge_case split: option.split)
  then show thesis using that by blast
qed

section \<open>What the user confirmed is what is authorized\<close>

definition sas_inv :: "prov_deps \<Rightarrow> provisioning \<Rightarrow> bool" where
  "sas_inv D p \<longleftrightarrow> (\<forall>pd. pending p = Some pd \<longrightarrow>
     (\<exists>n epoch ws. sessionNonce p = Some n \<and> shown_words p = ws @ [d_renderSas D (pd_sasDigestHex pd)] \<and>
        pd_sasDigestHex pd = d_sasDigestHex D (bytesToHex n) (d_accountKeyHex D) (bytesToHex (pd_deviceKey pd)) epoch))"

lemma sas_inv_frame:
  "sas_inv D p \<Longrightarrow> pending q = pending p \<or> pending q = None \<Longrightarrow> sessionNonce q = sessionNonce p \<or> pending q = None \<Longrightarrow>
   shown_words q = shown_words p \<or> pending q = None \<Longrightarrow> sas_inv D q"
  by (auto simp: sas_inv_def)

lemma sas_inv_onRequest: "sas_inv D p \<Longrightarrow> sas_inv D (onRequest D req mid p)"
  by (auto simp: onRequest_def Let_def sas_inv_def log_defs split: option.splits)

lemma sas_inv_handle: "sas_inv D p \<Longrightarrow> sas_inv D (snd (handle D r1 r2 env p))"
proof (rule handle_cases [of D r1 r2 env p], goal_cases)
  case (3 ch)
  then show ?case by (auto simp: onChallenge_def Let_def log_defs split: sum.split elim!: sas_inv_frame)
next
  case (4 g)
  then show ?case by (auto simp: onGrant_def Let_def log_defs split: sum.split elim!: sas_inv_frame)
next
  case 5
  then show ?case by (auto simp: onQrGrant_def Let_def log_defs split: option.split sum.split elim!: sas_inv_frame)
qed (simp_all add: sas_inv_onRequest)

lemma sas_inv_step: "sas_inv D p \<Longrightarrow> sas_inv D (prov_step D e p)"
proof (cases e)
  case (Inbound r1 r2 env)
  then show "sas_inv D p \<Longrightarrow> ?thesis" by (simp add: sas_inv_handle)
next
  case Confirm
  then show "sas_inv D p \<Longrightarrow> ?thesis"
    by (auto simp: confirm_def closeWindow_def Let_def log_defs split: prov_role.split option.split sum.split elim!: sas_inv_frame)
next
  case (GrantScanned epoch qr)
  then show "sas_inv D p \<Longrightarrow> ?thesis"
    by (auto simp: grantScanned_def Let_def log_defs split: option.split sum.split elim!: sas_inv_frame)
qed (auto simp: prov_op_defs log_defs split: option.split sum.split prov_timer.split elim!: sas_inv_frame)

lemma prov_run_invariant:
  assumes "P new_provisioning" "\<And>e p. e \<in> set es \<Longrightarrow> P p \<Longrightarrow> P (prov_step D e p)"
  shows "P (prov_run D es)"
proof -
  have "P (fold (prov_step D) es p)" if "P p" for p
    using assms(2) that by (induction es arbitrary: p) simp_all
  with assms(1) show ?thesis by (simp add: prov_run_def)
qed

lemma sas_inv_run: "sas_inv D (prov_run D es)"
  by (rule prov_run_invariant) (simp add: sas_inv_def new_provisioning_def, rule sas_inv_step)

text \<open>The calls a step adds.\<close>

definition new_calls :: "prov_deps \<Rightarrow> prov_op \<Rightarrow> provisioning \<Rightarrow> prov_fx list" where
  "new_calls D e p = drop (length (calls p)) (calls (prov_step D e p))"

lemma new_calls_inbound:
  "new_calls D (Inbound r1 r2 env) p = [] \<or>
   (\<exists>g. role p = NewDevice \<and> f_routingKey env = replyMailbox p \<and> decodeGrant (f_payload env) = Some g \<and>
      bytesToHex (g_sessionNonce g) = joinNonceHex p \<and> bytesToHex (g_accountPubKey g) = accountPub p \<and>
      new_calls D (Inbound r1 r2 env) p = [Adopt SixWords (accountPub p) (g_certEpoch g) (bytesToHex (g_cert g))]) \<or>
   (\<exists>s opn box g ep. qrShowLive p \<and> f_routingKey env = qrReplyMailbox p \<and> qrEphSecret p = Some s \<and>
      d_open D = Some opn \<and> decodeSealedGrant (f_payload env) = Some box \<and> opn s box = Inr g \<and>
      qrEphSecret (prov_step D (Inbound r1 r2 env) p) = None \<and>
      new_calls D (Inbound r1 r2 env) p = [Adopt Scanned (bytesToHex (slice 0 32 g)) ep (bytesToHex (slice 40 104 g))])"
proof (rule handle_cases [of D r1 r2 env p], goal_cases)
  case (4 g)
  then show ?case using calls_onGrant [of D g "f_messageId env" p] by (auto simp: new_calls_def)
next
  case 5
  then show ?case using calls_onQrGrant [of D "f_payload env" "f_messageId env" p]
    by (auto simp: new_calls_def qrShowLive_def)
qed (simp_all add: new_calls_def calls_onRequest calls_onChallenge)

lemma new_calls_step:
  assumes "x \<in> set (new_calls D e p)"
  shows "(e = Confirm \<and> (\<exists>pd n. role p = SeedHolder \<and> pending p = Some pd \<and> sessionNonce p = Some n \<and>
      x = Authorize (bytesToHex (pd_deviceKey pd)) (certEpoch p) (bytesToHex n) (pd_sasDigestHex pd))) \<or>
    (\<exists>epoch qr dk eph. e = GrantScanned epoch qr \<and> decodeQrPairing qr = Some (dk, eph) \<and> x = AuthorizeScanned dk epoch) \<or>
    (\<exists>r1 r2 env. e = Inbound r1 r2 env)"
proof (cases e)
  case Confirm
  then show ?thesis using assms
    by (cases "role p"; cases "pending p"; cases "sessionNonce p") (auto simp: new_calls_def calls_confirm)
next
  case (GrantScanned epoch qr)
  then show ?thesis using assms calls_grantScanned [of D epoch qr p] by (auto simp: new_calls_def)
qed (use assms in \<open>auto simp: new_calls_def quiet_ops\<close>)

text \<open>A host whose primitives record their arguments; its digest separates all transcripts.\<close>

definition demo_deps :: prov_deps where
  "demo_deps = \<lparr> d_accountKeyHex = replicate 64 (CHR ''a''), d_deviceKeyHex = replicate 64 (CHR ''b''),
     d_sasDigestHex = (\<lambda>n a d e. n @ a @ d), d_authorizeDevice = (\<lambda>d e n s. Inr (replicate 208 (CHR ''c''))),
     d_adoptCertificate = (\<lambda>a e c. Inr ()), d_renderSas = (\<lambda>d. d), d_hasKeypair = True,
     d_seal = Some (\<lambda>k m. Inr m), d_open = Some (\<lambda>k b. Inr b), d_authorizeScanned = Some (\<lambda>k e. Inr (k @ k @ k @ replicate 8 0)),
     d_sha256 = (\<lambda>b. take 32 (b @ replicate 32 0)) \<rparr>"

definition demo_request :: prov_request where
  "demo_request = \<lparr> q_sessionNonce = replicate 32 1, q_deviceSigKey = replicate 32 2,
     q_replyMailbox = replicate 32 3, q_requestId = replicate 16 4 \<rparr>"

text \<open>
  C17. The seed-holder authorizes a device only on the user's word. In every reachable state a signer
  call is made only by \<open>confirm\<close> or by a QR scan, never by an inbound frame, a timer or another call.
  The device \<open>confirm\<close> signs for is the one whose words were shown last, and the code it passes to the
  signer is the transcript digest of that device key, this account and the window's nonce; a scan signs
  for the key read from the scanned code.
\<close>
theorem authorizes_only_what_the_user_confirmed:
  assumes "p = prov_run D es" "x \<in> set (new_calls D e p)"
  shows "case x of
      Authorize dk epoch nonce sas \<Rightarrow> e = Confirm \<and> role p = SeedHolder \<and>
        (\<exists>ws. shown_words p = ws @ [d_renderSas D sas]) \<and>
        (\<exists>e0. sas = d_sasDigestHex D nonce (d_accountKeyHex D) dk e0)
    | AuthorizeScanned dk epoch \<Rightarrow> (\<exists>qr eph. e = GrantScanned epoch qr \<and> decodeQrPairing qr = Some (dk, eph))
    | _ \<Rightarrow> (\<exists>r1 r2 env. e = Inbound r1 r2 env)"
proof -
  have inv: "sas_inv D p" using assms(1) by (simp add: sas_inv_run)
  from new_calls_step [OF assms(2)]
  consider pd n where "e = Confirm" "role p = SeedHolder" "pending p = Some pd" "sessionNonce p = Some n"
      "x = Authorize (bytesToHex (pd_deviceKey pd)) (certEpoch p) (bytesToHex n) (pd_sasDigestHex pd)"
    | epoch qr dk eph where "e = GrantScanned epoch qr" "decodeQrPairing qr = Some (dk, eph)" "x = AuthorizeScanned dk epoch"
    | r1 r2 env where "e = Inbound r1 r2 env" by blast
  then show ?thesis
  proof cases
    case 1
    then show ?thesis using inv by (auto simp: sas_inv_def)
  next
    case 2
    then show ?thesis by auto
  next
    case 3
    then show ?thesis using assms(2) new_calls_inbound [of D r1 r2 env p] by auto
  qed
qed

definition demo_pending :: provisioning where
  "demo_pending = prov_run demo_deps [OpenWindow (replicate 32 1) 5 ''mbx'',
     Inbound [] [] \<lparr> f_messageId = [9], f_routingKey = ''mbx'',
       f_payload = [MSG_REQUEST, VER] @ replicate 32 1 @ replicate 32 2 @ replicate 32 3 @ replicate 16 4 \<rparr>]"

lemma demo_request_decodes:
  "decodeRequest ([MSG_REQUEST, VER] @ replicate 32 1 @ replicate 32 2 @ replicate 32 3 @ replicate 16 4) = Some demo_request"
  using decode_request_layout [of "replicate 32 1" "replicate 32 2" "replicate 32 3" "replicate 16 4" "[]"]
  by (simp add: demo_request_def)

lemma demo_challenge_encodes:
  "\<exists>b. encodeChallenge \<lparr> c_sessionNonce = replicate 32 1, c_certEpoch = 5,
      c_accountPubKey = hexToBytes (replicate 64 (CHR ''a'')) \<rparr> = Inr b"
  by (rule exI, rule encodeChallenge_layout) (simp add: challenge_ok_def hexToBytes_def)

lemma demo_pending_call:
  "new_calls demo_deps Confirm demo_pending =
     [Authorize (bytesToHex (replicate 32 2)) 5 (bytesToHex (replicate 32 1))
        (bytesToHex (replicate 32 1) @ replicate 64 (CHR ''a'') @ bytesToHex (replicate 32 2))]"
proof -
  obtain b where b: "encodeChallenge \<lparr> c_sessionNonce = replicate 32 1, c_certEpoch = 5,
      c_accountPubKey = hexToBytes (replicate 64 (CHR ''a'')) \<rparr> = Inr b"
    using demo_challenge_encodes by blast
  have "role demo_pending = SeedHolder \<and> sessionNonce demo_pending = Some (replicate 32 1) \<and> certEpoch demo_pending = 5 \<and>
      pending demo_pending = Some \<lparr> pd_deviceKey = replicate 32 2, pd_replyMailbox = replicate 32 3,
        pd_sasDigestHex = bytesToHex (replicate 32 1) @ replicate 64 (CHR ''a'') @ bytesToHex (replicate 32 2) \<rparr>"
    using demo_request_decodes
    by (simp add: demo_pending_def prov_run_def new_provisioning_def openWindow_def cancelQrShow_def unsched_def
        Let_def demo_deps_def b sched_def out_def handle_def onRequest_def demo_request_def)
  then show ?thesis by (simp add: new_calls_def calls_confirm)
qed

theorem authorizes_only_what_the_user_confirmed_witness:
  "\<exists>ws. shown_words demo_pending = ws @
     [bytesToHex (replicate 32 1) @ replicate 64 (CHR ''a'') @ bytesToHex (replicate 32 2)]"
  using authorizes_only_what_the_user_confirmed [OF demo_pending_def, of _ Confirm] demo_pending_call
  by (simp add: demo_deps_def)

section \<open>What the new device adopts\<close>

text \<open>The host's \<open>random(n)\<close> returns \<open>n\<close> bytes and device keys are 32 bytes.\<close>

definition join_inputs_ok :: "prov_deps \<Rightarrow> prov_op list \<Rightarrow> bool" where
  "join_inputs_ok D es \<longleftrightarrow> length (hexToBytes (d_deviceKeyHex D)) = 32 \<and>
     (\<forall>e \<in> set es. case e of Inbound r1 r2 _ \<Rightarrow> length r1 = 32 \<and> length r2 = 16 | _ \<Rightarrow> True)"

definition join_code :: "prov_deps \<Rightarrow> provisioning \<Rightarrow> string" where
  "join_code D p = d_renderSas D (d_sasDigestHex D (joinNonceHex p) (accountPub p) (myDeviceKey p) (joinEpoch p))"

definition join_inv :: "prov_deps \<Rightarrow> provisioning \<Rightarrow> bool" where
  "join_inv D p \<longleftrightarrow> (role p = NewDevice \<longrightarrow> myDeviceKey p = d_deviceKeyHex D \<and>
     (accountPub p \<noteq> [] \<longrightarrow> join_code D p \<in> set (shown_codes p)))"

lemma join_inv_frame:
  "join_inv D p \<Longrightarrow> role q = role p \<or> role q \<noteq> NewDevice \<Longrightarrow> myDeviceKey q = myDeviceKey p \<Longrightarrow>
   accountPub q = accountPub p \<Longrightarrow> joinNonceHex q = joinNonceHex p \<Longrightarrow> joinEpoch q = joinEpoch p \<Longrightarrow>
   set (shown_codes p) \<subseteq> set (shown_codes q) \<Longrightarrow> join_inv D q"
  by (auto simp: join_inv_def join_code_def)

lemma join_inv_onChallenge:
  assumes "join_inv D p" "role p = NewDevice" "decodeChallenge payload = Some ch"
    and "length (hexToBytes (d_deviceKeyHex D)) = 32" "length r1 = 32" "length r2 = 16"
  shows "join_inv D (snd (onChallenge D r1 r2 ch p))"
proof -
  have "length (c_sessionNonce ch) = 32"
    using assms(3) by (auto simp: decodeChallenge_def length_slice split: if_splits sum.splits)
  moreover have dev: "myDeviceKey p = d_deviceKeyHex D" using assms(1,2) by (simp add: join_inv_def)
  ultimately have "request_ok \<lparr> q_sessionNonce = c_sessionNonce ch, q_deviceSigKey = hexToBytes (d_deviceKeyHex D),
      q_replyMailbox = hexToBytes (bytesToHex r1), q_requestId = r2 \<rparr>"
    using assms(4-6) by (simp add: request_ok_def codec_simps)
  from request_roundtrip [OF this]
  obtain b where b: "encodeRequest \<lparr> q_sessionNonce = c_sessionNonce ch, q_deviceSigKey = hexToBytes (d_deviceKeyHex D),
      q_replyMailbox = hexToBytes (bytesToHex r1), q_requestId = r2 \<rparr> = Inr b" by blast
  show ?thesis
    using assms(1,2) by (auto simp: onChallenge_def Let_def dev b join_inv_def join_code_def log_defs)
qed

lemma join_inv_step:
  assumes inv: "join_inv D p" and ok: "join_inputs_ok D [e]"
  shows "join_inv D (prov_step D e p)"
proof (cases e)
  case (Inbound r1 r2 env)
  with ok have len: "length (hexToBytes (d_deviceKeyHex D)) = 32" "length r1 = 32" "length r2 = 16"
    by (simp_all add: join_inputs_ok_def)
  have "join_inv D (snd (handle D r1 r2 env p))"
  proof (rule handle_cases [of D r1 r2 env p], goal_cases)
    case (2 req)
    then show ?case using inv by (auto simp: onRequest_def Let_def log_defs split: option.split elim!: join_inv_frame)
  next
    case (3 ch)
    then show ?case using join_inv_onChallenge [OF inv _ _ len] by simp
  next
    case (4 g)
    then show ?case using inv by (auto simp: onGrant_def Let_def log_defs split: sum.split elim!: join_inv_frame)
  next
    case 5
    then show ?case using inv by (auto simp: onQrGrant_def Let_def log_defs split: option.split sum.split elim!: join_inv_frame)
  qed (use inv in simp)
  with Inbound show ?thesis by simp
next
  case Confirm
  then show ?thesis using inv
    by (auto simp: confirm_def closeWindow_def Let_def log_defs split: prov_role.split option.split sum.split elim!: join_inv_frame)
next
  case (GrantScanned epoch qr)
  then show ?thesis using inv
    by (auto simp: grantScanned_def Let_def log_defs split: option.split sum.split elim!: join_inv_frame)
next
  case (StartJoin mb)
  then show ?thesis by (simp add: startJoin_def join_inv_def Let_def out_def)
qed (use inv in \<open>auto simp: prov_op_defs log_defs split: option.split sum.split prov_timer.split elim!: join_inv_frame\<close>)

lemma join_inv_run:
  assumes "join_inputs_ok D es" shows "join_inv D (prov_run D es)"
proof (rule prov_run_invariant)
  show "join_inv D new_provisioning" by (simp add: join_inv_def new_provisioning_def)
  show "join_inv D (prov_step D e p)" if "e \<in> set es" "join_inv D p" for e p
    using assms that by (intro join_inv_step) (auto simp: join_inputs_ok_def)
qed

text \<open>
  C18. A device being added adopts a certificate only for the account it shows. In every reachable state
  an adoption is made only while handling an inbound frame: in the six-word ceremony a grant on the
  live reply mailbox that echoes the nonce and names the account of the challenge this device answered,
  whose code it has displayed; in the QR ceremony a box that opens under the live one-shot secret, which
  is discarded in the same step.
\<close>
theorem adopts_only_the_live_attempt:
  assumes "p = prov_run D es" "join_inputs_ok D es" "Adopt via acct epoch cert \<in> set (new_calls D e p)"
  shows "\<exists>r1 r2 env. e = Inbound r1 r2 env \<and>
    (case via of
       SixWords \<Rightarrow> (\<exists>g. role p = NewDevice \<and> f_routingKey env = replyMailbox p \<and> decodeGrant (f_payload env) = Some g \<and>
         bytesToHex (g_sessionNonce g) = joinNonceHex p \<and> acct = accountPub p \<and> join_code D p \<in> set (shown_codes p))
     | Scanned \<Rightarrow> (\<exists>s opn box g. qrShowLive p \<and> qrEphSecret p = Some s \<and> d_open D = Some opn \<and>
         decodeSealedGrant (f_payload env) = Some box \<and> opn s box = Inr g \<and> acct = bytesToHex (slice 0 32 g) \<and>
         qrEphSecret (prov_step D e p) = None))"
proof -
  from new_calls_step [OF assms(3)] obtain r1 r2 env where e: "e = Inbound r1 r2 env" by auto
  have inv: "join_inv D p" using join_inv_run [OF assms(2)] assms(1) by simp
  have nonempty: "bytesToHex (g_accountPubKey g) \<noteq> []" if "decodeGrant b = Some g" for b g
  proof -
    have "length (g_accountPubKey g) = 32"
      using that by (auto simp: decodeGrant_def length_slice split: if_splits sum.splits)
    then show ?thesis by (metis length_bytesToHex length_0_conv list.size(3) mult_is_0 numeral_eq_Suc zero_neq_numeral)
  qed
  show ?thesis
    using new_calls_inbound [of D r1 r2 env p] assms(3) inv nonempty unfolding e
    by (fastforce simp: join_inv_def)
qed

definition demo_qr :: provisioning where
  "demo_qr = prov_run demo_deps [QrBegin (replicate 64 8), QrResume (replicate 64 8)]"

definition demo_qr_frame :: prov_frame where
  "demo_qr_frame = \<lparr> f_messageId = [1], f_routingKey = deriveQrReplyMailbox demo_deps (replicate 32 8),
     f_payload = encodeSealedGrant (replicate 104 6) \<rparr>"

lemma demo_qr_state:
  "qrEphSecret demo_qr = Some (replicate 32 8)" "role demo_qr = NewDeviceQr"
  "qrReplyMailbox demo_qr = deriveQrReplyMailbox demo_deps (replicate 32 8)"
  by (simp_all add: demo_qr_def prov_run_def new_provisioning_def startQrShow_begin_def startQrShow_resume_def
      cancelQrShow_def unsched_def Let_def sched_def out_def slice_def) (simp_all add: demo_deps_def)

lemma demo_qr_call:
  "\<exists>ep cert. new_calls demo_deps (Inbound (replicate 32 0) (replicate 16 0) demo_qr_frame) demo_qr =
     [Adopt Scanned (bytesToHex (replicate 32 6)) ep cert]"
proof -
  have opens: "decodeSealedGrant (encodeSealedGrant (replicate 104 6)) = Some (replicate 104 6)"
    using sealed_grant_roundtrip [of "replicate 104 6"] by simp
  obtain ep where ep: "get_u32 (slice 32 40 (replicate 104 (6 :: byte))) 4 = Inr ep"
    by (simp add: get_u32_def length_slice)
  have deps: "d_open demo_deps = Some (\<lambda>k b. Inr b)" "d_adoptCertificate demo_deps = (\<lambda>a e c. Inr ())"
    by (simp_all add: demo_deps_def)
  have "calls (prov_step demo_deps (Inbound (replicate 32 0) (replicate 16 0) demo_qr_frame) demo_qr) =
      calls demo_qr @ [Adopt Scanned (bytesToHex (replicate 32 6)) ep (bytesToHex (slice 40 104 (replicate 104 6)))]"
    by (simp add: handle_def demo_qr_state demo_qr_frame_def onQrGrant_def opens deps ep Let_def log_defs)
       (simp add: slice_def)
  then show ?thesis by (simp add: new_calls_def)
qed

theorem adopts_only_the_live_attempt_witness:
  "\<exists>s. qrEphSecret demo_qr = Some s \<and>
     qrEphSecret (prov_step demo_deps (Inbound (replicate 32 0) (replicate 16 0) demo_qr_frame) demo_qr) = None"
proof -
  obtain ep cert where c: "new_calls demo_deps (Inbound (replicate 32 0) (replicate 16 0) demo_qr_frame) demo_qr =
      [Adopt Scanned (bytesToHex (replicate 32 6)) ep cert]" using demo_qr_call by blast
  have "join_inputs_ok demo_deps [QrBegin (replicate 64 8), QrResume (replicate 64 8)]"
    by (simp add: join_inputs_ok_def demo_deps_def hexToBytes_def)
  from adopts_only_the_live_attempt [OF demo_qr_def this, of Scanned "bytesToHex (replicate 32 6)" ep cert
      "Inbound (replicate 32 0) (replicate 16 0) demo_qr_frame"] c
  show ?thesis by auto
qed

section \<open>One-shot pairing codes\<close>

definition qr_adoptions :: "provisioning \<Rightarrow> nat" where
  "qr_adoptions p = length (filter (\<lambda>x. case x of Adopt Scanned _ _ _ \<Rightarrow> True | _ \<Rightarrow> False) (calls p))"

definition qr_starts :: "prov_op list \<Rightarrow> nat" where
  "qr_starts es = length (filter (\<lambda>e. case e of QrBegin _ \<Rightarrow> True | _ \<Rightarrow> False) es)"

definition secret_live :: "provisioning \<Rightarrow> nat" where
  "secret_live p = (if qrEphSecret p = None then 0 else 1)"

lemma qr_adoptions_cong: "calls q = calls p \<Longrightarrow> qr_adoptions q = qr_adoptions p"
  by (simp add: qr_adoptions_def)

lemma secret_kept:
  "qrEphSecret (closeWindow p) = qrEphSecret p" "qrEphSecret (resubscribeLive p) = qrEphSecret p"
  "qrEphSecret (snd (startQrShow_resume D kp p)) = qrEphSecret p" "qrEphSecret (snd (confirm D p)) = qrEphSecret p"
  "qrEphSecret (snd (grantScanned D n qr p)) = qrEphSecret p" "qrEphSecret (onRequest D req m p) = qrEphSecret p"
  "qrEphSecret (onGrant D g m p) = qrEphSecret p" "qrEphSecret (snd (onChallenge D r1 r2 ch p)) = qrEphSecret p"
  by (simp_all add: closeWindow_def resubscribeLive_def startQrShow_resume_def confirm_def grantScanned_def onRequest_def
      onGrant_def onChallenge_def Let_def out_def sched_def split: prov_role.split option.split sum.split)

lemma secret_dropped:
  "secret_live (cancelQrShow p) \<le> secret_live p" "secret_live (startJoin D mb p) \<le> secret_live p"
  "secret_live (snd (openWindow D n e mb p)) \<le> secret_live p" "secret_live (prov_timer_fires h p) \<le> secret_live p"
  "secret_live (snd (startQrShow_begin D kp p)) \<le> 1"
  by (simp_all add: secret_live_def prov_op_defs out_def sched_def split: option.split sum.split prov_timer.split)

lemma qr_budget_inbound:
  "qr_adoptions (snd (handle D r1 r2 env p)) + secret_live (snd (handle D r1 r2 env p)) \<le> qr_adoptions p + secret_live p"
proof (rule handle_cases [of D r1 r2 env p], goal_cases)
  case (2 req)
  then show ?case by (simp add: qr_adoptions_def calls_onRequest secret_live_def secret_kept)
next
  case (3 ch)
  then show ?case by (simp add: qr_adoptions_def calls_onChallenge secret_live_def secret_kept)
next
  case (4 g)
  then show ?case using calls_onGrant [of D g "f_messageId env" p]
    by (auto simp: qr_adoptions_def secret_live_def secret_kept)
next
  case 5
  have "qrEphSecret (onQrGrant D payload m p) = qrEphSecret p \<or> qrEphSecret (onQrGrant D payload m p) = None" for payload m
    by (simp add: onQrGrant_def Let_def out_def split: option.split sum.split)
  then show ?case using 5 calls_onQrGrant [of D "f_payload env" "f_messageId env" p]
    by (auto simp: qr_adoptions_def secret_live_def)
qed simp

lemma qr_starts_Cons: "qr_starts (e # es) = qr_starts [e] + qr_starts es"
  by (simp add: qr_starts_def)

lemma qr_budget_step:
  "qr_adoptions (prov_step D e p) + secret_live (prov_step D e p) \<le> qr_adoptions p + secret_live p + qr_starts [e]"
proof (cases e)
  case (Inbound r1 r2 env)
  then show ?thesis using qr_budget_inbound [of D r1 r2 env p] by (simp add: qr_starts_def)
next
  case Confirm
  then show ?thesis
    by (auto simp: qr_adoptions_def calls_confirm secret_live_def secret_kept split: prov_role.split option.split)
next
  case (GrantScanned n qr)
  then show ?thesis using calls_grantScanned [of D n qr p]
    by (auto simp: qr_adoptions_def secret_live_def secret_kept)
next
  case (QrBegin kp)
  have "qr_adoptions (snd (startQrShow_begin D kp p)) = qr_adoptions p" by (rule qr_adoptions_cong) (rule quiet_ops)
  then show ?thesis using QrBegin secret_dropped(5) [of D kp p] by (simp add: qr_starts_def)
qed (simp_all add: qr_adoptions_def quiet_ops secret_dropped trans_le_add1, simp_all add: secret_live_def secret_kept)

text \<open>
  The secret behind a shown QR is one-shot: over any run the certificates adopted from sealed
  grants are at most as many as the pairing codes that were started.
\<close>
theorem qr_codes_are_one_shot:
  "qr_adoptions (prov_run D es) \<le> qr_starts es"
proof -
  have "qr_adoptions (fold (prov_step D) es p) + secret_live (fold (prov_step D) es p) \<le>
      qr_adoptions p + secret_live p + qr_starts es" for p
  proof (induction es arbitrary: p)
    case (Cons e es)
    show ?case using Cons.IH [of "prov_step D e p"] qr_budget_step [of D e p] qr_starts_Cons [of e es] by simp
  qed simp
  from this [of new_provisioning] show ?thesis
    by (simp add: prov_run_def) (simp add: new_provisioning_def qr_adoptions_def calls_def secret_live_def)
qed

section \<open>Reopening a window\<close>

text \<open>
  \<open>openWindow\<close> does not cancel the timer of a window that is still open, so the first timer closes the
  second window.
\<close>
lemma reopened_window_closed_by_first_timer:
  assumes "d_accountKeyHex D \<noteq> []"
    and "\<And>n. length n = 32 \<Longrightarrow> \<exists>b. encodeChallenge \<lparr> c_sessionNonce = n, c_certEpoch = e,
      c_accountPubKey = hexToBytes (d_accountKeyHex D) \<rparr> = Inr b"
    and "length n1 = 32" "length n2 = 32"
  shows "role (prov_run D [OpenWindow n1 e mb, OpenWindow n2 e mb]) = SeedHolder \<and>
    role (prov_run D [OpenWindow n1 e mb, OpenWindow n2 e mb, TimerFires 0]) = Idle"
proof -
  obtain b1 b2 where "encodeChallenge \<lparr> c_sessionNonce = n1, c_certEpoch = e,
      c_accountPubKey = hexToBytes (d_accountKeyHex D) \<rparr> = Inr b1"
    "encodeChallenge \<lparr> c_sessionNonce = n2, c_certEpoch = e,
      c_accountPubKey = hexToBytes (d_accountKeyHex D) \<rparr> = Inr b2" using assms by blast
  then show ?thesis
    using assms(1)
    by (simp add: prov_run_def new_provisioning_def openWindow_def cancelQrShow_def unsched_def Let_def sched_def out_def
        prov_timer_fires_def closeWindow_def)
qed

end
