(* ===== verification/Json.thy ===== *)
theory Json
  imports Complex_Main Prelude
begin

text \<open>
  JavaScript values as \<open>JSON.parse\<close> yields them, and the property reads and type tests the signal and
  response parsers make on them. Numbers are rationals; an object is its list of own properties, the
  last of which wins on a duplicate key.
\<close>

datatype json =
    JNull
  | JBool bool
  | JNum rat
  | JStr string
  | JArr "json list"
  | JObj "(string \<times> json) list"

text \<open>\<open>o[k]\<close> for a value used as a record: \<open>None\<close> is \<open>undefined\<close>.\<close>

definition json_prop :: "json \<Rightarrow> string \<Rightarrow> json option" where
  "json_prop v k = (case v of JObj ps \<Rightarrow> map_of (rev ps) k | _ \<Rightarrow> None)"

definition is_object :: "json \<Rightarrow> bool" where
  "is_object v = (case v of JObj _ \<Rightarrow> True | JArr _ \<Rightarrow> True | _ \<Rightarrow> False)"

definition as_string :: "json option \<Rightarrow> string option" where
  "as_string v = (case v of Some (JStr s) \<Rightarrow> Some s | _ \<Rightarrow> None)"

definition as_number :: "json option \<Rightarrow> rat option" where
  "as_number v = (case v of Some (JNum n) \<Rightarrow> Some n | _ \<Rightarrow> None)"

definition as_bool :: "json option \<Rightarrow> bool option" where
  "as_bool v = (case v of Some (JBool b) \<Rightarrow> Some b | _ \<Rightarrow> None)"

text \<open>\<open>isSdp\<close> of \<open>filetransfer.ts\<close> and \<open>callsession.ts\<close>: an object with a string \<open>type\<close>.\<close>

definition isSdp :: "json option \<Rightarrow> bool" where
  "isSdp v = (case v of None \<Rightarrow> False | Some x \<Rightarrow> is_object x \<and> as_string (json_prop x ''type'') \<noteq> None)"

end
