(* ===== verification/FileTransfer.thy ===== *)
theory FileTransfer
  imports Json
begin

text \<open>
  \<open>client/src/filetransfer.ts\<close>: signal parsing, the transfer table, ICE buffering, the bounded receive
  path and the chunked send loop. A transfer is an object with identity (the code keeps references
  across \<open>await\<close>), so the table maps an id to an address and the objects live in \<open>objs\<close>. Each \<open>await\<close>
  splits a method: what follows it is a separate operation with the outcome of the awaited call, and
  other operations may run in between. WebRTC calls and host callbacks are logged in \<open>evs\<close>.
\<close>

section \<open>Signals\<close>

datatype file_signal =
    FOffer string string rat json
  | FAnswer string json
  | FIce string "json option"
  | FDecline string

definition parseSignal :: "json \<Rightarrow> file_signal option" where
  "parseSignal v =
     (if \<not> is_object v then None
      else case as_string (json_prop v ''id'') of
        None \<Rightarrow> None
      | Some i \<Rightarrow>
          if i = [] then None
          else
            let kind = as_string (json_prop v ''kind'') in
            case (kind = Some ''offer'', as_string (json_prop v ''name''), as_number (json_prop v ''size''), isSdp (json_prop v ''sdp'')) of
              (True, Some name, Some sz, True) \<Rightarrow> Some (FOffer i name sz (the (json_prop v ''sdp'')))
            | _ \<Rightarrow>
                if kind = Some ''answer'' \<and> isSdp (json_prop v ''sdp'') then Some (FAnswer i (the (json_prop v ''sdp'')))
                else if kind = Some ''ice'' then Some (FIce i (json_prop v ''candidate''))
                else if kind = Some ''decline'' then Some (FDecline i)
                else None)"

section \<open>State\<close>

definition CHUNK_SIZE :: nat where "CHUNK_SIZE = 16 * 1024"

definition MAX_PENDING_ICE :: nat where "MAX_PENDING_ICE = 64"

text \<open>\<open>t_chain\<close> is what \<open>writeChain\<close> hands to the sink, in order; \<open>t_source\<close> the file being sent.\<close>

record transfer =
  t_pc :: "nat option"
  t_ch :: bool
  t_name :: string
  t_size :: rat
  t_source :: "bytes option"
  t_sink :: bool
  t_recvGot :: nat
  t_chain :: "bytes list"
  t_pendingOffer :: "json option"
  t_pendingIce :: "json option list"
  t_remoteReady :: bool

datatype ft_event =
    SendSignal file_signal
  | OnProgress string nat rat
  | OnIncoming string string rat
  | OnComplete string string bytes
  | OnError string string
  | PcOpen nat
  | PcClose nat
  | PcRemoteSet nat
  | PcAddIce nat "json option"

record file_transfer =
  transfers :: "(string, nat) jsmap"
  objs :: "(nat, transfer) jsmap"
  next_obj :: nat
  next_pc :: nat
  evs :: "ft_event list"

definition new_ft :: file_transfer where
  "new_ft = \<lparr> transfers = [], objs = [], next_obj = 0, next_pc = 0, evs = [] \<rparr>"

definition ft_emit :: "ft_event \<Rightarrow> file_transfer \<Rightarrow> file_transfer" where
  "ft_emit e f = f\<lparr>evs := evs f @ [e]\<rparr>"

text \<open>The object at an address, and a write through a reference.\<close>

definition ft_obj :: "file_transfer \<Rightarrow> nat \<Rightarrow> transfer option" where
  "ft_obj f a = jm_get (objs f) a"

definition ft_upd :: "nat \<Rightarrow> (transfer \<Rightarrow> transfer) \<Rightarrow> file_transfer \<Rightarrow> file_transfer" where
  "ft_upd a g f = (case jm_get (objs f) a of None \<Rightarrow> f | Some t \<Rightarrow> f\<lparr>objs := jm_set a (g t) (objs f)\<rparr>)"

definition ft_new :: "string \<Rightarrow> transfer \<Rightarrow> file_transfer \<Rightarrow> file_transfer" where
  "ft_new i t f =
     f\<lparr>transfers := jm_set i (next_obj f) (transfers f), objs := jm_set (next_obj f) t (objs f),
       next_obj := next_obj f + 1\<rparr>"

definition ft_rtc :: "file_transfer \<Rightarrow> nat \<times> file_transfer" where
  "ft_rtc f = (next_pc f, ft_emit (PcOpen (next_pc f)) (f\<lparr>next_pc := next_pc f + 1\<rparr>))"

definition close_pc :: "transfer \<Rightarrow> file_transfer \<Rightarrow> file_transfer" where
  "close_pc t f = (case t_pc t of None \<Rightarrow> f | Some c \<Rightarrow> ft_emit (PcClose c) f)"

definition ft_cancel :: "string \<Rightarrow> file_transfer \<Rightarrow> file_transfer" where
  "ft_cancel i f =
     (case jm_get (transfers f) i of
        None \<Rightarrow> f
      | Some a \<Rightarrow>
          let f = (case ft_obj f a of None \<Rightarrow> f | Some t \<Rightarrow> close_pc t f)
          in f\<lparr>transfers := jm_delete i (transfers f)\<rparr>)"

definition ft_fail :: "string \<Rightarrow> string \<Rightarrow> file_transfer \<Rightarrow> file_transfer" where
  "ft_fail i msg f = ft_emit (OnError i msg) (ft_cancel i f)"

definition ft_decline :: "string \<Rightarrow> file_transfer \<Rightarrow> file_transfer" where
  "ft_decline i f =
     (case jm_get (transfers f) i of
        None \<Rightarrow> f
      | Some a \<Rightarrow>
          let f = ft_emit (SendSignal (FDecline i)) f;
              f = (case ft_obj f a of None \<Rightarrow> f | Some t \<Rightarrow> close_pc t f)
          in f\<lparr>transfers := jm_delete i (transfers f)\<rparr>)"

section \<open>Sending\<close>

text \<open>\<open>sendFile\<close> up to its first \<open>await\<close>, and the outcome of \<open>createOffer\<close> and \<open>setLocalDescription\<close>.\<close>

definition sendFile :: "string \<Rightarrow> string \<Rightarrow> bytes \<Rightarrow> file_transfer \<Rightarrow> file_transfer" where
  "sendFile i name source f =
     (let (pc, f) = ft_rtc f
      in ft_new i \<lparr> t_pc = Some pc, t_ch = True, t_name = name, t_size = of_nat (length source),
           t_source = Some source, t_sink = False, t_recvGot = 0, t_chain = [], t_pendingOffer = None,
           t_pendingIce = [], t_remoteReady = False \<rparr> f)"

definition sendFile_offered :: "string \<Rightarrow> string \<Rightarrow> bytes \<Rightarrow> json option \<Rightarrow> file_transfer \<Rightarrow> file_transfer" where
  "sendFile_offered i name source offer f =
     (case offer of
        Some sdp \<Rightarrow> ft_emit (SendSignal (FOffer i name (of_nat (length source)) sdp)) f
      | None \<Rightarrow> ft_fail i ''could not start the transfer'' f)"

definition ch_onclose :: "string \<Rightarrow> file_transfer \<Rightarrow> file_transfer" where
  "ch_onclose i f = f\<lparr>transfers := jm_delete i (transfers f)\<rparr>"

text \<open>
  The loop of \<open>streamOut\<close>. \<open>alive k\<close> tells whether the transfer is still in the table at the \<open>k\<close>-th
  test, \<open>sends k\<close> whether the \<open>k\<close>-th \<open>send\<close> succeeds. The result lists the chunks sent with the progress
  reported, and how the loop ended.
\<close>

datatype stream_end = Finished | Abandoned | Failed

function stream_from ::
  "(nat \<Rightarrow> bool) \<Rightarrow> (nat \<Rightarrow> bool) \<Rightarrow> bytes \<Rightarrow> nat \<Rightarrow> nat \<Rightarrow> nat \<Rightarrow> (bytes \<times> nat) list \<times> stream_end" where
  "stream_from alive sends source k off sent =
     (if off < length source then
        if \<not> alive k then ([], Abandoned)
        else
          let chunk = slice off (min (off + CHUNK_SIZE) (length source)) source in
          if \<not> sends k then ([], Failed)
          else
            let (rest, fin) = stream_from alive sends source (k + 1) (off + CHUNK_SIZE) (sent + length chunk)
            in ((chunk, sent + length chunk) # rest, fin)
      else if \<not> alive k then ([], Abandoned)
      else if sends k then ([], Finished) else ([], Failed))"
  by pat_completeness auto
termination
  by (relation "measure (\<lambda>(alive, sends, source, k, off, sent). length source - off)")
     (auto simp: CHUNK_SIZE_def)

declare stream_from.simps [simp del]

definition streamOut :: "(nat \<Rightarrow> bool) \<Rightarrow> (nat \<Rightarrow> bool) \<Rightarrow> string \<Rightarrow> file_transfer \<Rightarrow> (bytes list \<times> stream_end) option \<times> file_transfer" where
  "streamOut alive sends i f =
     (case jm_get (transfers f) i of
        None \<Rightarrow> (None, f)
      | Some a \<Rightarrow>
          (case ft_obj f a of
             None \<Rightarrow> (None, f)
           | Some t \<Rightarrow>
               (case (t_ch t, t_source t) of
                  (True, Some source) \<Rightarrow>
                    let (sent, fin) = stream_from alive sends source 0 0 0;
                        f = fold (\<lambda>(c, n) f. ft_emit (OnProgress i n (of_nat (length source))) f) sent f
                    in (Some (map fst sent, fin),
                        if fin = Failed then ft_fail i ''the transfer failed while sending'' f else f)
                | _ \<Rightarrow> (None, f))))"

section \<open>Signals and receiving\<close>

text \<open>One candidate is handed to the connection; a rejection is ignored.\<close>

definition applyIce :: "nat \<Rightarrow> json option \<Rightarrow> file_transfer \<Rightarrow> file_transfer" where
  "applyIce pc c f = ft_emit (PcAddIce pc c) f"

definition drainPendingIce :: "nat \<Rightarrow> file_transfer \<Rightarrow> file_transfer" where
  "drainPendingIce a f =
     (case ft_obj f a of
        None \<Rightarrow> f
      | Some t \<Rightarrow>
          let f = ft_upd a (\<lambda>t. t\<lparr>t_pendingIce := []\<rparr>) f in
          (case t_pc t of None \<Rightarrow> f | Some pc \<Rightarrow> fold (applyIce pc) (t_pendingIce t) f))"

definition handleSignal :: "json \<Rightarrow> file_transfer \<Rightarrow> file_transfer" where
  "handleSignal raw f =
     (case parseSignal raw of
        None \<Rightarrow> f
      | Some (FOffer i name sz sdp) \<Rightarrow>
          ft_emit (OnIncoming i name sz)
            (ft_new i \<lparr> t_pc = None, t_ch = False, t_name = name, t_size = sz, t_source = None, t_sink = False,
               t_recvGot = 0, t_chain = [], t_pendingOffer = Some sdp, t_pendingIce = [], t_remoteReady = False \<rparr> f)
      | Some (FDecline i) \<Rightarrow>
          if jm_has (transfers f) i then ft_fail i ''the other person declined the file'' f else f
      | Some (FAnswer i sdp) \<Rightarrow> f
      | Some (FIce i c) \<Rightarrow>
          (case jm_get (transfers f) i of
             None \<Rightarrow> f
           | Some a \<Rightarrow>
               (case ft_obj f a of
                  None \<Rightarrow> f
                | Some t \<Rightarrow>
                    (case (t_remoteReady t, t_pc t) of
                       (True, Some pc) \<Rightarrow> applyIce pc c f
                     | _ \<Rightarrow> if length (t_pendingIce t) < MAX_PENDING_ICE
                            then ft_upd a (\<lambda>t. t\<lparr>t_pendingIce := t_pendingIce t @ [c]\<rparr>) f else f))))"

text \<open>
  After \<open>await t.pc?.setRemoteDescription(answer)\<close> in \<open>handleSignal\<close>; \<open>pc\<close> is the connection it was called
  on, if there was one.
\<close>

definition answer_applied :: "string \<Rightarrow> nat \<Rightarrow> nat option \<Rightarrow> bool \<Rightarrow> file_transfer \<Rightarrow> file_transfer" where
  "answer_applied i a pc ok f =
     (if \<not> ok then ft_fail i ''transfer setup failed'' f
      else
        let f = (case pc of None \<Rightarrow> f | Some c \<Rightarrow> ft_emit (PcRemoteSet c) f)
        in drainPendingIce a (ft_upd a (\<lambda>t. t\<lparr>t_remoteReady := True\<rparr>) f))"

text \<open>
  \<open>accept\<close> up to its first \<open>await\<close>, after \<open>setRemoteDescription\<close>, and after the answer was made. A write
  belongs to the chain of the acceptance it was received under: when a transfer is accepted again, the writes
  that the former chain still holds are left out, while in the code they go to the new sink.
\<close>

definition ft_accept :: "string \<Rightarrow> file_transfer \<Rightarrow> file_transfer" where
  "ft_accept i f =
     (case jm_get (transfers f) i of
        None \<Rightarrow> f
      | Some a \<Rightarrow>
          (case ft_obj f a of
             None \<Rightarrow> f
           | Some t \<Rightarrow>
               if t_pendingOffer t = None then f
               else
                 let (pc, f) = ft_rtc f
                 in ft_upd a (\<lambda>t. t\<lparr>t_pc := Some pc, t_sink := True, t_recvGot := 0, t_chain := []\<rparr>) f))"

definition accept_remote_set :: "string \<Rightarrow> nat \<Rightarrow> nat \<Rightarrow> bool \<Rightarrow> file_transfer \<Rightarrow> file_transfer" where
  "accept_remote_set i a pc ok f =
     (if ok then ft_upd a (\<lambda>t. t\<lparr>t_remoteReady := True\<rparr>) (ft_emit (PcRemoteSet pc) f)
      else ft_fail i ''could not accept the transfer'' f)"

definition accept_answered :: "string \<Rightarrow> nat \<Rightarrow> json option \<Rightarrow> file_transfer \<Rightarrow> file_transfer" where
  "accept_answered i a answer f =
     (case answer of
        Some sdp \<Rightarrow> drainPendingIce a (ft_emit (SendSignal (FAnswer i sdp)) f)
      | None \<Rightarrow> ft_fail i ''could not accept the transfer'' f)"

text \<open>\<open>onmessage\<close> of a bound channel: a binary chunk, and the outcome of saving after the end marker.\<close>

definition on_chunk :: "string \<Rightarrow> bytes \<Rightarrow> file_transfer \<Rightarrow> file_transfer" where
  "on_chunk i chunk f =
     (case jm_get (transfers f) i of
        None \<Rightarrow> f
      | Some a \<Rightarrow>
          (case ft_obj f a of
             None \<Rightarrow> f
           | Some t \<Rightarrow>
               if \<not> t_sink t then f
               else
                 let nxt = t_recvGot t + length chunk in
                 if of_nat nxt > t_size t then ft_fail i ''the sender exceeded the announced file size'' f
                 else ft_upd a (\<lambda>t. t\<lparr>t_chain := t_chain t @ [chunk]\<rparr>)
                        (ft_emit (OnProgress i nxt (t_size t)) (ft_upd a (\<lambda>t. t\<lparr>t_recvGot := nxt\<rparr>) f))))"

definition DONE_MARKER :: string where "DONE_MARKER = ''done''"

text \<open>A text message starts the save of the object bound at that moment; other texts are ignored.\<close>

definition on_text :: "string \<Rightarrow> string \<Rightarrow> file_transfer \<Rightarrow> nat option" where
  "on_text i msg f =
     (case jm_get (transfers f) i of
        None \<Rightarrow> None
      | Some a \<Rightarrow>
          (case ft_obj f a of
             None \<Rightarrow> None
           | Some t \<Rightarrow> if t_sink t \<and> msg = DONE_MARKER then Some a else None))"

definition saved :: "string \<Rightarrow> nat \<Rightarrow> bool \<Rightarrow> file_transfer \<Rightarrow> file_transfer" where
  "saved i a ok f =
     (if \<not> ok then ft_fail i ''could not save the received file'' f
      else case ft_obj f a of
        None \<Rightarrow> f
      | Some t \<Rightarrow>
          let f = close_pc t (ft_emit (OnComplete i (t_name t) (concat (t_chain t))) f)
          in f\<lparr>transfers := jm_delete i (transfers f)\<rparr>)"

section \<open>Runs\<close>

datatype ft_op =
    SendFile string string bytes
  | Offered string string bytes "json option"
  | Signal json
  | AnswerApplied string nat "nat option" bool
  | Accept string
  | RemoteSet string nat nat bool
  | Answered string nat "json option"
  | Decline string
  | Cancel string
  | Chunk string bytes
  | Saved string nat bool
  | Closed string
  | Stream "nat \<Rightarrow> bool" "nat \<Rightarrow> bool" string

primrec ft_step :: "ft_op \<Rightarrow> file_transfer \<Rightarrow> file_transfer" where
  "ft_step (SendFile i name src) f = sendFile i name src f"
| "ft_step (Offered i name src offer) f = sendFile_offered i name src offer f"
| "ft_step (Signal raw) f = handleSignal raw f"
| "ft_step (AnswerApplied i a pc ok) f = answer_applied i a pc ok f"
| "ft_step (Accept i) f = ft_accept i f"
| "ft_step (RemoteSet i a pc ok) f = accept_remote_set i a pc ok f"
| "ft_step (Answered i a answer) f = accept_answered i a answer f"
| "ft_step (Decline i) f = ft_decline i f"
| "ft_step (Cancel i) f = ft_cancel i f"
| "ft_step (Chunk i c) f = on_chunk i c f"
| "ft_step (Saved i a ok) f = saved i a ok f"
| "ft_step (Closed i) f = ch_onclose i f"
| "ft_step (Stream alive sends i) f = snd (streamOut alive sends i f)"

definition ft_run :: "ft_op list \<Rightarrow> file_transfer \<Rightarrow> file_transfer" where
  "ft_run es f = fold ft_step es f"

section \<open>What the receiver holds\<close>

text \<open>
  The candidate buffer is bounded, the bytes handed to the sink are the bytes counted, they stay within
  the announced size, and there are none before the transfer was accepted.
\<close>

definition transfer_ok :: "transfer \<Rightarrow> bool" where
  "transfer_ok t \<longleftrightarrow> length (t_pendingIce t) \<le> MAX_PENDING_ICE \<and> length (concat (t_chain t)) = t_recvGot t \<and>
     (t_recvGot t = 0 \<or> of_nat (t_recvGot t) \<le> t_size t) \<and> (t_chain t \<noteq> [] \<longrightarrow> t_sink t \<and> t_pendingOffer t \<noteq> None)"

definition ft_ok :: "file_transfer \<Rightarrow> bool" where
  "ft_ok f \<longleftrightarrow> (\<forall>a t. ft_obj f a = Some t \<longrightarrow> transfer_ok t \<and> (t_sink t \<longrightarrow> t_pendingOffer t \<noteq> None))"

lemma ft_obj_simps [simp]:
  "ft_obj (ft_emit e f) a = ft_obj f a" "ft_obj (f\<lparr>transfers := m\<rparr>) a = ft_obj f a" "ft_obj (f\<lparr>next_pc := n\<rparr>) a = ft_obj f a"
  "ft_obj (f\<lparr>evs := es\<rparr>) a = ft_obj f a" "ft_obj (close_pc t f) a = ft_obj f a"
  by (simp_all add: ft_obj_def ft_emit_def close_pc_def split: option.split)

lemma ft_obj_upd: "ft_obj (ft_upd a g f) b = (if b = a then map_option g (ft_obj f a) else ft_obj f b)"
  by (auto simp: ft_obj_def ft_upd_def jsmap_simps split: option.split)

lemma ft_obj_new: "ft_obj (ft_new i t f) a = (if a = next_obj f then Some t else ft_obj f a)"
  by (simp add: ft_obj_def ft_new_def jsmap_simps)

lemma ft_obj_cancel [simp]: "ft_obj (ft_cancel i f) a = ft_obj f a" "ft_obj (ft_fail i m f) a = ft_obj f a"
  "ft_obj (ft_decline i f) a = ft_obj f a"
  by (simp_all add: ft_cancel_def ft_fail_def ft_decline_def Let_def split: option.split)

lemma ft_obj_fold: "ft_obj (fold (applyIce pc) cs f) a = ft_obj f a"
  "ft_obj (fold (\<lambda>(c, n) f. ft_emit (OnProgress i n z) f) ps f) a = ft_obj f a"
  by (induction cs arbitrary: f) (simp_all add: applyIce_def, induction ps arbitrary: f, auto)

lemma ft_obj_drain:
  "ft_obj (drainPendingIce a f) b = (if b = a then map_option (\<lambda>t. t\<lparr>t_pendingIce := []\<rparr>) (ft_obj f a) else ft_obj f b)"
  by (auto simp: drainPendingIce_def Let_def ft_obj_upd ft_obj_fold split: option.split)

lemma ft_ok_cong: "(\<And>a. ft_obj g a = ft_obj f a) \<Longrightarrow> ft_ok f \<Longrightarrow> ft_ok g"
  by (simp add: ft_ok_def)

lemma ft_ok_chunk: assumes "ft_ok f" shows "ft_ok (on_chunk i c f)"
proof (cases "ft_obj (on_chunk i c f) = ft_obj f")
  case False
  then obtain a t where t: "ft_obj f a = Some t" "t_sink t" "of_nat (t_recvGot t + length c) \<le> t_size t"
    and eq: "ft_obj (on_chunk i c f) = (\<lambda>b. if b = a then Some (t\<lparr>t_recvGot := t_recvGot t + length c, t_chain := t_chain t @ [c]\<rparr>) else ft_obj f b)"
    by (auto simp: on_chunk_def Let_def ft_obj_upd fun_eq_iff split: option.splits if_splits)
  then show ?thesis using assms by (auto simp: ft_ok_def transfer_ok_def)
qed (use assms in \<open>simp add: ft_ok_def\<close>)

lemma ft_ok_signal: assumes "ft_ok f" shows "ft_ok (handleSignal raw f)"
proof -
  have "transfer_ok (t\<lparr>t_pendingIce := t_pendingIce t @ [c]\<rparr>)"
    if "transfer_ok t" "length (t_pendingIce t) < MAX_PENDING_ICE" for t c
    using that by (simp add: transfer_ok_def)
  then show ?thesis using assms
    by (auto simp: handleSignal_def ft_ok_def ft_obj_upd ft_obj_new applyIce_def transfer_ok_def
        split: option.splits file_signal.splits bool.splits if_splits)
qed

lemma transfer_ok_upd [simp]:
  "transfer_ok (t\<lparr>t_remoteReady := b\<rparr>) = transfer_ok t"
  "transfer_ok t \<Longrightarrow> transfer_ok (t\<lparr>t_pendingIce := []\<rparr>)"
  "transfer_ok t \<Longrightarrow> transfer_ok (t\<lparr>t_remoteReady := b, t_pendingIce := []\<rparr>)"
  "transfer_ok t \<Longrightarrow> transfer_ok (t\<lparr>t_pc := c, t_sink := True, t_recvGot := 0, t_chain := []\<rparr>)"
  by (simp_all add: transfer_ok_def)

lemma transfer_ok_new [simp]:
  "transfer_ok \<lparr> t_pc = pc, t_ch = ch, t_name = nm, t_size = sz, t_source = src, t_sink = False, t_recvGot = 0,
     t_chain = [], t_pendingOffer = po, t_pendingIce = [], t_remoteReady = rr \<rparr>"
  by (simp add: transfer_ok_def)

lemma ft_ok_step: "ft_ok f \<Longrightarrow> ft_ok (ft_step e f)"
proof (cases e)
  case (Signal raw)
  then show "ft_ok f \<Longrightarrow> ?thesis" by (simp add: ft_ok_signal)
next
  case (Chunk i c)
  then show "ft_ok f \<Longrightarrow> ?thesis" by (simp add: ft_ok_chunk)
next
  case (Stream alive sends i)
  have "ft_obj (snd (streamOut alive sends i f)) a = ft_obj f a" for a
    by (auto simp: streamOut_def Let_def ft_obj_fold split: option.splits bool.splits prod.splits)
  then show "ft_ok f \<Longrightarrow> ?thesis" using Stream by (simp add: ft_ok_def)
qed (auto simp: ft_ok_def sendFile_def sendFile_offered_def answer_applied_def ft_accept_def accept_remote_set_def
      accept_answered_def saved_def ch_onclose_def Let_def ft_rtc_def ft_obj_upd ft_obj_new ft_obj_drain
      split: option.splits if_splits)

lemma ft_ok_run: "ft_ok f \<Longrightarrow> ft_ok (ft_run es f)"
  unfolding ft_run_def by (induction es arbitrary: f) (simp_all add: ft_ok_step)

text \<open>
  C19. A peer cannot push past what was agreed. Whatever signals, messages and outcomes arrive in
  whatever order, a transfer never holds more than 64 unapplied candidates, hands bytes to a sink only
  after \<open>accept\<close>, counts exactly what it hands over, and never exceeds the announced size.
\<close>
theorem file_transfer_stays_within_consent:
  assumes "ft_obj (ft_run es new_ft) a = Some t"
  shows "length (t_pendingIce t) \<le> 64 \<and> length (concat (t_chain t)) = t_recvGot t \<and>
    (t_chain t \<noteq> [] \<longrightarrow> t_sink t \<and> t_pendingOffer t \<noteq> None) \<and>
    (concat (t_chain t) \<noteq> [] \<longrightarrow> of_nat (length (concat (t_chain t))) \<le> t_size t)"
proof -
  have "ft_ok new_ft" by (simp add: ft_ok_def ft_obj_def new_ft_def)
  then have "ft_ok (ft_run es new_ft)" by (rule ft_ok_run)
  then have t: "transfer_ok t" using assms by (simp add: ft_ok_def)
  then have "of_nat (length (concat (t_chain t))) \<le> t_size t" if "concat (t_chain t) \<noteq> []"
    using that by (metis length_0_conv transfer_ok_def)
  with t show ?thesis by (simp add: transfer_ok_def MAX_PENDING_ICE_def)
qed

definition demo_offer :: json where
  "demo_offer = JObj [(''kind'', JStr ''offer''), (''id'', JStr ''x''), (''name'', JStr ''f.bin''), (''size'', JNum 2),
     (''sdp'', JObj [(''type'', JStr ''offer'')])]"

definition demo_transfer :: transfer where
  "demo_transfer = \<lparr> t_pc = Some 0, t_ch = False, t_name = ''f.bin'', t_size = 2, t_source = None, t_sink = True,
     t_recvGot = 2, t_chain = [[7, 8]], t_pendingOffer = Some (JObj [(''type'', JStr ''offer'')]), t_pendingIce = [],
     t_remoteReady = False \<rparr>"

lemma demo_offer_parses: "parseSignal demo_offer = Some (FOffer ''x'' ''f.bin'' 2 (JObj [(''type'', JStr ''offer'')]))"
  by (simp add: parseSignal_def demo_offer_def json_prop_def as_string_def as_number_def isSdp_def is_object_def)

theorem file_transfer_stays_within_consent_witness:
  "ft_obj (ft_run [Signal demo_offer, Accept ''x'', Chunk ''x'' [7, 8]] new_ft) 0 = Some demo_transfer \<and>
   t_sink demo_transfer \<and> of_nat (length (concat (t_chain demo_transfer))) \<le> t_size demo_transfer"
proof -
  have r: "ft_obj (ft_run [Signal demo_offer, Accept ''x'', Chunk ''x'' [7, 8]] new_ft) 0 = Some demo_transfer"
    by (simp add: ft_run_def handleSignal_def demo_offer_parses new_ft_def ft_new_def ft_emit_def ft_accept_def ft_obj_def
        ft_rtc_def ft_upd_def on_chunk_def Let_def jsmap_simps demo_transfer_def)
  from file_transfer_stays_within_consent [OF r] r show ?thesis by (simp add: demo_transfer_def)
qed

section \<open>The file arrives\<close>

lemma slice_then_drop: "off < length xs \<Longrightarrow> slice off (min (off + n) (length xs)) xs @ drop (off + n) xs = drop off xs"
proof -
  assume "off < length xs"
  have "slice off (min (off + n) (length xs)) xs = take n (drop off xs)"
    by (simp add: slice_def min_def)
  then show ?thesis by (metis add.commute append_take_drop_id drop_drop)
qed

lemma stream_prefix:
  "\<exists>rest. concat (map fst (fst (stream_from alive sends source k off sent))) @ rest = drop off source \<and>
     (snd (stream_from alive sends source k off sent) = Finished \<longrightarrow> rest = [])"
proof (induction alive sends source k off sent rule: stream_from.induct)
  case (1 alive sends source k off sent)
  let ?chunk = "slice off (min (off + CHUNK_SIZE) (length source)) source"
  show ?case
  proof (cases "off < length source \<and> alive k \<and> sends k")
    case True
    then obtain rest where "concat (map fst (fst (stream_from alive sends source (k + 1) (off + CHUNK_SIZE) (sent + length ?chunk)))) @ rest =
        drop (off + CHUNK_SIZE) source"
      "snd (stream_from alive sends source (k + 1) (off + CHUNK_SIZE) (sent + length ?chunk)) = Finished \<longrightarrow> rest = []"
      using 1 by blast
    then show ?thesis
      using True slice_then_drop [of off source CHUNK_SIZE]
      by (intro exI [of _ rest], subst (1 2) stream_from.simps) (auto simp: Let_def split: prod.splits)
  qed (auto simp: stream_from.simps)
qed

lemma stream_finishes: "snd (stream_from (\<lambda>_. True) (\<lambda>_. True) source k off sent) = Finished"
proof (induction "\<lambda>_ :: nat. True" "\<lambda>_ :: nat. True" source k off sent rule: stream_from.induct)
  case (1 source k off sent)
  then show ?case by (subst stream_from.simps) (auto simp: Let_def split: prod.splits)
qed

lemma stream_chunk_sizes:
  "\<forall>c \<in> set (map fst (fst (stream_from alive sends source k off sent))). length c \<le> CHUNK_SIZE"
proof (induction alive sends source k off sent rule: stream_from.induct)
  case (1 alive sends source k off sent)
  then show ?case by (subst stream_from.simps) (auto simp: Let_def length_slice split: prod.splits)
qed

text \<open>A receiver whose transfer is accepted and has room takes the chunks in order.\<close>

lemma receive_chunks:
  assumes "jm_get (transfers f) i = Some a" "ft_obj f a = Some t" "t_sink t"
    and "of_nat (t_recvGot t + length (concat cs)) \<le> t_size t"
  shows "jm_get (transfers (fold (on_chunk i) cs f)) i = Some a \<and>
    ft_obj (fold (on_chunk i) cs f) a = Some (t\<lparr>t_recvGot := t_recvGot t + length (concat cs), t_chain := t_chain t @ cs\<rparr>)"
  using assms
proof (induction cs arbitrary: f t)
  case (Cons c cs)
  let ?t = "t\<lparr>t_recvGot := t_recvGot t + length c, t_chain := t_chain t @ [c]\<rparr>"
  have "(of_nat (t_recvGot t + length c) :: rat) \<le> of_nat (t_recvGot t + length (concat (c # cs)))"
    by (subst of_nat_le_iff) simp
  then have fits: "\<not> of_nat (t_recvGot t + length c) > t_size t" using Cons.prems(4) by linarith
  have step: "jm_get (transfers (on_chunk i c f)) i = Some a" "ft_obj (on_chunk i c f) a = Some ?t"
    using Cons.prems(1-3) fits by (simp_all add: on_chunk_def Let_def ft_obj_upd)
       (simp add: ft_upd_def ft_emit_def split: option.split)
  have "of_nat (t_recvGot ?t + length (concat cs)) \<le> t_size ?t" using Cons.prems(4) by (simp add: add.assoc)
  from Cons.IH [OF step _ this] Cons.prems(3) show ?case by (simp add: add.assoc)
qed simp

lemma saved_reports:
  "ft_obj f a = Some t \<Longrightarrow> OnComplete i (t_name t) (concat (t_chain t)) \<in> set (evs (saved i a True f))"
  by (simp add: saved_def Let_def close_pc_def ft_emit_def split: option.split)

text \<open>
  C20. A file arrives whole. Streaming an uninterrupted file gives chunks of at most 16 KiB that add up
  to the file and ends; delivered in order to an accepted transfer that announced this size, and saved,
  they complete it with exactly the bytes of the file. A stream that is interrupted has sent a prefix.
\<close>
theorem file_arrives_whole:
  assumes "jm_get (transfers f) i = Some a" "ft_obj f a = Some t" "t_sink t" "t_recvGot t = 0" "t_chain t = []"
    and "t_size t = of_nat (length content)" "cs = map fst (fst (stream_from (\<lambda>_. True) (\<lambda>_. True) content 0 0 0))"
  shows "snd (stream_from (\<lambda>_. True) (\<lambda>_. True) content 0 0 0) = Finished \<and> concat cs = content \<and>
    (\<forall>c \<in> set cs. length c \<le> 16384) \<and>
    on_text i DONE_MARKER (fold (on_chunk i) cs f) = Some a \<and>
    OnComplete i (t_name t) content \<in> set (evs (saved i a True (fold (on_chunk i) cs f))) \<and>
    (\<forall>alive sends. \<exists>rest. concat (map fst (fst (stream_from alive sends content 0 0 0))) @ rest = content)"
proof (intro conjI)
  show fin: "snd (stream_from (\<lambda>_. True) (\<lambda>_. True) content 0 0 0) = Finished" by (rule stream_finishes)
  show whole: "concat cs = content"
    using stream_prefix [where source = content and k = 0 and off = 0 and sent = 0 and alive = "\<lambda>_. True" and sends = "\<lambda>_. True"] fin assms(7) by auto
  show "\<forall>c \<in> set cs. length c \<le> 16384"
    using stream_chunk_sizes [where source = content and k = 0 and off = 0 and sent = 0] assms(7) by (simp add: CHUNK_SIZE_def)
  have got: "jm_get (transfers (fold (on_chunk i) cs f)) i = Some a"
    "ft_obj (fold (on_chunk i) cs f) a = Some (t\<lparr>t_recvGot := length content, t_chain := cs\<rparr>)"
    using receive_chunks [OF assms(1-3), of cs] assms(4-6) whole by simp_all
  show "on_text i DONE_MARKER (fold (on_chunk i) cs f) = Some a"
    using got assms(3) by (simp add: on_text_def)
  show "OnComplete i (t_name t) content \<in> set (evs (saved i a True (fold (on_chunk i) cs f)))"
    using saved_reports [OF got(2), of i] whole by simp
  show "\<forall>alive sends. \<exists>rest. concat (map fst (fst (stream_from alive sends content 0 0 0))) @ rest = content"
    using stream_prefix [where source = content and k = 0 and off = 0 and sent = 0] by (metis drop0)
qed

theorem file_arrives_whole_witness:
  "OnComplete ''x'' ''f.bin'' [7, 8] \<in> set (evs (saved ''x'' 0 True (fold (on_chunk ''x'')
     (map fst (fst (stream_from (\<lambda>_. True) (\<lambda>_. True) [7, 8] 0 0 0)))
     (ft_run [Signal demo_offer, Accept ''x''] new_ft))))"
proof -
  let ?f = "ft_run [Signal demo_offer, Accept ''x''] new_ft"
  let ?t = "demo_transfer\<lparr>t_recvGot := 0, t_chain := []\<rparr>"
  have "jm_get (transfers ?f) ''x'' = Some 0" "ft_obj ?f 0 = Some ?t"
    by (simp_all add: ft_run_def handleSignal_def demo_offer_parses new_ft_def ft_new_def ft_emit_def ft_accept_def ft_obj_def
        ft_rtc_def ft_upd_def Let_def jsmap_simps demo_transfer_def)
  from file_arrives_whole [OF this, of "[7, 8]", OF _ _ _ _ refl]
  show ?thesis by (simp add: demo_transfer_def)
qed

section \<open>Candidates before the remote description\<close>

text \<open>
  A peer that sends an answer for a file it offered itself marks the transfer ready before there is a
  connection; a candidate that arrives after \<open>accept\<close> is then applied before the remote description is.
\<close>

definition demo_ice :: json where
  "demo_ice = JObj [(''kind'', JStr ''ice''), (''id'', JStr ''x''), (''candidate'', JStr ''c'')]"

lemma unsolicited_answer_unbuffers_ice:
  "evs (ft_run [Signal demo_offer, AnswerApplied ''x'' 0 None True, Accept ''x'', Signal demo_ice] new_ft) =
     [OnIncoming ''x'' ''f.bin'' 2, PcOpen 0, PcAddIce 0 (Some (JStr ''c''))]"
proof -
  have "parseSignal demo_ice = Some (FIce ''x'' (Some (JStr ''c'')))"
    by (simp add: parseSignal_def demo_ice_def json_prop_def as_string_def is_object_def)
  then show ?thesis
    by (simp add: ft_run_def handleSignal_def demo_offer_parses new_ft_def ft_new_def ft_emit_def ft_accept_def ft_obj_def
        ft_rtc_def ft_upd_def Let_def jsmap_simps answer_applied_def drainPendingIce_def applyIce_def)
qed

end
