(* ===== verification/CallSession.thy ===== *)
theory CallSession
  imports Json
begin

text \<open>
  \<open>client/src/callsession.ts\<close>: call signals, the table of calls, media capture and teardown. A call is an
  object with identity; the table maps a call id to an address. A method is split where it awaits: the
  captures in progress are kept in \<open>awaiting\<close> and resolve in any order, other continuations are
  operations of their own with the outcome of the awaited call. \<open>live\<close> holds the captured streams whose
  tracks have not been stopped.
\<close>

section \<open>Signals\<close>

datatype call_signal =
    CallOffer string bool json
  | CallAnswer string json
  | CallIce string "json option"
  | CallDecline string
  | CallHangup string

definition parseCallSignal :: "json \<Rightarrow> call_signal option" where
  "parseCallSignal v =
     (if \<not> is_object v then None
      else case as_string (json_prop v ''id'') of
        None \<Rightarrow> None
      | Some i \<Rightarrow>
          if i = [] then None
          else
            let kind = as_string (json_prop v ''kind'') in
            case (kind = Some ''call-offer'', as_bool (json_prop v ''video''), isSdp (json_prop v ''sdp'')) of
              (True, Some video, True) \<Rightarrow> Some (CallOffer i video (the (json_prop v ''sdp'')))
            | _ \<Rightarrow>
                if kind = Some ''call-answer'' \<and> isSdp (json_prop v ''sdp'') then Some (CallAnswer i (the (json_prop v ''sdp'')))
                else if kind = Some ''call-ice'' then Some (CallIce i (json_prop v ''candidate''))
                else if kind = Some ''call-decline'' then Some (CallDecline i)
                else if kind = Some ''call-hangup'' then Some (CallHangup i)
                else None)"

section \<open>State\<close>

datatype call_state = Calling | Ringing | Connected | Ended

definition MAX_PENDING_ICE :: nat where "MAX_PENDING_ICE = 64"

record call =
  c_pc :: "nat option"
  c_local :: "nat option"
  c_video :: bool
  c_caller :: bool
  c_pendingOffer :: "json option"
  c_pendingIce :: "json option list"
  c_remoteReady :: bool
  c_ended :: bool

datatype call_event =
    SendSignal call_signal
  | OnIncoming string bool
  | OnState string call_state
  | OnLocalStream string nat
  | OnRemoteStream string
  | OnError string string
  | PcOpen nat
  | PcClose nat
  | PcAddTracks nat nat
  | PcRemoteSet nat
  | PcAddIce nat "json option"
  | SetEnabled nat string bool

record call_session =
  calls :: "(string, nat) jsmap"
  c_objs :: "(nat, call) jsmap"
  next_call :: nat
  c_next_pc :: nat
  next_stream :: nat
  awaiting :: "(string \<times> nat) list"
  live :: "nat list"
  cevs :: "call_event list"

definition new_cs :: call_session where
  "new_cs = \<lparr> calls = [], c_objs = [], next_call = 0, c_next_pc = 0, next_stream = 0, awaiting = [], live = [], cevs = [] \<rparr>"

definition c_emit :: "call_event \<Rightarrow> call_session \<Rightarrow> call_session" where
  "c_emit e s = s\<lparr>cevs := cevs s @ [e]\<rparr>"

definition c_obj :: "call_session \<Rightarrow> nat \<Rightarrow> call option" where
  "c_obj s a = jm_get (c_objs s) a"

definition c_upd :: "nat \<Rightarrow> (call \<Rightarrow> call) \<Rightarrow> call_session \<Rightarrow> call_session" where
  "c_upd a g s = (case jm_get (c_objs s) a of None \<Rightarrow> s | Some c \<Rightarrow> s\<lparr>c_objs := jm_set a (g c) (c_objs s)\<rparr>)"

definition c_new :: "string \<Rightarrow> call \<Rightarrow> call_session \<Rightarrow> call_session" where
  "c_new i c s =
     s\<lparr>calls := jm_set i (next_call s) (calls s), c_objs := jm_set (next_call s) c (c_objs s), next_call := next_call s + 1\<rparr>"

definition isActive :: "call_session \<Rightarrow> bool" where
  "isActive s \<longleftrightarrow> calls s \<noteq> []"

definition stopTracks :: "nat \<Rightarrow> call_session \<Rightarrow> call_session" where
  "stopTracks st s = s\<lparr>live := filter (\<lambda>x. x \<noteq> st) (live s)\<rparr>"

definition teardown :: "string \<Rightarrow> call_session \<Rightarrow> call_session" where
  "teardown i s =
     (case jm_get (calls s) i of
        None \<Rightarrow> s
      | Some a \<Rightarrow>
          (case c_obj s a of
             None \<Rightarrow> s
           | Some c \<Rightarrow>
               let s = c_upd a (\<lambda>c. c\<lparr>c_ended := True\<rparr>) s;
                   s = (case c_local c of None \<Rightarrow> s | Some st \<Rightarrow> stopTracks st s);
                   s = (case c_pc c of None \<Rightarrow> s | Some pc \<Rightarrow> c_emit (PcClose pc) s)
               in s\<lparr>calls := jm_delete i (calls s)\<rparr>))"

definition c_fail :: "string \<Rightarrow> string \<Rightarrow> call_session \<Rightarrow> call_session" where
  "c_fail i msg s = c_emit (OnState i Ended) (c_emit (OnError i msg) (teardown i s))"

definition aborted :: "string \<Rightarrow> call_session \<Rightarrow> bool" where
  "aborted i s = (case jm_get (calls s) i of None \<Rightarrow> True
     | Some a \<Rightarrow> (case c_obj s a of None \<Rightarrow> True | Some c \<Rightarrow> c_ended c))"

section \<open>Placing and accepting\<close>

definition startCall :: "string \<Rightarrow> bool \<Rightarrow> call_session \<Rightarrow> call_session" where
  "startCall i video s =
     (if jm_has (calls s) i then s
      else
        let a = next_call s;
            s = c_new i \<lparr> c_pc = None, c_local = None, c_video = video, c_caller = True, c_pendingOffer = None,
                  c_pendingIce = [], c_remoteReady = False, c_ended = False \<rparr> s;
            s = c_emit (OnState i Calling) s
        in s\<lparr>awaiting := awaiting s @ [(i, a)]\<rparr>)"

definition c_accept :: "string \<Rightarrow> call_session \<Rightarrow> call_session" where
  "c_accept i s =
     (case jm_get (calls s) i of
        None \<Rightarrow> s
      | Some a \<Rightarrow>
          (case c_obj s a of
             None \<Rightarrow> s
           | Some c \<Rightarrow> if c_pendingOffer c = None then s else s\<lparr>awaiting := awaiting s @ [(i, a)]\<rparr>))"

text \<open>
  What runs when \<open>getUserMedia\<close> settles for the \<open>k\<close>-th pending capture: on success the new stream is
  live; it is stopped again if the id was torn down, otherwise it becomes the local stream and a
  connection is opened for it.
\<close>

definition captured :: "nat \<Rightarrow> bool \<Rightarrow> call_session \<Rightarrow> call_session" where
  "captured k ok s0 =
     (case Prelude.at (awaiting s0) k of
        None \<Rightarrow> s0
      | Some (i, a) \<Rightarrow>
          let s = s0\<lparr>awaiting := take k (awaiting s0) @ drop (Suc k) (awaiting s0)\<rparr>;
              video = (case c_obj s a of None \<Rightarrow> False | Some c \<Rightarrow> c_video c)
          in
          if \<not> ok then
            c_fail i (if video then ''could not access your microphone or camera'' else ''could not access your microphone'') s
          else
            let st = next_stream s;
                s = s\<lparr>next_stream := st + 1, live := live s @ [st]\<rparr>
            in
            if aborted i s then stopTracks st s
            else
              let s = c_emit (OnLocalStream i st) (c_upd a (\<lambda>c. c\<lparr>c_local := Some st\<rparr>) s);
                  pc = c_next_pc s;
                  s = c_emit (PcOpen pc) (s\<lparr>c_next_pc := pc + 1\<rparr>);
                  s = c_upd a (\<lambda>c. c\<lparr>c_pc := Some pc\<rparr>) s
              in c_emit (PcAddTracks pc st) s)"

text \<open>The caller's offer was made or refused; the callee's remote description; the callee's answer.\<close>

definition offer_made :: "string \<Rightarrow> bool \<Rightarrow> json option \<Rightarrow> call_session \<Rightarrow> call_session" where
  "offer_made i video offer s =
     (case offer of
        Some sdp \<Rightarrow> c_emit (SendSignal (CallOffer i video sdp)) s
      | None \<Rightarrow> c_fail i ''could not start the call'' s)"

definition remote_applied :: "string \<Rightarrow> nat \<Rightarrow> nat \<Rightarrow> bool \<Rightarrow> call_session \<Rightarrow> call_session" where
  "remote_applied i a pc ok s =
     (if ok then c_upd a (\<lambda>c. c\<lparr>c_remoteReady := True\<rparr>) (c_emit (PcRemoteSet pc) s)
      else c_fail i ''could not accept the call'' s)"

definition c_drainPendingIce :: "nat \<Rightarrow> call_session \<Rightarrow> call_session" where
  "c_drainPendingIce a s =
     (case c_obj s a of
        None \<Rightarrow> s
      | Some c \<Rightarrow>
          let s = c_upd a (\<lambda>c. c\<lparr>c_pendingIce := []\<rparr>) s in
          (case c_pc c of None \<Rightarrow> s | Some pc \<Rightarrow> fold (\<lambda>x. c_emit (PcAddIce pc x)) (c_pendingIce c) s))"

definition answer_made :: "string \<Rightarrow> nat \<Rightarrow> json option \<Rightarrow> call_session \<Rightarrow> call_session" where
  "answer_made i a answer s =
     (case answer of
        Some sdp \<Rightarrow> c_drainPendingIce a (c_emit (SendSignal (CallAnswer i sdp)) s)
      | None \<Rightarrow> c_fail i ''could not accept the call'' s)"

definition c_handleSignal :: "json \<Rightarrow> call_session \<Rightarrow> call_session" where
  "c_handleSignal raw s =
     (case parseCallSignal raw of
        None \<Rightarrow> s
      | Some (CallOffer i video sdp) \<Rightarrow>
          if jm_has (calls s) i then s
          else c_emit (OnIncoming i video) (c_emit (OnState i Ringing)
            (c_new i \<lparr> c_pc = None, c_local = None, c_video = video, c_caller = False, c_pendingOffer = Some sdp,
               c_pendingIce = [], c_remoteReady = False, c_ended = False \<rparr> s))
      | Some (CallDecline i) \<Rightarrow> if jm_has (calls s) i then c_emit (OnState i Ended) (teardown i s) else s
      | Some (CallHangup i) \<Rightarrow> if jm_has (calls s) i then c_emit (OnState i Ended) (teardown i s) else s
      | Some (CallAnswer i sdp) \<Rightarrow> s
      | Some (CallIce i x) \<Rightarrow>
          (case jm_get (calls s) i of
             None \<Rightarrow> s
           | Some a \<Rightarrow>
               (case c_obj s a of
                  None \<Rightarrow> s
                | Some c \<Rightarrow>
                    (case (c_remoteReady c, c_pc c) of
                       (True, Some pc) \<Rightarrow> c_emit (PcAddIce pc x) s
                     | _ \<Rightarrow> if length (c_pendingIce c) < MAX_PENDING_ICE
                            then c_upd a (\<lambda>c. c\<lparr>c_pendingIce := c_pendingIce c @ [x]\<rparr>) s else s))))"

text \<open>After the \<open>await\<close> on \<open>setRemoteDescription\<close> for an answer signal, if there was a connection.\<close>

definition answer_arrived :: "string \<Rightarrow> nat \<Rightarrow> nat option \<Rightarrow> bool \<Rightarrow> call_session \<Rightarrow> call_session" where
  "answer_arrived i a pc ok s =
     (if \<not> ok then c_fail i ''call setup failed'' s
      else
        let s = (case pc of None \<Rightarrow> s | Some c \<Rightarrow> c_emit (PcRemoteSet c) s)
        in c_drainPendingIce a (c_upd a (\<lambda>c. c\<lparr>c_remoteReady := True\<rparr>) s))"

definition c_decline :: "string \<Rightarrow> call_session \<Rightarrow> call_session" where
  "c_decline i s =
     (if \<not> jm_has (calls s) i then s
      else c_emit (OnState i Ended) (teardown i (c_emit (SendSignal (CallDecline i)) s)))"

definition hangup :: "string \<Rightarrow> call_session \<Rightarrow> call_session" where
  "hangup i s =
     (if \<not> jm_has (calls s) i then s
      else c_emit (OnState i Ended) (teardown i (c_emit (SendSignal (CallHangup i)) s)))"

definition setTrackEnabled :: "string \<Rightarrow> string \<Rightarrow> bool \<Rightarrow> call_session \<Rightarrow> call_session" where
  "setTrackEnabled kind i on s =
     (case jm_get (calls s) i of
        None \<Rightarrow> s
      | Some a \<Rightarrow> (case c_obj s a of None \<Rightarrow> s
          | Some c \<Rightarrow> (case c_local c of None \<Rightarrow> s | Some st \<Rightarrow> c_emit (SetEnabled st kind on) s)))"

definition setMicEnabled :: "string \<Rightarrow> bool \<Rightarrow> call_session \<Rightarrow> call_session" where
  "setMicEnabled i on s = setTrackEnabled ''audio'' i on s"

definition setCameraEnabled :: "string \<Rightarrow> bool \<Rightarrow> call_session \<Rightarrow> call_session" where
  "setCameraEnabled i on s = setTrackEnabled ''video'' i on s"

text \<open>The handlers \<open>wirePc\<close> installs.\<close>

definition on_track :: "string \<Rightarrow> bool \<Rightarrow> call_session \<Rightarrow> call_session" where
  "on_track i has_stream s =
     c_emit (OnState i Connected) (if has_stream then c_emit (OnRemoteStream i) s else s)"

definition on_connection_state :: "string \<Rightarrow> string \<Rightarrow> call_session \<Rightarrow> call_session" where
  "on_connection_state i state s =
     (if state = ''connected'' then c_emit (OnState i Connected) s
      else if state \<in> set [''failed'', ''disconnected'', ''closed''] \<and> \<not> aborted i s
        then c_emit (OnState i Ended) (teardown i s)
      else s)"

definition on_ice_candidate :: "string \<Rightarrow> json \<Rightarrow> call_session \<Rightarrow> call_session" where
  "on_ice_candidate i x s = c_emit (SendSignal (CallIce i (Some x))) s"

section \<open>Runs\<close>

datatype call_op =
    StartCall string bool
  | AcceptCall string
  | Captured nat bool
  | OfferMade string bool "json option"
  | RemoteApplied string nat nat bool
  | AnswerMade string nat "json option"
  | CallSignal json
  | AnswerArrived string nat "nat option" bool
  | DeclineCall string
  | Hangup string
  | Mic string bool
  | Camera string bool
  | TrackEvent string bool
  | ConnState string string
  | IceCandidate string json

primrec cs_step :: "call_op \<Rightarrow> call_session \<Rightarrow> call_session" where
  "cs_step (StartCall i v) s = startCall i v s"
| "cs_step (AcceptCall i) s = c_accept i s"
| "cs_step (Captured k ok) s = captured k ok s"
| "cs_step (OfferMade i v offer) s = offer_made i v offer s"
| "cs_step (RemoteApplied i a pc ok) s = remote_applied i a pc ok s"
| "cs_step (AnswerMade i a answer) s = answer_made i a answer s"
| "cs_step (CallSignal raw) s = c_handleSignal raw s"
| "cs_step (AnswerArrived i a pc ok) s = answer_arrived i a pc ok s"
| "cs_step (DeclineCall i) s = c_decline i s"
| "cs_step (Hangup i) s = hangup i s"
| "cs_step (Mic i on) s = setMicEnabled i on s"
| "cs_step (Camera i on) s = setCameraEnabled i on s"
| "cs_step (TrackEvent i b) s = on_track i b s"
| "cs_step (ConnState i st) s = on_connection_state i st s"
| "cs_step (IceCandidate i x) s = on_ice_candidate i x s"

definition cs_run :: "call_op list \<Rightarrow> call_session \<Rightarrow> call_session" where
  "cs_run es s = fold cs_step es s"

section \<open>Who holds a captured stream\<close>

text \<open>What the ownership of streams depends on: of an object, its local stream and whether it ended.\<close>

definition holds :: "call_session \<Rightarrow> nat \<Rightarrow> (nat option \<times> bool) option" where
  "holds s a = map_option (\<lambda>c. (c_local c, c_ended c)) (c_obj s a)"

definition view :: "call_session \<Rightarrow> (string, nat) jsmap \<times> (nat \<Rightarrow> (nat option \<times> bool) option) \<times> nat \<times> nat \<times> (string \<times> nat) list \<times> nat list" where
  "view s = (calls s, holds s, next_call s, next_stream s, awaiting s, live s)"

text \<open>
  Every id in the table has a live object of its own; a pending capture belongs to an object without
  a stream, and if its id is in the table it denotes that object; every running stream is the local
  stream of a call in the table.
\<close>

definition table_ok :: "call_session \<Rightarrow> bool" where
  "table_ok s \<longleftrightarrow> (\<forall>i a. jm_get (calls s) i = Some a \<longrightarrow> a < next_call s \<and> (\<exists>st. holds s a = Some (st, False)))"

definition own_ok :: "call_session \<Rightarrow> bool" where
  "own_ok s \<longleftrightarrow> (\<forall>i j a. jm_get (calls s) i = Some a \<longrightarrow> jm_get (calls s) j = Some a \<longrightarrow> i = j)"

definition wait_ok :: "call_session \<Rightarrow> bool" where
  "wait_ok s \<longleftrightarrow> distinct (map fst (awaiting s)) \<and> distinct (map snd (awaiting s)) \<and>
     (\<forall>i a. (i, a) \<in> set (awaiting s) \<longrightarrow> a < next_call s \<and> (\<exists>e. holds s a = Some (None, e)) \<and>
        (\<forall>j. jm_get (calls s) j = Some a \<longrightarrow> j = i) \<and> (\<forall>b. jm_get (calls s) i = Some b \<longrightarrow> b = a))"

definition live_ok :: "call_session \<Rightarrow> bool" where
  "live_ok s \<longleftrightarrow> (\<forall>st \<in> set (live s). st < next_stream s \<and>
     (\<exists>i a e. jm_get (calls s) i = Some a \<and> holds s a = Some (Some st, e)))"

definition cs_inv :: "call_session \<Rightarrow> bool" where
  "cs_inv s \<longleftrightarrow> table_ok s \<and> own_ok s \<and> wait_ok s \<and> live_ok s"

lemmas cs_inv_defs = cs_inv_def table_ok_def own_ok_def wait_ok_def live_ok_def

lemma cs_inv_view: "view s = view s' \<Longrightarrow> cs_inv s' = cs_inv s"
  by (simp add: view_def cs_inv_defs)

lemma holds_upd: "holds (c_upd a g s) b =
    (if b = a then map_option (\<lambda>c. (c_local (g c), c_ended (g c))) (c_obj s a) else holds s b)"
  by (auto simp: holds_def c_obj_def c_upd_def jsmap_simps split: option.split)

lemma c_upd_fields [simp]:
  "calls (c_upd a g s) = calls s" "next_call (c_upd a g s) = next_call s" "next_stream (c_upd a g s) = next_stream s"
  "awaiting (c_upd a g s) = awaiting s" "live (c_upd a g s) = live s"
  by (simp_all add: c_upd_def split: option.split)

lemma view_emit [simp]: "view (c_emit e s) = view s"
  by (simp add: view_def c_emit_def holds_def c_obj_def fun_eq_iff)

lemma view_upd:
  "(\<And>c. c_local (g c) = c_local c \<and> c_ended (g c) = c_ended c) \<Longrightarrow> view (c_upd a g s) = view s"
  by (auto simp: view_def fun_eq_iff holds_upd) (simp add: holds_def option.map_comp comp_def cong: option.map_cong)

lemma view_fold_emit: "view (fold (\<lambda>x. c_emit (f x)) xs s) = view s"
  by (induction xs arbitrary: s) simp_all

lemma view_drain [simp]: "view (c_drainPendingIce a s) = view s"
  by (auto simp: c_drainPendingIce_def Let_def view_fold_emit view_upd split: option.split)

lemma cs_inv_emit [simp]: "cs_inv (c_emit e s) = cs_inv s"
  by (rule cs_inv_view) simp

lemma cs_inv_teardown:
  assumes inv: "cs_inv s" shows "cs_inv (teardown i s)"
proof (cases "jm_get (calls s) i")
  case None
  then show ?thesis using inv by (simp add: teardown_def)
next
  case (Some a)
  then have "holds s a \<noteq> None" using inv unfolding cs_inv_def table_ok_def by fastforce
  then obtain c where c: "c_obj s a = Some c" by (auto simp: holds_def)
  have view: "view (teardown i s) =
      (jm_delete i (calls s), (\<lambda>b. if b = a then Some (c_local c, True) else holds s b), next_call s, next_stream s,
       awaiting s, filter (\<lambda>st. c_local c \<noteq> Some st) (live s))"
    using Some c
    by (auto simp: teardown_def Let_def view_def c_emit_def stopTracks_def holds_upd holds_def c_obj_def c_upd_def
        jsmap_simps fun_eq_iff split: option.split intro!: filter_cong filter_True [symmetric])
  let ?s = "teardown i s"
  have new: "jm_get (calls ?s) j = (if j = i then None else jm_get (calls s) j)"
    "holds ?s b = (if b = a then Some (c_local c, True) else holds s b)" "next_call ?s = next_call s"
    "next_stream ?s = next_stream s" "awaiting ?s = awaiting s"
    "st \<in> set (live ?s) \<longleftrightarrow> st \<in> set (live s) \<and> c_local c \<noteq> Some st" for j b st
    using view by (auto simp: view_def jsmap_simps fun_eq_iff)
  have own: "holds s a = Some (c_local c, c_ended c)" using c by (simp add: holds_def)
  have other: "b \<noteq> a" if "jm_get (calls s) j = Some b" "j \<noteq> i" for j b
    using inv Some that unfolding cs_inv_def own_ok_def by blast
  have "table_ok ?s" using inv other by (auto simp: table_ok_def cs_inv_def new)
  moreover have "own_ok ?s" using inv by (auto simp: own_ok_def cs_inv_def new)
  moreover have idle: "c_local c = None" if "(j, a) \<in> set (awaiting s)" for j
    using inv own that unfolding cs_inv_def wait_ok_def by fastforce
  have "wait_ok ?s" using inv idle by (auto simp: wait_ok_def cs_inv_def new)
  moreover have "live_ok ?s"
    unfolding live_ok_def
  proof
    fix st assume "st \<in> set (live ?s)"
    then have "st \<in> set (live s)" and ne: "c_local c \<noteq> Some st" by (simp_all add: new)
    then obtain j b e where j: "st < next_stream s" "jm_get (calls s) j = Some b" "holds s b = Some (Some st, e)"
      using inv by (auto simp: cs_inv_def live_ok_def)
    have "j \<noteq> i" using j ne own Some by auto
    with j other show "st < next_stream ?s \<and> (\<exists>i a e. jm_get (calls ?s) i = Some a \<and> holds ?s a = Some (Some st, e))"
      by (auto simp: new)
  qed
  ultimately show ?thesis by (simp add: cs_inv_def)
qed

lemma cs_inv_new:
  assumes inv: "cs_inv s" and "\<not> jm_has (calls s) i" "i \<notin> fst ` set (awaiting s)"
    and "c_local c = None" "\<not> c_ended c"
  shows "cs_inv (c_new i c s)"
proof -
  have view: "view (c_new i c s) = (jm_set i (next_call s) (calls s),
      (\<lambda>b. if b = next_call s then Some (None, False) else holds s b), next_call s + 1, next_stream s, awaiting s, live s)"
    using assms(4,5) by (auto simp: view_def c_new_def holds_def c_obj_def jsmap_simps fun_eq_iff)
  let ?s = "c_new i c s" and ?n = "next_call s"
  have new: "jm_get (calls ?s) j = (if j = i then Some ?n else jm_get (calls s) j)"
    "holds ?s b = (if b = ?n then Some (None, False) else holds s b)" "next_call ?s = ?n + 1"
    "next_stream ?s = next_stream s" "awaiting ?s = awaiting s" "live ?s = live s" for j b
    using view by (auto simp: view_def jsmap_simps fun_eq_iff)
  have free: "(i, a) \<notin> set (awaiting s)" for a using assms(3) by force
  have none: "jm_get (calls s) i = None" using assms(2) by (simp add: jm_has_def)
  have old: "a < ?n" if "jm_get (calls s) j = Some a" for j a
    using inv that unfolding cs_inv_def table_ok_def by blast
  have oldw: "a < ?n" if "(j, a) \<in> set (awaiting s)" for j a
    using inv that unfolding cs_inv_def wait_ok_def by blast
  have "table_ok ?s" using inv old by (fastforce simp: table_ok_def cs_inv_def new)
  moreover have "own_ok ?s" using inv old none by (fastforce simp: own_ok_def cs_inv_def new)
  moreover have "wait_ok ?s"
    using inv free oldw by (auto simp: wait_ok_def cs_inv_def new less_Suc_eq split: if_splits)
  moreover have "live_ok ?s"
    unfolding live_ok_def
  proof
    fix st assume "st \<in> set (live ?s)"
    then obtain j b e where j: "st < next_stream s" "jm_get (calls s) j = Some b" "holds s b = Some (Some st, e)"
      using inv by (auto simp: cs_inv_def live_ok_def new)
    then have "j \<noteq> i" "b \<noteq> ?n" using none old by auto
    with j show "st < next_stream ?s \<and> (\<exists>i a e. jm_get (calls ?s) i = Some a \<and> holds ?s a = Some (Some st, e))"
      by (auto simp: new)
  qed
  ultimately show ?thesis by (simp add: cs_inv_def)
qed

lemma distinct_map_drop_one: "distinct (map f xs) \<Longrightarrow> distinct (map f (take k xs @ drop (Suc k) xs))"
  using set_take_disj_set_drop_if_distinct [of "map f xs" k "Suc k"] by (simp flip: take_map drop_map set_map)

text \<open>The state a settled capture starts from: its entry is gone from the queue.\<close>

lemma awaiting_split:
  assumes "Prelude.at (awaiting s) k = Some (i, a)"
  shows "(i, a) \<in> set (awaiting s)"
    and "set (take k (awaiting s) @ drop (Suc k) (awaiting s)) \<subseteq> set (awaiting s)"
    and "distinct (map snd (awaiting s)) \<Longrightarrow> (j, a) \<notin> set (take k (awaiting s) @ drop (Suc k) (awaiting s))"
proof -
  have k: "k < length (awaiting s)" "awaiting s ! k = (i, a)" using assms by (auto simp: Prelude.at_def split: if_splits)
  then have eq: "awaiting s = take k (awaiting s) @ (i, a) # drop (Suc k) (awaiting s)" by (metis id_take_nth_drop)
  show "(i, a) \<in> set (awaiting s)" using k nth_mem by metis
  show "set (take k (awaiting s) @ drop (Suc k) (awaiting s)) \<subseteq> set (awaiting s)"
    by (auto dest: in_set_takeD in_set_dropD)
  assume "distinct (map snd (awaiting s))"
  then have "distinct (map snd (take k (awaiting s) @ (i, a) # drop (Suc k) (awaiting s)))" using eq by simp
  then show "(j, a) \<notin> set (take k (awaiting s) @ drop (Suc k) (awaiting s))" by force
qed

lemma cs_inv_fewer:
  assumes "cs_inv s" "\<And>x. x \<in> set w \<Longrightarrow> x \<in> set (awaiting s)" "distinct (map fst w)" "distinct (map snd w)"
  shows "cs_inv (s\<lparr>awaiting := w\<rparr>)"
proof -
  have "holds (s\<lparr>awaiting := w\<rparr>) = holds s" by (simp add: holds_def c_obj_def fun_eq_iff)
  then have "wait_ok (s\<lparr>awaiting := w\<rparr>)"
    using assms by (simp add: cs_inv_def wait_ok_def) blast
  with assms(1) show ?thesis by (simp add: cs_inv_defs holds_def c_obj_def)
qed

lemma cs_inv_dequeue:
  assumes "cs_inv s" "Prelude.at (awaiting s) k = Some (i, a)"
  shows "cs_inv (s\<lparr>awaiting := take k (awaiting s) @ drop (Suc k) (awaiting s)\<rparr>)"
proof (rule cs_inv_fewer [OF assms(1)])
  show "x \<in> set (awaiting s)" if "x \<in> set (take k (awaiting s) @ drop (Suc k) (awaiting s))" for x
    using that awaiting_split(2) [OF assms(2)] by blast
qed (use assms(1) in \<open>simp_all add: cs_inv_def wait_ok_def distinct_map_drop_one del: map_append\<close>)

lemma cs_inv_captured:
  assumes inv: "cs_inv s" shows "cs_inv (captured k ok s)"
proof (cases "Prelude.at (awaiting s) k")
  case None
  then show ?thesis using inv by (simp add: captured_def)
next
  case (Some e)
  obtain i a where e: "e = (i, a)" by (cases e)
  have at: "Prelude.at (awaiting s) k = Some (i, a)" using Some e by simp
  let ?s = "s\<lparr>awaiting := take k (awaiting s) @ drop (Suc k) (awaiting s)\<rparr>"
  let ?st = "next_stream s"
  have inv1: "cs_inv ?s" by (rule cs_inv_dequeue [OF inv at])
  let ?s2 = "?s\<lparr>next_stream := ?st + 1, live := live s @ [?st]\<rparr>"
  have wait: "\<exists>e. holds s a = Some (None, e)" "\<And>b. jm_get (calls s) i = Some b \<Longrightarrow> b = a"
    using inv awaiting_split(1) [OF at] unfolding cs_inv_def wait_ok_def by blast+
  have alone: "(j, a) \<notin> set (awaiting ?s)" for j
    using awaiting_split(3) [OF at] inv by (simp add: cs_inv_def wait_ok_def)
  show ?thesis
  proof (cases "ok \<and> \<not> aborted i ?s2")
    case False
    have "view (stopTracks ?st ?s2) = view (?s\<lparr>next_stream := ?st + 1\<rparr>)"
      using inv by (auto simp: view_def stopTracks_def holds_def c_obj_def fun_eq_iff cs_inv_defs intro!: filter_True)
    moreover have "cs_inv (?s\<lparr>next_stream := ?st + 1\<rparr>)"
      using inv1 by (auto simp: cs_inv_defs holds_def c_obj_def less_Suc_eq)
    ultimately have "cs_inv (stopTracks ?st ?s2)" using cs_inv_view by blast
    then show ?thesis
      using False at inv1 by (simp add: captured_def Let_def c_fail_def cs_inv_teardown)
  next
    case True
    then obtain b where b: "jm_get (calls s) i = Some b"
      by (auto simp: aborted_def split: option.splits)
    then have ba: "jm_get (calls s) i = Some a" using wait(2) by simp
    obtain c where c: "c_obj s a = Some c" "c_local c = None" using wait(1) by (auto simp: holds_def)
    let ?t = "captured k ok s"
    have v: "calls ?t = calls s" "holds ?t = (\<lambda>b. if b = a then Some (Some ?st, c_ended c) else holds s b)"
      "next_call ?t = next_call s" "next_stream ?t = ?st + 1" "awaiting ?t = awaiting ?s" "live ?t = live s @ [?st]"
      using True at c
      by (auto simp: captured_def Let_def c_emit_def holds_def c_obj_def c_upd_def jsmap_simps fun_eq_iff
          split: option.splits)
    have ended: "\<not> c_ended c" using inv ba c unfolding cs_inv_def table_ok_def holds_def by fastforce
    have "table_ok ?t" using inv1 ended by (auto simp: cs_inv_def table_ok_def v holds_def c_obj_def)
    moreover have "own_ok ?t" using inv by (simp add: cs_inv_def own_ok_def v)
    moreover have "wait_ok ?t" using inv1 alone by (auto simp: cs_inv_def wait_ok_def v holds_def c_obj_def)
    moreover have "live_ok ?t"
      unfolding live_ok_def
    proof
      fix st assume "st \<in> set (live ?t)"
      then consider "st = ?st" | "st \<in> set (live s)" by (auto simp: v)
      then show "st < next_stream ?t \<and> (\<exists>i a e. jm_get (calls ?t) i = Some a \<and> holds ?t a = Some (Some st, e))"
      proof cases
        case 1
        then show ?thesis using ba by (auto simp: v)
      next
        case 2
        then obtain j b e where j: "st < ?st" "jm_get (calls s) j = Some b" "holds s b = Some (Some st, e)"
          using inv by (auto simp: cs_inv_def live_ok_def)
        have "b \<noteq> a" using j wait(1) by auto
        with j show ?thesis by (auto simp: v)
      qed
    qed
    ultimately show ?thesis by (simp add: cs_inv_def)
  qed
qed

text \<open>
  The discipline under which every capture is accounted for: a call id is not used again, and a call not
  accepted again, while a capture for it is pending, and a call that has its stream is not accepted again.
\<close>

definition pending_capture :: "string \<Rightarrow> call_session \<Rightarrow> bool" where
  "pending_capture i s \<longleftrightarrow> i \<in> fst ` set (awaiting s)"

definition orderly :: "call_op \<Rightarrow> call_session \<Rightarrow> bool" where
  "orderly e s = (case e of
      StartCall i v \<Rightarrow> \<not> pending_capture i s
    | AcceptCall i \<Rightarrow> \<not> pending_capture i s \<and>
        (case jm_get (calls s) i of None \<Rightarrow> True
         | Some a \<Rightarrow> (case c_obj s a of None \<Rightarrow> True | Some c \<Rightarrow> c_local c = None))
    | CallSignal raw \<Rightarrow> (case parseCallSignal raw of Some (CallOffer i v sdp) \<Rightarrow> \<not> pending_capture i s | _ \<Rightarrow> True)
    | _ \<Rightarrow> True)"

fun orderly_run :: "call_op list \<Rightarrow> call_session \<Rightarrow> bool" where
  "orderly_run [] s \<longleftrightarrow> True"
| "orderly_run (e # es) s \<longleftrightarrow> orderly e s \<and> orderly_run es (cs_step e s)"

lemma cs_inv_wait:
  assumes inv: "cs_inv s" and a: "jm_get (calls s) i = Some a" "holds s a = Some (None, e)" and "\<not> pending_capture i s"
  shows "cs_inv (s\<lparr>awaiting := awaiting s @ [(i, a)]\<rparr>)"
proof -
  let ?s = "s\<lparr>awaiting := awaiting s @ [(i, a)]\<rparr>"
  have h: "holds ?s = holds s" by (simp add: holds_def c_obj_def fun_eq_iff)
  have free: "(i, b) \<notin> set (awaiting s)" for b using assms(4) by (force simp: pending_capture_def)
  have "(j, a) \<notin> set (awaiting s)" for j
  proof
    assume j: "(j, a) \<in> set (awaiting s)"
    then have "i = j" using inv a(1) unfolding cs_inv_def wait_ok_def by blast
    with j free show False by blast
  qed
  then have snd: "a \<notin> snd ` set (awaiting s)" by force
  have lt: "a < next_call s" using inv a(1) unfolding cs_inv_def table_ok_def by blast
  have uniq: "j = i" if "jm_get (calls s) j = Some a" for j
    using inv a(1) that unfolding cs_inv_def own_ok_def by blast
  have w: "wait_ok s" using inv by (simp add: cs_inv_def)
  have each: "b < next_call s \<and> (\<exists>e. holds s b = Some (None, e)) \<and>
      (\<forall>j'. jm_get (calls s) j' = Some b \<longrightarrow> j' = j) \<and> (\<forall>b'. jm_get (calls s) j = Some b' \<longrightarrow> b' = b)"
    if "(j, b) \<in> set (awaiting ?s)" for j b
  proof (cases "(j, b) \<in> set (awaiting s)")
    case True
    then show ?thesis using w unfolding wait_ok_def by blast
  next
    case False
    then have "j = i" "b = a" using that by simp_all
    then show ?thesis using a lt by (auto dest: uniq)
  qed
  have dist: "distinct (map fst (awaiting ?s))" "distinct (map snd (awaiting ?s))"
    using w assms(4) snd by (simp_all add: wait_ok_def pending_capture_def)
  have "wait_ok ?s"
    unfolding wait_ok_def h
  proof (intro conjI allI impI)
    fix j b assume m: "(j, b) \<in> set (awaiting ?s)"
    show "b < next_call ?s" "\<exists>e. holds s b = Some (None, e)" using each [OF m] by simp_all
    note back_links = each [OF m, THEN conjunct2, THEN conjunct2]
    show "j' = j" if "jm_get (calls ?s) j' = Some b" for j'
      by (rule back_links [THEN conjunct1, rule_format]) (use that in simp)
    show "b' = b" if "jm_get (calls ?s) j = Some b'" for b'
      by (rule back_links [THEN conjunct2, rule_format]) (use that in simp)
  qed (fact dist)+
  with inv show ?thesis by (simp add: cs_inv_def table_ok_def own_ok_def live_ok_def h)
qed

lemma cs_inv_startCall:
  assumes inv: "cs_inv s" and "\<not> pending_capture i s"
  shows "cs_inv (startCall i v s)"
proof (cases "jm_has (calls s) i")
  case False
  let ?c = "\<lparr> c_pc = None, c_local = None, c_video = v, c_caller = True, c_pendingOffer = None,
      c_pendingIce = [], c_remoteReady = False, c_ended = False \<rparr>"
  let ?s = "c_emit (OnState i Calling) (c_new i ?c s)"
  have ok: "cs_inv ?s" using assms False by (simp add: cs_inv_new pending_capture_def)
  have "jm_get (calls ?s) i = Some (next_call s)" "holds ?s (next_call s) = Some (None, False)" "\<not> pending_capture i ?s"
    using assms(2) by (simp_all add: c_emit_def c_new_def jsmap_simps holds_def c_obj_def pending_capture_def)
  from cs_inv_wait [OF ok this] show ?thesis using False by (simp add: startCall_def Let_def)
qed (use inv in \<open>simp add: startCall_def\<close>)

lemma cs_inv_accept:
  assumes inv: "cs_inv s" and "orderly (AcceptCall i) s"
  shows "cs_inv (c_accept i s)"
proof (cases "c_accept i s = s")
  case False
  then obtain a c where a: "jm_get (calls s) i = Some a" "c_obj s a = Some c"
    and eq: "c_accept i s = s\<lparr>awaiting := awaiting s @ [(i, a)]\<rparr>"
    by (auto simp: c_accept_def split: option.splits if_splits)
  have "holds s a = Some (None, c_ended c)" "\<not> pending_capture i s"
    using a assms(2) by (simp_all add: orderly_def holds_def)
  from cs_inv_wait [OF inv a(1) this] show ?thesis by (simp add: eq)
qed (use inv in simp)

lemma cs_inv_signal:
  assumes inv: "cs_inv s" and ord: "orderly (CallSignal raw) s"
  shows "cs_inv (c_handleSignal raw s)"
proof -
  have ice: "cs_inv (c_upd a (\<lambda>c. c\<lparr>c_pendingIce := c_pendingIce c @ [x]\<rparr>) s)" for a x
  proof -
    have "view (c_upd a (\<lambda>c. c\<lparr>c_pendingIce := c_pendingIce c @ [x]\<rparr>) s) = view s" by (rule view_upd) simp
    then show ?thesis using inv cs_inv_view by blast
  qed
  show ?thesis
    using inv ord ice
    by (auto simp: c_handleSignal_def orderly_def pending_capture_def cs_inv_teardown
        cs_inv_new split: option.split call_signal.split bool.split)
qed

lemma cs_inv_step:
  assumes inv: "cs_inv s" and ord: "orderly e s"
  shows "cs_inv (cs_step e s)"
proof -
  have fail: "cs_inv (c_fail i m s)" for i m using inv by (simp add: c_fail_def cs_inv_teardown)
  have upd: "view (c_upd a (\<lambda>c. c\<lparr>c_remoteReady := True\<rparr>) t) = view t" for a t by (rule view_upd) simp
  have same: "cs_inv t" if "view t = view s" for t using inv cs_inv_view [OF that] by simp
  show ?thesis
  proof (cases e)
    case (CallSignal raw)
    then show ?thesis using cs_inv_signal [OF inv] ord by simp
  next
    case (AcceptCall i)
    then show ?thesis using cs_inv_accept [OF inv] ord by simp
  next
    case (StartCall i v)
    then show ?thesis using cs_inv_startCall [OF inv] ord by (simp add: orderly_def)
  next
    case (Captured k ok)
    then show ?thesis using cs_inv_captured [OF inv] by simp
  next
    case (AnswerArrived i a pc ok)
    have "view (answer_arrived i a pc True s) = view s"
      by (simp add: answer_arrived_def Let_def upd split: option.split)
    then show ?thesis using AnswerArrived fail same by (cases ok) (simp_all add: answer_arrived_def)
  qed (use inv fail in \<open>auto simp: offer_made_def remote_applied_def answer_made_def c_decline_def hangup_def setMicEnabled_def
      setCameraEnabled_def setTrackEnabled_def on_track_def on_connection_state_def on_ice_candidate_def upd
      cs_inv_teardown intro!: same split: option.split\<close>)
qed

lemma cs_inv_run: "cs_inv s \<Longrightarrow> orderly_run es s \<Longrightarrow> cs_inv (cs_run es s)"
  unfolding cs_run_def by (induction es arbitrary: s) (simp_all add: cs_inv_step)

lemma cs_inv_new_cs: "cs_inv new_cs"
  by (simp add: cs_inv_defs new_cs_def)

text \<open>C21.
  No microphone or camera outlives its call, in an orderly run: one that uses no call id again while a
  capture for it is pending, and accepts no call again while its capture is pending or once it has its
  stream. After such a run from a new session every stream whose tracks are still running is the local
  stream of a call in the table that has not ended, so when no call is left nothing is being captured; and
  tearing that call down stops it.
\<close>
theorem captures_are_released:
  assumes "orderly_run es new_cs" and "s = cs_run es new_cs"
  shows "(\<forall>st \<in> set (live s). \<exists>i a c. jm_get (calls s) i = Some a \<and> c_obj s a = Some c \<and> c_local c = Some st \<and>
            \<not> c_ended c \<and> st \<notin> set (live (teardown i s))) \<and>
         (\<not> isActive s \<longrightarrow> live s = [])"
proof -
  have inv: "cs_inv s" using cs_inv_run [OF cs_inv_new_cs assms(1)] assms(2) by simp
  have own: "\<exists>i a c. jm_get (calls s) i = Some a \<and> c_obj s a = Some c \<and> c_local c = Some st \<and> \<not> c_ended c \<and>
      st \<notin> set (live (teardown i s))" if "st \<in> set (live s)" for st
  proof -
    have "live_ok s" using inv by (simp add: cs_inv_def)
    then have "\<exists>i a e. jm_get (calls s) i = Some a \<and> holds s a = Some (Some st, e)"
      using that by (simp add: live_ok_def)
    then obtain i a e where i: "jm_get (calls s) i = Some a" "holds s a = Some (Some st, e)" by blast
    then obtain c where c: "c_obj s a = Some c" "c_local c = Some st" by (auto simp: holds_def)
    have "\<not> c_ended c" using inv i(1) c unfolding cs_inv_def table_ok_def holds_def by fastforce
    moreover have "st \<notin> set (live (teardown i s))"
      using i(1) c by (simp add: teardown_def Let_def stopTracks_def c_emit_def split: option.split)
    ultimately show ?thesis using i(1) c by blast
  qed
  moreover have "live s = []" if "\<not> isActive s"
  proof (rule ccontr)
    assume "live s \<noteq> []"
    then obtain st where "st \<in> set (live s)" by (cases "live s") auto
    with own that show False by (fastforce simp: isActive_def)
  qed
  ultimately show ?thesis by blast
qed

theorem captures_are_released_witness:
  "live (cs_run [StartCall ''x'' True, Captured 0 True] new_cs) = [0] \<and>
   live (cs_run [StartCall ''x'' True, Captured 0 True, Hangup ''x''] new_cs) = []"
proof -
  have "orderly_run [StartCall ''x'' True, Captured 0 True, Hangup ''x''] new_cs"
    "\<not> isActive (cs_run [StartCall ''x'' True, Captured 0 True, Hangup ''x''] new_cs)"
    "live (cs_run [StartCall ''x'' True, Captured 0 True] new_cs) = [0]"
    by (simp_all add: orderly_def pending_capture_def new_cs_def cs_run_def startCall_def captured_def c_new_def c_emit_def c_upd_def
        c_obj_def aborted_def Let_def jsmap_simps hangup_def teardown_def stopTracks_def isActive_def jm_has_def)
  with captures_are_released [OF _ refl, of "[StartCall ''x'' True, Captured 0 True, Hangup ''x'']"]
  show ?thesis by blast
qed

section \<open>A call id reused during capture\<close>

definition demo_call_offer :: json where
  "demo_call_offer = JObj [(''kind'', JStr ''call-offer''), (''id'', JStr ''x''), (''video'', JBool True),
     (''sdp'', JObj [(''type'', JStr ''offer'')])]"

definition demo_call_hangup :: json where
  "demo_call_hangup = JObj [(''kind'', JStr ''call-hangup''), (''id'', JStr ''x'')]"

text \<open>
  The discipline of the previous property is needed: \<open>aborted\<close> looks the id up in the table and not at the call the capture belongs to. A caller that hangs
  up and rings again with the same id while the callee is on the permission prompt makes the first
  \<open>accept\<close> continue on an object that is no longer in the table: its stream and connection stay open
  after the callee has hung up and no call is left.
\<close>
theorem call_id_reuse_leaks_capture:
  "let s = cs_run [CallSignal demo_call_offer, AcceptCall ''x'', CallSignal demo_call_hangup, CallSignal demo_call_offer,
       Captured 0 True, Hangup ''x''] new_cs
   in \<not> isActive s \<and> live s = [0] \<and> PcClose 0 \<notin> set (cevs s) \<and> PcAddTracks 0 0 \<in> set (cevs s)"
proof -
  have "parseCallSignal demo_call_offer = Some (CallOffer ''x'' True (JObj [(''type'', JStr ''offer'')]))"
    "parseCallSignal demo_call_hangup = Some (CallHangup ''x'')"
    by (simp_all add: parseCallSignal_def demo_call_offer_def demo_call_hangup_def json_prop_def as_string_def as_bool_def
        isSdp_def is_object_def)
  then show ?thesis
    by (simp add: new_cs_def cs_run_def c_handleSignal_def c_accept_def captured_def c_new_def c_emit_def c_upd_def
        c_obj_def aborted_def Let_def jsmap_simps hangup_def teardown_def stopTracks_def isActive_def jm_has_def)
qed

section \<open>A call accepted twice\<close>

text \<open>
  The other exclusion is needed too: \<open>accept\<close> does not ask whether the call already has its stream. The
  second capture replaces \<open>call.local\<close> and \<open>call.pc\<close>, and the hangup stops the second stream alone: the
  first one keeps running, and its connection stays open.
\<close>
theorem accepting_again_leaks_capture:
  "let s = cs_run [CallSignal demo_call_offer, AcceptCall ''x'', Captured 0 True, AcceptCall ''x'', Captured 0 True,
       Hangup ''x''] new_cs
   in \<not> isActive s \<and> live s = [0] \<and> PcClose 0 \<notin> set (cevs s) \<and> PcClose 1 \<in> set (cevs s)"
proof -
  have "parseCallSignal demo_call_offer = Some (CallOffer ''x'' True (JObj [(''type'', JStr ''offer'')]))"
    by (simp add: parseCallSignal_def demo_call_offer_def json_prop_def as_string_def as_bool_def isSdp_def is_object_def)
  then show ?thesis
    by (simp add: new_cs_def cs_run_def c_handleSignal_def c_accept_def captured_def c_new_def c_emit_def c_upd_def
        c_obj_def aborted_def Let_def jsmap_simps hangup_def teardown_def stopTracks_def isActive_def jm_has_def)
qed

end
