(* ===== verification/Auth.thy ===== *)
theory Auth
  imports Json
begin

text \<open>
  The account client of \<open>auth.ts\<close>: the hashes that stand for the username and the passphrase, the
  proof of work of a registration, the parsers of the server's answers and \<open>AccountClient\<close>, whose
  methods are split at their one network round trip: \<open>account_begin\<close> is a method up to its request,
  \<open>account_resume\<close> the rest of it once the transport has answered, and between the two every other
  method may run. SHA-256, the Argon2id function and the Unicode case tables are parameters.
\<close>

section \<open>Strings\<close>

text \<open>
  \<open>String.prototype.trim\<close> removes the ECMAScript white space and line terminators at both ends; here
  they are given in UTF-8: tab to carriage return, space, U+00A0, U+1680, U+2000 to U+200A, U+2028,
  U+2029, U+202F, U+205F, U+3000 and U+FEFF.
\<close>

definition ws_chars :: "string list" where
  "ws_chars = map (map char_of)
     ([[9 :: nat], [10], [11], [12], [13], [32], [194, 160], [225, 154, 128]]
      @ map (\<lambda>k. [226, 128, 128 + k]) [0, 1, 2, 3, 4, 5, 6, 7, 8, 9, 10]
      @ [[226, 128, 168], [226, 128, 169], [226, 128, 175], [226, 129, 159], [227, 128, 128], [239, 187, 191]])"

definition starts_with :: "'a list \<Rightarrow> 'a list \<Rightarrow> bool" where
  "starts_with s w \<longleftrightarrow> take (length w) s = w"

function strip_prefixes :: "string list \<Rightarrow> string \<Rightarrow> string" where
  "strip_prefixes ws s =
     (case find (\<lambda>w. w \<noteq> [] \<and> starts_with s w) ws of
        None \<Rightarrow> s
      | Some w \<Rightarrow> strip_prefixes ws (drop (length w) s))"
  by auto
termination
proof (relation "measure (\<lambda>(ws, s). length s)")
  fix ws :: "string list" and s w :: string
  assume "find (\<lambda>w. w \<noteq> [] \<and> starts_with s w) ws = Some w"
  then have "w \<noteq> []" "starts_with s w" by (auto simp: find_Some_iff)
  then have "s \<noteq> []" "w \<noteq> []" by (auto simp: starts_with_def)
  then show "((ws, drop (length w) s), ws, s) \<in> measure (\<lambda>(ws, s). length s)"
    by (cases s; cases w) auto
qed simp

declare strip_prefixes.simps [simp del]

definition js_trim :: "string \<Rightarrow> string" where
  "js_trim s = rev (strip_prefixes (map rev ws_chars) (rev (strip_prefixes ws_chars s)))"

definition ascii_lower :: "char \<Rightarrow> char" where
  "ascii_lower c = (let n = (of_char c :: nat) in if 65 \<le> n \<and> n \<le> 90 then char_of (n + 32) else c)"

text \<open>
  What the client takes from its surroundings: the digest of the browser, and \<open>toLowerCase\<close> on
  strings that are not ASCII, which reads the Unicode tables of the engine.
\<close>

record account_env =
  sha256 :: "bytes \<Rightarrow> bytes"
  unicode_lower :: "string \<Rightarrow> string"

definition toLowerCase :: "account_env \<Rightarrow> string \<Rightarrow> string" where
  "toLowerCase env s = (if is_ascii s then map ascii_lower s else unicode_lower env s)"

definition normalizeUsername :: "account_env \<Rightarrow> string \<Rightarrow> string" where
  "normalizeUsername env username = toLowerCase env (js_trim username)"

text \<open>\<open>String(n)\<close> for a natural number.\<close>

fun decimal :: "nat \<Rightarrow> string" where
  "decimal n = (if n < 10 then [char_of (48 + n)] else decimal (n div 10) @ [char_of (48 + n mod 10)])"

declare decimal.simps [simp del]

section \<open>What crosses the wire instead of the credentials\<close>

definition DOMAIN_TAG :: string where
  "DOMAIN_TAG = ''deaddrop-account-v1''"

definition US :: string where
  "US = [char_of (31 :: nat)]"

definition sha256HexOf :: "account_env \<Rightarrow> bytes \<Rightarrow> string" where
  "sha256HexOf env bs = bytesToHex (sha256 env bs)"

definition sha256Hex :: "account_env \<Rightarrow> string \<Rightarrow> string" where
  "sha256Hex env input = bytesToHex (sha256 env (TextEncoder_encode input))"

definition deriveUsernameHash :: "account_env \<Rightarrow> string \<Rightarrow> string" where
  "deriveUsernameHash env username =
     sha256Hex env (DOMAIN_TAG @ US @ ''user'' @ US @ normalizeUsername env username)"

definition deriveAuthSecret :: "account_env \<Rightarrow> string \<Rightarrow> string \<Rightarrow> string" where
  "deriveAuthSecret env username passphrase =
     sha256Hex env (DOMAIN_TAG @ US @ ''auth'' @ US @ normalizeUsername env username @ US @ passphrase)"

text \<open>The memory-hard function of the wasm module: credential and salt to a key, or a rejection.\<close>

type_synonym memory_hard_kdf = "string \<Rightarrow> bytes \<Rightarrow> bytes option"

definition authSaltV2 :: "account_env \<Rightarrow> string \<Rightarrow> bytes" where
  "authSaltV2 env username =
     hexToBytes (sha256Hex env (DOMAIN_TAG @ US @ ''authsalt-v2'' @ US @ normalizeUsername env username))"

definition deriveAuthSecretV2 :: "account_env \<Rightarrow> string \<Rightarrow> string \<Rightarrow> memory_hard_kdf \<Rightarrow> string option" where
  "deriveAuthSecretV2 env username passphrase kd =
     (case kd passphrase (authSaltV2 env username) of
        None \<Rightarrow> None
      | Some key \<Rightarrow>
          (let tagged = TextEncoder_encode (DOMAIN_TAG @ US @ ''authv2'' @ US) in
           Some (sha256HexOf env (tagged @ key))))"

section \<open>Proof of work\<close>

text \<open>The loop over the characters; \<open>parseInt\<close> of a character that is no digit is \<open>NaN\<close>, which fails
  every comparison.\<close>

fun leadingZeroBits_from :: "nat \<Rightarrow> string \<Rightarrow> nat" where
  "leadingZeroBits_from bits [] = bits"
| "leadingZeroBits_from bits (ch # rest) =
     (case parseInt16 [ch] of
        None \<Rightarrow> bits + 3
      | Some v \<Rightarrow>
          if v = 0 then leadingZeroBits_from (bits + 4) rest
          else bits + (if 8 \<le> v then 0 else if 4 \<le> v then 1 else if 2 \<le> v then 2 else 3))"

definition leadingZeroBits :: "string \<Rightarrow> nat" where
  "leadingZeroBits hex = leadingZeroBits_from 0 hex"

definition MAX_TRIES :: nat where
  "MAX_TRIES = 4194304"

text \<open>One attempt, and the \<open>for\<close> loop from counter \<open>n\<close>. Yielding to the event loop changes nothing.\<close>

definition pow_ok :: "account_env \<Rightarrow> string \<Rightarrow> rat \<Rightarrow> nat \<Rightarrow> bool" where
  "pow_ok env challenge bits n \<longleftrightarrow> bits \<le> of_nat (leadingZeroBits (sha256Hex env (challenge @ US @ decimal n)))"

function pow_loop :: "account_env \<Rightarrow> string \<Rightarrow> rat \<Rightarrow> nat \<Rightarrow> string" where
  "pow_loop env challenge bits n =
     (if n < MAX_TRIES then
        (if pow_ok env challenge bits n then decimal n else pow_loop env challenge bits (n + 1))
      else ''0'')"
  by auto
termination
  by (relation "measure (\<lambda>(env, challenge, bits, n). MAX_TRIES - n)") auto

declare pow_loop.simps [simp del]

definition solveProofOfWork :: "account_env \<Rightarrow> string \<Rightarrow> rat \<Rightarrow> string" where
  "solveProofOfWork env challenge bits = (if bits \<le> 0 then ''0'' else pow_loop env challenge bits 0)"

definition contactFromIdentityKey :: "string \<Rightarrow> string" where
  "contactFromIdentityKey identityKey = ''deaddrop'' @ '':'' @ ''1'' @ '':'' @ identityKey @ '':'' @ identityKey"

section \<open>The server's answers\<close>

definition as_array :: "json option \<Rightarrow> json list option" where
  "as_array v = (case v of Some (JArr xs) \<Rightarrow> Some xs | _ \<Rightarrow> None)"

definition is_true :: "json option \<Rightarrow> bool" where
  "is_true v \<longleftrightarrow> v = Some (JBool True)"

text \<open>The tests \<open>/^[0-9a-f]+$/\<close> and \<open>/^[0-9a-f]{280}$/\<close>.\<close>

definition is_lower_hex :: "char \<Rightarrow> bool" where
  "is_lower_hex c \<longleftrightarrow> (let n = (of_char c :: nat) in (48 \<le> n \<and> n \<le> 57) \<or> (97 \<le> n \<and> n \<le> 102))"

definition lower_hex_string :: "string \<Rightarrow> bool" where
  "lower_hex_string s \<longleftrightarrow> s \<noteq> [] \<and> list_all is_lower_hex s"

definition record_hex :: "string \<Rightarrow> bool" where
  "record_hex s \<longleftrightarrow> length s = 280 \<and> list_all is_lower_hex s"

record device_info =
  di_deviceId :: string
  di_deviceKey :: string
  di_addedAt :: rat
  di_lastSeenAt :: rat
  di_revoked :: bool
  di_current :: bool
  di_authorized :: bool

record peer_device =
  pd_deviceKey :: string
  pd_keyPackage :: bytes
  pd_lastResort :: bool

definition parsePeerDevice :: "json \<Rightarrow> peer_device option" where
  "parsePeerDevice d =
     (if \<not> is_object d then None
      else case (as_string (json_prop d ''deviceKey''), as_string (json_prop d ''keyPackage'')) of
          (Some dk, Some kp) \<Rightarrow>
            if \<not> lower_hex_string kp \<or> length kp mod 2 \<noteq> 0 then None
            else Some \<lparr>pd_deviceKey = dk, pd_keyPackage = hexToBytes kp,
                       pd_lastResort = is_true (json_prop d ''lastResort'')\<rparr>
        | _ \<Rightarrow> None)"

definition number_or_0 :: "json option \<Rightarrow> rat" where
  "number_or_0 v = (case as_number v of Some n \<Rightarrow> n | None \<Rightarrow> 0)"

definition parseDevice :: "json \<Rightarrow> device_info option" where
  "parseDevice d =
     (if \<not> is_object d then None
      else case (as_string (json_prop d ''deviceId''), as_string (json_prop d ''deviceKey'')) of
          (Some di, Some dk) \<Rightarrow>
            Some \<lparr>di_deviceId = di, di_deviceKey = dk,
                  di_addedAt = number_or_0 (json_prop d ''addedAt''),
                  di_lastSeenAt = number_or_0 (json_prop d ''lastSeenAt''),
                  di_revoked = is_true (json_prop d ''revoked''),
                  di_current = is_true (json_prop d ''current''),
                  di_authorized = is_true (json_prop d ''authorized'')\<rparr>
        | _ \<Rightarrow> None)"

definition parseRecords :: "json option \<Rightarrow> string list" where
  "parseRecords v =
     (case as_array v of
        None \<Rightarrow> []
      | Some xs \<Rightarrow> filter record_hex (List.map_filter (\<lambda>r. as_string (Some r)) xs))"

section \<open>Requests and answers\<close>

text \<open>
  One control-plane request is a path with a JSON object; \<open>httpAccountTransport\<close> turns it into a POST
  without ambient credentials and reads the answer, an unreadable body counting as the empty object.
\<close>

type_synonym request = "string \<times> (string \<times> json) list"

record http_post =
  hp_url :: string
  hp_method :: string
  hp_content_type :: string
  hp_body :: json
  hp_credentials :: string
  hp_cache :: string

definition httpAccountTransport_request :: "string \<Rightarrow> request \<Rightarrow> http_post" where
  "httpAccountTransport_request baseUrl rq =
     \<lparr>hp_url = baseUrl @ fst rq, hp_method = ''POST'', hp_content_type = ''application/json'',
      hp_body = JObj (snd rq), hp_credentials = ''omit'', hp_cache = ''no-store''\<rparr>"

text \<open>What \<open>send\<close> yields: the rejection of \<open>fetch\<close>, or the status and the body.\<close>

type_synonym answer = "js_error + nat \<times> json"

definition httpAccountTransport_answer :: "js_error + nat \<times> json option \<Rightarrow> answer" where
  "httpAccountTransport_answer res =
     (case res of
        Inl e \<Rightarrow> Inl e
      | Inr (status, parsed) \<Rightarrow> Inr (status, case parsed of None \<Rightarrow> JObj [] | Some v \<Rightarrow> v))"

text \<open>\<open>body[k]\<close>: a JSON body \<open>null\<close> is passed on by the transport, and reading from it throws.\<close>

definition body_at :: "json \<Rightarrow> string \<Rightarrow> json option result" where
  "body_at body k = (if body = JNull then Inl TypeError else Inr (json_prop body k))"

section \<open>The client\<close>

record account_client =
  token :: "string option"
  kdf :: "memory_hard_kdf option"

definition new_AccountClient :: account_client where
  "new_AccountClient = \<lparr>token = None, kdf = None\<rparr>"

definition useStrongKdf :: "memory_hard_kdf \<Rightarrow> account_client \<Rightarrow> account_client" where
  "useStrongKdf kd c = c\<lparr>kdf := Some kd\<rparr>"

definition hasSession :: "account_client \<Rightarrow> bool" where
  "hasSession c \<longleftrightarrow> token c \<noteq> None"

definition clearSession :: "account_client \<Rightarrow> account_client" where
  "clearSession c = c\<lparr>token := None\<rparr>"

definition deriveV2 :: "account_env \<Rightarrow> account_client \<Rightarrow> string \<Rightarrow> string \<Rightarrow> string option" where
  "deriveV2 env c username passphrase =
     (case kdf c of None \<Rightarrow> None | Some kd \<Rightarrow> deriveAuthSecretV2 env username passphrase kd)"

text \<open>\<open>...(authSecretV2 !== null ? { authSecretV2 } : {})\<close>\<close>

definition opt_field :: "string \<Rightarrow> json option \<Rightarrow> (string \<times> json) list" where
  "opt_field k v = (case v of None \<Rightarrow> [] | Some x \<Rightarrow> [(k, x)])"

text \<open>
  \<open>solveRegistrationWork\<close> once its challenge request is answered: \<open>Inl\<close> is the
  \<open>challenge-unavailable\<close> error, \<open>Inr None\<close> registers without a proof.
\<close>

definition solveRegistrationWork :: "account_env \<Rightarrow> answer \<Rightarrow> json option result" where
  "solveRegistrationWork env a =
     (case a of
        Inl _ \<Rightarrow> Inr None
      | Inr (status, body) \<Rightarrow>
          if status = 404 then Inr None
          else if status \<noteq> 200 then Inl (JsError ''challenge-unavailable'')
          else if body = JNull then Inr None
          else case (as_string (json_prop body ''challenge''), as_string (json_prop body ''mac'')) of
              (Some challenge, Some mac) \<Rightarrow>
                (let bits = number_or_0 (json_prop body ''bits'');
                     nonce = solveProofOfWork env challenge bits in
                 Inr (Some (JObj ([(''challenge'', JStr challenge), (''mac'', JStr mac)]
                                  @ opt_field ''expiresAt'' (json_prop body ''expiresAt'')
                                  @ [(''nonce'', JStr nonce)]))))
            | _ \<Rightarrow> Inl (JsError ''challenge-unavailable''))"

record register_result =
  rr_ok :: bool
  rr_taken :: "bool option"
  rr_error :: "string option"

record auth_result =
  ar_ok :: bool
  ar_error :: "string option"

record enroll_result =
  er_ok :: bool
  er_deviceId :: "string option"
  er_revoked :: "bool option"
  er_error :: "string option"

record device_list_result =
  dl_ok :: bool
  dl_devices :: "device_info list option"
  dl_accountEpoch :: "int option"
  dl_revocations :: "string list option"
  dl_error :: "string option"

record take_keys_result =
  tk_ok :: bool
  tk_devices :: "peer_device list option"
  tk_error :: "string option"

definition auth_okay :: auth_result where
  "auth_okay = \<lparr>ar_ok = True, ar_error = None\<rparr>"

definition auth_fail :: "string \<Rightarrow> auth_result" where
  "auth_fail e = \<lparr>ar_ok = False, ar_error = Some e\<rparr>"

definition LOG_IN_FIRST :: string where
  "LOG_IN_FIRST = ''log in first''"

definition EXPIRED :: string where
  "EXPIRED = ''your session expired, log in again''"

definition UNREACHABLE :: string where
  "UNREACHABLE = ''could not reach the account server''"

text \<open>\<open>this.token\<close> as it goes into a request body.\<close>

definition token_json :: "account_client \<Rightarrow> json" where
  "token_json c = (case token c of None \<Rightarrow> JNull | Some t \<Rightarrow> JStr t)"

text \<open>\<open>this.token = typeof body['token'] === 'string' ? body['token'] : null\<close>, then a result.\<close>

definition adopt_token :: "json \<Rightarrow> 'a \<Rightarrow> account_client \<Rightarrow> account_client \<times> 'a result" where
  "adopt_token body r c =
     (case body_at body ''token'' of
        Inl e \<Rightarrow> (c, Inl e)
      | Inr v \<Rightarrow> (c\<lparr>token := as_string v\<rparr>, Inr r))"

subsection \<open>register and login\<close>

type_synonym secrets = "string \<times> string \<times> string option"

definition account_secrets :: "account_env \<Rightarrow> account_client \<Rightarrow> string \<Rightarrow> string \<Rightarrow> secrets" where
  "account_secrets env c username passphrase =
     (deriveUsernameHash env username, deriveAuthSecret env username passphrase,
      deriveV2 env c username passphrase)"

definition challenge_request :: request where
  "challenge_request = (''/api/challenge'', [])"

definition register_request :: "secrets \<Rightarrow> string \<Rightarrow> json option \<Rightarrow> request" where
  "register_request s identityKey pow =
     (case s of (usernameHash, authSecret, authSecretV2) \<Rightarrow>
        (''/api/register'',
         [(''usernameHash'', JStr usernameHash), (''authSecret'', JStr authSecret),
          (''identityKey'', JStr identityKey)]
         @ opt_field ''authSecretV2'' (map_option JStr authSecretV2)
         @ opt_field ''pow'' pow))"

text \<open>\<open>register\<close> once the challenge is answered and solved: a result at once, or the second request.\<close>

definition register_challenged :: "account_env \<Rightarrow> secrets \<Rightarrow> string \<Rightarrow> answer \<Rightarrow> register_result + request" where
  "register_challenged env s identityKey a =
     (case solveRegistrationWork env a of
        Inl e \<Rightarrow>
          Inl \<lparr>rr_ok = False, rr_taken = None,
               rr_error = Some (if e = JsError ''challenge-unavailable''
                                then ''the account server is not ready to accept new accounts, try again''
                                else UNREACHABLE)\<rparr>
      | Inr pow \<Rightarrow> Inr (register_request s identityKey pow))"

definition register_answered :: "answer \<Rightarrow> account_client \<Rightarrow> account_client \<times> register_result result" where
  "register_answered a c =
     (case a of
        Inl e \<Rightarrow> (c, Inl e)
      | Inr (status, body) \<Rightarrow>
          if status = 201 then adopt_token body \<lparr>rr_ok = True, rr_taken = None, rr_error = None\<rparr> c
          else if status = 409 then
            (c, Inr \<lparr>rr_ok = False, rr_taken = Some True, rr_error = Some ''that username is already taken''\<rparr>)
          else (c, Inr \<lparr>rr_ok = False, rr_taken = None, rr_error = Some UNREACHABLE\<rparr>))"

definition login_request :: "secrets \<Rightarrow> request" where
  "login_request s =
     (case s of (usernameHash, authSecret, authSecretV2) \<Rightarrow>
        (''/api/login'',
         [(''usernameHash'', JStr usernameHash), (''authSecret'', JStr authSecret)]
         @ opt_field ''authSecretV2'' (map_option JStr authSecretV2)))"

definition login_answered :: "answer \<Rightarrow> account_client \<Rightarrow> account_client \<times> auth_result result" where
  "login_answered a c =
     (case a of
        Inl e \<Rightarrow> (c, Inl e)
      | Inr (status, body) \<Rightarrow>
          if status = 200 then adopt_token body auth_okay c
          else if status = 401 then (c, Inr (auth_fail ''wrong username or passphrase''))
          else (c, Inr (auth_fail UNREACHABLE)))"

subsection \<open>Devices\<close>

definition enroll_fail :: "string \<Rightarrow> enroll_result" where
  "enroll_fail e = \<lparr>er_ok = False, er_deviceId = None, er_revoked = None, er_error = Some e\<rparr>"

definition enrollDeviceWithSecret :: "string \<Rightarrow> string \<Rightarrow> account_client \<Rightarrow> enroll_result + request" where
  "enrollDeviceWithSecret authSecret deviceKey c =
     (if token c = None then Inl (enroll_fail LOG_IN_FIRST)
      else Inr (''/api/add-device'',
                [(''token'', token_json c), (''authSecret'', JStr authSecret), (''deviceKey'', JStr deviceKey)]))"

definition enroll_answered :: "answer \<Rightarrow> account_client \<Rightarrow> account_client \<times> enroll_result result" where
  "enroll_answered a c =
     (case a of
        Inl e \<Rightarrow> (c, Inl e)
      | Inr (status, body) \<Rightarrow>
          if status = 201 \<or> status = 200 then
            (c, case body_at body ''deviceId'' of
                  Inl e \<Rightarrow> Inl e
                | Inr v \<Rightarrow> Inr \<lparr>er_ok = True, er_deviceId = as_string v, er_revoked = None, er_error = None\<rparr>)
          else if status = 409 then
            (c, case body_at body ''error'' of
                  Inl e \<Rightarrow> Inl e
                | Inr v \<Rightarrow>
                    (let revoked = (as_string v = Some ''device_revoked'') in
                     Inr \<lparr>er_ok = False, er_deviceId = None, er_revoked = Some revoked,
                          er_error = Some (if revoked then ''this device was revoked''
                                           else ''this device key is already in use'')\<rparr>))
          else if status = 401 then (clearSession c, Inr (enroll_fail EXPIRED))
          else (c, Inr (enroll_fail UNREACHABLE)))"

definition list_fail :: "string \<Rightarrow> device_list_result" where
  "list_fail e = \<lparr>dl_ok = False, dl_devices = None, dl_accountEpoch = None, dl_revocations = None,
                  dl_error = Some e\<rparr>"

definition listDevices :: "account_client \<Rightarrow> device_list_result + request" where
  "listDevices c =
     (if token c = None then Inl (list_fail LOG_IN_FIRST)
      else Inr (''/api/list-devices'', [(''token'', token_json c)]))"

definition parse_epoch :: "json option \<Rightarrow> int option" where
  "parse_epoch v = (case as_number v of Some n \<Rightarrow> if 0 \<le> n then Some \<lfloor>n\<rfloor> else None | None \<Rightarrow> None)"

definition list_fallback :: "nat \<Rightarrow> account_client \<Rightarrow> account_client \<times> device_list_result result" where
  "list_fallback status c =
     (if status = 401 then (clearSession c, Inr (list_fail EXPIRED))
      else (c, Inr (list_fail ''could not load your devices'')))"

definition listDevices_answered :: "answer \<Rightarrow> account_client \<Rightarrow> account_client \<times> device_list_result result" where
  "listDevices_answered a c =
     (case a of
        Inl e \<Rightarrow> (c, Inl e)
      | Inr (status, body) \<Rightarrow>
          if status = 200 then
            (case body_at body ''devices'' of
               Inl e \<Rightarrow> (c, Inl e)
             | Inr v \<Rightarrow>
                 (case as_array v of
                    Some xs \<Rightarrow>
                      (c, Inr \<lparr>dl_ok = True, dl_devices = Some (List.map_filter parseDevice xs),
                               dl_accountEpoch = parse_epoch (json_prop body ''accountEpoch''),
                               dl_revocations = Some (parseRecords (json_prop body ''revocations'')),
                               dl_error = None\<rparr>)
                  | None \<Rightarrow> list_fallback status c))
          else list_fallback status c)"

definition revokeDevice :: "string \<Rightarrow> string option \<Rightarrow> account_client \<Rightarrow> auth_result + request" where
  "revokeDevice deviceId rec c =
     (if token c = None then Inl (auth_fail LOG_IN_FIRST)
      else Inr (''/api/revoke-device'',
                [(''token'', token_json c), (''deviceId'', JStr deviceId)]
                @ opt_field ''record'' (map_option JStr rec)))"

definition revokeDevice_answered :: "answer \<Rightarrow> account_client \<Rightarrow> account_client \<times> auth_result result" where
  "revokeDevice_answered a c =
     (case a of
        Inl e \<Rightarrow> (c, Inl e)
      | Inr (status, _) \<Rightarrow>
          if status = 200 then (c, Inr auth_okay)
          else if status = 404 then (c, Inr (auth_fail ''that device is no longer on your account''))
          else if status = 401 then (clearSession c, Inr (auth_fail EXPIRED))
          else (c, Inr (auth_fail ''could not revoke that device'')))"

definition revocations :: "account_client \<Rightarrow> string list + request" where
  "revocations c =
     (if token c = None then Inl [] else Inr (''/api/revocations'', [(''token'', token_json c)]))"

definition revocations_answered :: "answer \<Rightarrow> string list result" where
  "revocations_answered a =
     (case a of
        Inl e \<Rightarrow> Inl e
      | Inr (status, body) \<Rightarrow>
          if status = 200 then
            (case body_at body ''revocations'' of Inl e \<Rightarrow> Inl e | Inr v \<Rightarrow> Inr (parseRecords v))
          else Inr [])"

definition deleteAccount :: "account_client \<Rightarrow> auth_result + request" where
  "deleteAccount c =
     (if token c = None then Inl (auth_fail LOG_IN_FIRST)
      else Inr (''/api/delete-account'', [(''token'', token_json c)]))"

definition deleteAccount_answered :: "answer \<Rightarrow> account_client \<Rightarrow> account_client \<times> auth_result result" where
  "deleteAccount_answered a c =
     (case a of
        Inl e \<Rightarrow> (c, Inl e)
      | Inr (status, _) \<Rightarrow>
          if status = 200 then (clearSession c, Inr auth_okay)
          else if status = 401 then (clearSession c, Inr (auth_fail EXPIRED))
          else (c, Inr (auth_fail ''could not delete the account'')))"

subsection \<open>Key packages\<close>

text \<open>\<open>publishKeys\<close> hashes every package before its request; the token is read again when it is sent.\<close>

definition key_package_entry :: "account_env \<Rightarrow> bool \<Rightarrow> bytes \<Rightarrow> json" where
  "key_package_entry env lastResort kp =
     JObj [(''keyPackage'', JStr (bytesToHex kp)), (''ref'', JStr (sha256HexOf env kp)),
           (''lastResort'', JBool lastResort)]"

definition publishKeys :: "account_env \<Rightarrow> bytes list \<Rightarrow> bytes \<Rightarrow> account_client \<Rightarrow> auth_result + json list" where
  "publishKeys env oneTime lastResort c =
     (if token c = None then Inl (auth_fail LOG_IN_FIRST)
      else Inr (map (key_package_entry env False) oneTime @ [key_package_entry env True lastResort]))"

definition publishKeys_request :: "json list \<Rightarrow> account_client \<Rightarrow> request" where
  "publishKeys_request keyPackages c =
     (''/api/publish-keys'', [(''token'', token_json c), (''keyPackages'', JArr keyPackages)])"

definition publishKeys_answered :: "answer \<Rightarrow> account_client \<Rightarrow> account_client \<times> auth_result result" where
  "publishKeys_answered a c =
     (case a of
        Inl e \<Rightarrow> (c, Inl e)
      | Inr (status, _) \<Rightarrow>
          if status = 201 then (c, Inr auth_okay)
          else if status = 401 then (clearSession c, Inr (auth_fail EXPIRED))
          else (c, Inr (auth_fail ''could not publish keys'')))"

text \<open>
  The directory reads \<open>takeKeys\<close>, \<open>lookupAway\<close> and \<open>getPresence\<close> test the token, hash the username
  and then send; \<open>hashed_request\<close> is the request they all make.
\<close>

definition hashed_request :: "string \<Rightarrow> string \<Rightarrow> account_client \<Rightarrow> request" where
  "hashed_request path usernameHash c =
     (path, [(''token'', token_json c), (''usernameHash'', JStr usernameHash)])"

definition keys_fail :: "string \<Rightarrow> take_keys_result" where
  "keys_fail e = \<lparr>tk_ok = False, tk_devices = None, tk_error = Some e\<rparr>"

definition takeKeys :: "account_env \<Rightarrow> string \<Rightarrow> account_client \<Rightarrow> take_keys_result + string" where
  "takeKeys env username c =
     (if token c = None then Inl (keys_fail LOG_IN_FIRST) else Inr (deriveUsernameHash env username))"

definition keys_fallback :: "nat \<Rightarrow> account_client \<Rightarrow> account_client \<times> take_keys_result result" where
  "keys_fallback status c =
     (if status = 401 then (clearSession c, Inr (keys_fail EXPIRED))
      else if status = 404 then (c, Inr (keys_fail ''no user by that name''))
      else (c, Inr (keys_fail UNREACHABLE)))"

definition takeKeys_answered :: "answer \<Rightarrow> account_client \<Rightarrow> account_client \<times> take_keys_result result" where
  "takeKeys_answered a c =
     (case a of
        Inl e \<Rightarrow> (c, Inl e)
      | Inr (status, body) \<Rightarrow>
          if status = 200 then
            (case body_at body ''devices'' of
               Inl e \<Rightarrow> (c, Inl e)
             | Inr v \<Rightarrow>
                 (case as_array v of
                    Some xs \<Rightarrow>
                      (c, Inr \<lparr>tk_ok = True, tk_devices = Some (List.map_filter parsePeerDevice xs),
                               tk_error = None\<rparr>)
                  | None \<Rightarrow> keys_fallback status c))
          else keys_fallback status c)"

subsection \<open>Away and presence\<close>

definition setAway :: "string \<Rightarrow> account_client \<Rightarrow> auth_result + request" where
  "setAway txt c =
     (if token c = None then Inl (auth_fail LOG_IN_FIRST)
      else Inr (''/api/set-away'', [(''token'', token_json c), (''awayText'', JStr txt)]))"

definition setAway_answered :: "answer \<Rightarrow> account_client \<Rightarrow> account_client \<times> auth_result result" where
  "setAway_answered a c =
     (case a of
        Inl e \<Rightarrow> (c, Inl e)
      | Inr (status, _) \<Rightarrow>
          if status = 200 then (c, Inr auth_okay)
          else if status = 401 then (clearSession c, Inr (auth_fail EXPIRED))
          else (c, Inr (auth_fail UNREACHABLE)))"

definition clearAway :: "account_client \<Rightarrow> auth_result + request" where
  "clearAway c = setAway '''' c"

text \<open>The best-effort methods: \<open>None\<close> is the early return without a request.\<close>

definition awayBeat :: "account_client \<Rightarrow> request option" where
  "awayBeat c = (if token c = None then None else Some (''/api/away-beat'', [(''token'', token_json c)]))"

definition setPresence :: "string \<Rightarrow> account_client \<Rightarrow> request option" where
  "setPresence status c =
     (if token c = None then None
      else Some (''/api/set-presence'', [(''token'', token_json c), (''status'', JStr status)]))"

definition clearPresence :: "account_client \<Rightarrow> request option" where
  "clearPresence c =
     (if token c = None then None else Some (''/api/clear-presence'', [(''token'', token_json c)]))"

definition lookupAway :: "account_env \<Rightarrow> string \<Rightarrow> account_client \<Rightarrow> string option" where
  "lookupAway env username c = (if token c = None then None else Some (deriveUsernameHash env username))"

definition lookupAway_answered :: "answer \<Rightarrow> string option result" where
  "lookupAway_answered a =
     (case a of
        Inl e \<Rightarrow> Inl e
      | Inr (status, body) \<Rightarrow>
          if status = 200 then
            (case body_at body ''away'' of Inl e \<Rightarrow> Inl e | Inr v \<Rightarrow> Inr (as_string v))
          else Inr None)"

definition getPresence :: "account_env \<Rightarrow> string \<Rightarrow> account_client \<Rightarrow> string + string" where
  "getPresence env username c =
     (if token c = None then Inl ''offline'' else Inr (deriveUsernameHash env username))"

definition getPresence_answered :: "answer \<Rightarrow> string result" where
  "getPresence_answered a =
     (case a of
        Inl e \<Rightarrow> Inl e
      | Inr (status, body) \<Rightarrow>
          if status = 200 then
            (case body_at body ''status'' of
               Inl e \<Rightarrow> Inl e
             | Inr v \<Rightarrow> Inr (case as_string v of Some s \<Rightarrow> s | None \<Rightarrow> ''offline''))
          else Inr ''offline'')"

section \<open>Calls in flight\<close>

text \<open>
  The client as its callers see it: calls begin, wait for digests or for the server, and are resumed in
  any order. \<open>sent\<close> is every request made and \<open>issued\<close> every token the server has handed out, both
  for stating properties; \<open>outcomes\<close> records what the calls returned.
\<close>

datatype account_call =
    CRegister string string string
  | CLogin string string
  | CEnroll string string string
  | CEnrollWithSecret string string
  | CListDevices
  | CRevokeDevice string "string option"
  | CRevocations
  | CDeleteAccount
  | CPublishKeys "bytes list" bytes
  | CTakeKeys string
  | CSetAway string
  | CClearAway
  | CAwayBeat
  | CLookupAway string
  | CSetPresence string
  | CClearPresence
  | CGetPresence string

datatype waiting =
    WChallenge secrets string
  | WRegister
  | WDeriveLogin secrets
  | WLogin
  | WDeriveEnroll string string
  | WEnroll
  | WListDevices
  | WRevokeDevice
  | WRevocations
  | WDeleteAccount
  | WHashPackages "json list"
  | WPublishKeys
  | WHashTakeKeys string
  | WTakeKeys
  | WSetAway
  | WHashLookupAway string
  | WLookupAway
  | WHashGetPresence string
  | WGetPresence
  | WIgnore

datatype outcome =
    ORegister register_result
  | OAuth auth_result
  | OEnroll enroll_result
  | OList device_list_result
  | ORevocations "string list"
  | OKeys take_keys_result
  | OAway "string option"
  | OPresence string
  | OUnit
  | OThrow js_error

record accounts =
  client :: account_client
  pending :: "waiting list"
  sent :: "request list"
  issued :: "string list"
  outcomes :: "outcome list"

definition new_accounts :: accounts where
  "new_accounts = \<lparr>client = new_AccountClient, pending = [], sent = [], issued = [], outcomes = []\<rparr>"

text \<open>What a stretch of a method does: wait for a digest, send and wait, or settle.\<close>

datatype progress = Hashing waiting | Sending request waiting | Settled outcome

definition finish_or_send :: "('a \<Rightarrow> outcome) \<Rightarrow> waiting \<Rightarrow> 'a + request \<Rightarrow> progress" where
  "finish_or_send f w x = (case x of Inl r \<Rightarrow> Settled (f r) | Inr rq \<Rightarrow> Sending rq w)"

definition finish_or_hash :: "('a \<Rightarrow> outcome) \<Rightarrow> ('b \<Rightarrow> waiting) \<Rightarrow> 'a + 'b \<Rightarrow> progress" where
  "finish_or_hash f w x = (case x of Inl r \<Rightarrow> Settled (f r) | Inr h \<Rightarrow> Hashing (w h))"

definition send_or_return :: "request option \<Rightarrow> progress" where
  "send_or_return x = (case x of None \<Rightarrow> Settled OUnit | Some rq \<Rightarrow> Sending rq WIgnore)"

definition account_begin :: "account_env \<Rightarrow> account_call \<Rightarrow> account_client \<Rightarrow> progress" where
  "account_begin env call c =
     (case call of
        CRegister u p idk \<Rightarrow> Sending challenge_request (WChallenge (account_secrets env c u p) idk)
      | CLogin u p \<Rightarrow> Hashing (WDeriveLogin (account_secrets env c u p))
      | CEnroll u p dk \<Rightarrow> Hashing (WDeriveEnroll (deriveAuthSecret env u p) dk)
      | CEnrollWithSecret s dk \<Rightarrow> finish_or_send OEnroll WEnroll (enrollDeviceWithSecret s dk c)
      | CListDevices \<Rightarrow> finish_or_send OList WListDevices (listDevices c)
      | CRevokeDevice d r \<Rightarrow> finish_or_send OAuth WRevokeDevice (revokeDevice d r c)
      | CRevocations \<Rightarrow> finish_or_send ORevocations WRevocations (revocations c)
      | CDeleteAccount \<Rightarrow> finish_or_send OAuth WDeleteAccount (deleteAccount c)
      | CPublishKeys ks l \<Rightarrow> finish_or_hash OAuth WHashPackages (publishKeys env ks l c)
      | CTakeKeys u \<Rightarrow> finish_or_hash OKeys WHashTakeKeys (takeKeys env u c)
      | CSetAway t \<Rightarrow> finish_or_send OAuth WSetAway (setAway t c)
      | CClearAway \<Rightarrow> finish_or_send OAuth WSetAway (clearAway c)
      | CAwayBeat \<Rightarrow> send_or_return (awayBeat c)
      | CLookupAway u \<Rightarrow>
          (case lookupAway env u c of
             None \<Rightarrow> Settled (OAway None) | Some h \<Rightarrow> Hashing (WHashLookupAway h))
      | CSetPresence s \<Rightarrow> send_or_return (setPresence s c)
      | CClearPresence \<Rightarrow> send_or_return (clearPresence c)
      | CGetPresence u \<Rightarrow> finish_or_hash OPresence WHashGetPresence (getPresence env u c))"

text \<open>The digest a call waited for is there.\<close>

definition account_hashed :: "waiting \<Rightarrow> account_client \<Rightarrow> progress option" where
  "account_hashed w c =
     (case w of
        WDeriveLogin s \<Rightarrow> Some (Sending (login_request s) WLogin)
      | WDeriveEnroll s dk \<Rightarrow> Some (finish_or_send OEnroll WEnroll (enrollDeviceWithSecret s dk c))
      | WHashPackages ks \<Rightarrow> Some (Sending (publishKeys_request ks c) WPublishKeys)
      | WHashTakeKeys h \<Rightarrow> Some (Sending (hashed_request ''/api/take-keys'' h c) WTakeKeys)
      | WHashLookupAway h \<Rightarrow> Some (Sending (hashed_request ''/api/away'' h c) WLookupAway)
      | WHashGetPresence h \<Rightarrow> Some (Sending (hashed_request ''/api/presence'' h c) WGetPresence)
      | _ \<Rightarrow> None)"

definition settle :: "('a \<Rightarrow> outcome) \<Rightarrow> 'a result \<Rightarrow> progress" where
  "settle f r = Settled (case r of Inl e \<Rightarrow> OThrow e | Inr v \<Rightarrow> f v)"

text \<open>The answer a call waited for is there.\<close>

definition account_answered ::
  "account_env \<Rightarrow> waiting \<Rightarrow> answer \<Rightarrow> account_client \<Rightarrow> (account_client \<times> progress) option" where
  "account_answered env w a c =
     (case w of
        WChallenge s idk \<Rightarrow> Some (c, finish_or_send ORegister WRegister (register_challenged env s idk a))
      | WRegister \<Rightarrow> Some (apsnd (settle ORegister) (register_answered a c))
      | WLogin \<Rightarrow> Some (apsnd (settle OAuth) (login_answered a c))
      | WEnroll \<Rightarrow> Some (apsnd (settle OEnroll) (enroll_answered a c))
      | WListDevices \<Rightarrow> Some (apsnd (settle OList) (listDevices_answered a c))
      | WRevokeDevice \<Rightarrow> Some (apsnd (settle OAuth) (revokeDevice_answered a c))
      | WRevocations \<Rightarrow> Some (c, settle ORevocations (revocations_answered a))
      | WDeleteAccount \<Rightarrow> Some (apsnd (settle OAuth) (deleteAccount_answered a c))
      | WPublishKeys \<Rightarrow> Some (apsnd (settle OAuth) (publishKeys_answered a c))
      | WTakeKeys \<Rightarrow> Some (apsnd (settle OKeys) (takeKeys_answered a c))
      | WSetAway \<Rightarrow> Some (apsnd (settle OAuth) (setAway_answered a c))
      | WLookupAway \<Rightarrow> Some (c, settle OAway (lookupAway_answered a))
      | WGetPresence \<Rightarrow> Some (c, settle OPresence (getPresence_answered a))
      | WIgnore \<Rightarrow> Some (c, settle (\<lambda>_. OUnit) a)
      | _ \<Rightarrow> None)"

text \<open>The tokens an answer hands out.\<close>

definition issued_by :: "waiting \<Rightarrow> answer \<Rightarrow> string list" where
  "issued_by w a =
     (case a of
        Inr (status, body) \<Rightarrow>
          if (w = WRegister \<and> status = 201) \<or> (w = WLogin \<and> status = 200) then
            (case as_string (json_prop body ''token'') of None \<Rightarrow> [] | Some t \<Rightarrow> [t])
          else []
      | Inl _ \<Rightarrow> [])"

definition record_progress :: "progress \<Rightarrow> accounts \<Rightarrow> accounts" where
  "record_progress p m =
     (case p of
        Hashing w \<Rightarrow> m\<lparr>pending := pending m @ [w]\<rparr>
      | Sending rq w \<Rightarrow> m\<lparr>sent := sent m @ [rq], pending := pending m @ [w]\<rparr>
      | Settled r \<Rightarrow> m\<lparr>outcomes := outcomes m @ [r]\<rparr>)"

datatype account_event =
    Call account_call
  | Hashed nat
  | Answered nat answer
  | LockOrLogout
  | StrongKdf memory_hard_kdf

definition drop_nth :: "nat \<Rightarrow> 'a list \<Rightarrow> 'a list" where
  "drop_nth i xs = take i xs @ drop (Suc i) xs"

definition account_step :: "account_env \<Rightarrow> accounts \<Rightarrow> account_event \<Rightarrow> accounts" where
  "account_step env m ev =
     (case ev of
        Call call \<Rightarrow> record_progress (account_begin env call (client m)) m
      | Hashed i \<Rightarrow>
          (case Prelude.at (pending m) i of
             None \<Rightarrow> m
           | Some w \<Rightarrow>
               (case account_hashed w (client m) of
                  None \<Rightarrow> m
                | Some p \<Rightarrow> record_progress p (m\<lparr>pending := drop_nth i (pending m)\<rparr>)))
      | Answered i a \<Rightarrow>
          (case Prelude.at (pending m) i of
             None \<Rightarrow> m
           | Some w \<Rightarrow>
               (case account_answered env w a (client m) of
                  None \<Rightarrow> m
                | Some (c, p) \<Rightarrow>
                    record_progress p (m\<lparr>client := c, pending := drop_nth i (pending m),
                                         issued := issued m @ issued_by w a\<rparr>)))
      | LockOrLogout \<Rightarrow> m\<lparr>client := clearSession (client m)\<rparr>
      | StrongKdf kd \<Rightarrow> m\<lparr>client := useStrongKdf kd (client m)\<rparr>)"

definition account_run :: "account_env \<Rightarrow> account_event list \<Rightarrow> accounts \<Rightarrow> accounts" where
  "account_run env es m = foldl (account_step env) m es"

section \<open>What the server is sent\<close>

text \<open>
  \<open>request_ok ts rq\<close>: the request carries one of the tokens \<open>ts\<close>, or none because it is one of the
  three that start a session, or \<open>null\<close> because the session ended while its digests were computed;
  and the derived secrets go to no other endpoint than the ones that verify them.
\<close>

definition request_ok :: "string list \<Rightarrow> request \<Rightarrow> bool" where
  "request_ok ts rq =
     (((fst rq \<in> {''/api/challenge'', ''/api/register'', ''/api/login''} \<and> map_of (snd rq) ''token'' = None)
       \<or> (\<exists>t \<in> set ts. map_of (snd rq) ''token'' = Some (JStr t))
       \<or> (fst rq \<in> {''/api/publish-keys'', ''/api/take-keys'', ''/api/away'', ''/api/presence''}
          \<and> map_of (snd rq) ''token'' = Some JNull))
      \<and> (map_of (snd rq) ''authSecret'' \<noteq> None \<longrightarrow>
          fst rq \<in> {''/api/register'', ''/api/login'', ''/api/add-device''})
      \<and> (map_of (snd rq) ''authSecretV2'' \<noteq> None \<longrightarrow> fst rq \<in> {''/api/register'', ''/api/login''}))"

definition progress_ok :: "string list \<Rightarrow> progress \<Rightarrow> bool" where
  "progress_ok ts p = (case p of Sending rq _ \<Rightarrow> request_ok ts rq | _ \<Rightarrow> True)"

definition token_known :: "string list \<Rightarrow> account_client \<Rightarrow> bool" where
  "token_known ts c = (case token c of None \<Rightarrow> True | Some t \<Rightarrow> t \<in> set ts)"

lemma progress_ok_simps [simp]:
  "progress_ok ts (Sending rq w) = request_ok ts rq"
  "progress_ok ts (Hashing w)"
  "progress_ok ts (Settled r)"
  "progress_ok ts (settle f x)"
  by (simp_all add: progress_ok_def settle_def)

lemma request_ok_mono: "request_ok ts rq \<Longrightarrow> request_ok (ts @ us) rq"
  by (auto simp: request_ok_def)

lemma finish_or_send_ok [simp]:
  "progress_ok ts (finish_or_send f w x) \<longleftrightarrow> (case x of Inl _ \<Rightarrow> True | Inr rq \<Rightarrow> request_ok ts rq)"
  by (simp add: finish_or_send_def split: sum.split)

lemma finish_or_hash_ok [simp]: "progress_ok ts (finish_or_hash f w x)"
  by (simp add: finish_or_hash_def split: sum.split)

lemma send_or_return_ok [simp]:
  "progress_ok ts (send_or_return x) \<longleftrightarrow> (case x of None \<Rightarrow> True | Some rq \<Rightarrow> request_ok ts rq)"
  by (simp add: send_or_return_def split: option.split)

lemmas token_requests =
  enrollDeviceWithSecret_def listDevices_def revokeDevice_def revocations_def deleteAccount_def
  setAway_def clearAway_def awayBeat_def setPresence_def clearPresence_def publishKeys_request_def
  hashed_request_def

lemma token_json_cases:
  "token_known ts c \<Longrightarrow>
     (token c = None \<and> token_json c = JNull) \<or> (\<exists>t \<in> set ts. token c = Some t \<and> token_json c = JStr t)"
  by (auto simp: token_known_def token_json_def split: option.splits)

lemma begin_ok: "token_known ts c \<Longrightarrow> progress_ok ts (account_begin env call c)"
  by (drule token_json_cases, cases call)
    (auto simp: account_begin_def token_requests request_ok_def challenge_request_def opt_field_def
      split: option.splits)

lemma hashed_ok: "token_known ts c \<Longrightarrow> account_hashed w c = Some p \<Longrightarrow> progress_ok ts p"
  by (drule token_json_cases, cases w)
    (auto simp: account_hashed_def token_requests request_ok_def login_request_def opt_field_def
      split: option.splits prod.splits)

lemma register_challenged_ok: "register_challenged env s idk a = Inr rq \<Longrightarrow> request_ok ts rq"
  by (auto simp: register_challenged_def register_request_def request_ok_def opt_field_def
      split: sum.splits option.splits prod.splits)

lemma settled_pair: "apsnd (settle f) x = (c', p) \<Longrightarrow> progress_ok ts p"
  by (cases x) auto

lemma answered_ok: "account_answered env w a c = Some (c', p) \<Longrightarrow> progress_ok ts p"
  by (cases w)
    (auto simp: account_answered_def split: sum.splits dest: register_challenged_ok settled_pair)

lemmas answered_defs =
  enroll_answered_def listDevices_answered_def list_fallback_def revokeDevice_answered_def
  deleteAccount_answered_def publishKeys_answered_def takeKeys_answered_def keys_fallback_def
  setAway_answered_def

lemma adopt_token_client:
  "fst (adopt_token body r c) = (if body = JNull then c else c\<lparr>token := as_string (json_prop body ''token'')\<rparr>)"
  by (simp add: adopt_token_def body_at_def)

text \<open>An answer leaves the token alone, clears it, or adopts the one it carries.\<close>

lemma answered_token:
  assumes "account_answered env w a c = Some (c', p)"
  shows "token c' = token c \<or> token c' = None \<or> (\<exists>t. token c' = Some t \<and> issued_by w a = [t])"
proof (cases "w = WRegister \<or> w = WLogin")
  case True
  then show ?thesis
  proof
    assume "w = WRegister"
    with assms show ?thesis
      by (auto simp: account_answered_def register_answered_def adopt_token_def body_at_def issued_by_def
          split: sum.splits if_splits option.splits)
  next
    assume "w = WLogin"
    with assms show ?thesis
      by (auto simp: account_answered_def login_answered_def adopt_token_def body_at_def issued_by_def
          split: sum.splits if_splits option.splits)
  qed
next
  case False
  with assms have "token c' = token c \<or> token c' = None"
    by (cases w)
      (auto simp: account_answered_def answered_defs clearSession_def split: sum.splits if_splits option.splits)
  then show ?thesis by auto
qed

definition accounts_ok :: "accounts \<Rightarrow> bool" where
  "accounts_ok m \<longleftrightarrow>
     token_known (issued m) (client m) \<and> (\<forall>rq \<in> set (sent m). request_ok (issued m) rq)"

lemma record_progress_simps [simp]:
  "client (record_progress p m) = client m"
  "issued (record_progress p m) = issued m"
  by (simp_all add: record_progress_def split: progress.split)

lemma accounts_ok_progress:
  "accounts_ok m \<Longrightarrow> progress_ok (issued m) p \<Longrightarrow> accounts_ok (record_progress p m)"
  by (auto simp: accounts_ok_def record_progress_def split: progress.split)

lemma accounts_ok_cong:
  "accounts_ok m \<Longrightarrow> accounts_ok (m\<lparr>pending := ps\<rparr>)"
  by (simp add: accounts_ok_def)

lemma accounts_ok_step: "accounts_ok m \<Longrightarrow> accounts_ok (account_step env m ev)"
proof (cases ev)
  case (Call call)
  assume m: "accounts_ok m"
  then have "progress_ok (issued m) (account_begin env call (client m))"
    by (intro begin_ok) (simp add: accounts_ok_def)
  with m Call show ?thesis by (simp add: account_step_def accounts_ok_progress)
next
  case (Hashed i)
  assume m: "accounts_ok m"
  show ?thesis
  proof (cases "Prelude.at (pending m) i")
    case (Some w)
    show ?thesis
    proof (cases "account_hashed w (client m)")
      case (Some p)
      then have "progress_ok (issued m) p"
        using m by (intro hashed_ok) (auto simp: accounts_ok_def)
      then show ?thesis
        using m Hashed Some \<open>Prelude.at (pending m) i = Some w\<close>
        by (simp add: account_step_def accounts_ok_progress accounts_ok_cong)
    qed (use m Hashed Some in \<open>simp add: account_step_def\<close>)
  qed (use m Hashed in \<open>simp add: account_step_def\<close>)
next
  case (Answered i a)
  assume m: "accounts_ok m"
  show ?thesis
  proof (cases "Prelude.at (pending m) i")
    case (Some w)
    show ?thesis
    proof (cases "account_answered env w a (client m)")
      case (Some cp)
      obtain c p where cp: "cp = (c, p)" by (cases cp)
      let ?m = "m\<lparr>client := c, pending := drop_nth i (pending m), issued := issued m @ issued_by w a\<rparr>"
      have "token_known (issued ?m) c"
        using m answered_token [OF Some [unfolded cp]]
        by (auto simp: accounts_ok_def token_known_def split: option.splits)
      with m have "accounts_ok ?m" by (auto simp: accounts_ok_def intro: request_ok_mono)
      then show ?thesis
        using Answered Some cp \<open>Prelude.at (pending m) i = Some w\<close>
        by (simp add: account_step_def accounts_ok_progress answered_ok [OF Some [unfolded cp]])
    qed (use m Answered Some in \<open>simp add: account_step_def\<close>)
  qed (use m Answered in \<open>simp add: account_step_def\<close>)
qed (simp_all add: account_step_def accounts_ok_def clearSession_def useStrongKdf_def token_known_def
      split: option.splits)

lemma accounts_ok_run: "accounts_ok m \<Longrightarrow> accounts_ok (account_run env es m)"
  by (induction es arbitrary: m) (simp_all add: account_run_def accounts_ok_step)

lemma accounts_ok_new [simp]: "accounts_ok new_accounts"
  by (simp add: accounts_ok_def new_accounts_def new_AccountClient_def token_known_def)

text \<open>What the methods return without a session.\<close>

definition signed_out_outcomes :: "outcome set" where
  "signed_out_outcomes = {OAuth (auth_fail LOG_IN_FIRST), OEnroll (enroll_fail LOG_IN_FIRST), OList (list_fail LOG_IN_FIRST),
     OKeys (keys_fail LOG_IN_FIRST), ORevocations [], OAway None, OPresence ''offline'', OUnit}"

lemma signed_out_settles:
  assumes "token c = None"
    and "\<And>u p k. call \<noteq> CRegister u p k" and "\<And>u p. call \<noteq> CLogin u p" and "\<And>u p k. call \<noteq> CEnroll u p k"
  shows "\<exists>r \<in> signed_out_outcomes. account_begin env call c = Settled r"
  using assms
  by (cases call)
    (simp_all add: account_begin_def enrollDeviceWithSecret_def listDevices_def revokeDevice_def revocations_def
      deleteAccount_def publishKeys_def takeKeys_def setAway_def clearAway_def awayBeat_def lookupAway_def
      setPresence_def clearPresence_def getPresence_def finish_or_send_def finish_or_hash_def send_or_return_def
      signed_out_outcomes_def, blast+)

lemma signed_out_enroll:
  "token c = None \<Longrightarrow> account_hashed (WDeriveEnroll secret k) c = Some (Settled (OEnroll (enroll_fail LOG_IN_FIRST)))"
  by (simp add: account_hashed_def enrollDeviceWithSecret_def finish_or_send_def)

text \<open>C22.
  In every run of an account client, whatever the server answers and however its calls interleave, each
  request carries a session token that an answer to a registration or a login issued earlier, or belongs
  to the three endpoints that start a session, or says \<open>null\<close> because the session ended while the
  request's digest was computed. The v1 secret goes to register, login and add-device alone, the v2
  secret to register and login. Signed out, every call but register, login and the enrolment by password
  settles at once with its error or empty result: it sends nothing and waits for no digest. That
  enrolment settles in the same way, without a request, when its digest arrives.
\<close>
theorem account_requests_are_authorized:
  assumes "m = account_run env es new_accounts"
  shows "(\<forall>rq \<in> set (sent m). request_ok (issued m) rq)
       \<and> (\<forall>t. token (client m) = Some t \<longrightarrow> t \<in> set (issued m))
       \<and> (\<forall>call. token (client m) = None \<and> (\<forall>u p k. call \<noteq> CRegister u p k) \<and> (\<forall>u p. call \<noteq> CLogin u p)
            \<and> (\<forall>u p k. call \<noteq> CEnroll u p k)
            \<longrightarrow> (\<exists>r \<in> signed_out_outcomes. account_step env m (Call call) = m\<lparr>outcomes := outcomes m @ [r]\<rparr>))
       \<and> (\<forall>u p k. sent (account_step env m (Call (CEnroll u p k))) = sent m)
       \<and> (\<forall>i secret k. token (client m) = None \<and> Prelude.at (pending m) i = Some (WDeriveEnroll secret k)
            \<longrightarrow> account_step env m (Hashed i) = m\<lparr>pending := drop_nth i (pending m),
                  outcomes := outcomes m @ [OEnroll (enroll_fail LOG_IN_FIRST)]\<rparr>)"
proof (intro conjI allI impI ballI; (elim conjE)?)
  have ok: "accounts_ok m" by (simp add: assms accounts_ok_run)
  then show "request_ok (issued m) rq" if "rq \<in> set (sent m)" for rq using that by (simp add: accounts_ok_def)
  show "t \<in> set (issued m)" if "token (client m) = Some t" for t
    using ok that by (simp add: accounts_ok_def token_known_def)
  show "\<exists>r \<in> signed_out_outcomes. account_step env m (Call call) = m\<lparr>outcomes := outcomes m @ [r]\<rparr>"
    if "token (client m) = None" "\<forall>u p k. call \<noteq> CRegister u p k" "\<forall>u p. call \<noteq> CLogin u p"
      "\<forall>u p k. call \<noteq> CEnroll u p k" for call
    using signed_out_settles [of "client m" call env] that by (auto simp: account_step_def record_progress_def)
  show "sent (account_step env m (Call (CEnroll u p k))) = sent m" for u p k
    by (simp add: account_step_def account_begin_def record_progress_def)
  show "account_step env m (Hashed i) = m\<lparr>pending := drop_nth i (pending m),
          outcomes := outcomes m @ [OEnroll (enroll_fail LOG_IN_FIRST)]\<rparr>"
    if "token (client m) = None" "Prelude.at (pending m) i = Some (WDeriveEnroll secret k)" for i secret k
    using that by (simp add: account_step_def signed_out_enroll record_progress_def)
qed

definition demo_account_env :: account_env where
  "demo_account_env = \<lparr>sha256 = \<lambda>_. [0], unicode_lower = id\<rparr>"

definition demo_account_events :: "account_event list" where
  "demo_account_events =
     [Call (CLogin ''Al'' ''pw''), Hashed 0, Answered 0 (Inr (200, JObj [(''token'', JStr ''t1'')])),
      Call (CTakeKeys ''Bo''), LockOrLogout, Hashed 0, Answered 0 (Inr (401, JObj []))]"

lemma demo_sha [simp]: "sha256Hex demo_account_env s = ''00''"
  by (simp add: sha256Hex_def demo_account_env_def bytesToHex_def hex_byte_def hex_digits_def)

lemma demo_account_run:
  "sent (account_run demo_account_env demo_account_events new_accounts)
     = [(''/api/login'', [(''usernameHash'', JStr ''00''), (''authSecret'', JStr ''00'')]),
        (''/api/take-keys'', [(''token'', JNull), (''usernameHash'', JStr ''00'')])]
   \<and> token (client (account_run demo_account_env demo_account_events new_accounts)) = None"
  by (simp add: account_run_def demo_account_events_def account_step_def account_begin_def
      new_accounts_def new_AccountClient_def account_secrets_def deriveUsernameHash_def deriveAuthSecret_def
      deriveV2_def record_progress_def account_hashed_def drop_nth_def account_answered_def
      login_answered_def adopt_token_def body_at_def json_prop_def as_string_def settle_def issued_by_def
      login_request_def opt_field_def takeKeys_def finish_or_hash_def clearSession_def hashed_request_def
      token_json_def takeKeys_answered_def keys_fallback_def)

lemma account_requests_are_authorized_witness:
  "let m = account_run demo_account_env demo_account_events new_accounts in
     request_ok (issued m) (''/api/take-keys'', [(''token'', JNull), (''usernameHash'', JStr ''00'')])
     \<and> sent (account_step demo_account_env m (Call (CTakeKeys ''Bo''))) = sent m
     \<and> pending (account_step demo_account_env m (Call (CTakeKeys ''Bo''))) = pending m"
proof -
  define m where "m = account_run demo_account_env demo_account_events new_accounts"
  note all = account_requests_are_authorized [OF m_def]
  have run: "sent m = [(''/api/login'', [(''usernameHash'', JStr ''00''), (''authSecret'', JStr ''00'')]),
        (''/api/take-keys'', [(''token'', JNull), (''usernameHash'', JStr ''00'')])]" "token (client m) = None"
    using demo_account_run by (simp_all add: m_def)
  have "\<exists>r \<in> signed_out_outcomes. account_step demo_account_env m (Call (CTakeKeys ''Bo'')) = m\<lparr>outcomes := outcomes m @ [r]\<rparr>"
    using all run(2) by blast
  moreover have "request_ok (issued m) (''/api/take-keys'', [(''token'', JNull), (''usernameHash'', JStr ''00'')])"
    using all run(1) by simp
  ultimately show ?thesis unfolding m_def [symmetric] Let_def by force
qed

section \<open>The proof of work\<close>

text \<open>The number of leading zero bits of a byte string, read bit by bit.\<close>

definition byte_bits :: "byte \<Rightarrow> bool list" where
  "byte_bits b = map (bit b) [7, 6, 5, 4, 3, 2, 1, 0]"

definition leading_zeros :: "bytes \<Rightarrow> nat" where
  "leading_zeros d = length (takeWhile Not (concat (map byte_bits d)))"

definition nibble_zeros :: "nat \<Rightarrow> nat" where
  "nibble_zeros v = (if v = 0 then 4 else if 8 \<le> v then 0 else if 4 \<le> v then 1 else if 2 \<le> v then 2 else 3)"

lemma parse_hex_digit: "n < 16 \<Longrightarrow> parseInt16 [hex_digits ! n] = Some (int n)"
  using hex_digit_facts [of n] by (simp add: parseInt16_def parse_magnitude_def)

lemma leadingZeroBits_digit:
  "n < 16 \<Longrightarrow> leadingZeroBits_from acc (hex_digits ! n # rest) =
     (if n = 0 then leadingZeroBits_from (acc + 4) rest else acc + nibble_zeros n)"
  by (simp add: parse_hex_digit nibble_zeros_def)

lemma byte_bits_zeros:
  "length (takeWhile Not (byte_bits b)) =
     (if unat b div 16 = 0 then 4 + nibble_zeros (unat b mod 16) else nibble_zeros (unat b div 16))"
  "(\<forall>x \<in> set (byte_bits b). \<not> x) \<longleftrightarrow> b = 0"
proof -
  have *: "\<forall>n \<in> set [0..<256]. let b = word_of_nat n :: byte in
      length (takeWhile Not (byte_bits b)) =
        (if n div 16 = 0 then 4 + nibble_zeros (n mod 16) else nibble_zeros (n div 16))
      \<and> (list_all Not (byte_bits b) \<longleftrightarrow> n = 0)"
    by code_simp
  have "unat b < 256" using unsigned_less [where ?'a = nat and ?'b = 8, of b] by simp
  with * show "length (takeWhile Not (byte_bits b)) =
     (if unat b div 16 = 0 then 4 + nibble_zeros (unat b mod 16) else nibble_zeros (unat b div 16))"
    "(\<forall>x \<in> set (byte_bits b). \<not> x) \<longleftrightarrow> b = 0"
    by (auto simp: Let_def list_all_iff unat_eq_0 dest!: bspec [where x = "unat b"])
qed

lemma pow_loop_spec:
  assumes "n \<le> MAX_TRIES"
  shows "pow_loop env challenge bits n =
    (if \<exists>k < MAX_TRIES. n \<le> k \<and> pow_ok env challenge bits k
     then decimal (LEAST k. n \<le> k \<and> pow_ok env challenge bits k) else ''0'')"
  using assms
proof (induction env challenge bits n rule: pow_loop.induct)
  case (1 env challenge bits n)
  show ?case
  proof (cases "n < MAX_TRIES")
    case False
    then show ?thesis by (subst pow_loop.simps) auto
  next
    case True
    show ?thesis
    proof (cases "pow_ok env challenge bits n")
      case True
      then have "(LEAST k. n \<le> k \<and> pow_ok env challenge bits k) = n"
        by (intro Least_equality) auto
      with True \<open>n < MAX_TRIES\<close> show ?thesis by (subst pow_loop.simps) auto
    next
      case False
      then have "n \<le> k \<and> pow_ok env challenge bits k \<longleftrightarrow> n + 1 \<le> k \<and> pow_ok env challenge bits k" for k
        by (cases "k = n") auto
      moreover have "n + 1 \<le> MAX_TRIES" using True by simp
      ultimately show ?thesis
        using "1.IH" [OF True False] True False by (subst pow_loop.simps) auto
    qed
  qed
qed

lemma leadingZeroBits_bytesToHex:
  "leadingZeroBits_from acc (bytesToHex d) = acc + leading_zeros d"
proof (induction d arbitrary: acc)
  case Nil
  show ?case by (simp add: leading_zeros_def)
next
  case (Cons b d)
  have lt: "unat b div 16 < 16" "unat b mod 16 < 16"
    using unsigned_less [where ?'a = nat and ?'b = 8, of b] by simp_all
  have z: "leading_zeros (b # d) = (if b = 0 then 8 + leading_zeros d else length (takeWhile Not (byte_bits b)))"
  proof (cases "b = 0")
    case True
    then show ?thesis by (simp add: leading_zeros_def byte_bits_def takeWhile_append)
  next
    case False
    then obtain x where "x \<in> set (byte_bits b)" "x" using byte_bits_zeros(2) [of b] by auto
    then show ?thesis using False by (simp add: leading_zeros_def takeWhile_append1)
  qed
  have "b = 0 \<longleftrightarrow> unat b div 16 = 0 \<and> unat b mod 16 = 0"
    by (metis unat_eq_0 div_mult_mod_eq mult_0 add_0 div_0 mod_0)
  with Cons.IH show ?case
    by (simp add: bytesToHex_Cons hex_byte_def leadingZeroBits_digit lt z byte_bits_zeros(1)
        del: leadingZeroBits_from.simps(2))
qed

text \<open>C23.
  The proof-of-work search returns for every challenge and every difficulty: the decimal form of the
  least counter below $2^{22}$ whose digest starts with the demanded number of zero bits, and \<open>0\<close>
  when no work is demanded or no such counter exists.
\<close>
theorem proof_of_work_finds_the_least_nonce:
  "solveProofOfWork env challenge bits =
     (let good = (\<lambda>n. bits \<le> of_nat (leading_zeros
                        (sha256 env (TextEncoder_encode (challenge @ US @ decimal n))))) in
      if 0 < bits \<and> (\<exists>n < 2 ^ 22. good n) then decimal (LEAST n. good n) else ''0'')"
proof -
  have "pow_ok env challenge bits n \<longleftrightarrow>
      bits \<le> of_nat (leading_zeros (sha256 env (TextEncoder_encode (challenge @ US @ decimal n))))" for n
    by (simp add: pow_ok_def leadingZeroBits_def sha256Hex_def leadingZeroBits_bytesToHex)
  then show ?thesis
    by (auto simp: solveProofOfWork_def pow_loop_spec MAX_TRIES_def Let_def)
qed

section \<open>The parsed answers\<close>

lemma lower_hex_digit:
  assumes "is_lower_hex c"
  shows "\<exists>n < 16. c = hex_digits ! n"
proof -
  define m where "m = (of_char c :: nat)"
  have c: "c = char_of m" by (simp add: m_def)
  have lo: "\<forall>n \<in> set [0..<10]. hex_digits ! n = char_of (48 + n)"
    and hi: "\<forall>n \<in> set [10..<16]. hex_digits ! n = char_of (87 + n)"
    by code_simp+
  from assms consider "48 \<le> m" "m \<le> 57" | "97 \<le> m" "m \<le> 102"
    by (auto simp: is_lower_hex_def m_def Let_def)
  then show ?thesis
  proof cases
    case 1
    then have "m - 48 \<in> set [0..<10]" "48 + (m - 48) = m" by auto
    with lo c have "m - 48 < 16 \<and> c = hex_digits ! (m - 48)" by fastforce
    then show ?thesis by blast
  next
    case 2
    then have "m - 87 \<in> set [10..<16]" "87 + (m - 87) = m" by auto
    with hi c have "m - 87 < 16 \<and> c = hex_digits ! (m - 87)" by fastforce
    then show ?thesis by blast
  qed
qed

lemma hex_pair:
  assumes "m < 16" and "n < 16"
  shows "hex_byte (store_u8 (parseInt16 [hex_digits ! m, hex_digits ! n])) = [hex_digits ! m, hex_digits ! n]"
proof -
  have "parseInt16 [hex_digits ! m, hex_digits ! n] = Some (int (16 * m + n))"
    using hex_digit_facts [OF assms(1)] hex_digit_facts [OF assms(2)]
    by (simp add: parseInt16_def parse_magnitude_def)
  moreover have "unat (word_of_int (int (16 * m + n)) :: byte) = 16 * m + n"
    using assms by (simp add: unat_of_nat flip: of_nat_add of_nat_mult)
  ultimately show ?thesis using assms by (simp add: hex_byte_def store_u8_def)
qed

lemma bytesToHex_hexToBytes:
  "list_all is_lower_hex s \<Longrightarrow> even (length s) \<Longrightarrow> bytesToHex (hexToBytes s) = s"
proof (induction s rule: induct_list012)
  case (3 c d s)
  then obtain m n where "m < 16" "n < 16" "c = hex_digits ! m" "d = hex_digits ! n"
    using lower_hex_digit by (metis list.pred_inject(2))
  with 3 show ?case by (simp add: hexToBytes_Cons bytesToHex_Cons hex_pair)
qed (simp_all add: hexToBytes_def)

lemma length_hexToBytes [simp]: "length (hexToBytes s) = length s div 2"
  by (simp add: hexToBytes_def)

lemma as_string_Some: "as_string v = Some s \<longleftrightarrow> v = Some (JStr s)"
  by (auto simp: as_string_def split: option.splits json.splits)

lemma parsePeerDevice_Some:
  assumes "parsePeerDevice d = Some p"
  shows "pd_keyPackage p \<noteq> [] \<and> json_prop d ''keyPackage'' = Some (JStr (bytesToHex (pd_keyPackage p)))
     \<and> json_prop d ''deviceKey'' = Some (JStr (pd_deviceKey p))
     \<and> (pd_lastResort p \<longleftrightarrow> json_prop d ''lastResort'' = Some (JBool True))"
proof -
  from assms obtain dk kp where
      dk: "as_string (json_prop d ''deviceKey'') = Some dk" and
      kp: "as_string (json_prop d ''keyPackage'') = Some kp" and
      hex: "lower_hex_string kp" "length kp mod 2 = 0" and
      p: "p = \<lparr>pd_deviceKey = dk, pd_keyPackage = hexToBytes kp,
             pd_lastResort = is_true (json_prop d ''lastResort'')\<rparr>"
    by (auto simp: parsePeerDevice_def split: option.splits if_splits)
  have "bytesToHex (hexToBytes kp) = kp" and "kp \<noteq> []"
    using hex by (auto simp: lower_hex_string_def intro!: bytesToHex_hexToBytes)
  moreover from this have "hexToBytes kp \<noteq> []" by auto
  ultimately show ?thesis
    using dk kp p by (simp add: as_string_Some is_true_def)
qed

lemma parseDevice_Some:
  assumes "parseDevice d = Some i"
  shows "json_prop d ''deviceId'' = Some (JStr (di_deviceId i))
     \<and> (di_authorized i \<longleftrightarrow> json_prop d ''authorized'' = Some (JBool True))
     \<and> (di_revoked i \<longleftrightarrow> json_prop d ''revoked'' = Some (JBool True))"
  using assms by (auto simp: parseDevice_def as_string_Some is_true_def split: option.splits if_splits)

text \<open>C24.
  Whatever a server answers, the parsers hand on only values of their declared shape: a peer device has
  a non-empty key package that is byte for byte the lower-case hex string of the answer and counts as
  last-resort only on a literal \<open>true\<close>; a device counts as authorized or revoked only on a literal
  \<open>true\<close>; every revocation record is the hex form of exactly 140 bytes; an account epoch is a
  non-negative integer.
\<close>
theorem answers_are_parsed_fail_closed:
  "(case parsePeerDevice d of
      None \<Rightarrow> True
    | Some p \<Rightarrow> pd_keyPackage p \<noteq> [] \<and> json_prop d ''keyPackage'' = Some (JStr (bytesToHex (pd_keyPackage p)))
               \<and> json_prop d ''deviceKey'' = Some (JStr (pd_deviceKey p))
               \<and> (pd_lastResort p \<longleftrightarrow> json_prop d ''lastResort'' = Some (JBool True)))
   \<and> (case parseDevice d of
        None \<Rightarrow> True
      | Some i \<Rightarrow> json_prop d ''deviceId'' = Some (JStr (di_deviceId i))
                 \<and> (di_authorized i \<longleftrightarrow> json_prop d ''authorized'' = Some (JBool True))
                 \<and> (di_revoked i \<longleftrightarrow> json_prop d ''revoked'' = Some (JBool True)))
   \<and> (\<forall>r \<in> set (parseRecords v). \<exists>bs. length bs = 140 \<and> r = bytesToHex bs)
   \<and> (case parse_epoch v of None \<Rightarrow> True | Some n \<Rightarrow> 0 \<le> n)"
proof (intro conjI)
  show "\<forall>r \<in> set (parseRecords v). \<exists>bs. length bs = 140 \<and> r = bytesToHex bs"
  proof
    fix r assume "r \<in> set (parseRecords v)"
    then have "record_hex r" by (auto simp: parseRecords_def split: option.splits)
    then have "length (hexToBytes r) = 140 \<and> r = bytesToHex (hexToBytes r)"
      by (auto simp: record_hex_def bytesToHex_hexToBytes)
    then show "\<exists>bs. length bs = 140 \<and> r = bytesToHex bs" ..
  qed
qed (auto simp: parse_epoch_def split: option.splits dest: parsePeerDevice_Some parseDevice_Some)

definition demo_peer_json :: json where
  "demo_peer_json = JObj [(''deviceKey'', JStr ''d1''), (''keyPackage'', JStr ''a5'')]"

lemma demo_peer_parsed:
  "parsePeerDevice demo_peer_json = Some \<lparr>pd_deviceKey = ''d1'', pd_keyPackage = [0xA5], pd_lastResort = False\<rparr>"
  by code_simp

lemma demo_record: "replicate 280 CHR ''0'' \<in> set (parseRecords (Some (JArr [JStr (replicate 280 CHR ''0'')])))"
  by (simp add: parseRecords_def as_array_def map_filter_simps as_string_def record_hex_def
      is_lower_hex_def list_all_iff)

lemma answers_are_parsed_fail_closed_witness:
  "json_prop demo_peer_json ''keyPackage'' = Some (JStr (bytesToHex [0xA5]))
   \<and> (\<exists>bs. length bs = 140 \<and> replicate 280 CHR ''0'' = bytesToHex bs)"
  using answers_are_parsed_fail_closed
          [of demo_peer_json "Some (JArr [JStr (replicate 280 CHR ''0'')])"] demo_record
  by (auto simp: demo_peer_parsed)

end
