(* ===== verification/Sas.thy ===== *)
theory Sas
  imports Prelude
begin

text \<open>
  Short authentication strings, \<open>sas.ts\<close>: 11 bits of a digest per pronounceable word. The main result
  is that nothing is lost or confused by the rendering: two phrases are equal exactly when the rendered
  bits are.
\<close>

definition ONSETS :: "string list" where
  "ONSETS = [''b'', ''d'', ''f'', ''g'', ''k'', ''l'', ''m'', ''n'', ''p'', ''r'', ''s'', ''t'', ''v'', ''z'', ''br'', ''st'']"

definition VOWELS :: "string list" where
  "VOWELS = [''a'', ''e'', ''i'', ''o'', ''u'', ''ay'', ''ee'', ''oo'']"

definition CODAS :: "string list" where
  "CODAS = ['''', ''b'', ''d'', ''k'', ''l'', ''m'', ''n'', ''p'', ''r'', ''s'', ''t'', ''x'', ''ld'', ''nd'', ''rk'', ''st'']"

text \<open>\<open>LIST[i] ?? ''\<close>\<close>

definition at_or_empty :: "string list \<Rightarrow> nat \<Rightarrow> string" where
  "at_or_empty xs i = (case at xs i of None \<Rightarrow> [] | Some s \<Rightarrow> s)"

definition sasWord :: "nat \<Rightarrow> string" where
  "sasWord index =
     at_or_empty ONSETS (index div 128 mod 16) @ at_or_empty VOWELS (index div 16 mod 8)
     @ at_or_empty CODAS (index mod 16)"

definition digest_bit :: "bytes \<Rightarrow> nat \<Rightarrow> nat" where
  "digest_bit digest bitpos =
     (case at digest (bitpos div 8) of
        None \<Rightarrow> 0
      | Some byte \<Rightarrow> unat byte div 2 ^ (7 - bitpos mod 8) mod 2)"

text \<open>The inner loop: eleven bits from position \<open>bitpos\<close>, most significant first.\<close>

definition word_value :: "bytes \<Rightarrow> nat \<Rightarrow> nat" where
  "word_value digest bitpos = foldl (\<lambda>value b. 2 * value + digest_bit digest (bitpos + b)) 0 [0..<11]"

fun join_words :: "string list \<Rightarrow> string" where
  "join_words [] = []"
| "join_words [w] = w"
| "join_words (w # ws) = w @ '' '' @ join_words ws"

definition renderSasWords :: "bytes \<Rightarrow> nat \<Rightarrow> string result" where
  "renderSasWords digest count =
     (if length digest * 8 < count * 11 then Inl (JsError ''SAS digest too short'')
      else Inr (join_words (map (\<lambda>i. sasWord (word_value digest (11 * i))) [0..<count])))"

definition renderSas :: "bytes \<Rightarrow> string result" where
  "renderSas digest = renderSasWords digest 6"

definition CONTACT_PHRASE_WORDS :: nat where
  "CONTACT_PHRASE_WORDS = 8"

definition renderSasHex :: "string \<Rightarrow> string result" where
  "renderSasHex digestHex = renderSas (hexToBytes digestHex)"

definition renderContactPhraseHex :: "string \<Rightarrow> string" where
  "renderContactPhraseHex digestHex =
     (if 4 * length digestHex < CONTACT_PHRASE_WORDS * 11 then []
      else case renderSasWords (hexToBytes digestHex) CONTACT_PHRASE_WORDS of Inl _ \<Rightarrow> [] | Inr s \<Rightarrow> s)"

section \<open>Words are distinct\<close>

definition is_vowel :: "char \<Rightarrow> bool" where
  "is_vowel c \<longleftrightarrow> c \<in> set ''aeiou''"

definition rime :: "nat \<Rightarrow> string" where
  "rime k = at_or_empty VOWELS (k div 16 mod 8) @ at_or_empty CODAS (k mod 16)"

lemma onsets_distinct: "distinct (map (at_or_empty ONSETS) [0..<16])"
  by code_simp

lemma onsets_consonants: "\<forall>i \<in> set [0..<16]. list_all (\<lambda>c. \<not> is_vowel c) (at_or_empty ONSETS i)"
  by code_simp

lemma rimes_distinct: "distinct (map rime [0..<128])"
  by code_simp

lemma rimes_start: "\<forall>k \<in> set [0..<128]. rime k \<noteq> [] \<and> is_vowel (hd (rime k)) \<and> CHR '' '' \<notin> set (rime k)"
  by code_simp

lemma onsets_no_space: "\<forall>i \<in> set [0..<16]. CHR '' '' \<notin> set (at_or_empty ONSETS i)"
  by code_simp

lemma sasWord_split:
  assumes "index < 2048"
  shows "sasWord index = at_or_empty ONSETS (index div 128) @ rime (index mod 128)"
proof -
  have "index div 128 < 16" using assms by simp
  moreover have "index mod 128 div 16 = index div 16 mod 8"
    using mod_mult2_eq [of index 16 8] by simp
  moreover have "index mod 128 mod 16 = index mod 16" by (simp add: mod_mod_cancel)
  ultimately show ?thesis by (simp add: sasWord_def rime_def)
qed

lemma takeWhile_onset:
  assumes "i < 16" and "k < 128"
  shows "takeWhile (\<lambda>c. \<not> is_vowel c) (at_or_empty ONSETS i @ rime k) = at_or_empty ONSETS i"
proof -
  have "list_all (\<lambda>c. \<not> is_vowel c) (at_or_empty ONSETS i)" and "rime k \<noteq> [] \<and> is_vowel (hd (rime k))"
    using onsets_consonants rimes_start assms by auto
  then show ?thesis by (cases "rime k") (auto simp: takeWhile_append list_all_iff)
qed

lemma sasWord_inject:
  assumes "m < 2048" and "n < 2048" and eq: "sasWord m = sasWord n"
  shows "m = n"
proof -
  have lt: "m div 128 < 16" "n div 128 < 16" "m mod 128 < 128" "n mod 128 < 128" using assms by simp_all
  have on: "at_or_empty ONSETS (m div 128) = at_or_empty ONSETS (n div 128)"
    using eq takeWhile_onset [OF lt(1,3)] takeWhile_onset [OF lt(2,4)] assms(1,2)
    by (simp add: sasWord_split)
  then have "rime (m mod 128) = rime (n mod 128)"
    using eq assms(1,2) by (simp add: sasWord_split)
  then have "m mod 128 = n mod 128"
    using rimes_distinct lt by (simp add: distinct_map inj_on_def)
  moreover have "m div 128 = n div 128"
    using on onsets_distinct lt by (simp add: distinct_map inj_on_def)
  ultimately show ?thesis by (metis div_mult_mod_eq)
qed

lemma sasWord_no_space: "n < 2048 \<Longrightarrow> CHR '' '' \<notin> set (sasWord n)"
  using onsets_no_space rimes_start by (simp add: sasWord_split)

section \<open>Phrases are injective\<close>

lemma split_at_space:
  "CHR '' '' \<notin> set u \<Longrightarrow> CHR '' '' \<notin> set v \<Longrightarrow> u @ '' '' @ x = v @ '' '' @ y \<Longrightarrow> u = v \<and> x = y"
proof (induction u arbitrary: v)
  case Nil
  then show ?case by (cases v) auto
next
  case (Cons c u)
  then show ?case by (cases v) auto
qed

lemma join_words_inject:
  assumes "length us = length vs" and "\<forall>w \<in> set us \<union> set vs. CHR '' '' \<notin> set w"
  shows "join_words us = join_words vs \<longleftrightarrow> us = vs"
  using assms
proof (induction us arbitrary: vs rule: join_words.induct)
  case (2 u)
  then obtain v where "vs = [v]" by (cases vs) auto
  then show ?case by simp
next
  case (3 u u' us)
  then obtain v v' vs' where vs: "vs = v # v' # vs'" by (cases vs; cases "tl vs") auto
  have "join_words (u' # us) = join_words (v' # vs') \<longleftrightarrow> u' # us = v' # vs'"
    using "3.prems" by (intro "3.IH") (auto simp: vs)
  then show ?case
    using "3.prems" split_at_space [of u v "join_words (u' # us)" "join_words (v' # vs')"] by (auto simp: vs)
qed simp

lemma digest_bit_less: "digest_bit d p < 2"
  by (simp add: digest_bit_def split: option.split)

lemma fold_bits:
  assumes "\<And>b. f b < (2 :: nat)" and "\<And>b. g b < (2 :: nat)"
  shows "foldl (\<lambda>v b. 2 * v + f b) 0 [0..<n] < 2 ^ n
       \<and> (foldl (\<lambda>v b. 2 * v + f b) 0 [0..<n] = foldl (\<lambda>v b. 2 * v + g b) 0 [0..<n] \<longleftrightarrow> (\<forall>b < n. f b = g b))"
proof (induction n)
  case (Suc n)
  let ?F = "foldl (\<lambda>v b. 2 * v + f b) 0 [0..<n]" and ?G = "foldl (\<lambda>v b. 2 * v + g b) 0 [0..<n]"
  have "2 * ?F + f n = 2 * ?G + g n \<longleftrightarrow> ?F = ?G \<and> f n = g n"
    using assms(1) [of n] assms(2) [of n] by presburger
  moreover have "2 * ?F + f n < 2 * 2 ^ n" using Suc assms(1) [of n] by linarith
  ultimately show ?case using Suc by (auto simp: less_Suc_eq)
qed simp

lemma word_value_less: "word_value d p < 2048"
  using fold_bits [of "\<lambda>b. digest_bit d (p + b)" "\<lambda>b. 0" 11] digest_bit_less by (simp add: word_value_def)

lemma word_value_eq: "word_value d p = word_value e p \<longleftrightarrow> (\<forall>b < 11. digest_bit d (p + b) = digest_bit e (p + b))"
  using fold_bits [of "\<lambda>b. digest_bit d (p + b)" "\<lambda>b. digest_bit e (p + b)" 11] digest_bit_less
  by (simp add: word_value_def)

lemma all_chunks: "(\<forall>i < n. \<forall>b < (11 :: nat). P (11 * i + b)) \<longleftrightarrow> (\<forall>p < n * 11. P p)"
proof
  assume *: "\<forall>i < n. \<forall>b < (11 :: nat). P (11 * i + b)"
  show "\<forall>p < n * 11. P p"
  proof (intro allI impI)
    fix p assume "p < n * 11"
    then have "p div 11 < n" "p mod 11 < 11" by (simp_all add: less_mult_imp_div_less)
    with * have "P (11 * (p div 11) + p mod 11)" by blast
    then show "P p" by simp
  qed
qed auto

text \<open>
  A verification phrase stands for exactly the bits it renders: with digests long enough, the phrases of
  two digests are the same if and only if their first \<open>11 * count\<close> bits are, and a phrase is refused
  exactly when the digest is too short to fill it. So six equal words are 66 equal bits.
\<close>
theorem phrase_stands_for_its_bits:
  "(renderSasWords d count = Inl (JsError ''SAS digest too short'') \<longleftrightarrow> length d * 8 < count * 11)
   \<and> (count * 11 \<le> length d * 8 \<and> count * 11 \<le> length e * 8 \<longrightarrow>
       (renderSasWords d count = renderSasWords e count \<longleftrightarrow> (\<forall>p < count * 11. digest_bit d p = digest_bit e p)))"
proof -
  let ?ws = "\<lambda>d. map (\<lambda>i. sasWord (word_value d (11 * i))) [0..<count]"
  have "\<forall>w \<in> set (?ws d) \<union> set (?ws e). CHR '' '' \<notin> set w"
    by (auto simp: sasWord_no_space word_value_less)
  then have "join_words (?ws d) = join_words (?ws e) \<longleftrightarrow> ?ws d = ?ws e"
    by (intro join_words_inject) simp_all
  also have "\<dots> \<longleftrightarrow> (\<forall>i < count. word_value d (11 * i) = word_value e (11 * i))"
    using word_value_less sasWord_inject by (fastforce simp: list_eq_iff_nth_eq)
  also have "\<dots> \<longleftrightarrow> (\<forall>p < count * 11. digest_bit d p = digest_bit e p)"
    by (simp add: word_value_eq all_chunks [where P = "\<lambda>p. digest_bit d p = digest_bit e p"])
  finally show ?thesis by (auto simp: renderSasWords_def)
qed

lemma phrase_stands_for_its_bits_witness:
  "renderSasWords [0xFF, 0xE0] 1 = renderSasWords [0xFF, 0xFF] 1
     \<longleftrightarrow> (\<forall>p < 1 * 11. digest_bit [0xFF, 0xE0] p = digest_bit [0xFF, 0xFF] p)"
  using phrase_stands_for_its_bits [of "[0xFF, 0xE0]" 1 "[0xFF, 0xFF]"] by simp

end
