(* ===== verification/Integrity.thy ===== *)
theory Integrity
  imports Auth
begin

text \<open>
  Bundle integrity and the update decision: \<open>integrity.ts\<close> (pinned SHA-256 manifests) and
  \<open>appversion.ts\<close> (which version is running, which is deployed, whether to reload once). SHA-256 is the
  parameter of \<open>account_env\<close>.
\<close>

section \<open>integrity.ts\<close>

type_synonym pinned_manifest = "(string \<times> string) list"

definition integrity_sha256Hex :: "account_env \<Rightarrow> bytes \<Rightarrow> string" where
  "integrity_sha256Hex env bs = bytesToHex (sha256 env bs)"

text \<open>The loop \<open>diff |= a.charCodeAt(i) ^ b.charCodeAt(i)\<close> over two strings of one length.\<close>

definition constantTimeEqualHex :: "string \<Rightarrow> string \<Rightarrow> bool" where
  "constantTimeEqualHex a b =
     (if length a \<noteq> length b then False
      else foldl (\<lambda>diff (c, d). or diff (xor (of_char c) (of_char d))) (0 :: nat) (zip a b) = 0)"

definition verifyAsset :: "account_env \<Rightarrow> bytes \<Rightarrow> string \<Rightarrow> bool" where
  "verifyAsset env bs expected = constantTimeEqualHex (integrity_sha256Hex env bs) (toLowerCase env expected)"

record manifest_result =
  mr_ok :: bool
  mr_mismatched :: "string list"

definition verifyManifest :: "account_env \<Rightarrow> (string, bytes) jsmap \<Rightarrow> pinned_manifest \<Rightarrow> manifest_result" where
  "verifyManifest env fetched pinned =
     (let bad = filter (\<lambda>(path, expected). case jm_get fetched path of
                  None \<Rightarrow> True | Some bs \<Rightarrow> \<not> verifyAsset env bs expected) pinned in
      \<lparr>mr_ok = (length bad = 0), mr_mismatched = map fst bad\<rparr>)"

lemma or_eq_0_nat: "or m n = 0 \<longleftrightarrow> m = 0 \<and> n = (0 :: nat)"
  by (auto simp: bit_eq_iff bit_or_iff)

lemma xor_eq_0_nat: "xor m n = 0 \<longleftrightarrow> m = (n :: nat)"
  by (metis xor.assoc xor_self_eq xor.right_neutral xor.left_neutral)

lemma fold_diff_0:
  "length a = length b \<Longrightarrow>
     foldl (\<lambda>diff (c, d). or diff (xor (of_char c) (of_char d))) n (zip a b) = 0 \<longleftrightarrow> n = (0 :: nat) \<and> a = b"
  by (induction a b arbitrary: n rule: list_induct2) (auto simp: or_eq_0_nat xor_eq_0_nat)

text \<open>The branch-free comparison is equality.\<close>

lemma constantTimeEqualHex_eq: "constantTimeEqualHex a b \<longleftrightarrow> a = b"
  by (auto simp: constantTimeEqualHex_def fold_diff_0)

text \<open>A bundle is accepted only if every pinned asset was fetched with exactly the pinned digest.\<close>

lemma verifyManifest_ok:
  "mr_ok (verifyManifest env fetched pinned) \<longleftrightarrow>
     (\<forall>(path, expected) \<in> set pinned. \<exists>bs. jm_get fetched path = Some bs
        \<and> bytesToHex (sha256 env bs) = toLowerCase env expected)"
  by (auto simp: verifyManifest_def Let_def filter_empty_conv verifyAsset_def constantTimeEqualHex_eq
      integrity_sha256Hex_def split: option.splits)

lemma verifyManifest_mismatched:
  "mr_ok (verifyManifest env fetched pinned) \<longleftrightarrow> mr_mismatched (verifyManifest env fetched pinned) = []"
  by (simp add: verifyManifest_def Let_def)

section \<open>appversion.ts\<close>

text \<open>\<open>/deaddrop-pinned-([0-9a-f]{16})/.exec(s)\<close>: the group of the leftmost match.\<close>

definition version_here :: "string \<Rightarrow> string option" where
  "version_here s =
     (let v = slice 16 32 s in
      if starts_with s ''deaddrop-pinned-'' \<and> length v = 16 \<and> list_all is_lower_hex v then Some v else None)"

fun find_version :: "string \<Rightarrow> string option" where
  "find_version [] = None"
| "find_version (c # cs) = (case version_here (c # cs) of Some v \<Rightarrow> Some v | None \<Rightarrow> find_version cs)"

definition parseBuildVersion :: "string option \<Rightarrow> string option" where
  "parseBuildVersion buildTxt = (case buildTxt of None \<Rightarrow> None | Some s \<Rightarrow> find_version s)"

definition versionFromCacheName :: "string \<Rightarrow> string option" where
  "versionFromCacheName name = find_version name"

fun bootVersionFrom :: "string list \<Rightarrow> string option" where
  "bootVersionFrom [] = None"
| "bootVersionFrom (n # ns) = (case versionFromCacheName n of Some v \<Rightarrow> Some v | None \<Rightarrow> bootVersionFrom ns)"

definition shouldForceUpdate :: "string option \<Rightarrow> string option \<Rightarrow> string option \<Rightarrow> bool" where
  "shouldForceUpdate bootVersion latest alreadyTriedTarget =
     (if bootVersion = None \<or> latest = None then False
      else if bootVersion = latest then False
      else alreadyTriedTarget \<noteq> latest)"

lemma find_version_shape: "find_version s = Some v \<Longrightarrow> length v = 16 \<and> list_all is_lower_hex v"
  by (induction s) (auto simp: version_here_def Let_def split: option.splits if_splits)

text \<open>
  The latch: boot code that remembers the target of a forced reload reloads at most once per target,
  whatever the caches claim to hold afterwards.
\<close>

lemma no_reload_loop: "\<not> shouldForceUpdate bootVersion latest latest"
  by (simp add: shouldForceUpdate_def)

end
