(* ===== verification/Effects.thy ===== *)
theory Effects
  imports Prelude
begin

text \<open>
  Sequences of statements that change a state and may throw: an action takes the state and yields the
  value, or the exception, with the state at that point. What was done before a throw stays done.
\<close>

type_synonym ('s, 'a) act = "'s \<Rightarrow> 'a result \<times> 's"

definition ret :: "'a \<Rightarrow> ('s, 'a) act" where
  "ret x = (\<lambda>s. (Inr x, s))"

definition throw :: "js_error \<Rightarrow> ('s, 'a) act" where
  "throw e = (\<lambda>s. (Inl e, s))"

definition bindA :: "('s, 'a) act \<Rightarrow> ('a \<Rightarrow> ('s, 'b) act) \<Rightarrow> ('s, 'b) act" where
  "bindA m f = (\<lambda>s. case m s of (Inl e, s') \<Rightarrow> (Inl e, s') | (Inr x, s') \<Rightarrow> f x s')"

text \<open>\<open>try { m } catch (e) { h(e) }\<close>\<close>

definition catchA :: "('s, 'a) act \<Rightarrow> (js_error \<Rightarrow> ('s, 'a) act) \<Rightarrow> ('s, 'a) act" where
  "catchA m h = (\<lambda>s. case m s of (Inl e, s') \<Rightarrow> h e s' | (Inr x, s') \<Rightarrow> (Inr x, s'))"

definition skip :: "('s, unit) act" where
  "skip = ret ()"

text \<open>A block of statements, and a loop over a list.\<close>

primrec block :: "('s, unit) act list \<Rightarrow> ('s, unit) act" where
  "block [] = skip"
| "block (a # as) = bindA a (\<lambda>_. block as)"

primrec forA :: "'a list \<Rightarrow> ('a \<Rightarrow> ('s, unit) act) \<Rightarrow> ('s, unit) act" where
  "forA [] f = skip"
| "forA (x # xs) f = bindA (f x) (\<lambda>_. forA xs f)"

definition readA :: "('s \<Rightarrow> 'a) \<Rightarrow> ('s, 'a) act" where
  "readA f = (\<lambda>s. (Inr (f s), s))"

definition modA :: "('s \<Rightarrow> 's) \<Rightarrow> ('s, unit) act" where
  "modA f = (\<lambda>s. (Inr (), f s))"

definition whenA :: "bool \<Rightarrow> ('s, unit) act \<Rightarrow> ('s, unit) act" where
  "whenA b m = (if b then m else skip)"

text \<open>\<open>final m s\<close> is the state an action ends in, normally or not.\<close>

definition final :: "('s, 'a) act \<Rightarrow> 's \<Rightarrow> 's" where
  "final m s = snd (m s)"

definition value_of :: "('s, 'a) act \<Rightarrow> 's \<Rightarrow> 'a result" where
  "value_of m s = fst (m s)"

named_theorems act_simps \<open>evaluation rules of actions\<close>

lemma act_evaluation [act_simps]:
  "ret x s = (Inr x, s)"
  "throw e s = (Inl e, s)"
  "bindA m f s = (case m s of (Inl e, s') \<Rightarrow> (Inl e, s') | (Inr x, s') \<Rightarrow> f x s')"
  "catchA m h s = (case m s of (Inl e, s') \<Rightarrow> h e s' | (Inr x, s') \<Rightarrow> (Inr x, s'))"
  "skip s = (Inr (), s)"
  "readA g s = (Inr (g s), s)"
  "modA u s = (Inr (), u s)"
  by (simp_all add: ret_def throw_def bindA_def catchA_def skip_def readA_def modA_def)

lemma whenA_True [act_simps]: "whenA True m = m"
  and whenA_False [act_simps]: "whenA False m = skip"
  by (simp_all add: whenA_def)

section \<open>Relations between the states before and after\<close>

text \<open>
  A reflexive and transitive relation between the states before and after an action, thrown exceptions
  included, composes along the structure of a method: a property of a component is proved once per
  primitive statement and then follows for each method by these rules.
\<close>

locale step_relation =
  fixes R :: "'s \<Rightarrow> 's \<Rightarrow> bool"
  assumes step_refl: "R s s"
    and step_trans: "R s t \<Longrightarrow> R t u \<Longrightarrow> R s u"
begin

lemma step_ret: "R s (snd (ret x s))"
  by (simp add: ret_def step_refl)

lemma step_throw: "R s (snd (throw e s))"
  by (simp add: throw_def step_refl)

lemma step_skip: "R s (snd (skip s))"
  by (simp add: skip_def step_ret)

lemma step_read: "R s (snd (readA f s))"
  by (simp add: readA_def step_refl)

lemma step_mod: "R s (f s) \<Longrightarrow> R s (snd (modA f s))"
  by (simp add: modA_def)

lemma step_bind:
  assumes "R s (snd (m s))" and "\<And>x t. R t (snd (f x t))"
  shows "R s (snd (bindA m f s))"
proof (cases "m s")
  case (Pair r t)
  with assms(1) have "R s t" by simp
  then show ?thesis
    using step_trans [OF _ assms(2)] Pair by (cases r) (simp_all add: bindA_def)
qed

lemma step_catch:
  assumes "R s (snd (m s))" and "\<And>e t. R t (snd (h e t))"
  shows "R s (snd (catchA m h s))"
proof (cases "m s")
  case (Pair r t)
  with assms(1) have "R s t" by simp
  then show ?thesis
    using step_trans [OF _ assms(2)] Pair by (cases r) (simp_all add: catchA_def)
qed

lemma step_when: "(b \<Longrightarrow> R s (snd (m s))) \<Longrightarrow> R s (snd (whenA b m s))"
  by (simp add: whenA_def step_skip)

lemma step_block: "(\<And>a t. a \<in> set as \<Longrightarrow> R t (snd (a t))) \<Longrightarrow> R s (snd (block as s))"
  by (induction as arbitrary: s) (simp_all add: step_skip step_bind)

lemma step_for: "(\<And>x t. x \<in> set xs \<Longrightarrow> R t (snd (f x t))) \<Longrightarrow> R s (snd (forA xs f s))"
  by (induction xs arbitrary: s) (simp_all add: step_skip step_bind)

lemmas step_rules =
  step_ret step_throw step_skip step_read step_mod step_bind step_catch step_when step_for

end

end
