(* ===== verification/Channel.thy ===== *)
theory Channel
  imports Effects Group Transport Provisioning Sas Auth
begin

text \<open>
  The state of \<open>GroupChannel\<close> (\<open>groupchannel.ts\<close>), its small helpers, the choice of the canonical
  self-group, the publications into it and the durable Welcome outbox.

  A method runs as one action up to its next \<open>await\<close>; there it leaves a continuation in \<open>ch_tasks\<close>,
  which an event of the run resumes with the outcome, after any other events. Timers are kept with their
  callbacks in \<open>ch_timers\<close>. The provisioning machine carries a number of its own, because a call that
  waits for a digest keeps the machine it was made on. The wasm conversation objects live in the heap \<open>ch_heap\<close>, because a
  reconnect replaces \<open>this.conv\<close> while older \<open>GroupSession\<close> objects keep the object they were made
  with. \<open>ch_links\<close> holds every transport opened, each with its socket and the generation that its
  handlers were stamped with. What leaves the channel is recorded in \<open>ch_fx\<close>.
\<close>

section \<open>Data\<close>

type_synonym device_target = "string \<times> bytes"

abbreviation dt_deviceKey :: "device_target \<Rightarrow> string" where "dt_deviceKey \<equiv> fst"
abbreviation dt_keyPackage :: "device_target \<Rightarrow> bytes" where "dt_keyPackage \<equiv> snd"

record gsession =
  gs_conv :: nat
  gs_groupId :: string

record session_entry =
  en_session :: gsession
  en_mailbox :: string

record pending_welcome =
  pw_conversationId :: string
  pw_deviceKey :: string
  pw_welcomeHex :: string
  pw_createdAt :: nat
  pw_attempts :: nat

record pending_op =
  po_kind :: pending_kind
  po_target :: "device_target option"
  po_handle :: nat

record channel_summary =
  cs_id :: string
  cs_peer :: string
  cs_fingerprint :: string
  cs_preview :: string

record message_meta =
  mm_messageId :: string
  mm_conversationId :: string
  mm_inbound :: bool
  mm_lifetime :: lifetime
  mm_ownAuthored :: bool

text \<open>The events pushed to the main thread.\<close>

datatype push_event =
    PvConnection string
  | PvError int string
  | PvEstablished string
  | PvRosterChanged string "string list" "string list"
  | PvMembershipStalled string pending_kind
  | PvSiblingRejected string string
  | PvInboundMessage string
  | PvOutboundAppended string
  | PvProvisioning prov_event
  | PvProvisioningError string

text \<open>What an asynchronous method resolves with.\<close>

datatype call_result =
    RConnected string
  | RSelfConversation string
  | RCreated
  | RStarted string string
  | RSent
  | RRevoked string
  | RClosed string
  | RAbandoned bool
  | RRecovered
  | RRecord "string option"
  | RIngested nat
  | RSynced bool bool
  | RPackages "bytes list"
  | RProvisioned
  | RQrCode string
  | RMembership string

datatype effect =
    FxConnect nat
  | FxClose nat
  | FxSubscribe nat string
  | FxPublish nat envelope_msg
  | FxAck nat bytes
  | FxPush push_event
  | FxReseal nat
  | FxSaveSelf nat
  | FxPersistChannel channel_summary
  | FxDeleteChannel string
  | FxPersistMessage message_meta bytes
  | FxPersistPeer string string byte bytes
  | FxSiblingIdentity byte bytes
  | FxFileSignal string bytes
  | FxCallSignal string bytes
  | FxBuddies bytes
  | FxGroups bytes
  | FxRevokeStored string string bool
  | FxSaveOutbox "pending_welcome list"
  | FxResolve call_result
  | FxReject js_error

text \<open>An apply effect of an inbound frame, with the transport and message id it will acknowledge.\<close>

datatype apply_job =
    ApplyMessage nat bytes message_meta bytes
  | ApplyRevoke nat bytes string string bool

text \<open>Where the outbox functions go on once the store has answered.\<close>

datatype outbox_then =
    ThenNothing
  | ThenCreateSelf string gsession nat bytes "device_target list"

datatype timer_callback =
    TmRatchetFlush
  | TmConfirm nat string pending_kind gsession
  | TmFailoverAdd string "string list" "device_target list"
  | TmFailoverRemove string "string list" "string list"
  | TmReceipt string
  | TmAwaySend string string

datatype continuation =
    KIdentity gsession
  | KBuddies gsession
  | KGroups gsession
  | KSealed call_result
  | KSealIgnored
  | KSealAck nat bytes
  | KSealSecure string
  | KSealCreateSelf nat nat "device_target list"
  | KSealCreated gsession
  | KSealStarted string gsession
  | KSealStageAdd nat nat string session_entry device_target bytes bytes
  | KSealStageRemove nat nat string session_entry bytes
  | KSealPackages "bytes list"
  | KSealAuthorized prov_event
  | KPersistStarted string gsession
  | KPersistSent
  | KPersistAway string
  | KLoadOutboxRemember string string bytes outbox_then
  | KLoadOutboxReplay bool
  | KSaveOutbox outbox_then
  | KAwayText string
  | KBlocked nat bytes string gsession
  | KLoadSelf string
  | KLoadSeed string "nat option"
  | KSavedSelf string nat
  | KClosedIds string nat nat "envelope_msg list"
  | KProvMailbox bool string
  | KQrShow nat provisioning bytes
  | KReady continuation bool

record receipt_waiter =
  rw_handle :: nat

text \<open>A transport with its socket, the generation of its handlers and its consumer-id resolver's conversation.\<close>

record link =
  lk_gen :: nat
  lk_conv :: nat
  lk_transport :: transport
  lk_socket :: browser_socket

record 'w chan =
  ch_heap :: "'w list"
  ch_links :: "link list"
  ch_transport :: "nat option"
  ch_connectGen :: nat
  ch_lastAccountEpoch :: nat
  ch_conv :: "nat option"
  ch_bootstrapKey :: string
  ch_sessions :: "(string, session_entry) jsmap"
  ch_welcomeOutbox :: "pending_welcome list"
  ch_outboxLoaded :: bool
  ch_welcomesSeen :: nat
  ch_welcomesJoined :: nat
  ch_lastWelcomeError :: string
  ch_ratchetPending :: "string list"
  ch_ratchetTimer :: "nat option"
  ch_provisioning :: "(nat \<times> provisioning) option"
  ch_pendingOps :: "(string, pending_op) jsmap"
  ch_failover :: "string list"
  ch_knownOwnKeys :: "string list"
  ch_chains :: "(string, nat) jsmap"
  ch_receipts :: "(string, receipt_waiter) jsmap"
  ch_jobs :: "(nat \<times> apply_job) list"
  ch_timers :: "(nat, nat \<times> timer_callback) jsmap"
  ch_tasks :: "(nat, continuation) jsmap"
  ch_next :: nat
  ch_clock :: nat
  ch_fx :: "effect list"

definition new_channel :: "'w chan" where
  "new_channel =
     \<lparr>ch_heap = [], ch_links = [], ch_transport = None, ch_connectGen = 0, ch_lastAccountEpoch = 0,
      ch_conv = None, ch_bootstrapKey = [], ch_sessions = [], ch_welcomeOutbox = [], ch_outboxLoaded = False,
      ch_welcomesSeen = 0, ch_welcomesJoined = 0, ch_lastWelcomeError = [], ch_ratchetPending = [],
      ch_ratchetTimer = None, ch_provisioning = None, ch_pendingOps = [], ch_failover = [],
      ch_knownOwnKeys = [], ch_chains = [], ch_receipts = [], ch_jobs = [], ch_timers = [], ch_tasks = [],
      ch_next = 0, ch_clock = 0, ch_fx = []\<rparr>"

text \<open>
  What the channel is constructed with. \<open>ce_has\<close> says which of the optional collaborators are wired;
  their answers arrive as events. Random bytes and jitter are read off a counter.
\<close>

datatype wiring =
    HasPersistence | HasWelcomeOutbox | HasIdentityFrames | HasPersistPeer | HasSiblingIdentity | HasAwayReply
  | HasBlockedRoster | HasFileSignal | HasCallSignal | HasBuddies | HasBuddiesFrame | HasGroups | HasGroupsFrame
  | HasRevoke | HasDeleteChannel | HasClosedIds

record 'w chan_env =
  ce_ops :: "'w group_ops"
  ce_has :: "wiring \<Rightarrow> bool"
  ce_make :: "string \<Rightarrow> string \<Rightarrow> 'w result"
  ce_random :: "nat \<Rightarrow> bytes"
  ce_jitter :: "nat \<Rightarrow> nat"
  ce_encodePublish :: "envelope_msg \<Rightarrow> bytes result"
  ce_encodeSubscribe :: "string \<Rightarrow> string \<Rightarrow> bytes"
  ce_encodeAck :: "bytes \<Rightarrow> bytes"
  ce_contactIdentDigest :: "(string \<Rightarrow> string result) option"
  ce_sasDigest :: "string \<Rightarrow> string \<Rightarrow> string \<Rightarrow> nat \<Rightarrow> string"
  ce_keypair :: bool
  ce_seal :: "(bytes \<Rightarrow> bytes \<Rightarrow> bytes result) option"
  ce_open :: "(bytes \<Rightarrow> bytes \<Rightarrow> bytes result) option"
  ce_sha256 :: "bytes \<Rightarrow> bytes"
  ce_parseJson :: "string \<Rightarrow> json option"

section \<open>Constants and strings\<close>

definition SEVEN_DAYS :: nat where "SEVEN_DAYS = 604800"

definition GATEWAY_MAX_TTL_SECONDS :: nat where "GATEWAY_MAX_TTL_SECONDS = 86400"

definition WELCOME_TTL_SECONDS :: nat where "WELCOME_TTL_SECONDS = GATEWAY_MAX_TTL_SECONDS"

definition WELCOME_OUTBOX_TTL_MS :: nat where "WELCOME_OUTBOX_TTL_MS = SEVEN_DAYS * 1000"

definition WELCOME_OUTBOX_MAX_ATTEMPTS :: nat where "WELCOME_OUTBOX_MAX_ATTEMPTS = 12"

definition PROV_TTL :: nat where "PROV_TTL = 600"

definition REVOKE_RECEIPT_MS :: nat where "REVOKE_RECEIPT_MS = 10000"

definition RATCHET_FLUSH_MS :: nat where "RATCHET_FLUSH_MS = 15000"

definition ADD_CONFIRM_MS :: nat where "ADD_CONFIRM_MS = 8000"

definition RESTORE_CONFIRM_MS :: nat where "RESTORE_CONFIRM_MS = 24000"

definition ADD_FAILOVER_MS :: nat where "ADD_FAILOVER_MS = 6000"

definition RECONCILE_JITTER_MS :: nat where "RECONCILE_JITTER_MS = 2000"

definition POISON_DROP_PREFIX :: string where "POISON_DROP_PREFIX = ''drop:''"

definition OWN_ECHO_DROP_PREFIX :: string where "OWN_ECHO_DROP_PREFIX = POISON_DROP_PREFIX @ ''own frame''"

definition PERMANENT_WELCOME_FAILURES :: "string list" where
  "PERMANENT_WELCOME_FAILURES =
     [''already a member of this group'', ''parse welcome:'', ''expected a Welcome message'',
      ''NoMatchingKeyPackage'', ''NoMatchingEncryptionKey'']"

definition WELCOME_ERROR_MARKERS :: "string list" where
  "WELCOME_ERROR_MARKERS =
     [''NoMatchingKeyPackage'', ''NoMatchingEncryptionKey'', ''already a member of this group'',
      ''UnsupportedExtension'']"

fun str_includes :: "string \<Rightarrow> string \<Rightarrow> bool" where
  "str_includes [] m = (m = [])"
| "str_includes (c # cs) m = (starts_with (c # cs) m \<or> str_includes cs m)"

definition isPermanentWelcomeFailure :: "string \<Rightarrow> bool" where
  "isPermanentWelcomeFailure detail \<longleftrightarrow>
     starts_with detail POISON_DROP_PREFIX \<or> list_ex (str_includes detail) PERMANENT_WELCOME_FAILURES"

definition shortWelcomeError :: "string \<Rightarrow> string" where
  "shortWelcomeError detail =
     (case find (str_includes detail) WELCOME_ERROR_MARKERS of Some m \<Rightarrow> m | None \<Rightarrow> slice 0 40 detail)"

text \<open>\<open>e instanceof Error ? e.message : String(e)\<close>; the messages of the built-in errors are the engine's.\<close>

definition errMsg :: "js_error \<Rightarrow> string" where
  "errMsg e = (case e of JsError m \<Rightarrow> m | HandshakeError m \<Rightarrow> m | RangeError \<Rightarrow> ''range'' | TypeError \<Rightarrow> ''type'')"

definition ascii_upper :: "char \<Rightarrow> char" where
  "ascii_upper c = (let n = (of_char c :: nat) in if 97 \<le> n \<and> n \<le> 122 then char_of (n - 32) else c)"

definition MIDDLE_DOT :: string where
  "MIDDLE_DOT = map char_of [194 :: nat, 183]"

fun join_with :: "string \<Rightarrow> string list \<Rightarrow> string" where
  "join_with sep [] = []"
| "join_with sep [w] = w"
| "join_with sep (w # ws) = w @ sep @ join_with sep ws"

definition fingerprintOf :: "string \<Rightarrow> string" where
  "fingerprintOf sigHex =
     join_with MIDDLE_DOT (map (\<lambda>i. map ascii_upper (slice i (i + 2) sigHex)) [0, 2, 4, 6])"

definition shortName :: "string \<Rightarrow> string" where
  "shortName sigHex = map ascii_upper (slice 0 6 sigHex)"

definition formatContact :: "string \<Rightarrow> string" where
  "formatContact sigHex = ''deaddrop'' @ '':'' @ ''1'' @ '':'' @ sigHex @ '':'' @ sigHex"

text \<open>The loop of \<open>bytesEqual\<close>.\<close>

fun bytes_equal_from :: "bytes \<Rightarrow> bytes \<Rightarrow> bool" where
  "bytes_equal_from (x # xs) (y # ys) = (if x \<noteq> y then False else bytes_equal_from xs ys)"
| "bytes_equal_from _ _ = True"

definition bytesEqual :: "bytes \<Rightarrow> bytes \<Rightarrow> bool" where
  "bytesEqual a b = (if length a \<noteq> length b then False else bytes_equal_from a b)"

definition convId :: "string \<Rightarrow> string" where
  "convId groupId = ''c-'' @ groupId"

text \<open>\<open>conversationId.startsWith('c-') ? conversationId.slice(2) : conversationId\<close>\<close>

definition groupId_of :: "string \<Rightarrow> string" where
  "groupId_of cid = (if starts_with cid ''c-'' then drop 2 cid else cid)"

lemma bytesEqual_eq: "bytesEqual a b \<longleftrightarrow> a = b"
proof -
  have "length a = length b \<Longrightarrow> bytes_equal_from a b \<longleftrightarrow> a = b"
    by (induction a b rule: bytes_equal_from.induct) auto
  then show ?thesis by (auto simp: bytesEqual_def)
qed

lemma groupId_of_convId [simp]: "groupId_of (convId g) = g"
  by (simp add: groupId_of_def convId_def starts_with_def)

end
