(* ===== verification/ChannelOps.thy ===== *)
theory ChannelOps
  imports Channel "HOL-Library.List_Lexorder" "HOL-Library.Char_ord"
begin

text \<open>
  The methods of \<open>GroupChannel\<close> below its message handlers: identity and contact-graph publication, the
  canonical self-group, the ratchet flush, the Welcome outbox and sealing. JavaScript compares strings by
  code unit, which on the hexadecimal keys and group ids is the lexicographic order used here.
\<close>

section \<open>Statements\<close>

type_synonym ('w, 'a) cact = "('w chan, 'a) act"

definition queryA :: "('w chan \<Rightarrow> 'a result) \<Rightarrow> ('w, 'a) cact" where
  "queryA f = (\<lambda>s. (f s, s))"

definition effectA :: "effect \<Rightarrow> ('w, unit) cact" where
  "effectA e = modA (\<lambda>s. s\<lparr>ch_fx := ch_fx s @ [e]\<rparr>)"

definition pushA :: "push_event \<Rightarrow> ('w, unit) cact" where
  "pushA e = effectA (FxPush e)"

definition freshA :: "('w, nat) cact" where
  "freshA = (\<lambda>s. (Inr (ch_next s), s\<lparr>ch_next := ch_next s + 1\<rparr>))"

definition randomA :: "'w chan_env \<Rightarrow> ('w, bytes) cact" where
  "randomA C = bindA freshA (\<lambda>n. ret (ce_random C n))"

definition awaitA :: "continuation \<Rightarrow> ('w, unit) cact" where
  "awaitA k = bindA freshA (\<lambda>n. modA (\<lambda>s. s\<lparr>ch_tasks := ch_tasks s @ [(n, k)]\<rparr>))"

definition scheduleA :: "nat \<Rightarrow> timer_callback \<Rightarrow> ('w, nat) cact" where
  "scheduleA ms cb = bindA freshA (\<lambda>h. bindA (modA (\<lambda>s. s\<lparr>ch_timers := ch_timers s @ [(h, ms, cb)]\<rparr>)) (\<lambda>_. ret h))"

definition cancelA :: "nat \<Rightarrow> ('w, unit) cact" where
  "cancelA h = modA (\<lambda>s. s\<lparr>ch_timers := jm_delete h (ch_timers s)\<rparr>)"

text \<open>A method of a conversation object that leaves it alone, and one that may change it.\<close>

definition convQ :: "nat \<Rightarrow> ('w \<Rightarrow> 'a result) \<Rightarrow> ('w, 'a) cact" where
  "convQ r f = (\<lambda>s. (f (ch_heap s ! r), s))"

definition convM :: "nat \<Rightarrow> ('w \<Rightarrow> 'a result \<times> 'w) \<Rightarrow> ('w, 'a) cact" where
  "convM r f = (\<lambda>s. case f (ch_heap s ! r) of (x, w) \<Rightarrow> (x, s\<lparr>ch_heap := (ch_heap s)[r := w]\<rparr>))"

definition gsQ :: "(string \<Rightarrow> 'w \<Rightarrow> 'a result) \<Rightarrow> gsession \<Rightarrow> ('w, 'a) cact" where
  "gsQ f g = convQ (gs_conv g) (f (gs_groupId g))"

definition gsM :: "(string \<Rightarrow> 'w \<Rightarrow> 'a result \<times> 'w) \<Rightarrow> gsession \<Rightarrow> ('w, 'a) cact" where
  "gsM f g = convM (gs_conv g) (f (gs_groupId g))"

definition set_link :: "nat \<Rightarrow> link \<Rightarrow> 'w chan \<Rightarrow> 'w chan" where
  "set_link n l s = s\<lparr>ch_links := (ch_links s)[n := l]\<rparr>"

text \<open>\<open>Transport.publish\<close>, \<open>subscribe\<close> and \<open>ack\<close>; the last two throw on a closed socket.\<close>

definition publishOn :: "'w chan_env \<Rightarrow> nat \<Rightarrow> envelope_msg \<Rightarrow> ('w, unit) cact" where
  "publishOn C n env =
     block [effectA (FxPublish n env),
            modA (\<lambda>s. let l = ch_links s ! n in
                        case publish bs_send (ce_encodePublish C) env (lk_transport l, lk_socket l) of
                          (t, k) \<Rightarrow> set_link n (l\<lparr>lk_transport := t, lk_socket := k\<rparr>) s)]"

definition socketA :: "nat \<Rightarrow> bytes \<Rightarrow> ('w, unit) cact" where
  "socketA n b = (\<lambda>s. let l = ch_links s ! n in
     case bs_send (lk_socket l) b of
       Inl e \<Rightarrow> (Inl e, s)
     | Inr k \<Rightarrow> (Inr (), set_link n (l\<lparr>lk_socket := k\<rparr>) s))"

definition subscribeOn :: "'w chan_env \<Rightarrow> nat \<Rightarrow> string \<Rightarrow> ('w, unit) cact" where
  "subscribeOn C n key =
     bindA (readA (\<lambda>s. go_mailboxTag (ce_ops C) key (ch_heap s ! lk_conv (ch_links s ! n)))) (\<lambda>tag.
       block [effectA (FxSubscribe n key), socketA n (ce_encodeSubscribe C key tag)])"

definition ackOn :: "'w chan_env \<Rightarrow> nat \<Rightarrow> bytes \<Rightarrow> ('w, unit) cact" where
  "ackOn C n mid = block [effectA (FxAck n mid), socketA n (ce_encodeAck C mid)]"

definition publishNew :: "'w chan_env \<Rightarrow> nat \<Rightarrow> string \<Rightarrow> bytes \<Rightarrow> nat \<Rightarrow> ('w, unit) cact" where
  "publishNew C n key payload ttl =
     bindA (randomA C) (\<lambda>mid. publishOn C n
       \<lparr>ev_messageId = mid, ev_routingKey = key, ev_payload = payload, ev_ttlSeconds = ttl\<rparr>)"

definition requireConv :: "('w, nat) cact" where
  "requireConv = (\<lambda>s. case ch_conv s of None \<Rightarrow> (Inl (JsError ''connect to the gateway first''), s) | Some r \<Rightarrow> (Inr r, s))"

definition requireTransport :: "('w, nat) cact" where
  "requireTransport =
     (\<lambda>s. case ch_transport s of None \<Rightarrow> (Inl (JsError ''connect to the gateway first''), s) | Some n \<Rightarrow> (Inr n, s))"

text \<open>An asynchronous method that threw before its first \<open>await\<close> rejects.\<close>

definition asyncA :: "('w, unit) cact \<Rightarrow> ('w, unit) cact" where
  "asyncA m = catchA m (\<lambda>e. effectA (FxReject e))"

definition resolveA :: "call_result \<Rightarrow> ('w, unit) cact" where
  "resolveA r = effectA (FxResolve r)"

section \<open>Own identity\<close>

definition selfContact :: "'w chan \<Rightarrow> string option" where
  "selfContact s = (if ch_conv s \<noteq> None then Some (formatContact (ch_bootstrapKey s)) else None)"

definition selfFingerprint :: "'w chan \<Rightarrow> string" where
  "selfFingerprint s = (if ch_conv s \<noteq> None then fingerprintOf (ch_bootstrapKey s) else ''pending'')"

definition selfDeviceKeyHex :: "'w chan \<Rightarrow> string" where
  "selfDeviceKeyHex s = ch_bootstrapKey s"

definition accountKeyHex :: "'w chan_env \<Rightarrow> 'w chan \<Rightarrow> string" where
  "accountKeyHex C s =
     (case ch_conv s of Some r \<Rightarrow> go_accountKeyHex (ce_ops C) (ch_heap s ! r) | None \<Rightarrow> [])"

text \<open>\<open>conv.credentialCertified?.() ?? d\<close>\<close>

definition credential_certified :: "'w chan_env \<Rightarrow> bool \<Rightarrow> nat \<Rightarrow> 'w chan \<Rightarrow> bool" where
  "credential_certified C d r s =
     (case go_credentialCertified (ce_ops C) of Some f \<Rightarrow> f (ch_heap s ! r) | None \<Rightarrow> d)"

section \<open>The canonical self-group\<close>

text \<open>A loaded self-group with what the choice looks at: its session, whether it is strict, its size.\<close>

type_synonym candidate = "gsession \<times> bool \<times> nat"

definition better :: "candidate \<Rightarrow> candidate option \<Rightarrow> bool" where
  "better c best =
     (case best of
        None \<Rightarrow> True
      | Some (b, bestStrict, m) \<Rightarrow>
          (case c of (g, strict, n) \<Rightarrow>
             let populated = 1 < n; bestPopulated = 1 < m in
             (populated \<and> \<not> bestPopulated)
             \<or> (populated = bestPopulated
                \<and> ((strict \<and> \<not> bestStrict)
                   \<or> (strict = bestStrict \<and> (m < n \<or> (n = m \<and> gs_groupId g < gs_groupId b)))))))"

text \<open>What one turn of the loop reads of an entry; \<open>None\<close> when the entry is no self-group.\<close>

definition self_candidate :: "'w chan_env \<Rightarrow> 'w chan \<Rightarrow> gsession \<Rightarrow> candidate option result" where
  "self_candidate C s g =
     (let w = ch_heap s ! gs_conv g; gid = gs_groupId g in
      case gs_isSelfConversation (ce_ops C) gid w of
        Inl e \<Rightarrow> Inl e
      | Inr False \<Rightarrow> Inr None
      | Inr True \<Rightarrow>
          bind_result (gs_isSelfConversationStrict (ce_ops C) gid w) (\<lambda>strict.
            bind_result (gs_roster (ce_ops C) gid w) (\<lambda>members. Inr (Some (g, strict, length members)))))"

fun best_of :: "'w chan_env \<Rightarrow> 'w chan \<Rightarrow> gsession list \<Rightarrow> candidate option \<Rightarrow> candidate option result" where
  "best_of C s [] best = Inr best"
| "best_of C s (g # gs) best =
     (case self_candidate C s g of
        Inl e \<Rightarrow> Inl e
      | Inr None \<Rightarrow> best_of C s gs best
      | Inr (Some c) \<Rightarrow> best_of C s gs (if better c best then Some c else best))"

definition session_list :: "'w chan \<Rightarrow> gsession list" where
  "session_list s = map en_session (jm_values (ch_sessions s))"

definition selfSessionBest :: "'w chan_env \<Rightarrow> 'w chan \<Rightarrow> candidate option result" where
  "selfSessionBest C s = best_of C s (session_list s) None"

definition selfSession :: "'w chan_env \<Rightarrow> 'w chan \<Rightarrow> gsession option result" where
  "selfSession C s = bind_result (selfSessionBest C s) (\<lambda>b. Inr (map_option fst b))"

definition selfGroupSuffices :: "'w chan_env \<Rightarrow> 'w chan \<Rightarrow> bool result" where
  "selfGroupSuffices C s =
     bind_result (selfSessionBest C s) (\<lambda>b. Inr
       (case b of
          None \<Rightarrow> False
        | Some (_, strict, n) \<Rightarrow>
            (case ch_conv s of
               None \<Rightarrow> True
             | Some r \<Rightarrow>
                 if strict \<or> go_accountKeyHex (ce_ops C) (ch_heap s ! r) = [] then True
                 else if 1 < n then True
                 else \<not> credential_certified C False r s)))"

definition selfGroupNeedsCertifiedReplacement :: "'w chan_env \<Rightarrow> 'w chan \<Rightarrow> bool result" where
  "selfGroupNeedsCertifiedReplacement C s =
     bind_result (selfSessionBest C s) (\<lambda>b. Inr
       (case b of
          None \<Rightarrow> False
        | Some (_, strict, n) \<Rightarrow>
            if strict then False
            else (case ch_conv s of
                None \<Rightarrow> False
              | Some r \<Rightarrow>
                  if go_accountKeyHex (ce_ops C) (ch_heap s ! r) = [] then False
                  else if n < 2 then False
                  else credential_certified C False r s)))"

definition hasSelfGroup :: "'w chan_env \<Rightarrow> 'w chan \<Rightarrow> bool result" where
  "hasSelfGroup C s =
     bind_result (selfGroupSuffices C s) (\<lambda>a.
       if a then bind_result (selfGroupNeedsCertifiedReplacement C s) (\<lambda>b. Inr (\<not> b)) else Inr False)"

definition selfConversationId :: "'w chan_env \<Rightarrow> 'w chan \<Rightarrow> string option result" where
  "selfConversationId C s = bind_result (selfSession C s) (\<lambda>g. Inr (map_option (\<lambda>x. convId (gs_groupId x)) g))"

definition selfGroupDiagnostic :: "'w chan_env \<Rightarrow> 'w chan \<Rightarrow> string result" where
  "selfGroupDiagnostic C s =
     bind_result (selfSession C s) (\<lambda>session.
       let devices = (case session of
               None \<Rightarrow> []
             | Some g \<Rightarrow>
                 (let n = (case gs_roster (ce_ops C) (gs_groupId g) (ch_heap s ! gs_conv g) of Inl _ \<Rightarrow> 0 | Inr ms \<Rightarrow> length ms) in
                  if 0 < n then [decimal n @ '' device'' @ (if n = 1 then [] else ''s'')] else []));
           epoch = (case (session, ch_conv s, go_groupEpoch (ce_ops C)) of
               (Some g, Some r, Some f) \<Rightarrow>
                 (let e = f (gs_groupId g) (ch_heap s ! r) in if 0 \<le> e then [''e'' @ decimal (nat e)] else [])
             | _ \<Rightarrow> []);
           welcomes = [''W'' @ decimal (ch_welcomesSeen s) @ ''/'' @ decimal (ch_welcomesJoined s)];
           problem = (if ch_lastWelcomeError s \<noteq> [] then [shortWelcomeError (ch_lastWelcomeError s)] else [])
       in Inr (join_with ('' '' @ MIDDLE_DOT @ '' '') (devices @ epoch @ welcomes @ problem)))"

definition isSelfConversationId :: "'w chan_env \<Rightarrow> string \<Rightarrow> 'w chan \<Rightarrow> bool result" where
  "isSelfConversationId C cid s =
     (case jm_get (ch_sessions s) cid of
        None \<Rightarrow> Inr False
      | Some en \<Rightarrow> gs_isSelfConversation (ce_ops C) (gs_groupId (en_session en)) (ch_heap s ! gs_conv (en_session en)))"

definition selfClassificationReason :: "'w chan_env \<Rightarrow> string \<Rightarrow> 'w chan \<Rightarrow> string" where
  "selfClassificationReason C cid s =
     (case jm_get (ch_sessions s) cid of
        None \<Rightarrow> []
      | Some en \<Rightarrow> gs_selfClassificationReason (ce_ops C) (gs_groupId (en_session en)) (ch_heap s ! gs_conv (en_session en)))"

definition isUnlinkedConversationId :: "'w chan_env \<Rightarrow> string \<Rightarrow> 'w chan \<Rightarrow> bool" where
  "isUnlinkedConversationId C cid s =
     (case jm_get (ch_sessions s) cid of
        None \<Rightarrow> False
      | Some en \<Rightarrow> gs_unlinked (ce_ops C) (gs_groupId (en_session en)) (ch_heap s ! gs_conv (en_session en)))"

definition peerAccountKeysFor :: "'w chan_env \<Rightarrow> string \<Rightarrow> 'w chan \<Rightarrow> string list" where
  "peerAccountKeysFor C cid s =
     (case jm_get (ch_sessions s) cid of
        None \<Rightarrow> []
      | Some en \<Rightarrow> gs_peerAccountKeys (ce_ops C) (gs_groupId (en_session en)) (ch_heap s ! gs_conv (en_session en)))"

definition contactPhraseFor :: "'w chan_env \<Rightarrow> string \<Rightarrow> string" where
  "contactPhraseFor C aakHex =
     (if \<not> (length aakHex = 64 \<and> list_all is_lower_hex aakHex) then []
      else case ce_contactIdentDigest C of
          None \<Rightarrow> []
        | Some f \<Rightarrow> (case f aakHex of Inl _ \<Rightarrow> [] | Inr digest \<Rightarrow> renderContactPhraseHex digest))"

definition heldConversationIds :: "'w chan_env \<Rightarrow> 'w chan \<Rightarrow> string list" where
  "heldConversationIds C s =
     (case ch_conv s of None \<Rightarrow> [] | Some r \<Rightarrow> map convId (go_listConversations (ce_ops C) (ch_heap s ! r)))"

section \<open>Sealing\<close>

text \<open>
  \<open>resealSelf()\<close> with what follows its promise. Without a conversation or a store it settles at once,
  which \<open>KReady\<close> records.
\<close>

definition resealSelf :: "'w chan_env \<Rightarrow> continuation \<Rightarrow> ('w, unit) cact" where
  "resealSelf C k =
     (\<lambda>s. case ch_conv s of
        None \<Rightarrow> awaitA (KReady k False) s
      | Some r \<Rightarrow>
          if \<not> ce_has C HasPersistence then awaitA (KReady k True) s
          else block [effectA (FxReseal r), awaitA k] s)"

section \<open>Publishing our identity and contact graph\<close>

definition gs_sendControlA :: "'w chan_env \<Rightarrow> nat \<Rightarrow> bytes \<Rightarrow> gsession \<Rightarrow> ('w, envelope_msg) cact" where
  "gs_sendControlA C controlType payload g =
     bindA (randomA C) (\<lambda>mid. gsM (\<lambda>gid. gs_sendControl (ce_ops C) gid mid controlType 1 payload None) g)"

definition publishIdentityFor :: "'w chan_env \<Rightarrow> gsession \<Rightarrow> ('w, unit) cact" where
  "publishIdentityFor C g =
     (\<lambda>s. if ch_transport s = None \<or> \<not> ce_has C HasIdentityFrames then skip s else awaitA (KIdentity g) s)"

definition identity_loaded :: "'w chan_env \<Rightarrow> gsession \<Rightarrow> (nat \<times> bytes) list \<Rightarrow> ('w, unit) cact" where
  "identity_loaded C g frames =
     catchA (\<lambda>s. case ch_transport s of
         None \<Rightarrow> skip s
       | Some n \<Rightarrow> forA frames (\<lambda>(ct, payload). bindA (gs_sendControlA C ct payload g) (publishOn C n)) s)
       (\<lambda>_. skip)"

definition publishIdentity :: "'w chan_env \<Rightarrow> ('w, unit) cact" where
  "publishIdentity C = (\<lambda>s. forA (session_list s) (publishIdentityFor C) s)"

definition publishIdentityNow :: "'w chan_env \<Rightarrow> ('w, unit) cact" where
  "publishIdentityNow C = publishIdentity C"

definition publishBuddiesFor :: "'w chan_env \<Rightarrow> gsession \<Rightarrow> ('w, unit) cact" where
  "publishBuddiesFor C g =
     (\<lambda>s. if ch_transport s = None \<or> \<not> ce_has C HasBuddiesFrame then skip s
          else bindA (gsQ (gs_isSelfConversation (ce_ops C)) g) (\<lambda>own. whenA own (awaitA (KBuddies g))) s)"

definition publishGroupsFor :: "'w chan_env \<Rightarrow> gsession \<Rightarrow> ('w, unit) cact" where
  "publishGroupsFor C g =
     (\<lambda>s. if ch_transport s = None \<or> \<not> ce_has C HasGroupsFrame then skip s
          else bindA (gsQ (gs_isSelfConversation (ce_ops C)) g) (\<lambda>own. whenA own (awaitA (KGroups g))) s)"

text \<open>The continuation of both, once the frame is loaded.\<close>

definition graph_frame_loaded :: "'w chan_env \<Rightarrow> nat \<Rightarrow> gsession \<Rightarrow> bytes option \<Rightarrow> ('w, unit) cact" where
  "graph_frame_loaded C controlType g fr =
     catchA (\<lambda>s. case (fr, ch_transport s) of
         (Some payload, Some n) \<Rightarrow> bindA (gs_sendControlA C controlType payload g) (publishOn C n) s
       | _ \<Rightarrow> skip s)
       (\<lambda>_. skip)"

definition with_self_session :: "'w chan_env \<Rightarrow> (gsession \<Rightarrow> ('w, unit) cact) \<Rightarrow> ('w, unit) cact" where
  "with_self_session C f =
     bindA (queryA (selfSession C)) (\<lambda>g. case g of None \<Rightarrow> skip | Some x \<Rightarrow> f x)"

definition syncBuddies :: "'w chan_env \<Rightarrow> ('w, unit) cact" where
  "syncBuddies C = with_self_session C (publishBuddiesFor C)"

definition syncGroups :: "'w chan_env \<Rightarrow> ('w, unit) cact" where
  "syncGroups C = with_self_session C (publishGroupsFor C)"

definition resyncSelfGroup :: "'w chan_env \<Rightarrow> ('w, unit) cact" where
  "resyncSelfGroup C =
     with_self_session C (\<lambda>g. block [publishIdentityFor C g, publishBuddiesFor C g, publishGroupsFor C g])"

section \<open>The receive-ratchet flush\<close>

definition add_once :: "'a \<Rightarrow> 'a list \<Rightarrow> 'a list" where
  "add_once x xs = (if x \<in> set xs then xs else xs @ [x])"

definition scheduleRatchetFlush :: "string \<Rightarrow> ('w, unit) cact" where
  "scheduleRatchetFlush cid =
     block [modA (\<lambda>s. s\<lparr>ch_ratchetPending := add_once cid (ch_ratchetPending s)\<rparr>),
       (\<lambda>s. if ch_ratchetTimer s \<noteq> None then skip s
            else bindA (scheduleA RATCHET_FLUSH_MS TmRatchetFlush)
                   (\<lambda>h. modA (\<lambda>s. s\<lparr>ch_ratchetTimer := Some h\<rparr>)) s)]"

fun flush_sessions :: "'w chan_env \<Rightarrow> string list \<Rightarrow> bool \<Rightarrow> ('w, bool) cact" where
  "flush_sessions C [] flushed = ret flushed"
| "flush_sessions C (cid # ids) flushed =
     bindA (readA (\<lambda>s. jm_get (ch_sessions s) cid)) (\<lambda>en.
       case en of
         None \<Rightarrow> flush_sessions C ids flushed
       | Some x \<Rightarrow>
           bindA (gsM (\<lambda>gid w. apfst Inr (gs_flushReceiveRatchet (ce_ops C) gid w)) (en_session x))
             (\<lambda>b. flush_sessions C ids (flushed \<or> b)))"

definition ratchet_flush_fires :: "'w chan_env \<Rightarrow> ('w, unit) cact" where
  "ratchet_flush_fires C =
     bindA (readA ch_ratchetPending) (\<lambda>ids.
       bindA (modA (\<lambda>s. s\<lparr>ch_ratchetTimer := None, ch_ratchetPending := []\<rparr>)) (\<lambda>_.
         bindA (flush_sessions C ids False) (\<lambda>flushed. whenA flushed (resealSelf C KSealIgnored))))"

section \<open>The Welcome outbox\<close>

definition save_outbox :: "('w, unit) cact" where
  "save_outbox = (\<lambda>s. effectA (FxSaveOutbox (ch_welcomeOutbox s)) s)"

text \<open>\<open>rememberWelcome\<close> once the stored outbox is loaded.\<close>

definition remember_loaded :: "string \<Rightarrow> string \<Rightarrow> bytes \<Rightarrow> outbox_then \<Rightarrow> ('w, unit) cact" where
  "remember_loaded cid key welcome k =
     block [modA (\<lambda>s. s\<lparr>ch_welcomeOutbox :=
              filter (\<lambda>e. \<not> (pw_conversationId e = cid \<and> pw_deviceKey e = key)) (ch_welcomeOutbox s)
              @ [\<lparr>pw_conversationId = cid, pw_deviceKey = key, pw_welcomeHex = bytesToHex welcome,
                  pw_createdAt = ch_clock s, pw_attempts = 0\<rparr>]\<rparr>),
            save_outbox, awaitA (KSaveOutbox k)]"

text \<open>The result says whether the caller goes on at once, there being no outbox store.\<close>

definition rememberWelcome :: "'w chan_env \<Rightarrow> string \<Rightarrow> string \<Rightarrow> bytes \<Rightarrow> outbox_then \<Rightarrow> ('w, bool) cact" where
  "rememberWelcome C cid key welcome k =
     (\<lambda>s. if \<not> ce_has C HasWelcomeOutbox then ret True s
          else if ch_outboxLoaded s then bindA (remember_loaded cid key welcome k) (\<lambda>_. ret False) s
          else bindA (block [modA (\<lambda>s. s\<lparr>ch_outboxLoaded := True\<rparr>), awaitA (KLoadOutboxRemember cid key welcome k)])
                 (\<lambda>_. ret False) s)"

definition retireWelcomes :: "'w chan_env \<Rightarrow> string \<Rightarrow> ('w, unit) cact" where
  "retireWelcomes C cid =
     (\<lambda>s. if \<not> ce_has C HasWelcomeOutbox \<or> ch_welcomeOutbox s = [] then skip s
          else
            let kept = filter (\<lambda>e. pw_conversationId e \<noteq> cid) (ch_welcomeOutbox s) in
            if length kept = length (ch_welcomeOutbox s) then skip s
            else block [modA (\<lambda>s. s\<lparr>ch_welcomeOutbox := kept\<rparr>), save_outbox] s)"

text \<open>
  \<open>this.welcomeOutbox = await load()\<close>: the stored entries replace whatever the field holds by then; a
  store that cannot be read counts as empty.
\<close>

definition outbox_arrived :: "pending_welcome list option \<Rightarrow> ('w, unit) cact" where
  "outbox_arrived stored = modA (\<lambda>s. s\<lparr>ch_welcomeOutbox := (case stored of None \<Rightarrow> [] | Some es \<Rightarrow> es)\<rparr>)"

definition replayWelcomeOutbox :: "'w chan_env \<Rightarrow> ('w, unit) cact" where
  "replayWelcomeOutbox C =
     (\<lambda>s. if ch_outboxLoaded s \<or> \<not> ce_has C HasWelcomeOutbox then awaitA (KLoadOutboxReplay False) s
          else block [modA (\<lambda>s. s\<lparr>ch_outboxLoaded := True\<rparr>), awaitA (KLoadOutboxReplay True)] s)"

text \<open>The devices in the canonical self-group; an unreadable roster settles nobody.\<close>

definition settled_devices :: "'w chan_env \<Rightarrow> ('w, string list) cact" where
  "settled_devices C =
     bindA (queryA (selfSessionBest C)) (\<lambda>best.
       case best of
         None \<Rightarrow> ret []
       | Some (g, _) \<Rightarrow> catchA (gsQ (gs_roster (ce_ops C)) g) (\<lambda>_. ret []))"

text \<open>The loop of \<open>replayWelcomeOutbox\<close>, collecting the entries that stay.\<close>

fun replay_entries ::
  "'w chan_env \<Rightarrow> nat \<Rightarrow> nat \<Rightarrow> string list \<Rightarrow> pending_welcome list \<Rightarrow> pending_welcome list
     \<Rightarrow> ('w, pending_welcome list) cact" where
  "replay_entries C n now settled [] live = ret live"
| "replay_entries C n now settled (e # es) live =
     (if pw_createdAt e + WELCOME_OUTBOX_TTL_MS < now \<or> pw_deviceKey e \<in> set settled
      then replay_entries C n now settled es live
      else
        let attempts = pw_attempts e + 1 in
        if WELCOME_OUTBOX_MAX_ATTEMPTS < attempts then replay_entries C n now settled es live
        else bindA (catchA (publishNew C n (pw_deviceKey e) (hexToBytes (pw_welcomeHex e)) WELCOME_TTL_SECONDS) (\<lambda>_. skip))
               (\<lambda>_. replay_entries C n now settled es (live @ [e\<lparr>pw_attempts := attempts\<rparr>])))"

definition replay_loaded :: "'w chan_env \<Rightarrow> ('w, unit) cact" where
  "replay_loaded C =
     (\<lambda>s. case ch_transport s of
        None \<Rightarrow> skip s
      | Some n \<Rightarrow>
          if ch_welcomeOutbox s = [] then skip s
          else
            bindA (settled_devices C) (\<lambda>settled.
              bindA (readA ch_clock) (\<lambda>now.
                bindA (readA ch_welcomeOutbox) (\<lambda>entries.
                  bindA (replay_entries C n now settled entries []) (\<lambda>live.
                    block [modA (\<lambda>s. s\<lparr>ch_welcomeOutbox := live\<rparr>),
                           whenA (ce_has C HasWelcomeOutbox) save_outbox])))) s)"

section \<open>Leaving and closing\<close>

definition leaveConversation :: "string \<Rightarrow> ('w, unit) cact" where
  "leaveConversation cid =
     block [(\<lambda>s. case jm_get (ch_pendingOps s) cid of
               None \<Rightarrow> skip s
             | Some pa \<Rightarrow> block [cancelA (po_handle pa), modA (\<lambda>s. s\<lparr>ch_pendingOps := jm_delete cid (ch_pendingOps s)\<rparr>)] s),
            modA (\<lambda>s. s\<lparr>ch_sessions := jm_delete cid (ch_sessions s)\<rparr>),
            modA (\<lambda>s. s\<lparr>ch_chains := jm_delete cid (ch_chains s)\<rparr>)]"

definition closeConversation :: "'w chan_env \<Rightarrow> string \<Rightarrow> ('w, unit) cact" where
  "closeConversation C cid =
     asyncA (block
       [(\<lambda>s. case (ch_conv s, go_closeConversation (ce_ops C)) of
           (Some r, Some f) \<Rightarrow> convM r (f (groupId_of cid)) s
         | _ \<Rightarrow> skip s),
        leaveConversation cid,
        resealSelf C (KSealed (RClosed cid))])"

text \<open>\<open>None\<close> resolves false without touching anything: older wasm, or the crypto layer refused.\<close>

definition abandonDeadSelfGroup :: "'w chan_env \<Rightarrow> string \<Rightarrow> bool \<Rightarrow> ('w, unit) cact" where
  "abandonDeadSelfGroup C cid recordedSelf =
     (\<lambda>s. case (ch_conv s, go_abandonDeadSelfGroup (ce_ops C)) of
        (Some r, Some f) \<Rightarrow>
          bindA (catchA (convM r (f (groupId_of cid) recordedSelf)) (\<lambda>_. ret False)) (\<lambda>abandoned.
            if \<not> abandoned then resolveA (RAbandoned False)
            else block [leaveConversation cid, resealSelf C (KSealed (RAbandoned True))]) s
      | _ \<Rightarrow> resolveA (RAbandoned False) s)"

section \<open>Opening and creating the self-group\<close>

definition add_session :: "gsession \<Rightarrow> string \<Rightarrow> ('w, unit) cact" where
  "add_session g mailbox =
     modA (\<lambda>s. s\<lparr>ch_sessions := jm_set (convId (gs_groupId g)) \<lparr>en_session = g, en_mailbox = mailbox\<rparr> (ch_sessions s)\<rparr>)"

definition openSelfConversation :: "'w chan_env \<Rightarrow> ('w, unit) cact" where
  "openSelfConversation C =
     asyncA (bindA (queryA (selfGroupSuffices C)) (\<lambda>suffices.
       bindA (if suffices then queryA (selfConversationId C) else ret None) (\<lambda>existing.
         case existing of
           Some cid \<Rightarrow> resolveA (RSelfConversation cid)
         | None \<Rightarrow>
             bindA requireConv (\<lambda>r.
               bindA (readA (\<lambda>s. go_accountKeyHex (ce_ops C) (ch_heap s ! r))) (\<lambda>key.
                 if key = [] then throw (JsError ''note to self is available on your account-key device'')
                 else
                   bindA requireTransport (\<lambda>n.
                     bindA (convM r (gs_createSelf (ce_ops C))) (\<lambda>gid.
                       let g = \<lparr>gs_conv = r, gs_groupId = gid\<rparr> in
                       bindA (gsQ (gs_mailbox (ce_ops C)) g) (\<lambda>mailbox.
                         block [add_session g mailbox, subscribeOn C n mailbox,
                                resealSelf C (KSealSecure (convId gid))]))))))))"

text \<open>The loop over the founding members, from the publication of the next Welcome on.\<close>

fun create_self_welcomes ::
  "'w chan_env \<Rightarrow> string \<Rightarrow> gsession \<Rightarrow> nat \<Rightarrow> bytes \<Rightarrow> device_target list \<Rightarrow> ('w, unit) cact" where
  "create_self_welcomes C cid g n welcome [] = resealSelf C (KSealCreated g)"
| "create_self_welcomes C cid g n welcome (d # ds) =
     bindA (publishNew C n (dt_deviceKey d) welcome WELCOME_TTL_SECONDS) (\<lambda>_.
       bindA (rememberWelcome C cid (dt_deviceKey d) welcome (ThenCreateSelf cid g n welcome ds)) (\<lambda>at_once.
         if at_once then create_self_welcomes C cid g n welcome ds else skip))"

definition self_eligible :: "'w chan_env \<Rightarrow> nat \<Rightarrow> 'w chan \<Rightarrow> device_target \<Rightarrow> bool" where
  "self_eligible C r s d =
     (case go_keyPackageSelfEligible (ce_ops C) of Some f \<Rightarrow> f (dt_keyPackage d) (ch_heap s ! r) | None \<Rightarrow> True)"

text \<open>\<open>createSelfGroup\<close> from the re-check on, after the credential has been brought up to date.\<close>

definition create_self_checked :: "'w chan_env \<Rightarrow> nat \<Rightarrow> nat \<Rightarrow> device_target list \<Rightarrow> ('w, unit) cact" where
  "create_self_checked C r n targets =
     bindA (queryA (hasSelfGroup C)) (\<lambda>held.
       if held then resolveA RCreated
       else
         bindA (readA (\<lambda>s. filter (self_eligible C r s) targets)) (\<lambda>eligible.
           if eligible = [] then throw (JsError ''no certified sibling package is available yet'')
           else
             bindA (convM r (gs_createSelfGroup (ce_ops C) (map dt_keyPackage eligible))) (\<lambda>(welcome, gid).
               let g = \<lparr>gs_conv = r, gs_groupId = gid\<rparr>; cid = convId gid in
               bindA (readA (\<lambda>s. jm_has (ch_sessions s) cid)) (\<lambda>already.
                 if already then resolveA RCreated
                 else
                   bindA (gsQ (gs_mailbox (ce_ops C)) g) (\<lambda>mailbox.
                     block [add_session g mailbox, subscribeOn C n mailbox,
                            create_self_welcomes C cid g n welcome eligible])))))"

definition createSelfGroup :: "'w chan_env \<Rightarrow> device_target list \<Rightarrow> ('w, unit) cact" where
  "createSelfGroup C targets =
     asyncA (bindA requireConv (\<lambda>r. bindA requireTransport (\<lambda>n.
       if targets = [] then resolveA RCreated
       else
         bindA (readA (\<lambda>s. go_accountKeyHex (ce_ops C) (ch_heap s ! r) \<noteq> [] \<and> \<not> credential_certified C True r s))
           (\<lambda>uncertified.
             if uncertified then
               bindA (readA (\<lambda>s. go_certEpoch (ce_ops C) (ch_heap s ! r))) (\<lambda>epoch.
                 bindA (convM r (go_reauthorizeAtEpoch (ce_ops C) epoch)) (\<lambda>_.
                   resealSelf C (KSealCreateSelf r n targets)))
             else create_self_checked C r n targets))))"

definition self_group_created :: "'w chan_env \<Rightarrow> gsession \<Rightarrow> ('w, unit) cact" where
  "self_group_created C g =
     asyncA (block [publishIdentityFor C g, publishBuddiesFor C g, publishGroupsFor C g,
                    pushA (PvConnection ''secure''), resolveA RCreated])"

section \<open>Signals, control frames and the away reply\<close>

definition send_signal :: "'w chan_env \<Rightarrow> nat \<Rightarrow> string \<Rightarrow> bytes \<Rightarrow> ('w, unit) cact" where
  "send_signal C controlType cid payload =
     (\<lambda>s. case (jm_get (ch_sessions s) cid, ch_transport s) of
        (Some en, Some n) \<Rightarrow> bindA (gs_sendControlA C controlType payload (en_session en)) (publishOn C n) s
      | _ \<Rightarrow> skip s)"

definition sendFileSignal :: "'w chan_env \<Rightarrow> string \<Rightarrow> bytes \<Rightarrow> ('w, unit) cact" where
  "sendFileSignal C cid payload = send_signal C CONTROL_FILE cid payload"

definition sendCallSignal :: "'w chan_env \<Rightarrow> string \<Rightarrow> bytes \<Rightarrow> ('w, unit) cact" where
  "sendCallSignal C cid payload = send_signal C CONTROL_CALL cid payload"

text \<open>
  \<open>JSON.parse\<close> is the built-in of the engine, a field of the environment that yields the parsed value or
  nothing when it throws. Reading \<open>k\<close> of a parsed \<open>null\<close> throws inside the same \<open>try\<close>.
\<close>

definition claimed_key :: "'w chan_env \<Rightarrow> bytes \<Rightarrow> string option" where
  "claimed_key C payload =
     (case ce_parseJson C (TextDecoder_decode payload) of
        None \<Rightarrow> None
      | Some v \<Rightarrow> if v = JNull then None
                  else Some (case as_string (json_prop v ''k'') of Some k \<Rightarrow> k | None \<Rightarrow> []))"

definition onControlFrame ::
  "'w chan_env \<Rightarrow> string \<Rightarrow> byte \<Rightarrow> bytes \<Rightarrow> bool \<Rightarrow> ('w, unit) cact" where
  "onControlFrame C cid controlType payload fromOwnAccount =
     (\<lambda>s. case jm_get (ch_sessions s) cid of
        None \<Rightarrow> skip s
      | Some en \<Rightarrow>
          (let ct = unat controlType in
           if ct = CONTROL_FILE then whenA (ce_has C HasFileSignal) (effectA (FxFileSignal cid payload)) s
           else if ct = CONTROL_CALL then whenA (ce_has C HasCallSignal) (effectA (FxCallSignal cid payload)) s
           else if ct = CONTROL_BUDDIES then
             whenA (fromOwnAccount \<and> ce_has C HasBuddies) (effectA (FxBuddies payload)) s
           else if ct = CONTROL_GROUPS then
             whenA (fromOwnAccount \<and> ce_has C HasGroups) (effectA (FxGroups payload)) s
           else if fromOwnAccount then
             whenA (ce_has C HasSiblingIdentity) (effectA (FxSiblingIdentity controlType payload)) s
           else if ct \<noteq> CONTROL_BUDDY_ICON \<and> ct \<noteq> CONTROL_PROFILE \<and> ct \<noteq> CONTROL_AWAY then skip s
           else if \<not> ce_has C HasPersistPeer then skip s
           else case claimed_key C payload of
               None \<Rightarrow> skip s
             | Some key \<Rightarrow>
                 if key = [] \<or> key = ch_bootstrapKey s then skip s
                 else bindA (gsQ (gs_roster (ce_ops C)) (en_session en)) (\<lambda>members.
                        whenA (key \<in> set members) (effectA (FxPersistPeer cid key controlType payload))) s))"

definition peerLabel :: "'w chan_env \<Rightarrow> gsession \<Rightarrow> ('w, string) cact" where
  "peerLabel C g =
     bindA (gsQ (gs_roster (ce_ops C)) g) (\<lambda>members.
       readA (\<lambda>s. case filter (\<lambda>k. k \<noteq> ch_bootstrapKey s) members of
                     k # _ \<Rightarrow> shortName k
                   | [] \<Rightarrow> ''GROUP''))"

definition AWAY_LIFETIME :: lifetime where
  "AWAY_LIFETIME = Duration 86400"

definition maybeAwayReply :: "'w chan_env \<Rightarrow> string \<Rightarrow> ('w, unit) cact" where
  "maybeAwayReply C cid =
     (\<lambda>s. case jm_get (ch_sessions s) cid of
        None \<Rightarrow> skip s
      | Some en \<Rightarrow>
          if \<not> ce_has C HasAwayReply then skip s
          else bindA (peerLabel C (en_session en)) (\<lambda>_. awaitA (KAwayText cid)) s)"

definition away_text_ready :: "'w chan_env \<Rightarrow> string \<Rightarrow> string option \<Rightarrow> ('w, unit) cact" where
  "away_text_ready C cid txt =
     (\<lambda>s. case txt of
        None \<Rightarrow> skip s
      | Some t \<Rightarrow>
          if \<not> jm_has (ch_sessions s) cid \<or> ch_transport s = None then skip s
          else bindA freshA (\<lambda>i. bindA (scheduleA (500 + ce_jitter C i mod 4500) (TmAwaySend cid t)) (\<lambda>_. skip)) s)"

text \<open>A stored outgoing message: its metadata and plaintext.\<close>

definition persist_out :: "envelope_msg \<Rightarrow> string \<Rightarrow> lifetime \<Rightarrow> string \<Rightarrow> ('w, unit) cact" where
  "persist_out env cid l txt =
     effectA (FxPersistMessage \<lparr>mm_messageId = bytesToHex (ev_messageId env), mm_conversationId = cid,
       mm_inbound = False, mm_lifetime = l, mm_ownAuthored = False\<rparr> (TextEncoder_encode txt))"

definition away_send_fires :: "'w chan_env \<Rightarrow> string \<Rightarrow> string \<Rightarrow> ('w, unit) cact" where
  "away_send_fires C cid txt =
     (\<lambda>s. case (jm_get (ch_sessions s) cid, ch_transport s) of
        (Some en, Some n) \<Rightarrow>
          bindA (randomA C) (\<lambda>mid.
            bindA (gsM (\<lambda>gid. gs_send (ce_ops C) gid mid (TextEncoder_encode txt) AWAY_LIFETIME None) (en_session en))
              (\<lambda>env. block [publishOn C n env, persist_out env cid AWAY_LIFETIME txt, awaitA (KPersistAway cid)])) s
      | _ \<Rightarrow> skip s)"

end
