(* ===== verification/ChannelHeal.thy ===== *)
theory ChannelHeal
  imports ChannelOps
begin

text \<open>
  Membership in \<open>GroupChannel\<close>: the self-heal that admits our own devices and removes revoked ones, the
  election of the device that does it, staged commits with their backstop timers, and what follows a
  membership change.
\<close>

section \<open>The election\<close>

definition ourDevicesInGroup :: "string \<Rightarrow> string list \<Rightarrow> string list \<Rightarrow> string list" where
  "ourDevicesInGroup self ownDeviceKeys members =
     sort (remdups (self # filter (\<lambda>k. k \<in> set members) ownDeviceKeys))"

definition isDesignatedAdder :: "string \<Rightarrow> string list \<Rightarrow> string list \<Rightarrow> bool" where
  "isDesignatedAdder self ownDeviceKeys members \<longleftrightarrow> hd (ourDevicesInGroup self ownDeviceKeys members) = self"

fun index_of :: "'a \<Rightarrow> 'a list \<Rightarrow> nat" where
  "index_of x [] = 0"
| "index_of x (y # ys) = (if x = y then 0 else Suc (index_of x ys))"

text \<open>The position-ranked delay of a device that waits for the designated one.\<close>

definition failover_delay :: "'w chan_env \<Rightarrow> string \<Rightarrow> string list \<Rightarrow> string list \<Rightarrow> nat \<Rightarrow> nat" where
  "failover_delay C self ownDeviceKeys members i =
     ADD_FAILOVER_MS * max 1 (index_of self (ourDevicesInGroup self ownDeviceKeys members))
     + ce_jitter C i mod RECONCILE_JITTER_MS"

fun any_missing :: "'w chan_env \<Rightarrow> 'w chan \<Rightarrow> string list \<Rightarrow> gsession list \<Rightarrow> bool result" where
  "any_missing C s ownDeviceKeys [] = Inr False"
| "any_missing C s ownDeviceKeys (g # gs) =
     (case gs_roster (ce_ops C) (gs_groupId g) (ch_heap s ! gs_conv g) of
        Inl e \<Rightarrow> Inl e
      | Inr members \<Rightarrow>
          if isDesignatedAdder (ch_bootstrapKey s) ownDeviceKeys members
             \<and> list_ex (\<lambda>k. k \<notin> set members \<and> k \<noteq> ch_bootstrapKey s) ownDeviceKeys
          then Inr True else any_missing C s ownDeviceKeys gs)"

definition hasMissingSiblings :: "'w chan_env \<Rightarrow> string list \<Rightarrow> 'w chan \<Rightarrow> bool result" where
  "hasMissingSiblings C ownDeviceKeys s = any_missing C s ownDeviceKeys (session_list s)"

datatype sibling_state = Member | Pending | Absent | NoGroup

fun sibling_state_from ::
  "'w chan_env \<Rightarrow> 'w chan \<Rightarrow> string \<Rightarrow> (string \<times> session_entry) list \<Rightarrow> bool \<Rightarrow> bool \<Rightarrow> sibling_state result" where
  "sibling_state_from C s key [] sawSelf pend =
     Inr (if \<not> sawSelf then NoGroup else if pend then Pending else Absent)"
| "sibling_state_from C s key ((cid, en) # es) sawSelf pend =
     (let g = en_session en; w = ch_heap s ! gs_conv g in
      case gs_isSelfConversation (ce_ops C) (gs_groupId g) w of
        Inl e \<Rightarrow> Inl e
      | Inr False \<Rightarrow> sibling_state_from C s key es sawSelf pend
      | Inr True \<Rightarrow>
          (case gs_roster (ce_ops C) (gs_groupId g) w of
             Inl e \<Rightarrow> Inl e
           | Inr members \<Rightarrow>
               if key \<in> set members then Inr Member
               else sibling_state_from C s key es True
                      (pend \<or> jm_has (ch_pendingOps s) cid \<or> cid \<in> set (ch_failover s))))"

definition selfSiblingState :: "'w chan_env \<Rightarrow> string \<Rightarrow> 'w chan \<Rightarrow> sibling_state result" where
  "selfSiblingState C key s = sibling_state_from C s key (ch_sessions s) False False"

section \<open>Staged commits\<close>

text \<open>The backstop: after its delay it only ever abandons a staged commit, it never merges one.\<close>

definition confirm_timer_fires :: "'w chan_env \<Rightarrow> nat \<Rightarrow> string \<Rightarrow> pending_kind \<Rightarrow> gsession \<Rightarrow> ('w, unit) cact" where
  "confirm_timer_fires C gen cid kind g =
     (\<lambda>s. if ch_connectGen s \<noteq> gen \<or> \<not> jm_has (ch_pendingOps s) cid then skip s
          else
            bindA (modA (\<lambda>s. s\<lparr>ch_pendingOps := jm_delete cid (ch_pendingOps s)\<rparr>)) (\<lambda>_.
              bindA (gsQ (gs_pendingKind (ce_ops C)) g) (\<lambda>k.
                if k = None then skip
                else
                  bindA (catchA
                      (bindA (gsM (if kind = PendingAdd then gs_abortAdd (ce_ops C) else gs_abortRemove (ce_ops C)) g)
                         (\<lambda>_. ret True))
                      (\<lambda>_. ret False))
                    (\<lambda>ok. whenA ok (pushA (PvMembershipStalled cid kind))))) s)"

definition arm_backstop ::
  "nat \<Rightarrow> nat \<Rightarrow> string \<Rightarrow> pending_kind \<Rightarrow> device_target option \<Rightarrow> gsession \<Rightarrow> ('w, unit) cact" where
  "arm_backstop ms gen cid kind target g =
     bindA (scheduleA ms (TmConfirm gen cid kind g)) (\<lambda>h.
       modA (\<lambda>s. s\<lparr>ch_pendingOps := jm_set cid \<lparr>po_kind = kind, po_target = target, po_handle = h\<rparr> (ch_pendingOps s)\<rparr>))"

definition stageAddSibling :: "'w chan_env \<Rightarrow> string \<Rightarrow> session_entry \<Rightarrow> nat \<Rightarrow> device_target \<Rightarrow> ('w, unit) cact" where
  "stageAddSibling C cid en n target =
     bindA (readA ch_connectGen) (\<lambda>gen.
       bindA (\<lambda>s. case gsM (\<lambda>gid. gs_stageAddDevice (ce_ops C) gid (dt_keyPackage target)) (en_session en) s of
                 (r, s') \<Rightarrow> (Inr r, s')) (\<lambda>staged.
         case staged of
           Inl e \<Rightarrow>
             if errMsg e = ''an add is already in flight'' then skip
             else pushA (PvSiblingRejected (dt_deviceKey target) (errMsg e))
         | Inr (commit, welcome) \<Rightarrow> resealSelf C (KSealStageAdd gen n cid en target commit welcome)))"

definition stage_add_sealed ::
  "'w chan_env \<Rightarrow> nat \<Rightarrow> nat \<Rightarrow> string \<Rightarrow> session_entry \<Rightarrow> device_target \<Rightarrow> bytes \<Rightarrow> bytes \<Rightarrow> ('w, unit) cact" where
  "stage_add_sealed C gen n cid en target commit welcome =
     (\<lambda>s. if ch_connectGen s \<noteq> gen then skip s
          else bindA (gsQ (gs_pendingCommit (ce_ops C)) (en_session en)) (\<lambda>current.
            if \<not> bytesEqual current commit then skip
            else block
              [publishNew C n (en_mailbox en) commit SEVEN_DAYS,
               publishNew C n (dt_deviceKey target) welcome SEVEN_DAYS,
               arm_backstop ADD_CONFIRM_MS gen cid PendingAdd (Some target) (en_session en)]) s)"

definition stageRemoveSibling :: "'w chan_env \<Rightarrow> string \<Rightarrow> session_entry \<Rightarrow> nat \<Rightarrow> string \<Rightarrow> ('w, unit) cact" where
  "stageRemoveSibling C cid en n target =
     bindA (readA ch_connectGen) (\<lambda>gen.
       bindA (\<lambda>s. case gsM (\<lambda>gid. gs_stageRemoveDevice (ce_ops C) gid target) (en_session en) s of
                 (r, s') \<Rightarrow> (Inr r, s')) (\<lambda>staged.
         case staged of
           Inl _ \<Rightarrow> skip
         | Inr commit \<Rightarrow> resealSelf C (KSealStageRemove gen n cid en commit)))"

definition stage_remove_sealed ::
  "'w chan_env \<Rightarrow> nat \<Rightarrow> nat \<Rightarrow> string \<Rightarrow> session_entry \<Rightarrow> bytes \<Rightarrow> ('w, unit) cact" where
  "stage_remove_sealed C gen n cid en commit =
     (\<lambda>s. if ch_connectGen s \<noteq> gen then skip s
          else bindA (gsQ (gs_pendingCommit (ce_ops C)) (en_session en)) (\<lambda>current.
            if \<not> bytesEqual current commit then skip
            else block
              [publishNew C n (en_mailbox en) commit SEVEN_DAYS,
               arm_backstop ADD_CONFIRM_MS gen cid PendingRemove None (en_session en)]) s)"

section \<open>Reconciliation\<close>

definition missing_targets :: "string \<Rightarrow> string list \<Rightarrow> string list \<Rightarrow> device_target list \<Rightarrow> device_target list" where
  "missing_targets self ownDeviceKeys members candidates =
     filter (\<lambda>c. dt_deviceKey c \<in> set ownDeviceKeys \<and> dt_deviceKey c \<notin> set members \<and> dt_deviceKey c \<noteq> self) candidates"

definition reconcileOne ::
  "'w chan_env \<Rightarrow> string \<Rightarrow> string list \<Rightarrow> device_target list \<Rightarrow> bool \<Rightarrow> ('w, unit) cact" where
  "reconcileOne C cid ownDeviceKeys candidates forced =
     bindA (modA (\<lambda>s. s\<lparr>ch_knownOwnKeys := ownDeviceKeys\<rparr>)) (\<lambda>_ s.
       case (jm_get (ch_sessions s) cid, ch_transport s) of
         (Some en, Some n) \<Rightarrow>
           if jm_has (ch_pendingOps s) cid then skip s
           else bindA (gsQ (gs_roster (ce_ops C)) (en_session en)) (\<lambda>members.
             case missing_targets (ch_bootstrapKey s) ownDeviceKeys members candidates of
               [] \<Rightarrow> skip
             | first # _ \<Rightarrow>
                 if \<not> forced \<and> \<not> isDesignatedAdder (ch_bootstrapKey s) ownDeviceKeys members then
                   (if cid \<in> set (ch_failover s) then skip
                    else bindA freshA (\<lambda>i.
                      block [modA (\<lambda>s. s\<lparr>ch_failover := add_once cid (ch_failover s)\<rparr>),
                             bindA (scheduleA (failover_delay C (ch_bootstrapKey s) ownDeviceKeys members i)
                                     (TmFailoverAdd cid ownDeviceKeys candidates)) (\<lambda>_. skip)]))
                 else catchA (stageAddSibling C cid en n first) (\<lambda>_. skip)) s
       | _ \<Rightarrow> skip s)"

definition failover_add_fires ::
  "'w chan_env \<Rightarrow> string \<Rightarrow> string list \<Rightarrow> device_target list \<Rightarrow> ('w, unit) cact" where
  "failover_add_fires C cid ownDeviceKeys candidates =
     block [modA (\<lambda>s. s\<lparr>ch_failover := removeAll cid (ch_failover s)\<rparr>),
            reconcileOne C cid ownDeviceKeys candidates True]"

definition reconcileSiblings :: "'w chan_env \<Rightarrow> string list \<Rightarrow> device_target list \<Rightarrow> ('w, unit) cact" where
  "reconcileSiblings C ownDeviceKeys candidates =
     bindA (readA (\<lambda>s. map fst (ch_sessions s))) (\<lambda>cids.
       forA cids (\<lambda>cid. reconcileOne C cid ownDeviceKeys candidates False))"

definition reconcileSelf :: "'w chan_env \<Rightarrow> string list \<Rightarrow> device_target list \<Rightarrow> ('w, unit) cact" where
  "reconcileSelf C ownDeviceKeys candidates =
     bindA (readA ch_sessions) (\<lambda>es.
       forA es (\<lambda>(cid, en).
         bindA (gsQ (gs_isSelfConversation (ce_ops C)) (en_session en)) (\<lambda>own.
           whenA own (reconcileOne C cid ownDeviceKeys candidates False))))"

definition removal_targets :: "string \<Rightarrow> string list \<Rightarrow> string list \<Rightarrow> string list" where
  "removal_targets self members revokedKeys = filter (\<lambda>k. k \<in> set revokedKeys \<and> k \<noteq> self) (remdups members)"

definition reconcileRemovalOne ::
  "'w chan_env \<Rightarrow> string \<Rightarrow> string list \<Rightarrow> string list \<Rightarrow> bool \<Rightarrow> ('w, unit) cact" where
  "reconcileRemovalOne C cid ownDeviceKeys revokedKeys forced =
     (\<lambda>s. case (jm_get (ch_sessions s) cid, ch_transport s) of
        (Some en, Some n) \<Rightarrow>
          if jm_has (ch_pendingOps s) cid then skip s
          else bindA (gsQ (gs_roster (ce_ops C)) (en_session en)) (\<lambda>members.
            case removal_targets (ch_bootstrapKey s) members revokedKeys of
              [] \<Rightarrow> skip
            | first # _ \<Rightarrow>
                if \<not> forced \<and> \<not> isDesignatedAdder (ch_bootstrapKey s) ownDeviceKeys members then
                  bindA freshA (\<lambda>i.
                    bindA (scheduleA (failover_delay C (ch_bootstrapKey s) ownDeviceKeys members i)
                            (TmFailoverRemove cid ownDeviceKeys revokedKeys)) (\<lambda>_. skip))
                else catchA (stageRemoveSibling C cid en n first) (\<lambda>_. skip)) s
      | _ \<Rightarrow> skip s)"

definition reconcileRemovals :: "'w chan_env \<Rightarrow> string list \<Rightarrow> string list \<Rightarrow> ('w, unit) cact" where
  "reconcileRemovals C ownDeviceKeys revokedKeys =
     bindA (readA (\<lambda>s. map fst (ch_sessions s))) (\<lambda>cids.
       forA cids (\<lambda>cid. reconcileRemovalOne C cid ownDeviceKeys revokedKeys False))"

section \<open>Membership changes\<close>

definition set_mailbox :: "string \<Rightarrow> string \<Rightarrow> ('w, unit) cact" where
  "set_mailbox cid mailbox =
     modA (\<lambda>s. case jm_get (ch_sessions s) cid of
                 None \<Rightarrow> s
               | Some en \<Rightarrow> s\<lparr>ch_sessions := jm_set cid (en\<lparr>en_mailbox := mailbox\<rparr>) (ch_sessions s)\<rparr>)"

text \<open>The promise it returns is the seal; \<open>k\<close> is what its caller does then, also when there is none.\<close>

definition onMembershipAdvanced ::
  "'w chan_env \<Rightarrow> string \<Rightarrow> string list \<Rightarrow> string list \<Rightarrow> continuation \<Rightarrow> ('w, unit) cact" where
  "onMembershipAdvanced C cid added removed k =
     (\<lambda>s. case (jm_get (ch_sessions s) cid, ch_transport s) of
        (Some en, Some n) \<Rightarrow>
          bindA (gsQ (gs_mailbox (ce_ops C)) (en_session en)) (\<lambda>next_mailbox.
            block
              [whenA (next_mailbox \<noteq> en_mailbox en) (block [set_mailbox cid next_mailbox, subscribeOn C n next_mailbox]),
               resealSelf C k,
               pushA (PvRosterChanged cid added removed),
               bindA (readA (\<lambda>s. added \<noteq> [] \<and> list_all (\<lambda>key. key \<in> set (ch_knownOwnKeys s)) added)) (\<lambda>addedAllOwn.
                 bindA (gsQ (gs_isSelfConversation (ce_ops C)) (en_session en)) (\<lambda>own.
                   whenA (own \<or> \<not> addedAllOwn) (publishIdentityFor C (en_session en)))),
               publishBuddiesFor C (en_session en),
               publishGroupsFor C (en_session en)]) s
      | _ \<Rightarrow> awaitA (KReady k True) s)"

definition addDevice :: "'w chan_env \<Rightarrow> string \<Rightarrow> device_target \<Rightarrow> ('w, unit) cact" where
  "addDevice C cid target =
     (\<lambda>s. case jm_get (ch_sessions s) cid of
        None \<Rightarrow> effectA (FxReject (JsError ''no such conversation'')) s
      | Some en \<Rightarrow>
          bindA requireTransport (\<lambda>n.
            bindA (gsM (\<lambda>gid. gs_addDevice (ce_ops C) gid (dt_keyPackage target)) (en_session en)) (\<lambda>(commit, welcome).
              block
                [publishNew C n (en_mailbox en) commit SEVEN_DAYS,
                 publishNew C n (dt_deviceKey target) welcome SEVEN_DAYS,
                 bindA (gsQ (gs_mailbox (ce_ops C)) (en_session en)) (\<lambda>mailbox.
                   block [set_mailbox cid mailbox, subscribeOn C n mailbox]),
                 resealSelf C KSealIgnored,
                 pushA (PvRosterChanged cid [dt_deviceKey target] []),
                 resolveA (RMembership cid)])) s)"

definition removeDevice :: "'w chan_env \<Rightarrow> string \<Rightarrow> string \<Rightarrow> ('w, unit) cact" where
  "removeDevice C cid sigKeyHex =
     (\<lambda>s. case jm_get (ch_sessions s) cid of
        None \<Rightarrow> effectA (FxReject (JsError ''no such conversation'')) s
      | Some en \<Rightarrow>
          bindA requireTransport (\<lambda>n.
            bindA (gsM (\<lambda>gid. gs_removeDevice (ce_ops C) gid sigKeyHex) (en_session en)) (\<lambda>commit.
              block
                [publishNew C n (en_mailbox en) commit SEVEN_DAYS,
                 bindA (gsQ (gs_mailbox (ce_ops C)) (en_session en)) (\<lambda>mailbox.
                   block [set_mailbox cid mailbox, subscribeOn C n mailbox]),
                 resealSelf C KSealIgnored,
                 pushA (PvRosterChanged cid [] [sigKeyHex]),
                 resolveA (RMembership cid)])) s)"

text \<open>
  \<open>removeDevice\<close> is called synchronously in the loop, so what it throws ends the loop (the \<open>catch\<close> only
  covers a promise it returned); its promise is always settled already.
\<close>

definition excludeEverywhere :: "'w chan_env \<Rightarrow> string \<Rightarrow> ('w, unit) cact" where
  "excludeEverywhere C sigKeyHex =
     asyncA (bindA (readA (\<lambda>s. map fst (ch_sessions s))) (\<lambda>cids.
       forA cids (\<lambda>cid s. case jm_get (ch_sessions s) cid of
           None \<Rightarrow> skip s
         | Some en \<Rightarrow>
             bindA (gsQ (gs_roster (ce_ops C)) (en_session en)) (\<lambda>members.
               whenA (sigKeyHex \<in> set members) (removeDevice C cid sigKeyHex)) s)))"

definition roster_of :: "'w chan_env \<Rightarrow> string \<Rightarrow> 'w chan \<Rightarrow> string list result" where
  "roster_of C cid s =
     (case jm_get (ch_sessions s) cid of
        None \<Rightarrow> Inr []
      | Some en \<Rightarrow> gs_roster (ce_ops C) (gs_groupId (en_session en)) (ch_heap s ! gs_conv (en_session en)))"

definition peerRoster :: "'w chan_env \<Rightarrow> string \<Rightarrow> 'w chan \<Rightarrow> string list result" where
  "peerRoster C cid s = bind_result (roster_of C cid s) (\<lambda>ms. Inr (filter (\<lambda>k. k \<noteq> ch_bootstrapKey s) ms))"

section \<open>Credential and denylist\<close>

definition recoverWithSeed :: "'w chan_env \<Rightarrow> string \<Rightarrow> nat \<Rightarrow> ('w, unit) cact" where
  "recoverWithSeed C recoverySeedHex epoch =
     asyncA (bindA requireConv (\<lambda>r.
       bindA (convM r (go_recoverWithSeed (ce_ops C) recoverySeedHex epoch)) (\<lambda>_.
         resealSelf C (KSealed RRecovered))))"

definition revokeDeviceKey :: "'w chan_env \<Rightarrow> string \<Rightarrow> nat \<Rightarrow> ('w, unit) cact" where
  "revokeDeviceKey C deviceSigKeyHex issuedSeq =
     asyncA (bindA requireConv (\<lambda>r.
       bindA (readA (\<lambda>s. go_accountKeyHex (ce_ops C) (ch_heap s ! r))) (\<lambda>key.
         case go_revokeDevice (ce_ops C) of
           Some f \<Rightarrow>
             if key = [] then resolveA (RRecord None)
             else bindA (convM r (f deviceSigKeyHex issuedSeq)) (\<lambda>rec. resealSelf C (KSealed (RRecord (Some rec))))
         | None \<Rightarrow> resolveA (RRecord None))))"

fun ingest_records ::
  "(string \<Rightarrow> 'w \<Rightarrow> bool result \<times> 'w) \<Rightarrow> nat \<Rightarrow> string list \<Rightarrow> nat \<Rightarrow> ('w, nat) cact" where
  "ingest_records f r [] added = ret added"
| "ingest_records f r (rec # recs) added =
     bindA (catchA (convM r (f rec)) (\<lambda>_. ret False)) (\<lambda>fresh.
       ingest_records f r recs (if fresh then added + 1 else added))"

definition ingestRevocations :: "'w chan_env \<Rightarrow> string list \<Rightarrow> ('w, unit) cact" where
  "ingestRevocations C records =
     (\<lambda>s. case (ch_conv s, go_ingestRevocation (ce_ops C)) of
        (Some r, Some f) \<Rightarrow>
          if records = [] then resolveA (RIngested 0) s
          else bindA (ingest_records f r records 0) (\<lambda>added.
                 if 0 < added then resealSelf C (KSealed (RIngested added)) else resolveA (RIngested added)) s
      | _ \<Rightarrow> resolveA (RIngested 0) s)"

definition revocationState :: "'w chan_env \<Rightarrow> 'w chan \<Rightarrow> nat \<times> nat" where
  "revocationState C s =
     (case ch_conv s of
        None \<Rightarrow> (0, 0)
      | Some r \<Rightarrow>
          (case go_revokedCount (ce_ops C) of Some f \<Rightarrow> f (ch_heap s ! r) | None \<Rightarrow> 0,
           case go_accountFloor (ce_ops C) of Some f \<Rightarrow> f (ch_heap s ! r) | None \<Rightarrow> 0))"

definition isDeviceRevoked :: "'w chan_env \<Rightarrow> string \<Rightarrow> 'w chan \<Rightarrow> bool" where
  "isDeviceRevoked C key s =
     (case (ch_conv s, go_isDeviceRevoked (ce_ops C)) of
        (Some r, Some f) \<Rightarrow> f key (ch_heap s ! r)
      | _ \<Rightarrow> False)"

definition syncEpoch :: "'w chan_env \<Rightarrow> nat \<Rightarrow> ('w, unit) cact" where
  "syncEpoch C epoch =
     asyncA (bindA (modA (\<lambda>s. s\<lparr>ch_lastAccountEpoch := max (ch_lastAccountEpoch s) epoch\<rparr>)) (\<lambda>_ s.
       case ch_conv s of
         None \<Rightarrow> resolveA (RSynced False False) s
       | Some r \<Rightarrow>
           (let w = ch_heap s ! r; key = go_accountKeyHex (ce_ops C) w;
                needsRecert = (key \<noteq> [] \<and> \<not> credential_certified C True r s) in
            if \<not> needsRecert \<and> epoch \<le> go_certEpoch (ce_ops C) w then resolveA (RSynced True False) s
            else if key = [] then resolveA (RSynced False True) s
            else bindA (convM r (go_reauthorizeAtEpoch (ce_ops C) epoch)) (\<lambda>_.
                   resealSelf C (KSealed (RSynced True False))) s)))"

definition own_certEpoch :: "'w chan_env \<Rightarrow> 'w chan \<Rightarrow> nat option" where
  "own_certEpoch C s =
     (case ch_conv s of None \<Rightarrow> None | Some r \<Rightarrow> Some (go_certEpoch (ce_ops C) (ch_heap s ! r)))"

fun mint_packages :: "'w chan_env \<Rightarrow> nat \<Rightarrow> nat \<Rightarrow> ('w, bytes list) cact" where
  "mint_packages C r 0 = ret []"
| "mint_packages C r (Suc n) =
     bindA (convM r (go_keyPackage (ce_ops C))) (\<lambda>kp. bindA (mint_packages C r n) (\<lambda>kps. ret (kp # kps)))"

definition mint_last_resort :: "'w chan_env \<Rightarrow> nat \<Rightarrow> ('w, bytes) cact" where
  "mint_last_resort C r =
     convM r (case go_keyPackageLastResort (ce_ops C) of Some f \<Rightarrow> f | None \<Rightarrow> go_keyPackage (ce_ops C))"

definition freshKeyPackages :: "'w chan_env \<Rightarrow> nat \<Rightarrow> ('w, unit) cact" where
  "freshKeyPackages C n =
     asyncA (bindA requireConv (\<lambda>r.
       bindA (readA (\<lambda>s. go_accountKeyHex (ce_ops C) (ch_heap s ! r) \<noteq> [] \<and> \<not> credential_certified C True r s))
         (\<lambda>uncertified.
           bindA (if uncertified then
                    bindA (readA (\<lambda>s. go_certEpoch (ce_ops C) (ch_heap s ! r))) (\<lambda>epoch.
                      convM r (go_reauthorizeAtEpoch (ce_ops C) epoch))
                  else skip) (\<lambda>_.
             bindA (mint_packages C r (n - 1)) (\<lambda>kps.
               bindA (if 0 < n then bindA (mint_last_resort C r) (\<lambda>l. ret [l]) else ret []) (\<lambda>last_one.
                 resealSelf C (KSealPackages (kps @ last_one))))))))"

definition packages_sealed :: "bytes list \<Rightarrow> bool \<Rightarrow> ('w, unit) cact" where
  "packages_sealed pkgs sealed =
     (if sealed then resolveA (RPackages pkgs)
      else effectA (FxReject (JsError ''cannot mint key packages: this device could not seal its private keys'')))"

end
