(* ===== verification/ChannelGateway.thy ===== *)
theory ChannelGateway
  imports ChannelHeal
begin

text \<open>
  The gateway side of \<open>GroupChannel\<close>: connecting and restoring, the transport handlers, the routing of
  inbound envelopes, starting conversations, sending and revoking, and the device-provisioning machine
  wired to the channel.
\<close>

section \<open>Device provisioning\<close>

text \<open>
  The dependencies \<open>ensureProvisioning\<close> builds, over the conversation object the channel holds at the
  call. \<open>renderSasHex\<close> throws only on a digest of fewer than 66 bits, which the wasm never returns.
\<close>

definition channel_prov_deps :: "'w chan_env \<Rightarrow> 'w \<Rightarrow> prov_deps" where
  "channel_prov_deps C w =
     \<lparr>d_accountKeyHex = go_accountKeyHex (ce_ops C) w,
      d_deviceKeyHex = go_signaturePublicKeyHex (ce_ops C) w,
      d_sasDigestHex = ce_sasDigest C,
      d_authorizeDevice = (\<lambda>d e n c. go_authorizeDevice (ce_ops C) d e n c w),
      d_adoptCertificate = (\<lambda>a e c. fst (go_adoptCertificate (ce_ops C) a e c w)),
      d_renderSas = (\<lambda>h. case renderSasHex h of Inr words \<Rightarrow> words | Inl _ \<Rightarrow> []),
      d_hasKeypair = ce_keypair C, d_seal = ce_seal C, d_open = ce_open C,
      d_authorizeScanned = Some (\<lambda>k e. go_authorizeScannedDevice (ce_ops C) k e w),
      d_sha256 = ce_sha256 C\<rparr>"

definition mintEpoch :: "'w chan_env \<Rightarrow> nat \<Rightarrow> 'w chan \<Rightarrow> nat" where
  "mintEpoch C r s = max (ch_lastAccountEpoch s) (go_certEpoch (ce_ops C) (ch_heap s ! r))"

definition onProvisioningEvent :: "'w chan_env \<Rightarrow> prov_event \<Rightarrow> ('w, unit) cact" where
  "onProvisioningEvent C ev =
     (case ev of
        EvAuthorized _ \<Rightarrow> resealSelf C (KSealAuthorized ev)
      | _ \<Rightarrow> pushA (PvProvisioning ev))"

text \<open>What a call of the machine did, carried out on the transport and conversation of the moment.\<close>

definition wire_prov_fx :: "'w chan_env \<Rightarrow> prov_fx \<Rightarrow> ('w, unit) cact" where
  "wire_prov_fx C e =
     (case e of
        prov_fx.Publish key payload \<Rightarrow> bindA requireTransport (\<lambda>n. publishNew C n key payload PROV_TTL)
      | prov_fx.Subscribe key \<Rightarrow> bindA requireTransport (\<lambda>n. subscribeOn C n key)
      | prov_fx.Ack mid \<Rightarrow> bindA requireTransport (\<lambda>n. ackOn C n mid)
      | prov_fx.Push ev \<Rightarrow> onProvisioningEvent C ev
      | prov_fx.Authorize _ _ _ _ \<Rightarrow> skip
      | prov_fx.AuthorizeScanned _ _ \<Rightarrow> skip
      | prov_fx.Adopt _ acct epoch cert \<Rightarrow>
          bindA requireConv (\<lambda>r. bindA (convM r (go_adoptCertificate (ce_ops C) acct epoch cert)) (\<lambda>_. skip)))"

text \<open>
  One call of the provisioning machine: its state is advanced and what it emitted is carried out.
\<close>

definition prov_call ::
  "'w chan_env \<Rightarrow> (prov_deps \<Rightarrow> provisioning \<Rightarrow> 'a result \<times> provisioning) \<Rightarrow> nat \<Rightarrow> provisioning \<Rightarrow> ('w, 'a) cact" where
  "prov_call C f i p =
     bindA requireConv (\<lambda>r s.
       case f (channel_prov_deps C (ch_heap s ! r)) p of
         (res, p') \<Rightarrow>
           bindA (block
               [modA (\<lambda>s. case ch_provisioning s of
                   Some (j, q) \<Rightarrow> if j = i then s\<lparr>ch_provisioning := Some (i, p')\<rparr> else s
                 | None \<Rightarrow> s),
                forA (drop (length (fx p)) (fx p')) (wire_prov_fx C)])
             (\<lambda>_. case res of Inl e \<Rightarrow> throw e | Inr x \<Rightarrow> ret x) s)"

definition ensureProvisioning :: "('w, nat \<times> provisioning) cact" where
  "ensureProvisioning =
     (\<lambda>s. case ch_provisioning s of
        Some ip \<Rightarrow> ret ip s
      | None \<Rightarrow>
          bindA requireConv (\<lambda>_. bindA requireTransport (\<lambda>_. bindA freshA (\<lambda>i.
            bindA (modA (\<lambda>s. s\<lparr>ch_provisioning := Some (i, new_provisioning)\<rparr>)) (\<lambda>_.
              ret (i, new_provisioning))))) s)"

definition with_provisioning ::
  "'w chan_env \<Rightarrow> (prov_deps \<Rightarrow> provisioning \<Rightarrow> unit result \<times> provisioning) \<Rightarrow> ('w, unit) cact" where
  "with_provisioning C f =
     (\<lambda>s. case ch_provisioning s of None \<Rightarrow> skip s | Some (i, p) \<Rightarrow> prov_call C f i p s)"

definition openProvisioningWindow :: "string \<Rightarrow> ('w, unit) cact" where
  "openProvisioningWindow usernameHash = awaitA (KProvMailbox True usernameHash)"

definition joinDevice :: "string \<Rightarrow> ('w, unit) cact" where
  "joinDevice usernameHash = awaitA (KProvMailbox False usernameHash)"

definition prov_mailbox_ready :: "'w chan_env \<Rightarrow> bool \<Rightarrow> string \<Rightarrow> ('w, unit) cact" where
  "prov_mailbox_ready C open_window usernameHash =
     asyncA (bindA ensureProvisioning (\<lambda>(i, p).
       bindA requireConv (\<lambda>r.
         bindA (readA (mintEpoch C r)) (\<lambda>epoch.
           bindA (randomA C) (\<lambda>nonce.
             bindA (prov_call C (\<lambda>D p. let mb = deriveProvMailbox D usernameHash in
                 if open_window then openWindow D nonce epoch mb p else (Inr (), startJoin D mb p)) i p)
               (\<lambda>_. resolveA RProvisioned))))))"

definition confirmProvisioning :: "'w chan_env \<Rightarrow> ('w, unit) cact" where
  "confirmProvisioning C = with_provisioning C confirm"

definition closeProvisioning :: "'w chan_env \<Rightarrow> ('w, unit) cact" where
  "closeProvisioning C =
     block [with_provisioning C (\<lambda>D p. (Inr (), closeWindow p)), with_provisioning C (\<lambda>D p. (Inr (), cancelQrShow p))]"

definition startQrPairing :: "'w chan_env \<Rightarrow> ('w, unit) cact" where
  "startQrPairing C =
     asyncA (bindA ensureProvisioning (\<lambda>(i, p).
       bindA (randomA C) (\<lambda>kp.
         bindA (prov_call C (\<lambda>D p. startQrShow_begin D kp p) i p) (\<lambda>_.
           awaitA (KQrShow i p kp)))))"

definition qr_show_ready :: "'w chan_env \<Rightarrow> nat \<Rightarrow> provisioning \<Rightarrow> bytes \<Rightarrow> ('w, unit) cact" where
  "qr_show_ready C i snapshot kp =
     asyncA (\<lambda>s.
       let p = (case ch_provisioning s of Some (j, q) \<Rightarrow> if j = i then q else snapshot | None \<Rightarrow> snapshot) in
       bindA (prov_call C (\<lambda>D p. apfst Inr (startQrShow_resume D kp p)) i p) (\<lambda>qr. resolveA (RQrCode qr)) s)"

definition grantScannedDevice :: "'w chan_env \<Rightarrow> string \<Rightarrow> ('w, unit) cact" where
  "grantScannedDevice C qrPayload =
     asyncA (bindA ensureProvisioning (\<lambda>(i, p).
       bindA requireConv (\<lambda>r.
         bindA (readA (mintEpoch C r)) (\<lambda>epoch.
           bindA (prov_call C (\<lambda>D p. grantScanned D epoch qrPayload p) i p) (\<lambda>_. resolveA RProvisioned)))))"

section \<open>Receipts\<close>

definition waiter_done :: "string \<Rightarrow> effect \<Rightarrow> ('w, unit) cact" where
  "waiter_done idHex outcome_fx =
     (\<lambda>s. case jm_get (ch_receipts s) idHex of
        None \<Rightarrow> skip s
      | Some wt \<Rightarrow>
          block [cancelA (rw_handle wt),
                 modA (\<lambda>s. s\<lparr>ch_receipts := jm_delete idHex (ch_receipts s)\<rparr>),
                 effectA outcome_fx] s)"

definition confirm_receipt :: "string \<Rightarrow> ('w, unit) cact" where
  "confirm_receipt idHex = waiter_done idHex (FxResolve (RRevoked idHex))"

definition fail_receipt :: "js_error \<Rightarrow> string \<Rightarrow> ('w, unit) cact" where
  "fail_receipt e idHex = waiter_done idHex (FxReject e)"

definition fail_all_receipts :: "js_error \<Rightarrow> ('w, unit) cact" where
  "fail_all_receipts e = bindA (readA (\<lambda>s. map fst (ch_receipts s))) (\<lambda>ids. forA ids (fail_receipt e))"

definition revokeMessage :: "'w chan_env \<Rightarrow> string \<Rightarrow> string \<Rightarrow> ('w, unit) cact" where
  "revokeMessage C cid targetMessageId =
     asyncA (\<lambda>s. case jm_get (ch_sessions s) cid of
        None \<Rightarrow> throw (JsError ''this conversation is not open yet'') s
      | Some en \<Rightarrow>
          bindA requireTransport (\<lambda>n.
            bindA (randomA C) (\<lambda>mid.
              bindA (gsM (\<lambda>gid. gs_sendRevoke (ce_ops C) gid mid targetMessageId None) (en_session en)) (\<lambda>env.
                let idHex = bytesToHex (ev_messageId env) in
                bindA (scheduleA REVOKE_RECEIPT_MS (TmReceipt idHex)) (\<lambda>h.
                  block [modA (\<lambda>s. s\<lparr>ch_receipts := jm_set idHex \<lparr>rw_handle = h\<rparr> (ch_receipts s)\<rparr>),
                         publishOn C n env])))) s)"

section \<open>Starting and sending\<close>

definition persist_summary :: "'w chan_env \<Rightarrow> string \<Rightarrow> gsession \<Rightarrow> ('w, unit) cact" where
  "persist_summary C cid g =
     bindA (peerLabel C g) (\<lambda>label.
       bindA (readA ch_bootstrapKey) (\<lambda>key.
         effectA (FxPersistChannel \<lparr>cs_id = cid, cs_peer = label, cs_fingerprint = fingerprintOf key,
                                    cs_preview = ''group conversation open''\<rparr>)))"

definition startConversation :: "'w chan_env \<Rightarrow> device_target list \<Rightarrow> ('w, unit) cact" where
  "startConversation C targets =
     asyncA (bindA requireConv (\<lambda>r. bindA requireTransport (\<lambda>n.
       if targets = [] then throw (JsError ''a conversation needs at least one other device'')
       else
         bindA (convM r (gs_create (ce_ops C) (map dt_keyPackage targets))) (\<lambda>(welcome, gid).
           let g = \<lparr>gs_conv = r, gs_groupId = gid\<rparr>; cid = convId gid in
           bindA (gsQ (gs_mailbox (ce_ops C)) g) (\<lambda>mailbox.
             block [add_session g mailbox, subscribeOn C n mailbox,
                    forA targets (\<lambda>d. publishNew C n (dt_deviceKey d) welcome SEVEN_DAYS),
                    persist_summary C cid g,
                    awaitA (KPersistStarted cid g)])))))"

definition conversation_started :: "'w chan_env \<Rightarrow> string \<Rightarrow> gsession \<Rightarrow> ('w, unit) cact" where
  "conversation_started C cid g =
     asyncA (block [publishIdentityFor C g, pushA (PvConnection ''secure''),
                    bindA (peerLabel C g) (\<lambda>label. resolveA (RStarted label cid))])"

definition gc_sendMessage :: "'w chan_env \<Rightarrow> string \<Rightarrow> string \<Rightarrow> lifetime option \<Rightarrow> ('w, unit) cact" where
  "gc_sendMessage C cid txt l =
     asyncA (\<lambda>s. case jm_get (ch_sessions s) cid of
        None \<Rightarrow> throw (JsError ''this conversation is not open yet'') s
      | Some en \<Rightarrow>
          (let life = (case l of None \<Rightarrow> Duration 86400 | Some x \<Rightarrow> x) in
           bindA (randomA C) (\<lambda>mid.
             bindA (gsM (\<lambda>gid. gs_send (ce_ops C) gid mid (TextEncoder_encode txt) life None) (en_session en)) (\<lambda>env.
               bindA requireTransport (\<lambda>n.
                 block [publishOn C n env, persist_out env cid life txt, awaitA KPersistSent]))) s))"

section \<open>Inbound envelopes\<close>

text \<open>A job starts when no earlier apply of its chain is still running.\<close>

definition start_job :: "apply_job \<Rightarrow> ('w, unit) cact" where
  "start_job j =
     effectA (case j of
        ApplyMessage _ _ meta plaintext \<Rightarrow> FxPersistMessage meta plaintext
      | ApplyRevoke _ _ cid target own \<Rightarrow> FxRevokeStored cid target own)"

definition enqueueApply :: "string \<Rightarrow> apply_job \<Rightarrow> ('w, unit) cact" where
  "enqueueApply cid j =
     bindA (\<lambda>s. case jm_get (ch_chains s) cid of
              Some c \<Rightarrow> ret c s
            | None \<Rightarrow> bindA freshA (\<lambda>c. bindA (modA (\<lambda>s. s\<lparr>ch_chains := jm_set cid c (ch_chains s)\<rparr>)) (\<lambda>_. ret c)) s)
       (\<lambda>c s. block [modA (\<lambda>s. s\<lparr>ch_jobs := ch_jobs s @ [(c, j)]\<rparr>),
                     whenA (c \<notin> fst ` set (ch_jobs s)) (start_job j)] s)"

text \<open>The job at the head of a chain has settled: its acknowledgement, then the next job of the chain.\<close>

definition job_outcome :: "'w chan_env \<Rightarrow> apply_job \<Rightarrow> js_error option \<Rightarrow> ('w, unit) cact" where
  "job_outcome C j failed =
     catchA
       (case failed of
          Some e \<Rightarrow> throw e
        | None \<Rightarrow>
            (case j of
               ApplyMessage n mid meta _ \<Rightarrow>
                 block [ackOn C n mid, pushA (PvInboundMessage (mm_conversationId meta)),
                        scheduleRatchetFlush (mm_conversationId meta)]
             | ApplyRevoke n mid _ _ _ \<Rightarrow> ackOn C n mid))
       (\<lambda>e. pushA (PvError (-1) (errMsg e)))"

definition job_settles :: "'w chan_env \<Rightarrow> nat \<Rightarrow> js_error option \<Rightarrow> ('w, unit) cact" where
  "job_settles C c failed =
     (\<lambda>s. case find (\<lambda>cj. fst cj = c) (ch_jobs s) of
        None \<Rightarrow> skip s
      | Some (_, j) \<Rightarrow>
          block [modA (\<lambda>s. s\<lparr>ch_jobs := remove1 (c, j) (ch_jobs s)\<rparr>),
                 job_outcome C j failed,
                 (\<lambda>s. case find (\<lambda>cj. fst cj = c) (ch_jobs s) of
                    None \<Rightarrow> skip s
                  | Some (_, j') \<Rightarrow> start_job j' s)] s)"

text \<open>A joined peer conversation becomes live: \<open>adopt\<close> of \<open>onWelcome\<close>.\<close>

definition adopt_joined :: "'w chan_env \<Rightarrow> nat \<Rightarrow> bytes \<Rightarrow> string \<Rightarrow> gsession \<Rightarrow> ('w, unit) cact" where
  "adopt_joined C n mid cid g =
     bindA (gsQ (gs_mailbox (ce_ops C)) g) (\<lambda>mailbox.
       block [add_session g mailbox, subscribeOn C n mailbox, ackOn C n mid,
              persist_summary C cid g, resealSelf C KSealIgnored, publishIdentityFor C g,
              pushA (PvConnection ''secure''), pushA (PvEstablished cid)])"

definition adopt_self_group :: "'w chan_env \<Rightarrow> nat \<Rightarrow> bytes \<Rightarrow> gsession \<Rightarrow> ('w, unit) cact" where
  "adopt_self_group C n mid g =
     bindA (gsQ (gs_mailbox (ce_ops C)) g) (\<lambda>mailbox.
       block [add_session g mailbox, subscribeOn C n mailbox, ackOn C n mid,
              resealSelf C KSealIgnored, publishIdentityFor C g, publishBuddiesFor C g, publishGroupsFor C g,
              pushA (PvConnection ''secure'')])"

text \<open>\<open>isBlockedRoster(peers)\<close> has answered; a throwing \<open>adopt\<close> is run a second time by the \<open>catch\<close>.\<close>

definition blocked_answer :: "'w chan_env \<Rightarrow> nat \<Rightarrow> bytes \<Rightarrow> string \<Rightarrow> gsession \<Rightarrow> bool option \<Rightarrow> ('w, unit) cact" where
  "blocked_answer C n mid cid g blocked =
     catchA (case blocked of
         None \<Rightarrow> throw (JsError ''rejected'')
       | Some True \<Rightarrow> ackOn C n mid
       | Some False \<Rightarrow> adopt_joined C n mid cid g)
       (\<lambda>_. adopt_joined C n mid cid g)"

definition onWelcome :: "'w chan_env \<Rightarrow> envelope_msg \<Rightarrow> ('w, unit) cact" where
  "onWelcome C env =
     (\<lambda>s. case (ch_conv s, ch_transport s) of
        (Some r, Some n) \<Rightarrow>
          bindA (modA (\<lambda>s. s\<lparr>ch_welcomesSeen := ch_welcomesSeen s + 1\<rparr>)) (\<lambda>_.
            bindA (\<lambda>s. case convM r (gs_join (ce_ops C) (ev_payload env)) s of (x, s') \<Rightarrow> (Inr x, s')) (\<lambda>joined.
              case joined of
                Inl e \<Rightarrow>
                  (let detail = errMsg e in
                   block [modA (\<lambda>s. s\<lparr>ch_lastWelcomeError := detail\<rparr>),
                          whenA (isPermanentWelcomeFailure detail) (ackOn C n (ev_messageId env)),
                          pushA (PvError (-1) (''welcome: '' @ detail))])
              | Inr gid \<Rightarrow>
                  (let g = \<lparr>gs_conv = r, gs_groupId = gid\<rparr>; cid = convId gid in
                   bindA (modA (\<lambda>s. s\<lparr>ch_welcomesJoined := ch_welcomesJoined s + 1, ch_lastWelcomeError := []\<rparr>)) (\<lambda>_ s.
                     if jm_has (ch_sessions s) cid then ackOn C n (ev_messageId env) s
                     else
                       bindA (gsQ (gs_roster (ce_ops C)) g) (\<lambda>members.
                         bindA (gsQ (gs_isSelfConversation (ce_ops C)) g) (\<lambda>own.
                           if own then adopt_self_group C n (ev_messageId env) g
                           else if \<not> ce_has C HasBlockedRoster \<or> filter (\<lambda>k. k \<noteq> ch_bootstrapKey s) members = []
                             then adopt_joined C n (ev_messageId env) cid g
                           else awaitA (KBlocked n (ev_messageId env) cid g))) s)))) s
      | _ \<Rightarrow> skip s)"

text \<open>The branches of \<open>onGroupMessage\<close> for a conversation we hold.\<close>

definition dispatch_received :: "'w chan_env \<Rightarrow> nat \<Rightarrow> bytes \<Rightarrow> string \<Rightarrow> group_received \<Rightarrow> ('w, unit) cact" where
  "dispatch_received C n mid cid received =
     (case received of
        GMembership added removed \<Rightarrow>
          block [(\<lambda>s. case jm_get (ch_pendingOps s) cid of
                    None \<Rightarrow> skip s
                  | Some pa \<Rightarrow>
                      block [cancelA (po_handle pa),
                             modA (\<lambda>s. s\<lparr>ch_pendingOps := jm_delete cid (ch_pendingOps s)\<rparr>)] s),
                 onMembershipAdvanced C cid added removed (KSealAck n mid)]
      | GEvicted \<Rightarrow>
          block [leaveConversation cid,
                 whenA (ce_has C HasDeleteChannel) (effectA (FxDeleteChannel cid)),
                 resealSelf C (KSealAck n mid),
                 (\<lambda>s. pushA (PvRosterChanged cid [] [ch_bootstrapKey s]) s)]
      | GProposal \<Rightarrow> ackOn C n mid
      | GIgnored \<Rightarrow> ackOn C n mid
      | GControl controlType _ payload own \<Rightarrow> block [onControlFrame C cid controlType payload own, ackOn C n mid]
      | GMessage (Revoke target) own \<Rightarrow>
          if \<not> ce_has C HasRevoke then ackOn C n mid
          else enqueueApply cid (ApplyRevoke n mid cid target own)
      | GMessage (Message plaintext life) own \<Rightarrow>
          block [enqueueApply cid (ApplyMessage n mid
                   \<lparr>mm_messageId = bytesToHex mid, mm_conversationId = cid, mm_inbound = True,
                    mm_lifetime = life, mm_ownAuthored = own\<rparr> plaintext),
                 maybeAwayReply C cid])"

definition onGroupMessage :: "'w chan_env \<Rightarrow> envelope_msg \<Rightarrow> ('w, unit) cact" where
  "onGroupMessage C env =
     (\<lambda>s. case (ch_conv s, ch_transport s) of
        (Some r, Some n) \<Rightarrow>
          bindA (\<lambda>s. case convM r (receiveGroup (ce_ops C) (ev_payload env)) s of (x, s') \<Rightarrow> (Inr x, s')) (\<lambda>routed.
            case routed of
              Inl e \<Rightarrow>
                (let detail = errMsg e in
                 if starts_with detail POISON_DROP_PREFIX then
                   block [ackOn C n (ev_messageId env),
                          whenA (\<not> starts_with detail OWN_ECHO_DROP_PREFIX) (pushA (PvError (-1) detail))]
                 else pushA (PvError (-1) detail))
            | Inr (gid, received) \<Rightarrow>
                (\<lambda>s. let cid = convId gid in
                  if \<not> jm_has (ch_sessions s) cid then ackOn C n (ev_messageId env) s
                  else block [retireWelcomes C cid, dispatch_received C n (ev_messageId env) cid received] s)) s
      | _ \<Rightarrow> skip s)"

definition onDeliver :: "'w chan_env \<Rightarrow> envelope_msg \<Rightarrow> ('w, unit) cact" where
  "onDeliver C env =
     (\<lambda>s. case ch_provisioning s of
        Some (i, p) \<Rightarrow>
          if owns (ev_routingKey env) p then
            bindA (randomA C) (\<lambda>r1. bindA (randomA C) (\<lambda>r2.
              bindA (prov_call C (\<lambda>D p. handle D r1 r2
                  \<lparr>f_messageId = ev_messageId env, f_routingKey = ev_routingKey env, f_payload = ev_payload env\<rparr> p) i p)
                (\<lambda>_. skip))) s
          else if ev_routingKey env = ch_bootstrapKey s then onWelcome C env s
          else onGroupMessage C env s
      | None \<Rightarrow>
          if ev_routingKey env = ch_bootstrapKey s then onWelcome C env s
          else onGroupMessage C env s)"

section \<open>The transport's handlers\<close>

definition publishPacing :: "int \<Rightarrow> string \<Rightarrow> bool" where
  "publishPacing code detail \<longleftrightarrow>
     code = 3 \<and> (starts_with detail ''sending too fast'' \<or> starts_with detail ''recipient is receiving'')"

definition handlers :: "'w chan_env \<Rightarrow> nat \<Rightarrow> handler_call \<Rightarrow> ('w, unit) cact" where
  "handlers C gen call =
     (\<lambda>s. if ch_connectGen s \<noteq> gen then skip s
          else case call of
            OnOfferH _ \<Rightarrow> skip s
          | OnAcceptH _ \<Rightarrow> skip s
          | OnDeliver env \<Rightarrow> onDeliver C env s
          | OnReceipt mid \<Rightarrow> confirm_receipt (bytesToHex mid) s
          | OnError code detail \<Rightarrow>
              block [whenA ((case ch_provisioning s of Some (_, p) \<Rightarrow> p_active p | None \<Rightarrow> False) \<and> \<not> publishPacing code detail)
                       (pushA (PvProvisioningError ''connection problem during pairing, please try again'')),
                     pushA (PvError code detail)] s)"

definition handlers_onClose :: "nat \<Rightarrow> ('w, unit) cact" where
  "handlers_onClose gen =
     (\<lambda>s. if ch_connectGen s \<noteq> gen then skip s
          else block [fail_all_receipts (JsError ''connection closed before the gateway confirmed the publish''),
                      pushA (PvConnection ''offline'')] s)"

section \<open>Connecting\<close>

definition connectGateway :: "'w chan_env \<Rightarrow> string \<Rightarrow> ('w, unit) cact" where
  "connectGateway C url =
     awaitA (if ce_has C HasPersistence then KLoadSelf url else KLoadSeed url None)"

text \<open>The conversation object, restored or made, becomes the current one.\<close>

definition new_conv :: "'w \<Rightarrow> ('w, nat) cact" where
  "new_conv w = (\<lambda>s. (Inr (length (ch_heap s)), s\<lparr>ch_heap := ch_heap s @ [w]\<rparr>))"

text \<open>
  The part between the identity and the closed set: the generation moves on, the receipt waiters of the
  old connection fail, its backstop timers are cancelled, and its unsent and unconfirmed publishes are
  lifted off before it is closed.
\<close>

definition close_link :: "nat \<Rightarrow> ('w, envelope_msg list) cact" where
  "close_link n =
     (\<lambda>s. let l = ch_links s ! n in
        case takePending (lk_transport l) of
          (pend, t) \<Rightarrow>
            (Inr pend, (set_link n (l\<lparr>lk_transport := close_transport t\<rparr>) s)\<lparr>ch_fx := ch_fx s @ [FxClose n]\<rparr>))"

definition supersede :: "'w chan_env \<Rightarrow> string \<Rightarrow> nat \<Rightarrow> ('w, unit) cact" where
  "supersede C url r =
     block [modA (\<lambda>s. s\<lparr>ch_connectGen := ch_connectGen s + 1\<rparr>),
       fail_all_receipts (JsError ''connection replaced before the gateway confirmed the publish''),
       bindA (readA (\<lambda>s. map (\<lambda>p. po_handle (snd p)) (ch_pendingOps s))) (\<lambda>hs. forA hs cancelA),
       modA (\<lambda>s. s\<lparr>ch_pendingOps := [], ch_failover := []\<rparr>),
       bindA (\<lambda>s. case ch_transport s of None \<Rightarrow> ret [] s | Some n \<Rightarrow> close_link n s) (\<lambda>pend.
         block [modA (\<lambda>s. case ch_provisioning s of
                   Some (_, p) \<Rightarrow> if qrShowLive p then s else s\<lparr>ch_provisioning := None\<rparr>
                 | None \<Rightarrow> s),
                (\<lambda>s. awaitA (KClosedIds url r (ch_connectGen s) pend) s)])]"

definition identity_ready :: "'w chan_env \<Rightarrow> string \<Rightarrow> nat \<Rightarrow> bool \<Rightarrow> ('w, unit) cact" where
  "identity_ready C url r restored =
     block [modA (\<lambda>s. s\<lparr>ch_conv := Some r, ch_bootstrapKey := go_signaturePublicKeyHex (ce_ops C) (ch_heap s ! r)\<rparr>),
            if \<not> restored \<and> ce_has C HasPersistence
            then block [effectA (FxSaveSelf r), awaitA (KSavedSelf url r)]
            else supersede C url r]"

definition seed_ready :: "'w chan_env \<Rightarrow> string \<Rightarrow> nat option \<Rightarrow> string \<Rightarrow> ('w, unit) cact" where
  "seed_ready C url restored seedHex =
     asyncA (case restored of
        Some r \<Rightarrow> identity_ready C url r True
      | None \<Rightarrow>
          (case ce_make C ''me'' seedHex of
             Inl e \<Rightarrow> throw e
           | Inr w \<Rightarrow> bindA (new_conv w) (\<lambda>r. identity_ready C url r False)))"

text \<open>
  One group of the restored object: re-closed when the user closed it and it is no self-group, otherwise
  a session, subscribed. The result says whether something was closed again.
\<close>

definition restore_group :: "'w chan_env \<Rightarrow> nat \<Rightarrow> nat \<Rightarrow> string list \<Rightarrow> string \<Rightarrow> ('w, bool) cact" where
  "restore_group C n r closed_ids gid =
     bindA (if convId gid \<in> set closed_ids
            then bindA (convQ r (gs_isSelfConversation (ce_ops C) gid)) (\<lambda>own. ret (\<not> own))
            else ret False) (\<lambda>reclose.
       if reclose then
         (case go_closeConversation (ce_ops C) of
            Some f \<Rightarrow> catchA (bindA (convM r (f gid)) (\<lambda>_. ret True)) (\<lambda>_. ret False)
          | None \<Rightarrow> ret True)
       else
         (let g = \<lparr>gs_conv = r, gs_groupId = gid\<rparr> in
          bindA (gsQ (gs_mailbox (ce_ops C)) g) (\<lambda>mailbox.
            bindA (block [add_session g mailbox, subscribeOn C n mailbox]) (\<lambda>_. ret False))))"

fun restore_groups :: "'w chan_env \<Rightarrow> nat \<Rightarrow> nat \<Rightarrow> string list \<Rightarrow> string list \<Rightarrow> bool \<Rightarrow> ('w, bool) cact" where
  "restore_groups C n r closed_ids [] reclosed = ret reclosed"
| "restore_groups C n r closed_ids (gid # gids) reclosed =
     bindA (restore_group C n r closed_ids gid) (\<lambda>b. restore_groups C n r closed_ids gids (reclosed \<or> b))"

text \<open>A staged commit that survived the reload is published again and its backstop armed.\<close>

definition rearm_pending :: "'w chan_env \<Rightarrow> nat \<Rightarrow> nat \<Rightarrow> string \<Rightarrow> session_entry \<Rightarrow> ('w, unit) cact" where
  "rearm_pending C n gen cid en =
     (let g = en_session en in
      bindA (gsQ (gs_pendingKind (ce_ops C)) g) (\<lambda>kind.
        case kind of
          None \<Rightarrow> skip
        | Some k \<Rightarrow>
            bindA (gsQ (gs_pendingTarget (ce_ops C)) g) (\<lambda>target.
              bindA (gsQ (gs_pendingCommit (ce_ops C)) g) (\<lambda>commit.
                block
                  [whenA (commit \<noteq> []) (publishNew C n (en_mailbox en) commit SEVEN_DAYS),
                   whenA (k = PendingAdd \<and> target \<noteq> [])
                     (bindA (gsQ (gs_pendingWelcome (ce_ops C)) g) (\<lambda>welcome.
                        whenA (welcome \<noteq> []) (publishNew C n target welcome SEVEN_DAYS))),
                   arm_backstop RESTORE_CONFIRM_MS gen cid k None g]))))"

text \<open>\<open>deps.connect(url, this.handlers(gen))\<close> with the consumer-id resolver of conversation \<open>r\<close>.\<close>

definition open_link :: "nat \<Rightarrow> nat \<Rightarrow> ('w, nat) cact" where
  "open_link gen r =
     (\<lambda>s. let n = length (ch_links s) in
        (Inr n, s\<lparr>ch_links := ch_links s @ [\<lparr>lk_gen = gen, lk_conv = r, lk_transport = new_transport, lk_socket = new_socket\<rparr>],
                  ch_transport := Some n, ch_fx := ch_fx s @ [FxConnect n]\<rparr>))"

definition connect_restored :: "'w chan_env \<Rightarrow> nat \<Rightarrow> nat \<Rightarrow> envelope_msg list \<Rightarrow> string list \<Rightarrow> ('w, unit) cact" where
  "connect_restored C r gen pend closed_ids =
     asyncA (bindA (open_link gen r) (\<lambda>n.
       block
         [(\<lambda>s. subscribeOn C n (ch_bootstrapKey s) s),
          with_provisioning C (\<lambda>D p. (Inr (), resubscribeLive p)),
          modA (\<lambda>s. s\<lparr>ch_sessions := []\<rparr>),
          bindA (readA (\<lambda>s. go_listConversations (ce_ops C) (ch_heap s ! r))) (\<lambda>gids.
            bindA (restore_groups C n r closed_ids gids False) (\<lambda>reclosed.
              whenA reclosed (resealSelf C KSealIgnored))),
          forA pend (publishOn C n),
          bindA (readA ch_sessions) (\<lambda>es. forA es (\<lambda>(cid, en). rearm_pending C n gen cid en)),
          replayWelcomeOutbox C,
          (\<lambda>s. pushA (PvConnection (if ch_sessions s \<noteq> [] then ''secure'' else ''live'')) s),
          resyncSelfGroup C,
          (\<lambda>s. resolveA (RConnected (formatContact (ch_bootstrapKey s))) s)]))"

section \<open>Continuations\<close>

datatype 'w answer =
    AnOk
  | AnFail js_error
  | AnSealed bool
  | AnFrames "(nat \<times> bytes) list"
  | AnFrame "bytes option"
  | AnText "string option"
  | AnBlocked bool
  | AnOutbox "pending_welcome list"
  | AnConv "'w option"
  | AnSeed string
  | AnIds "string list"

text \<open>What follows a seal; \<open>sealed\<close> is false when the store could not write.\<close>

definition after_seal :: "'w chan_env \<Rightarrow> continuation \<Rightarrow> bool \<Rightarrow> ('w, unit) cact" where
  "after_seal C k sealed =
     (case k of
        KSealed r \<Rightarrow> resolveA r
      | KSealAck n mid \<Rightarrow> ackOn C n mid
      | KSealSecure cid \<Rightarrow> block [pushA (PvConnection ''secure''), resolveA (RSelfConversation cid)]
      | KSealCreateSelf r n targets \<Rightarrow> asyncA (create_self_checked C r n targets)
      | KSealCreated g \<Rightarrow> self_group_created C g
      | KSealStarted cid g \<Rightarrow> conversation_started C cid g
      | KSealStageAdd gen n cid en target commit welcome \<Rightarrow> stage_add_sealed C gen n cid en target commit welcome
      | KSealStageRemove gen n cid en commit \<Rightarrow> stage_remove_sealed C gen n cid en commit
      | KSealPackages pkgs \<Rightarrow> packages_sealed pkgs sealed
      | KSealAuthorized ev \<Rightarrow> pushA (PvProvisioning ev)
      | _ \<Rightarrow> skip)"

definition outbox_next :: "'w chan_env \<Rightarrow> outbox_then \<Rightarrow> ('w, unit) cact" where
  "outbox_next C k =
     (case k of
        ThenNothing \<Rightarrow> skip
      | ThenCreateSelf cid g n welcome rest \<Rightarrow> asyncA (create_self_welcomes C cid g n welcome rest))"

definition stored_outbox :: "'w answer \<Rightarrow> pending_welcome list option" where
  "stored_outbox a = (case a of AnOutbox es \<Rightarrow> Some es | _ \<Rightarrow> None)"

definition resume :: "'w chan_env \<Rightarrow> continuation \<Rightarrow> 'w answer \<Rightarrow> ('w, unit) cact" where
  "resume C k a =
     (case k of
        KIdentity g \<Rightarrow> (case a of AnFrames fs \<Rightarrow> identity_loaded C g fs | _ \<Rightarrow> skip)
      | KBuddies g \<Rightarrow> (case a of AnFrame f \<Rightarrow> graph_frame_loaded C CONTROL_BUDDIES g f | _ \<Rightarrow> skip)
      | KGroups g \<Rightarrow> (case a of AnFrame f \<Rightarrow> graph_frame_loaded C CONTROL_GROUPS g f | _ \<Rightarrow> skip)
      | KPersistStarted cid g \<Rightarrow> resealSelf C (KSealStarted cid g)
      | KPersistSent \<Rightarrow> (case a of AnFail e \<Rightarrow> effectA (FxReject e) | _ \<Rightarrow> resolveA RSent)
      | KPersistAway cid \<Rightarrow> (case a of AnFail _ \<Rightarrow> skip | _ \<Rightarrow> pushA (PvOutboundAppended cid))
      | KLoadOutboxRemember cid key welcome t \<Rightarrow>
          block [outbox_arrived (stored_outbox a), remember_loaded cid key welcome t]
      | KLoadOutboxReplay load \<Rightarrow>
          block [whenA load (outbox_arrived (stored_outbox a)), replay_loaded C]
      | KSaveOutbox t \<Rightarrow> outbox_next C t
      | KAwayText cid \<Rightarrow> (case a of AnText t \<Rightarrow> away_text_ready C cid t | _ \<Rightarrow> skip)
      | KBlocked n mid cid g \<Rightarrow>
          blocked_answer C n mid cid g (case a of AnBlocked b \<Rightarrow> Some b | _ \<Rightarrow> None)
      | KLoadSelf url \<Rightarrow>
          (case a of
             AnConv None \<Rightarrow> awaitA (KLoadSeed url None)
           | AnConv (Some w) \<Rightarrow> bindA (new_conv w) (\<lambda>r. awaitA (KLoadSeed url (Some r)))
           | AnFail e \<Rightarrow> effectA (FxReject e)
           | _ \<Rightarrow> skip)
      | KLoadSeed url restored \<Rightarrow>
          (case a of
             AnFail e \<Rightarrow> effectA (FxReject e)
           | AnSeed seedHex \<Rightarrow> seed_ready C url restored (if ce_has C HasPersistence then seedHex else [])
           | _ \<Rightarrow> seed_ready C url restored [])
      | KSavedSelf url r \<Rightarrow> (case a of AnFail e \<Rightarrow> effectA (FxReject e) | _ \<Rightarrow> supersede C url r)
      | KClosedIds url r gen pend \<Rightarrow>
          (case a of
             AnFail e \<Rightarrow> effectA (FxReject e)
           | AnIds ids \<Rightarrow> connect_restored C r gen pend (if ce_has C HasClosedIds then ids else [])
           | _ \<Rightarrow> connect_restored C r gen pend [])
      | KProvMailbox open_window uh \<Rightarrow> prov_mailbox_ready C open_window uh
      | KQrShow i p kp \<Rightarrow> qr_show_ready C i p kp
      | KReady k' b \<Rightarrow> after_seal C k' b
      | _ \<Rightarrow> after_seal C k (case a of AnSealed b \<Rightarrow> b | _ \<Rightarrow> False))"

definition timer_fires :: "'w chan_env \<Rightarrow> timer_callback \<Rightarrow> ('w, unit) cact" where
  "timer_fires C cb =
     (case cb of
        TmRatchetFlush \<Rightarrow> ratchet_flush_fires C
      | TmConfirm gen cid kind g \<Rightarrow> confirm_timer_fires C gen cid kind g
      | TmFailoverAdd cid own cands \<Rightarrow> failover_add_fires C cid own cands
      | TmFailoverRemove cid own revoked \<Rightarrow> reconcileRemovalOne C cid own revoked True
      | TmReceipt idHex \<Rightarrow> fail_receipt (JsError ''the gateway did not confirm the revoke'') idHex
      | TmAwaySend cid t \<Rightarrow> away_send_fires C cid t)"

section \<open>Runs\<close>

datatype chan_call =
    CcConnect string
  | CcPublishIdentity
  | CcSyncBuddies
  | CcSyncGroups
  | CcOpenSelf
  | CcCreateSelfGroup "device_target list"
  | CcAbandon string bool
  | CcClose string
  | CcLeave string
  | CcFileSignal string bytes
  | CcCallSignal string bytes
  | CcStart "device_target list"
  | CcSend string string "lifetime option"
  | CcRevoke string string
  | CcOpenWindow string
  | CcJoin string
  | CcConfirm
  | CcCloseWindow
  | CcQrShow
  | CcQrScan string
  | CcAddDevice string device_target
  | CcRemoveDevice string string
  | CcExclude string
  | CcReconcileSiblings "string list" "device_target list"
  | CcReconcileSelf "string list" "device_target list"
  | CcReconcileRemovals "string list" "string list"
  | CcRecover string nat
  | CcRevokeKey string nat
  | CcIngest "string list"
  | CcSyncEpoch nat
  | CcKeyPackages nat

definition chan_call :: "'w chan_env \<Rightarrow> chan_call \<Rightarrow> ('w, unit) cact" where
  "chan_call C call =
     (case call of
        CcConnect url \<Rightarrow> connectGateway C url
      | CcPublishIdentity \<Rightarrow> publishIdentityNow C
      | CcSyncBuddies \<Rightarrow> syncBuddies C
      | CcSyncGroups \<Rightarrow> syncGroups C
      | CcOpenSelf \<Rightarrow> openSelfConversation C
      | CcCreateSelfGroup ts \<Rightarrow> createSelfGroup C ts
      | CcAbandon cid rec \<Rightarrow> abandonDeadSelfGroup C cid rec
      | CcClose cid \<Rightarrow> closeConversation C cid
      | CcLeave cid \<Rightarrow> leaveConversation cid
      | CcFileSignal cid b \<Rightarrow> sendFileSignal C cid b
      | CcCallSignal cid b \<Rightarrow> sendCallSignal C cid b
      | CcStart ts \<Rightarrow> startConversation C ts
      | CcSend cid t l \<Rightarrow> gc_sendMessage C cid t l
      | CcRevoke cid m \<Rightarrow> revokeMessage C cid m
      | CcOpenWindow uh \<Rightarrow> openProvisioningWindow uh
      | CcJoin uh \<Rightarrow> joinDevice uh
      | CcConfirm \<Rightarrow> confirmProvisioning C
      | CcCloseWindow \<Rightarrow> closeProvisioning C
      | CcQrShow \<Rightarrow> startQrPairing C
      | CcQrScan qr \<Rightarrow> grantScannedDevice C qr
      | CcAddDevice cid t \<Rightarrow> addDevice C cid t
      | CcRemoveDevice cid k \<Rightarrow> removeDevice C cid k
      | CcExclude k \<Rightarrow> excludeEverywhere C k
      | CcReconcileSiblings own cands \<Rightarrow> reconcileSiblings C own cands
      | CcReconcileSelf own cands \<Rightarrow> reconcileSelf C own cands
      | CcReconcileRemovals own revoked \<Rightarrow> reconcileRemovals C own revoked
      | CcRecover seed e \<Rightarrow> recoverWithSeed C seed e
      | CcRevokeKey k n \<Rightarrow> revokeDeviceKey C k n
      | CcIngest rs \<Rightarrow> ingestRevocations C rs
      | CcSyncEpoch e \<Rightarrow> syncEpoch C e
      | CcKeyPackages n \<Rightarrow> freshKeyPackages C n)"

datatype link_event =
    LinkOpen
  | LinkFrame "server_frame option"
  | LinkClosed
  | LinkPublishTimer
  | LinkRetryTimer

text \<open>An event on transport \<open>n\<close>: its own state first, then the handlers it was stamped with.\<close>

definition link_step :: "'w chan_env \<Rightarrow> nat \<Rightarrow> link_event \<Rightarrow> ('w, unit) cact" where
  "link_step C n ev =
     (\<lambda>s. if length (ch_links s) \<le> n then skip s
       else
         let l = ch_links s ! n; t = lk_transport l; k = lk_socket l;
             set_tk = (\<lambda>(t, k). set_link n (l\<lparr>lk_transport := t, lk_socket := k\<rparr>)) in
         case ev of
           LinkOpen \<Rightarrow> modA (set_tk (t, bs_onopen k)) s
         | LinkClosed \<Rightarrow> block [modA (set_tk (t, bs_onclose k)), handlers_onClose (lk_gen l)] s
         | LinkFrame f \<Rightarrow>
             (case dispatch f t of (t', call) \<Rightarrow> block [modA (set_tk (t', k)), handlers C (lk_gen l) call] s)
         | LinkPublishTimer \<Rightarrow>
             whenA (tp_publishTimer t) (modA (set_tk (publishTimer_fires bs_send (ce_encodePublish C) (t, k)))) s
         | LinkRetryTimer \<Rightarrow>
             whenA (tp_retryTimer t) (modA (set_tk (retryTimer_fires bs_send (ce_encodePublish C) (t, k)))) s)"

datatype 'w chan_event =
    EvCall chan_call
  | EvLink nat link_event
  | EvTimer nat
  | EvProvTimer nat
  | EvTask nat "'w answer"
  | EvJob nat "js_error option"
  | EvClock nat

definition chan_event :: "'w chan_env \<Rightarrow> 'w chan_event \<Rightarrow> ('w, unit) cact" where
  "chan_event C ev =
     (case ev of
        EvCall call \<Rightarrow> chan_call C call
      | EvLink n e \<Rightarrow> link_step C n e
      | EvTimer h \<Rightarrow>
          (\<lambda>s. case jm_get (ch_timers s) h of
             None \<Rightarrow> skip s
           | Some (_, cb) \<Rightarrow> block [cancelA h, timer_fires C cb] s)
      | EvProvTimer h \<Rightarrow> with_provisioning C (\<lambda>D p. (Inr (), prov_timer_fires h p))
      | EvTask i a \<Rightarrow>
          (\<lambda>s. case jm_get (ch_tasks s) i of
             None \<Rightarrow> skip s
           | Some k \<Rightarrow> block [modA (\<lambda>s. s\<lparr>ch_tasks := jm_delete i (ch_tasks s)\<rparr>), resume C k a] s)
      | EvJob c failed \<Rightarrow> job_settles C c failed
      | EvClock now \<Rightarrow> modA (\<lambda>s. s\<lparr>ch_clock := max now (ch_clock s)\<rparr>))"

text \<open>An exception that no handler catches ends the event; the state it left behind stays.\<close>

definition chan_step :: "'w chan_env \<Rightarrow> 'w chan \<Rightarrow> 'w chan_event \<Rightarrow> 'w chan" where
  "chan_step C s ev = final (chan_event C ev) s"

definition chan_run :: "'w chan_env \<Rightarrow> 'w chan_event list \<Rightarrow> 'w chan \<Rightarrow> 'w chan" where
  "chan_run C evs s = foldl (chan_step C) s evs"

end
