(* ===== verification/ChannelDemo.thy ===== *)
theory ChannelDemo
  imports ChannelGateway
begin

text \<open>
  A concrete channel for the witnesses: a device without storage that connects, restores the one
  conversation its wasm object holds, and revokes a message in it.
\<close>

definition demo_channel_ops :: "nat group_ops" where
  "demo_channel_ops =
     demo_gops\<lparr>go_listConversations := (\<lambda>_. [''aa'']), go_encrypt := (\<lambda>_ x w. (Inr [1], Suc w)),
               go_stageAdd := (\<lambda>_ _ w. (Inr (encodeList [[1], [2]]), Suc w))\<rparr>"

definition demo_channel :: "nat chan_env" where
  "demo_channel =
     \<lparr>ce_ops = demo_channel_ops, ce_has = (\<lambda>_. False), ce_make = (\<lambda>_ _. Inr 0), ce_random = (\<lambda>n. [7]),
      ce_jitter = (\<lambda>n. n), ce_encodePublish = (\<lambda>e. Inr (ev_payload e)), ce_encodeSubscribe = (\<lambda>_ _. [1]),
      ce_encodeAck = (\<lambda>b. b), ce_contactIdentDigest = None, ce_sasDigest = (\<lambda>_ _ _ _. []), ce_keypair = True,
      ce_seal = None, ce_open = None, ce_sha256 = (\<lambda>b. b), ce_parseJson = (\<lambda>_. None)\<rparr>"

definition demo_connect :: "nat chan_event list" where
  "demo_connect = [EvCall (CcConnect []), EvTask 0 AnOk, EvTask 1 AnOk]"

definition demo_socket :: browser_socket where
  "demo_socket = \<lparr>bs_open = False, bs_closed = False, bs_backlog = [[1], [1]], bs_wire = []\<rparr>"

definition demo_live :: "nat chan" where
  "demo_live = new_channel
     \<lparr>ch_heap := [0],
      ch_links := [\<lparr>lk_gen = 1, lk_conv = 0, lk_transport = new_transport, lk_socket = demo_socket\<rparr>],
      ch_transport := Some 0, ch_connectGen := 1, ch_conv := Some 0, ch_bootstrapKey := ''d0'',
      ch_sessions := [(convId ''aa'', \<lparr>en_session = \<lparr>gs_conv = 0, gs_groupId = ''aa''\<rparr>, en_mailbox = ''aa''\<rparr>)],
      ch_tasks := [(2, KLoadOutboxReplay False)], ch_next := 3,
      ch_fx := [FxConnect 0, FxSubscribe 0 ''d0'', FxSubscribe 0 ''aa'', FxPush (PvConnection ''secure''),
                FxResolve (RConnected (formatContact ''d0''))]\<rparr>"

text \<open>The definitions an evaluation of one event unfolds.\<close>

lemmas channel_eval =
  chan_step_def final_def chan_event_def chan_call_def resume_def awaitA_def freshA_def asyncA_def effectA_def
  pushA_def resolveA_def queryA_def convQ_def convM_def gsQ_def gsM_def requireTransport_def randomA_def scheduleA_def
  cancelA_def set_link_def socketA_def subscribeOn_def publishOn_def publish_def drainPublishQueue_def bs_send_def
  new_channel_def new_socket_def demo_channel_def demo_channel_ops_def demo_gops_def demo_socket_def Let_def

lemmas connect_eval =
  connectGateway_def seed_ready_def new_conv_def identity_ready_def supersede_def fail_all_receipts_def
  connect_restored_def open_link_def with_provisioning_def restore_group_def add_session_def rearm_pending_def
  replayWelcomeOutbox_def resyncSelfGroup_def with_self_session_def selfSession_def selfSessionBest_def
  self_candidate_def session_list_def gs_mailbox_def gs_pendingKind_def gs_isSelfConversation_def

lemma demo_connects: "chan_run demo_channel demo_connect new_channel = demo_live"
proof -
  let ?s1 = "new_channel\<lparr>ch_tasks := [(0, KLoadSeed [] None)], ch_next := 1\<rparr>"
  let ?s2 = "new_channel\<lparr>ch_heap := [0], ch_conv := Some 0, ch_bootstrapKey := ''d0'', ch_connectGen := 1,
     ch_tasks := [(1, KClosedIds [] 0 1 [])], ch_next := 2\<rparr>"
  have "chan_step demo_channel new_channel (EvCall (CcConnect [])) = ?s1"
    by (simp add: channel_eval connectGateway_def act_simps)
  moreover have "chan_step demo_channel ?s1 (EvTask 0 AnOk) = ?s2"
    by (simp add: channel_eval connect_eval act_simps)
  moreover have "chan_step demo_channel ?s2 (EvTask 1 AnOk) = demo_live"
    by (simp add: channel_eval connect_eval act_simps demo_live_def)
  ultimately show ?thesis by (simp only: chan_run_def demo_connect_def foldl.simps)
qed

text \<open>A revoke that waits for its receipt.\<close>

definition demo_env :: envelope_msg where
  "demo_env = \<lparr>ev_messageId = [7], ev_routingKey = ''aa'', ev_payload = [1], ev_ttlSeconds = SEVEN_DAYS_SECONDS\<rparr>"

definition demo_revoking :: "nat chan" where
  "demo_revoking = demo_live
     \<lparr>ch_heap := [1],
      ch_links := [\<lparr>lk_gen = 1, lk_conv = 0,
                    lk_transport = new_transport\<lparr>tp_unconfirmed := [(''07'', demo_env)], tp_publishTimer := True\<rparr>,
                    lk_socket = demo_socket\<lparr>bs_backlog := [[1], [1], [1]]\<rparr>\<rparr>],
      ch_next := 5, ch_timers := [(4, REVOKE_RECEIPT_MS, TmReceipt ''07'')],
      ch_receipts := [(''07'', \<lparr>rw_handle = 4\<rparr>)],
      ch_fx := ch_fx demo_live @ [FxPublish 0 demo_env]\<rparr>"

lemma demo_id: "bytesToHex [7] = ''07''"
  by (simp add: bytesToHex_def hex_byte_def hex_digits_def)

lemma demo_revokes:
  "chan_run demo_channel (demo_connect @ [EvCall (CcRevoke (convId ''aa'') ''m'')]) new_channel = demo_revoking"
proof -
  have "chan_step demo_channel demo_live (EvCall (CcRevoke (convId ''aa'') ''m'')) = demo_revoking"
    by (simp add: channel_eval revokeMessage_def gs_sendRevoke_def gs_seal_def act_simps demo_live_def demo_revoking_def
        demo_env_def demo_id new_transport_def trim_unconfirmed.simps MAX_UNCONFIRMED_def hexId_def)
  with demo_connects show ?thesis by (simp add: chan_run_def)
qed

end
