(* ===== verification/ChannelProps.thy ===== *)
theory ChannelProps
  imports ChannelDemo "HOL-Library.Multiset"
begin

text \<open>
  What the group channel guarantees: the choice of the canonical self-group, the safety of the self-heal,
  acknowledgement only after storage, receipts only from the live connection.
\<close>

section \<open>The canonical self-group\<close>

definition candidates :: "'w chan_env \<Rightarrow> 'w chan \<Rightarrow> gsession list \<Rightarrow> candidate list" where
  "candidates C s gs = List.map_filter (\<lambda>g. case self_candidate C s g of Inr c \<Rightarrow> c | Inl _ \<Rightarrow> None) gs"

definition readable :: "'w chan_env \<Rightarrow> 'w chan \<Rightarrow> gsession list \<Rightarrow> bool" where
  "readable C s gs \<longleftrightarrow> (\<forall>g \<in> set gs. \<exists>c. self_candidate C s g = Inr c)"

definition select :: "candidate list \<Rightarrow> candidate option \<Rightarrow> candidate option" where
  "select cs best = foldl (\<lambda>best c. if better c best then Some c else best) best cs"

definition beats :: "candidate \<Rightarrow> candidate \<Rightarrow> bool" where
  "beats c b \<longleftrightarrow> better c (Some b)"

definition cand_gid :: "candidate \<Rightarrow> string" where
  "cand_gid c = gs_groupId (fst c)"

lemma best_of_select: "readable C s gs \<Longrightarrow> best_of C s gs best = Inr (select (candidates C s gs) best)"
  by (induction gs arbitrary: best)
    (auto simp: readable_def select_def candidates_def map_filter_simps split: option.split)

lemma beats_trans: "beats a b \<Longrightarrow> beats b c \<Longrightarrow> beats a c"
  by (auto simp: beats_def better_def Let_def split: prod.splits)

lemma beats_total: "cand_gid a \<noteq> cand_gid b \<Longrightarrow> beats a b \<or> beats b a"
  by (auto simp: beats_def better_def cand_gid_def Let_def split: prod.splits)

lemma beats_asym: "beats a b \<Longrightarrow> \<not> beats b a"
  by (auto simp: beats_def better_def Let_def split: prod.splits)

lemma select_Some:
  assumes "distinct (cand_gid b # map cand_gid cs)"
  shows "\<exists>m \<in> set (b # cs). select cs (Some b) = Some m \<and> (\<forall>c \<in> set (b # cs). c = m \<or> beats m c)"
  using assms
proof (induction cs arbitrary: b)
  case Nil
  then show ?case by (simp add: select_def)
next
  case (Cons c cs)
  have step: "select (c # cs) (Some b) = select cs (Some (if beats c b then c else b))"
    by (simp add: select_def beats_def)
  show ?case
  proof (cases "beats c b")
    case True
    have "\<exists>m \<in> set (c # cs). select cs (Some c) = Some m \<and> (\<forall>x \<in> set (c # cs). x = m \<or> beats m x)"
      by (rule Cons.IH) (use Cons.prems in simp)
    then obtain m where m: "m \<in> set (c # cs)" "select cs (Some c) = Some m"
        "\<forall>x \<in> set (c # cs). x = m \<or> beats m x" by blast
    then have "beats m b" using True beats_trans by (metis list.set_intros(1))
    with m step True show ?thesis by auto
  next
    case False
    then have "beats b c" using beats_total [of b c] Cons.prems by auto
    have "\<exists>m \<in> set (b # cs). select cs (Some b) = Some m \<and> (\<forall>x \<in> set (b # cs). x = m \<or> beats m x)"
      by (rule Cons.IH) (use Cons.prems in simp)
    then obtain m where m: "m \<in> set (b # cs)" "select cs (Some b) = Some m"
        "\<forall>x \<in> set (b # cs). x = m \<or> beats m x" by blast
    then have "beats m c" using \<open>beats b c\<close> beats_trans by (metis list.set_intros(1))
    with m step False show ?thesis by auto
  qed
qed

lemma select_None: "select [] None = None" "select (c # cs) None = select cs (Some c)"
  by (simp_all add: select_def better_def)

lemma select_best:
  assumes "distinct (map cand_gid cs)" and "cs \<noteq> []"
  shows "\<exists>m \<in> set cs. select cs None = Some m \<and> (\<forall>c \<in> set cs. c = m \<or> beats m c)"
proof -
  from assms(2) obtain c cs' where cs: "cs = c # cs'" by (cases cs) simp_all
  from assms(1) have "distinct (cand_gid c # map cand_gid cs')" by (simp add: cs)
  from select_Some [OF this] show ?thesis by (simp only: cs select_None)
qed

lemma one_of_both: "x = y \<or> P y x \<Longrightarrow> y = x \<or> P x y \<Longrightarrow> (P y x \<Longrightarrow> \<not> P x y) \<Longrightarrow> x = y"
  by blast

lemma select_unique:
  assumes "distinct (map cand_gid cs)" and "mset cs = mset ds"
  shows "select cs None = select ds None"
proof (cases cs)
  case Nil
  have "mset ds = mset cs" using assms(2) by (rule sym)
  also have "\<dots> = {#}" by (simp only: Nil mset.simps)
  finally have "ds = []" by (simp only: mset_zero_iff)
  with Nil show ?thesis by simp
next
  case (Cons c cs')
  then have "cs \<noteq> []" by simp
  then have "ds \<noteq> []" using assms(2) by (metis mset_zero_iff)
  have "mset (map cand_gid cs) = mset (map cand_gid ds)" using assms(2) by (simp only: mset_map)
  from mset_eq_imp_distinct_iff [OF this] assms(1) have dist: "distinct (map cand_gid ds)" by (rule iffD1)
  from select_best [OF assms(1) \<open>cs \<noteq> []\<close>] obtain m where
    m: "m \<in> set cs" "select cs None = Some m" "\<forall>x \<in> set cs. x = m \<or> beats m x" by blast
  from select_best [OF dist \<open>ds \<noteq> []\<close>] obtain n where
    n: "n \<in> set ds" "select ds None = Some n" "\<forall>x \<in> set ds. x = n \<or> beats n x" by blast
  have "set cs = set ds" using assms(2) by (rule mset_eq_setD)
  then have "m \<in> set ds" "n \<in> set cs" using m(1) n(1) by (simp_all only:)
  from bspec [OF n(3) this(1)] bspec [OF m(3) this(2)] have "m = n" by (rule one_of_both) (rule beats_asym)
  with m(2) n(2) show ?thesis by simp
qed

lemma self_candidate_gid: "self_candidate C s g = Inr (Some c) \<Longrightarrow> cand_gid c = gs_groupId g"
  by (auto simp: self_candidate_def cand_gid_def Let_def bind_result_Inr split: sum.splits bool.splits)

lemma candidates_gids: "set (map cand_gid (candidates C s gs)) \<subseteq> set (map gs_groupId gs)"
  by (induction gs) (auto simp: candidates_def map_filter_simps self_candidate_gid split: option.splits sum.splits)

lemma candidates_distinct: "distinct (map gs_groupId gs) \<Longrightarrow> distinct (map cand_gid (candidates C s gs))"
proof (induction gs)
  case (Cons g gs)
  then show ?case
    using candidates_gids [of C s gs]
    by (auto simp: candidates_def map_filter_simps self_candidate_gid image_subset_iff
        split: option.splits sum.splits)
qed (simp add: candidates_def map_filter_simps)

lemma mset_candidates: "mset gs = mset hs \<Longrightarrow> mset (candidates C s gs) = mset (candidates C s hs)"
  by (simp only: candidates_def List.map_filter_def mset_map mset_filter)

lemma candidates_heap: "ch_heap s = ch_heap t \<Longrightarrow> self_candidate C s g = self_candidate C t g"
  by (simp add: self_candidate_def)

text \<open>C17.
  The canonical self-group does not depend on the order in which the sessions are held: two devices, or
  one device before and after a reload, that hold the same readable conversations choose the same group,
  and the chosen group is preferred over every other self-group they hold.
\<close>
theorem canonical_self_group_is_order_independent:
  assumes "distinct (map gs_groupId (session_list s))" and "readable C s (session_list s)"
    and "mset (session_list t) = mset (session_list s)" and "ch_heap t = ch_heap s"
  shows "selfSessionBest C t = selfSessionBest C s
       \<and> (\<exists>best. selfSessionBest C s = Inr best
            \<and> (case best of
                 None \<Rightarrow> candidates C s (session_list s) = []
               | Some m \<Rightarrow> m \<in> set (candidates C s (session_list s))
                          \<and> (\<forall>c \<in> set (candidates C s (session_list s)). c = m \<or> beats m c)))"
proof -
  let ?cs = "candidates C s (session_list s)" and ?ds = "candidates C t (session_list t)"
  have same: "self_candidate C t g = self_candidate C s g" for g by (rule candidates_heap) (fact assms(4))
  then have "?ds = candidates C s (session_list t)" by (simp add: candidates_def)
  then have ms: "mset ?cs = mset ?ds" using mset_candidates [OF assms(3)] by metis
  have "set (session_list t) = set (session_list s)" using assms(3) by (rule mset_eq_setD)
  with assms(2) same have "readable C t (session_list t)" by (simp add: readable_def)
  then have eqs: "selfSessionBest C s = Inr (select ?cs None)" "selfSessionBest C t = Inr (select ?ds None)"
    using assms(2) by (simp_all add: selfSessionBest_def best_of_select)
  have dist: "distinct (map cand_gid ?cs)" using assms(1) by (rule candidates_distinct)
  have "case select ?cs None of None \<Rightarrow> ?cs = [] | Some m \<Rightarrow> m \<in> set ?cs \<and> (\<forall>c \<in> set ?cs. c = m \<or> beats m c)"
  proof (cases "?cs = []")
    case False
    from select_best [OF dist this] obtain m where "m \<in> set ?cs" "select ?cs None = Some m"
      "\<forall>c \<in> set ?cs. c = m \<or> beats m c" by blast
    then show ?thesis by simp
  qed (simp add: select_None)
  with eqs select_unique [OF dist ms] show ?thesis by simp
qed


definition demo_self_channel :: "nat chan_env" where
  "demo_self_channel = demo_channel\<lparr>ce_ops := demo_gops\<lparr>go_isSelfConversation := (\<lambda>_ _. Inr True)\<rparr>\<rparr>"

definition demo_two :: "string list \<Rightarrow> nat chan" where
  "demo_two gids = new_channel\<lparr>ch_heap := [0],
     ch_sessions := map (\<lambda>g. (convId g, \<lparr>en_session = \<lparr>gs_conv = 0, gs_groupId = g\<rparr>, en_mailbox = g\<rparr>)) gids\<rparr>"

theorem canonical_self_group_is_order_independent_witness:
  "selfSessionBest demo_self_channel (demo_two [''bb'', ''aa'']) = selfSessionBest demo_self_channel (demo_two [''aa'', ''bb''])"
proof -
  have readable: "readable demo_self_channel (demo_two [''aa'', ''bb'']) (session_list (demo_two [''aa'', ''bb'']))"
    by (simp add: readable_def session_list_def demo_two_def new_channel_def self_candidate_def demo_self_channel_def
        demo_channel_def demo_gops_def gs_isSelfConversation_def gs_isSelfConversationStrict_def gs_roster_def)
  show ?thesis
    by (rule conjunct1 [OF canonical_self_group_is_order_independent [OF _ readable]])
      (simp_all add: session_list_def demo_two_def new_channel_def)
qed

section \<open>The election of the healing device\<close>

lemma our_devices:
  assumes "k \<in> set own" and "k \<in> set members"
  shows "ourDevicesInGroup k own members = sorted_list_of_set (set own \<inter> set members)"
proof -
  have "set own \<inter> set members = set (k # filter (\<lambda>k. k \<in> set members) own)" using assms by auto
  then show ?thesis by (simp only: ourDevicesInGroup_def sorted_list_of_set_sort_remdups)
qed

lemma index_of_nth: "x \<in> set xs \<Longrightarrow> index_of x xs < length xs \<and> xs ! index_of x xs = x"
  by (induction xs) auto

lemma index_of_less:
  assumes "sorted xs" and "x \<in> set xs" and "y \<in> set xs" and "x < y"
  shows "index_of x xs < index_of y xs"
proof (rule ccontr)
  assume "\<not> ?thesis"
  then have "index_of y xs \<le> index_of x xs" by simp
  with assms(1) index_of_nth [OF assms(2)] have "xs ! index_of y xs \<le> xs ! index_of x xs"
    by (intro sorted_nth_mono) simp_all
  with index_of_nth [OF assms(2)] index_of_nth [OF assms(3)] assms(4) show False by simp
qed

lemma hd_index_of: "x \<in> set xs \<Longrightarrow> hd xs = x \<longleftrightarrow> index_of x xs = 0"
  by (cases xs) auto

lemma failover_window:
  "ADD_FAILOVER_MS * max 1 p \<le> failover_delay C k own members i"
  "failover_delay C k own members i < ADD_FAILOVER_MS * max 1 p + RECONCILE_JITTER_MS"
  if "p = index_of k (ourDevicesInGroup k own members)"
  using that by (simp_all add: failover_delay_def RECONCILE_JITTER_MS_def)

text \<open>C11.
  The self-heal elects one device: among the devices of the account that are in a group, and that see the
  same roster, exactly one is designated to admit a missing sibling, and the fallback timers of the others
  are ranked: of two that wait, the one with the smaller key fires at least four seconds earlier, whatever
  jitter either draws, so it has published before the other looks again.
\<close>
theorem exactly_one_device_heals:
  assumes "k \<in> set own" and "k \<in> set members"
  shows "(\<exists>!d. d \<in> set own \<inter> set members \<and> isDesignatedAdder d own members)
       \<and> (\<forall>a \<in> set own \<inter> set members. \<forall>b \<in> set own \<inter> set members.
            a < b \<and> \<not> isDesignatedAdder a own members \<longrightarrow>
            (\<forall>i j. failover_delay C a own members i + 4000 < failover_delay C b own members j))"
proof -
  let ?S = "set own \<inter> set members" and ?xs = "sorted_list_of_set (set own \<inter> set members)"
  have ours: "ourDevicesInGroup d own members = ?xs" if "d \<in> ?S" for d using that by (simp add: our_devices)
  have des: "isDesignatedAdder d own members \<longleftrightarrow> hd ?xs = d" if "d \<in> ?S" for d
    using that by (simp add: isDesignatedAdder_def ours)
  have "?S \<noteq> {}" using assms by auto
  then have "?xs \<noteq> []" by simp
  then have "hd ?xs \<in> ?S" using hd_in_set [of ?xs] by simp
  then have one: "\<exists>!d. d \<in> ?S \<and> isDesignatedAdder d own members" using des by metis
  have "failover_delay C a own members i + 4000 < failover_delay C b own members j"
    if ab: "a \<in> ?S" "b \<in> ?S" "a < b" "\<not> isDesignatedAdder a own members" for a b i j
  proof -
    let ?p = "index_of a ?xs" and ?q = "index_of b ?xs"
    have "?p < ?q" by (rule index_of_less) (use ab in simp_all)
    moreover have "?p \<noteq> 0" using ab des hd_index_of [of a ?xs] by simp
    ultimately have "max 1 ?p + 1 \<le> max 1 ?q" by simp
    then have "ADD_FAILOVER_MS * max 1 ?p + ADD_FAILOVER_MS \<le> ADD_FAILOVER_MS * max 1 ?q"
      by (simp add: ADD_FAILOVER_MS_def)
    with failover_window(2) [of ?p a own members C i] failover_window(1) [of ?q b own members C j] ab ours
    show ?thesis by (simp add: ADD_FAILOVER_MS_def RECONCILE_JITTER_MS_def)
  qed
  with one show ?thesis by blast
qed

theorem exactly_one_device_heals_witness:
  "(\<exists>!d. d \<in> set [''d0'', ''d1''] \<inter> set [''d0'', ''d1'', ''p0''] \<and> isDesignatedAdder d [''d0'', ''d1''] [''d0'', ''d1'', ''p0''])"
  using exactly_one_device_heals [of "''d0''" "[''d0'', ''d1'']" "[''d0'', ''d1'', ''p0'']" demo_channel] by simp

end
