(* ===== verification/ChannelSafety.thy ===== *)
theory ChannelSafety
  imports ChannelProps
begin

text \<open>
  A relation that every statement of the channel keeps, except the confirmation of a receipt: no new
  resolution of a revoke, sessions keyed by the id of their group, and a generation that only grows. It is
  carried through every method once, so that what holds of a run follows from the single exception.
\<close>

section \<open>The relation\<close>

text \<open>The revokes reported to the caller as removed.\<close>

definition confirmed :: "'w chan \<Rightarrow> string set" where
  "confirmed s = {m. FxResolve (RRevoked m) \<in> set (ch_fx s)}"

fun revoke_fx :: "effect \<Rightarrow> bool" where
  "revoke_fx (FxResolve r) = (case r of RRevoked _ \<Rightarrow> True | _ \<Rightarrow> False)"
| "revoke_fx _ = False"

fun revoke_task :: "continuation \<Rightarrow> bool" where
  "revoke_task (KSealed r) = (case r of RRevoked _ \<Rightarrow> True | _ \<Rightarrow> False)"
| "revoke_task (KReady k b) = revoke_task k"
| "revoke_task _ = False"

definition calm_tasks :: "'w chan \<Rightarrow> bool" where
  "calm_tasks s \<longleftrightarrow> (\<forall>k \<in> set (jm_values (ch_tasks s)). \<not> revoke_task k)"

definition keyed_entry :: "string \<times> session_entry \<Rightarrow> bool" where
  "keyed_entry e \<longleftrightarrow> fst e = convId (gs_groupId (en_session (snd e)))"

definition keyed :: "'w chan \<Rightarrow> bool" where
  "keyed s \<longleftrightarrow> jm_wf (ch_sessions s) \<and> list_all keyed_entry (ch_sessions s)"

text \<open>The promise chains: each conversation has one of its own, and their numbers are used up.\<close>

definition fifo :: "'w chan \<Rightarrow> bool" where
  "fifo s \<longleftrightarrow> jm_wf (ch_chains s) \<and> distinct (map snd (ch_chains s))
     \<and> snd ` set (ch_chains s) \<subseteq> {..<ch_next s} \<and> fst ` set (ch_jobs s) \<subseteq> {..<ch_next s}"

lemma fifo_sub:
  assumes "fifo s" "jm_wf (ch_chains t)" "distinct (map snd (ch_chains t))"
    "snd ` set (ch_chains t) \<subseteq> snd ` set (ch_chains s)" "fst ` set (ch_jobs t) \<subseteq> fst ` set (ch_jobs s)" "ch_next s \<le> ch_next t"
  shows "fifo t"
  using assms by (simp add: fifo_def) (meson lessThan_subset_iff order_trans)

lemma fifo_keep:
  assumes "fifo s" "ch_chains t = ch_chains s" "ch_jobs t = ch_jobs s" "ch_next s \<le> ch_next t"
  shows "fifo t"
  using assms(1) by (rule fifo_sub) (use assms in \<open>simp_all add: fifo_def\<close>)

definition calm :: "'w chan \<Rightarrow> 'w chan \<Rightarrow> bool" where
  "calm s t \<longleftrightarrow> (calm_tasks s \<longrightarrow> calm_tasks t) \<and> (keyed s \<longrightarrow> keyed t) \<and> (fifo s \<longrightarrow> fifo t)
     \<and> confirmed t \<subseteq> confirmed s \<and> ch_connectGen s \<le> ch_connectGen t"

interpretation calm: step_relation calm
  by unfold_locales (auto simp: calm_def)

named_theorems calm_intro \<open>what keeps the relation\<close>

lemmas [calm_intro] =
  calm.step_ret calm.step_throw calm.step_skip calm.step_read calm.step_bind calm.step_catch calm.step_when calm.step_for

lemma calm_block [calm_intro]:
  "calm s (snd (block [] s))"
  "calm s (snd (a s)) \<Longrightarrow> (\<And>t. calm t (snd (block as t))) \<Longrightarrow> calm s (snd (block (a # as) s))"
  by (simp_all add: calm.step_rules)

lemma calm_branches:
  "(c \<Longrightarrow> calm s (snd x)) \<Longrightarrow> (\<not> c \<Longrightarrow> calm s (snd y)) \<Longrightarrow> calm s (snd (if c then x else y))"
  "(c \<Longrightarrow> calm s (snd (f s))) \<Longrightarrow> (\<not> c \<Longrightarrow> calm s (snd (g s))) \<Longrightarrow> calm s (snd ((if c then f else g) s))"
  "(opt = None \<Longrightarrow> calm s (snd x)) \<Longrightarrow> (\<And>v. opt = Some v \<Longrightarrow> calm s (snd (z v)))
     \<Longrightarrow> calm s (snd (case opt of None \<Rightarrow> x | Some v \<Rightarrow> z v))"
  "(opt = None \<Longrightarrow> calm s (snd (f s))) \<Longrightarrow> (\<And>v. opt = Some v \<Longrightarrow> calm s (snd (h v s)))
     \<Longrightarrow> calm s (snd ((case opt of None \<Rightarrow> f | Some v \<Rightarrow> h v) s))"
  by (simp_all split: option.split)

section \<open>Primitive statements\<close>

lemma calm_update:
  assumes "ch_tasks t = ch_tasks s" and "ch_sessions t = ch_sessions s" and "ch_connectGen t = ch_connectGen s"
    and "ch_chains t = ch_chains s" and "ch_jobs t = ch_jobs s" and "ch_next s \<le> ch_next t"
    and "\<And>m. FxResolve (RRevoked m) \<in> set (ch_fx t) \<Longrightarrow> FxResolve (RRevoked m) \<in> set (ch_fx s)"
  shows "calm s t"
  using assms fifo_keep [of s t] by (auto simp: calm_def calm_tasks_def keyed_def confirmed_def)

lemma calm_mod [calm_intro]:
  assumes "ch_tasks (f s) = ch_tasks s" and "ch_sessions (f s) = ch_sessions s" and "ch_connectGen (f s) = ch_connectGen s"
    and "ch_chains (f s) = ch_chains s" and "ch_jobs (f s) = ch_jobs s" and "ch_next s \<le> ch_next (f s)"
    and "\<And>m. FxResolve (RRevoked m) \<in> set (ch_fx (f s)) \<Longrightarrow> FxResolve (RRevoked m) \<in> set (ch_fx s)"
  shows "calm s (snd (modA f s))"
  by (rule calm.step_mod, rule calm_update) (fact assms)+

lemma list_all_update: "list_all P (AList.update k v m)" if "list_all P m" and "P (k, v)"
  using that by (induction m) auto

lemma list_all_delete: "list_all P m \<Longrightarrow> list_all P (AList.delete k m)"
  by (induction m) (auto simp: AList.delete_eq)

lemma calm_statements [calm_intro]:
  "calm s (snd (queryA f s))"
  "calm s (snd (freshA s))"
  "calm s (snd (cancelA h s))"
  "calm s (snd (convQ r g s))"
  "calm s (snd (gsQ q x s))"
  "\<not> revoke_fx e \<Longrightarrow> calm s (snd (effectA e s))"
  "calm s (snd (pushA ev s))"
  "calm s (snd (requireConv s))"
  "calm s (snd (requireTransport s))"
  "calm s (snd (new_conv w s))"
  by (auto intro!: calm_update simp: queryA_def freshA_def cancelA_def convQ_def gsQ_def effectA_def pushA_def
      modA_def requireConv_def requireTransport_def new_conv_def split: option.splits)

lemma calm_randomA [calm_intro]: "calm s (snd (randomA C s))"
  by (auto simp: randomA_def intro!: calm_intro)

lemma calm_convM [calm_intro]: "calm s (snd (convM r f s))" "calm s (snd (gsM g x s))"
  by (auto intro!: calm_update simp: gsM_def convM_def split: prod.splits)

lemma calm_awaitA [calm_intro]: "\<not> revoke_task k \<Longrightarrow> calm s (snd (awaitA k s))"
  by (auto simp: awaitA_def bindA_def freshA_def modA_def calm_def calm_tasks_def keyed_def confirmed_def elim: fifo_keep)

lemma calm_scheduleA [calm_intro]: "calm s (snd (scheduleA ms cb s))"
  by (auto simp: scheduleA_def intro!: calm_intro)


lemma calm_add_session [calm_intro]: "calm s (snd (add_session g mailbox s))"
  by (auto simp: add_session_def modA_def calm_def calm_tasks_def keyed_def keyed_entry_def fifo_def confirmed_def
      intro!: list_all_update)

lemma calm_leave [simp]: "calm s (snd (modA (\<lambda>s. s\<lparr>ch_sessions := jm_delete cid (ch_sessions s)\<rparr>) s))"
  by (auto simp: modA_def calm_def calm_tasks_def keyed_def fifo_def confirmed_def intro!: list_all_delete)

lemma calm_drop_chain [calm_intro]: "calm s (snd (modA (\<lambda>s. s\<lparr>ch_chains := jm_delete cid (ch_chains s)\<rparr>) s))"
proof -
  let ?t = "s\<lparr>ch_chains := jm_delete cid (ch_chains s)\<rparr>"
  have "fifo ?t" if "fifo s"
  proof (rule fifo_sub [OF that])
    show "jm_wf (ch_chains ?t)" using that by (simp add: fifo_def)
    show "distinct (map snd (ch_chains ?t))" using that by (simp add: fifo_def AList.delete_eq distinct_map_filter)
    show "snd ` set (ch_chains ?t) \<subseteq> snd ` set (ch_chains s)" by (auto simp: AList.delete_eq)
  qed simp_all
  then show ?thesis by (simp add: modA_def calm_def calm_tasks_def keyed_def confirmed_def)
qed

lemma calm_take_job [calm_intro]: "calm s (snd (modA (\<lambda>s. s\<lparr>ch_jobs := remove1 cj (ch_jobs s)\<rparr>) s))"
proof -
  have "fifo (s\<lparr>ch_jobs := remove1 cj (ch_jobs s)\<rparr>)" if "fifo s"
    by (rule fifo_sub [OF that]) (use that in \<open>simp_all add: fifo_def image_mono [OF set_remove1_subset]\<close>)
  then show ?thesis by (simp add: modA_def calm_def calm_tasks_def keyed_def confirmed_def)
qed

text \<open>A new conversation gets a chain with an unused number.\<close>

lemma calm_add_job: "(fifo s \<Longrightarrow> c < ch_next s) \<Longrightarrow> calm s (s\<lparr>ch_jobs := ch_jobs s @ [(c, j)]\<rparr>)"
  by (simp add: calm_def calm_tasks_def keyed_def fifo_def confirmed_def)

lemma calm_new_chain:
  assumes "jm_get (ch_chains s) cid = None"
  shows "calm s (s\<lparr>ch_next := ch_next s + 1, ch_chains := jm_set cid (ch_next s) (ch_chains s)\<rparr>)" (is "calm s ?t")
proof -
  have new: "jm_set cid (ch_next s) (ch_chains s) = ch_chains s @ [(cid, ch_next s)]"
    using assms by (simp add: jm_set_new jm_has_def)
  have "fifo ?t" if f: "fifo s"
  proof -
    have c: "\<And>c. c \<in> snd ` set (ch_chains s) \<Longrightarrow> c < ch_next s" "\<And>c. c \<in> fst ` set (ch_jobs s) \<Longrightarrow> c < ch_next s"
      using f by (auto simp: fifo_def)
    have "cid \<notin> fst ` set (ch_chains s)" using assms by (simp add: map_of_eq_None_iff)
    then have "jm_wf (ch_chains s @ [(cid, ch_next s)])" using f by (simp add: fifo_def jm_wf_def)
    moreover have "distinct (map snd (ch_chains s @ [(cid, ch_next s)]))" using f c(1) by (auto simp: fifo_def)
    moreover have "snd ` set (ch_chains s @ [(cid, ch_next s)]) \<subseteq> {..<ch_next s + 1}" using c(1) by (auto intro: less_SucI)
    moreover have "fst ` set (ch_jobs s) \<subseteq> {..<ch_next s + 1}" using c(2) by (auto intro: less_SucI)
    ultimately show ?thesis unfolding fifo_def new by simp
  qed
  then show ?thesis by (simp add: calm_def calm_tasks_def keyed_def confirmed_def)
qed

lemma calm_clear [simp]: "calm s (snd (modA (\<lambda>s. s\<lparr>ch_sessions := []\<rparr>) s))"
  by (auto simp: modA_def calm_def calm_tasks_def keyed_def fifo_def confirmed_def)

lemma calm_set_mailbox [calm_intro]: "calm s (snd (set_mailbox cid mailbox s))"
proof (cases "jm_get (ch_sessions s) cid")
  case (Some en)
  then have "(cid, en) \<in> set (ch_sessions s)" by (rule map_of_SomeD)
  then have "list_all keyed_entry (ch_sessions s) \<Longrightarrow> keyed_entry (cid, en\<lparr>en_mailbox := mailbox\<rparr>)"
    by (auto simp: list_all_iff keyed_entry_def dest!: bspec)
  with Some show ?thesis
    by (auto simp: set_mailbox_def modA_def calm_def calm_tasks_def keyed_def fifo_def confirmed_def intro!: list_all_update)
qed (simp add: set_mailbox_def modA_def calm.step_refl)

section \<open>Methods below the handlers\<close>

lemma calm_publishOn [calm_intro]: "calm s (snd (publishOn C n env s))"
  by (auto simp: publishOn_def set_link_def Let_def intro!: calm_intro split: prod.splits)

lemma calm_socketA [calm_intro]: "calm s (snd (socketA n b s))"
  by (auto simp: socketA_def set_link_def Let_def intro!: calm_update split: sum.splits)

lemma calm_publishing [calm_intro]:
  "calm s (snd (subscribeOn C n key s))"
  "calm s (snd (ackOn C n mid s))"
  "calm s (snd (publishNew C n key payload ttl s))"
  by (auto simp: subscribeOn_def ackOn_def publishNew_def intro!: calm_intro)

lemma calm_asyncA [calm_intro]: "calm s (snd (m s)) \<Longrightarrow> calm s (snd (asyncA m s))"
  by (auto simp: asyncA_def intro!: calm_intro)

lemma calm_resolveA [calm_intro]: "\<not> revoke_fx (FxResolve r) \<Longrightarrow> calm s (snd (resolveA r s))"
  by (auto simp: resolveA_def intro!: calm_intro)

lemma calm_resealSelf [calm_intro]: "\<not> revoke_task k \<Longrightarrow> calm s (snd (resealSelf C k s))"
  by (auto simp: resealSelf_def intro!: calm_intro split: option.splits)

lemma calm_sendControl [calm_intro]: "calm s (snd (gs_sendControlA C ct payload g s))"
  by (auto simp: gs_sendControlA_def intro!: calm_intro)

lemma calm_identity [calm_intro]:
  "calm s (snd (publishIdentityFor C g s))"
  "calm s (snd (identity_loaded C g frames s))"
  "calm s (snd (publishBuddiesFor C g s))"
  "calm s (snd (publishGroupsFor C g s))"
  "calm s (snd (graph_frame_loaded C ct g fr s))"
  by (auto simp: publishIdentityFor_def identity_loaded_def publishBuddiesFor_def publishGroupsFor_def
      graph_frame_loaded_def intro!: calm_intro split: option.splits)

lemma calm_with_self [calm_intro]: "(\<And>g t. calm t (snd (f g t))) \<Longrightarrow> calm s (snd (with_self_session C f s))"
  by (auto simp: with_self_session_def intro!: calm_intro split: option.splits)

lemma calm_sync [calm_intro]:
  "calm s (snd (publishIdentity C s))"
  "calm s (snd (publishIdentityNow C s))"
  "calm s (snd (syncBuddies C s))"
  "calm s (snd (syncGroups C s))"
  "calm s (snd (resyncSelfGroup C s))"
  by (auto simp: publishIdentityNow_def publishIdentity_def syncBuddies_def syncGroups_def resyncSelfGroup_def
      intro!: calm_intro)

lemma calm_flush_sessions [calm_intro]: "calm s (snd (flush_sessions C ids flushed s))"
  by (induction ids arbitrary: flushed s) (auto intro!: calm_intro split: option.splits)

lemma calm_ratchet [calm_intro]:
  "calm s (snd (scheduleRatchetFlush cid s))"
  "calm s (snd (ratchet_flush_fires C s))"
  by (auto simp: scheduleRatchetFlush_def ratchet_flush_fires_def intro!: calm_intro)


lemma calm_outbox [calm_intro]:
  "calm s (snd (save_outbox s))"
  "calm s (snd (remember_loaded cid key welcome k s))"
  "calm s (snd (rememberWelcome C cid key welcome k s))"
  "calm s (snd (retireWelcomes C cid s))"
  "calm s (snd (outbox_arrived stored s))"
  "calm s (snd (replayWelcomeOutbox C s))"
  "calm s (snd (settled_devices C s))"
  by (auto simp: save_outbox_def remember_loaded_def rememberWelcome_def retireWelcomes_def outbox_arrived_def
      replayWelcomeOutbox_def settled_devices_def Let_def intro!: calm_intro split: option.splits prod.splits)

lemma calm_replay_entries [calm_intro]: "calm s (snd (replay_entries C n now settled es live s))"
  by (induction es arbitrary: live s) (auto simp: Let_def intro!: calm_intro)

lemma calm_replay_loaded [calm_intro]: "calm s (snd (replay_loaded C s))"
  by (auto simp: replay_loaded_def intro!: calm_intro split: option.splits)

lemma calm_leaveConversation [calm_intro]: "calm s (snd (leaveConversation cid s))"
  by (auto simp: leaveConversation_def intro!: calm_intro calm_leave split: option.splits)

lemma calm_closing [calm_intro]:
  "calm s (snd (closeConversation C cid s))"
  "calm s (snd (abandonDeadSelfGroup C cid own s))"
  by (auto simp: closeConversation_def abandonDeadSelfGroup_def intro!: calm_intro
      split: option.splits)

lemma calm_create_self_welcomes [calm_intro]: "calm s (snd (create_self_welcomes C cid g n welcome ds s))"
  by (induction ds arbitrary: s) (auto intro!: calm_intro)

lemma calm_openSelf [calm_intro]: "calm s (snd (openSelfConversation C s))"
  by (auto simp: openSelfConversation_def Let_def intro!: calm_intro split: option.splits)

lemma calm_create_self_checked [calm_intro]: "calm s (snd (create_self_checked C r n targets s))"
  by (auto simp: create_self_checked_def Let_def split_beta intro!: calm_intro)

lemma calm_createSelfGroup [calm_intro]: "calm s (snd (createSelfGroup C targets s))"
  by (auto simp: createSelfGroup_def intro!: calm_intro)

lemma calm_self_group_created [calm_intro]: "calm s (snd (self_group_created C g s))"
  by (auto simp: self_group_created_def intro!: calm_intro)

lemma calm_signals [calm_intro]:
  "calm s (snd (sendFileSignal C cid b s))"
  "calm s (snd (sendCallSignal C cid b s))"
  by (auto simp: sendFileSignal_def sendCallSignal_def send_signal_def intro!: calm_intro split: option.splits)

lemma calm_onControlFrame [calm_intro]: "calm s (snd (onControlFrame C cid ct b own s))"
  unfolding onControlFrame_def Let_def by (intro calm_branches calm_intro) simp_all

lemma calm_away [calm_intro]:
  "calm s (snd (peerLabel C g s))"
  "calm s (snd (maybeAwayReply C cid s))"
  "calm s (snd (away_text_ready C cid t s))"
  "calm s (snd (persist_out env cid l txt s))"
  "calm s (snd (away_send_fires C cid txt s))"
  by (auto simp: peerLabel_def maybeAwayReply_def away_text_ready_def persist_out_def away_send_fires_def
      intro!: calm_intro split: option.splits)

section \<open>Membership\<close>

lemma calm_staging [calm_intro]:
  "calm s (snd (confirm_timer_fires C gen cid kind g s))"
  "calm s (snd (arm_backstop ms gen cid kind target g s))"
  by (auto simp: confirm_timer_fires_def arm_backstop_def intro!: calm_intro split: option.splits)

lemma calm_attempt [calm_intro]: "calm s (snd ((\<lambda>s. case gsM f g s of (r, s') \<Rightarrow> (Inr r, s')) s))"
  "calm s (snd (case gsM f g s of (r, s') \<Rightarrow> (Inr r, s')))"
  "calm s (snd (case convM r h s of (x, s') \<Rightarrow> (Inr x, s')))"
  using calm_convM(2) [of s f g] calm_convM(1) [of s r h] by (auto split: prod.splits)

lemma calm_stage [calm_intro]:
  "calm s (snd (stageAddSibling C cid en n target s))"
  "calm s (snd (stage_add_sealed C gen n cid en target commit welcome s))"
  "calm s (snd (stageRemoveSibling C cid en n key s))"
  "calm s (snd (stage_remove_sealed C gen n cid en commit s))"
  by (auto simp: stageAddSibling_def stage_add_sealed_def stageRemoveSibling_def stage_remove_sealed_def
      intro!: calm_intro split: sum.splits)

lemma calm_reconcileOne [calm_intro]: "calm s (snd (reconcileOne C cid own cands forced s))"
  by (auto simp: reconcileOne_def intro!: calm_intro split: option.splits list.splits)

lemma calm_reconcileRemovalOne [calm_intro]: "calm s (snd (reconcileRemovalOne C cid own revoked forced s))"
  by (auto simp: reconcileRemovalOne_def intro!: calm_intro split: option.splits list.splits)

lemma calm_reconcile [calm_intro]:
  "calm s (snd (failover_add_fires C cid own cands s))"
  "calm s (snd (reconcileSiblings C own cands s))"
  "calm s (snd (reconcileSelf C own cands s))"
  "calm s (snd (reconcileRemovals C own revoked s))"
  by (auto simp: failover_add_fires_def reconcileSiblings_def reconcileSelf_def reconcileRemovals_def
      intro!: calm_intro split: prod.splits)

lemma calm_membership [calm_intro]:
  "\<not> revoke_task k \<Longrightarrow> calm s (snd (onMembershipAdvanced C cid added removed k s))"
  "calm s (snd (addDevice C cid target s))"
  "calm s (snd (removeDevice C cid key s))"
  by (auto simp: onMembershipAdvanced_def addDevice_def removeDevice_def
      intro!: calm_intro split: option.splits prod.splits)

lemma calm_exclude [calm_intro]: "calm s (snd (excludeEverywhere C key s))"
  by (auto simp: excludeEverywhere_def intro!: calm_intro split: option.splits)

lemma calm_ingest_records [calm_intro]: "calm s (snd (ingest_records f r recs added s))"
  by (induction recs arbitrary: added s) (auto intro!: calm_intro)

lemma calm_mint [calm_intro]:
  "calm s (snd (mint_packages C r n s))"
  "calm s (snd (mint_last_resort C r s))"
  by (induction n arbitrary: s) (auto simp: mint_last_resort_def intro!: calm_intro)

lemma calm_credential [calm_intro]:
  "calm s (snd (recoverWithSeed C seed epoch s))"
  "calm s (snd (revokeDeviceKey C key seq s))"
  "calm s (snd (ingestRevocations C records s))"
  "calm s (snd (syncEpoch C epoch s))"
  "calm s (snd (freshKeyPackages C n s))"
  "calm s (snd (packages_sealed pkgs sealed s))"
  by (auto simp: recoverWithSeed_def revokeDeviceKey_def ingestRevocations_def syncEpoch_def freshKeyPackages_def
      packages_sealed_def Let_def intro!: calm_intro split: option.splits)


section \<open>The gateway side\<close>

lemma calm_wire_prov_fx [calm_intro]: "calm s (snd (wire_prov_fx C e s))"
  by (auto simp: wire_prov_fx_def onProvisioningEvent_def intro!: calm_intro split: prov_fx.splits prov_event.splits)

lemma calm_prov_call [calm_intro]: "calm s (snd (prov_call C f i p s))"
  by (auto simp: prov_call_def intro!: calm_intro split: prod.splits sum.splits option.splits if_splits)

lemma calm_provisioning [calm_intro]:
  "calm s (snd (ensureProvisioning s))"
  "calm s (snd (with_provisioning C h s))"
  "calm s (snd (openProvisioningWindow uh s))"
  "calm s (snd (joinDevice uh s))"
  by (auto simp: ensureProvisioning_def with_provisioning_def openProvisioningWindow_def joinDevice_def
      intro!: calm_intro split: option.splits)

lemma calm_pairing [calm_intro]:
  "calm s (snd (prov_mailbox_ready C w uh s))"
  "calm s (snd (confirmProvisioning C s))"
  "calm s (snd (closeProvisioning C s))"
  "calm s (snd (startQrPairing C s))"
  "calm s (snd (grantScannedDevice C qr s))"
  by (auto simp: prov_mailbox_ready_def confirmProvisioning_def closeProvisioning_def startQrPairing_def
      grantScannedDevice_def intro!: calm_intro)

lemma calm_qr_show_ready [calm_intro]: "calm s (snd (qr_show_ready C i p kp s))"
  unfolding qr_show_ready_def Let_def by (intro calm_intro) simp

lemma calm_waiter_done [calm_intro]: "\<not> revoke_fx e \<Longrightarrow> calm s (snd (waiter_done m e s))"
  by (auto simp: waiter_done_def intro!: calm_intro split: option.splits)

lemma calm_receipts [calm_intro]:
  "calm s (snd (fail_receipt e m s))"
  "calm s (snd (fail_all_receipts e s))"
  "calm s (snd (revokeMessage C cid m s))"
  by (auto simp: fail_receipt_def fail_all_receipts_def revokeMessage_def Let_def intro!: calm_intro split: option.splits)

lemma calm_persist_summary [calm_intro]: "calm s (snd (persist_summary C cid g s))"
  by (auto simp: persist_summary_def intro!: calm_intro)

lemma calm_startConversation [calm_intro]: "calm s (snd (startConversation C targets s))"
  by (auto simp: startConversation_def Let_def intro!: calm_intro split: prod.splits)

lemma calm_sending [calm_intro]:
  "calm s (snd (conversation_started C cid g s))"
  "calm s (snd (gc_sendMessage C cid txt l s))"
  by (auto simp: conversation_started_def gc_sendMessage_def Let_def intro!: calm_intro split: option.splits)

lemma calm_enqueue [calm_intro]: "calm s (snd (enqueueApply cid j s))"
proof -
  have start: "calm s (snd (whenA b (start_job j) s))" for s b
    by (auto simp: start_job_def whenA_def intro!: calm_intro split: apply_job.splits)
  have add: "calm t (snd (block [modA (\<lambda>s. s\<lparr>ch_jobs := ch_jobs s @ [(c, j)]\<rparr>), whenA b (start_job j)] t))"
    if "fifo t \<Longrightarrow> c < ch_next t" for t c b
    by (intro calm_block start) (simp add: modA_def calm_add_job that)
  show ?thesis
  proof (cases "jm_get (ch_chains s) cid")
    case None
    let ?t = "s\<lparr>ch_next := ch_next s + 1, ch_chains := jm_set cid (ch_next s) (ch_chains s)\<rparr>"
    have "snd (enqueueApply cid j s) = snd (block [modA (\<lambda>s. s\<lparr>ch_jobs := ch_jobs s @ [(c, j)]\<rparr>),
        whenA (c \<notin> fst ` set (ch_jobs s)) (start_job j)] ?t)" if "c = ch_next s" for c
      using None that by (simp add: enqueueApply_def freshA_def ret_def bindA_def modA_def del: block.simps)
    moreover have "calm ?t (snd (block [modA (\<lambda>s. s\<lparr>ch_jobs := ch_jobs s @ [(c, j)]\<rparr>), whenA b (start_job j)] ?t))"
      if "c = ch_next s" for c b
      by (rule add) (simp add: that)
    ultimately have "calm ?t (snd (enqueueApply cid j s))" by simp
    with calm_new_chain [OF None] show ?thesis by (rule calm.step_trans)
  next
    case (Some c)
    have "c < ch_next s" if "fifo s" using that jm_get_in_values [OF Some] by (auto simp: fifo_def image_subset_iff)
    then have "calm s (snd (block [modA (\<lambda>s. s\<lparr>ch_jobs := ch_jobs s @ [(c, j)]\<rparr>), whenA (c \<notin> fst ` set (ch_jobs s)) (start_job j)] s))"
      by (rule add)
    with Some show ?thesis by (simp add: enqueueApply_def ret_def bindA_def del: block.simps)
  qed
qed

lemma calm_jobs [calm_intro]:
  "calm s (snd (start_job j s))"
  "calm s (snd (job_outcome C j failed s))"
  "calm s (snd (job_settles C c failed s))"
  by (auto simp: start_job_def job_outcome_def job_settles_def
      intro!: calm_intro split: option.splits apply_job.splits)

lemma calm_adopt [calm_intro]:
  "calm s (snd (adopt_joined C n mid cid g s))"
  "calm s (snd (adopt_self_group C n mid g s))"
  "calm s (snd (blocked_answer C n mid cid g blocked s))"
  by (auto simp: adopt_joined_def adopt_self_group_def blocked_answer_def intro!: calm_intro split: option.splits bool.splits)

lemma calm_onWelcome [calm_intro]: "calm s (snd (onWelcome C env s))"
  unfolding onWelcome_def Let_def
  by (auto intro!: calm_intro calm_branches split: sum.splits option.splits)

lemma calm_dispatch_received [calm_intro]: "calm s (snd (dispatch_received C n mid cid received s))"
  by (auto simp: dispatch_received_def intro!: calm_intro split: group_received.splits incoming_frame.splits option.splits)

lemma calm_onGroupMessage [calm_intro]: "calm s (snd (onGroupMessage C env s))"
  by (auto simp: onGroupMessage_def Let_def intro!: calm_intro split: sum.splits option.splits)

lemma calm_onDeliver [calm_intro]: "calm s (snd (onDeliver C env s))"
  by (auto simp: onDeliver_def intro!: calm_intro split: option.splits)

lemma calm_handlers_onClose [calm_intro]: "calm s (snd (handlers_onClose gen s))"
  by (auto simp: handlers_onClose_def intro!: calm_intro)


lemma calm_handlers:
  "ch_connectGen s \<noteq> gen \<or> (\<forall>m. call \<noteq> OnReceipt m) \<Longrightarrow> calm s (snd (handlers C gen call s))"
  by (auto simp: handlers_def intro!: calm_intro split: handler_call.splits)

section \<open>Connecting\<close>

lemma calm_next_gen: "calm s (snd (modA (\<lambda>s. s\<lparr>ch_connectGen := ch_connectGen s + 1\<rparr>) s))"
  by (simp add: modA_def calm_def calm_tasks_def keyed_def fifo_def confirmed_def)

lemma calm_close_link [calm_intro]: "calm s (snd (close_link n s))"
  by (auto simp: close_link_def Let_def set_link_def intro!: calm_update split: prod.splits)

lemma calm_open_link [calm_intro]: "calm s (snd (open_link gen r s))"
  by (auto simp: open_link_def Let_def intro!: calm_update)

lemma calm_supersede [calm_intro]: "calm s (snd (supersede C url r s))"
  unfolding supersede_def
  by (rule calm_block, rule calm_next_gen) (auto intro!: calm_intro split: option.splits if_splits)

lemma calm_identity_ready [calm_intro]: "calm s (snd (identity_ready C url r restored s))"
  by (auto simp: identity_ready_def intro!: calm_intro)

lemma calm_seed_ready [calm_intro]: "calm s (snd (seed_ready C url restored seedHex s))"
  by (auto simp: seed_ready_def intro!: calm_intro split: option.splits sum.splits)

lemma calm_connectGateway [calm_intro]: "calm s (snd (connectGateway C url s))"
  by (auto simp: connectGateway_def intro!: calm_intro)

lemma calm_restore_group [calm_intro]: "calm s (snd (restore_group C n r closed_ids gid s))"
  by (auto simp: restore_group_def Let_def intro!: calm_intro split: option.splits)

lemma calm_restore_groups [calm_intro]: "calm s (snd (restore_groups C n r closed_ids gids reclosed s))"
  by (induction gids arbitrary: reclosed s) (auto intro!: calm_intro)

lemma calm_rearm_pending [calm_intro]: "calm s (snd (rearm_pending C n gen cid en s))"
  by (auto simp: rearm_pending_def Let_def intro!: calm_intro split: option.splits)

lemma calm_connect_restored [calm_intro]: "calm s (snd (connect_restored C r gen pend closed_ids s))"
  unfolding connect_restored_def
  by (auto intro!: calm_intro calm_clear split: prod.splits)

section \<open>Continuations, timers and calls\<close>

lemma calm_after_seal [calm_intro]: "\<not> revoke_task k \<Longrightarrow> calm s (snd (after_seal C k sealed s))"
  by (auto simp: after_seal_def intro!: calm_intro split: continuation.splits)

lemma calm_outbox_next [calm_intro]: "calm s (snd (outbox_next C t s))"
  by (auto simp: outbox_next_def intro!: calm_intro split: outbox_then.splits)

lemma calm_resume [calm_intro]: "\<not> revoke_task k \<Longrightarrow> calm s (snd (resume C k a s))"
  by (cases k) (auto simp: resume_def intro!: calm_intro split: answer.splits option.splits)

lemma calm_timer_fires [calm_intro]: "calm s (snd (timer_fires C cb s))"
  by (cases cb) (auto simp: timer_fires_def intro!: calm_intro)

lemma calm_chan_call [calm_intro]: "calm s (snd (chan_call C call s))"
  by (cases call) (auto simp: chan_call_def intro!: calm_intro)


section \<open>Runs\<close>

text \<open>The receipt of a publish that is being waited for, on the connection of the current generation.\<close>

definition live_receipt :: "'w chan \<Rightarrow> 'w chan_event \<Rightarrow> string \<Rightarrow> bool" where
  "live_receipt s ev m \<longleftrightarrow>
     (\<exists>n mid. ev = EvLink n (LinkFrame (Some (SReceipt mid))) \<and> bytesToHex mid = m \<and> n < length (ch_links s)
        \<and> lk_gen (ch_links s ! n) = ch_connectGen s \<and> jm_has (ch_receipts s) m)"

lemma calm_drop_task: "calm s (snd (modA (\<lambda>s. s\<lparr>ch_tasks := jm_delete i (ch_tasks s)\<rparr>) s))"
  by (auto simp: modA_def calm_def calm_tasks_def keyed_def fifo_def confirmed_def AList.delete_eq)

lemma calm_link_mod [calm_intro]: "calm s (snd (modA (set_link n l) s))"
  by (auto simp: set_link_def intro!: calm_intro)

lemma calm_link_step:
  assumes "\<And>mid. ev \<noteq> LinkFrame (Some (SReceipt mid))"
  shows "calm s (snd (link_step C n ev s))"
proof (cases ev)
  case (LinkFrame f)
  have "\<forall>m. snd (dispatch f t) \<noteq> OnReceipt m" for t
    using assms LinkFrame by (auto simp: dispatch_def split: option.splits server_frame.splits)
  then show ?thesis
    by (auto simp: link_step_def Let_def LinkFrame intro!: calm_intro calm_handlers split: prod.splits)
      (metis snd_conv)
qed (auto simp: link_step_def Let_def intro!: calm_intro split: prod.splits)

lemma receipt_step:
  "calm_tasks s \<longrightarrow> calm_tasks t" "keyed s \<longrightarrow> keyed t" "fifo s \<longrightarrow> fifo t" "ch_connectGen s = ch_connectGen t"
  "m \<in> confirmed t \<Longrightarrow> m \<notin> confirmed s \<Longrightarrow> live_receipt s (EvLink n (LinkFrame (Some (SReceipt mid)))) m"
  if "t = snd (link_step C n (LinkFrame (Some (SReceipt mid))) s)"
  using that
  by (auto simp: link_step_def Let_def dispatch_def handlers_def confirm_receipt_def waiter_done_def cancelA_def effectA_def
      set_link_def live_receipt_def calm_tasks_def keyed_def fifo_def confirmed_def jm_has_def act_simps
      split: option.splits if_splits)

lemma event_step:
  assumes "calm_tasks s"
  shows "calm_tasks (chan_step C s ev) \<and> (keyed s \<longrightarrow> keyed (chan_step C s ev)) \<and> (fifo s \<longrightarrow> fifo (chan_step C s ev))
       \<and> ch_connectGen s \<le> ch_connectGen (chan_step C s ev)
       \<and> (\<forall>m \<in> confirmed (chan_step C s ev) - confirmed s. live_receipt s ev m)"
proof -
  have "calm s (chan_step C s ev) \<or> (\<exists>n mid. ev = EvLink n (LinkFrame (Some (SReceipt mid))))"
  proof (cases ev)
    case (EvLink n e)
    then show ?thesis
      using calm_link_step [of e s C n] by (auto simp: chan_step_def final_def chan_event_def)
  next
    case (EvTask i a)
    have "\<not> revoke_task k" if "jm_get (ch_tasks s) i = Some k" for k
      using assms jm_get_in_values [OF that] by (auto simp: calm_tasks_def)
    then have "calm s (snd ((case jm_get (ch_tasks s) i of None \<Rightarrow> skip
         | Some k \<Rightarrow> block [modA (\<lambda>s. s\<lparr>ch_tasks := jm_delete i (ch_tasks s)\<rparr>), resume C k a]) s))"
      by (auto intro!: calm_intro calm_drop_task split: option.splits)
    then show ?thesis by (simp add: chan_step_def final_def chan_event_def EvTask split: option.splits)
  qed (auto simp: chan_step_def final_def chan_event_def intro!: calm_intro split: option.splits)
  then show ?thesis
  proof
    assume "calm s (chan_step C s ev)"
    with assms show ?thesis by (auto simp: calm_def)
  next
    assume "\<exists>n mid. ev = EvLink n (LinkFrame (Some (SReceipt mid)))"
    then obtain n mid where ev: "ev = EvLink n (LinkFrame (Some (SReceipt mid)))" by blast
    then have t: "chan_step C s ev = snd (link_step C n (LinkFrame (Some (SReceipt mid))) s)"
      by (simp add: chan_step_def final_def chan_event_def)
    show ?thesis using receipt_step [OF t] assms ev by auto
  qed
qed

lemma run_invariant:
  "calm_tasks (chan_run C evs new_channel) \<and> keyed (chan_run C evs new_channel) \<and> fifo (chan_run C evs new_channel)"
proof (induction evs rule: rev_induct)
  case Nil
  then show ?case by (simp add: chan_run_def new_channel_def calm_tasks_def keyed_def fifo_def)
next
  case (snoc ev evs)
  then show ?case using event_step [of "chan_run C evs new_channel" C ev] by (simp add: chan_run_def)
qed


text \<open>C6.
  A revoke is reported as removed only by the server's receipt: in every reachable state, an event that
  resolves a pending revoke is a receipt frame carrying exactly that message id, on a connection that is
  the current one, while a waiter for it is registered. A receipt of a superseded socket, a timer, a reconnect or any
  other call never reports success.
\<close>
theorem revoke_is_confirmed_only_by_a_live_receipt:
  assumes "s = chan_run C evs new_channel"
    and "FxResolve (RRevoked m) \<in> set (ch_fx (chan_step C s ev))" and "FxResolve (RRevoked m) \<notin> set (ch_fx s)"
  shows "\<exists>n mid. ev = EvLink n (LinkFrame (Some (SReceipt mid))) \<and> bytesToHex mid = m
       \<and> n < length (ch_links s) \<and> lk_gen (ch_links s ! n) = ch_connectGen s \<and> jm_has (ch_receipts s) m"
proof -
  have "calm_tasks s" using run_invariant assms(1) by blast
  then have "live_receipt s ev m" using event_step [of s C ev] assms(2,3) by (auto simp: confirmed_def)
  then show ?thesis by (simp only: live_receipt_def)
qed

theorem revoke_is_confirmed_only_by_a_live_receipt_witness:
  "\<exists>n mid. EvLink 0 (LinkFrame (Some (SReceipt [7]))) = (EvLink n (LinkFrame (Some (SReceipt mid))) :: nat chan_event)
     \<and> bytesToHex mid = ''07'' \<and> n < length (ch_links demo_revoking)
     \<and> lk_gen (ch_links demo_revoking ! n) = ch_connectGen demo_revoking \<and> jm_has (ch_receipts demo_revoking) ''07''"
proof (rule revoke_is_confirmed_only_by_a_live_receipt [OF demo_revokes [symmetric]])
  show "FxResolve (RRevoked ''07'')
      \<in> set (ch_fx (chan_step demo_channel demo_revoking (EvLink 0 (LinkFrame (Some (SReceipt [7]))))))"
    by (simp add: channel_eval link_step_def dispatch_def handlers_def confirm_receipt_def waiter_done_def act_simps
        demo_id demo_revoking_def demo_live_def)
  show "FxResolve (RRevoked ''07'') \<notin> set (ch_fx demo_revoking)"
    by (simp add: demo_revoking_def demo_live_def)
qed

lemma convId_eq [simp]: "convId a = convId b \<longleftrightarrow> a = b"
  by (simp add: convId_def)

lemma keyed_distinct:
  assumes "keyed s"
  shows "distinct (map gs_groupId (session_list s))"
proof -
  have "map convId (map gs_groupId (session_list s)) = map fst (ch_sessions s)"
    using assms by (auto simp: keyed_def keyed_entry_def session_list_def list_all_iff)
  moreover have "distinct (map fst (ch_sessions s))" using assms by (simp add: keyed_def jm_wf_def)
  ultimately show ?thesis by (metis distinct_map)
qed

text \<open>C9.
  In every reachable state the open conversations are keyed by the id of their own group and no group is
  held twice, so a frame decrypted in a group reaches the session of that group and no other, and the
  generation of the connection never goes back.
\<close>
theorem conversations_are_keyed_by_their_group:
  "distinct (map gs_groupId (session_list (chan_run C evs new_channel)))
   \<and> list_all (\<lambda>(cid, en). cid = convId (gs_groupId (en_session en))) (ch_sessions (chan_run C evs new_channel))
   \<and> ch_connectGen (chan_run C evs new_channel) \<le> ch_connectGen (chan_step C (chan_run C evs new_channel) ev)"
proof -
  let ?s = "chan_run C evs new_channel"
  have inv: "calm_tasks ?s" "keyed ?s" using run_invariant by blast+
  have "list_all (\<lambda>(cid, en). cid = convId (gs_groupId (en_session en))) (ch_sessions ?s)"
    using inv(2) by (auto simp: keyed_def keyed_entry_def list_all_iff split_beta)
  with keyed_distinct [OF inv(2)] event_step [OF inv(1)] show ?thesis by blast
qed

end
