(* ===== verification/ChannelMembers.thy ===== *)
theory ChannelMembers
  imports ChannelSafety
begin

text \<open>
  What the self-heal may do to a group, when a staged commit is published, and when an inbound message is
  acknowledged.
\<close>

section \<open>Staging\<close>

abbreviation heap_at :: "'w chan \<Rightarrow> gsession \<Rightarrow> 'w" where
  "heap_at s g \<equiv> ch_heap s ! gs_conv g"

text \<open>Publishes and acknowledgements, in order.\<close>

fun is_publish :: "effect \<Rightarrow> bool" where
  "is_publish (FxPublish n env) = True"
| "is_publish _ = False"

fun is_ack :: "effect \<Rightarrow> bool" where
  "is_ack (FxAck n mid) = True"
| "is_ack _ = False"

definition publishes :: "'w chan \<Rightarrow> effect list" where
  "publishes s = filter is_publish (ch_fx s)"

definition acks :: "'w chan \<Rightarrow> effect list" where
  "acks s = filter is_ack (ch_fx s)"

lemma resealSelf_frame:
  "ch_heap (snd (resealSelf C k s)) = ch_heap s"
  "publishes (snd (resealSelf C k s)) = publishes s"
  "acks (snd (resealSelf C k s)) = acks s"
  "ch_sessions (snd (resealSelf C k s)) = ch_sessions s"
  by (simp_all add: resealSelf_def awaitA_def freshA_def effectA_def act_simps publishes_def acks_def split: option.split)

lemma resealSelf_ok: "fst (resealSelf C k s) = Inr ()"
  by (simp add: resealSelf_def awaitA_def freshA_def effectA_def act_simps split: option.split)

lemma pushA_frame:
  "ch_heap (snd (pushA e s)) = ch_heap s" "publishes (snd (pushA e s)) = publishes s" "fst (pushA e s) = Inr ()"
  by (simp_all add: pushA_def effectA_def act_simps publishes_def)

lemma publishes_heap: "publishes (s\<lparr>ch_heap := h\<rparr>) = publishes s"
  by (simp add: publishes_def)

lemmas frame_simps = resealSelf_frame resealSelf_ok pushA_frame publishes_heap

lemma stageAddSibling_heap:
  "ch_heap (snd (stageAddSibling C cid en n target s))
     = (ch_heap s)[gs_conv (en_session en) :=
          snd (gs_stageAddDevice (ce_ops C) (gs_groupId (en_session en)) (dt_keyPackage target) (heap_at s (en_session en)))]"
  "publishes (snd (stageAddSibling C cid en n target s)) = publishes s"
  "fst (stageAddSibling C cid en n target s) = Inr ()"
  by (cases "gs_stageAddDevice (ce_ops C) (gs_groupId (en_session en)) (dt_keyPackage target) (heap_at s (en_session en))";
      auto simp: stageAddSibling_def act_simps gsM_def convM_def frame_simps split: sum.split)+

lemma stageRemoveSibling_heap:
  "ch_heap (snd (stageRemoveSibling C cid en n key s))
     = (ch_heap s)[gs_conv (en_session en) :=
          snd (gs_stageRemoveDevice (ce_ops C) (gs_groupId (en_session en)) key (heap_at s (en_session en)))]"
  "publishes (snd (stageRemoveSibling C cid en n key s)) = publishes s"
  "fst (stageRemoveSibling C cid en n key s) = Inr ()"
  by (cases "gs_stageRemoveDevice (ce_ops C) (gs_groupId (en_session en)) key (heap_at s (en_session en))";
      auto simp: stageRemoveSibling_def act_simps gsM_def convM_def frame_simps split: sum.split)+

lemma first_of_filter: "filter P xs = x # ys \<Longrightarrow> x \<in> set xs \<and> P x"
  by (metis filter_eq_ConsD in_set_conv_decomp)


lemma missing_targetsD:
  "missing_targets self own members cands = target # ts \<Longrightarrow>
     target \<in> set cands \<and> dt_deviceKey target \<in> set own \<and> dt_deviceKey target \<notin> set members \<and> dt_deviceKey target \<noteq> self"
  unfolding missing_targets_def by (drule first_of_filter) blast

lemma removal_targetsD:
  "removal_targets self members revoked = key # ks \<Longrightarrow> key \<in> set members \<and> key \<in> set revoked \<and> key \<noteq> self"
  unfolding removal_targets_def by (drule first_of_filter) simp

text \<open>Staging handles its own failures, so the \<open>catch\<close> around it has nothing to do.\<close>

lemma stage_caught:
  "(case stageAddSibling C cid en n target s of (Inl e, t) \<Rightarrow> h e t | (Inr x, t) \<Rightarrow> (Inr x, t))
     = stageAddSibling C cid en n target s"
  "(case stageRemoveSibling C cid en n key s of (Inl e, t) \<Rightarrow> h e t | (Inr x, t) \<Rightarrow> (Inr x, t))
     = stageRemoveSibling C cid en n key s"
  using stageAddSibling_heap(3) [of C cid en n target s] stageRemoveSibling_heap(3) [of C cid en n key s]
  by (auto split: prod.splits sum.splits)

text \<open>The conditions under which a device stages the admission of \<open>target\<close>, or the removal of \<open>key\<close>.\<close>

definition may_admit ::
  "'w chan_env \<Rightarrow> 'w chan \<Rightarrow> string \<Rightarrow> string list \<Rightarrow> device_target list \<Rightarrow> bool \<Rightarrow> session_entry \<Rightarrow> device_target \<Rightarrow> bool" where
  "may_admit C s cid own cands forced en target \<longleftrightarrow>
     jm_get (ch_sessions s) cid = Some en \<and> ch_transport s \<noteq> None \<and> \<not> jm_has (ch_pendingOps s) cid
     \<and> target \<in> set cands \<and> dt_deviceKey target \<in> set own \<and> dt_deviceKey target \<noteq> ch_bootstrapKey s
     \<and> (\<exists>members. gs_roster (ce_ops C) (gs_groupId (en_session en)) (heap_at s (en_session en)) = Inr members
           \<and> dt_deviceKey target \<notin> set members
           \<and> (forced \<or> isDesignatedAdder (ch_bootstrapKey s) own members))"

definition may_exclude ::
  "'w chan_env \<Rightarrow> 'w chan \<Rightarrow> string \<Rightarrow> string list \<Rightarrow> string list \<Rightarrow> bool \<Rightarrow> session_entry \<Rightarrow> string \<Rightarrow> bool" where
  "may_exclude C s cid own revoked forced en key \<longleftrightarrow>
     jm_get (ch_sessions s) cid = Some en \<and> ch_transport s \<noteq> None \<and> \<not> jm_has (ch_pendingOps s) cid
     \<and> key \<in> set revoked \<and> key \<noteq> ch_bootstrapKey s
     \<and> (\<exists>members. gs_roster (ce_ops C) (gs_groupId (en_session en)) (heap_at s (en_session en)) = Inr members
           \<and> key \<in> set members
           \<and> (forced \<or> isDesignatedAdder (ch_bootstrapKey s) own members))"

lemma reconcileOne_cases:
  "(ch_heap (snd (reconcileOne C cid own cands forced s)) = ch_heap s
      \<and> publishes (snd (reconcileOne C cid own cands forced s)) = publishes s)
   \<or> (\<exists>en n target. may_admit C s cid own cands forced en target
        \<and> reconcileOne C cid own cands forced s = stageAddSibling C cid en n target (s\<lparr>ch_knownOwnKeys := own\<rparr>))"
proof (cases "\<exists>en n. jm_get (ch_sessions s) cid = Some en \<and> ch_transport s = Some n \<and> \<not> jm_has (ch_pendingOps s) cid")
  case True
  then obtain en n where live: "jm_get (ch_sessions s) cid = Some en" "ch_transport s = Some n"
    "\<not> jm_has (ch_pendingOps s) cid" by blast
  show ?thesis
  proof (cases "gs_roster (ce_ops C) (gs_groupId (en_session en)) (heap_at s (en_session en))")
    case (Inr members)
    show ?thesis
    proof (cases "missing_targets (ch_bootstrapKey s) own members cands")
      case (Cons target ts)
      show ?thesis
      proof (cases "forced \<or> isDesignatedAdder (ch_bootstrapKey s) own members")
        case True
        then have "may_admit C s cid own cands forced en target"
          using live Inr missing_targetsD [OF Cons] by (simp add: may_admit_def)
        moreover have "reconcileOne C cid own cands forced s = stageAddSibling C cid en n target (s\<lparr>ch_knownOwnKeys := own\<rparr>)"
          using live Inr Cons True by (auto simp: reconcileOne_def act_simps gsQ_def convQ_def stage_caught)
        ultimately show ?thesis by blast
      qed (use live Inr Cons in \<open>simp add: reconcileOne_def act_simps gsQ_def convQ_def freshA_def scheduleA_def publishes_def\<close>)
    qed (use live Inr in \<open>simp add: reconcileOne_def act_simps gsQ_def convQ_def publishes_def\<close>)
  qed (use live in \<open>simp add: reconcileOne_def act_simps gsQ_def convQ_def publishes_def\<close>)
qed (auto simp: reconcileOne_def act_simps publishes_def split: option.split)

lemma reconcileRemovalOne_cases:
  "(ch_heap (snd (reconcileRemovalOne C cid own revoked forced s)) = ch_heap s
      \<and> publishes (snd (reconcileRemovalOne C cid own revoked forced s)) = publishes s)
   \<or> (\<exists>en n key. may_exclude C s cid own revoked forced en key
        \<and> reconcileRemovalOne C cid own revoked forced s = stageRemoveSibling C cid en n key s)"
proof (cases "\<exists>en n. jm_get (ch_sessions s) cid = Some en \<and> ch_transport s = Some n \<and> \<not> jm_has (ch_pendingOps s) cid")
  case True
  then obtain en n where live: "jm_get (ch_sessions s) cid = Some en" "ch_transport s = Some n"
    "\<not> jm_has (ch_pendingOps s) cid" by blast
  show ?thesis
  proof (cases "gs_roster (ce_ops C) (gs_groupId (en_session en)) (heap_at s (en_session en))")
    case (Inr members)
    show ?thesis
    proof (cases "removal_targets (ch_bootstrapKey s) members revoked")
      case (Cons key ks)
      show ?thesis
      proof (cases "forced \<or> isDesignatedAdder (ch_bootstrapKey s) own members")
        case True
        then have "may_exclude C s cid own revoked forced en key"
          using live Inr removal_targetsD [OF Cons] by (simp add: may_exclude_def)
        moreover have "reconcileRemovalOne C cid own revoked forced s = stageRemoveSibling C cid en n key s"
          using live Inr Cons True by (auto simp: reconcileRemovalOne_def act_simps gsQ_def convQ_def stage_caught)
        ultimately show ?thesis by blast
      qed (use live Inr Cons in \<open>simp add: reconcileRemovalOne_def act_simps gsQ_def convQ_def freshA_def scheduleA_def publishes_def\<close>)
    qed (use live Inr in \<open>simp add: reconcileRemovalOne_def act_simps gsQ_def convQ_def publishes_def\<close>)
  qed (use live in \<open>simp add: reconcileRemovalOne_def act_simps gsQ_def convQ_def publishes_def\<close>)
qed (auto simp: reconcileRemovalOne_def act_simps publishes_def split: option.split)


lemma reconcileOne_effect:
  assumes t_def: "t = snd (reconcileOne C cid own cands forced s)"
  shows "publishes t = publishes s \<and> (ch_heap t = ch_heap s
     \<or> (\<exists>en target. may_admit C s cid own cands forced en target
          \<and> ch_heap t = (ch_heap s)[gs_conv (en_session en) :=
               snd (gs_stageAddDevice (ce_ops C) (gs_groupId (en_session en)) (dt_keyPackage target) (heap_at s (en_session en)))]))"
  using reconcileOne_cases [of C cid own cands forced s]
proof (elim disjE exE conjE)
  fix en n target
  assume ok: "may_admit C s cid own cands forced en target"
    and t: "reconcileOne C cid own cands forced s = stageAddSibling C cid en n target (s\<lparr>ch_knownOwnKeys := own\<rparr>)"
  have "publishes t = publishes s" by (simp add: t_def t stageAddSibling_heap) (simp add: publishes_def)
  moreover have "ch_heap t = (ch_heap s)[gs_conv (en_session en) :=
      snd (gs_stageAddDevice (ce_ops C) (gs_groupId (en_session en)) (dt_keyPackage target) (heap_at s (en_session en)))]"
    by (simp add: t_def t stageAddSibling_heap)
  ultimately show ?thesis using ok by blast
qed (simp add: t_def)

lemma reconcileRemovalOne_effect:
  assumes t_def: "t = snd (reconcileRemovalOne C cid own revoked forced s)"
  shows "publishes t = publishes s \<and> (ch_heap t = ch_heap s
     \<or> (\<exists>en key. may_exclude C s cid own revoked forced en key
          \<and> ch_heap t = (ch_heap s)[gs_conv (en_session en) :=
               snd (gs_stageRemoveDevice (ce_ops C) (gs_groupId (en_session en)) key (heap_at s (en_session en)))]))"
  using reconcileRemovalOne_cases [of C cid own revoked forced s]
proof (elim disjE exE conjE)
  fix en n key
  assume ok: "may_exclude C s cid own revoked forced en key"
    and t: "reconcileRemovalOne C cid own revoked forced s = stageRemoveSibling C cid en n key s"
  have "publishes t = publishes s" by (simp add: t_def t stageRemoveSibling_heap)
  moreover have "ch_heap t = (ch_heap s)[gs_conv (en_session en) :=
      snd (gs_stageRemoveDevice (ce_ops C) (gs_groupId (en_session en)) key (heap_at s (en_session en)))]"
    by (simp add: t_def t stageRemoveSibling_heap)
  ultimately show ?thesis using ok by blast
qed (simp add: t_def)

text \<open>C7.
  The self-heal does nothing to a group but stage one commit, and publishes nothing before that commit is
  sealed: reconciling a conversation either leaves every conversation object alone or stages the admission
  of a candidate that is one of the account's own devices, is missing from the group and is not this
  device, with no operation in flight and this device designated (or its fallback timer fired). Removing is
  the same for a member on the account's denylist.
\<close>
theorem self_heal_touches_only_what_it_may:
  "(let t = snd (reconcileOne C cid own cands forced s) in
      publishes t = publishes s
      \<and> (ch_heap t = ch_heap s
         \<or> (\<exists>en target. may_admit C s cid own cands forced en target
              \<and> ch_heap t = (ch_heap s)[gs_conv (en_session en) :=
                   snd (gs_stageAddDevice (ce_ops C) (gs_groupId (en_session en)) (dt_keyPackage target)
                         (heap_at s (en_session en)))])))
   \<and> (let t = snd (reconcileRemovalOne C cid own revoked forced s) in
      publishes t = publishes s
      \<and> (ch_heap t = ch_heap s
         \<or> (\<exists>en key. may_exclude C s cid own revoked forced en key
              \<and> ch_heap t = (ch_heap s)[gs_conv (en_session en) :=
                   snd (gs_stageRemoveDevice (ce_ops C) (gs_groupId (en_session en)) key
                         (heap_at s (en_session en)))])))"
  unfolding Let_def by (rule conjI [OF reconcileOne_effect [OF refl] reconcileRemovalOne_effect [OF refl]])

section \<open>Publishing a staged commit\<close>

lemma publishOn_result:
  "fst (publishOn C n env s) = Inr ()"
  "publishes (snd (publishOn C n env s)) = publishes s @ [FxPublish n env]"
  "ch_next (snd (publishOn C n env s)) = ch_next s"
  "ch_heap (snd (publishOn C n env s)) = ch_heap s"
  by (simp_all add: publishOn_def effectA_def act_simps Let_def set_link_def publishes_def split: prod.splits)

lemma publishNew_result:
  "fst (publishNew C n key payload ttl s) = Inr ()"
  "publishes (snd (publishNew C n key payload ttl s)) = publishes s @
     [FxPublish n \<lparr>ev_messageId = ce_random C (ch_next s), ev_routingKey = key, ev_payload = payload, ev_ttlSeconds = ttl\<rparr>]"
  "ch_next (snd (publishNew C n key payload ttl s)) = ch_next s + 1"
  using publishOn_result [of C n _ "s\<lparr>ch_next := ch_next s + 1\<rparr>"]
  by (simp_all add: publishNew_def randomA_def freshA_def act_simps publishes_def)


lemma arm_backstop_publishes:
  "publishes (snd (arm_backstop ms gen cid kind target g s)) = publishes s"
  "fst (arm_backstop ms gen cid kind target g s) = Inr ()"
  by (simp_all add: arm_backstop_def scheduleA_def freshA_def act_simps publishes_def)

lemma bind_ok: "fst (m s) = Inr x \<Longrightarrow> bindA m f s = f x (snd (m s))"
  by (cases "m s") (simp add: act_simps)

lemma bind_fails: "fst (m s) = Inl e \<Longrightarrow> bindA m f s = (Inl e, snd (m s))"
  by (cases "m s") (simp add: act_simps)

lemma confirm_timer_effect:
  "publishes (snd (confirm_timer_fires C gen cid kind g s)) = publishes s
   \<and> (ch_heap (snd (confirm_timer_fires C gen cid kind g s)) = ch_heap s
      \<or> ch_heap (snd (confirm_timer_fires C gen cid kind g s)) = (ch_heap s)[gs_conv g :=
           snd ((if kind = PendingAdd then gs_abortAdd else gs_abortRemove) (ce_ops C) (gs_groupId g) (heap_at s g))])"
proof (cases "ch_connectGen s \<noteq> gen \<or> \<not> jm_has (ch_pendingOps s) cid")
  case False
  let ?k = "gs_pendingKind (ce_ops C) (gs_groupId g) (heap_at s g)"
  obtain r w where abort: "(if kind = PendingAdd then gs_abortAdd else gs_abortRemove) (ce_ops C) (gs_groupId g) (heap_at s g) = (r, w)"
    by fastforce
  then have aborts: "gsM (if kind = PendingAdd then gs_abortAdd (ce_ops C) else gs_abortRemove (ce_ops C)) g t
      = (r, t\<lparr>ch_heap := (ch_heap t)[gs_conv g := w]\<rparr>)" if "ch_heap t = ch_heap s" for t
    using that by (simp add: gsM_def convM_def split: if_splits)
  show ?thesis
  proof (cases ?k)
    case (Inr k)
    with False abort show ?thesis
      by (cases k; cases r) (simp_all add: confirm_timer_fires_def act_simps aborts gsQ_def convQ_def pushA_def effectA_def publishes_def)
  qed (use False in \<open>simp add: confirm_timer_fires_def act_simps gsQ_def convQ_def publishes_def\<close>)
qed (auto simp: confirm_timer_fires_def act_simps)

text \<open>C8.
  A staged commit goes out only once it is sealed, on the connection it was staged for, and only while it
  is still the pending one: then the commit is published on the group's mailbox and, for an admission, the
  Welcome to the new device right behind it; otherwise nothing is published. The backstop timer publishes
  nothing and at most aborts the operation: it never merges a commit that was not seen.
\<close>
theorem staged_commit_is_published_sealed_and_current:
  "(let w = heap_at s (en_session en); gid = gs_groupId (en_session en);
        current = (ch_connectGen s = gen \<and> gs_pendingCommit (ce_ops C) gid w = Inr commit);
        to = (\<lambda>i key payload. FxPublish n \<lparr>ev_messageId = ce_random C i, ev_routingKey = key, ev_payload = payload,
                                          ev_ttlSeconds = SEVEN_DAYS\<rparr>) in
      publishes (snd (stage_add_sealed C gen n cid en target commit welcome s)) = publishes s @
        (if current then [to (ch_next s) (en_mailbox en) commit, to (ch_next s + 1) (dt_deviceKey target) welcome] else [])
      \<and> publishes (snd (stage_remove_sealed C gen n cid en commit s)) = publishes s @
        (if current then [to (ch_next s) (en_mailbox en) commit] else []))
   \<and> publishes (snd (confirm_timer_fires C gen cid kind g s)) = publishes s
   \<and> ch_heap (snd (confirm_timer_fires C gen cid kind g s)) \<in>
       {ch_heap s, (ch_heap s)[gs_conv g :=
          snd ((if kind = PendingAdd then gs_abortAdd else gs_abortRemove) (ce_ops C) (gs_groupId g) (heap_at s g))]}"
proof -
  let ?p = "gs_pendingCommit (ce_ops C) (gs_groupId (en_session en)) (heap_at s (en_session en))"
  have add: "publishes (snd (stage_add_sealed C gen n cid en target commit welcome s)) = publishes s @
      (if ch_connectGen s = gen \<and> ?p = Inr commit
       then [FxPublish n \<lparr>ev_messageId = ce_random C (ch_next s), ev_routingKey = en_mailbox en, ev_payload = commit, ev_ttlSeconds = SEVEN_DAYS\<rparr>,
             FxPublish n \<lparr>ev_messageId = ce_random C (ch_next s + 1), ev_routingKey = dt_deviceKey target, ev_payload = welcome, ev_ttlSeconds = SEVEN_DAYS\<rparr>]
       else [])"
    by (cases ?p) (auto simp: stage_add_sealed_def bytesEqual_eq gsQ_def convQ_def skip_def ret_def bind_ok bind_fails publishNew_result
        arm_backstop_publishes)
  have remove: "publishes (snd (stage_remove_sealed C gen n cid en commit s)) = publishes s @
      (if ch_connectGen s = gen \<and> ?p = Inr commit
       then [FxPublish n \<lparr>ev_messageId = ce_random C (ch_next s), ev_routingKey = en_mailbox en, ev_payload = commit, ev_ttlSeconds = SEVEN_DAYS\<rparr>]
       else [])"
    by (cases ?p) (auto simp: stage_remove_sealed_def bytesEqual_eq gsQ_def convQ_def skip_def ret_def bind_ok bind_fails publishNew_result
        arm_backstop_publishes)
  from add remove confirm_timer_effect [of C gen cid kind g s] show ?thesis by (simp add: Let_def)
qed


section \<open>Acknowledging an inbound message\<close>

lemma retireWelcomes_frame:
  "fst (retireWelcomes C cid s) = Inr ()"
  "acks (snd (retireWelcomes C cid s)) = acks s"
  "ch_jobs (snd (retireWelcomes C cid s)) = ch_jobs s"
  by (simp_all add: retireWelcomes_def save_outbox_def effectA_def act_simps acks_def Let_def)

lemma start_job_frame:
  "fst (start_job j s) = Inr ()" "acks (snd (start_job j s)) = acks s"
  "ch_jobs (snd (start_job j s)) = ch_jobs s" "ch_chains (snd (start_job j s)) = ch_chains s"
  "start_job (ApplyMessage n mid meta p) s = (Inr (), s\<lparr>ch_fx := ch_fx s @ [FxPersistMessage meta p]\<rparr>)"
  by (simp_all add: start_job_def effectA_def act_simps acks_def split: apply_job.split)

lemma enqueue_message:
  assumes "j = ApplyMessage n mid meta p"
  shows "fst (enqueueApply cid j s) = Inr () \<and> acks (snd (enqueueApply cid j s)) = acks s
     \<and> (\<exists>c. jm_get (ch_chains (snd (enqueueApply cid j s))) cid = Some c
          \<and> ch_jobs (snd (enqueueApply cid j s)) = ch_jobs s @ [(c, j)]
          \<and> (c \<notin> fst ` set (ch_jobs s) \<longrightarrow> FxPersistMessage meta p \<in> set (ch_fx (snd (enqueueApply cid j s)))))"
  unfolding assms
  by (auto simp: enqueueApply_def freshA_def act_simps whenA_def start_job_frame acks_def jsmap_simps split: option.split)

lemma maybeAwayReply_frame:
  "acks (snd (maybeAwayReply C cid s)) = acks s"
  "ch_jobs (snd (maybeAwayReply C cid s)) = ch_jobs s"
  "ch_chains (snd (maybeAwayReply C cid s)) = ch_chains s"
  "ch_fx (snd (maybeAwayReply C cid s)) = ch_fx s"
  by (auto simp: maybeAwayReply_def peerLabel_def gsQ_def convQ_def awaitA_def freshA_def act_simps acks_def
      split: option.split sum.split)

lemma scheduleRatchetFlush_frame:
  "acks (snd (scheduleRatchetFlush cid s)) = acks s"
  "ch_jobs (snd (scheduleRatchetFlush cid s)) = ch_jobs s"
  by (auto simp: scheduleRatchetFlush_def scheduleA_def freshA_def act_simps acks_def split: option.split)

lemma ackOn_frame:
  "acks (snd (ackOn C n mid s)) = acks s @ [FxAck n mid]" "ch_jobs (snd (ackOn C n mid s)) = ch_jobs s"
  by (auto simp: ackOn_def effectA_def socketA_def set_link_def Let_def act_simps acks_def split: sum.split)

lemma push_acks: "acks (snd (pushA e s)) = acks s" "ch_jobs (snd (pushA e s)) = ch_jobs s"
  by (simp_all add: pushA_def effectA_def act_simps acks_def)

lemma bind_snd: "snd (bindA m f s) = (case fst (m s) of Inl e \<Rightarrow> snd (m s) | Inr x \<Rightarrow> snd (f x (snd (m s))))"
  by (cases "m s") (simp add: bindA_def split: sum.split)

lemma catch_snd: "snd (catchA m h s) = (case fst (m s) of Inl e \<Rightarrow> snd (h e (snd (m s))) | Inr x \<Rightarrow> snd (m s))"
  by (cases "m s") (simp add: catchA_def split: sum.split)

lemma job_outcome_acks:
  "acks (snd (job_outcome C (ApplyMessage n mid meta p) None s)) = acks s @ [FxAck n mid]"
  "acks (snd (job_outcome C j (Some e) s)) = acks s"
  by (auto simp: job_outcome_def catch_snd bind_snd ackOn_frame push_acks scheduleRatchetFlush_frame throw_def skip_def ret_def
      split: sum.split)

lemma settle_acks:
  assumes "find (\<lambda>cj. fst cj = c) (ch_jobs u) = Some (c, j)"
  shows "acks (snd (job_settles C c failed u))
       = acks (snd (job_outcome C j failed (u\<lparr>ch_jobs := remove1 (c, j) (ch_jobs u)\<rparr>)))"
  using assms
  by (auto simp: job_settles_def bind_snd modA_def start_job_frame skip_def ret_def split: sum.split option.split)

lemma acks_jobs: "acks (u\<lparr>ch_jobs := js\<rparr>) = acks u" "acks (u\<lparr>ch_heap := h\<rparr>) = acks u"
  by (simp_all add: acks_def)

text \<open>C5.
  An inbound message is acknowledged only after it is stored: receiving one for an open conversation
  acknowledges nothing and puts its storage behind the earlier ones of that conversation, starting it at once
  when none is running; the server's copy is acknowledged, on the transport it came from and under its own id,
  exactly when the storage succeeds, and stays for redelivery when it fails.
\<close>
theorem inbound_message_is_acknowledged_after_storage:
  assumes "ch_conv s = Some r" and "ch_transport s = Some n" and "jm_has (ch_sessions s) (convId gid)"
    and "receiveGroup (ce_ops C) (ev_payload env) (ch_heap s ! r) = (Inr (gid, GMessage (Message p life) own), w)"
    and "j = ApplyMessage n (ev_messageId env)
               \<lparr>mm_messageId = bytesToHex (ev_messageId env), mm_conversationId = convId gid, mm_inbound = True,
                mm_lifetime = life, mm_ownAuthored = own\<rparr> p"
  shows "(\<exists>c. jm_get (ch_chains (snd (onGroupMessage C env s))) (convId gid) = Some c
            \<and> ch_jobs (snd (onGroupMessage C env s)) = ch_jobs s @ [(c, j)]
            \<and> (c \<notin> fst ` set (ch_jobs s) \<longrightarrow>
                 FxPersistMessage \<lparr>mm_messageId = bytesToHex (ev_messageId env), mm_conversationId = convId gid,
                   mm_inbound = True, mm_lifetime = life, mm_ownAuthored = own\<rparr> p
                   \<in> set (ch_fx (snd (onGroupMessage C env s)))))
       \<and> acks (snd (onGroupMessage C env s)) = acks s
       \<and> (\<forall>u c e. find (\<lambda>cj. fst cj = c) (ch_jobs u) = Some (c, j) \<longrightarrow>
            acks (snd (job_settles C c None u)) = acks u @ [FxAck n (ev_messageId env)]
            \<and> acks (snd (job_settles C c (Some e) u)) = acks u)"
proof -
  let ?s1 = "s\<lparr>ch_heap := (ch_heap s)[r := w]\<rparr>"
  let ?s2 = "snd (retireWelcomes C (convId gid) ?s1)"
  have group: "snd (onGroupMessage C env s)
      = snd (maybeAwayReply C (convId gid) (snd (enqueueApply (convId gid) j ?s2)))"
    using assms enqueue_message [OF assms(5), of "convId gid" ?s2]
    by (auto simp: onGroupMessage_def bind_snd convM_def Let_def retireWelcomes_frame dispatch_received_def skip_def ret_def
        split: sum.split)
  have "acks ?s2 = acks s" "ch_jobs ?s2 = ch_jobs s" by (simp_all add: retireWelcomes_frame acks_jobs)
  with enqueue_message [OF assms(5), of "convId gid" ?s2] show ?thesis
    unfolding group maybeAwayReply_frame
    by (auto simp: settle_acks job_outcome_acks acks_jobs assms(5))
qed


text \<open>The concrete channel receives a burn-on-read message.\<close>

definition demo_inbound :: envelope_msg where
  "demo_inbound = \<lparr>ev_messageId = [5], ev_routingKey = ''aa'',
     ev_payload = rev (padToBucket (frameMessage [72] BurnOnRead)), ev_ttlSeconds = 604800\<rparr>"

lemma demo_receives:
  "receiveGroup demo_channel_ops (ev_payload demo_inbound) w = (Inr (''aa'', GMessage (Message [72] BurnOnRead) True), Suc w)"
proof -
  have "receiveGroup demo_channel_ops (ev_payload demo_inbound) w
      = (Inr (bytesToHex [170], GMessage (Message [72] BurnOnRead) True), Suc w)"
    by (rule receive_framed)
      (auto simp: demo_channel_ops_def demo_gops_def demo_inbound_def sendable_def frameMessage_def length_padToBucket
        padded_size_def PAD_BUCKETS_def)
  moreover have "bytesToHex [170] = ''aa''"
    by (simp add: bytesToHex_def hex_byte_def hex_digits_def)
  ultimately show ?thesis by simp
qed

theorem inbound_message_is_acknowledged_after_storage_witness:
  "acks (snd (onGroupMessage demo_channel demo_inbound demo_live)) = acks demo_live \<and> jm_has (ch_sessions demo_live) (convId ''aa'')"
proof -
  have open_group: "jm_has (ch_sessions demo_live) (convId ''aa'')" by (simp add: demo_live_def jm_has_def)
  have "receiveGroup (ce_ops demo_channel) (ev_payload demo_inbound) (ch_heap demo_live ! 0)
      = (Inr (''aa'', GMessage (Message [72] BurnOnRead) True), 1)"
    using demo_receives [of 0] by (simp add: demo_channel_def demo_live_def)
  from inbound_message_is_acknowledged_after_storage [OF _ _ open_group this refl, of 0]
  have "acks (snd (onGroupMessage demo_channel demo_inbound demo_live)) = acks demo_live"
    by (simp add: demo_live_def)
  then show ?thesis using open_group by (rule conjI)
qed


section \<open>The apply chains\<close>

text \<open>
  The specification: one first-in first-out queue of storage jobs per chain, whose head is running.
\<close>

type_synonym apply_queues = "nat \<Rightarrow> apply_job list"

definition q_enqueue :: "nat \<Rightarrow> apply_job \<Rightarrow> apply_queues \<Rightarrow> apply_queues" where
  "q_enqueue c j q = q(c := q c @ [j])"

definition q_dequeue :: "nat \<Rightarrow> apply_queues \<Rightarrow> apply_queues" where
  "q_dequeue c q = q(c := tl (q c))"

text \<open>The abstraction, and the storage operations started, in order.\<close>

definition queues :: "'w chan \<Rightarrow> apply_queues" where
  "queues s = (\<lambda>c. map snd (filter (\<lambda>cj. fst cj = c) (ch_jobs s)))"

fun is_start :: "effect \<Rightarrow> bool" where
  "is_start (FxPersistMessage meta p) = True"
| "is_start (FxRevokeStored cid target own) = True"
| "is_start _ = False"

definition starts :: "'w chan \<Rightarrow> effect list" where
  "starts s = filter is_start (ch_fx s)"

definition job_effect :: "apply_job \<Rightarrow> effect" where
  "job_effect j = (case j of
     ApplyMessage _ _ meta plaintext \<Rightarrow> FxPersistMessage meta plaintext
   | ApplyRevoke _ _ cid target own \<Rightarrow> FxRevokeStored cid target own)"

definition chain_of :: "string \<Rightarrow> 'w chan \<Rightarrow> nat" where
  "chain_of cid s = (case jm_get (ch_chains s) cid of Some c \<Rightarrow> c | None \<Rightarrow> ch_next s)"

lemma start_job_effect: "start_job j s = (Inr (), s\<lparr>ch_fx := ch_fx s @ [job_effect j]\<rparr>)"
  by (simp add: start_job_def job_effect_def effectA_def act_simps)

lemma is_start_job [simp]: "is_start (job_effect j)"
  by (simp add: job_effect_def split: apply_job.split)

lemma queue_empty: "queues s c = [] \<longleftrightarrow> c \<notin> fst ` set (ch_jobs s)"
  by (auto simp: queues_def filter_empty_conv)

lemma enqueue_refines:
  "queues (snd (enqueueApply cid j s)) = q_enqueue (chain_of cid s) j (queues s)
   \<and> starts (snd (enqueueApply cid j s)) = starts s @ (if queues s (chain_of cid s) = [] then [job_effect j] else [])"
  unfolding queue_empty
  by (auto simp: enqueueApply_def chain_of_def freshA_def act_simps whenA_def start_job_effect queues_def starts_def
      q_enqueue_def fun_eq_iff split: option.split)

lemma queues_frame: "ch_jobs t = ch_jobs s \<Longrightarrow> queues t = queues s"
  by (simp add: queues_def)

lemma find_head: "find (\<lambda>cj. fst cj = c) js = (case map snd (filter (\<lambda>cj. fst cj = c) js) of [] \<Rightarrow> None | j # _ \<Rightarrow> Some (c, j))"
  by (induction js) auto

lemma remove1_head:
  "map snd (filter (\<lambda>cj. fst cj = c) js) = j # rest \<Longrightarrow>
   map snd (filter (\<lambda>cj. fst cj = d) (remove1 (c, j) js)) = (if d = c then rest else map snd (filter (\<lambda>cj. fst cj = d) js))"
  by (induction js) (auto split: if_splits)

lemma outcome_frame:
  "ch_jobs (snd (job_outcome C j failed s)) = ch_jobs s"
  "ch_chains (snd (job_outcome C j failed s)) = ch_chains s"
  "starts (snd (job_outcome C j failed s)) = starts s"
  by (auto simp: job_outcome_def catch_snd bind_snd ackOn_def pushA_def effectA_def socketA_def set_link_def Let_def
      scheduleRatchetFlush_def scheduleA_def freshA_def act_simps starts_def split: sum.split option.split apply_job.split)

lemma settle_refines:
  "queues (snd (job_settles C c failed s)) = q_dequeue c (queues s)
   \<and> starts (snd (job_settles C c failed s)) = starts s @ (case queues s c of _ # next # _ \<Rightarrow> [job_effect next] | _ \<Rightarrow> [])
   \<and> ch_chains (snd (job_settles C c failed s)) = ch_chains s"
proof (cases "queues s c")
  case Nil
  then have "find (\<lambda>cj. fst cj = c) (ch_jobs s) = None" by (simp add: find_head queues_def)
  then have "snd (job_settles C c failed s) = s" by (simp add: job_settles_def act_simps)
  with Nil show ?thesis by (simp add: q_dequeue_def fun_upd_idem)
next
  case (Cons k rest)
  let ?s1 = "s\<lparr>ch_jobs := remove1 (c, k) (ch_jobs s)\<rparr>"
  let ?s2 = "snd (job_outcome C k failed ?s1)"
  have found: "find (\<lambda>cj. fst cj = c) (ch_jobs s) = Some (c, k)" using Cons by (simp add: find_head queues_def)
  have q1: "queues ?s1 = q_dequeue c (queues s)"
    using remove1_head [of c "ch_jobs s" k rest] Cons by (simp add: queues_def q_dequeue_def fun_eq_iff)
  have "queues ?s2 = q_dequeue c (queues s)"
    unfolding q1 [symmetric] by (rule queues_frame) (simp add: outcome_frame)
  moreover have "starts ?s2 = starts s" by (simp add: outcome_frame) (simp add: starts_def)
  moreover have "ch_chains ?s2 = ch_chains s" by (simp add: outcome_frame)
  moreover have "snd (job_settles C c failed s) =
      (case queues ?s2 c of [] \<Rightarrow> ?s2 | n # _ \<Rightarrow> ?s2\<lparr>ch_fx := ch_fx ?s2 @ [job_effect n]\<rparr>)"
    if "fst (job_outcome C k failed ?s1) = Inr ()"
    using found that
    by (simp add: job_settles_def bind_snd modA_def skip_def ret_def find_head start_job_effect queues_def split: list.split)
  moreover have "fst (job_outcome C k failed ?s1) = Inr ()"
    by (auto simp: job_outcome_def catchA_def pushA_def effectA_def modA_def split: prod.split sum.split)
  ultimately show ?thesis
    using Cons by (auto simp: q_dequeue_def starts_def queues_def split: list.split)
qed

text \<open>
  The queue of a conversation is that of its chain. A conversation that is left loses its chain; what was
  queued on it still runs.
\<close>

definition conv_queues :: "'w chan \<Rightarrow> string \<Rightarrow> apply_job list" where
  "conv_queues s = (\<lambda>cid. case jm_get (ch_chains s) cid of None \<Rightarrow> [] | Some c \<Rightarrow> queues s c)"

lemma unused_chain: "fifo s \<Longrightarrow> queues s (ch_next s) = []"
  by (auto simp: fifo_def queue_empty)

lemma chains_apart: "fifo s \<Longrightarrow> jm_get (ch_chains s) d = Some c \<Longrightarrow> jm_get (ch_chains s) e = Some c \<Longrightarrow> d = e"
  by (auto simp: fifo_def distinct_map dest!: map_of_SomeD dest: inj_onD [of snd _ "(d, c)" "(e, c)"])

lemma chain_used: "fifo s \<Longrightarrow> jm_get (ch_chains s) d = Some c \<Longrightarrow> c \<noteq> ch_next s"
  by (auto simp: fifo_def image_subset_iff dest!: map_of_SomeD)

lemma enqueue_chains:
  "ch_chains (snd (enqueueApply cid j s)) = (if jm_has (ch_chains s) cid then ch_chains s else jm_set cid (ch_next s) (ch_chains s))"
  by (auto simp: enqueueApply_def freshA_def act_simps whenA_def start_job_effect jm_has_def split: option.split)

lemma enqueue_conv_queues:
  assumes "fifo s"
  shows "conv_queues (snd (enqueueApply cid j s)) = (conv_queues s)(cid := conv_queues s cid @ [j])"
    "queues s (chain_of cid s) = conv_queues s cid"
  using enqueue_refines [of cid j s] unused_chain [OF assms] chains_apart [OF assms, of _ _ cid] chain_used [OF assms]
  by (auto simp: conv_queues_def enqueue_chains chain_of_def q_enqueue_def jm_has_def jsmap_simps fun_eq_iff split: option.split)

text \<open>C10.
  The promise chains that store inbound messages refine one first-in first-out queue per conversation. In
  every reachable state, handing a message over appends it to the queue of its conversation, leaves those of
  the others alone, and starts it at once only when that queue was empty; a job that settles, with or without
  an error, is taken off the head of its own queue and starts exactly the next one of that queue.
\<close>
theorem apply_chains_refine_fifo_queues:
  "let s = chan_run C evs new_channel in
     conv_queues (snd (enqueueApply cid j s)) = (conv_queues s)(cid := conv_queues s cid @ [j])
   \<and> starts (snd (enqueueApply cid j s)) = starts s @ (if conv_queues s cid = [] then [job_effect j] else [])
   \<and> conv_queues (snd (job_settles C c failed s)) =
       (\<lambda>d. if jm_get (ch_chains s) d = Some c then tl (conv_queues s d) else conv_queues s d)
   \<and> queues (snd (job_settles C c failed s)) = q_dequeue c (queues s)
   \<and> starts (snd (job_settles C c failed s)) = starts s @
       (case queues s c of _ # next # _ \<Rightarrow> [job_effect next] | _ \<Rightarrow> [])"
proof -
  define s where "s = chan_run C evs new_channel"
  have f: "fifo s" using run_invariant unfolding s_def by blast
  note settle = settle_refines [of C c failed s]
  have "conv_queues (snd (job_settles C c failed s)) =
       (\<lambda>d. if jm_get (ch_chains s) d = Some c then tl (conv_queues s d) else conv_queues s d)"
    using settle by (auto simp: conv_queues_def q_dequeue_def fun_eq_iff split: option.split)
  with enqueue_conv_queues(1) [OF f, of cid j] enqueue_conv_queues(2) [OF f, of cid] enqueue_refines [of cid j s] settle
  show ?thesis unfolding s_def [symmetric] Let_def by simp
qed

section \<open>A lost Welcome\<close>

text \<open>
  The stored outbox replaces the one in memory when it arrives. An entry remembered while the load is under
  way (the flag is set before the load) is gone afterwards, and will not be replayed.
\<close>
lemma welcome_remembered_during_load_is_lost:
  assumes "ce_has C HasWelcomeOutbox" and "ch_outboxLoaded s"
    and "u = snd (rememberWelcome C cid key welcome k s)"
  shows "(\<exists>e \<in> set (ch_welcomeOutbox u). pw_conversationId e = cid \<and> pw_deviceKey e = key)
       \<and> ch_welcomeOutbox (snd (outbox_arrived (Some es) u)) = es"
  using assms by (simp add: rememberWelcome_def remember_loaded_def save_outbox_def effectA_def awaitA_def freshA_def
      outbox_arrived_def act_simps)

end
