(* ===== verification/JsText.thy ===== *)
theory JsText
  imports Auth "HOL-Library.Multiset" "HOL-Library.List_Lexorder" "HOL-Library.Char_ord"
begin

text \<open>
  JavaScript built-ins that the application controller reads text and plain objects with: the UTF-16
  view of a string (\<open>length\<close>, \<open>slice\<close>, the relational operators), and objects used as string-keyed
  records, with the members every object inherits and the order in which \<open>Object.entries\<close> lists own
  properties.
\<close>

section \<open>UTF-16 code units\<close>

text \<open>
  A string is given by its UTF-8 bytes. Its code units are read off them; an unpaired surrogate, which
  \<open>slice\<close> can leave behind, is carried as the three bytes its code point would have.
\<close>

definition tail_bits :: "string \<Rightarrow> nat \<Rightarrow> nat" where
  "tail_bits s i = (case Prelude.at s i of Some c \<Rightarrow> of_char c mod 64 | None \<Rightarrow> 0)"

definition code_point_units :: "nat \<Rightarrow> nat list" where
  "code_point_units n =
     (if n < 65536 then [n] else [55296 + (n - 65536) div 1024, 56320 + (n - 65536) mod 1024])"

fun utf16_units :: "string \<Rightarrow> nat list" where
  "utf16_units [] = []"
| "utf16_units (c # cs) =
     (let n = (of_char c :: nat) in
      if n < 128 then n # utf16_units cs
      else if n < 224 then ((n mod 32) * 64 + tail_bits cs 0) # utf16_units (drop 1 cs)
      else if n < 240 then
        (((n mod 16) * 64 + tail_bits cs 0) * 64 + tail_bits cs 1) # utf16_units (drop 2 cs)
      else
        code_point_units ((((n mod 8) * 64 + tail_bits cs 0) * 64 + tail_bits cs 1) * 64 + tail_bits cs 2)
          @ utf16_units (drop 3 cs))"

definition utf8_char :: "nat \<Rightarrow> string" where
  "utf8_char n = map char_of
     (if n < 128 then [n]
      else if n < 2048 then [192 + n div 64, 128 + n mod 64]
      else if n < 65536 then [224 + n div 4096, 128 + n div 64 mod 64, 128 + n mod 64]
      else [240 + n div 262144, 128 + n div 4096 mod 64, 128 + n div 64 mod 64, 128 + n mod 64])"

definition is_high :: "nat \<Rightarrow> bool" where "is_high u \<longleftrightarrow> 55296 \<le> u \<and> u < 56320"

definition is_low :: "nat \<Rightarrow> bool" where "is_low u \<longleftrightarrow> 56320 \<le> u \<and> u < 57344"

fun of_units :: "nat list \<Rightarrow> string" where
  "of_units [] = []"
| "of_units [u] = utf8_char u"
| "of_units (u # v # us) =
     (if is_high u \<and> is_low v then utf8_char (65536 + (u - 55296) * 1024 + (v - 56320)) @ of_units us
      else utf8_char u @ of_units (v # us))"

definition js_length :: "string \<Rightarrow> nat" where
  "js_length s = length (utf16_units s)"

text \<open>\<open>s.slice(0, n)\<close>\<close>

definition js_take :: "nat \<Rightarrow> string \<Rightarrow> string" where
  "js_take n s = of_units (take n (utf16_units s))"

text \<open>\<open>s > t\<close>: lexicographic on code units.\<close>

definition js_greater :: "string \<Rightarrow> string \<Rightarrow> bool" where
  "js_greater s t \<longleftrightarrow> utf16_units t < utf16_units s"

lemma char_ascii: "(of_char c :: nat) < 128 \<Longrightarrow> utf8_char (of_char c) = [c]"
  by (simp add: utf8_char_def)

lemma utf16_units_ascii: "is_ascii s \<Longrightarrow> utf16_units s = map of_char s"
  by (induction s) (simp_all add: is_ascii_def)

lemma of_units_ascii: "is_ascii s \<Longrightarrow> of_units (map of_char s) = s"
proof (induction s)
  case Nil
  then show ?case by simp
next
  case (Cons c cs)
  then have c: "\<not> is_high (of_char c)" "utf8_char (of_char c) = [c]" and "of_units (map of_char cs) = cs"
    by (simp_all add: is_ascii_def is_high_def char_ascii)
  then show ?case by (cases cs) simp_all
qed

lemma js_take_ascii: "is_ascii s \<Longrightarrow> js_take n s = take n s"
  by (simp add: js_take_def utf16_units_ascii take_map [symmetric])
    (metis append_take_drop_id is_ascii_def list_all_append of_units_ascii take_map)

lemma utf16_units_ascii_inject:
  "is_ascii s \<Longrightarrow> is_ascii t \<Longrightarrow> utf16_units s = utf16_units t \<longleftrightarrow> s = t"
  by (simp add: utf16_units_ascii inj_map_eq_map [OF inj_of_char])

text \<open>A text that begins and ends with a printing ASCII character is not changed by \<open>trim\<close>.\<close>

lemma strip_prefixes_other:
  "(\<And>w. w \<in> set ws \<Longrightarrow> w \<noteq> [] \<Longrightarrow> hd w \<noteq> c) \<Longrightarrow> strip_prefixes ws (c # cs) = c # cs"
proof -
  assume a: "\<And>w. w \<in> set ws \<Longrightarrow> w \<noteq> [] \<Longrightarrow> hd w \<noteq> c"
  have "\<not> (w \<noteq> [] \<and> starts_with (c # cs) w)" if "w \<in> set ws" for w
    using a [OF that] by (cases w) (auto simp: starts_with_def)
  then have "find (\<lambda>w. w \<noteq> [] \<and> starts_with (c # cs) w) ws = None" by (simp add: find_None_iff)
  then show ?thesis by (simp add: strip_prefixes.simps [of ws "c # cs"])
qed

definition visible :: "char \<Rightarrow> bool" where
  "visible c \<longleftrightarrow> 33 \<le> (of_char c :: nat) \<and> (of_char c :: nat) < 127"

lemma ws_chars_ends:
  "w \<in> set ws_chars \<Longrightarrow> visible c \<Longrightarrow> hd w \<noteq> c" "w \<in> set ws_chars \<Longrightarrow> visible c \<Longrightarrow> hd (rev w) \<noteq> c"
  by (auto simp: ws_chars_def visible_def)

lemma js_trim_visible:
  assumes "s \<noteq> []" and v: "visible (hd s)" "visible (last s)"
  shows "js_trim s = s"
proof -
  obtain c cs where Cons: "s = c # cs" using assms(1) by (cases s) auto
  have "strip_prefixes ws_chars s = s"
    using v(1) unfolding Cons by (intro strip_prefixes_other) (auto dest: ws_chars_ends)
  moreover obtain d ds where r: "rev s = d # ds" using Cons by (cases "rev s") auto
  then have "visible d" using v(2) by (metis last.simps last_rev list.sel(1) hd_rev rev_rev_ident)
  then have "strip_prefixes (map rev ws_chars) (rev s) = rev s"
    unfolding r by (intro strip_prefixes_other) (auto dest: ws_chars_ends)
  ultimately show ?thesis by (simp add: js_trim_def)
qed

section \<open>Plain objects as records\<close>

text \<open>
  \<open>{}\<close> inherits from \<open>Object.prototype\<close>, so a read of one of these names on a record that does not own
  it finds a member that has none of the fields the entries have. A write to \<open>__proto__\<close> changes the
  prototype and makes no own property.
\<close>

definition inherited_names :: "string list" where
  "inherited_names =
     [''constructor'', ''__defineGetter__'', ''__defineSetter__'', ''hasOwnProperty'', ''__lookupGetter__'',
      ''__lookupSetter__'', ''isPrototypeOf'', ''propertyIsEnumerable'', ''toString'', ''valueOf'',
      ''__proto__'', ''toLocaleString'']"

datatype 'v slot = Undef | Inherited | Own 'v

definition obj_at :: "(string, 'v) jsmap \<Rightarrow> string \<Rightarrow> 'v slot" where
  "obj_at m k =
     (case jm_get m k of
        Some v \<Rightarrow> Own v
      | None \<Rightarrow> if k \<in> set inherited_names then Inherited else Undef)"

definition obj_set :: "string \<Rightarrow> 'v \<Rightarrow> (string, 'v) jsmap \<Rightarrow> (string, 'v) jsmap" where
  "obj_set k v m = (if k = ''__proto__'' then m else jm_set k v m)"

text \<open>Own properties are listed with the array indices first, in ascending order.\<close>

definition is_digit :: "char \<Rightarrow> bool" where
  "is_digit c \<longleftrightarrow> 48 \<le> (of_char c :: nat) \<and> (of_char c :: nat) \<le> 57"

definition digits_value :: "string \<Rightarrow> nat" where
  "digits_value s = foldl (\<lambda>n c. n * 10 + (of_char c - 48)) 0 s"

definition is_array_index :: "string \<Rightarrow> bool" where
  "is_array_index s \<longleftrightarrow>
     s \<noteq> [] \<and> list_all is_digit s \<and> (length s = 1 \<or> hd s \<noteq> CHR ''0'') \<and> digits_value s < 2 ^ 32 - 1"

definition obj_entries :: "(string, 'v) jsmap \<Rightarrow> (string \<times> 'v) list" where
  "obj_entries m =
     sort_key (\<lambda>e. digits_value (fst e)) (filter (\<lambda>e. is_array_index (fst e)) m)
     @ filter (\<lambda>e. \<not> is_array_index (fst e)) m"

definition obj_keys :: "(string, 'v) jsmap \<Rightarrow> string list" where
  "obj_keys m = map fst (obj_entries m)"

text \<open>\<open>Object.entries\<close> of a parsed object: the last value of a repeated property, at its first place.\<close>

definition parsed_entries :: "(string \<times> json) list \<Rightarrow> (string \<times> json) list" where
  "parsed_entries ps = obj_entries (fold (\<lambda>(k, v) m. jm_set k v m) ps [])"

lemma mset_obj_entries: "mset (obj_entries m) = mset m"
  by (simp add: obj_entries_def)

lemma set_obj_entries [simp]: "set (obj_entries m) = set m"
  by (rule mset_eq_setD) (rule mset_obj_entries)

lemma jm_wf_obj_entries [simp]: "jm_wf (obj_entries m) \<longleftrightarrow> jm_wf m"
proof -
  have "mset (map fst (obj_entries m)) = mset (map fst m)" by (simp add: mset_obj_entries)
  then show ?thesis unfolding jm_wf_def by (rule mset_eq_imp_distinct_iff)
qed

lemma jm_get_obj_entries [simp]:
  assumes "jm_wf m" shows "jm_get (obj_entries m) k = jm_get m k"
proof -
  have "distinct (map fst m)" "distinct (map fst (obj_entries m))"
    using assms jm_wf_obj_entries [of m] by (simp_all add: jm_wf_def)
  then have "jm_get (obj_entries m) k = Some v \<longleftrightarrow> jm_get m k = Some v" for v
    by simp
  then show ?thesis by (cases "jm_get m k"; cases "jm_get (obj_entries m) k") auto
qed

lemma jm_wf_obj_set [simp]: "jm_wf m \<Longrightarrow> jm_wf (obj_set k v m)"
  by (simp add: obj_set_def)

lemma jm_get_obj_set:
  "jm_get (obj_set k v m) k' = (if k = k' \<and> k \<noteq> ''__proto__'' then Some v else jm_get m k')"
  by (simp add: obj_set_def jsmap_simps)

lemma jm_wf_parsed: "jm_wf (fold (\<lambda>(k, v) m. jm_set k v m) ps m)" if "jm_wf m"
  using that by (induction ps arbitrary: m) auto

lemma jm_wf_parsed_entries [simp]: "jm_wf (parsed_entries ps)"
  by (simp add: parsed_entries_def jm_wf_parsed)

end
