(* ===== verification/Buddies.thy ===== *)
theory Buddies
  imports JsText "HOL-Library.Product_Lexorder" "HOL-Library.Option_ord"
begin

text \<open>
  The buddy list and the buddy-group list of \<open>controller.ts\<close>: their entries, the coercion of stored and
  received blobs, the JSON they are sealed and published as, and the per-entry last-writer-wins merge
  that a device runs on each list frame of a sibling. The merge is the same loop over two kinds of
  entries; its laws are proved once in the locale \<open>lww_register\<close> and used for both.
\<close>

section \<open>Entries\<close>

record buddy_entry =
  be_addedAt :: rat
  be_v :: rat
  be_removed :: bool
  be_group :: string
  be_vk :: "string option"

record group_entry =
  ge_v :: rat
  ge_removed :: bool
  ge_order :: rat
  ge_n :: "string option"

type_synonym buddy_map = "(string, buddy_entry) jsmap"
type_synonym group_map = "(string, group_entry) jsmap"

definition DEFAULT_GROUP :: string where "DEFAULT_GROUP = ''Buddies''"

definition NUL :: char where "NUL = char_of (0 :: nat)"

definition RK_DEFAULT :: string where "RK_DEFAULT = [NUL, CHR ''d'']"

definition RK_BLOCKED :: string where "RK_BLOCKED = [NUL, CHR ''b'']"

definition BLOCKED_LABEL_FALLBACK :: string where "BLOCKED_LABEL_FALLBACK = ''Blocked''"

definition GROUP_NAME_MAX :: nat where "GROUP_NAME_MAX = 32"

definition GROUP_MAP_MAX_ENTRIES :: nat where "GROUP_MAP_MAX_ENTRIES = 512"

definition CRDT_MAX_FUTURE_MS :: int where "CRDT_MAX_FUTURE_MS = 24 * 60 * 60 * 1000"

definition is_control :: "char \<Rightarrow> bool" where
  "is_control c \<longleftrightarrow> (of_char c :: nat) \<le> 31 \<or> (of_char c :: nat) = 127"

definition sanitizeGroupName :: "string \<Rightarrow> string" where
  "sanitizeGroupName raw = js_trim (js_take GROUP_NAME_MAX (js_trim (filter (\<lambda>c. \<not> is_control c) raw)))"

text \<open>\<open>/^[0-9a-f]{64}$/\<close>\<close>

definition is_account_key :: "string \<Rightarrow> bool" where
  "is_account_key s \<longleftrightarrow> length s = 64 \<and> list_all is_lower_hex s"

section \<open>Coercion of stored and received blobs\<close>

definition number_or :: "rat \<Rightarrow> json option \<Rightarrow> rat" where
  "number_or d v = (case as_number v of Some n \<Rightarrow> n | None \<Rightarrow> d)"

definition is_JNull :: "json \<Rightarrow> bool" where
  "is_JNull v = (case v of JNull \<Rightarrow> True | _ \<Rightarrow> False)"

text \<open>One element of the legacy \<open>Buddy[]\<close> shape; reading a property of \<open>null\<close> throws.\<close>

definition legacy_buddy :: "json \<Rightarrow> buddy_map \<Rightarrow> buddy_map result" where
  "legacy_buddy b out =
     (if is_JNull b then Inl TypeError
      else Inr (case as_string (json_prop b ''username'') of
          Some u \<Rightarrow>
            if u \<noteq> [] then
              obj_set u \<lparr>be_addedAt = number_or 0 (json_prop b ''addedAt''), be_v = 0, be_removed = False,
                         be_group = DEFAULT_GROUP, be_vk = None\<rparr> out
            else out
        | None \<Rightarrow> out))"

fun legacy_buddies :: "json list \<Rightarrow> buddy_map \<Rightarrow> buddy_map result" where
  "legacy_buddies [] out = Inr out"
| "legacy_buddies (b # bs) out =
     (case legacy_buddy b out of Inl e \<Rightarrow> Inl e | Inr out' \<Rightarrow> legacy_buddies bs out')"

definition coerce_vk :: "json option \<Rightarrow> string option" where
  "coerce_vk v = (case as_string v of Some s \<Rightarrow> if is_account_key s then Some s else None | None \<Rightarrow> None)"

definition coerce_buddy :: "json \<Rightarrow> buddy_entry" where
  "coerce_buddy e =
     \<lparr>be_addedAt = number_or 0 (json_prop e ''addedAt''), be_v = number_or 0 (json_prop e ''v''),
      be_removed = is_true (json_prop e ''removed''),
      be_group = (case as_string (json_prop e ''group'') of
          Some g \<Rightarrow> if js_trim g \<noteq> [] then g else DEFAULT_GROUP
        | None \<Rightarrow> DEFAULT_GROUP),
      be_vk = coerce_vk (json_prop e ''vk'')\<rparr>"

definition buddy_of_entry :: "string \<times> json \<Rightarrow> buddy_map \<Rightarrow> buddy_map" where
  "buddy_of_entry ue out =
     (if fst ue = [] \<or> \<not> is_object (snd ue) then out else obj_set (fst ue) (coerce_buddy (snd ue)) out)"

definition normalizeBuddyMap :: "json option \<Rightarrow> buddy_map result" where
  "normalizeBuddyMap raw =
     (case raw of
        Some (JArr bs) \<Rightarrow> legacy_buddies bs []
      | Some (JObj ps) \<Rightarrow> Inr (fold buddy_of_entry (parsed_entries ps) [])
      | _ \<Rightarrow> Inr [])"

definition reserved_name :: "string \<Rightarrow> bool" where
  "reserved_name k \<longleftrightarrow> k = RK_DEFAULT \<or> k = RK_BLOCKED"

definition coerce_group :: "bool \<Rightarrow> json \<Rightarrow> group_entry" where
  "coerce_group reserved e =
     (let alias = (case as_string (json_prop e ''n'') of
          Some n \<Rightarrow> if reserved then sanitizeGroupName n else [] | None \<Rightarrow> [])
      in \<lparr>ge_v = number_or 0 (json_prop e ''v''), ge_removed = is_true (json_prop e ''removed''),
          ge_order = number_or 0 (json_prop e ''order''), ge_n = (if alias \<noteq> [] then Some alias else None)\<rparr>)"

text \<open>The loop keeps at most \<open>GROUP_MAP_MAX_ENTRIES\<close> entries; \<open>kept\<close> counts them.\<close>

fun group_entries :: "(string \<times> json) list \<Rightarrow> nat \<Rightarrow> group_map \<Rightarrow> group_map" where
  "group_entries [] kept out = out"
| "group_entries ((name, e) # es) kept out =
     (if name = [] \<or> \<not> is_object e \<or> GROUP_MAP_MAX_ENTRIES \<le> kept then group_entries es kept out
      else if \<not> reserved_name name \<and> sanitizeGroupName name \<noteq> name then group_entries es kept out
      else group_entries es (kept + 1) (obj_set name (coerce_group (reserved_name name) e) out))"

definition normalizeGroupMap :: "json option \<Rightarrow> group_map" where
  "normalizeGroupMap raw =
     (case raw of Some (JObj ps) \<Rightarrow> group_entries (parsed_entries ps) 0 [] | _ \<Rightarrow> [])"

section \<open>The sealed and published form\<close>

definition buddy_json :: "buddy_entry \<Rightarrow> json" where
  "buddy_json e = JObj
     ([(''addedAt'', JNum (be_addedAt e)), (''v'', JNum (be_v e)), (''removed'', JBool (be_removed e)),
       (''group'', JStr (be_group e))]
      @ (case be_vk e of Some k \<Rightarrow> [(''vk'', JStr k)] | None \<Rightarrow> []))"

definition group_json :: "group_entry \<Rightarrow> json" where
  "group_json e = JObj
     ([(''v'', JNum (ge_v e)), (''removed'', JBool (ge_removed e)), (''order'', JNum (ge_order e))]
      @ (case ge_n e of Some n \<Rightarrow> [(''n'', JStr n)] | None \<Rightarrow> []))"

definition record_json :: "('v \<Rightarrow> json) \<Rightarrow> (string, 'v) jsmap \<Rightarrow> json" where
  "record_json f m = JObj (map (\<lambda>(k, v). (k, f v)) (obj_entries m))"

section \<open>The merge of a sibling's list\<close>

text \<open>
  The loop of \<open>adoptBuddies\<close> and \<open>adoptGroups\<close>: an entry that is not admitted (its version is too far
  ahead of the clock) is passed over, an entry for an unknown name is taken, and otherwise \<open>newer\<close> decides.
  A name that is only inherited compares as not newer, because every comparison with \<open>undefined\<close> fails.
\<close>

definition lww_one :: "('e \<Rightarrow> bool) \<Rightarrow> ('e \<Rightarrow> 'e \<Rightarrow> bool) \<Rightarrow> string \<times> 'e \<Rightarrow>
    bool \<times> (string, 'e) jsmap \<Rightarrow> bool \<times> (string, 'e) jsmap" where
  "lww_one admit newer ke s =
     (let (changed, local) = s; (k, e) = ke in
      if \<not> admit e then s
      else if (case obj_at local k of Undef \<Rightarrow> True | Inherited \<Rightarrow> False | Own cur \<Rightarrow> newer e cur)
        then (True, obj_set k e local) else s)"

definition lww_adopt :: "('e \<Rightarrow> bool) \<Rightarrow> ('e \<Rightarrow> 'e \<Rightarrow> bool) \<Rightarrow> (string, 'e) jsmap \<Rightarrow>
    (string, 'e) jsmap \<Rightarrow> bool \<times> (string, 'e) jsmap" where
  "lww_adopt admit newer incoming local = fold (lww_one admit newer) (obj_entries incoming) (False, local)"

definition or_empty :: "string option \<Rightarrow> string" where
  "or_empty v = (case v of Some s \<Rightarrow> s | None \<Rightarrow> [])"

definition buddy_newer :: "buddy_entry \<Rightarrow> buddy_entry \<Rightarrow> bool" where
  "buddy_newer inEnt cur =
     (let newer = (be_v cur < be_v inEnt \<or> (be_v inEnt = be_v cur \<and> be_removed inEnt \<and> \<not> be_removed cur)) in
      if \<not> newer \<and> be_v inEnt = be_v cur \<and> be_removed inEnt = be_removed cur
      then js_greater (or_empty (be_vk inEnt)) (or_empty (be_vk cur)) else newer)"

definition group_newer :: "group_entry \<Rightarrow> group_entry \<Rightarrow> bool" where
  "group_newer inEnt cur \<longleftrightarrow>
     ge_v cur < ge_v inEnt \<or> (ge_v inEnt = ge_v cur \<and> ge_removed inEnt \<and> \<not> ge_removed cur)
     \<or> (ge_v inEnt = ge_v cur \<and> ge_removed inEnt = ge_removed cur
        \<and> (case (ge_n inEnt, ge_n cur) of (Some a, Some b) \<Rightarrow> js_greater a b | _ \<Rightarrow> False))"

definition within_skew :: "int \<Rightarrow> rat \<Rightarrow> bool" where
  "within_skew now v \<longleftrightarrow> v \<le> of_int (now + CRDT_MAX_FUTURE_MS)"

definition merge_buddies :: "int \<Rightarrow> buddy_map \<Rightarrow> buddy_map \<Rightarrow> bool \<times> buddy_map" where
  "merge_buddies now = lww_adopt (\<lambda>e. within_skew now (be_v e)) buddy_newer"

definition merge_groups :: "int \<Rightarrow> group_map \<Rightarrow> group_map \<Rightarrow> bool \<times> group_map" where
  "merge_groups now = lww_adopt (\<lambda>e. within_skew now (ge_v e)) group_newer"

section \<open>Listings\<close>

definition present_buddies :: "buddy_map \<Rightarrow> (string \<times> rat \<times> string) list" where
  "present_buddies m =
     map (\<lambda>(u, e). (u, be_addedAt e, be_group e)) (filter (\<lambda>(u, e). \<not> be_removed e) (obj_entries m))"

definition label_or :: "string \<Rightarrow> group_map \<Rightarrow> string \<Rightarrow> string" where
  "label_or fallback m k =
     (case obj_at m k of
        Own e \<Rightarrow> (case ge_n e of Some n \<Rightarrow> if n \<noteq> [] then n else fallback | None \<Rightarrow> fallback)
      | _ \<Rightarrow> fallback)"

definition groupLabels :: "group_map \<Rightarrow> string \<times> string" where
  "groupLabels m = (label_or DEFAULT_GROUP m RK_DEFAULT, label_or BLOCKED_LABEL_FALLBACK m RK_BLOCKED)"

datatype group_role = DefaultRole | BlockedRole

definition present_customs :: "group_map \<Rightarrow> (string \<times> group_entry) list" where
  "present_customs m = filter (\<lambda>(name, e). \<not> ge_removed e \<and> NUL \<notin> set name) (obj_entries m)"

text \<open>
  \<open>sort\<close> is stable and takes \<open>a.order - z.order || an.localeCompare(zn)\<close>; the collation is the engine's,
  given as \<open>collate a z\<close>: whether \<open>a\<close> may stand before \<open>z\<close>.
\<close>

definition group_before :: "(string \<Rightarrow> string \<Rightarrow> bool) \<Rightarrow> string \<times> group_entry \<Rightarrow> string \<times> group_entry \<Rightarrow> bool" where
  "group_before collate a z \<longleftrightarrow>
     ge_order (snd a) < ge_order (snd z) \<or> (ge_order (snd a) = ge_order (snd z) \<and> collate (fst a) (fst z))"

fun insert_before :: "('a \<Rightarrow> 'a \<Rightarrow> bool) \<Rightarrow> 'a \<Rightarrow> 'a list \<Rightarrow> 'a list" where
  "insert_before le x [] = [x]"
| "insert_before le x (y # ys) = (if le x y then x # y # ys else y # insert_before le x ys)"

definition js_sort :: "('a \<Rightarrow> 'a \<Rightarrow> bool) \<Rightarrow> 'a list \<Rightarrow> 'a list" where
  "js_sort le xs = foldr (insert_before le) xs []"

definition group_list :: "(string \<Rightarrow> string \<Rightarrow> bool) \<Rightarrow> group_map \<Rightarrow> (string \<times> group_role option) list" where
  "group_list collate m =
     [(fst (groupLabels m), Some DefaultRole)]
     @ map (\<lambda>e. (fst e, None)) (js_sort (group_before collate) (present_customs m))
     @ [(snd (groupLabels m), Some BlockedRole)]"

end
