(* ===== verification/BuddyMerge.thy ===== *)
theory BuddyMerge
  imports Buddies
begin

text \<open>
  The laws of the last-writer-wins merge of \<open>Buddies\<close>. \<open>lww_register\<close> is the contract of one kind of
  entry: \<open>newer\<close> compares ranks. Inside it the merge of a frame takes, for every name, the larger rank,
  so that the order and the repetition of frames do not matter. Buddy entries and group entries
  instantiate it.
\<close>

section \<open>The merge, name by name\<close>

definition taken :: "('e \<Rightarrow> bool) \<Rightarrow> ('e \<Rightarrow> 'e \<Rightarrow> bool) \<Rightarrow> (string, 'e) jsmap \<Rightarrow> string \<Rightarrow> 'e \<Rightarrow> bool" where
  "taken admit newer local k e \<longleftrightarrow> admit e \<and>
     (case obj_at local k of Undef \<Rightarrow> True | Inherited \<Rightarrow> False | Own cur \<Rightarrow> newer e cur)"

lemma obj_at_Own: "obj_at m k = Own v \<longleftrightarrow> jm_get m k = Some v"
  by (simp add: obj_at_def split: option.splits)

lemma obj_at_ordinary: "k \<notin> set inherited_names \<Longrightarrow>
    obj_at m k = (case jm_get m k of Some v \<Rightarrow> Own v | None \<Rightarrow> Undef)"
  by (simp add: obj_at_def split: option.splits)

lemma obj_at_obj_set: "k' \<noteq> k \<Longrightarrow> obj_at (obj_set k v m) k' = obj_at m k'"
  by (simp add: obj_at_def jm_get_obj_set)

lemma lww_one_eq:
  "lww_one admit newer (k, e) (c, local) =
     (if taken admit newer local k e then (True, obj_set k e local) else (c, local))"
  by (auto simp: lww_one_def taken_def split: slot.splits)

lemma lww_fold_at:
  assumes "distinct (map fst es)"
  shows "jm_get (snd (fold (lww_one admit newer) es (c, local))) k =
     (case map_of es k of
        None \<Rightarrow> jm_get local k
      | Some e \<Rightarrow> if taken admit newer local k e \<and> k \<noteq> ''__proto__'' then Some e else jm_get local k)"
  using assms
proof (induction es arbitrary: c local)
  case Nil
  then show ?case by simp
next
  case (Cons ke es)
  obtain k0 e0 where ke: "ke = (k0, e0)" by (cases ke)
  obtain c1 l1 where s1: "lww_one admit newer (k0, e0) (c, local) = (c1, l1)" by fastforce
  have l1: "l1 = (if taken admit newer local k0 e0 then obj_set k0 e0 local else local)"
    using s1 by (auto simp: lww_one_eq split: if_splits)
  have fresh: "map_of es k0 = None" and d: "distinct (map fst es)"
    using Cons.prems by (auto simp: ke map_of_eq_None_iff)
  show ?case
  proof (cases "k = k0")
    case True
    then have "jm_get (snd (fold (lww_one admit newer) (ke # es) (c, local))) k = jm_get l1 k0"
      using Cons.IH [OF d, of c1 l1] fresh by (simp add: ke s1)
    then show ?thesis using True by (simp add: ke l1 jm_get_obj_set)
  next
    case False
    then have "taken admit newer l1 k e = taken admit newer local k e" "jm_get l1 k = jm_get local k" for e
      by (simp_all add: taken_def l1 obj_at_obj_set jm_get_obj_set)
    then show ?thesis using False by (simp add: ke s1 Cons.IH [OF d] split: option.split)
  qed
qed

lemma lww_adopt_at:
  assumes "jm_wf incoming"
  shows "jm_get (snd (lww_adopt admit newer incoming local)) k =
     (case jm_get incoming k of
        None \<Rightarrow> jm_get local k
      | Some e \<Rightarrow> if taken admit newer local k e \<and> k \<noteq> ''__proto__'' then Some e else jm_get local k)"
proof -
  have "distinct (map fst (obj_entries incoming))" using assms by (metis jm_wf_def jm_wf_obj_entries)
  then show ?thesis using assms by (simp add: lww_adopt_def lww_fold_at)
qed

lemma jm_wf_lww_fold: "jm_wf local \<Longrightarrow> jm_wf (snd (fold (lww_one admit newer) es (c, local)))"
proof (induction es arbitrary: c local)
  case (Cons ke es)
  obtain k0 e0 where "ke = (k0, e0)" by (cases ke)
  then show ?case using Cons by (simp add: lww_one_eq)
qed simp

lemma jm_wf_lww_adopt: "jm_wf local \<Longrightarrow> jm_wf (snd (lww_adopt admit newer incoming local))"
  by (simp add: lww_adopt_def jm_wf_lww_fold)

lemma lww_changed_fold:
  "fst (fold (lww_one admit newer) es (c, local)) \<Longrightarrow>
     c \<or> (\<exists>(k, e) \<in> set es. admit e)"
proof (induction es arbitrary: c local)
  case (Cons ke es)
  obtain k0 e0 where "ke = (k0, e0)" by (cases ke)
  then show ?case using Cons by (auto simp: lww_one_eq taken_def split: if_splits)
qed simp

lemma lww_unchanged_fold:
  "\<not> fst (fold (lww_one admit newer) es (c, local)) \<Longrightarrow>
     \<not> c \<and> snd (fold (lww_one admit newer) es (c, local)) = local"
proof (induction es arbitrary: c local)
  case (Cons ke es)
  obtain k0 e0 where ke: "ke = (k0, e0)" by (cases ke)
  show ?case
  proof (cases "taken admit newer local k0 e0")
    case True
    then show ?thesis using Cons.IH [of True "obj_set k0 e0 local"] Cons.prems by (simp add: ke lww_one_eq)
  next
    case False
    then have eq: "fold (lww_one admit newer) (ke # es) (c, local) = fold (lww_one admit newer) es (c, local)"
      by (simp add: ke lww_one_eq)
    show ?thesis unfolding eq by (rule Cons.IH) (use Cons.prems eq in simp)
  qed
qed simp

lemma lww_unchanged: "\<not> fst (lww_adopt admit newer incoming local) \<Longrightarrow>
    snd (lww_adopt admit newer incoming local) = local"
  unfolding lww_adopt_def by (drule lww_unchanged_fold) simp

section \<open>Ranks\<close>

text \<open>\<open>ok k e\<close> says that \<open>e\<close> is an entry the program writes under the name \<open>k\<close>.\<close>

locale lww_register =
  fixes newer :: "'e \<Rightarrow> 'e \<Rightarrow> bool" and rank :: "'e \<Rightarrow> 'r::linorder" and ok :: "string \<Rightarrow> 'e \<Rightarrow> bool"
  assumes newer_rank: "ok k a \<Longrightarrow> ok k b \<Longrightarrow> newer a b \<longleftrightarrow> rank b < rank a"
begin

definition ok_map :: "(string, 'e) jsmap \<Rightarrow> bool" where
  "ok_map m \<longleftrightarrow> jm_wf m \<and> (\<forall>k e. jm_get m k = Some e \<longrightarrow> ok k e)"

definition rank_at :: "(string, 'e) jsmap \<Rightarrow> string \<Rightarrow> 'r option" where
  "rank_at m k = map_option rank (jm_get m k)"

lemma ok_map_adopt: "ok_map incoming \<Longrightarrow> ok_map local \<Longrightarrow> ok_map (snd (lww_adopt admit newer incoming local))"
  by (auto simp: ok_map_def jm_wf_lww_adopt lww_adopt_at split: option.splits if_splits)

lemma never_regresses:
  assumes "ok_map incoming" "ok_map local"
  shows "rank_at local k \<le> rank_at (snd (lww_adopt admit newer incoming local)) k"
proof (cases "jm_get incoming k")
  case None
  then show ?thesis using assms by (simp add: rank_at_def lww_adopt_at ok_map_def)
next
  case (Some e)
  show ?thesis
  proof (cases "jm_get local k")
    case None
    then show ?thesis by (simp add: rank_at_def)
  next
    case (Some cur)
    have "newer e cur \<longleftrightarrow> rank cur < rank e"
      by (rule newer_rank [of k]) (use assms Some \<open>jm_get incoming k = Some e\<close> in \<open>simp_all add: ok_map_def\<close>)
    then show ?thesis using assms Some \<open>jm_get incoming k = Some e\<close>
      by (simp add: rank_at_def lww_adopt_at ok_map_def taken_def obj_at_def less_imp_le)
  qed
qed

lemma adopt_takes_the_larger:
  assumes i: "ok_map incoming" and l: "ok_map local" and k: "k \<notin> set inherited_names"
    and admitted: "\<And>e. jm_get incoming k = Some e \<Longrightarrow> admit e"
  shows "rank_at (snd (lww_adopt admit newer incoming local)) k = max (rank_at local k) (rank_at incoming k)"
proof -
  have proto: "k \<noteq> ''__proto__''" using k by (auto simp: inherited_names_def)
  show ?thesis
  proof (cases "jm_get incoming k")
    case None
    then show ?thesis using i by (simp add: rank_at_def lww_adopt_at ok_map_def)
  next
    case (Some e)
    then have e: "admit e" "ok k e" using i admitted by (auto simp: ok_map_def)
    show ?thesis
    proof (cases "jm_get local k")
      case None
      with Some e proto i show ?thesis
        by (simp add: rank_at_def lww_adopt_at ok_map_def taken_def obj_at_ordinary [OF k])
    next
      case (Some cur)
      have "newer e cur \<longleftrightarrow> rank cur < rank e"
        by (rule newer_rank [of k]) (use e l Some in \<open>simp_all add: ok_map_def\<close>)
      moreover have "jm_get (snd (lww_adopt admit newer incoming local)) k = (if newer e cur then Some e else Some cur)"
        using \<open>jm_get incoming k = Some e\<close> Some e proto i
        by (simp add: lww_adopt_at ok_map_def taken_def obj_at_def)
      ultimately show ?thesis using \<open>jm_get incoming k = Some e\<close> Some
        by (cases "rank cur < rank e") (simp_all add: rank_at_def max_absorb1 max_absorb2)
    qed
  qed
qed

text \<open>A device that merges a sequence of frames, each with the admission test of its moment.\<close>

definition adopt_all :: "(('e \<Rightarrow> bool) \<times> (string, 'e) jsmap) list \<Rightarrow> (string, 'e) jsmap \<Rightarrow> (string, 'e) jsmap" where
  "adopt_all frames local = fold (\<lambda>(admit, incoming) l. snd (lww_adopt admit newer incoming l)) frames local"

lemma adopt_all_Nil: "adopt_all [] local = local"
  and adopt_all_Cons:
    "adopt_all (f # frames) local = adopt_all frames (snd (lww_adopt (fst f) newer (snd f) local))"
  by (simp_all add: adopt_all_def split_beta)

lemma adopt_all_ok:
  "(\<And>f. f \<in> set frames \<Longrightarrow> ok_map (snd f)) \<Longrightarrow> ok_map local \<Longrightarrow> ok_map (adopt_all frames local)"
  by (induction frames arbitrary: local) (simp_all add: adopt_all_Nil adopt_all_Cons ok_map_adopt)

lemma adopt_all_takes_the_maximum:
  assumes "\<And>f. f \<in> set frames \<Longrightarrow> ok_map (snd f)"
    and "\<And>f e. f \<in> set frames \<Longrightarrow> jm_get (snd f) k = Some e \<Longrightarrow> fst f e"
    and "ok_map local" and k: "k \<notin> set inherited_names"
  shows "rank_at (adopt_all frames local) k = Max (insert (rank_at local k) ((\<lambda>f. rank_at (snd f) k) ` set frames))"
  using assms(1-3)
proof (induction frames arbitrary: local)
  case Nil
  then show ?case by (simp add: adopt_all_Nil)
next
  case (Cons f frames)
  let ?l = "snd (lww_adopt (fst f) newer (snd f) local)"
  let ?R = "(\<lambda>f. rank_at (snd f) k) ` set frames"
  have ok: "ok_map (snd f)" "ok_map ?l" using Cons.prems(1) [of f] Cons.prems(3) by (simp_all add: ok_map_adopt)
  have "rank_at (adopt_all (f # frames) local) k = Max (insert (rank_at ?l k) ?R)"
    unfolding adopt_all_Cons by (rule Cons.IH) (use Cons.prems ok in simp_all)
  also have "rank_at ?l k = max (rank_at local k) (rank_at (snd f) k)"
    by (rule adopt_takes_the_larger [OF ok(1) Cons.prems(3) k]) (use Cons.prems(2) [of f] in simp)
  also have "Max (insert (max (rank_at local k) (rank_at (snd f) k)) ?R)
      = Max (insert (rank_at local k) (insert (rank_at (snd f) k) ?R))"
    by (cases "?R = {}") (simp_all add: max.assoc)
  finally show ?case by simp
qed

lemma convergence:
  assumes frames: "\<And>f. f \<in> set frames \<union> set frames' \<Longrightarrow> ok_map (snd f)"
    and admitted: "\<And>f e. f \<in> set frames \<union> set frames' \<Longrightarrow> jm_get (snd f) k = Some e \<Longrightarrow> fst f e"
    and "ok_map local" "ok_map local'" and k: "k \<notin> set inherited_names"
    and same: "insert local (snd ` set frames) = insert local' (snd ` set frames')"
  shows "rank_at (adopt_all frames local) k = rank_at (adopt_all frames' local') k"
proof -
  have "rank_at (adopt_all frames local) k = Max ((\<lambda>m. rank_at m k) ` insert local (snd ` set frames))"
    using adopt_all_takes_the_maximum [of frames k local] frames admitted assms(3) k
    by (simp only: image_insert image_image Un_iff simp_thms)
  moreover have "rank_at (adopt_all frames' local') k = Max ((\<lambda>m. rank_at m k) ` insert local' (snd ` set frames'))"
    using adopt_all_takes_the_maximum [of frames' k local'] frames admitted assms(4) k
    by (simp only: image_insert image_image Un_iff simp_thms)
  ultimately show ?thesis by (simp only: same)
qed

end
section \<open>Buddy entries and group entries\<close>

definition buddy_rank :: "buddy_entry \<Rightarrow> rat \<times> bool \<times> nat list" where
  "buddy_rank e = (be_v e, be_removed e, utf16_units (or_empty (be_vk e)))"

definition group_rank :: "group_entry \<Rightarrow> rat \<times> bool \<times> nat list" where
  "group_rank e = (ge_v e, ge_removed e, utf16_units (or_empty (ge_n e)))"

text \<open>The label of a built-in group is carried by the two reserved names, and only by them.\<close>

definition labelled :: "string \<Rightarrow> group_entry \<Rightarrow> bool" where
  "labelled k e \<longleftrightarrow> (ge_n e \<noteq> None) = reserved_name k"

interpretation buddy_lww: lww_register buddy_newer buddy_rank "\<lambda>_ _. True"
  by unfold_locales
    (auto simp: buddy_newer_def buddy_rank_def js_greater_def Let_def less_prod_def')

interpretation group_lww: lww_register group_newer group_rank labelled
  by unfold_locales
    (auto simp: group_newer_def group_rank_def js_greater_def labelled_def or_empty_def less_prod_def'
      split: option.splits)

section \<open>What is stored is what was merged\<close>

definition buddy_entry_ok :: "string \<Rightarrow> buddy_entry \<Rightarrow> bool" where
  "buddy_entry_ok u e \<longleftrightarrow> u \<noteq> [] \<and> u \<noteq> ''__proto__'' \<and> js_trim (be_group e) \<noteq> [] \<and>
     (case be_vk e of Some k \<Rightarrow> is_account_key k | None \<Rightarrow> True)"

definition buddy_map_ok :: "buddy_map \<Rightarrow> bool" where
  "buddy_map_ok m \<longleftrightarrow> jm_wf m \<and> (\<forall>(u, e) \<in> set m. buddy_entry_ok u e)"

lemma default_group_ok: "js_trim DEFAULT_GROUP \<noteq> []"
  by (simp add: DEFAULT_GROUP_def js_trim_visible visible_def)

lemma set_obj_set: "set (obj_set u e m) \<subseteq> insert (u, e) (set m)"
  unfolding obj_set_def by (induction m) auto

lemma buddy_map_ok_set:
  "buddy_map_ok m \<Longrightarrow> (u \<noteq> ''__proto__'' \<Longrightarrow> buddy_entry_ok u e) \<Longrightarrow> buddy_map_ok (obj_set u e m)"
  using set_obj_set [of u e m] by (cases "u = ''__proto__''") (auto simp: buddy_map_ok_def obj_set_def)

lemma buddy_map_ok_entries [simp]: "buddy_map_ok (obj_entries m) \<longleftrightarrow> buddy_map_ok m"
  by (simp add: buddy_map_ok_def)

lemma buddy_map_ok_Nil [simp]: "buddy_map_ok []"
  by (simp add: buddy_map_ok_def)

lemma coerce_buddy_ok: "u \<noteq> [] \<Longrightarrow> u \<noteq> ''__proto__'' \<Longrightarrow> buddy_entry_ok u (coerce_buddy e)"
  by (auto simp: buddy_entry_ok_def coerce_buddy_def coerce_vk_def default_group_ok split: option.splits)

lemma legacy_buddies_ok: "legacy_buddies bs out = Inr m \<Longrightarrow> buddy_map_ok out \<Longrightarrow> buddy_map_ok m"
proof (induction bs arbitrary: out)
  case (Cons b bs)
  then obtain out' where o: "legacy_buddy b out = Inr out'" "legacy_buddies bs out' = Inr m"
    by (auto split: sum.splits)
  have "buddy_map_ok out'"
    using o(1) Cons.prems(2)
    by (auto simp: legacy_buddy_def buddy_entry_ok_def default_group_ok intro!: buddy_map_ok_set
        split: if_splits option.splits)
  then show ?case using Cons.IH o by blast
qed simp

lemma buddy_of_entries_ok: "buddy_map_ok out \<Longrightarrow> buddy_map_ok (fold buddy_of_entry es out)"
  by (induction es arbitrary: out) (auto simp: buddy_of_entry_def intro!: buddy_map_ok_set coerce_buddy_ok)

lemma normalizeBuddyMap_ok: "normalizeBuddyMap raw = Inr m \<Longrightarrow> buddy_map_ok m"
  by (auto simp: normalizeBuddyMap_def legacy_buddies_ok buddy_of_entries_ok split: option.splits json.splits)

lemma buddy_json_props:
  "json_prop (buddy_json e) ''addedAt'' = Some (JNum (be_addedAt e))"
  "json_prop (buddy_json e) ''v'' = Some (JNum (be_v e))"
  "json_prop (buddy_json e) ''removed'' = Some (JBool (be_removed e))"
  "json_prop (buddy_json e) ''group'' = Some (JStr (be_group e))"
  "json_prop (buddy_json e) ''vk'' = map_option JStr (be_vk e)"
  "is_object (buddy_json e)"
  by (cases "be_vk e"; simp add: buddy_json_def json_prop_def is_object_def)+

lemma coerce_buddy_json: "buddy_entry_ok u e \<Longrightarrow> coerce_buddy (buddy_json e) = e"
  by (cases "be_vk e")
    (simp_all add: buddy_entry_ok_def coerce_buddy_def buddy_json_props as_string_def as_number_def
      number_or_def coerce_vk_def is_true_def)

lemma fold_jm_set_distinct:
  "distinct (map fst (out @ m)) \<Longrightarrow> fold (\<lambda>(k, v) o'. jm_set k v o') m out = out @ m"
proof (induction m arbitrary: out)
  case (Cons e m)
  obtain k v where e: "e = (k, v)" by (cases e)
  then have "jm_set k v out = out @ [(k, v)]" using Cons.prems by (intro jm_set_new) (auto simp: jm_has_keys)
  moreover have "distinct (map fst ((out @ [(k, v)]) @ m))" using Cons.prems by (simp add: e)
  ultimately show ?case using Cons.IH by (simp add: e)
qed simp

lemma map_insort_key: "(\<And>x. key' (f x) = key x) \<Longrightarrow> map f (insort_key key x xs) = insort_key key' (f x) (map f xs)"
  by (induction xs) auto

lemma map_sort_key: "(\<And>x. key' (f x) = key x) \<Longrightarrow> map f (sort_key key xs) = sort_key key' (map f xs)"
proof (induction xs)
  case (Cons x xs)
  then show ?case by (simp add: map_insort_key [of key' f key])
qed simp

lemma obj_entries_map: "obj_entries (map (\<lambda>(k, v). (k, f v)) m) = map (\<lambda>(k, v). (k, f v)) (obj_entries m)"
  by (simp add: obj_entries_def filter_map comp_def split_beta
      map_sort_key [where key' = "\<lambda>e. digits_value (fst e)" and key = "\<lambda>e. digits_value (fst e)"])

lemma obj_entries_idem [simp]: "obj_entries (obj_entries m) = obj_entries m"
  by (simp add: obj_entries_def filter_sort comp_def sort_key_id_if_sorted)

text \<open>The sealed form of a list reads back as the list, in the order \<open>Object.entries\<close> gives.\<close>

lemma buddies_read_back:
  assumes "buddy_map_ok m"
  shows "normalizeBuddyMap (Some (record_json buddy_json m)) = Inr (obj_entries m)"
proof -
  have d: "distinct (map fst (obj_entries m))"
    using assms jm_wf_obj_entries [of m] by (simp add: buddy_map_ok_def jm_wf_def)
  have entries: "fold buddy_of_entry (map (\<lambda>(k, v). (k, buddy_json v)) es) out = out @ es"
    if "distinct (map fst (out @ es))" "\<forall>(u, e) \<in> set es. buddy_entry_ok u e" for es out
    using that
  proof (induction es arbitrary: out)
    case (Cons ue es)
    obtain u e where ue: "ue = (u, e)" by (cases ue)
    have "buddy_of_entry (u, buddy_json e) out = out @ [(u, e)]"
      using Cons.prems coerce_buddy_json [of u e]
      by (auto simp: ue buddy_of_entry_def buddy_entry_ok_def obj_set_def buddy_json_props jm_set_new jm_has_keys)
    then show ?case using Cons.IH [of "out @ [(u, e)]"] Cons.prems by (simp add: ue)
  qed simp
  have "parsed_entries (map (\<lambda>(k, v). (k, buddy_json v)) (obj_entries m)) = map (\<lambda>(k, v). (k, buddy_json v)) (obj_entries m)"
    using d by (simp add: parsed_entries_def fold_jm_set_distinct obj_entries_map split_beta comp_def)
  then show ?thesis
    using entries [of "[]" "obj_entries m"] d assms
    by (simp add: normalizeBuddyMap_def record_json_def buddy_map_ok_def)
qed

section \<open>Devices that exchange their lists\<close>

text \<open>A device that receives list frames one after another, each at its own clock reading.\<close>

definition receive_buddy_lists :: "(int \<times> buddy_map) list \<Rightarrow> buddy_map \<Rightarrow> buddy_map" where
  "receive_buddy_lists frames local = fold (\<lambda>(now, incoming) l. snd (merge_buddies now incoming l)) frames local"

definition receive_group_lists :: "(int \<times> group_map) list \<Rightarrow> group_map \<Rightarrow> group_map" where
  "receive_group_lists frames local = fold (\<lambda>(now, incoming) l. snd (merge_groups now incoming l)) frames local"

lemma receive_buddy_lists_adopt:
  "receive_buddy_lists frames local =
     buddy_lww.adopt_all (map (\<lambda>f. (\<lambda>e. within_skew (fst f) (be_v e), snd f)) frames) local"
  by (induction frames arbitrary: local)
    (simp_all add: receive_buddy_lists_def buddy_lww.adopt_all_Nil buddy_lww.adopt_all_Cons merge_buddies_def split_beta)

lemma receive_group_lists_adopt:
  "receive_group_lists frames local =
     group_lww.adopt_all (map (\<lambda>f. (\<lambda>e. within_skew (fst f) (ge_v e), snd f)) frames) local"
  by (induction frames arbitrary: local)
    (simp_all add: receive_group_lists_def group_lww.adopt_all_Nil group_lww.adopt_all_Cons merge_groups_def split_beta)

lemma is_lower_hex_ascii: "is_lower_hex c \<Longrightarrow> (of_char c :: nat) < 128"
  by (auto simp: is_lower_hex_def Let_def)

lemma account_key_ascii: "is_account_key s \<Longrightarrow> is_ascii s"
  by (auto simp: is_account_key_def is_ascii_def list_all_iff is_lower_hex_ascii)

lemma buddy_rank_inject:
  assumes "buddy_entry_ok u a" "buddy_entry_ok u b" "buddy_rank a = buddy_rank b"
  shows "be_v a = be_v b" "be_removed a = be_removed b" "be_vk a = be_vk b"
proof -
  have ascii: "is_ascii (or_empty (be_vk e))" if "buddy_entry_ok u e" for e
    using that account_key_ascii by (cases "be_vk e") (auto simp: buddy_entry_ok_def or_empty_def is_ascii_def)
  have "or_empty (be_vk a) = or_empty (be_vk b)"
    using assms utf16_units_ascii_inject ascii by (simp add: buddy_rank_def)
  moreover have "s \<noteq> []" if "buddy_entry_ok u e" "be_vk e = Some s" for e s
    using that by (auto simp: buddy_entry_ok_def is_account_key_def)
  ultimately show "be_vk a = be_vk b"
    using assms(1,2) by (auto simp: or_empty_def split: option.splits)
qed (use assms(3) in \<open>simp_all add: buddy_rank_def\<close>)

lemma buddy_map_ok_at: "buddy_map_ok m \<Longrightarrow> jm_get m u = Some e \<Longrightarrow> buddy_entry_ok u e"
  by (auto simp: buddy_map_ok_def dest: map_of_SomeD)

lemma merge_buddies_ok: "buddy_map_ok incoming \<Longrightarrow> buddy_map_ok local \<Longrightarrow> buddy_map_ok (snd (merge_buddies now incoming local))"
proof -
  assume a: "buddy_map_ok incoming" "buddy_map_ok local"
  let ?m = "snd (merge_buddies now incoming local)"
  have wf: "jm_wf ?m" using a by (simp add: buddy_map_ok_def merge_buddies_def jm_wf_lww_adopt)
  have "buddy_entry_ok u e" if "(u, e) \<in> set ?m" for u e
  proof -
    have "jm_get ?m u = Some e" using that wf by (simp add: jm_wf_def)
    then show ?thesis using a
      by (auto simp: merge_buddies_def lww_adopt_at buddy_map_ok_at buddy_map_ok_def [THEN iffD1]
          split: option.splits if_splits dest: buddy_map_ok_at)
  qed
  then show ?thesis using wf by (auto simp: buddy_map_ok_def)
qed

lemma receive_buddy_lists_ok:
  "(\<And>f. f \<in> set frames \<Longrightarrow> buddy_map_ok (snd f)) \<Longrightarrow> buddy_map_ok local \<Longrightarrow> buddy_map_ok (receive_buddy_lists frames local)"
  by (induction frames arbitrary: local) (simp_all add: receive_buddy_lists_def merge_buddies_ok split_beta)

text \<open>
  What two devices agree on about a buddy: the version, whether the buddy is removed, the verified key.
\<close>

definition buddy_view :: "buddy_map \<Rightarrow> string \<Rightarrow> (rat \<times> bool \<times> string option) option" where
  "buddy_view m u = map_option (\<lambda>e. (be_v e, be_removed e, be_vk e)) (jm_get m u)"

definition group_view :: "group_map \<Rightarrow> string \<Rightarrow> (rat \<times> bool \<times> nat list) option" where
  "group_view m k = map_option group_rank (jm_get m k)"

lemma buddy_view_eq:
  assumes "buddy_map_ok m" "buddy_map_ok m'" "buddy_lww.rank_at m u = buddy_lww.rank_at m' u"
  shows "buddy_view m u = buddy_view m' u"
proof (cases "jm_get m u")
  case None
  then show ?thesis using assms(3) by (auto simp: buddy_view_def buddy_lww.rank_at_def)
next
  case (Some e)
  then obtain e' where e': "jm_get m' u = Some e'" "buddy_rank e = buddy_rank e'"
    using assms(3) by (cases "jm_get m' u") (auto simp: buddy_lww.rank_at_def)
  then show ?thesis
    using buddy_rank_inject [OF buddy_map_ok_at [OF assms(1) Some] buddy_map_ok_at [OF assms(2) e'(1)] e'(2)] Some
    by (simp add: buddy_view_def)
qed

lemma stamped_frame:
  assumes "f \<in> set (map (\<lambda>f. (P (fst f), snd f)) frames) \<union> set (map (\<lambda>f. (P (fst f), snd f)) frames')"
  obtains g where "g \<in> set frames \<union> set frames'" "f = (P (fst g), snd g)"
proof -
  from assms have "f \<in> (\<lambda>f. (P (fst f), snd f)) ` (set frames \<union> set frames')" by (simp add: image_Un)
  then show ?thesis using that by (elim imageE)
qed

text \<open>
  C32. The buddy list converges. Two devices of an account that start from any two lists and receive any
  frames, in any order and any number of times, agree on every buddy's version, on whether it was
  removed and on its verified key, as soon as the lists they have between them (their own and the
  received ones) are the same, provided no received version ran more than a day ahead of the
  receiver's clock. Names that every object inherits are excepted.
\<close>

theorem buddy_lists_converge:
  assumes "\<forall>f \<in> set frames \<union> set frames'. buddy_map_ok (snd f)"
    and "\<forall>f \<in> set frames \<union> set frames'. \<forall>e. jm_get (snd f) u = Some e \<longrightarrow> within_skew (fst f) (be_v e)"
    and "buddy_map_ok local" "buddy_map_ok local'"
    and "u \<notin> set inherited_names"
    and "insert local (snd ` set frames) = insert local' (snd ` set frames')"
  shows "buddy_view (receive_buddy_lists frames local) u = buddy_view (receive_buddy_lists frames' local') u"
proof (rule buddy_view_eq)
  let ?F = "map (\<lambda>f. (\<lambda>e. within_skew (fst f) (be_v e), snd f))"
  show "buddy_map_ok (receive_buddy_lists frames local)" "buddy_map_ok (receive_buddy_lists frames' local')"
    using assms(1,3,4) by (simp_all add: receive_buddy_lists_ok)
  show "buddy_lww.rank_at (receive_buddy_lists frames local) u = buddy_lww.rank_at (receive_buddy_lists frames' local') u"
    unfolding receive_buddy_lists_adopt
  proof (rule buddy_lww.convergence [of "?F frames" "?F frames'" u local local'])
    show "buddy_lww.ok_map (snd f)" if "f \<in> set (?F frames) \<union> set (?F frames')" for f
    proof -
      note f = that
      obtain g where "g \<in> set frames \<union> set frames'" "snd f = snd g"
        by (rule stamped_frame [OF f]) simp
      then show ?thesis using assms(1) by (simp add: buddy_lww.ok_map_def buddy_map_ok_def)
    qed
    show "fst f e" if "f \<in> set (?F frames) \<union> set (?F frames')" "jm_get (snd f) u = Some e" for f e
    proof -
      note f = that
      obtain g where "g \<in> set frames \<union> set frames'" and g: "f = (\<lambda>e. within_skew (fst g) (be_v e), snd g)"
        by (rule stamped_frame [OF f(1)])
      with assms(2) f(2) show ?thesis unfolding g by simp
    qed
    show "insert local (snd ` set (?F frames)) = insert local' (snd ` set (?F frames'))"
      using assms(6) by (simp add: image_image)
  qed (use assms in \<open>simp_all add: buddy_lww.ok_map_def buddy_map_ok_def\<close>)
qed

definition demo_entry :: "rat \<Rightarrow> bool \<Rightarrow> buddy_entry" where
  "demo_entry v removed = \<lparr>be_addedAt = 1, be_v = v, be_removed = removed, be_group = DEFAULT_GROUP, be_vk = None\<rparr>"

lemma demo_entry_ok: "u \<noteq> [] \<Longrightarrow> u \<noteq> ''__proto__'' \<Longrightarrow> buddy_map_ok [(u, demo_entry v r)]"
  by (simp add: buddy_map_ok_def jm_wf_def buddy_entry_ok_def demo_entry_def default_group_ok)

text \<open>Two devices, one of which removed the buddy the other one had added, exchange their lists.\<close>

theorem buddy_lists_converge_witness:
  "buddy_view (receive_buddy_lists [(10, [(''ann'', demo_entry 7 True)])] [(''ann'', demo_entry 5 False)]) ''ann''
   = buddy_view (receive_buddy_lists [(9, [(''ann'', demo_entry 5 False)])] [(''ann'', demo_entry 7 True)]) ''ann''"
  by (rule buddy_lists_converge)
    (auto simp: demo_entry_ok, simp_all add: demo_entry_def within_skew_def CRDT_MAX_FUTURE_MS_def inherited_names_def)

text \<open>
  A frame never takes a buddy back in time and never plants a version out of reach. Whatever JSON a
  sibling sends and whatever JSON is stored, for every name the entry after the merge is the stored one
  or one whose version is at most a day ahead of the clock, its rank (version, then removal, then
  verified key) is not below the stored one, and a merge that reports no change left the list as it was.
\<close>

theorem buddy_merge_is_monotone_and_bounded:
  "case (normalizeBuddyMap stored, normalizeBuddyMap payload) of
     (Inr local, Inr incoming) \<Rightarrow>
       (case merge_buddies now incoming local of (changed, merged) \<Rightarrow>
          buddy_map_ok merged
          \<and> jm_get merged u \<in> insert (jm_get local u) {Some e | e. within_skew now (be_v e)}
          \<and> map_option buddy_rank (jm_get local u) \<le> map_option buddy_rank (jm_get merged u)
          \<and> (if changed then True else merged = local))
   | _ \<Rightarrow> True"
proof -
  have "buddy_map_ok (snd (merge_buddies now incoming local))
      \<and> jm_get (snd (merge_buddies now incoming local)) u \<in> insert (jm_get local u) {Some e | e. within_skew now (be_v e)}
      \<and> map_option buddy_rank (jm_get local u) \<le> map_option buddy_rank (jm_get (snd (merge_buddies now incoming local)) u)
      \<and> (if fst (merge_buddies now incoming local) then True else snd (merge_buddies now incoming local) = local)"
    if "normalizeBuddyMap stored = Inr local" "normalizeBuddyMap payload = Inr incoming" for local incoming
  proof -
    have ok: "buddy_map_ok incoming" "buddy_map_ok local" using that normalizeBuddyMap_ok by auto
    then have "buddy_lww.ok_map incoming" "buddy_lww.ok_map local"
      by (simp_all add: buddy_lww.ok_map_def buddy_map_ok_def)
    then have "map_option buddy_rank (jm_get local u) \<le> map_option buddy_rank (jm_get (snd (merge_buddies now incoming local)) u)"
      unfolding merge_buddies_def using buddy_lww.never_regresses by (simp add: buddy_lww.rank_at_def)
    moreover have "jm_get (snd (merge_buddies now incoming local)) u \<in> insert (jm_get local u) {Some e | e. within_skew now (be_v e)}"
      using ok by (auto simp: merge_buddies_def lww_adopt_at buddy_map_ok_def taken_def split: option.splits)
    ultimately show ?thesis using ok by (simp add: merge_buddies_ok) (simp add: merge_buddies_def lww_unchanged)
  qed
  note merged = this
  show ?thesis
  proof (cases "normalizeBuddyMap stored")
    case (Inr local)
    then show ?thesis
    proof (cases "normalizeBuddyMap payload")
      case (Inr incoming)
      with merged [OF \<open>normalizeBuddyMap stored = Inr local\<close>] \<open>normalizeBuddyMap stored = Inr local\<close>
      show ?thesis by (cases "merge_buddies now incoming local") (simp split: if_splits)
    qed simp
  qed simp
qed

definition group_map_ok :: "group_map \<Rightarrow> bool" where
  "group_map_ok m \<longleftrightarrow> jm_wf m \<and> (\<forall>(k, e) \<in> set m. labelled k e)"

lemma group_map_ok_lww: "group_map_ok m \<Longrightarrow> group_lww.ok_map m"
  by (auto simp: group_map_ok_def group_lww.ok_map_def dest: map_of_SomeD)

text \<open>
  The group list converges in the same way: two devices agree on every group's version, on whether
  it was deleted and on the label of a built-in group, for lists in which exactly the two reserved names
  carry a label.
\<close>

theorem group_lists_converge:
  assumes "\<forall>f \<in> set frames \<union> set frames'. group_map_ok (snd f)"
    and "\<forall>f \<in> set frames \<union> set frames'. \<forall>e. jm_get (snd f) k = Some e \<longrightarrow> within_skew (fst f) (ge_v e)"
    and "group_map_ok local" "group_map_ok local'"
    and "k \<notin> set inherited_names"
    and "insert local (snd ` set frames) = insert local' (snd ` set frames')"
  shows "group_view (receive_group_lists frames local) k = group_view (receive_group_lists frames' local') k"
proof -
  let ?F = "map (\<lambda>f. (\<lambda>e. within_skew (fst f) (ge_v e), snd f))"
  have "group_lww.rank_at (receive_group_lists frames local) k = group_lww.rank_at (receive_group_lists frames' local') k"
    unfolding receive_group_lists_adopt
  proof (rule group_lww.convergence [of "?F frames" "?F frames'" k local local'])
    show "group_lww.ok_map (snd f)" if "f \<in> set (?F frames) \<union> set (?F frames')" for f
    proof -
      note f = that
      obtain g where "g \<in> set frames \<union> set frames'" "snd f = snd g"
        by (rule stamped_frame [OF f]) simp
      then show ?thesis using assms(1) by (simp add: group_map_ok_lww)
    qed
    show "fst f e" if "f \<in> set (?F frames) \<union> set (?F frames')" "jm_get (snd f) k = Some e" for f e
    proof -
      note f = that
      obtain g where "g \<in> set frames \<union> set frames'" and g: "f = (\<lambda>e. within_skew (fst g) (ge_v e), snd g)"
        by (rule stamped_frame [OF f(1)])
      with assms(2) f(2) show ?thesis unfolding g by simp
    qed
    show "insert local (snd ` set (?F frames)) = insert local' (snd ` set (?F frames'))"
      using assms(6) by (simp add: image_image)
  qed (use assms in \<open>simp_all add: group_map_ok_lww\<close>)
  then show ?thesis by (simp add: group_view_def group_lww.rank_at_def)
qed

definition demo_label :: "rat \<Rightarrow> string \<Rightarrow> group_entry" where
  "demo_label v n = \<lparr>ge_v = v, ge_removed = False, ge_order = 0, ge_n = Some n\<rparr>"

text \<open>The default group is renamed on both devices in the same millisecond.\<close>

theorem group_lists_converge_witness:
  "group_view (receive_group_lists [(10, [(RK_DEFAULT, demo_label 7 ''Pals'')])] [(RK_DEFAULT, demo_label 7 ''Crew'')]) RK_DEFAULT
   = group_view (receive_group_lists [(9, [(RK_DEFAULT, demo_label 7 ''Crew'')])] [(RK_DEFAULT, demo_label 7 ''Pals'')]) RK_DEFAULT"
  by (rule group_lists_converge)
    (auto simp: group_map_ok_def jm_wf_def labelled_def reserved_name_def demo_label_def split: if_splits,
     simp_all add: within_skew_def CRDT_MAX_FUTURE_MS_def inherited_names_def RK_DEFAULT_def)

end
