(* ===== verification/RichText.thy ===== *)
theory RichText
  imports JsText Base64
begin

text \<open>
  The rich-text pipeline of \<open>app.ts\<close>: escaping, the marker grammar and its renderer
  \<open>formatMessageText\<close>, the receive-side caps on inline images, the default message look, and
  \<open>serializeRichText\<close>, which turns the editor's DOM back into markers. Message text is attacker
  content; the renderer's output goes to \<open>innerHTML\<close>.

  All markers are ASCII, so the scan over UTF-16 code units is a scan over the bytes of the text.
\<close>

section \<open>Escaping\<close>

definition html_escape :: "char \<Rightarrow> string" where
  "html_escape c =
     (if c = CHR ''&'' then ''&amp;'' else if c = CHR ''<'' then ''&lt;'' else if c = CHR ''>'' then ''&gt;''
      else if c = CHR 0x22 then ''&quot;'' else if c = CHR 0x27 then ''&#39;'' else [c])"

definition escapeHtml :: "string \<Rightarrow> string" where
  "escapeHtml s = concat (map html_escape s)"

definition utf8 :: "nat list \<Rightarrow> string" where
  "utf8 ns = concat (map utf8_char ns)"

definition EMOTICONS :: "(string \<times> string) list" where
  "EMOTICONS =
     [('':-)'', utf8 [0x1F642]), ('':)'', utf8 [0x1F642]), ('':-('', utf8 [0x1F641]), ('':('', utf8 [0x1F641]),
      ('';-)'', utf8 [0x1F609]), ('';)'', utf8 [0x1F609]), ('':-D'', utf8 [0x1F600]), ('':D'', utf8 [0x1F600]),
      ('':-P'', utf8 [0x1F61B]), ('':P'', utf8 [0x1F61B]), ([CHR '':'', CHR 0x27, CHR ''(''], utf8 [0x1F622]),
      (''<3'', utf8 [0x2764, 0xFE0F]), ('':-O'', utf8 [0x1F62E]), ('':O'', utf8 [0x1F62E]),
      (''B-)'', utf8 [0x1F60E]), ('':-/'', utf8 [0x1F615])]"

text \<open>\<open>s.split(from).join(to)\<close> for a non-empty separator.\<close>

function split_join :: "string \<Rightarrow> string \<Rightarrow> string \<Rightarrow> string" where
  "split_join fr to s =
     (case s of
        [] \<Rightarrow> []
      | c # cs \<Rightarrow>
          if fr \<noteq> [] \<and> starts_with s fr then to @ split_join fr to (drop (length fr) s)
          else c # split_join fr to cs)"
  by auto
termination
  by (relation "measure (\<lambda>(fr, to, s). length s)") (auto simp: neq_Nil_conv)

declare split_join.simps [simp del]

definition emote :: "string \<Rightarrow> string" where
  "emote s = fold (\<lambda>(fr, to) t. split_join (escapeHtml fr) to t) EMOTICONS s"

section \<open>Palettes\<close>

definition RT_TEXT_COLORS :: "(string \<times> string) list" where
  "RT_TEXT_COLORS =
     [(''wh'', ''#ffffff''), (''sl'', ''#c8ccd8''), (''gy'', ''#9aa0b0''), (''dg'', ''#555a68''),
      (''bk'', ''#000000''), (''rd'', ''#e0504a''), (''mr'', ''#a02828''), (''or'', ''#e0883b''),
      (''br'', ''#8a5a2b''), (''yl'', ''#e8c84a''), (''gd'', ''#d4af37''), (''lm'', ''#a8e05a''),
      (''gn'', ''#54c878''), (''tl'', ''#1f9d8e''), (''cy'', ''#48c0d0''), (''bl'', ''#5a9be0''),
      (''nv'', ''#3a55b0''), (''pu'', ''#b07ad0''), (''mg'', ''#d04ad0''), (''pk'', ''#e088c0'')]"

definition LEGACY_HL_KEYS :: "string list" where
  "LEGACY_HL_KEYS = map (\<lambda>c. [c]) ''yorkmpbcgswd''"

definition RT_HL_COLORS :: "(string \<times> string) list" where "RT_HL_COLORS = RT_TEXT_COLORS"

definition RT_FONTS :: "(string \<times> string \<times> string) list" where
  \<open>RT_FONTS =
     [(''h'', ''Helvetica'', ''"Helvetica Neue", Helvetica, Arial, sans-serif''),
      (''v'', ''Verdana'', ''Verdana, Geneva, sans-serif''),
      (''b'', ''Trebuchet'', ''"Trebuchet MS", "Lucida Grande", sans-serif''),
      (''s'', ''Serif'', ''Georgia, "Times New Roman", serif''),
      (''g'', ''Garamond'', ''Garamond, "Apple Garamond", "Palatino Linotype", serif''),
      (''d'', ''Didot'', ''Didot, "Bodoni MT", "Times New Roman", serif''),
      (''k'', ''Baskerville'', ''Baskerville, "Palatino Linotype", Palatino, serif''),
      (''n'', ''Rockwell'', ''Rockwell, "Courier Bold", "Courier New", serif''),
      (''m'', ''Mono'', ''"Courier New", monospace''),
      (''t'', ''Typewriter'', ''"American Typewriter", "Courier New", monospace''),
      (''f'', ''Futura'', ''Futura, "Century Gothic", "Trebuchet MS", sans-serif''),
      (''w'', ''Wide'', ''"Arial Black", Impact, sans-serif''),
      (''o'', ''Copperplate'', ''Copperplate, "Copperplate Gothic Light", fantasy''),
      (''r'', ''Round'', ''"Comic Sans MS", "Comic Sans", cursive''),
      (''c'', ''Chalkboard'', ''"Chalkboard SE", Chalkboard, "Comic Sans MS", cursive''),
      (''y'', ''Marker'', ''"Marker Felt", "Comic Sans MS", cursive''),
      (''u'', ''Script'', ''"Snell Roundhand", "Brush Script MT", cursive''),
      (''p'', ''Papyrus'', ''Papyrus, fantasy''),
      (''ti'', ''Times'', ''"Times New Roman", Times, serif''),
      (''pa'', ''Palatino'', ''Palatino, "Palatino Linotype", "Book Antiqua", serif''),
      (''bo'', ''Bookman'', ''"Bookman Old Style", "URW Bookman L", serif''),
      (''ce'', ''Century Gothic'', ''"Century Gothic", "URW Gothic L", sans-serif''),
      (''gi'', ''Gill Sans'', ''"Gill Sans", "Gill Sans MT", Calibri, sans-serif''),
      (''op'', ''Optima'', ''Optima, "Segoe UI", Candara, sans-serif''),
      (''ta'', ''Tahoma'', ''Tahoma, Geneva, sans-serif''),
      (''se'', ''Segoe'', ''"Segoe UI", Segoe, Tahoma, sans-serif''),
      (''ca'', ''Calibri'', ''Calibri, Candara, "Segoe UI", sans-serif''),
      (''cm'', ''Cambria'', ''Cambria, Georgia, serif''),
      (''co'', ''Consolas'', ''Consolas, "Lucida Console", monospace''),
      (''lu'', ''Lucida'', ''"Lucida Sans", "Lucida Grande", sans-serif''),
      (''mo'', ''Monaco'', ''Monaco, Menlo, "Lucida Console", monospace''),
      (''me'', ''Menlo'', ''Menlo, Monaco, monospace''),
      (''im'', ''Impact'', ''Impact, Haettenschweiler, "Arial Narrow", sans-serif''),
      (''fr'', ''Franklin'', ''"Franklin Gothic Medium", "Arial Narrow", sans-serif''),
      (''an'', ''Arial Narrow'', ''"Arial Narrow", Arial, sans-serif''),
      (''ho'', ''Hoefler'', ''"Hoefler Text", Georgia, serif''),
      (''ch'', ''Cochin'', ''Cochin, Georgia, serif''),
      (''bc'', ''Big Caslon'', ''"Big Caslon", "Book Antiqua", serif''),
      (''ac'', ''Chancery'', ''"Apple Chancery", "Snell Roundhand", cursive''),
      (''za'', ''Zapfino'', ''Zapfino, "Snell Roundhand", cursive''),
      (''bh'', ''Bradley Hand'', ''"Bradley Hand", "Comic Sans MS", cursive''),
      (''nw'', ''Noteworthy'', ''Noteworthy, "Comic Sans MS", cursive''),
      (''he'', ''Herculanum'', ''Herculanum, Papyrus, fantasy'')]\<close>

definition TEXT_KEYS :: "string list" where "TEXT_KEYS = map fst RT_TEXT_COLORS"

definition HL_KEYS :: "string list" where "HL_KEYS = map fst RT_HL_COLORS @ LEGACY_HL_KEYS"

definition FONT_KEYS :: "string list" where "FONT_KEYS = map fst RT_FONTS"

section \<open>Inline images\<close>

definition is_b64_char :: "char \<Rightarrow> bool" where
  "is_b64_char c \<longleftrightarrow> (let n = (of_char c :: nat) in
     (65 \<le> n \<and> n \<le> 90) \<or> (97 \<le> n \<and> n \<le> 122) \<or> (48 \<le> n \<and> n \<le> 57) \<or> n = 43 \<or> n = 47)"

definition IMAGE_KINDS :: "string list" where
  "IMAGE_KINDS = [''png'', ''jpeg'', ''jpg'', ''gif'', ''webp'']"

text \<open>The data-URL prefix of an accepted image at the start of \<open>s\<close>, with what follows it.\<close>

definition image_prefix :: "string \<Rightarrow> (string \<times> string) option" where
  "image_prefix s =
     (case find (\<lambda>k. starts_with s (''data:image/'' @ k @ '';base64,'')) IMAGE_KINDS of
        None \<Rightarrow> None
      | Some k \<Rightarrow> (let p = ''data:image/'' @ k @ '';base64,'' in Some (p, drop (length p) s)))"

text \<open>The longest match of \<open>data:image/...;base64,[A-Za-z0-9+/]+={0,2}\<close> at the start of \<open>s\<close>.\<close>

definition match_data_url :: "string \<Rightarrow> (string \<times> string) option" where
  "match_data_url s =
     (case image_prefix s of
        None \<Rightarrow> None
      | Some (p, r) \<Rightarrow>
          (let body = takeWhile is_b64_char r; r1 = dropWhile is_b64_char r;
               pad = take 2 (takeWhile (\<lambda>c. c = CHR ''='') r1)
           in if body = [] then None else Some (p @ body @ pad, drop (length pad) r1)))"

definition INLINE_IMG_RE :: "string \<Rightarrow> bool" where
  "INLINE_IMG_RE s = (case match_data_url s of Some (u, rest) \<Rightarrow> rest = [] | None \<Rightarrow> False)"

definition RECV_IMG_MAX_DATAURI :: nat where "RECV_IMG_MAX_DATAURI = 40 * 1024"

definition RECV_IMG_MAX_DIM :: nat where "RECV_IMG_MAX_DIM = 2048"

text \<open>Byte reads; \<open>b[i]\<close> past the end is \<open>undefined\<close>, which the bitwise operators read as 0.\<close>

definition byte_at :: "bytes \<Rightarrow> nat \<Rightarrow> nat" where
  "byte_at b i = (case Prelude.at b i of Some x \<Rightarrow> unat x | None \<Rightarrow> 0)"

definition is_at :: "bytes \<Rightarrow> nat \<Rightarrow> nat \<Rightarrow> bool" where
  "is_at b i v \<longleftrightarrow> (case Prelude.at b i of Some x \<Rightarrow> unat x = v | None \<Rightarrow> False)"

definition read32be :: "bytes \<Rightarrow> nat \<Rightarrow> nat" where
  "read32be b i = ((byte_at b i * 256 + byte_at b (i + 1)) * 256 + byte_at b (i + 2)) * 256 + byte_at b (i + 3)"

definition le16 :: "bytes \<Rightarrow> nat \<Rightarrow> nat" where
  "le16 b i = byte_at b i + 256 * byte_at b (i + 1)"

definition le24 :: "bytes \<Rightarrow> nat \<Rightarrow> nat" where
  "le24 b i = le16 b i + 65536 * byte_at b (i + 2)"

text \<open>The segment scan of a JPEG: every turn moves forward.\<close>

function jpeg_scan :: "bytes \<Rightarrow> nat \<Rightarrow> (nat \<times> nat) option" where
  "jpeg_scan b i =
     (if length b \<le> i + 9 then None
      else if \<not> is_at b i 255 then jpeg_scan b (i + 1)
      else
        (let marker = byte_at b (i + 1) in
         if 192 \<le> marker \<and> marker \<le> 207 \<and> marker \<noteq> 196 \<and> marker \<noteq> 200 \<and> marker \<noteq> 204 then
           Some (byte_at b (i + 7) * 256 + byte_at b (i + 8), byte_at b (i + 5) * 256 + byte_at b (i + 6))
         else if marker = 216 \<or> marker = 217 \<or> (208 \<le> marker \<and> marker \<le> 215) then jpeg_scan b (i + 2)
         else
           (let len = byte_at b (i + 2) * 256 + byte_at b (i + 3) in
            if len < 2 then None else jpeg_scan b (i + 2 + len))))"
  by auto
termination by (relation "measure (\<lambda>(b, i). length b - i)") (auto simp: Let_def)

declare jpeg_scan.simps [simp del]

definition webp_dims :: "bytes \<Rightarrow> (nat \<times> nat) option" where
  "webp_dims b =
     (let cc = map (byte_at b) [12, 13, 14, 15] in
      if cc = map of_char ''VP8X'' then Some (1 + le24 b 24, 1 + le24 b 27)
      else if cc = map of_char ''VP8 '' then Some (le16 b 26 mod 16384, le16 b 28 mod 16384)
      else if cc = map of_char ''VP8L'' \<and> is_at b 20 47 then
        (let bits = le24 b 21 + 16777216 * byte_at b 24
         in Some (bits mod 16384 + 1, (bits div 16384) mod 16384 + 1))
      else None)"

definition has_bytes :: "bytes \<Rightarrow> nat \<Rightarrow> nat list \<Rightarrow> bool" where
  "has_bytes b i vs \<longleftrightarrow> list_all (\<lambda>(j, v). is_at b (i + j) v) (enumerate 0 vs)"

definition imageHeaderDims :: "bytes \<Rightarrow> (nat \<times> nat) option" where
  "imageHeaderDims b =
     (if 24 \<le> length b \<and> has_bytes b 0 [0x89, 0x50, 0x4e, 0x47] then Some (read32be b 16, read32be b 20)
      else if 10 \<le> length b \<and> has_bytes b 0 [0x47, 0x49, 0x46, 0x38] then Some (le16 b 6, le16 b 8)
      else if 30 \<le> length b \<and> has_bytes b 0 [0x52, 0x49, 0x46, 0x46] \<and> has_bytes b 8 [0x57, 0x45, 0x42, 0x50] then
        webp_dims b
      else if 4 \<le> length b \<and> has_bytes b 0 [0xff, 0xd8] then jpeg_scan b 2
      else None)"

text \<open>A string that \<open>atob\<close> rejects lets the image through.\<close>

definition inlineImageAllowed :: "string \<Rightarrow> bool" where
  "inlineImageAllowed dataUrl =
     (if RECV_IMG_MAX_DATAURI < js_length dataUrl then False
      else if CHR '','' \<notin> set dataUrl then False
      else case atob (drop 1 (dropWhile (\<lambda>c. c \<noteq> CHR '','') dataUrl)) of
          None \<Rightarrow> True
        | Some bytes \<Rightarrow>
            (case imageHeaderDims bytes of
               None \<Rightarrow> True
             | Some (w, h) \<Rightarrow> 0 < w \<and> 0 < h \<and> w \<le> RECV_IMG_MAX_DIM \<and> h \<le> RECV_IMG_MAX_DIM))"

section \<open>The renderer\<close>

record rt_open =
  rt_type :: char
  openTag :: string
  closeTag :: string

definition DQ :: string where "DQ = [CHR 0x22]"

definition attr_tag :: "string \<Rightarrow> string \<Rightarrow> string \<Rightarrow> string" where
  "attr_tag tag name v = ''<'' @ tag @ '' '' @ name @ ''='' @ DQ @ v @ DQ @ ''>''"

definition bold :: rt_open where
  "bold = \<lparr>rt_type = CHR ''b'', openTag = ''<strong>'', closeTag = ''</strong>''\<rparr>"

definition italic :: rt_open where
  "italic = \<lparr>rt_type = CHR ''i'', openTag = ''<em>'', closeTag = ''</em>''\<rparr>"

definition underline :: rt_open where
  "underline = \<lparr>rt_type = CHR ''u'', openTag = ''<u>'', closeTag = ''</u>''\<rparr>"

definition text_color :: "string \<Rightarrow> rt_open" where
  "text_color k = \<lparr>rt_type = CHR ''c'', openTag = attr_tag ''span'' ''class'' (''dd-c-'' @ k), closeTag = ''</span>''\<rparr>"

definition hex_color :: "string \<Rightarrow> rt_open" where
  "hex_color h = \<lparr>rt_type = CHR ''c'', openTag = attr_tag ''font'' ''color'' (''#'' @ h), closeTag = ''</font>''\<rparr>"

definition highlight :: "string \<Rightarrow> rt_open" where
  "highlight k = \<lparr>rt_type = CHR ''h'', openTag = attr_tag ''span'' ''class'' (''dd-hl-'' @ k), closeTag = ''</span>''\<rparr>"

definition text_size :: "string \<Rightarrow> rt_open" where
  "text_size n = \<lparr>rt_type = CHR ''z'', openTag = attr_tag ''font'' ''size'' n, closeTag = ''</font>''\<rparr>"

definition text_font :: "string \<Rightarrow> rt_open" where
  "text_font k = \<lparr>rt_type = CHR ''f'', openTag = attr_tag ''span'' ''class'' (''dd-ft-'' @ k), closeTag = ''</span>''\<rparr>"

definition image_html :: "string \<Rightarrow> string" where
  "image_html src = ''<img class='' @ DQ @ ''dd-img'' @ DQ @ '' src='' @ DQ @ src @ DQ @ '' alt='' @ DQ
     @ ''shared image'' @ DQ @ '' decoding='' @ DQ @ ''async'' @ DQ @ '' />''"

definition blocked_html :: string where
  "blocked_html = attr_tag ''span'' ''class'' ''dd-img-blocked'' @ utf8 [0x25A2] @ '' image too large</span>''"

text \<open>The output so far, the open formats with the innermost first, and the text not yet flushed.\<close>

record rt_state =
  rt_out :: string
  rt_stack :: "rt_open list"
  rt_buf :: string

definition rt_flush :: "rt_state \<Rightarrow> rt_state" where
  "rt_flush s = (if rt_buf s = [] then s else s\<lparr>rt_out := rt_out s @ emote (escapeHtml (rt_buf s)), rt_buf := []\<rparr>)"

definition emit_html :: "string \<Rightarrow> rt_state \<Rightarrow> rt_state" where
  "emit_html h s = s\<lparr>rt_out := rt_out s @ h\<rparr>"

definition openFmt :: "rt_open \<Rightarrow> rt_state \<Rightarrow> rt_state" where
  "openFmt x s = (let s1 = emit_html (openTag x) (rt_flush s) in s1\<lparr>rt_stack := x # rt_stack s1\<rparr>)"

definition is_open :: "char \<Rightarrow> rt_state \<Rightarrow> bool" where
  "is_open t s \<longleftrightarrow> (\<exists>x \<in> set (rt_stack s). rt_type x = t)"

text \<open>
  Closing a format closes what is nested in it first and opens that again afterwards.
\<close>

definition closeType :: "char \<Rightarrow> rt_state \<Rightarrow> rt_state" where
  "closeType t s =
     (let s1 = rt_flush s;
          above = takeWhile (\<lambda>x. rt_type x \<noteq> t) (rt_stack s1)
      in case dropWhile (\<lambda>x. rt_type x \<noteq> t) (rt_stack s1) of
           [] \<Rightarrow> s1
         | m # below \<Rightarrow>
             s1\<lparr>rt_out := rt_out s1 @ concat (map closeTag above) @ closeTag m @ concat (map openTag (rev above)),
                rt_stack := above @ below\<rparr>)"

definition rt_toggle :: "rt_open \<Rightarrow> rt_state \<Rightarrow> rt_state" where
  "rt_toggle x s = (if is_open (rt_type x) s then closeType (rt_type x) s else openFmt x s)"

section \<open>Markers\<close>

definition is_lower :: "char \<Rightarrow> bool" where
  "is_lower c \<longleftrightarrow> 97 \<le> (of_char c :: nat) \<and> (of_char c :: nat) \<le> 122"

definition is_hex :: "char \<Rightarrow> bool" where
  "is_hex c \<longleftrightarrow> hex_value c \<noteq> None"

text \<open>\<open>[t:key]\<close> with a key of between \<open>lo\<close> and \<open>hi\<close> lower-case letters: the key and the length of the match.\<close>

definition match_key :: "char \<Rightarrow> nat \<Rightarrow> nat \<Rightarrow> string \<Rightarrow> (string \<times> nat) option" where
  "match_key t lo hi r =
     (if starts_with r [CHR ''['', t, CHR '':'']
      then (let k = takeWhile is_lower (drop 3 r) in
            if lo \<le> length k \<and> length k \<le> hi \<and> starts_with (drop (3 + length k) r) '']''
            then Some (k, length k + 4) else None)
      else None)"

text \<open>\<open>[c?#hex]\<close> with six or three hexadecimal digits\<close>

definition match_hex_color :: "string \<Rightarrow> (string \<times> nat) option" where
  "match_hex_color r =
     (case find (starts_with r) [''[c#'', ''[#''] of
        None \<Rightarrow> None
      | Some p \<Rightarrow>
          (let h = takeWhile is_hex (drop (length p) r) in
           if (length h = 6 \<or> length h = 3) \<and> starts_with (drop (length p + length h) r) '']''
           then Some (h, length p + length h + 1) else None))"

definition match_size :: "string \<Rightarrow> (string \<times> nat) option" where
  "match_size r =
     (case find (\<lambda>g. starts_with r (''[z:'' @ [g] @ '']'')) ''sl1234567'' of
        None \<Rightarrow> None
      | Some g \<Rightarrow> Some (if g = CHR ''s'' then ''2'' else if g = CHR ''l'' then ''5'' else [g], 5))"

definition match_close :: "string \<Rightarrow> char option" where
  "match_close r = find (\<lambda>t. starts_with r (''[/'' @ [t] @ '']'')) ''uchzf''"

definition match_image :: "string \<Rightarrow> (string \<times> nat) option" where
  "match_image r =
     (if starts_with r ''[img:'' then
        (case match_data_url (drop 5 r) of
           Some (u, rest) \<Rightarrow> if starts_with rest '']'' then Some (u, length u + 6) else None
         | None \<Rightarrow> None)
      else None)"

definition push_char :: "char \<Rightarrow> rt_state \<Rightarrow> rt_state" where
  "push_char c s = s\<lparr>rt_buf := rt_buf s @ [c]\<rparr>"

text \<open>The attempts at a bracket marker, in the order of the code: \<open>None\<close> leaves the bracket as text.\<close>

definition guarded :: "bool \<Rightarrow> 'a option \<Rightarrow> 'a option" where
  "guarded b x = (if b then x else None)"

fun first_some :: "'a option list \<Rightarrow> 'a option" where
  "first_some [] = None"
| "first_some (Some x # xs) = Some x"
| "first_some (None # xs) = first_some xs"

definition image_marker :: "string \<Rightarrow> rt_state \<Rightarrow> (nat \<times> rt_state) option" where
  "image_marker r s =
     (case match_image r of
        Some (u, n) \<Rightarrow>
          if INLINE_IMG_RE u
          then Some (n, emit_html (if inlineImageAllowed u then image_html u else blocked_html) (rt_flush s))
          else None
      | None \<Rightarrow> None)"

definition close_marker :: "string \<Rightarrow> rt_state \<Rightarrow> (nat \<times> rt_state) option" where
  "close_marker r s =
     (case match_close r of
        Some t \<Rightarrow> guarded (is_open t s) (Some (4, closeType t s))
      | None \<Rightarrow> None)"

definition open_marker ::
  "(string \<times> nat) option \<Rightarrow> (string \<Rightarrow> bool) \<Rightarrow> (string \<Rightarrow> rt_open) \<Rightarrow> rt_state \<Rightarrow> (nat \<times> rt_state) option" where
  "open_marker m ok mk s =
     (case m of Some (k, n) \<Rightarrow> guarded (ok k) (Some (n, openFmt (mk k) s)) | None \<Rightarrow> None)"

definition bracket :: "bool \<Rightarrow> string \<Rightarrow> rt_state \<Rightarrow> (nat \<times> rt_state) option" where
  "bracket images r s = first_some
     [guarded images (image_marker r s),
      close_marker r s,
      guarded (starts_with r ''[/]'' \<and> is_open (CHR ''c'') s) (Some (3, closeType (CHR ''c'') s)),
      guarded (starts_with r ''[u]'') (Some (3, openFmt underline s)),
      open_marker (match_key (CHR ''c'') 2 2 r) (\<lambda>k. k \<in> set TEXT_KEYS) text_color s,
      open_marker (match_hex_color r) (\<lambda>_. True) hex_color s,
      open_marker (match_key (CHR ''h'') 1 2 r) (\<lambda>k. k \<in> set HL_KEYS) highlight s,
      open_marker (match_size r) (\<lambda>_. True) text_size s,
      open_marker (match_key (CHR ''f'') 1 2 r) (\<lambda>k. k \<in> set FONT_KEYS) text_font s]"

text \<open>One turn of the loop: how far it moved, and the state.\<close>

definition BACKSLASH :: char where "BACKSLASH = CHR 0x5C"

definition rt_step :: "bool \<Rightarrow> string \<Rightarrow> rt_state \<Rightarrow> nat \<times> rt_state" where
  "rt_step images text s =
     (case text of
        [] \<Rightarrow> (0, s)
      | c # cs \<Rightarrow>
          if c = BACKSLASH \<and> cs \<noteq> [] then (2, push_char (hd cs) s)
          else if c = CHR ''*'' then (1, rt_toggle bold s)
          else if c = CHR ''_'' then (1, rt_toggle italic s)
          else if c = CHR ''['' then (case bracket images text s of Some r \<Rightarrow> r | None \<Rightarrow> (1, push_char c s))
          else (1, push_char c s))"

text \<open>Every turn moves forward, so the scan ends.\<close>

lemma first_some_in: "first_some xs = Some r \<Longrightarrow> Some r \<in> set xs"
  by (induction xs rule: first_some.induct) auto

lemma guarded_Some [simp]: "guarded b x = Some r \<longleftrightarrow> b \<and> x = Some r"
  by (simp add: guarded_def)

lemma open_marker_Some:
  "open_marker m ok mk s = Some (n, s') \<longleftrightarrow> (\<exists>k. m = Some (k, n) \<and> ok k \<and> s' = openFmt (mk k) s)"
  by (auto simp: open_marker_def split: option.splits)

lemma image_marker_Some:
  "image_marker r s = Some (n, s') \<longleftrightarrow> (\<exists>u. match_image r = Some (u, n) \<and> INLINE_IMG_RE u \<and>
     s' = emit_html (if inlineImageAllowed u then image_html u else blocked_html) (rt_flush s))"
  by (auto simp: image_marker_def split: option.splits if_splits)

lemma close_marker_Some:
  "close_marker r s = Some (n, s') \<longleftrightarrow> (\<exists>t. match_close r = Some t \<and> is_open t s \<and> n = 4 \<and> s' = closeType t s)"
  by (auto simp: close_marker_def split: option.splits)

lemma bracket_cases:
  assumes "bracket images r s = Some (n, s')"
  obtains (image) u where "images" "match_image r = Some (u, n)" "INLINE_IMG_RE u"
      "s' = emit_html (if inlineImageAllowed u then image_html u else blocked_html) (rt_flush s)"
    | (close) t where "is_open t s" "s' = closeType t s" "0 < n"
    | (underline) "s' = openFmt underline s" "n = 3"
    | (color) k where "k \<in> set TEXT_KEYS" "match_key (CHR ''c'') 2 2 r = Some (k, n)" "s' = openFmt (text_color k) s"
    | (hex) h where "match_hex_color r = Some (h, n)" "s' = openFmt (hex_color h) s"
    | (highlight) k where "k \<in> set HL_KEYS" "match_key (CHR ''h'') 1 2 r = Some (k, n)" "s' = openFmt (highlight k) s"
    | (size) g where "match_size r = Some (g, n)" "s' = openFmt (text_size g) s"
    | (font) k where "k \<in> set FONT_KEYS" "match_key (CHR ''f'') 1 2 r = Some (k, n)" "s' = openFmt (text_font k) s"
  using first_some_in [OF assms [unfolded bracket_def]]
  by (simp only: list.set insert_iff empty_iff simp_thms, elim disjE)
    (auto simp: image_marker_Some close_marker_Some open_marker_Some dest!: sym [of "Some _"] intro: that)

lemma marker_lengths:
  "match_image r = Some (u, n) \<Longrightarrow> 0 < n" "match_key t lo hi r = Some (k, n) \<Longrightarrow> 0 < n"
  "match_hex_color r = Some (h, n) \<Longrightarrow> 0 < n" "match_size r = Some (g, n) \<Longrightarrow> 0 < n"
  by (auto simp: match_image_def match_key_def match_hex_color_def match_size_def Let_def
      split: if_splits option.splits prod.splits)

lemma bracket_moves: "bracket images r s = Some (n, s') \<Longrightarrow> 0 < n"
  by (erule bracket_cases) (simp_all add: marker_lengths)

lemma rt_step_moves: "text \<noteq> [] \<Longrightarrow> 0 < fst (rt_step images text s)"
  by (auto simp: rt_step_def dest: bracket_moves split: list.splits option.splits)

function rt_scan :: "bool \<Rightarrow> string \<Rightarrow> rt_state \<Rightarrow> rt_state" where
  "rt_scan images text s =
     (if text = [] then s
      else rt_scan images (drop (fst (rt_step images text s)) text) (snd (rt_step images text s)))"
  by auto
termination
  by (relation "measure (\<lambda>(images, text, s). length text)") (auto intro!: diff_less rt_step_moves)

declare rt_scan.simps [simp del]

definition rt_start :: rt_state where
  "rt_start = \<lparr>rt_out = [], rt_stack = [], rt_buf = []\<rparr>"

definition formatMessageText :: "bool \<Rightarrow> string \<Rightarrow> string" where
  "formatMessageText images text =
     (let s = rt_flush (rt_scan images text rt_start) in rt_out s @ concat (map closeTag (rt_stack s)))"

section \<open>Writing markers\<close>

definition is_marker :: "char \<Rightarrow> bool" where
  "is_marker c \<longleftrightarrow> c = BACKSLASH \<or> c = CHR ''*'' \<or> c = CHR ''_'' \<or> c = CHR ''[''"

definition escMarker :: "string \<Rightarrow> string" where
  "escMarker s = concat (map (\<lambda>c. if is_marker c then [BACKSLASH, c] else [c]) s)"

record message_look =
  ml_font :: "string option"
  ml_color :: "string option"
  ml_hl :: "string option"
  ml_size :: "string option"

definition look_part :: "string option \<Rightarrow> (string \<Rightarrow> bool) \<Rightarrow> char \<Rightarrow> (string \<times> string) list" where
  "look_part v ok t =
     (case v of
        Some k \<Rightarrow> if ok k then [([CHR ''['', t, CHR '':''] @ k @ '']'', [CHR ''['', CHR ''/'', t, CHR '']''])] else []
      | None \<Rightarrow> [])"

definition is_look_size :: "string \<Rightarrow> bool" where
  "is_look_size k \<longleftrightarrow> k = ''s'' \<or> k = ''l''"

definition messageLookParts :: "message_look \<Rightarrow> (string \<times> string) list" where
  "messageLookParts look =
     look_part (ml_font look) (\<lambda>k. k \<in> set FONT_KEYS) (CHR ''f'')
     @ look_part (ml_color look) (\<lambda>k. k \<in> set TEXT_KEYS) (CHR ''c'')
     @ look_part (ml_hl look) (\<lambda>k. k \<in> set HL_KEYS) (CHR ''h'')
     @ look_part (ml_size look) is_look_size (CHR ''z'')"

definition wrapMessageLook :: "message_look option \<Rightarrow> string \<Rightarrow> string" where
  "wrapMessageLook look markers =
     (case look of
        None \<Rightarrow> markers
      | Some l \<Rightarrow>
          (let parts = messageLookParts l in
           if parts = [] then markers
           else concat (map fst parts) @ markers @ concat (map snd (rev parts))))"

definition look_field :: "json \<Rightarrow> string \<Rightarrow> (string \<Rightarrow> bool) \<Rightarrow> string option" where
  "look_field v name ok = (case as_string (json_prop v name) of Some k \<Rightarrow> if ok k then Some k else None | None \<Rightarrow> None)"

definition sanitizeMessageLook :: "json option \<Rightarrow> message_look option" where
  "sanitizeMessageLook raw =
     (case raw of
        None \<Rightarrow> None
      | Some v \<Rightarrow>
          if \<not> is_object v then None
          else (let look = \<lparr>ml_font = look_field v ''font'' (\<lambda>k. k \<in> set FONT_KEYS),
                            ml_color = look_field v ''color'' (\<lambda>k. k \<in> set TEXT_KEYS),
                            ml_hl = look_field v ''hl'' (\<lambda>k. k \<in> set HL_KEYS),
                            ml_size = look_field v ''size'' is_look_size\<rparr>
                in if look = \<lparr>ml_font = None, ml_color = None, ml_hl = None, ml_size = None\<rparr> then None else Some look))"

section \<open>Serializing the editor\<close>

text \<open>
  A DOM subtree as \<open>serializeRichText\<close> reads it: text nodes, elements with their lower-cased tag name,
  attributes and children, and nodes of other kinds.
\<close>

datatype dom = DText string | DElem string "(string \<times> string) list" "dom list" | DOther

definition ZWSP :: string where "ZWSP = utf8 [0x200B]"

definition attr_of :: "(string \<times> string) list \<Rightarrow> string \<Rightarrow> string option" where
  "attr_of attrs name = map_of attrs name"

text \<open>\<open>parseInt(s, 10)\<close>\<close>

definition parse_digits :: "string \<Rightarrow> nat option" where
  "parse_digits s = (let d = takeWhile is_digit s in if d = [] then None else Some (digits_value d))"

definition parseInt10 :: "string \<Rightarrow> int option" where
  "parseInt10 s =
     (case js_trim s of
        [] \<Rightarrow> None
      | c # cs \<Rightarrow>
          if c = CHR ''-'' then map_option (\<lambda>n. - int n) (parse_digits cs)
          else if c = CHR ''+'' then map_option int (parse_digits cs)
          else map_option int (parse_digits (c # cs)))"

text \<open>\<open>rgb(a, b, c)\<close>: three numbers of at most three digits, with white space around them.\<close>

definition skip_space :: "string \<Rightarrow> string" where
  "skip_space s = strip_prefixes ws_chars s"

fun rgb_parts :: "char list \<Rightarrow> string \<Rightarrow> nat list option" where
  "rgb_parts [] s = (if s = [] then Some [] else None)"
| "rgb_parts (e # es) s =
     (let s1 = skip_space s; d = takeWhile is_digit s1; s2 = skip_space (dropWhile is_digit s1) in
      if d = [] \<or> 3 < length d \<or> \<not> starts_with s2 [e] then None
      else map_option ((#) (digits_value d)) (rgb_parts es (drop 1 s2)))"

definition hex2 :: "nat \<Rightarrow> string" where
  "hex2 n = hex_byte (of_nat (min 255 n))"

definition colorToHex :: "string \<Rightarrow> string option" where
  "colorToHex c =
     (let s = js_trim c; h = (if starts_with s ''#'' then drop 1 s else s) in
      if (length h = 6 \<or> length h = 3) \<and> list_all is_hex h then Some h
      else if starts_with s ''rgb('' then map_option (\<lambda>ns. concat (map hex2 ns)) (rgb_parts '',,)'' (drop 4 s))
      else None)"

definition ends_with_newline :: "string \<Rightarrow> bool" where
  "ends_with_newline s \<longleftrightarrow> s \<noteq> [] \<and> last s = CHR 0x0A"

fun split_spaces :: "string \<Rightarrow> string \<Rightarrow> string list" where
  "split_spaces w [] = (if w = [] then [] else [w])"
| "split_spaces w (c # cs) =
     (if (of_char c :: nat) \<in> {9, 10, 12, 13, 32} then (if w = [] then [] else [w]) @ split_spaces [] cs
      else split_spaces (w @ [c]) cs)"

definition classList :: "(string \<times> string) list \<Rightarrow> string list" where
  "classList attrs = (case attr_of attrs ''class'' of Some v \<Rightarrow> split_spaces [] v | None \<Rightarrow> [])"

definition class_key :: "string \<Rightarrow> string list \<Rightarrow> string option" where
  "class_key p cls = map_option (drop (length p)) (find (\<lambda>c. starts_with c p) cls)"

definition in_keys :: "string option \<Rightarrow> string list \<Rightarrow> string option" where
  "in_keys k keys = (case k of Some x \<Rightarrow> if x \<in> set keys then Some x else None | None \<Rightarrow> None)"

definition marked :: "char \<Rightarrow> string \<Rightarrow> string \<Rightarrow> string" where
  "marked t k inner = [CHR ''['', t, CHR '':''] @ k @ '']'' @ inner @ [CHR ''['', CHR ''/'', t, CHR '']'']"

definition font_markers :: "(string \<times> string) list \<Rightarrow> string \<Rightarrow> string" where
  "font_markers attrs inner =
     (case attr_of attrs ''size'' of
        Some v \<Rightarrow>
          (case parseInt10 v of
             Some n \<Rightarrow> if 1 \<le> n \<and> n \<le> 7 \<and> n \<noteq> 4 then marked (CHR ''z'') (decimal (nat n)) inner else inner
           | None \<Rightarrow> inner)
      | None \<Rightarrow>
          (case attr_of attrs ''color'' of
             Some c \<Rightarrow>
               (case colorToHex c of Some h \<Rightarrow> ''[c#'' @ h @ '']'' @ inner @ ''[/c]'' | None \<Rightarrow> inner)
           | None \<Rightarrow> inner))"

definition span_markers :: "(string \<times> string) list \<Rightarrow> string \<Rightarrow> string" where
  "span_markers attrs inner =
     (let cls = classList attrs in
      case in_keys (class_key ''dd-c-'' cls) TEXT_KEYS of
        Some k \<Rightarrow> marked (CHR ''c'') k inner
      | None \<Rightarrow>
          (case in_keys (class_key ''dd-hl-'' cls) HL_KEYS of
             Some k \<Rightarrow> marked (CHR ''h'') k inner
           | None \<Rightarrow>
               (case in_keys (class_key ''dd-ft-'' cls) FONT_KEYS of
                  Some k \<Rightarrow> marked (CHR ''f'') k inner
                | None \<Rightarrow> inner)))"

text \<open>What an element adds to the text \<open>out\<close> written so far, given the serialization of its children.\<close>

definition elem_markers :: "string \<Rightarrow> (string \<times> string) list \<Rightarrow> string \<Rightarrow> string \<Rightarrow> string" where
  "elem_markers tag attrs inner out =
     (if tag \<in> {''b'', ''strong'', ''i'', ''em'', ''u'', ''font'', ''span''} \<and> inner = [] then []
      else if tag = ''b'' \<or> tag = ''strong'' then ''*'' @ inner @ ''*''
      else if tag = ''i'' \<or> tag = ''em'' then ''_'' @ inner @ ''_''
      else if tag = ''u'' then ''[u]'' @ inner @ ''[/u]''
      else if tag = ''font'' then font_markers attrs inner
      else if tag = ''span'' then span_markers attrs inner
      else if tag = ''div'' \<or> tag = ''p'' then
        (if out \<noteq> [] \<and> \<not> ends_with_newline out then [CHR 0x0A] else []) @ inner
      else inner)"

definition image_markers :: "(string \<times> string) list \<Rightarrow> string" where
  "image_markers attrs =
     (case attr_of attrs ''src'' of
        Some src \<Rightarrow> if INLINE_IMG_RE src then ''[img:'' @ src @ '']'' else []
      | None \<Rightarrow> [])"

fun serializeNode :: "dom \<Rightarrow> string \<Rightarrow> string"
  and serializeRichText :: "dom list \<Rightarrow> string \<Rightarrow> string" where
  "serializeNode (DText s) out = out @ escMarker (split_join ZWSP [] s)"
| "serializeNode DOther out = out"
| "serializeNode (DElem tag attrs children) out =
     (if tag = ''br'' then out @ [CHR 0x0A]
      else if tag = ''img'' then out @ image_markers attrs
      else out @ elem_markers tag attrs (serializeRichText children []) out)"
| "serializeRichText [] out = out"
| "serializeRichText (n # ns) out = serializeRichText ns (serializeNode n out)"

end
