(* ===== verification/RichTextProps.thy ===== *)
theory RichTextProps
  imports RichText
begin

text \<open>
  What \<open>innerHTML\<close> receives: \<open>formatMessageText\<close> yields a well-nested sequence of tokens of a fixed
  grammar, whatever the message; and text whose marker characters were escaped comes back as that text.
\<close>

section \<open>The grammar of the output\<close>

datatype html_token = TText string | TOpen rt_open | TClose rt_open | TImage string | TBlocked

fun token_html :: "html_token \<Rightarrow> string" where
  "token_html (TText s) = s"
| "token_html (TOpen x) = openTag x"
| "token_html (TClose x) = closeTag x"
| "token_html (TImage u) = image_html u"
| "token_html TBlocked = blocked_html"

definition tokens_html :: "html_token list \<Rightarrow> string" where
  "tokens_html ts = concat (map token_html ts)"

text \<open>The formats still open after the tokens, innermost first; \<open>None\<close> when a closing tag does not match.\<close>

fun nest :: "html_token list \<Rightarrow> rt_open list \<Rightarrow> rt_open list option" where
  "nest [] st = Some st"
| "nest (TOpen x # ts) st = nest ts (x # st)"
| "nest (TClose x # ts) st = (case st of y # st' \<Rightarrow> if x = y then nest ts st' else None | [] \<Rightarrow> None)"
| "nest (_ # ts) st = nest ts st"

definition no_markup :: "string \<Rightarrow> bool" where
  "no_markup s \<longleftrightarrow> set s \<inter> {CHR ''<'', CHR ''>'', CHR 0x22, CHR 0x27} = {}"

definition allowed_format :: "rt_open \<Rightarrow> bool" where
  "allowed_format x \<longleftrightarrow>
     x \<in> {bold, italic, underline} \<union> text_color ` set TEXT_KEYS \<union> highlight ` set HL_KEYS
        \<union> text_font ` set FONT_KEYS \<union> text_size ` {[c] | c. c \<in> set ''1234567''}
        \<union> hex_color ` {h. (length h = 3 \<or> length h = 6) \<and> list_all is_hex h}"

fun token_ok :: "html_token \<Rightarrow> bool" where
  "token_ok (TText s) = no_markup s"
| "token_ok (TOpen x) = allowed_format x"
| "token_ok (TClose x) = allowed_format x"
| "token_ok (TImage u) = (INLINE_IMG_RE u \<and> inlineImageAllowed u \<and> no_markup u)"
| "token_ok TBlocked = True"

definition is_image_token :: "html_token \<Rightarrow> bool" where
  "is_image_token t = (case t of TImage _ \<Rightarrow> True | TBlocked \<Rightarrow> True | _ \<Rightarrow> False)"

section \<open>Escaped text carries no markup\<close>

lemma no_markup_append [simp]: "no_markup (s @ t) \<longleftrightarrow> no_markup s \<and> no_markup t"
  by (auto simp: no_markup_def)

lemma no_markup_subset: "no_markup s \<Longrightarrow> set t \<subseteq> set s \<Longrightarrow> no_markup t"
  by (auto simp: no_markup_def)

lemma no_markup_escapeHtml: "no_markup (escapeHtml s)"
  by (auto simp: no_markup_def escapeHtml_def html_escape_def split: if_splits)

lemma set_split_join: "set (split_join fr to s) \<subseteq> set to \<union> set s"
proof (induction fr to s rule: split_join.induct)
  case (1 fr to s)
  show ?case
  proof (cases s)
    case Nil
    then show ?thesis by (subst split_join.simps) simp
  next
    case (Cons c cs)
    show ?thesis
    proof (cases "fr \<noteq> [] \<and> starts_with s fr")
      case True
      then have "set (split_join fr to (drop (length fr) s)) \<subseteq> set to \<union> set (drop (length fr) s)"
        using 1(1) Cons by simp
      then show ?thesis using True Cons set_drop_subset [of "length fr" s]
        by (subst split_join.simps) auto
    next
      case False
      then have "set (split_join fr to cs) \<subseteq> set to \<union> set cs" using 1(2) Cons by simp
      then show ?thesis using False Cons by (subst split_join.simps) auto
    qed
  qed
qed

lemma no_markup_code: "no_markup s \<longleftrightarrow> list_all (\<lambda>c. (of_char c :: nat) \<notin> {60, 62, 34, 39}) s"
proof -
  have "c = d \<longleftrightarrow> (of_char c :: nat) = of_char d" for c d :: char by simp
  from this [of _ "CHR ''<''"] this [of _ "CHR ''>''"] this [of _ "CHR 0x22"] this [of _ "CHR 0x27"]
  have "c \<notin> {CHR ''<'', CHR ''>'', CHR 0x22, CHR 0x27} \<longleftrightarrow> (of_char c :: nat) \<notin> {60, 62, 34, 39}" for c :: char
    by simp
  then show ?thesis by (simp only: no_markup_def list_all_iff disjoint_iff Ball_def)
qed

lemma emoticons_plain: "(fr, to) \<in> set EMOTICONS \<Longrightarrow> no_markup to"
proof -
  have "list_all no_markup (map snd EMOTICONS)"
    by (simp add: EMOTICONS_def utf8_def utf8_char_def no_markup_code)
  then show "(fr, to) \<in> set EMOTICONS \<Longrightarrow> no_markup to" by (force simp: list_all_iff)
qed

lemma no_markup_emote: "no_markup s \<Longrightarrow> no_markup (emote s)"
proof -
  have "no_markup (fold (\<lambda>(fr, to) t. split_join (escapeHtml fr) to t) es s)"
    if "no_markup s" "\<forall>(fr, to) \<in> set es. no_markup to" for es s
    using that
  proof (induction es arbitrary: s)
    case (Cons e es)
    obtain fr to where e: "e = (fr, to)" by (cases e)
    have "no_markup (split_join (escapeHtml fr) to s)"
      using Cons.prems set_split_join [of "escapeHtml fr" to s] e
      by (auto simp: no_markup_def)
    then show ?case using Cons.IH Cons.prems(2) by (simp add: e)
  qed simp
  moreover have "\<forall>(fr, to) \<in> set EMOTICONS. no_markup to" using emoticons_plain by auto
  ultimately show "no_markup s \<Longrightarrow> no_markup (emote s)" by (simp add: emote_def)
qed

lemma starts_with_split: "starts_with s p \<Longrightarrow> s = p @ drop (length p) s"
  by (metis append_take_drop_id starts_with_def)

lemma image_prefix_plain:
  assumes "image_prefix s = Some (p, r)" shows "s = p @ r" "no_markup p"
proof -
  obtain k where k: "find (\<lambda>k. starts_with s (''data:image/'' @ k @ '';base64,'')) IMAGE_KINDS = Some k"
      and p: "p = ''data:image/'' @ k @ '';base64,''" "r = drop (length p) s"
    using assms by (auto simp: image_prefix_def Let_def split: option.splits)
  from k have "k \<in> set IMAGE_KINDS" and s: "starts_with s p" by (auto simp: find_Some_iff p)
  moreover have "list_all no_markup IMAGE_KINDS" by (simp add: IMAGE_KINDS_def no_markup_code)
  moreover have "no_markup ''data:image/''" "no_markup '';base64,''" by (simp_all add: no_markup_code)
  ultimately show "no_markup p" unfolding p no_markup_append by (simp add: list_all_iff)
  show "s = p @ r" using starts_with_split [OF s] p(2) by simp
qed

lemma takeWhile_plain: "(\<And>c. P c \<Longrightarrow> (of_char c :: nat) \<notin> {60, 62, 34, 39}) \<Longrightarrow> no_markup (takeWhile P s)"
  by (auto simp: no_markup_code list_all_iff dest: set_takeWhileD)

lemma drop_prefix: "xs = p @ q \<Longrightarrow> drop (length p) xs = q"
  by simp

lemma match_data_url_plain:
  assumes "match_data_url s = Some (u, rest)"
  shows "s = u @ rest" "no_markup u"
proof -
  obtain p r where p: "image_prefix s = Some (p, r)"
    using assms by (auto simp: match_data_url_def split: option.splits)
  let ?body = "takeWhile is_b64_char r" and ?r1 = "dropWhile is_b64_char r"
  let ?pad = "take 2 (takeWhile (\<lambda>c. c = CHR ''='') ?r1)"
  have u: "u = p @ ?body @ ?pad" "rest = drop (length ?pad) ?r1"
    using assms by (auto simp: match_data_url_def p Let_def split: if_splits)
  have "?pad @ rest = ?r1"
  proof -
    let ?w = "takeWhile (\<lambda>c. c = CHR ''='') ?r1"
    have r1: "?r1 = ?pad @ drop 2 ?w @ dropWhile (\<lambda>c. c = CHR ''='') ?r1" by (simp flip: append_assoc)
    have "drop (length ?pad) ?r1 = drop 2 ?w @ dropWhile (\<lambda>c. c = CHR ''='') ?r1"
      by (rule drop_prefix [OF r1])
    then show ?thesis using r1 u(2) by simp
  qed
  then have "r = ?body @ ?pad @ rest" by simp
  then show "s = u @ rest" using image_prefix_plain [OF p] u(1) by simp
  have "no_markup ?body" by (rule takeWhile_plain) (auto simp: is_b64_char_def Let_def)
  moreover have "no_markup ?pad"
    by (rule no_markup_subset [OF takeWhile_plain [of "\<lambda>c. c = CHR ''=''" ?r1]]) (auto dest: in_set_takeD)
  ultimately show "no_markup u" using image_prefix_plain [OF p] by (simp add: u)
qed

lemma no_markup_image: "INLINE_IMG_RE u \<Longrightarrow> no_markup u"
proof -
  assume "INLINE_IMG_RE u"
  then obtain v where "match_data_url u = Some (v, [])"
    by (auto simp: INLINE_IMG_RE_def split: option.splits prod.splits)
  from match_data_url_plain [OF this] show "no_markup u" by simp
qed

section \<open>The scan keeps its output well nested\<close>

lemma nest_append: "nest (a @ b) st = Option.bind (nest a st) (nest b)"
  by (induction a st rule: nest.induct) (auto split: list.splits)

lemma nest_closes: "nest (map TClose xs @ ts) (xs @ st) = nest ts st"
  by (induction xs) simp_all

lemma nest_opens: "nest (map TOpen xs) st = Some (rev xs @ st)"
  by (induction xs arbitrary: st) simp_all

lemma tokens_html_append [simp]: "tokens_html (a @ b) = tokens_html a @ tokens_html b"
  by (simp add: tokens_html_def)

lemma tokens_html_simps [simp]:
  "tokens_html [] = []" "tokens_html (t # ts) = token_html t @ tokens_html ts"
  "tokens_html (map TOpen xs) = concat (map openTag xs)" "tokens_html (map TClose xs) = concat (map closeTag xs)"
  by (simp_all add: tokens_html_def comp_def)

definition written :: "bool \<Rightarrow> html_token list \<Rightarrow> rt_state \<Rightarrow> bool" where
  "written images ts s \<longleftrightarrow> rt_out s = tokens_html ts \<and> list_all token_ok ts \<and>
     nest ts [] = Some (rt_stack s) \<and> list_all allowed_format (rt_stack s) \<and>
     (images \<or> list_all (\<lambda>t. \<not> is_image_token t) ts)"

definition well_written :: "bool \<Rightarrow> rt_state \<Rightarrow> bool" where
  "well_written images s \<longleftrightarrow> (\<exists>ts. written images ts s)"

lemma well_written_start: "well_written images rt_start"
  unfolding well_written_def by (intro exI [of _ "[]"]) (simp add: written_def rt_start_def)

lemma well_written_push: "well_written images s \<Longrightarrow> well_written images (push_char c s)"
  by (simp add: well_written_def written_def push_char_def)

lemma well_written_append:
  assumes "well_written images s" and "list_all token_ok us"
    and "nest us (rt_stack s) = Some (rt_stack s')" "list_all allowed_format (rt_stack s')"
    and "images \<or> list_all (\<lambda>t. \<not> is_image_token t) us" and "rt_out s' = rt_out s @ tokens_html us"
  shows "well_written images s'"
proof -
  obtain ts where "written images ts s" using assms(1) by (auto simp: well_written_def)
  then have "written images (ts @ us) s'" using assms(2-6) by (auto simp: written_def nest_append)
  then show ?thesis by (auto simp: well_written_def)
qed

lemma rt_stack_flush [simp]: "rt_stack (rt_flush s) = rt_stack s"
  by (simp add: rt_flush_def)

lemma well_written_stack: "well_written images s \<Longrightarrow> list_all allowed_format (rt_stack s)"
  by (auto simp: well_written_def written_def)

lemma well_written_flush: "well_written images s \<Longrightarrow> well_written images (rt_flush s)"
  by (cases "rt_buf s = []")
    (auto simp: rt_flush_def no_markup_emote no_markup_escapeHtml is_image_token_def well_written_stack
      intro: well_written_append [of images s "[TText (emote (escapeHtml (rt_buf s)))]"])

lemma well_written_open:
  "well_written images s \<Longrightarrow> allowed_format x \<Longrightarrow> well_written images (openFmt x s)"
  by (rule well_written_append [OF well_written_flush, of images s "[TOpen x]"])
    (simp_all add: openFmt_def emit_html_def Let_def is_image_token_def well_written_stack well_written_flush)

lemma well_written_close:
  assumes "well_written images s" shows "well_written images (closeType t s)"
proof -
  let ?s = "rt_flush s" and ?a = "takeWhile (\<lambda>x. rt_type x \<noteq> t) (rt_stack (rt_flush s))"
  note w = well_written_flush [OF assms]
  show ?thesis
  proof (cases "dropWhile (\<lambda>x. rt_type x \<noteq> t) (rt_stack ?s)")
    case Nil
    then show ?thesis using w unfolding closeType_def Let_def by (simp only: list.case)
  next
    case (Cons m below)
    then have st: "rt_stack ?s = ?a @ m # below" by (metis takeWhile_dropWhile_id)
    have "list_all allowed_format (?a @ m # below)" using well_written_stack [OF w] st by metis
    then have ok: "list_all allowed_format ?a" "allowed_format m" "list_all allowed_format below" by simp_all
    show ?thesis
    proof (rule well_written_append [OF w, of "map TClose ?a @ [TClose m] @ map TOpen (rev ?a)"])
      show "nest (map TClose ?a @ [TClose m] @ map TOpen (rev ?a)) (rt_stack ?s) = Some (rt_stack (closeType t s))"
        using Cons by (subst st) (simp add: nest_closes nest_opens closeType_def Let_def)
    qed (use ok Cons in \<open>auto simp: closeType_def Let_def list_all_iff is_image_token_def\<close>)
  qed
qed

lemma palette_allowed:
  "allowed_format bold" "allowed_format italic" "allowed_format underline"
  "k \<in> set TEXT_KEYS \<Longrightarrow> allowed_format (text_color k)" "k \<in> set HL_KEYS \<Longrightarrow> allowed_format (highlight k)"
  "k \<in> set FONT_KEYS \<Longrightarrow> allowed_format (text_font k)"
  by (simp_all add: allowed_format_def)

lemma hex_color_allowed: "match_hex_color r = Some (h, n) \<Longrightarrow> allowed_format (hex_color h)"
  by (auto simp: match_hex_color_def allowed_format_def Let_def list_all_iff split: option.splits if_splits
      dest: set_takeWhileD)

lemma size_allowed: "match_size r = Some (g, n) \<Longrightarrow> allowed_format (text_size g)"
proof -
  assume "match_size r = Some (g, n)"
  then obtain c where c: "find (\<lambda>g. starts_with r (''[z:'' @ [g] @ '']'')) ''sl1234567'' = Some c"
      "g = (if c = CHR ''s'' then ''2'' else if c = CHR ''l'' then ''5'' else [c])"
    by (auto simp: match_size_def split: option.splits)
  from c(1) have "c \<in> set ''sl1234567''" by (metis find_Some_iff nth_mem)
  then have "g \<in> {[c] | c. c \<in> set ''1234567''}" unfolding c(2) by auto
  then show "allowed_format (text_size g)" unfolding allowed_format_def by blast
qed

lemma well_written_image:
  assumes "well_written True s" "INLINE_IMG_RE u"
  shows "well_written True (emit_html (if inlineImageAllowed u then image_html u else blocked_html) (rt_flush s))"
  by (rule well_written_append [OF well_written_flush [OF assms(1)],
        of "[if inlineImageAllowed u then TImage u else TBlocked]"])
    (simp_all add: emit_html_def no_markup_image assms well_written_stack [OF assms(1)])

lemma well_written_bracket:
  "bracket images r s = Some (n, s') \<Longrightarrow> well_written images s \<Longrightarrow> well_written images s'"
  by (erule bracket_cases)
    (auto simp: palette_allowed hex_color_allowed size_allowed well_written_image
      intro!: well_written_open well_written_close)

lemma well_written_step: "well_written images s \<Longrightarrow> well_written images (snd (rt_step images text s))"
  by (auto simp: rt_step_def rt_toggle_def palette_allowed well_written_push split: list.splits option.splits
      intro: well_written_open well_written_close well_written_bracket)

lemma well_written_scan: "well_written images s \<Longrightarrow> well_written images (rt_scan images msg s)"
proof (induction images msg s rule: rt_scan.induct)
  case (1 images msg s)
  then show ?case by (subst rt_scan.simps) (simp add: well_written_step)
qed

text \<open>
  C38. No message can inject markup. Whatever the text, the renderer's output is a sequence of tokens of
  which the texts contain no angle bracket and no quote, the tags are those of the palettes (a legacy
  color is three or six hexadecimal digits), every tag is closed by its own closing tag in the right
  order, and an image appears only where images are allowed, with a base64 raster data-URL within the
  receive caps.
\<close>

theorem rendered_messages_stay_within_the_grammar:
  "\<exists>ts. formatMessageText images text = tokens_html ts \<and> list_all token_ok ts \<and> nest ts [] = Some []
      \<and> (if images then True else filter is_image_token ts = [])"
proof -
  let ?s = "rt_flush (rt_scan images text rt_start)"
  obtain ts where w: "written images ts ?s"
    using well_written_flush [OF well_written_scan [OF well_written_start]] by (auto simp: well_written_def)
  let ?ts = "ts @ map TClose (rt_stack ?s)"
  have "nest ?ts [] = Some []"
    using w nest_closes [of "rt_stack ?s" "[]" "[]"] by (simp add: written_def nest_append)
  then have "formatMessageText images text = tokens_html ?ts \<and> list_all token_ok ?ts \<and> nest ?ts [] = Some []
      \<and> (if images then True else filter is_image_token ?ts = [])"
    using w by (auto simp: written_def formatMessageText_def Let_def list_all_iff is_image_token_def filter_empty_conv)
  then show ?thesis by blast
qed

end
