(* ===== verification/RichTextRoundtrip.thy ===== *)
theory RichTextRoundtrip
  imports RichTextProps
begin

text \<open>
  Round trips through the markers: text escaped by \<open>escMarker\<close> is rendered as that text, a message look
  wraps it in its formats, and what the editor shows is what a reader of the serialized markers sees.
\<close>

section \<open>Scanning what was written\<close>

definition push_text :: "string \<Rightarrow> rt_state \<Rightarrow> rt_state" where
  "push_text t s = s\<lparr>rt_buf := rt_buf s @ t\<rparr>"

lemma push_text_simps [simp]:
  "push_text [] s = s" "push_char c s = push_text [c] s" "push_text b (push_text a s) = push_text (a @ b) s"
  "rt_stack (push_text a s) = rt_stack s" "rt_out (push_text a s) = rt_out s" "rt_buf (push_text a s) = rt_buf s @ a"
  by (simp_all add: push_text_def push_char_def)

lemma scan_plain: "\<not> is_marker c \<Longrightarrow> rt_scan images (c # cs) s = rt_scan images cs (push_text [c] s)"
  by (subst rt_scan.simps) (auto simp: rt_step_def is_marker_def)

lemma scan_escaped: "rt_scan images (BACKSLASH # c # cs) s = rt_scan images cs (push_text [c] s)"
  by (subst rt_scan.simps) (auto simp: rt_step_def)

lemma scan_escMarker: "rt_scan images (escMarker t @ rest) s = rt_scan images rest (push_text t s)"
  by (induction t arbitrary: s) (auto simp: escMarker_def scan_plain scan_escaped)

lemma scan_star:
  "rt_scan images (CHR ''*'' # rest) s = rt_scan images rest (rt_toggle bold s)"
  "rt_scan images (CHR ''_'' # rest) s = rt_scan images rest (rt_toggle italic s)"
  by (subst rt_scan.simps, simp add: rt_step_def BACKSLASH_def)+

lemma scan_bracket:
  "bracket images (CHR ''['' # cs) s = Some (n, s') \<Longrightarrow>
     rt_scan images (CHR ''['' # cs) s = rt_scan images (drop n (CHR ''['' # cs)) s'"
  by (subst rt_scan.simps) (simp add: rt_step_def BACKSLASH_def)

lemma starts_with_simps [simp]:
  "starts_with s []" "starts_with [] (c # p) \<longleftrightarrow> False"
  "starts_with (d # s) (c # p) \<longleftrightarrow> c = d \<and> starts_with s p"
  by (auto simp: starts_with_def)

lemma first_some_simps: "first_some (None # xs) = first_some xs" "first_some (Some x # xs) = Some x"
  by simp_all

lemma guarded_simps: "guarded False x = None" "guarded True x = x"
  by (simp_all add: guarded_def)

lemma is_lower_facts: "is_lower c \<Longrightarrow> c \<noteq> CHR '']'' \<and> c \<noteq> CHR ''/''"
  by (auto simp: is_lower_def)

lemma takeWhile_run: "list_all P k \<Longrightarrow> \<not> P c \<Longrightarrow> takeWhile P (k @ c # rest) = k"
  by (induction k) simp_all

lemma drop_marker [simp]:
  "drop (length k + 4) (a # b # c # k @ d # rest) = rest"
  "drop (3 + length k) (a # b # c # k @ rest) = rest"
  by (simp_all add: eval_nat_numeral)

lemma match_key_written:
  assumes "list_all is_lower k" "lo \<le> length k" "length k \<le> hi"
  shows "match_key t lo hi (CHR ''['' # t # CHR '':'' # k @ CHR '']'' # rest) = Some (k, length k + 4)"
  using assms by (simp add: match_key_def takeWhile_run is_lower_def Let_def)

lemma match_key_other: "t' \<noteq> t \<Longrightarrow> match_key t lo hi (CHR ''['' # t' # cs) = None"
  by (simp add: match_key_def)

lemma match_close_other: "c \<noteq> CHR ''/'' \<Longrightarrow> match_close (CHR ''['' # c # cs) = None"
  by (simp add: match_close_def find_None_iff)

lemma no_image: "c \<noteq> CHR ''i'' \<Longrightarrow> image_marker (CHR ''['' # c # cs) s = None"
  by (simp add: image_marker_def match_image_def)

lemma no_hex: "c \<noteq> CHR ''#'' \<Longrightarrow> d \<noteq> CHR ''#'' \<Longrightarrow> match_hex_color (CHR ''['' # c # d # cs) = None"
  by (simp add: match_hex_color_def)

lemma no_size: "c \<noteq> CHR ''z'' \<Longrightarrow> match_size (CHR ''['' # c # cs) = None"
  by (simp add: match_size_def find_None_iff)

lemma no_image_guard [simp]: "c \<noteq> CHR ''i'' \<Longrightarrow> guarded images (image_marker (CHR ''['' # c # cs) s) = None"
  by (simp add: no_image guarded_def)

lemmas marker_others = match_key_other match_close_other no_hex no_size first_some_simps guarded_simps

lemma palette_keys:
  "k \<in> set TEXT_KEYS \<Longrightarrow> list_all is_lower k \<and> length k = 2"
  "k \<in> set HL_KEYS \<Longrightarrow> list_all is_lower k \<and> 1 \<le> length k \<and> length k \<le> 2"
  "k \<in> set FONT_KEYS \<Longrightarrow> list_all is_lower k \<and> 1 \<le> length k \<and> length k \<le> 2"
proof -
  have "list_all (\<lambda>k. list_all is_lower k \<and> length k = 2) TEXT_KEYS"
    by (simp add: TEXT_KEYS_def RT_TEXT_COLORS_def is_lower_def)
  moreover have "list_all (\<lambda>k. list_all is_lower k \<and> 1 \<le> length k \<and> length k \<le> 2) HL_KEYS"
    by (simp add: HL_KEYS_def RT_HL_COLORS_def LEGACY_HL_KEYS_def RT_TEXT_COLORS_def is_lower_def)
  moreover have "list_all (\<lambda>k. list_all is_lower k \<and> 1 \<le> length k \<and> length k \<le> 2) FONT_KEYS"
    by (simp add: FONT_KEYS_def RT_FONTS_def is_lower_def)
  ultimately show "k \<in> set TEXT_KEYS \<Longrightarrow> list_all is_lower k \<and> length k = 2"
    "k \<in> set HL_KEYS \<Longrightarrow> list_all is_lower k \<and> 1 \<le> length k \<and> length k \<le> 2"
    "k \<in> set FONT_KEYS \<Longrightarrow> list_all is_lower k \<and> 1 \<le> length k \<and> length k \<le> 2"
    by (simp_all add: list_all_iff)
qed

lemma scan_underline:
  "rt_scan images (''[u]'' @ rest) s = rt_scan images rest (openFmt underline s)"
  by (simp add: scan_bracket [where n = 3] bracket_def close_marker_def marker_others)

lemma scan_color:
  "k \<in> set TEXT_KEYS \<Longrightarrow>
     rt_scan images (CHR ''['' # CHR ''c'' # CHR '':'' # k @ CHR '']'' # rest) s = rt_scan images rest (openFmt (text_color k) s)"
  using palette_keys(1) [of k]
  by (subst scan_bracket [where n = "length k + 4"])
    (simp_all add: bracket_def close_marker_def open_marker_def marker_others match_key_written)

lemma scan_highlight:
  "k \<in> set HL_KEYS \<Longrightarrow>
     rt_scan images (CHR ''['' # CHR ''h'' # CHR '':'' # k @ CHR '']'' # rest) s = rt_scan images rest (openFmt (highlight k) s)"
  using palette_keys(2) [of k]
  by (subst scan_bracket [where n = "length k + 4"])
    (simp_all add: bracket_def close_marker_def open_marker_def marker_others match_key_written)

lemma scan_font:
  "k \<in> set FONT_KEYS \<Longrightarrow>
     rt_scan images (CHR ''['' # CHR ''f'' # CHR '':'' # k @ CHR '']'' # rest) s = rt_scan images rest (openFmt (text_font k) s)"
  using palette_keys(3) [of k]
  by (subst scan_bracket [where n = "length k + 4"])
    (simp_all add: bracket_def close_marker_def open_marker_def marker_others match_key_written)

lemma scan_hex:
  assumes "list_all is_hex h" "length h = 3 \<or> length h = 6"
  shows "rt_scan images (''[c#'' @ h @ CHR '']'' # rest) s = rt_scan images rest (openFmt (hex_color h) s)"
proof -
  have "match_hex_color (''[c#'' @ h @ CHR '']'' # rest) = Some (h, length h + 4)"
    using assms by (auto simp: match_hex_color_def takeWhile_run is_hex_def hex_value_def Let_def)
  then show ?thesis
    by (subst append_Cons, subst scan_bracket [where n = "length h + 4"])
      (simp_all add: bracket_def close_marker_def open_marker_def marker_others match_key_def)
qed

lemma scan_size:
  assumes "g \<in> set ''1234567''"
  shows "rt_scan images (''[z:'' @ g # CHR '']'' # rest) s = rt_scan images rest (openFmt (text_size [g]) s)"
proof -
  have "match_size (''[z:'' @ g # CHR '']'' # rest) = Some ([g], 5)"
    using assms by (auto simp: match_size_def)
  then show ?thesis
    by (subst append_Cons, subst scan_bracket [where n = 5])
      (simp_all add: bracket_def close_marker_def open_marker_def marker_others)
qed

lemma scan_close:
  assumes "t \<in> set ''uchzf''" "is_open t s"
  shows "rt_scan images (CHR ''['' # CHR ''/'' # t # CHR '']'' # rest) s = rt_scan images rest (closeType t s)"
proof -
  have "match_close (CHR ''['' # CHR ''/'' # t # CHR '']'' # rest) = Some t"
    using assms(1) by (auto simp: match_close_def)
  then show ?thesis using assms(2)
    by (subst scan_bracket [where n = 4]) (simp_all add: bracket_def close_marker_def marker_others)
qed


section \<open>Text and message looks\<close>

text \<open>The format a reader sees for a stored look, the outermost first.\<close>

definition look_format :: "string option \<Rightarrow> (string \<Rightarrow> bool) \<Rightarrow> (string \<Rightarrow> rt_open) \<Rightarrow> rt_open list" where
  "look_format v ok mk = (case v of Some k \<Rightarrow> if ok k then [mk k] else [] | None \<Rightarrow> [])"

definition look_size_format :: "string \<Rightarrow> rt_open" where
  "look_size_format k = text_size (if k = ''s'' then ''2'' else ''5'')"

definition look_formats :: "message_look \<Rightarrow> rt_open list" where
  "look_formats l =
     look_format (ml_font l) (\<lambda>k. k \<in> set FONT_KEYS) text_font
     @ look_format (ml_color l) (\<lambda>k. k \<in> set TEXT_KEYS) text_color
     @ look_format (ml_hl l) (\<lambda>k. k \<in> set HL_KEYS) highlight
     @ look_format (ml_size l) is_look_size look_size_format"

definition close_fmt :: "rt_open \<Rightarrow> rt_state \<Rightarrow> rt_state" where
  "close_fmt x s = (let s1 = rt_flush s in s1\<lparr>rt_out := rt_out s1 @ closeTag x, rt_stack := tl (rt_stack s1)\<rparr>)"

lemma rt_flush_stack [simp]: "rt_stack (rt_flush s) = rt_stack s"
  by (simp add: rt_flush_def)

lemma openFmt_stack [simp]: "rt_stack (openFmt x s) = x # rt_stack s"
  by (simp add: openFmt_def Let_def emit_html_def)

lemma close_fmt_stack [simp]: "rt_stack (close_fmt x s) = tl (rt_stack s)"
  by (simp add: close_fmt_def Let_def)

lemma closeType_top: "rt_stack s = x # xs \<Longrightarrow> closeType (rt_type x) s = close_fmt x s"
  by (simp add: closeType_def close_fmt_def Let_def)

lemma scan_close_top:
  assumes "rt_type x \<in> set ''uchzf''" "rt_stack s = x # xs"
  shows "rt_scan images (CHR ''['' # CHR ''/'' # rt_type x # CHR '']'' # rest) s = rt_scan images rest (close_fmt x s)"
  using assms by (simp add: scan_close is_open_def closeType_top)

lemma rt_types [simp]:
  "rt_type bold = CHR ''b''" "rt_type italic = CHR ''i''" "rt_type underline = CHR ''u''"
  "rt_type (text_color k) = CHR ''c''" "rt_type (hex_color k) = CHR ''c''" "rt_type (highlight k) = CHR ''h''"
  "rt_type (text_size k) = CHR ''z''" "rt_type (text_font k) = CHR ''f''" "rt_type (look_size_format k) = CHR ''z''"
  by (simp_all add: bold_def italic_def underline_def text_color_def hex_color_def highlight_def text_size_def
      text_font_def look_size_format_def)

text \<open>A pair of markers opens and closes one format.\<close>

definition marks :: "string \<Rightarrow> string \<Rightarrow> rt_open \<Rightarrow> bool" where
  "marks opening closing x \<longleftrightarrow>
     (\<forall>images rest s. rt_scan images (opening @ rest) s = rt_scan images rest (openFmt x s)) \<and>
     (\<forall>images rest s xs. rt_stack s = x # xs \<longrightarrow> rt_scan images (closing @ rest) s = rt_scan images rest (close_fmt x s))"

lemma scan_look_size:
  assumes "is_look_size k"
  shows "rt_scan images (''[z:'' @ k @ CHR '']'' # rest) s = rt_scan images rest (openFmt (look_size_format k) s)"
proof -
  have k: "k = ''s'' \<or> k = ''l''" using assms by (simp add: is_look_size_def)
  then have "match_size (''[z:'' @ k @ CHR '']'' # rest) = Some (if k = ''s'' then ''2'' else ''5'', 5)"
    by (auto simp: match_size_def)
  with k show ?thesis
    by (subst append_Cons, subst scan_bracket [where n = 5])
      (auto simp: bracket_def close_marker_def open_marker_def marker_others look_size_format_def)
qed

lemma marks_look:
  "k \<in> set FONT_KEYS \<Longrightarrow> marks ([CHR ''['', CHR ''f'', CHR '':''] @ k @ '']'') ''[/f]'' (text_font k)"
  "k \<in> set TEXT_KEYS \<Longrightarrow> marks ([CHR ''['', CHR ''c'', CHR '':''] @ k @ '']'') ''[/c]'' (text_color k)"
  "k \<in> set HL_KEYS \<Longrightarrow> marks ([CHR ''['', CHR ''h'', CHR '':''] @ k @ '']'') ''[/h]'' (highlight k)"
  "is_look_size k \<Longrightarrow> marks ([CHR ''['', CHR ''z'', CHR '':''] @ k @ '']'') ''[/z]'' (look_size_format k)"
  using scan_close_top [of "text_font k"] scan_close_top [of "text_color k"] scan_close_top [of "highlight k"]
    scan_close_top [of "look_size_format k"]
  by (simp_all add: marks_def scan_font scan_color scan_highlight scan_look_size [simplified])

lemma look_part_marks:
  assumes "\<And>k. ok k \<Longrightarrow> marks ([CHR ''['', t, CHR '':''] @ k @ '']'') [CHR ''['', CHR ''/'', t, CHR '']''] (mk k)"
  shows "list_all2 (\<lambda>(a, b) x. marks a b x) (look_part v ok t) (look_format v ok mk)"
  using assms by (auto simp: look_part_def look_format_def split: option.splits)

lemma look_parts_mark: "list_all2 (\<lambda>(a, b) x. marks a b x) (messageLookParts l) (look_formats l)"
  unfolding messageLookParts_def look_formats_def
  by (intro list_all2_appendI look_part_marks) (simp_all only: marks_look)

definition open_all :: "rt_open list \<Rightarrow> rt_state \<Rightarrow> rt_state" where
  "open_all xs s = fold openFmt xs s"

definition close_all :: "rt_open list \<Rightarrow> rt_state \<Rightarrow> rt_state" where
  "close_all xs s = foldr close_fmt xs s"

lemma open_all_stack: "rt_stack (open_all xs s) = List.rev xs @ rt_stack s"
  by (induction xs arbitrary: s) (simp_all add: open_all_def)

lemma scan_marks:
  assumes "list_all2 (\<lambda>(a, b) x. marks a b x) ps xs"
  shows "rt_scan images (concat (map fst ps) @ rest) s = rt_scan images rest (open_all xs s)"
    and "rt_stack s = List.rev xs @ ys \<Longrightarrow>
      rt_scan images (concat (map snd (List.rev ps)) @ rest) s = rt_scan images rest (close_all xs s) \<and> rt_stack (close_all xs s) = ys"
  using assms
proof (induction arbitrary: s rest ys rule: list_all2_induct)
  case Nil
  { case 1 then show ?case by (simp add: open_all_def) }
  { case 2 then show ?case by (simp add: close_all_def) }
next
  case (Cons p ps x xs)
  { case 1 then show ?case using Cons by (simp add: open_all_def marks_def case_prod_unfold) }
  { case 2
    then have "rt_stack s = List.rev xs @ (x # ys)" by simp
    from Cons.IH(2) [OF this] Cons.hyps(1) show ?case by (simp add: close_all_def marks_def case_prod_unfold) }
qed


lemma flush_text: "rt_flush (push_text t s) = (if t = [] \<and> rt_buf s = [] then s
    else s\<lparr>rt_out := rt_out s @ emote (escapeHtml (rt_buf s @ t)), rt_buf := []\<rparr>)"
  by (simp add: rt_flush_def push_text_def)

lemma emote_Nil [simp]: "emote [] = []"
proof -
  have "split_join fr to [] = []" for fr to by (subst split_join.simps) simp
  then have "fold (\<lambda>(fr, to) t. split_join (escapeHtml fr) to t) xs [] = []" for xs
    by (induction xs) (simp_all add: case_prod_unfold)
  then show ?thesis by (simp add: emote_def)
qed

lemma escapeHtml_Nil [simp]: "escapeHtml [] = []"
  by (simp add: escapeHtml_def)

lemma scan_end [simp]: "rt_scan images [] s = s"
  by (subst rt_scan.simps) simp

lemma open_all_clean: "rt_buf s = [] \<Longrightarrow>
    open_all xs s = s\<lparr>rt_out := rt_out s @ concat (map openTag xs), rt_stack := List.rev xs @ rt_stack s\<rparr>"
  by (induction xs arbitrary: s) (simp_all add: open_all_def openFmt_def emit_html_def rt_flush_def)

lemma close_all_clean: "rt_buf s = [] \<Longrightarrow> rt_stack s = List.rev xs @ ys \<Longrightarrow>
    close_all xs s = s\<lparr>rt_out := rt_out s @ concat (map closeTag (List.rev xs)), rt_stack := ys\<rparr>"
proof (induction xs arbitrary: ys)
  case (Cons x xs)
  then have "rt_stack s = List.rev xs @ (x # ys)" by simp
  from Cons.IH [OF Cons.prems(1) this] have
    "close_all xs s = s\<lparr>rt_out := rt_out s @ concat (map closeTag (List.rev xs)), rt_stack := x # ys\<rparr>" .
  then show ?case using Cons.prems(1) by (simp add: close_all_def close_fmt_def rt_flush_def Let_def)
qed (simp add: close_all_def)

lemma close_all_flush: "rt_flush (close_all xs s) = close_all xs (rt_flush s)"
proof (induction xs)
  case (Cons x xs)
  have "rt_flush (close_fmt x a) = close_fmt x (rt_flush a)" for a
    by (simp add: close_fmt_def rt_flush_def Let_def)
  with Cons show ?case by (simp add: close_all_def)
qed (simp add: close_all_def)

lemma shown_look:
  "formatMessageText images (wrapMessageLook (Some l) (escMarker t))
   = concat (map openTag (look_formats l)) @ emote (escapeHtml t) @ concat (map closeTag (List.rev (look_formats l)))"
proof -
  let ?xs = "look_formats l" let ?ps = "messageLookParts l"
  let ?s = "push_text t (open_all ?xs rt_start)"
  have w: "wrapMessageLook (Some l) (escMarker t) = concat (map fst ?ps) @ escMarker t @ concat (map snd (List.rev ?ps)) @ []"
    by (simp add: wrapMessageLook_def Let_def)
  have st: "rt_stack ?s = List.rev ?xs @ []" by (simp add: open_all_stack rt_start_def)
  have "rt_scan images (wrapMessageLook (Some l) (escMarker t)) rt_start = close_all ?xs ?s"
    unfolding w scan_marks(1) [OF look_parts_mark] scan_escMarker
    using scan_marks(2) [OF look_parts_mark st, of images "[]"] by simp
  moreover have "rt_flush ?s = (open_all ?xs rt_start)\<lparr>rt_out := rt_out (open_all ?xs rt_start) @ emote (escapeHtml t)\<rparr>"
    by (cases "t = []") (simp_all add: flush_text open_all_clean rt_start_def rt_flush_def)
  ultimately show ?thesis
    by (simp add: formatMessageText_def Let_def close_all_flush open_all_clean rt_start_def close_all_clean [where ys = "[]"])
qed

lemma shown_text: "formatMessageText images (escMarker t) = emote (escapeHtml t)"
  using scan_escMarker [of images t "[]" rt_start]
  by (simp add: formatMessageText_def Let_def rt_flush_def rt_start_def push_text_def)


section \<open>The editor\<close>

text \<open>The format an element stands for, and the markers around its content.\<close>

definition font_format :: "(string \<times> string) list \<Rightarrow> (string \<times> string \<times> rt_open) option" where
  "font_format attrs =
     (case attr_of attrs ''size'' of
        Some v \<Rightarrow>
          (case parseInt10 v of
             Some n \<Rightarrow>
               if 1 \<le> n \<and> n \<le> 7 \<and> n \<noteq> 4
               then Some (''[z:'' @ decimal (nat n) @ '']'', ''[/z]'', text_size (decimal (nat n))) else None
           | None \<Rightarrow> None)
      | None \<Rightarrow>
          (case attr_of attrs ''color'' of
             Some c \<Rightarrow> map_option (\<lambda>h. (''[c#'' @ h @ '']'', ''[/c]'', hex_color h)) (colorToHex c)
           | None \<Rightarrow> None))"

definition key_format :: "char \<Rightarrow> (string \<Rightarrow> rt_open) \<Rightarrow> string \<Rightarrow> string \<times> string \<times> rt_open" where
  "key_format t mk k = ([CHR ''['', t, CHR '':''] @ k @ '']'', [CHR ''['', CHR ''/'', t, CHR '']''], mk k)"

definition span_format :: "(string \<times> string) list \<Rightarrow> (string \<times> string \<times> rt_open) option" where
  "span_format attrs =
     (let cls = classList attrs in
      first_some
        [map_option (key_format (CHR ''c'') text_color) (in_keys (class_key ''dd-c-'' cls) TEXT_KEYS),
         map_option (key_format (CHR ''h'') highlight) (in_keys (class_key ''dd-hl-'' cls) HL_KEYS),
         map_option (key_format (CHR ''f'') text_font) (in_keys (class_key ''dd-ft-'' cls) FONT_KEYS)])"

definition elem_format :: "string \<Rightarrow> (string \<times> string) list \<Rightarrow> (string \<times> string \<times> rt_open) option" where
  "elem_format tag attrs =
     (if tag = ''b'' \<or> tag = ''strong'' then Some (''*'', ''*'', bold)
      else if tag = ''i'' \<or> tag = ''em'' then Some (''_'', ''_'', italic)
      else if tag = ''u'' then Some (''[u]'', ''[/u]'', underline)
      else if tag = ''font'' then font_format attrs
      else if tag = ''span'' then span_format attrs
      else None)"

definition is_block :: "string \<Rightarrow> bool" where
  "is_block tag \<longleftrightarrow> tag = ''div'' \<or> tag = ''p''"

lemma elem_markers_format:
  "elem_markers tag attrs inner out =
     (case elem_format tag attrs of
        Some (a, b, x) \<Rightarrow> if inner = [] then [] else a @ inner @ b
      | None \<Rightarrow> (if is_block tag \<and> out \<noteq> [] \<and> \<not> ends_with_newline out then [CHR 0x0A] else []) @ inner)"
  by (auto simp: elem_markers_def elem_format_def font_markers_def font_format_def span_markers_def span_format_def
      key_format_def marked_def is_block_def Let_def split: option.split)


text \<open>
  What the editor shows: each element opens its format, shows its children inside and closes it; a line
  element starts a new line unless it stands at the start of one; an element with nothing in it shows nothing.
\<close>

fun show_node :: "dom \<Rightarrow> string \<Rightarrow> rt_state \<Rightarrow> rt_state"
  and show_nodes :: "dom list \<Rightarrow> string \<Rightarrow> rt_state \<Rightarrow> rt_state" where
  "show_node (DText t) out s = push_text (split_join ZWSP [] t) s"
| "show_node DOther out s = s"
| "show_node (DElem tag attrs children) out s =
     (if tag = ''br'' then push_text [CHR 0x0A] s
      else if tag = ''img'' then s
      else case elem_format tag attrs of
          Some (a, b, x) \<Rightarrow>
            if serializeRichText children [] = [] then s else close_fmt x (show_nodes children [] (openFmt x s))
        | None \<Rightarrow>
            show_nodes children []
              (if is_block tag \<and> out \<noteq> [] \<and> \<not> ends_with_newline out then push_text [CHR 0x0A] s else s))"
| "show_nodes [] out s = s"
| "show_nodes (n # ns) out s = show_nodes ns (serializeNode n out) (show_node n out s)"

text \<open>
  Bold and italic have one marker each for opening and closing, so they cannot be nested in themselves;
  a picture is written by its own marker.
\<close>

fun editor_ok :: "rt_open list \<Rightarrow> dom \<Rightarrow> bool"
  and editors_ok :: "rt_open list \<Rightarrow> dom list \<Rightarrow> bool" where
  "editor_ok ctx (DText t) = True"
| "editor_ok ctx DOther = True"
| "editor_ok ctx (DElem tag attrs children) =
     (if tag = ''br'' then True
      else if tag = ''img'' then image_markers attrs = []
      else case elem_format tag attrs of
          Some (a, b, x) \<Rightarrow>
            (rt_type x = CHR ''b'' \<or> rt_type x = CHR ''i'' \<longrightarrow> rt_type x \<notin> rt_type ` set ctx) \<and> editors_ok (x # ctx) children
        | None \<Rightarrow> editors_ok ctx children)"
| "editors_ok ctx [] = True"
| "editors_ok ctx (n # ns) = (editor_ok ctx n \<and> editors_ok ctx ns)"

lemma scan_toggle:
  "CHR ''b'' \<notin> rt_type ` set (rt_stack s) \<Longrightarrow> rt_scan images (''*'' @ rest) s = rt_scan images rest (openFmt bold s)"
  "CHR ''i'' \<notin> rt_type ` set (rt_stack s) \<Longrightarrow> rt_scan images (''_'' @ rest) s = rt_scan images rest (openFmt italic s)"
  "rt_stack s = bold # xs \<Longrightarrow> rt_scan images (''*'' @ rest) s = rt_scan images rest (close_fmt bold s)"
  "rt_stack s = italic # xs \<Longrightarrow> rt_scan images (''_'' @ rest) s = rt_scan images rest (close_fmt italic s)"
  using closeType_top [of s bold xs] closeType_top [of s italic xs]
  by (auto simp: scan_star rt_toggle_def is_open_def image_iff)

lemma digit_chars [simp]:
  "(char_of (49 :: nat) :: char) = CHR ''1''" "(char_of (50 :: nat) :: char) = CHR ''2''" "(char_of (51 :: nat) :: char) = CHR ''3''"
  "(char_of (52 :: nat) :: char) = CHR ''4''" "(char_of (53 :: nat) :: char) = CHR ''5''" "(char_of (54 :: nat) :: char) = CHR ''6''"
  "(char_of (55 :: nat) :: char) = CHR ''7''"
  by (simp_all add: char_of_def bit_0)

lemma digit_facts:
  assumes "1 \<le> n" "n \<le> 7"
  shows "\<exists>g \<in> set ''1234567''. decimal (nat n) = [g]"
proof -
  have "n \<in> {1, 2, 3, 4, 5, 6, 7}" using assms by auto
  then show ?thesis by (elim insertE; simp add: decimal.simps)
qed

lemma is_hex_digits: "list_all is_hex (hex_byte b)"
proof -
  have "list_all is_hex hex_digits" by (simp add: hex_digits_def is_hex_def hex_value_def)
  moreover have "unat b div 16 < length hex_digits" "unat b mod 16 < length hex_digits"
    using unsigned_less [where ?'a = nat and ?'b = 8, of b] by (simp_all add: hex_digits_def)
  ultimately show ?thesis by (simp add: hex_byte_def list_all_iff)
qed

lemma rgb_parts_length: "rgb_parts es s = Some ns \<Longrightarrow> length ns = length es"
  by (induction es arbitrary: s ns) (auto simp: Let_def split: if_splits)

lemma hex2_facts: "list_all is_hex (concat (map hex2 ns))" "length (concat (map hex2 ns)) = 2 * length ns"
  by (induction ns) (simp_all add: hex2_def is_hex_digits, simp_all add: hex_byte_def)

lemma colorToHex_facts: "colorToHex c = Some h \<Longrightarrow> list_all is_hex h \<and> (length h = 3 \<or> length h = 6)"
  by (auto simp: colorToHex_def Let_def hex2_facts simp del: rgb_parts.simps concat.simps dest!: rgb_parts_length split: if_splits)

lemma class_formats:
  "in_keys k keys = Some y \<Longrightarrow> y \<in> set keys"
  by (auto simp: in_keys_def split: option.splits if_splits)

lemma marks_font: "font_format attrs = Some (a, b, x) \<Longrightarrow> marks a b x"
proof -
  assume "font_format attrs = Some (a, b, x)"
  then consider (sz) n :: int where "1 \<le> n" "n \<le> 7" "a = ''[z:'' @ decimal (nat n) @ '']''" "b = ''[/z]''" "x = text_size (decimal (nat n))"
    | (hex) c h where "colorToHex c = Some h" "a = ''[c#'' @ h @ '']''" "b = ''[/c]''" "x = hex_color h"
    by (auto simp: font_format_def split: option.splits if_splits)
  then show ?thesis
  proof cases
    case sz
    obtain g where g: "g \<in> set ''1234567''" "decimal (nat n) = [g]" using digit_facts [OF sz(1,2)] by blast
    show ?thesis using scan_size [OF g(1)] scan_close_top [of "text_size [g]"] by (simp add: marks_def sz(3-5) g(2))
  next
    case hex
    show ?thesis using scan_hex [of h] colorToHex_facts [OF hex(1)] scan_close_top [of "hex_color h"] by (simp add: marks_def hex(2-4))
  qed
qed

lemma marks_span: "span_format attrs = Some (a, b, x) \<Longrightarrow> marks a b x"
proof -
  assume "span_format attrs = Some (a, b, x)"
  from first_some_in [OF this [unfolded span_format_def Let_def]] show ?thesis
    by (auto simp: key_format_def dest!: sym [of "Some _"] class_formats
        intro: marks_look [unfolded append_Cons append_Nil])
qed

lemma marks_underline: "marks ''[u]'' ''[/u]'' underline"
  using scan_close_top [of underline] by (simp add: marks_def scan_underline [simplified])

lemma scan_elem:
  assumes "elem_format tag attrs = Some (a, b, x)" "rt_type x = CHR ''b'' \<or> rt_type x = CHR ''i'' \<longrightarrow> rt_type x \<notin> rt_type ` set (rt_stack s)"
  shows "rt_scan images (a @ rest) s = rt_scan images rest (openFmt x s)"
    and "rt_stack s' = x # xs \<Longrightarrow> rt_scan images (b @ rest) s' = rt_scan images rest (close_fmt x s')"
proof -
  consider "a = ''*''" "b = ''*''" "x = bold" | "a = ''_''" "b = ''_''" "x = italic" | "marks a b x"
  proof -
    note f = assms(1) [unfolded elem_format_def]
    show thesis
    proof (cases "tag = ''b'' \<or> tag = ''strong'' \<or> tag = ''i'' \<or> tag = ''em'' \<or> tag = ''u''")
      case True with f show ?thesis using that marks_underline by (fastforce split: if_splits)
    next
      case False with f have "font_format attrs = Some (a, b, x) \<or> span_format attrs = Some (a, b, x)"
        by (simp split: if_splits)
      then show ?thesis using that(3) marks_font marks_span by blast
    qed
  qed
  then show "rt_scan images (a @ rest) s = rt_scan images rest (openFmt x s)"
    and "rt_stack s' = x # xs \<Longrightarrow> rt_scan images (b @ rest) s' = rt_scan images rest (close_fmt x s')"
    using assms(2) by (cases; simp add: scan_toggle [simplified] marks_def)+
qed

lemma scan_shown:
  "editor_ok ctx n \<Longrightarrow> \<exists>d. serializeNode n out = out @ d \<and> (\<forall>s rest. rt_stack s = ctx \<longrightarrow>
      rt_scan images (d @ rest) s = rt_scan images rest (show_node n out s) \<and> rt_stack (show_node n out s) = ctx)"
  "editors_ok ctx ns \<Longrightarrow> \<exists>d. serializeRichText ns out = out @ d \<and> (\<forall>s rest. rt_stack s = ctx \<longrightarrow>
      rt_scan images (d @ rest) s = rt_scan images rest (show_nodes ns out s) \<and> rt_stack (show_nodes ns out s) = ctx)"
proof (induction n out and ns out arbitrary: ctx and ctx rule: serializeNode_serializeRichText.induct)
  case (1 t out)
  show ?case by (simp add: scan_escMarker)
next
  case (2 out)
  show ?case by simp
next
  case (3 tag attrs children out)
  show ?case
  proof (cases "tag = ''br'' \<or> tag = ''img''")
    case True
    with 3(2) show ?thesis
      by (auto simp: scan_plain is_marker_def BACKSLASH_def)
  next
    case False
    note IH = 3(1)
    show ?thesis
    proof (cases "elem_format tag attrs")
      case None
      let ?nl = "if is_block tag \<and> out \<noteq> [] \<and> \<not> ends_with_newline out then [CHR 0x0A] else []"
      from IH [of ctx] False 3(2) None obtain d where d: "serializeRichText children [] = d"
        "\<And>s rest. rt_stack s = ctx \<Longrightarrow> rt_scan images (d @ rest) s = rt_scan images rest (show_nodes children [] s) \<and> rt_stack (show_nodes children [] s) = ctx"
        by auto
      then show ?thesis using False None
        by (intro exI [of _ "?nl @ d"]) (simp add: elem_markers_format scan_plain is_marker_def BACKSLASH_def)
    next
      case (Some f)
      obtain a b x where f: "f = (a, b, x)" by (cases f)
      from IH [of "x # ctx"] False 3(2) Some f obtain d where d: "serializeRichText children [] = d"
        "\<And>s rest. rt_stack s = x # ctx \<Longrightarrow> rt_scan images (d @ rest) s = rt_scan images rest (show_nodes children [] s) \<and> rt_stack (show_nodes children [] s) = x # ctx"
        by auto
      have "rt_scan images ((a @ d @ b) @ rest) s = rt_scan images rest (close_fmt x (show_nodes children [] (openFmt x s)))
          \<and> rt_stack (close_fmt x (show_nodes children [] (openFmt x s))) = ctx" if s: "rt_stack s = ctx" for s rest
      proof -
        have "rt_type x = CHR ''b'' \<or> rt_type x = CHR ''i'' \<longrightarrow> rt_type x \<notin> rt_type ` set (rt_stack s)"
          using 3(2) False Some f s by simp
        note e = scan_elem [OF Some [unfolded f] this]
        show ?thesis using d(2) [of "openFmt x s"] s by (simp add: e)
      qed
      then show ?thesis using False Some f d(1)
        by (intro exI [of _ "if d = [] then [] else a @ d @ b"]) (simp add: elem_markers_format)
    qed
  qed
next
  case (4 out)
  then show ?case by simp
next
  case (5 n ns out)
  from 5(1) [of ctx] 5(3) obtain d where d: "serializeNode n out = out @ d"
     "\<And>s rest. rt_stack s = ctx \<Longrightarrow> rt_scan images (d @ rest) s = rt_scan images rest (show_node n out s) \<and> rt_stack (show_node n out s) = ctx"
    by auto
  from 5(2) [of ctx] 5(3) d(1) obtain e where "serializeRichText ns (out @ d) = (out @ d) @ e"
     "\<And>s rest. rt_stack s = ctx \<Longrightarrow> rt_scan images (e @ rest) s = rt_scan images rest (show_nodes ns (out @ d) s) \<and> rt_stack (show_nodes ns (out @ d) s) = ctx"
    by auto
  with d show ?case by (intro exI [of _ "d @ e"]) simp
qed


section \<open>Properties\<close>

text \<open>
  C39. Typed text is shown as typed. A message sent with \<open>escMarker\<close> and a stored look is rendered as the
  escaped text with its emoticons replaced, inside exactly the formats of the look, each opened once and
  closed in the reverse order: no character of the text acts as a marker. Without a look it is the text alone.
\<close>

theorem typed_text_is_shown_as_typed:
  "formatMessageText images (wrapMessageLook look (escMarker t))
   = (let xs = (case look of Some l \<Rightarrow> look_formats l | None \<Rightarrow> []) in
      concat (map openTag xs) @ emote (escapeHtml t) @ concat (map closeTag (List.rev xs)))"
proof (cases look)
  case None
  show ?thesis by (simp add: None wrapMessageLook_def shown_text)
next
  case (Some l)
  show ?thesis by (simp add: Some shown_look Let_def)
qed

text \<open>
  C40. The editor and the renderer agree. What a reader sees of a message is what its author saw in the
  editor: rendering the serialized tree gives every element's format around the rendering of its content,
  whatever the nesting, for trees in which bold and italic are not nested in themselves and no picture is
  written by the tree.
\<close>

theorem editor_and_renderer_agree:
  assumes "editors_ok [] nodes"
  shows "formatMessageText images (serializeRichText nodes []) = rt_out (rt_flush (show_nodes nodes [] rt_start))"
proof -
  have "rt_stack rt_start = []" by (simp add: rt_start_def)
  moreover obtain d where "serializeRichText nodes [] = [] @ d"
    "\<And>s rest. rt_stack s = [] \<Longrightarrow> rt_scan images (d @ rest) s = rt_scan images rest (show_nodes nodes [] s)
       \<and> rt_stack (show_nodes nodes [] s) = []"
    using scan_shown(2) [OF assms, of "[]" images] by blast
  ultimately have "rt_scan images (serializeRichText nodes [] @ []) rt_start = show_nodes nodes [] rt_start"
    "rt_stack (show_nodes nodes [] rt_start) = []"
    by (metis append_Nil scan_end)+
  then show ?thesis by (simp add: formatMessageText_def Let_def)
qed

definition demo_tree :: "dom list" where
  "demo_tree =
     [DText ''a*b '', DElem ''span'' [(''class'', ''dd-c-rd'')] [DElem ''b'' [] [DText ''x''], DText ''[u]'']]"

lemma demo_tree_look: "elem_format ''span'' [(''class'', ''dd-c-rd'')] = Some (''[c:rd]'', ''[/c]'', text_color ''rd'')"
  by code_simp

lemma editor_and_renderer_agree_witness:
  "editors_ok [] demo_tree \<and>
   formatMessageText False (serializeRichText demo_tree []) = rt_out (rt_flush (show_nodes demo_tree [] rt_start))"
proof -
  have "editors_ok [] demo_tree" by (simp add: demo_tree_def demo_tree_look elem_format_def [of "''b''"])
  with editor_and_renderer_agree [OF this, of False] show ?thesis by simp
qed

text \<open>
  A text that puts a closing parenthesis after a quotation mark, an apostrophe or an angle bracket is not shown as typed: the semicolon
  of the escaped character and the parenthesis are taken for an emoticon, so the parenthesis disappears
  and the entity loses its end.
\<close>

theorem parenthesis_after_entity_is_eaten:
  "formatMessageText False [CHR 0x22, CHR '')''] = ''&quot'' @ utf8 [0x1F609]"
proof -
  have wink: "utf8 [0x1F609] = [CHR 0xF0, CHR 0x9F, CHR 0x98, CHR 0x89]"
    by (simp add: utf8_def utf8_char_def char_of_def bit_0)
  have "escMarker [CHR 0x22, CHR '')''] = [CHR 0x22, CHR '')'']"
    by (simp add: escMarker_def is_marker_def BACKSLASH_def)
  with shown_text [of False "[CHR 0x22, CHR '')'']"]
  have "formatMessageText False [CHR 0x22, CHR '')''] = emote ''&quot;)''"
    by (simp add: escapeHtml_def html_escape_def)
  also have "\<dots> = ''&quot'' @ utf8 [0x1F609]"
    unfolding emote_def EMOTICONS_def wink
    by (simp add: escapeHtml_def html_escape_def split_join.simps [of "_ # _" _ "_ # _"] split_join.simps [of _ _ "[]"])
  finally show ?thesis .
qed

end
