(* ===== verification/Controller.thy ===== *)
theory Controller
  imports Lifetime BuddyMerge Effects ChannelOps ChannelHeal
begin

text \<open>
  The application controller of the worker (\<open>client/src/controller.ts\<close>): its state, the documents it
  seals under the master store key, and the operations on them. A method is an action of \<open>Effects\<close> on
  the controller's state; an exception leaves what was done before it. A method runs to its end before
  the next one starts, except that the callbacks of the group channel are operations of their own.

  The message store and its lifetimes are those of \<open>Idb\<close> and \<open>Lifetime\<close>, the sealing that of \<open>Vault\<close>.
  The group channel is used through \<open>group_iface\<close>; \<open>channel_iface\<close> instantiates its queries with the
  model of \<open>groupchannel.ts\<close>.
\<close>

section \<open>State and environment\<close>

text \<open>The methods of the group channel the controller calls, on a channel state \<open>'g\<close>.\<close>

record 'g group_iface =
  gi_selfConversationId :: "'g \<Rightarrow> string option result"
  gi_isSelfConversationId :: "string \<Rightarrow> 'g \<Rightarrow> bool result"
  gi_selfClassificationReason :: "string \<Rightarrow> 'g \<Rightarrow> string"
  gi_isUnlinkedConversationId :: "string \<Rightarrow> 'g \<Rightarrow> bool"
  gi_heldConversationIds :: "'g \<Rightarrow> string list"
  gi_peerAccountKeysFor :: "string \<Rightarrow> 'g \<Rightarrow> string list"
  gi_accountKeyHex :: "'g \<Rightarrow> string"
  gi_contactPhraseFor :: "string \<Rightarrow> string"
  gi_selfDeviceKeyHex :: "'g \<Rightarrow> string"
  gi_roster :: "string \<Rightarrow> 'g \<Rightarrow> string list result"
  gi_peerRoster :: "string \<Rightarrow> 'g \<Rightarrow> string list result"
  gi_selfGroupDiagnostic :: "'g \<Rightarrow> string result"
  gi_selfContact :: "'g \<Rightarrow> string option"
  gi_selfFingerprint :: "'g \<Rightarrow> string"
  gi_closeConversation :: "string \<Rightarrow> ('g, unit) act"
  gi_abandonDeadSelfGroup :: "string \<Rightarrow> bool \<Rightarrow> ('g, bool) act"
  gi_openSelfConversation :: "('g, string) act"
  gi_connectGateway :: "string \<Rightarrow> ('g, bool) act"
  gi_sendMessage :: "string \<Rightarrow> string \<Rightarrow> lifetime option \<Rightarrow> ('g, unit) act"
  gi_revokeMessage :: "string \<Rightarrow> string \<Rightarrow> ('g, unit) act"
  gi_recoverWithSeed :: "string \<Rightarrow> int \<Rightarrow> ('g, unit) act"

text \<open>The queries of the channel's model; the methods that change it are those of \<open>rest\<close>.\<close>

definition channel_iface :: "'w chan_env \<Rightarrow> 'w chan group_iface \<Rightarrow> 'w chan group_iface" where
  "channel_iface C rest = rest
     \<lparr>gi_selfConversationId := selfConversationId C, gi_isSelfConversationId := isSelfConversationId C,
      gi_selfClassificationReason := selfClassificationReason C, gi_isUnlinkedConversationId := isUnlinkedConversationId C,
      gi_heldConversationIds := heldConversationIds C, gi_peerAccountKeysFor := peerAccountKeysFor C,
      gi_accountKeyHex := accountKeyHex C, gi_contactPhraseFor := contactPhraseFor C,
      gi_selfDeviceKeyHex := selfDeviceKeyHex, gi_roster := roster_of C, gi_peerRoster := peerRoster C,
      gi_selfGroupDiagnostic := selfGroupDiagnostic C, gi_selfContact := selfContact, gi_selfFingerprint := selfFingerprint\<rparr>"

text \<open>What the controller does not wait for: publications, and events for the page.\<close>

datatype ctl_out =
    SyncBuddies
  | SyncGroups
  | PublishIdentityNow
  | PushEvent string json

record 'g ctl =
  k_lm :: "device lifetime_manager"
  k_mskKey :: "bytes option"
  k_mskRaw :: "bytes option"
  k_account :: "string option"
  k_aakSeedHex :: "string option"
  k_freshRecoverySecret :: "string option"
  k_selfConvId :: "string option"
  k_selfGroupIds :: "string list option"
  k_historyOff :: bool
  k_awayDedupeMem :: "(string, int) jsmap"
  k_group :: 'g
  k_clock :: nat
  k_drawn :: nat
  k_out :: "ctl_out list"

text \<open>The fields \<open>Date\<close> reads off the platform's local time for a clock reading.\<close>

record local_time =
  lt_month :: nat
  lt_day :: nat
  lt_year :: nat
  lt_hours :: nat
  lt_minutes :: nat

text \<open>
  \<open>ke_live\<close> and \<open>ke_sessions\<close> tell whether those constructor arguments were given: the worker that owns
  the account gives both, the degraded controller of the page gives neither. The lifetime manager and
  the group channel exist when \<open>live\<close> does. \<open>ke_clock\<close> and \<open>ke_bytes\<close> give the readings of the clock
  and the random bytes in the order they are drawn.
\<close>

record ('g, 'c) ctl_env =
  ke_live :: bool
  ke_sessions :: bool
  ke_group :: "'g group_iface"
  ke_aead :: aead
  ke_derive :: derive_kek
  ke_account :: account_env
  ke_parse :: "string \<Rightarrow> json option"
  ke_stringify :: "json \<Rightarrow> string"
  ke_collate :: "string \<Rightarrow> string \<Rightarrow> bool"
  ke_clock :: "nat \<Rightarrow> int"
  ke_bytes :: "nat \<Rightarrow> nat \<Rightarrow> bytes"
  ke_restoreConversation :: "bytes \<Rightarrow> bytes \<Rightarrow> 'c option"
  ke_sealConversation :: "'c \<Rightarrow> bytes \<Rightarrow> bytes"
  ke_local :: "int \<Rightarrow> local_time"

text \<open>A fresh controller: nothing is unlocked, the stores hold what the device holds.\<close>

definition new_controller :: "idb \<Rightarrow> 'g \<Rightarrow> 'g ctl" where
  "new_controller d g =
     \<lparr>k_lm = new_manager (new_device d), k_mskKey = None, k_mskRaw = None, k_account = None,
      k_aakSeedHex = None, k_freshRecoverySecret = None, k_selfConvId = None, k_selfGroupIds = None,
      k_historyOff = False, k_awayDedupeMem = [], k_group = g, k_clock = 0, k_drawn = 0, k_out = []\<rparr>"

type_synonym ('g, 'a) kact = "('g ctl, 'a) act"

abbreviation k_device :: "'g ctl \<Rightarrow> device" where
  "k_device s \<equiv> store (k_lm s)"

section \<open>Statements\<close>

definition locked :: js_error where "locked = JsError ''locked''"

definition requireKey :: "('g, bytes) kact" where
  "requireKey = (\<lambda>s. case k_mskKey s of Some k \<Rightarrow> (Inr k, s) | None \<Rightarrow> (Inl locked, s))"

definition requireAccount :: "('g, string) kact" where
  "requireAccount = (\<lambda>s. case k_account s of Some a \<Rightarrow> (Inr a, s) | None \<Rightarrow> (Inl locked, s))"

definition nowK :: "('g, 'c) ctl_env \<Rightarrow> ('g, int) kact" where
  "nowK E = (\<lambda>s. (Inr (ke_clock E (k_clock s)), s\<lparr>k_clock := k_clock s + 1\<rparr>))"

definition drawK :: "('g, 'c) ctl_env \<Rightarrow> nat \<Rightarrow> ('g, bytes) kact" where
  "drawK E n = (\<lambda>s. (Inr (ke_bytes E (k_drawn s) n), s\<lparr>k_drawn := k_drawn s + 1\<rparr>))"

definition on_device :: "(device \<Rightarrow> device) \<Rightarrow> ('g, unit) kact" where
  "on_device f = modA (\<lambda>s. s\<lparr>k_lm := (k_lm s)\<lparr>store := f (k_device s)\<rparr>\<rparr>)"

definition on_db :: "(idb \<Rightarrow> idb) \<Rightarrow> ('g, unit) kact" where
  "on_db f = on_device (\<lambda>d. d\<lparr>db := f (db d)\<rparr>)"

definition outK :: "ctl_out \<Rightarrow> ('g, unit) kact" where
  "outK e = modA (\<lambda>s. s\<lparr>k_out := k_out s @ [e]\<rparr>)"

text \<open>\<open>this.groupChannel?.method()\<close> and \<open>this.live?.pushEvent(..)\<close>\<close>

definition liveK :: "('g, 'c) ctl_env \<Rightarrow> ('g, unit) kact \<Rightarrow> ('g, unit) kact" where
  "liveK E m = whenA (ke_live E) m"

definition queryK :: "('g, 'c) ctl_env \<Rightarrow> 'a \<Rightarrow> ('g group_iface \<Rightarrow> 'g \<Rightarrow> 'a) \<Rightarrow> 'g ctl \<Rightarrow> 'a" where
  "queryK E d q s = (if ke_live E then q (ke_group E) (k_group s) else d)"

definition askK :: "('g, 'c) ctl_env \<Rightarrow> 'a \<Rightarrow> ('g group_iface \<Rightarrow> 'g \<Rightarrow> 'a result) \<Rightarrow> ('g, 'a) kact" where
  "askK E d q = (\<lambda>s. (queryK E (Inr d) q s, s))"

definition groupK :: "('g, 'a) act \<Rightarrow> ('g, 'a) kact" where
  "groupK m = (\<lambda>s. case m (k_group s) of (r, g) \<Rightarrow> (r, s\<lparr>k_group := g\<rparr>))"

definition channel_needs_gateway :: js_error where
  "channel_needs_gateway = JsError ''group channel needs the gateway and the owning worker''"

text \<open>\<open>this.requireGroup().method()\<close>\<close>

definition requireGroupK :: "('g, 'c) ctl_env \<Rightarrow> ('g, 'a) act \<Rightarrow> ('g, 'a) kact" where
  "requireGroupK E m = (if ke_live E then groupK m else throw channel_needs_gateway)"

text \<open>
  An operation of the lifetime manager, with the \<open>onErased\<close> hook the constructor installs: each erasure
  becomes an event, flagged when the conversation is one of the account's own.
\<close>

definition selfCopy :: "('g, 'c) ctl_env \<Rightarrow> string \<Rightarrow> 'g ctl \<Rightarrow> bool" where
  "selfCopy E cid s \<longleftrightarrow>
     (case k_selfGroupIds s of Some ids \<Rightarrow> cid \<in> set ids | None \<Rightarrow> False)
     \<or> queryK E (Inr False) (\<lambda>G. gi_isSelfConversationId G cid) s = Inr True"

definition reason_text :: "erasure_reason \<Rightarrow> string" where
  "reason_text r = (case r of ByDuration \<Rightarrow> ''duration'' | ByBurn \<Rightarrow> ''burn'' | ByRevoke \<Rightarrow> ''revoke'')"

definition erased_event :: "('g, 'c) ctl_env \<Rightarrow> 'g ctl \<Rightarrow> string \<times> erasure_reason \<times> string \<Rightarrow> ctl_out" where
  "erased_event E s e =
     (case e of (mid, reason, cid) \<Rightarrow>
        PushEvent ''erased''
          (JObj [(''messageId'', JStr mid), (''reason'', JStr (reason_text reason)), (''conversationId'', JStr cid),
                 (''selfCopy'', JBool (selfCopy E cid s))]))"

definition lifetimeK ::
  "('g, 'c) ctl_env \<Rightarrow> (device lifetime_manager \<Rightarrow> 'a \<times> device lifetime_manager) \<Rightarrow> ('g, 'a) kact" where
  "lifetimeK E f =
     (\<lambda>s. case f (k_lm s) of (r, m) \<Rightarrow>
        (Inr r, s\<lparr>k_lm := m,
                  k_out := k_out s @ map (erased_event E s) (drop (length (erased (k_lm s))) (erased m))\<rparr>))"

section \<open>Sealed documents\<close>

definition keyed :: "string \<Rightarrow> string option \<Rightarrow> string" where
  "keyed prefix account = prefix @ (case account of Some a \<Rightarrow> a | None \<Rightarrow> ''null'')"

text \<open>The JSON of a sealed record: \<open>None\<close> when opening it, or parsing what it holds, throws.\<close>

definition open_json :: "('g, 'c) ctl_env \<Rightarrow> bytes \<Rightarrow> string \<Rightarrow> sealed_session \<Rightarrow> json option" where
  "open_json E key aad rec =
     (case openUnder (ke_aead E) key (ss_sealed rec) aad of
        Inl _ \<Rightarrow> None
      | Inr p \<Rightarrow> ke_parse E (TextDecoder_decode p))"

definition load_rec :: "string \<Rightarrow> 'g ctl \<Rightarrow> sealed_session option" where
  "load_rec aad s = ss_load aad (db (k_device s))"

text \<open>
  What the loaders of the per-account documents share: the default without a store or an account, the
  exception of \<open>requireKey\<close>, the default for an absent or unreadable record, and \<open>f\<close> of the rest.
\<close>

definition load_doc :: "('g, 'c) ctl_env \<Rightarrow> string \<Rightarrow> 'a \<Rightarrow> (json \<Rightarrow> 'a) \<Rightarrow> ('g, 'a) kact" where
  "load_doc E prefix dflt f =
     (\<lambda>s. if \<not> ke_sessions E \<or> k_account s = None then (Inr dflt, s)
          else bindA requireKey (\<lambda>key.
            let aad = keyed prefix (k_account s) in
            ret (case load_rec aad s of
                None \<Rightarrow> dflt
              | Some rec \<Rightarrow> (case open_json E key aad rec of Some v \<Rightarrow> f v | None \<Rightarrow> dflt))) s)"

definition save_sealed :: "('g, 'c) ctl_env \<Rightarrow> string \<Rightarrow> bytes \<Rightarrow> ('g, unit) kact" where
  "save_sealed E aad plaintext =
     bindA requireKey (\<lambda>key.
       bindA (drawK E 12) (\<lambda>nonce.
         on_db (ss_save \<lparr>ss_conversationId = aad, ss_sealed = sealUnder (ke_aead E) nonce key plaintext aad\<rparr>)))"

definition encode_json :: "('g, 'c) ctl_env \<Rightarrow> json \<Rightarrow> bytes" where
  "encode_json E v = TextEncoder_encode (ke_stringify E v)"

definition save_doc :: "('g, 'c) ctl_env \<Rightarrow> string \<Rightarrow> json \<Rightarrow> ('g, unit) kact" where
  "save_doc E prefix v =
     (\<lambda>s. if \<not> ke_sessions E \<or> k_account s = None then skip s
          else save_sealed E (keyed prefix (k_account s)) (encode_json E v) s)"

end
