(* ===== verification/ControllerLists.thy ===== *)
theory ControllerLists
  imports Controller
begin

text \<open>
  The per-account documents of \<open>controller.ts\<close> that concern people: the identity card, the cached
  identities of peers, the conversation of each handle, the buddy list and its groups, the verification
  of a buddy's account key, and the block list.
\<close>

section \<open>JSON objects\<close>

text \<open>\<open>v ?? d\<close>, and \<open>{ ...v, k: x }\<close>\<close>

definition nullish :: "json \<Rightarrow> json option \<Rightarrow> json" where
  "nullish d v = (case v of None \<Rightarrow> d | Some x \<Rightarrow> if is_JNull x then d else x)"

definition own_props :: "json \<Rightarrow> (string \<times> json) list" where
  "own_props v = (case v of JObj ps \<Rightarrow> fold (\<lambda>(k, x) m. jm_set k x m) ps [] | _ \<Rightarrow> [])"

definition spread_set :: "json \<Rightarrow> (string \<times> json) list \<Rightarrow> json" where
  "spread_set v ks = JObj (fold (\<lambda>(k, x) m. jm_set k x m) ks (own_props v))"

definition version_of :: "rat \<Rightarrow> json \<Rightarrow> string \<Rightarrow> rat" where
  "version_of d prof name = number_or d (json_prop prof name)"

section \<open>The identity card\<close>

definition PROFILE_MAX_CHARS :: nat where "PROFILE_MAX_CHARS = 1024"

definition ICON_VALUE_MAX :: nat where "ICON_VALUE_MAX = 32768"

definition AWAY_MAX_CHARS :: nat where "AWAY_MAX_CHARS = 560"

definition DEFAULT_IDENTITY :: json where
  "DEFAULT_IDENTITY = JObj
     [(''icon'', JNull), (''bio'', JStr []),
      (''away'', JObj [(''enabled'', JBool False), (''message'', JStr []), (''serverSide'', JBool False)]),
      (''iconVersion'', JNum (- 1)), (''bioVersion'', JNum (- 1)), (''awayVersion'', JNum (- 1))]"

definition sanitizeIcon :: "json option \<Rightarrow> json" where
  "sanitizeIcon raw =
     (case raw of
        None \<Rightarrow> JNull
      | Some v \<Rightarrow>
          if \<not> is_object v then JNull
          else (case (as_string (json_prop v ''kind''), as_string (json_prop v ''value''), as_string (json_prop v ''bg'')) of
              (Some kind, Some value, Some bg) \<Rightarrow>
                if kind \<noteq> ''emoji'' \<and> kind \<noteq> ''initials'' \<and> kind \<noteq> ''image'' then JNull
                else if ICON_VALUE_MAX < js_length value \<or> 32 < js_length bg then JNull
                else JObj [(''kind'', JStr kind), (''value'', JStr value), (''bg'', JStr bg)]
            | _ \<Rightarrow> JNull))"

definition clamp_text :: "nat \<Rightarrow> json option \<Rightarrow> json" where
  "clamp_text n v = JStr (case as_string v of Some s \<Rightarrow> js_take n s | None \<Rightarrow> [])"

definition getIdentity :: "('g, 'c) ctl_env \<Rightarrow> ('g, json) kact" where
  "getIdentity E = load_doc E ''identity:'' DEFAULT_IDENTITY id"

definition saveIdentityCard :: "('g, 'c) ctl_env \<Rightarrow> json \<Rightarrow> ('g, unit) kact" where
  "saveIdentityCard E prof = save_doc E ''identity:'' prof"

text \<open>A user's edit: what changed gets the time as its version.\<close>

definition bumped :: "('g, 'c) ctl_env \<Rightarrow> int \<Rightarrow> json \<Rightarrow> json \<Rightarrow> json" where
  "bumped E now profile current =
     (let str = ke_stringify E;
          iconChanged = (str (nullish JNull (json_prop profile ''icon'')) \<noteq> str (nullish JNull (json_prop current ''icon'')));
          bioChanged = (json_prop profile ''bio'' \<noteq> json_prop current ''bio'');
          awayChanged = (map_option str (json_prop profile ''away'') \<noteq> map_option str (json_prop current ''away''));
          v = (\<lambda>changed name. JNum (if changed then of_int now else version_of 0 current name))
      in spread_set profile
           [(''iconVersion'', v iconChanged ''iconVersion''), (''bioVersion'', v bioChanged ''bioVersion''),
            (''awayVersion'', v awayChanged ''awayVersion'')])"

definition setIdentity :: "('g, 'c) ctl_env \<Rightarrow> json \<Rightarrow> ('g, unit) kact" where
  "setIdentity E profile =
     (\<lambda>s. if \<not> ke_sessions E \<or> k_account s = None then skip s
          else block
            [bindA (getIdentity E) (\<lambda>current. bindA (nowK E) (\<lambda>now. saveIdentityCard E (bumped E now profile current))),
             liveK E (outK PublishIdentityNow)] s)"

text \<open>What a frame of a sibling makes of the card, \<open>None\<close> when it is not newer.\<close>

definition adopted_card :: "nat \<Rightarrow> json \<Rightarrow> json \<Rightarrow> json option" where
  "adopted_card controlType parsed current =
     (let incoming = number_or 0 (json_prop parsed ''v'') in
      if controlType = CONTROL_BUDDY_ICON then
        (if incoming \<le> version_of (- 1) current ''iconVersion'' then None
         else Some (spread_set current [(''icon'', sanitizeIcon (json_prop parsed ''icon'')), (''iconVersion'', JNum incoming)]))
      else if controlType = CONTROL_PROFILE then
        (if incoming \<le> version_of (- 1) current ''bioVersion'' then None
         else Some (spread_set current [(''bio'', clamp_text PROFILE_MAX_CHARS (json_prop parsed ''bio'')), (''bioVersion'', JNum incoming)]))
      else if controlType = CONTROL_AWAY then
        (case json_prop parsed ''away'' of
           None \<Rightarrow> None
         | Some away \<Rightarrow>
             if incoming \<le> version_of (- 1) current ''awayVersion'' then None
             else Some (spread_set current [(''away'', away), (''awayVersion'', JNum incoming)]))
      else None)"

definition adoptSiblingIdentity :: "('g, 'c) ctl_env \<Rightarrow> nat \<Rightarrow> bytes \<Rightarrow> ('g, unit) kact" where
  "adoptSiblingIdentity E controlType payload =
     (\<lambda>s. if \<not> ke_sessions E \<or> k_account s = None then skip s
          else case ke_parse E (TextDecoder_decode payload) of
              None \<Rightarrow> skip s
            | Some parsed \<Rightarrow>
                if is_JNull parsed then throw TypeError s
                else bindA (getIdentity E) (\<lambda>current.
                  case adopted_card controlType parsed current of
                    None \<Rightarrow> skip
                  | Some updated \<Rightarrow> block
                      [saveIdentityCard E updated,
                       liveK E (outK PublishIdentityNow),
                       liveK E (outK (PushEvent ''identity-updated'' (JObj [(''profile'', updated)])))]) s)"

text \<open>A property whose value is \<open>undefined\<close> is left acc by \<open>JSON.stringify\<close>.\<close>

definition opt_prop :: "string \<Rightarrow> json option \<Rightarrow> (string \<times> json) list" where
  "opt_prop k v = (case v of Some x \<Rightarrow> [(k, x)] | None \<Rightarrow> [])"

definition buildIdentityFrames :: "('g, 'c) ctl_env \<Rightarrow> ('g, (nat \<times> bytes) list) kact" where
  "buildIdentityFrames E =
     (\<lambda>s. let k = queryK E [] (\<lambda>G g. gi_selfDeviceKeyHex G g) s in
          if k = [] then (Inr [], s)
          else bindA (getIdentity E) (\<lambda>prof.
            let payload = (\<lambda>name. encode_json E (JObj ([(''k'', JStr k)] @ opt_prop name (json_prop prof name)
                  @ [(''v'', JNum (version_of 0 prof (name @ ''Version'')))]))) in
            ret [(CONTROL_BUDDY_ICON, payload ''icon''), (CONTROL_PROFILE, payload ''bio''), (CONTROL_AWAY, payload ''away'')]) s)"

section \<open>Identities of peers\<close>

definition peerMapAad :: "string \<Rightarrow> string" where
  "peerMapAad cid = ''peerids:'' @ cid"

definition loadPeerMap :: "('g, 'c) ctl_env \<Rightarrow> bytes \<Rightarrow> string \<Rightarrow> 'g ctl \<Rightarrow> json" where
  "loadPeerMap E key aad s =
     (case (if ke_sessions E then load_rec aad s else None) of
        None \<Rightarrow> JObj []
      | Some rec \<Rightarrow> (case open_json E key aad rec of Some v \<Rightarrow> v | None \<Rightarrow> JObj []))"

definition no_identity :: json where
  "no_identity = JObj [(''icon'', JNull), (''bio'', JStr [])]"

definition away_text :: "json \<Rightarrow> json" where
  "away_text parsed =
     (case json_prop parsed ''away'' of
        Some away \<Rightarrow>
          if is_true (json_prop away ''enabled'') then clamp_text AWAY_MAX_CHARS (json_prop away ''message'') else JStr []
      | None \<Rightarrow> JStr [])"

definition peer_entry :: "nat \<Rightarrow> json \<Rightarrow> json \<Rightarrow> json" where
  "peer_entry controlType parsed cur =
     spread_set cur
       [if controlType = CONTROL_BUDDY_ICON then (''icon'', sanitizeIcon (json_prop parsed ''icon''))
        else if controlType = CONTROL_AWAY then (''away'', away_text parsed)
        else (''bio'', clamp_text PROFILE_MAX_CHARS (json_prop parsed ''bio''))]"

definition savePeerIdentity :: "('g, 'c) ctl_env \<Rightarrow> string \<Rightarrow> string \<Rightarrow> nat \<Rightarrow> bytes \<Rightarrow> ('g, unit) kact" where
  "savePeerIdentity E cid peerKey controlType payload =
     (\<lambda>s. if \<not> ke_sessions E \<or> k_historyOff s then skip s
          else bindA requireKey (\<lambda>key.
            case ke_parse E (TextDecoder_decode payload) of
              None \<Rightarrow> skip
            | Some parsed \<Rightarrow>
                if is_JNull parsed then throw TypeError
                else
                  (let peers = loadPeerMap E key (peerMapAad cid) s;
                       cur = nullish no_identity (json_prop peers peerKey)
                   in save_sealed E (peerMapAad cid)
                        (encode_json E (spread_set peers [(peerKey, peer_entry controlType parsed cur)])))) s)"

record peer_identity =
  pi_key :: string
  pi_fingerprint :: string
  pi_icon :: "json option"
  pi_bio :: "json option"
  pi_away :: json

definition peer_of :: "string \<times> json \<Rightarrow> peer_identity" where
  "peer_of kv =
     \<lparr>pi_key = fst kv, pi_fingerprint = fingerprintOf (fst kv), pi_icon = json_prop (snd kv) ''icon'',
      pi_bio = json_prop (snd kv) ''bio'', pi_away = nullish (JStr []) (json_prop (snd kv) ''away'')\<rparr>"

definition getPeerIdentities :: "('g, 'c) ctl_env \<Rightarrow> string \<Rightarrow> ('g, peer_identity list) kact" where
  "getPeerIdentities E cid =
     (\<lambda>s. if \<not> ke_sessions E \<or> k_account s = None then (Inr [], s)
          else bindA requireKey (\<lambda>key.
            ret (map peer_of (obj_entries (own_props (loadPeerMap E key (peerMapAad cid) s))))) s)"

section \<open>The conversation of a handle\<close>

definition handle_entry :: "string \<times> json \<Rightarrow> (string, string) jsmap \<Rightarrow> (string, string) jsmap" where
  "handle_entry uc acc = (case as_string (Some (snd uc)) of Some c \<Rightarrow> obj_set (fst uc) c acc | None \<Rightarrow> acc)"

definition handles_of :: "json \<Rightarrow> (string, string) jsmap" where
  "handles_of v =
     (case v of
        JObj ps \<Rightarrow> fold handle_entry (parsed_entries ps) []
      | JArr xs \<Rightarrow> fold handle_entry (map (\<lambda>(i, x). (decimal i, x)) (enumerate 0 xs)) []
      | _ \<Rightarrow> [])"

definition loadConvHandles :: "('g, 'c) ctl_env \<Rightarrow> ('g, (string, string) jsmap) kact" where
  "loadConvHandles E = load_doc E ''convhandles:'' [] handles_of"

definition is_one_to_one :: "('g, 'c) ctl_env \<Rightarrow> string \<Rightarrow> 'g ctl \<Rightarrow> bool" where
  "is_one_to_one E cid s \<longleftrightarrow> length (queryK E [] (\<lambda>G. gi_peerAccountKeysFor G cid) s) = 1"

text \<open>A one-to-one conversation keeps its handle against a group.\<close>

definition keeps_binding :: "('g, 'c) ctl_env \<Rightarrow> string slot \<Rightarrow> string \<Rightarrow> 'g ctl \<Rightarrow> bool" where
  "keeps_binding E prev cid s \<longleftrightarrow>
     (case prev of Own p \<Rightarrow> p \<noteq> cid \<and> is_one_to_one E p s \<and> \<not> is_one_to_one E cid s | _ \<Rightarrow> False)"

definition tagConversationHandle :: "('g, 'c) ctl_env \<Rightarrow> string \<Rightarrow> string \<Rightarrow> ('g, unit) kact" where
  "tagConversationHandle E cid username =
     (\<lambda>s. if \<not> ke_sessions E \<or> k_account s = None then skip s
          else
            (let u = normalizeUsername (ke_account E) username in
             if u = [] \<or> cid = [] then skip s
             else bindA (loadConvHandles E) (\<lambda>handles.
               if keeps_binding E (obj_at handles u) cid s then skip
               else save_doc E ''convhandles:'' (record_json JStr (obj_set u cid handles))) s))"

text \<open>The handle of a conversation, when exactly one is tagged with it.\<close>

definition sole_handle :: "string \<Rightarrow> (string, string) jsmap \<Rightarrow> string option" where
  "sole_handle cid handles =
     (case map fst (filter (\<lambda>(u, c). c = cid) (obj_entries handles)) of [u] \<Rightarrow> Some u | _ \<Rightarrow> None)"

definition handleForConversation :: "('g, 'c) ctl_env \<Rightarrow> string \<Rightarrow> ('g, string option) kact" where
  "handleForConversation E cid =
     bindA (loadConvHandles E) (\<lambda>handles. ret (sole_handle cid handles))"

text \<open>The cached identities behind a handle; a name that is only inherited has no sealed map.\<close>

definition identities_behind :: "('g, 'c) ctl_env \<Rightarrow> string slot \<Rightarrow> ('g, peer_identity list) kact" where
  "identities_behind E c = (case c of Own cid \<Rightarrow> getPeerIdentities E cid | _ \<Rightarrow> ret [])"

definition getBuddyInfo :: "('g, 'c) ctl_env \<Rightarrow> string \<Rightarrow> ('g, peer_identity list) kact" where
  "getBuddyInfo E username =
     bindA (loadConvHandles E) (\<lambda>handles.
       identities_behind E (obj_at handles (normalizeUsername (ke_account E) username)))"

text \<open>The loop over the names: \<open>pick\<close> chooses what is shown of the identities behind a name.\<close>

fun for_names ::
  "('g, 'c) ctl_env \<Rightarrow> (peer_identity list \<Rightarrow> 'a option) \<Rightarrow> (string, string) jsmap \<Rightarrow> string list \<Rightarrow>
   (string, 'a) jsmap \<Rightarrow> ('g, (string, 'a) jsmap) kact" where
  "for_names E pick handles [] acc = ret acc"
| "for_names E pick handles (name # names) acc =
     bindA (identities_behind E (obj_at handles (normalizeUsername (ke_account E) name))) (\<lambda>ps.
       for_names E pick handles names (case pick ps of Some x \<Rightarrow> obj_set name x acc | None \<Rightarrow> acc))"

definition first_icon :: "peer_identity list \<Rightarrow> json option" where
  "first_icon ps = (case find (\<lambda>p. pi_icon p \<noteq> Some JNull) ps of Some p \<Rightarrow> pi_icon p | None \<Rightarrow> None)"

definition first_away :: "peer_identity list \<Rightarrow> string option" where
  "first_away ps =
     (case find (\<lambda>p. case as_string (Some (pi_away p)) of Some a \<Rightarrow> a \<noteq> [] | None \<Rightarrow> False) ps of
        Some p \<Rightarrow> as_string (Some (pi_away p))
      | None \<Rightarrow> None)"

definition buddyIcons :: "('g, 'c) ctl_env \<Rightarrow> string list \<Rightarrow> ('g, (string, json) jsmap) kact" where
  "buddyIcons E names = bindA (loadConvHandles E) (\<lambda>handles. for_names E first_icon handles names [])"

definition buddyAwayText :: "('g, 'c) ctl_env \<Rightarrow> string list \<Rightarrow> ('g, (string, string) jsmap) kact" where
  "buddyAwayText E names = bindA (loadConvHandles E) (\<lambda>handles. for_names E first_away handles names [])"

end
