(* ===== verification/ControllerBuddies.thy ===== *)
theory ControllerBuddies
  imports ControllerLists
begin

text \<open>
  The operations of \<open>controller.ts\<close> on the buddy list, its groups and the block list, and the verification
  of a buddy's account key. The lists are the sealed maps of \<open>Buddies\<close>.
\<close>

section \<open>Loading and saving\<close>

definition loadBuddyMap :: "('g, 'c) ctl_env \<Rightarrow> ('g, buddy_map) kact" where
  "loadBuddyMap E = load_doc E ''buddies:'' [] (\<lambda>v. case normalizeBuddyMap (Some v) of Inr m \<Rightarrow> m | Inl _ \<Rightarrow> [])"

definition saveBuddyMap :: "('g, 'c) ctl_env \<Rightarrow> buddy_map \<Rightarrow> ('g, unit) kact" where
  "saveBuddyMap E m = save_doc E ''buddies:'' (record_json buddy_json m)"

definition loadGroupMap :: "('g, 'c) ctl_env \<Rightarrow> ('g, group_map) kact" where
  "loadGroupMap E = load_doc E ''groups:'' [] (\<lambda>v. normalizeGroupMap (Some v))"

definition saveGroupMap :: "('g, 'c) ctl_env \<Rightarrow> group_map \<Rightarrow> ('g, unit) kact" where
  "saveGroupMap E m = save_doc E ''groups:'' (record_json group_json m)"

definition listBuddies :: "('g, 'c) ctl_env \<Rightarrow> ('g, (string \<times> rat \<times> string) list) kact" where
  "listBuddies E = bindA (loadBuddyMap E) (\<lambda>m. ret (present_buddies m))"

definition listGroups :: "('g, 'c) ctl_env \<Rightarrow> ('g, (string \<times> group_role option) list) kact" where
  "listGroups E = bindA (loadGroupMap E) (\<lambda>m. ret (group_list (ke_collate E) m))"

text \<open>The statements after an edit: seal, publish to the own devices.\<close>

definition commitBuddies :: "('g, 'c) ctl_env \<Rightarrow> buddy_map \<Rightarrow> ('g, unit) kact" where
  "commitBuddies E m = block [saveBuddyMap E m, liveK E (outK SyncBuddies)]"

definition commitGroups :: "('g, 'c) ctl_env \<Rightarrow> group_map \<Rightarrow> ('g, unit) kact" where
  "commitGroups E m = block [saveGroupMap E m, liveK E (outK SyncGroups)]"

section \<open>Buddies\<close>

text \<open>
  An entry read from the map and then spread; a member that is only inherited has none of the fields,
  which reads back as the fields' defaults.
\<close>

definition no_buddy :: buddy_entry where
  "no_buddy = \<lparr>be_addedAt = 0, be_v = 0, be_removed = False, be_group = DEFAULT_GROUP, be_vk = None\<rparr>"

definition present :: "('e \<Rightarrow> bool) \<Rightarrow> 'e \<Rightarrow> 'e slot \<Rightarrow> 'e option" where
  "present removed dflt sl =
     (case sl of Undef \<Rightarrow> None | Inherited \<Rightarrow> Some dflt | Own e \<Rightarrow> if removed e then None else Some e)"

definition present_buddy :: "buddy_map \<Rightarrow> string \<Rightarrow> buddy_entry option" where
  "present_buddy m u = present be_removed no_buddy (obj_at m u)"

definition folder :: "string \<Rightarrow> string" where
  "folder raw = (let g = sanitizeGroupName raw in if g \<noteq> [] then g else DEFAULT_GROUP)"

definition addBuddy :: "('g, 'c) ctl_env \<Rightarrow> string \<Rightarrow> string option \<Rightarrow> ('g, (string \<times> rat \<times> string) list) kact" where
  "addBuddy E username grp =
     (let u = normalizeUsername (ke_account E) username; g = folder (or_empty grp) in
      if u = [] then listBuddies E
      else bindA (loadBuddyMap E) (\<lambda>m.
        if present_buddy m u \<noteq> None then listBuddies E
        else bindA (nowK E) (\<lambda>t1. bindA (nowK E) (\<lambda>t2.
          bindA (commitBuddies E (obj_set u \<lparr>be_addedAt = of_int (t1 div 1000), be_v = of_int t2, be_removed = False,
                                            be_group = g, be_vk = None\<rparr> m))
            (\<lambda>_. listBuddies E)))))"

definition setBuddyGroup :: "('g, 'c) ctl_env \<Rightarrow> string \<Rightarrow> string \<Rightarrow> ('g, (string \<times> rat \<times> string) list) kact" where
  "setBuddyGroup E username grp =
     (let u = normalizeUsername (ke_account E) username; g = folder grp in
      bindA (loadBuddyMap E) (\<lambda>m.
        case present_buddy m u of
          None \<Rightarrow> listBuddies E
        | Some e \<Rightarrow>
            if (case obj_at m u of Own _ \<Rightarrow> be_group e = g | _ \<Rightarrow> False) then listBuddies E
            else bindA (nowK E) (\<lambda>t.
              bindA (commitBuddies E (obj_set u (e\<lparr>be_group := g, be_v := of_int t\<rparr>) m)) (\<lambda>_. listBuddies E))))"

definition removeBuddy :: "('g, 'c) ctl_env \<Rightarrow> string \<Rightarrow> ('g, (string \<times> rat \<times> string) list) kact" where
  "removeBuddy E username =
     (let u = normalizeUsername (ke_account E) username in
      bindA (loadBuddyMap E) (\<lambda>m.
        case present_buddy m u of
          None \<Rightarrow> listBuddies E
        | Some e \<Rightarrow> bindA (nowK E) (\<lambda>t.
            bindA (commitBuddies E (obj_set u (e\<lparr>be_v := of_int t, be_removed := True\<rparr>) m)) (\<lambda>_. listBuddies E))))"

definition list_frame :: "('g, 'c) ctl_env \<Rightarrow> string \<Rightarrow> ('g, 'm) kact \<Rightarrow> ('m \<Rightarrow> json) \<Rightarrow> ('g, bytes option) kact" where
  "list_frame E name load f =
     (\<lambda>s. if \<not> ke_sessions E \<or> k_account s = None then (Inr None, s)
          else bindA load (\<lambda>m. ret (Some (encode_json E (JObj [(name, f m)])))) s)"

definition buddiesFrame :: "('g, 'c) ctl_env \<Rightarrow> ('g, bytes option) kact" where
  "buddiesFrame E = list_frame E ''buddies'' (loadBuddyMap E) (record_json buddy_json)"

definition groupsFrame :: "('g, 'c) ctl_env \<Rightarrow> ('g, bytes option) kact" where
  "groupsFrame E = list_frame E ''groups'' (loadGroupMap E) (record_json group_json)"

text \<open>The list of a frame; \<open>None\<close> when parsing it throws. Reading a property of \<open>null\<close> throws too.\<close>

definition frame_buddies :: "('g, 'c) ctl_env \<Rightarrow> bytes \<Rightarrow> buddy_map option" where
  "frame_buddies E payload =
     (case ke_parse E (TextDecoder_decode payload) of
        None \<Rightarrow> None
      | Some v \<Rightarrow>
          if is_JNull v then None
          else (case normalizeBuddyMap (json_prop v ''buddies'') of Inr m \<Rightarrow> Some m | Inl _ \<Rightarrow> None))"

definition frame_groups :: "('g, 'c) ctl_env \<Rightarrow> bytes \<Rightarrow> group_map option" where
  "frame_groups E payload =
     (case ke_parse E (TextDecoder_decode payload) of
        None \<Rightarrow> None
      | Some v \<Rightarrow> if is_JNull v then None else Some (normalizeGroupMap (json_prop v ''groups'')))"

definition adoptBuddies :: "('g, 'c) ctl_env \<Rightarrow> bytes \<Rightarrow> ('g, unit) kact" where
  "adoptBuddies E payload =
     (\<lambda>s. if \<not> ke_sessions E \<or> k_account s = None then skip s
          else case frame_buddies E payload of
              None \<Rightarrow> skip s
            | Some incoming \<Rightarrow>
                bindA (loadBuddyMap E) (\<lambda>local. bindA (nowK E) (\<lambda>now.
                  case merge_buddies now incoming local of
                    (changed, merged) \<Rightarrow>
                      whenA changed (block [commitBuddies E merged, liveK E (outK (PushEvent ''buddies-updated'' (JObj [])))]))) s)"

definition adoptGroups :: "('g, 'c) ctl_env \<Rightarrow> bytes \<Rightarrow> ('g, unit) kact" where
  "adoptGroups E payload =
     (\<lambda>s. if \<not> ke_sessions E \<or> k_account s = None then skip s
          else case frame_groups E payload of
              None \<Rightarrow> skip s
            | Some incoming \<Rightarrow>
                bindA (loadGroupMap E) (\<lambda>local. bindA (nowK E) (\<lambda>now.
                  case merge_groups now incoming local of
                    (changed, merged) \<Rightarrow>
                      whenA changed (block [commitGroups E merged, liveK E (outK (PushEvent ''groups-updated'' (JObj [])))]))) s)"

section \<open>Groups\<close>

definition no_group :: group_entry where
  "no_group = \<lparr>ge_v = 0, ge_removed = False, ge_order = 0, ge_n = None\<rparr>"

definition present_group :: "group_map \<Rightarrow> string \<Rightarrow> group_entry option" where
  "present_group m g = present ge_removed no_group (obj_at m g)"

definition max_order :: "group_map \<Rightarrow> rat" where
  "max_order m = fold (\<lambda>e acc. max acc (ge_order (snd e))) (obj_entries m) 0"

definition addGroup :: "('g, 'c) ctl_env \<Rightarrow> string \<Rightarrow> ('g, (string \<times> group_role option) list) kact" where
  "addGroup E name =
     (let g = sanitizeGroupName name in
      bindA (loadGroupMap E) (\<lambda>m0. let labels = groupLabels m0 in
        if g = [] \<or> g = DEFAULT_GROUP \<or> g = fst labels \<or> g = snd labels then listGroups E
        else bindA (loadGroupMap E) (\<lambda>m.
          if present_group m g \<noteq> None then listGroups E
          else bindA (nowK E) (\<lambda>t.
            bindA (commitGroups E (obj_set g \<lparr>ge_v = of_int t, ge_removed = False, ge_order = max_order m + 1, ge_n = None\<rparr> m))
              (\<lambda>_. listGroups E)))))"

definition collides :: "group_role \<Rightarrow> string \<Rightarrow> group_map \<Rightarrow> bool" where
  "collides rl g m \<longleftrightarrow>
     g = (if rl = DefaultRole then snd (groupLabels m) else fst (groupLabels m))
     \<or> (rl \<noteq> DefaultRole \<and> g = DEFAULT_GROUP)
     \<or> (\<exists>(n, e) \<in> set (obj_entries m). \<not> ge_removed e \<and> NUL \<notin> set n \<and> n = g)"

definition role_key :: "group_role \<Rightarrow> string" where
  "role_key rl = (if rl = DefaultRole then RK_DEFAULT else RK_BLOCKED)"

definition renameGroup :: "('g, 'c) ctl_env \<Rightarrow> group_role \<Rightarrow> string \<Rightarrow> ('g, (string \<times> group_role option) list) kact" where
  "renameGroup E rl name =
     (let g = sanitizeGroupName name in
      if g = [] then listGroups E
      else bindA (loadGroupMap E) (\<lambda>m.
        if collides rl g m then listGroups E
        else bindA (nowK E) (\<lambda>t.
          bindA (commitGroups E (obj_set (role_key rl) \<lparr>ge_v = of_int t, ge_removed = False, ge_order = 0, ge_n = Some g\<rparr> m))
            (\<lambda>_. listGroups E))))"

text \<open>The buddies of a deleted group move to the default group, each with a version of its own.\<close>

fun move_out ::
  "('g, 'c) ctl_env \<Rightarrow> string \<Rightarrow> (string \<times> buddy_entry) list \<Rightarrow> bool \<times> buddy_map \<Rightarrow> ('g, bool \<times> buddy_map) kact" where
  "move_out E g [] acc = ret acc"
| "move_out E g ((u, e) # es) acc =
     (if \<not> be_removed e \<and> be_group e = g then
        bindA (nowK E) (\<lambda>t. move_out E g es (True, obj_set u (e\<lparr>be_group := DEFAULT_GROUP, be_v := of_int t\<rparr>) (snd acc)))
      else move_out E g es acc)"

definition deleteGroup :: "('g, 'c) ctl_env \<Rightarrow> string \<Rightarrow> ('g, (string \<times> group_role option) list) kact" where
  "deleteGroup E name =
     (let g = js_trim name in
      if g = [] \<or> g = DEFAULT_GROUP \<or> NUL \<in> set g then listGroups E
      else bindA (loadGroupMap E) (\<lambda>m.
        case present_group m g of
          None \<Rightarrow> listGroups E
        | Some e \<Rightarrow> bindA (nowK E) (\<lambda>t.
            bindA (saveGroupMap E (obj_set g (e\<lparr>ge_v := of_int t, ge_removed := True\<rparr>) m)) (\<lambda>_.
              bindA (loadBuddyMap E) (\<lambda>buddies.
                bindA (move_out E g (obj_entries buddies) (False, buddies)) (\<lambda>(moved, buddies').
                  bindA (block [whenA moved (commitBuddies E buddies'), liveK E (outK SyncGroups)]) (\<lambda>_. listGroups E)))))))"

section \<open>Verification\<close>

text \<open>The key a buddy's conversation shows: only a single verified foreign account is an anchor.\<close>

definition buddyPeerKey :: "('g, 'c) ctl_env \<Rightarrow> (string, string) jsmap \<Rightarrow> string \<Rightarrow> 'g ctl \<Rightarrow> string" where
  "buddyPeerKey E handles username s =
     (case obj_at handles (normalizeUsername (ke_account E) username) of
        Own cid \<Rightarrow> (case queryK E [] (\<lambda>G. gi_peerAccountKeysFor G cid) s of [k] \<Rightarrow> k | _ \<Rightarrow> [])
      | _ \<Rightarrow> [])"

definition vk_at :: "buddy_map \<Rightarrow> string \<Rightarrow> string" where
  "vk_at m u = (case obj_at m u of Own e \<Rightarrow> or_empty (be_vk e) | _ \<Rightarrow> [])"

datatype verify_state = VNone | Verified | Changed | Stale | Unavailable

record verify_info =
  vi_peerKey :: string
  vi_peerFingerprint :: string
  vi_ourFingerprint :: string
  vi_ourWords :: string
  vi_theirWords :: string
  vi_verifiedKey :: string
  vi_state :: verify_state

definition fingerprint_or_empty :: "string \<Rightarrow> string" where
  "fingerprint_or_empty k = (if k \<noteq> [] then fingerprintOf k else [])"

definition pinned_state :: "string \<Rightarrow> string \<Rightarrow> verify_state" where
  "pinned_state peerKey vk = (if peerKey = [] then Stale else if peerKey \<noteq> vk then Changed else Verified)"

definition buddyVerifyInfo :: "('g, 'c) ctl_env \<Rightarrow> string \<Rightarrow> ('g, verify_info) kact" where
  "buddyVerifyInfo E username =
     (let u = normalizeUsername (ke_account E) username in
      bindA (loadConvHandles E) (\<lambda>handles. bindA (readA (buddyPeerKey E handles u)) (\<lambda>peerKey.
        bindA (loadBuddyMap E) (\<lambda>m. bindA (readA (queryK E [] gi_accountKeyHex)) (\<lambda>ourKey.
          bindA (readA (queryK E [] (\<lambda>G _. gi_contactPhraseFor G ourKey))) (\<lambda>ourWords.
            bindA (readA (queryK E [] (\<lambda>G _. gi_contactPhraseFor G peerKey))) (\<lambda>theirs.
              let theirWords = (if peerKey \<noteq> [] then theirs else []); vk = vk_at m u in
              ret \<lparr>vi_peerKey = peerKey, vi_peerFingerprint = fingerprint_or_empty peerKey,
                   vi_ourFingerprint = fingerprint_or_empty ourKey, vi_ourWords = ourWords, vi_theirWords = theirWords,
                   vi_verifiedKey = vk,
                   vi_state = (if vk \<noteq> [] then pinned_state peerKey vk
                               else if ourWords \<noteq> [] \<and> theirWords \<noteq> [] then VNone else Unavailable)\<rparr>)))))))"

definition verify_badge ::
  "('g, 'c) ctl_env \<Rightarrow> buddy_map \<Rightarrow> (string, string) jsmap \<Rightarrow> 'g ctl \<Rightarrow> string \<Rightarrow>
   (string, verify_state) jsmap \<Rightarrow> (string, verify_state) jsmap" where
  "verify_badge E m handles s name acc =
     (let u = normalizeUsername (ke_account E) name; vk = vk_at m u in
      if vk = [] \<or> (case obj_at m u of Own e \<Rightarrow> be_removed e | _ \<Rightarrow> False) then acc
      else obj_set name (pinned_state (buddyPeerKey E handles u s) vk) acc)"

definition buddyVerifyStates :: "('g, 'c) ctl_env \<Rightarrow> string list \<Rightarrow> ('g, (string, verify_state) jsmap) kact" where
  "buddyVerifyStates E names =
     bindA (loadBuddyMap E) (\<lambda>m. bindA (loadConvHandles E) (\<lambda>handles.
       readA (\<lambda>s. fold (verify_badge E m handles s) names [])))"

definition markBuddyVerified :: "('g, 'c) ctl_env \<Rightarrow> string \<Rightarrow> string \<Rightarrow> string \<Rightarrow> ('g, bool) kact" where
  "markBuddyVerified E username peerKey expectedPrev =
     (let u = normalizeUsername (ke_account E) username in
      if \<not> is_account_key peerKey then ret False
      else bindA (loadConvHandles E) (\<lambda>handles. bindA (readA (buddyPeerKey E handles u)) (\<lambda>current.
        if current \<noteq> peerKey then ret False
        else bindA (loadBuddyMap E) (\<lambda>m.
          case present_buddy m u of
            None \<Rightarrow> ret False
          | Some e \<Rightarrow>
              if or_empty (be_vk e) \<noteq> expectedPrev then ret False
              else bindA (nowK E) (\<lambda>t.
                bindA (commitBuddies E (obj_set u (e\<lparr>be_vk := Some peerKey, be_v := of_int t\<rparr>) m)) (\<lambda>_. ret True))))))"

definition clearBuddyVerified :: "('g, 'c) ctl_env \<Rightarrow> string \<Rightarrow> ('g, unit) kact" where
  "clearBuddyVerified E username =
     (let u = normalizeUsername (ke_account E) username in
      bindA (loadBuddyMap E) (\<lambda>m.
        case obj_at m u of
          Own e \<Rightarrow>
            if be_vk e = None then skip
            else bindA (nowK E) (\<lambda>t. commitBuddies E (obj_set u (e\<lparr>be_vk := None, be_v := of_int t\<rparr>) m))
        | _ \<Rightarrow> skip))"

section \<open>The block list\<close>

record blocked_entry =
  bl_k :: string
  bl_u :: "string option"

definition blocked_of :: "json \<Rightarrow> blocked_entry list" where
  "blocked_of e =
     (case as_string (Some e) of
        Some k \<Rightarrow> [\<lparr>bl_k = k, bl_u = None\<rparr>]
      | None \<Rightarrow>
          (if is_object e then
             (case as_string (json_prop e ''k'') of
                Some k \<Rightarrow> [\<lparr>bl_k = k, bl_u = as_string (json_prop e ''u'')\<rparr>]
              | None \<Rightarrow> [])
           else []))"

definition loadBlockedEntries :: "('g, 'c) ctl_env \<Rightarrow> ('g, blocked_entry list) kact" where
  "loadBlockedEntries E =
     load_doc E ''blocked:'' [] (\<lambda>v. case v of JArr es \<Rightarrow> concat (map blocked_of es) | _ \<Rightarrow> [])"

definition blocked_json :: "blocked_entry \<Rightarrow> json" where
  "blocked_json e = JObj ([(''k'', JStr (bl_k e))] @ (case bl_u e of Some u \<Rightarrow> [(''u'', JStr u)] | None \<Rightarrow> []))"

definition saveBlocked :: "('g, 'c) ctl_env \<Rightarrow> blocked_entry list \<Rightarrow> ('g, unit) kact" where
  "saveBlocked E es = save_doc E ''blocked:'' (JArr (map blocked_json es))"

fun set_name :: "string \<Rightarrow> string \<Rightarrow> blocked_entry list \<Rightarrow> blocked_entry list" where
  "set_name k u [] = []"
| "set_name k u (e # es) = (if bl_k e = k then \<lparr>bl_k = k, bl_u = Some u\<rparr> # es else e # set_name k u es)"

definition block_key :: "string option \<Rightarrow> string \<Rightarrow> blocked_entry list \<Rightarrow> blocked_entry list" where
  "block_key username k es =
     (case find (\<lambda>e. bl_k e = k) es of
        None \<Rightarrow> es @ [\<lparr>bl_k = k, bl_u = username\<rparr>]
      | Some e \<Rightarrow>
          (case (bl_u e, username) of (None, Some u) \<Rightarrow> set_name k u es | _ \<Rightarrow> es))"

definition blockKeys :: "('g, 'c) ctl_env \<Rightarrow> string list \<Rightarrow> string option \<Rightarrow> ('g, unit) kact" where
  "blockKeys E keys username =
     bindA (loadBlockedEntries E) (\<lambda>es. saveBlocked E (fold (block_key username) keys es))"

definition isBlockedRoster :: "('g, 'c) ctl_env \<Rightarrow> string list \<Rightarrow> ('g, bool) kact" where
  "isBlockedRoster E peers =
     (if peers = [] then ret False
      else bindA (loadBlockedEntries E) (\<lambda>es. ret (list_all (\<lambda>k. k \<in> set (map bl_k es)) peers)))"

definition listBlocked :: "('g, 'c) ctl_env \<Rightarrow> ('g, (string \<times> string \<times> string option) list) kact" where
  "listBlocked E = bindA (loadBlockedEntries E) (\<lambda>es. ret (map (\<lambda>e. (bl_k e, fingerprintOf (bl_k e), bl_u e)) es))"

definition unblock :: "('g, 'c) ctl_env \<Rightarrow> string \<Rightarrow> ('g, (string \<times> string \<times> string option) list) kact" where
  "unblock E key =
     bindA (loadBlockedEntries E) (\<lambda>es.
       bindA (saveBlocked E (filter (\<lambda>e. bl_k e \<noteq> key) es)) (\<lambda>_. listBlocked E))"

end
