(* ===== verification/ControllerAccount.thy ===== *)
theory ControllerAccount
  imports ControllerBuddies
begin

text \<open>
  The account side of \<open>controller.ts\<close>: unlocking and discarding, the history-off mode, the recovery seed
  and the durable identity, the closed and the self-classified conversations, the Welcome outbox, the
  settings, the away reply (with \<open>specials.ts\<close>), and the storing and revoking of messages.
\<close>

section \<open>Settings\<close>

definition getPresenceEnabled :: "('g, 'c) ctl_env \<Rightarrow> ('g, bool) kact" where
  "getPresenceEnabled E = load_doc E ''presence-on:'' False (\<lambda>v. is_true (Some v))"

definition setPresenceEnabled :: "('g, 'c) ctl_env \<Rightarrow> bool \<Rightarrow> ('g, unit) kact" where
  "setPresenceEnabled E on = save_doc E ''presence-on:'' (JBool on)"

definition getNotifyEnabled :: "('g, 'c) ctl_env \<Rightarrow> ('g, bool) kact" where
  "getNotifyEnabled E = load_doc E ''notify-on:'' True (\<lambda>v. as_bool (Some v) \<noteq> Some False)"

definition setNotifyEnabled :: "('g, 'c) ctl_env \<Rightarrow> bool \<Rightarrow> ('g, unit) kact" where
  "setNotifyEnabled E on = save_doc E ''notify-on:'' (JBool on)"

definition getAppearance :: "('g, 'c) ctl_env \<Rightarrow> ('g, json) kact" where
  "getAppearance E = load_doc E ''theme:'' JNull id"

definition setAppearance :: "('g, 'c) ctl_env \<Rightarrow> json \<Rightarrow> ('g, unit) kact" where
  "setAppearance E v = save_doc E ''theme:'' v"

section \<open>The history-off mode\<close>

definition applyHistoryMode :: "('g, unit) kact" where
  "applyHistoryMode =
     (\<lambda>s. on_device (\<lambda>d. cs_setEphemeral (k_historyOff s) (kv_setEphemeral (k_historyOff s) d)) s)"

definition hydrateHistoryMode :: "('g, 'c) ctl_env \<Rightarrow> ('g, unit) kact" where
  "hydrateHistoryMode E =
     bindA (modA (\<lambda>s. s\<lparr>k_historyOff := False\<rparr>)) (\<lambda>_ s.
       if \<not> ke_sessions E then skip s
       else
         (let aad = keyed ''history:'' (k_account s);
              on = (case (load_rec aad s, k_mskKey s) of
                  (Some rec, Some key) \<Rightarrow> (case open_json E key aad rec of Some v \<Rightarrow> is_true (Some v) | None \<Rightarrow> False)
                | _ \<Rightarrow> False)
          in block [modA (\<lambda>s. s\<lparr>k_historyOff := on\<rparr>), applyHistoryMode] s))"

definition setHistoryOff :: "('g, 'c) ctl_env \<Rightarrow> bool \<Rightarrow> bool \<Rightarrow> ('g, unit) kact" where
  "setHistoryOff E on purgeExisting =
     (if \<not> ke_sessions E then skip
      else block
        [\<lambda>s. save_sealed E (keyed ''history:'' (k_account s)) (encode_json E (JBool on)) s,
         modA (\<lambda>s. s\<lparr>k_historyOff := on\<rparr>),
         applyHistoryMode,
         whenA (on \<and> purgeExisting) (block [on_device kv_purgeDurable, on_device cs_purgeDurable])])"

section \<open>Sets of conversation ids\<close>

text \<open>A JavaScript set, in the order of insertion.\<close>

definition set_add :: "'a \<Rightarrow> 'a list \<Rightarrow> 'a list" where
  "set_add x xs = (if x \<in> set xs then xs else xs @ [x])"

definition js_set :: "'a list \<Rightarrow> 'a list" where
  "js_set xs = fold set_add xs []"

definition ids_of :: "json \<Rightarrow> string list" where
  "ids_of v = (case v of JArr xs \<Rightarrow> js_set (List.map_filter (\<lambda>x. as_string (Some x)) xs) | _ \<Rightarrow> [])"

text \<open>The loaders that call \<open>requireKey\<close> inside their \<open>try\<close>: a locked controller reads the default.\<close>

definition load_quiet :: "('g, 'c) ctl_env \<Rightarrow> string \<Rightarrow> 'a \<Rightarrow> (json \<Rightarrow> 'a) \<Rightarrow> ('g, 'a) kact" where
  "load_quiet E prefix dflt f = catchA (load_doc E prefix dflt f) (\<lambda>_. ret dflt)"

definition loadClosedChannelIds :: "('g, 'c) ctl_env \<Rightarrow> ('g, string list) kact" where
  "loadClosedChannelIds E = load_quiet E ''closedchannels:'' [] ids_of"

definition recordClosedChannelId :: "('g, 'c) ctl_env \<Rightarrow> string \<Rightarrow> ('g, unit) kact" where
  "recordClosedChannelId E cid =
     (\<lambda>s. if \<not> ke_sessions E \<or> k_account s = None then skip s
          else bindA (loadClosedChannelIds E) (\<lambda>fresh.
            save_doc E ''closedchannels:'' (JArr (map JStr (set_add cid fresh)))) s)"

definition loadSelfGroupIds :: "('g, 'c) ctl_env \<Rightarrow> ('g, string list) kact" where
  "loadSelfGroupIds E =
     (\<lambda>s. case k_selfGroupIds s of
        Some ids \<Rightarrow> (Inr ids, s)
      | None \<Rightarrow>
          if \<not> ke_sessions E \<or> k_account s = None then (Inr [], s)
          else bindA (load_quiet E ''selfgroups:'' [] ids_of) (\<lambda>ids.
            bindA (modA (\<lambda>s. s\<lparr>k_selfGroupIds := Some ids\<rparr>)) (\<lambda>_. ret ids)) s)"

definition recordSelfGroupIds :: "('g, 'c) ctl_env \<Rightarrow> string list \<Rightarrow> ('g, unit) kact" where
  "recordSelfGroupIds E ids =
     (\<lambda>s. if \<not> ke_sessions E \<or> k_account s = None then skip s
          else block [modA (\<lambda>s. s\<lparr>k_selfGroupIds := Some ids\<rparr>),
                      save_doc E ''selfgroups:'' (JArr (map JStr ids))] s)"

section \<open>The Welcome outbox\<close>

definition is_pending_welcome :: "json \<Rightarrow> bool" where
  "is_pending_welcome c \<longleftrightarrow>
     as_string (json_prop c ''conversationId'') \<noteq> None \<and> as_string (json_prop c ''deviceKey'') \<noteq> None
     \<and> as_string (json_prop c ''welcomeHex'') \<noteq> None \<and> as_number (json_prop c ''createdAt'') \<noteq> None"

definition loadWelcomeOutbox :: "('g, 'c) ctl_env \<Rightarrow> ('g, json list) kact" where
  "loadWelcomeOutbox E =
     load_quiet E ''welcome-outbox:'' [] (\<lambda>v. case v of JArr es \<Rightarrow> filter is_pending_welcome es | _ \<Rightarrow> [])"

definition saveWelcomeOutbox :: "('g, 'c) ctl_env \<Rightarrow> json list \<Rightarrow> ('g, unit) kact" where
  "saveWelcomeOutbox E entries = save_doc E ''welcome-outbox:'' (JArr entries)"

section \<open>The away reply\<close>

text \<open>\<open>substituteSpecials\<close> of \<open>specials.ts\<close>\<close>

definition pad2 :: "nat \<Rightarrow> string" where
  "pad2 n = (let d = decimal n in if length d < 2 then CHR ''0'' # d else d)"

definition special_date :: "local_time \<Rightarrow> string" where
  "special_date t = decimal (lt_month t + 1) @ ''/'' @ decimal (lt_day t) @ ''/'' @ decimal (lt_year t)"

definition special_time :: "local_time \<Rightarrow> string" where
  "special_time t =
     (let h = lt_hours t in
      decimal (if h mod 12 = 0 then 12 else h mod 12) @ '':'' @ pad2 (lt_minutes t) @ '' '' @ (if h < 12 then ''AM'' else ''PM''))"

definition escape_name :: "string \<Rightarrow> string" where
  "escape_name s =
     concat (map (\<lambda>c. if c \<in> {CHR 0x5C, CHR ''*'', CHR ''_'', CHR ''['', CHR ''%''} then [CHR 0x5C, c] else [c]) s)"

fun substitute :: "string \<Rightarrow> local_time \<Rightarrow> string \<Rightarrow> string" where
  "substitute name t (p # c # cs) =
     (if p = CHR ''%'' \<and> c = CHR ''n'' then name @ substitute name t cs
      else if p = CHR ''%'' \<and> c = CHR ''d'' then special_date t @ substitute name t cs
      else if p = CHR ''%'' \<and> c = CHR ''t'' then special_time t @ substitute name t cs
      else p # substitute name t (c # cs))"
| "substitute name t cs = cs"

definition substituteSpecials :: "string \<Rightarrow> string option \<Rightarrow> local_time \<Rightarrow> string" where
  "substituteSpecials txt name t = substitute (escape_name (or_empty name)) t txt"

definition AWAY_COOLDOWN_MS :: int where "AWAY_COOLDOWN_MS = 600000"

definition truthy :: "json option \<Rightarrow> bool" where
  "truthy v =
     (case v of
        None \<Rightarrow> False
      | Some x \<Rightarrow> (case x of JNull \<Rightarrow> False | JBool b \<Rightarrow> b | JNum n \<Rightarrow> n \<noteq> 0 | JStr t \<Rightarrow> t \<noteq> [] | JArr _ \<Rightarrow> True | JObj _ \<Rightarrow> True))"

definition awayDedupeAad :: "string \<Rightarrow> string" where
  "awayDedupeAad cid = ''awaydedupe:'' @ cid"

definition awayDedupeAt :: "('g, 'c) ctl_env \<Rightarrow> string \<Rightarrow> ('g, rat option) kact" where
  "awayDedupeAt E cid =
     (\<lambda>s. if k_historyOff s then (Inr (map_option of_int (jm_get (k_awayDedupeMem s) cid)), s)
          else if \<not> ke_sessions E then (Inr None, s)
          else bindA requireKey (\<lambda>key.
            ret (case load_rec (awayDedupeAad cid) s of
                None \<Rightarrow> None
              | Some rec \<Rightarrow>
                  (case open_json E key (awayDedupeAad cid) rec of
                     Some v \<Rightarrow> as_number (json_prop v ''at'')
                   | None \<Rightarrow> None))) s)"

definition setAwayDedupe :: "('g, 'c) ctl_env \<Rightarrow> string \<Rightarrow> int \<Rightarrow> ('g, unit) kact" where
  "setAwayDedupe E cid t =
     (\<lambda>s. if k_historyOff s then modA (\<lambda>s. s\<lparr>k_awayDedupeMem := jm_set cid t (k_awayDedupeMem s)\<rparr>) s
          else if \<not> ke_sessions E then skip s
          else save_sealed E (awayDedupeAad cid) (encode_json E (JObj [(''at'', JNum (of_int t))])) s)"

definition awayReplyText :: "('g, 'c) ctl_env \<Rightarrow> string \<Rightarrow> string \<Rightarrow> ('g, string option) kact" where
  "awayReplyText E cid peerName =
     bindA (getIdentity E) (\<lambda>prof.
       case json_prop prof ''away'' of
         None \<Rightarrow> throw TypeError
       | Some away \<Rightarrow>
           if is_JNull away then throw TypeError
           else if \<not> truthy (json_prop away ''enabled'') then ret None
           else case as_string (json_prop away ''message'') of
               None \<Rightarrow> throw TypeError
             | Some msg \<Rightarrow>
                 if js_trim msg = [] then ret None
                 else bindA (nowK E) (\<lambda>now. bindA (awayDedupeAt E cid) (\<lambda>last.
                   if (case last of Some t \<Rightarrow> of_int now - t < of_int AWAY_COOLDOWN_MS | None \<Rightarrow> False) then ret None
                   else bindA (setAwayDedupe E cid now) (\<lambda>_.
                     ret (Some (substituteSpecials msg (Some peerName) (ke_local E now)))))))"

section \<open>The recovery seed\<close>

definition aakKey :: "'g ctl \<Rightarrow> string" where
  "aakKey s = keyed ''aak:'' (k_account s)"

definition load_session :: "('g, 'c) ctl_env \<Rightarrow> string \<Rightarrow> 'g ctl \<Rightarrow> sealed_session option" where
  "load_session E aad s = (if ke_sessions E then load_rec aad s else None)"

text \<open>Sealing into the optional store: the nonce is drawn in any case.\<close>

definition seal_into :: "('g, 'c) ctl_env \<Rightarrow> string \<Rightarrow> bytes \<Rightarrow> ('g, unit) kact" where
  "seal_into E aad plaintext =
     (if ke_sessions E then save_sealed E aad plaintext
      else bindA requireKey (\<lambda>_. bindA (drawK E 12) (\<lambda>_. skip)))"

definition loadAccountSeed :: "('g, 'c) ctl_env \<Rightarrow> ('g, string) kact" where
  "loadAccountSeed E =
     (\<lambda>s. case k_aakSeedHex s of
        Some h \<Rightarrow> (Inr h, s)
      | None \<Rightarrow>
          bindA requireKey (\<lambda>key.
            case load_session E (aakKey s) s of
              None \<Rightarrow> ret []
            | Some rec \<Rightarrow>
                (case openUnder (ke_aead E) key (ss_sealed rec) (aakKey s) of
                   Inl e \<Rightarrow> throw e
                 | Inr seed \<Rightarrow>
                     bindA (modA (\<lambda>s. s\<lparr>k_aakSeedHex := Some (bytesToHex seed)\<rparr>)) (\<lambda>_. ret (bytesToHex seed)))) s)"

definition ensureAccountSeed :: "('g, 'c) ctl_env \<Rightarrow> ('g, unit) kact" where
  "ensureAccountSeed E =
     bindA requireKey (\<lambda>_ s.
       if load_session E (aakKey s) s \<noteq> None then skip s
       else bindA (drawK E 32) (\<lambda>seed. block
         [seal_into E (aakKey s) seed,
          modA (\<lambda>s. s\<lparr>k_aakSeedHex := Some (bytesToHex seed), k_freshRecoverySecret := Some (bytesToHex seed)\<rparr>)]) s)"

definition recoverySecret :: "('g, string option) kact" where
  "recoverySecret = (\<lambda>s. (Inr (k_freshRecoverySecret s), s\<lparr>k_freshRecoverySecret := None\<rparr>))"

text \<open>\<open>s.replace(/\s+/g, '')\<close>\<close>

function remove_spaces :: "string \<Rightarrow> string" where
  "remove_spaces s =
     (case s of
        [] \<Rightarrow> []
      | c # cs \<Rightarrow>
          (case find (\<lambda>w. w \<noteq> [] \<and> starts_with s w) ws_chars of
             Some w \<Rightarrow> remove_spaces (drop (length w) s)
           | None \<Rightarrow> c # remove_spaces cs))"
  by auto
termination
  by (relation "measure length") (auto simp: find_Some_iff)

declare remove_spaces.simps [simp del]

definition seed_text :: "('g, 'c) ctl_env \<Rightarrow> string \<Rightarrow> string" where
  "seed_text E s = remove_spaces (toLowerCase (ke_account E) (js_trim s))"

definition recoverWithSeed_ctl :: "('g, 'c) ctl_env \<Rightarrow> string \<Rightarrow> int \<Rightarrow> ('g, string option) kact" where
  "recoverWithSeed_ctl E recoverySeedHex epoch =
     (let seedHex = seed_text E recoverySeedHex in
      if \<not> is_account_key seedHex then ret (Some ''that does not look like a recovery secret'')
      else bindA (catchA (bindA (requireGroupK E (gi_recoverWithSeed (ke_group E) seedHex epoch)) (\<lambda>_. ret True))
                         (\<lambda>_. ret False)) (\<lambda>ok.
        if \<not> ok then ret (Some ''could not recover with that secret'')
        else bindA (block
          [\<lambda>s. seal_into E (aakKey s) (hexToBytes seedHex) s,
           modA (\<lambda>s. s\<lparr>k_aakSeedHex := Some seedHex\<rparr>)]) (\<lambda>_. ret None)))"

section \<open>The durable identity\<close>

definition selfKey :: "('g, string) kact" where
  "selfKey = bindA requireAccount (\<lambda>a. ret (''self:'' @ a))"

definition loadSelf :: "('g, 'c) ctl_env \<Rightarrow> ('g, 'c option) kact" where
  "loadSelf E =
     (\<lambda>s. case k_mskRaw s of
        None \<Rightarrow> (Inr None, s)
      | Some msk \<Rightarrow>
          if \<not> ke_live E \<or> \<not> ke_sessions E then (Inr None, s)
          else bindA selfKey (\<lambda>k.
            ret (case load_rec k s of
                None \<Rightarrow> None
              | Some rec \<Rightarrow> ke_restoreConversation E msk (ss_sealed rec))) s)"

definition saveSelf :: "('g, 'c) ctl_env \<Rightarrow> 'c \<Rightarrow> ('g, unit) kact" where
  "saveSelf E conv =
     (\<lambda>s. case k_mskRaw s of
        None \<Rightarrow> skip s
      | Some msk \<Rightarrow>
          if \<not> ke_live E \<or> \<not> ke_sessions E then skip s
          else bindA selfKey (\<lambda>k.
            if load_rec k s \<noteq> None then skip
            else on_db (ss_save \<lparr>ss_conversationId = k, ss_sealed = ke_sealConversation E conv msk\<rparr>)) s)"

definition authorizedKey :: "string option \<Rightarrow> string" where
  "authorizedKey account = keyed ''authorized:'' account"

definition resealSelf_ctl :: "('g, 'c) ctl_env \<Rightarrow> 'c \<Rightarrow> ('g, bool) kact" where
  "resealSelf_ctl E conv =
     (\<lambda>s. case k_mskRaw s of
        None \<Rightarrow> (Inr False, s)
      | Some msk \<Rightarrow>
          if \<not> ke_live E \<or> \<not> ke_sessions E then (Inr False, s)
          else bindA selfKey (\<lambda>k. bindA (block
            [on_db (ss_save \<lparr>ss_conversationId = k, ss_sealed = ke_sealConversation E conv msk\<rparr>),
             on_db (ss_save \<lparr>ss_conversationId = authorizedKey (k_account s), ss_sealed = [1]\<rparr>)]) (\<lambda>_. ret True)) s)"

definition isGroupReady :: "('g, 'c) ctl_env \<Rightarrow> 'g ctl \<Rightarrow> bool" where
  "isGroupReady E s \<longleftrightarrow>
     k_account s \<noteq> None \<and> ke_sessions E
     \<and> (load_rec (aakKey s) s \<noteq> None \<or> load_rec (authorizedKey (k_account s)) s \<noteq> None)"

text \<open>Whether the device is authorized, and whether it holds the seed.\<close>

definition deviceAuthState :: "('g, 'c) ctl_env \<Rightarrow> 'g ctl \<Rightarrow> bool \<times> bool" where
  "deviceAuthState E s =
     (if \<not> ke_sessions E \<or> k_account s = None then (True, False)
      else (isGroupReady E s, load_rec (aakKey s) s \<noteq> None))"

section \<open>Messages\<close>

definition draw_seal :: "('g, 'c) ctl_env \<Rightarrow> ('g, seal_random) kact" where
  "draw_seal E =
     bindA (drawK E 32) (\<lambda>p. bindA (drawK E 12) (\<lambda>n. bindA (drawK E 12) (\<lambda>w.
       ret \<lparr>r_pmk = p, r_nonce = n, r_wrapNonce = w\<rparr>)))"

definition persistLiveMessage :: "('g, 'c) ctl_env \<Rightarrow> seal_meta \<Rightarrow> bytes \<Rightarrow> ('g, unit) kact" where
  "persistLiveMessage E meta plaintext =
     (if \<not> ke_live E then skip
      else bindA requireKey (\<lambda>key. bindA (draw_seal E) (\<lambda>rnd. bindA (nowK E) (\<lambda>now.
        lifetimeK E (\<lambda>m. ((), snd (storeIncoming (ke_aead E) idb_keyvault rnd now key meta plaintext
          (m_direction meta = Out) m)))))))"

text \<open>A revoke that arrived is honoured only for a recallable message of its own conversation.\<close>

definition revocable_by :: "bool \<Rightarrow> string \<Rightarrow> vault_record option \<Rightarrow> bool" where
  "revocable_by fromOwnAccount cid rec =
     (case rec of
        None \<Rightarrow> False
      | Some r \<Rightarrow> conversationId r = cid \<and> lifetimeKind r = ''until-revoked'' \<and> (direction r = Out \<longrightarrow> fromOwnAccount))"

definition revokeK :: "('g, 'c) ctl_env \<Rightarrow> string \<Rightarrow> ('g, unit) kact" where
  "revokeK E mid = whenA (ke_live E) (lifetimeK E (\<lambda>m. ((), revoke idb_keyvault mid m)))"

definition applyInboundRevoke :: "('g, 'c) ctl_env \<Rightarrow> string \<Rightarrow> string \<Rightarrow> bool \<Rightarrow> ('g, unit) kact" where
  "applyInboundRevoke E cid mid fromOwnAccount =
     (\<lambda>s. whenA (ke_live E \<and> revocable_by fromOwnAccount cid (kv_get (k_device s) mid)) (revokeK E mid) s)"

text \<open>The part of \<open>revokeMessage\<close> before the view is built again.\<close>

definition may_revoke :: "string \<Rightarrow> vault_record option \<Rightarrow> bool" where
  "may_revoke cid rec =
     (case rec of
        None \<Rightarrow> False
      | Some r \<Rightarrow>
          conversationId r = cid \<and> (direction r = Out \<or> ownAuthored r) \<and> lifetimeKind r = ''until-revoked'')"

definition revoke_own :: "('g, 'c) ctl_env \<Rightarrow> string \<Rightarrow> string \<Rightarrow> ('g, unit) kact" where
  "revoke_own E cid mid =
     (\<lambda>s. whenA (may_revoke cid (kv_get (k_device s) mid))
            (block [requireGroupK E (gi_revokeMessage (ke_group E) cid mid), revokeK E mid]) s)"

section \<open>Unlocking\<close>

definition accountIdFor :: "('g, 'c) ctl_env \<Rightarrow> string \<Rightarrow> string" where
  "accountIdFor E username = sha256Hex (ke_account E) (normalizeUsername (ke_account E) username)"

definition credentialFor :: "('g, 'c) ctl_env \<Rightarrow> string \<Rightarrow> string \<Rightarrow> string" where
  "credentialFor E username passphrase = normalizeUsername (ke_account E) username @ US @ passphrase"

datatype unlock_result = Unlocked bool | Refused string

definition vault_unlock :: "('g, 'c) ctl_env \<Rightarrow> string \<Rightarrow> string \<Rightarrow> 'g ctl \<Rightarrow> bytes option" where
  "vault_unlock E account credential s = mv_unlock (ke_aead E) (ke_derive E) account credential (db (k_device s))"

definition vault_create :: "('g, 'c) ctl_env \<Rightarrow> string \<Rightarrow> string \<Rightarrow> ('g, bytes) kact" where
  "vault_create E account credential =
     bindA (drawK E 16) (\<lambda>salt. bindA (drawK E 32) (\<lambda>msk. bindA (drawK E 12) (\<lambda>n s.
       let rnd = \<lparr>rnd_salt = salt, rnd_msk = msk, rnd_wrapNonce = n\<rparr> in
       bindA (on_db (\<lambda>d. snd (mv_create (ke_aead E) (ke_derive E) rnd account credential d))) (\<lambda>_. ret msk) s)))"

definition open_session :: "('g, 'c) ctl_env \<Rightarrow> string \<Rightarrow> bytes \<Rightarrow> ('g, unit) kact" where
  "open_session E account raw =
     block
       [modA (\<lambda>s. s\<lparr>k_account := Some account, k_mskKey := Some raw,
                    k_mskRaw := (if ke_live E then Some raw else k_mskRaw s)\<rparr>),
        hydrateHistoryMode E,
        liveK E (bindA (nowK E) (\<lambda>now. lifetimeK E (\<lambda>m. ((), sweepExpired idb_keyvault now m))))]"

definition unlock :: "('g, 'c) ctl_env \<Rightarrow> string \<Rightarrow> string \<Rightarrow> ('g, unlock_result) kact" where
  "unlock E username passphrase =
     (if js_trim username = [] then ret (Refused ''enter a username'')
      else if passphrase = [] then ret (Refused ''enter a passphrase'')
      else
        (let account = accountIdFor E username; credential = credentialFor E username passphrase in
         (\<lambda>s. case vault_unlock E account credential s of
             Some raw \<Rightarrow> bindA (open_session E account raw) (\<lambda>_. ret (Unlocked False)) s
           | None \<Rightarrow>
               if mv_exists account (db (k_device s)) then (Inr (Refused ''wrong username or passphrase''), s)
               else bindA (vault_create E account credential) (\<lambda>raw.
                 bindA (open_session E account raw) (\<lambda>_. ret (Unlocked True))) s)))"

definition verifyPassphrase :: "('g, 'c) ctl_env \<Rightarrow> string \<Rightarrow> string \<Rightarrow> 'g ctl \<Rightarrow> bool" where
  "verifyPassphrase E username passphrase s \<longleftrightarrow>
     js_trim username \<noteq> [] \<and> passphrase \<noteq> []
     \<and> vault_unlock E (accountIdFor E username) (credentialFor E username passphrase) s \<noteq> None"

definition discardAccount :: "('g, 'c) ctl_env \<Rightarrow> string \<Rightarrow> ('g, unit) kact" where
  "discardAccount E username =
     (let account = accountIdFor E username in block
       [whenA (ke_sessions E) (block
          [on_db (ss_delete (''self:'' @ account)), on_db (ss_delete (''authorized:'' @ account)),
           on_db (ss_delete (''aak:'' @ account))]),
        on_db (mv_delete account),
        modA (\<lambda>s. s\<lparr>k_mskKey := None, k_mskRaw := None, k_account := None\<rparr>)])"

end
