(* ===== verification/ControllerView.thy ===== *)
theory ControllerView
  imports ControllerAccount
begin

text \<open>
  The conversations of \<open>controller.ts\<close>: the sealed channel summaries and their list, the record of the
  account's own groups with its self-healing, blocking and removing a conversation, and \<open>openChannel\<close>,
  which builds the view of one conversation with its trust badge and reads its stored messages.
\<close>

section \<open>Channel summaries\<close>

definition channelAad :: "string \<Rightarrow> string" where
  "channelAad cid = ''channel:'' @ cid"

definition text_prop :: "json \<Rightarrow> string \<Rightarrow> string" where
  "text_prop v k = or_empty (as_string (json_prop v k))"

definition saveChannel :: "('g, 'c) ctl_env \<Rightarrow> json \<Rightarrow> ('g, unit) kact" where
  "saveChannel E summary =
     bindA requireKey (\<lambda>key. bindA (drawK E 12) (\<lambda>nonce.
       let cid = text_prop summary ''id'' in
       on_device (cs_put \<lparr>ch_id = cid,
         ch_blob = sealUnder (ke_aead E) nonce key (encode_json E summary) (channelAad cid)\<rparr>)))"

text \<open>\<open>None\<close> when the record belongs to another account or does not parse.\<close>

definition decodeChannel :: "('g, 'c) ctl_env \<Rightarrow> bytes \<Rightarrow> channel_record \<Rightarrow> json option" where
  "decodeChannel E key rec =
     (case openUnder (ke_aead E) key (ch_blob rec) (channelAad (ch_id rec)) of
        Inl _ \<Rightarrow> None
      | Inr p \<Rightarrow> ke_parse E (TextDecoder_decode p))"

definition channel_rows :: "('g, 'c) ctl_env \<Rightarrow> bytes \<Rightarrow> 'g ctl \<Rightarrow> json list" where
  "channel_rows E key s = List.map_filter (decodeChannel E key) (cs_list (k_device s))"

definition read_channel :: "('g, 'c) ctl_env \<Rightarrow> bytes \<Rightarrow> string \<Rightarrow> 'g ctl \<Rightarrow> json option" where
  "read_channel E key cid s =
     (case cs_get cid (k_device s) of Some rec \<Rightarrow> decodeChannel E key rec | None \<Rightarrow> None)"

definition peerFor :: "('g, 'c) ctl_env \<Rightarrow> string \<Rightarrow> ('g, string) kact" where
  "peerFor E cid =
     bindA requireKey (\<lambda>key. readA (\<lambda>s.
       case read_channel E key cid s of Some v \<Rightarrow> text_prop v ''peer'' | None \<Rightarrow> []))"

section \<open>Own groups\<close>

text \<open>The test of a conversation against everything known to be an own group, in the order of the code.\<close>

definition classifies_self :: "('g, 'c) ctl_env \<Rightarrow> string \<Rightarrow> string list \<Rightarrow> ('g, bool) kact" where
  "classifies_self E cid recorded =
     (if cid \<in> set recorded then ret True
      else bindA (askK E None gi_selfConversationId) (\<lambda>live.
        if live = Some cid then ret True else askK E False (\<lambda>G. gi_isSelfConversationId G cid)))"

definition remember_self :: "('g, 'c) ctl_env \<Rightarrow> string \<Rightarrow> string list \<Rightarrow> ('g, unit) kact" where
  "remember_self E cid recorded = block
     [modA (\<lambda>s. s\<lparr>k_selfGroupIds := map_option (set_add cid) (k_selfGroupIds s)\<rparr>),
      recordSelfGroupIds E (set_add cid recorded)]"

fun heal_groups :: "('g, 'c) ctl_env \<Rightarrow> string list \<Rightarrow> string list \<Rightarrow> bool \<Rightarrow> ('g, bool) kact" where
  "heal_groups E held [] healed = ret healed"
| "heal_groups E held (i # ids) healed =
     bindA (readA (queryK E False (\<lambda>G. gi_isUnlinkedConversationId G i))) (\<lambda>unlinked.
       if i \<notin> set held \<or> \<not> unlinked then heal_groups E held ids healed
       else bindA (catchA (groupK (gi_abandonDeadSelfGroup (ke_group E) i True)) (\<lambda>_. ret False)) (\<lambda>abandoned.
         if \<not> abandoned then heal_groups E held ids healed
         else bindA (on_device (cs_delete i)) (\<lambda>_. heal_groups E held ids True)))"

definition healDeadSelfGroups :: "('g, 'c) ctl_env \<Rightarrow> string list \<Rightarrow> ('g, unit) kact" where
  "healDeadSelfGroups E ids =
     (if \<not> ke_live E \<or> ids = [] then skip
      else bindA (readA (queryK E [] gi_heldConversationIds)) (\<lambda>held.
        bindA (heal_groups E held ids False) (\<lambda>healed.
          bindA (readA (queryK E [] gi_heldConversationIds)) (\<lambda>still.
            whenA healed (catchA (recordSelfGroupIds E (filter (\<lambda>i. i \<in> set still) ids)) (\<lambda>_. skip))))))"

fun classify_rows ::
  "('g, 'c) ctl_env \<Rightarrow> string list \<Rightarrow> json list \<Rightarrow> string list \<times> bool \<Rightarrow> ('g, string list \<times> bool) kact" where
  "classify_rows E recorded [] acc = ret acc"
| "classify_rows E recorded (c # rows) acc =
     (let cid = text_prop c ''id'' in
      bindA (if cid \<in> set (fst acc) then ret True else askK E False (\<lambda>G. gi_isSelfConversationId G cid)) (\<lambda>isSelf.
        if \<not> isSelf then classify_rows E recorded rows acc
        else if cid \<in> set recorded then classify_rows E recorded rows (set_add cid (fst acc), snd acc)
        else bindA (on_device (cs_delete cid)) (\<lambda>_. classify_rows E recorded rows (set_add cid (fst acc), True))))"

definition reconcileSelfGroupRecords :: "('g, 'c) ctl_env \<Rightarrow> json list option \<Rightarrow> ('g, string list) kact" where
  "reconcileSelfGroupRecords E summaries =
     bindA (case summaries of
              Some rows \<Rightarrow> ret rows
            | None \<Rightarrow> bindA requireKey (\<lambda>key. readA (channel_rows E key))) (\<lambda>rows.
       bindA (loadSelfGroupIds E) (\<lambda>recorded. bindA (askK E None gi_selfConversationId) (\<lambda>live.
         bindA (classify_rows E recorded rows
                  (case live of Some i \<Rightarrow> set_add i recorded | None \<Rightarrow> recorded, False)) (\<lambda>(hidden, changed).
           bindA (block [whenA changed (recordSelfGroupIds E hidden), healDeadSelfGroups E hidden]) (\<lambda>_. ret hidden)))))"

text \<open>The display-time advice on a row.\<close>

definition advised :: "('g, 'c) ctl_env \<Rightarrow> 'g ctl \<Rightarrow> json \<Rightarrow> json" where
  "advised E s c =
     (let cid = text_prop c ''id'';
          reason = queryK E [] (\<lambda>G. gi_selfClassificationReason G cid) s;
          preview = (\<lambda>t. spread_set c [(''preview'', JStr t)]) in
      if reason \<noteq> [] \<and> reason \<noteq> ''self'' \<and> reason \<noteq> ''no such conversation'' \<and> \<not> str_includes reason ''different account'' then
        preview (''self-group '' @ js_take 8 (groupId_of cid) @ '' not recognized: '' @ reason)
      else if cid \<notin> set (queryK E [] gi_heldConversationIds s) then preview ''no live crypto session (dead ghost)''
      else if queryK E False (\<lambda>G. gi_isUnlinkedConversationId G cid) s then preview ''no verified device can receive here''
      else c)"

definition listChannels :: "('g, 'c) ctl_env \<Rightarrow> ('g, json list) kact" where
  "listChannels E =
     bindA requireKey (\<lambda>key. bindA (readA (channel_rows E key)) (\<lambda>rows.
       bindA (reconcileSelfGroupRecords E (Some rows)) (\<lambda>hidden.
         readA (\<lambda>s. map (advised E s) (filter (\<lambda>c. text_prop c ''id'' \<notin> set hidden) rows)))))"

definition sweepDeadChannels :: "('g, 'c) ctl_env \<Rightarrow> ('g, unit) kact" where
  "sweepDeadChannels E =
     bindA (readA (queryK E [] gi_heldConversationIds)) (\<lambda>held.
       if held = [] then skip
       else bindA requireKey (\<lambda>key. bindA (loadSelfGroupIds E) (\<lambda>recorded.
         bindA (readA (channel_rows E key)) (\<lambda>rows.
           forA rows (\<lambda>c. let cid = text_prop c ''id'' in
             whenA (cid \<notin> set held \<and> cid \<notin> set recorded) (on_device (cs_delete cid)))))))"

definition connectGateway_ctl :: "('g, 'c) ctl_env \<Rightarrow> string \<Rightarrow> ('g, bool) kact" where
  "connectGateway_ctl E wsUrl =
     bindA (requireGroupK E (gi_connectGateway (ke_group E) wsUrl)) (\<lambda>ok.
       bindA (whenA ok (block
         [catchA (bindA (reconcileSelfGroupRecords E None) (\<lambda>_. skip)) (\<lambda>_. skip),
          catchA (sweepDeadChannels E) (\<lambda>_. skip)])) (\<lambda>_. ret ok))"

section \<open>Blocking and removing\<close>

text \<open>Closing for good; what the channel refuses to close is an own group, and is hidden and recorded.\<close>

definition retire :: "('g, 'c) ctl_env \<Rightarrow> string \<Rightarrow> ('g, unit) kact" where
  "retire E cid = block
     [catchA (block [groupK (gi_closeConversation (ke_group E) cid), recordClosedChannelId E cid])
        (\<lambda>_. bindA (loadSelfGroupIds E) (remember_self E cid)),
      on_device (cs_delete cid)]"

definition unless_self :: "('g, 'c) ctl_env \<Rightarrow> string \<Rightarrow> ('g, unit) kact \<Rightarrow> ('g, unit) kact" where
  "unless_self E cid m =
     bindA (loadSelfGroupIds E) (\<lambda>recorded. bindA (classifies_self E cid recorded) (\<lambda>isSelf.
       if isSelf then block [remember_self E cid recorded, on_device (cs_delete cid)] else m))"

definition blockConversation :: "('g, 'c) ctl_env \<Rightarrow> string \<Rightarrow> ('g, unit) kact" where
  "blockConversation E cid =
     (if \<not> ke_live E then skip
      else unless_self E cid
        (bindA (handleForConversation E cid) (\<lambda>username.
          bindA (askK E [] (\<lambda>G. gi_peerRoster G cid)) (\<lambda>peers.
            block [blockKeys E peers username, retire E cid]))))"

definition removeConversation :: "('g, 'c) ctl_env \<Rightarrow> string \<Rightarrow> ('g, unit) kact" where
  "removeConversation E cid = (if \<not> ke_live E then skip else unless_self E cid (retire E cid))"

section \<open>The view of a conversation\<close>

datatype trust = Offline | Insecure | Unreachable | KeyChanged | OwnDevices | TrustVerified | Unverified

datatype log_entry =
    LSystem string
  | LMessage string string lifetime "nat option" "int option" "string option"
  | LDestroyed

record transmit_model =
  tm_secure :: bool
  tm_peer :: string
  tm_fingerprint :: "string option"
  tm_selfNote :: bool
  tm_trust :: trust
  tm_trustNote :: "string option"
  tm_selfDiag :: "string option"
  tm_peerHandle :: "string option"
  tm_peerIsBuddy :: bool
  tm_verifyState :: "verify_state option"
  tm_log :: "log_entry list"
  tm_conversationId :: string

definition lifetimeOf :: "string \<Rightarrow> nat option \<Rightarrow> lifetime" where
  "lifetimeOf kind remaining =
     (if kind = ''duration'' then Duration (case remaining of Some n \<Rightarrow> n | None \<Rightarrow> 0)
      else if kind = ''burn-on-read'' then BurnOnRead else UntilRevoked)"

text \<open>Recognizing the own group, and remembering that it is one.\<close>

definition recognize_self :: "('g, 'c) ctl_env \<Rightarrow> string \<Rightarrow> bool \<Rightarrow> string list \<Rightarrow> ('g, bool) kact" where
  "recognize_self E cid forceSelf recorded =
     (\<lambda>s. if forceSelf \<or> k_selfConvId s = Some cid then (Inr True, s)
          else bindA (askK E None gi_selfConversationId) (\<lambda>live.
            if live = Some cid then ret True
            else bindA (askK E False (\<lambda>G. gi_isSelfConversationId G cid)) (\<lambda>b. ret (b \<or> cid \<in> set recorded))) s)"

definition note_self :: "('g, 'c) ctl_env \<Rightarrow> string \<Rightarrow> string list \<Rightarrow> ('g, unit) kact" where
  "note_self E cid recorded = block
     [modA (\<lambda>s. s\<lparr>k_selfConvId := Some cid\<rparr>),
      whenA (cid \<notin> set recorded) (recordSelfGroupIds E (set_add cid recorded)),
      on_device (\<lambda>d. if cs_get cid d \<noteq> None then cs_delete cid d else d)]"

definition conversation_state :: "string list \<Rightarrow> string \<Rightarrow> verify_state" where
  "conversation_state keys vk =
     (if vk \<noteq> [] then (case keys of [k] \<Rightarrow> if k \<noteq> vk then Changed else Verified | _ \<Rightarrow> Stale)
      else (case keys of [k] \<Rightarrow> VNone | _ \<Rightarrow> Unavailable))"

definition verify_of :: "('g, 'c) ctl_env \<Rightarrow> string \<Rightarrow> ('g, verify_state) kact" where
  "verify_of E cid =
     bindA (handleForConversation E cid) (\<lambda>hdl.
       bindA (case hdl of Some u \<Rightarrow> bindA (loadBuddyMap E) (\<lambda>m. ret (vk_at m u)) | None \<Rightarrow> ret []) (\<lambda>vk.
         readA (\<lambda>s. conversation_state (queryK E [] (\<lambda>G. gi_peerAccountKeysFor G cid) s) vk)))"

definition benign_reason :: "string \<Rightarrow> bool" where
  "benign_reason r \<longleftrightarrow>
     r = [] \<or> r = ''self'' \<or> r = ''no such conversation'' \<or> starts_with r ''this device has no account anchor''"

definition own_trust :: "('g, 'c) ctl_env \<Rightarrow> string \<Rightarrow> ('g, trust \<times> string option) kact" where
  "own_trust E cid =
     bindA (readA (queryK E [] (\<lambda>G. gi_selfClassificationReason G cid))) (\<lambda>reason.
       if \<not> benign_reason reason then ret (Insecure, Some reason)
       else bindA (askK E [] (\<lambda>G. gi_roster G cid)) (\<lambda>members.
         let n = length members in
         ret (OwnDevices, if 0 < n then Some (decimal n @ '' device'' @ (if n = 1 then [] else ''s'')) else None)))"

text \<open>The badge, with its precedence: a fault of the crypto layer before a milder state.\<close>

definition trust_badge ::
  "('g, 'c) ctl_env \<Rightarrow> string \<Rightarrow> bool \<Rightarrow> bool \<Rightarrow> verify_state option \<Rightarrow> ('g, trust \<times> string option) kact" where
  "trust_badge E cid secure isSelf vs =
     (if \<not> secure then ret (Offline, None)
      else if isSelf then own_trust E cid
      else bindA (readA (queryK E False (\<lambda>G. gi_isUnlinkedConversationId G cid))) (\<lambda>unlinked.
        ret (if unlinked then (Unreachable, None)
             else case vs of
                 Some Changed \<Rightarrow> (KeyChanged, None)
               | Some Verified \<Rightarrow> (TrustVerified, None)
               | Some Stale \<Rightarrow> (Unverified, Some ''cannot check right now'')
               | _ \<Rightarrow> (Unverified, None))))"

fun self_ids :: "('g, 'c) ctl_env \<Rightarrow> string list \<Rightarrow> string list \<Rightarrow> ('g, string list) kact" where
  "self_ids E [] acc = ret acc"
| "self_ids E (i # held) acc =
     bindA (askK E False (\<lambda>G. gi_isSelfConversationId G i)) (\<lambda>b. self_ids E held (if b then set_add i acc else acc))"

definition view_records :: "('g, 'c) ctl_env \<Rightarrow> string \<Rightarrow> bool \<Rightarrow> string list \<Rightarrow> ('g, vault_record list) kact" where
  "view_records E cid isSelf recorded =
     bindA (readA (\<lambda>s. kv_listByConversation cid (k_device s))) (\<lambda>own.
       if \<not> isSelf then ret own
       else bindA (readA (queryK E [] gi_heldConversationIds)) (\<lambda>held.
         bindA (self_ids E held recorded) (\<lambda>ids.
           readA (\<lambda>s. own @ concat (map (\<lambda>i. kv_listByConversation i (k_device s)) (filter (\<lambda>i. i \<noteq> cid) ids))))))"

definition arm_viewed :: "('g, 'c) ctl_env \<Rightarrow> vault_record \<Rightarrow> ('g, unit) kact" where
  "arm_viewed E v =
     whenA (direction v = In) (liveK E (bindA (nowK E) (\<lambda>now.
       lifetimeK E (\<lambda>m. ((), armOnView idb_keyvault now (messageId v) (Some v) m)))))"

definition remaining_seconds :: "int \<Rightarrow> vault_record \<Rightarrow> nat option" where
  "remaining_seconds now v =
     (case expiresAtMs v of Some d \<Rightarrow> Some (nat (max 0 ((d - now + 500) div 1000))) | None \<Rightarrow> durationSeconds v)"

text \<open>A burn-on-read message: what its entry shows, \<open>None\<close> when it is passed over.\<close>

definition burn_entry ::
  "('g, 'c) ctl_env \<Rightarrow> bytes \<Rightarrow> bool \<Rightarrow> string \<Rightarrow> vault_record \<Rightarrow> ('g, log_entry option) kact" where
  "burn_entry E key secure sender v =
     (if is_read v then ret (Some LDestroyed)
      else if \<not> secure \<or> \<not> ke_live E then ret None
      else bindA (lifetimeK E (openBurnOnRead (ke_aead E) idb_keyvault key (messageId v))) (\<lambda>r.
        ret (case r of
            Inl _ \<Rightarrow> None
          | Inr None \<Rightarrow> Some LDestroyed
          | Inr (Some framed) \<Rightarrow> Some (LMessage sender (TextDecoder_decode framed) BurnOnRead None None None))))"

definition plain_entry ::
  "('g, 'c) ctl_env \<Rightarrow> bytes \<Rightarrow> string \<Rightarrow> string \<Rightarrow> vault_record \<Rightarrow> ('g, log_entry option) kact" where
  "plain_entry E key cid sender v =
     (case open_record (ke_aead E) key v of
        Inl _ \<Rightarrow> ret None
      | Inr framed \<Rightarrow> bindA (nowK E) (\<lambda>now.
          let left = remaining_seconds now v in
          ret (Some (LMessage sender (TextDecoder_decode framed) (lifetimeOf (lifetimeKind v) left) left (expiresAtMs v)
            (if lifetimeKind v = ''until-revoked'' \<and> (direction v = Out \<or> ownAuthored v) \<and> conversationId v = cid
             then Some (messageId v) else None)))))"

definition view_entry ::
  "('g, 'c) ctl_env \<Rightarrow> bytes \<Rightarrow> string \<Rightarrow> bool \<Rightarrow> bool \<Rightarrow> string \<Rightarrow> vault_record \<Rightarrow> ('g, log_entry option) kact" where
  "view_entry E key cid secure isSelf peer v =
     (let sender = (if direction v = In \<and> \<not> isSelf then peer else ''YOU'') in
      if lifetimeKind v = ''burn-on-read'' then burn_entry E key secure sender v else plain_entry E key cid sender v)"

fun view_log ::
  "(vault_record \<Rightarrow> ('g, log_entry option) kact) \<Rightarrow> vault_record list \<Rightarrow> log_entry list \<Rightarrow> ('g, log_entry list) kact" where
  "view_log f [] acc = ret acc"
| "view_log f (v # vs) acc =
     bindA (f v) (\<lambda>e. view_log f vs (case e of Some x \<Rightarrow> acc @ [x] | None \<Rightarrow> acc))"

definition quoted :: "string \<Rightarrow> string" where
  "quoted t = map char_of [0xC2 :: nat, 0xBB] @ '' '' @ t"

definition opening_log :: "bool \<Rightarrow> verify_state option \<Rightarrow> log_entry list" where
  "opening_log unlinked vs =
     [LSystem (quoted (''channel open '' @ MIDDLE_DOT @ '' forward secrecy active''))]
     @ (if unlinked then
          [LSystem (quoted (''no verified device on this channel '' @ MIDDLE_DOT @ '' sent messages may be unreachable''))] else [])
     @ (if vs = Some Changed then
          [LSystem (quoted (''identity changed '' @ MIDDLE_DOT @ '' this is not the key you verified for this buddy ''
             @ MIDDLE_DOT @ '' confirm with them before trusting this channel''))] else [])"

text \<open>What the view knows before it reads messages: the summary, what the conversation is, and its badge.\<close>

record view_head =
  vh_key :: bytes
  vh_summary :: "json option"
  vh_recorded :: "string list"
  vh_self :: bool
  vh_secure :: bool
  vh_peer :: string
  vh_unlinked :: bool
  vh_verify :: "verify_state option"
  vh_trust :: trust
  vh_note :: "string option"

definition shown_peer :: "bool \<Rightarrow> json option \<Rightarrow> string" where
  "shown_peer isSelf summary =
     (if isSelf then ''Note to Self'' else case summary of Some v \<Rightarrow> text_prop v ''peer'' | None \<Rightarrow> ''UNKNOWN'')"

definition is_secure :: "bool \<Rightarrow> json option \<Rightarrow> bool" where
  "is_secure isSelf summary \<longleftrightarrow> isSelf \<or> (case summary of Some v \<Rightarrow> text_prop v ''status'' = ''secure'' | None \<Rightarrow> False)"

text \<open>The state of the summary and of the records of own groups, after which the conversation is known to be one or not.\<close>

definition recognize ::
  "('g, 'c) ctl_env \<Rightarrow> string \<Rightarrow> bool \<Rightarrow> ('g, bytes \<times> json option \<times> string list \<times> bool) kact" where
  "recognize E cid forceSelf =
     bindA requireKey (\<lambda>key. bindA (readA (read_channel E key cid)) (\<lambda>summary.
       bindA (loadSelfGroupIds E) (\<lambda>recorded. bindA (recognize_self E cid forceSelf recorded) (\<lambda>isSelf.
         bindA (whenA isSelf (note_self E cid recorded)) (\<lambda>_. ret (key, summary, recorded, isSelf))))))"

definition head_of ::
  "('g, 'c) ctl_env \<Rightarrow> string \<Rightarrow> bytes \<times> json option \<times> string list \<times> bool \<Rightarrow> ('g, view_head) kact" where
  "head_of E cid known =
     (case known of (key, summary, recorded, isSelf) \<Rightarrow>
       bindA (readA (\<lambda>s. \<not> isSelf \<and> queryK E False (\<lambda>G. gi_isUnlinkedConversationId G cid) s)) (\<lambda>unlinked.
         bindA (if isSelf then ret None else bindA (verify_of E cid) (\<lambda>x. ret (Some x))) (\<lambda>vs.
           bindA (trust_badge E cid (is_secure isSelf summary) isSelf vs) (\<lambda>badge.
             ret \<lparr>vh_key = key, vh_summary = summary, vh_recorded = recorded, vh_self = isSelf,
                  vh_secure = is_secure isSelf summary, vh_peer = shown_peer isSelf summary, vh_unlinked = unlinked,
                  vh_verify = vs, vh_trust = fst badge, vh_note = snd badge\<rparr>))))"

text \<open>Viewing arms what was held unarmed; the log is built in the order of storing.\<close>

definition read_log :: "('g, 'c) ctl_env \<Rightarrow> string \<Rightarrow> view_head \<Rightarrow> ('g, log_entry list) kact" where
  "read_log E cid h =
     bindA (view_records E cid (vh_self h) (vh_recorded h)) (\<lambda>records.
       bindA (forA records (arm_viewed E)) (\<lambda>_.
         view_log (view_entry E (vh_key h) cid (vh_secure h) (vh_self h) (vh_peer h)) (sort_key storedAtMs records)
           (opening_log (vh_unlinked h) (vh_verify h))))"

definition is_buddy :: "('g, 'c) ctl_env \<Rightarrow> string option \<Rightarrow> ('g, bool) kact" where
  "is_buddy E hdl =
     (case hdl of
        None \<Rightarrow> ret False
      | Some u \<Rightarrow> bindA (loadBuddyMap E) (\<lambda>m. ret (case obj_at m u of Own e \<Rightarrow> \<not> be_removed e | _ \<Rightarrow> False)))"

definition view_of ::
  "('g, 'c) ctl_env \<Rightarrow> string \<Rightarrow> view_head \<Rightarrow> log_entry list \<Rightarrow> ('g, transmit_model) kact" where
  "view_of E cid h lg =
     bindA (if vh_self h then ret None else handleForConversation E cid) (\<lambda>hdl.
       bindA (is_buddy E hdl) (\<lambda>isBuddy.
         bindA (if vh_self h then bindA (askK E [] gi_selfGroupDiagnostic) (\<lambda>d. ret (Some d)) else ret None) (\<lambda>diag.
           ret \<lparr>tm_secure = vh_secure h, tm_peer = vh_peer h,
                tm_fingerprint = (if vh_self h then None
                  else case vh_summary h of Some v \<Rightarrow> as_string (json_prop v ''fingerprint'') | None \<Rightarrow> None),
                tm_selfNote = vh_self h, tm_trust = vh_trust h, tm_trustNote = vh_note h, tm_selfDiag = diag,
                tm_peerHandle = hdl, tm_peerIsBuddy = isBuddy, tm_verifyState = vh_verify h,
                tm_log = lg, tm_conversationId = cid\<rparr>)))"

definition openChannel :: "('g, 'c) ctl_env \<Rightarrow> string \<Rightarrow> bool \<Rightarrow> ('g, transmit_model) kact" where
  "openChannel E cid forceSelf =
     bindA (bindA (recognize E cid forceSelf) (head_of E cid)) (\<lambda>h.
       bindA (read_log E cid h) (view_of E cid h))"

definition openNoteToSelf :: "('g, 'c) ctl_env \<Rightarrow> ('g, transmit_model) kact" where
  "openNoteToSelf E =
     (if \<not> ke_live E then throw (JsError ''note to self needs a live session'')
      else bindA (groupK (gi_openSelfConversation (ke_group E))) (\<lambda>cid.
        bindA (modA (\<lambda>s. s\<lparr>k_selfConvId := Some cid\<rparr>)) (\<lambda>_. openChannel E cid True)))"

definition sendMessage_ctl :: "('g, 'c) ctl_env \<Rightarrow> string \<Rightarrow> string \<Rightarrow> lifetime option \<Rightarrow> ('g, transmit_model) kact" where
  "sendMessage_ctl E cid txt life =
     bindA (requireGroupK E (gi_sendMessage (ke_group E) cid txt life)) (\<lambda>_. openChannel E cid False)"

definition revokeMessage_ctl :: "('g, 'c) ctl_env \<Rightarrow> string \<Rightarrow> string \<Rightarrow> ('g, transmit_model) kact" where
  "revokeMessage_ctl E cid mid = bindA (revoke_own E cid mid) (\<lambda>_. openChannel E cid False)"

definition acceptKeyExchange :: "('g, 'c) ctl_env \<Rightarrow> string \<Rightarrow> ('g, transmit_model) kact" where
  "acceptKeyExchange E cid = openChannel E cid False"

text \<open>The peer and the fingerprint \<open>channelKeyExchange\<close> shows.\<close>

definition channelKeyExchange :: "('g, 'c) ctl_env \<Rightarrow> string \<Rightarrow> ('g, string \<times> string) kact" where
  "channelKeyExchange E cid =
     bindA requireKey (\<lambda>key. readA (\<lambda>s.
       case read_channel E key cid s of
         Some v \<Rightarrow> (text_prop v ''peer'', text_prop v ''fingerprint'')
       | None \<Rightarrow> (''NEW CONTACT'', [])))"

end
