(* ===== verification/ControllerDemo.thy ===== *)
theory ControllerDemo
  imports ControllerView ChannelDemo
begin

text \<open>
  A concrete controller for the witnesses: an unlocked account with one secure conversation, whose handle
  and buddy are sealed on the device, and a group channel that shows one verified foreign account key.
\<close>

definition demo_pin :: string where
  "demo_pin = replicate 64 (CHR ''a'')"

definition demo_group_ops :: "nat group_ops" where
  "demo_group_ops =
     demo_gops\<lparr>go_isSelfConversation := (\<lambda>g _. Inr (g = ''bb'')),
               go_peerAccountKeys := Some (\<lambda>g _. Inr (if g = ''aa'' then [demo_pin] else []))\<rparr>"

definition demo_env_ch :: "nat chan_env" where
  "demo_env_ch = demo_channel\<lparr>ce_ops := demo_group_ops\<rparr>"

definition demo_chan :: "nat chan" where
  "demo_chan = new_channel\<lparr>ch_heap := [0],
     ch_sessions := map (\<lambda>g. (convId g, \<lparr>en_session = \<lparr>gs_conv = 0, gs_groupId = g\<rparr>, en_mailbox = g\<rparr>)) [''aa'', ''bb'']\<rparr>"

text \<open>The methods that change the channel: they leave it, and the own group is not closed.\<close>

definition demo_methods :: "nat chan group_iface" where
  "demo_methods =
     \<lparr>gi_selfConversationId = \<lambda>_. Inr None, gi_isSelfConversationId = \<lambda>_ _. Inr False,
      gi_selfClassificationReason = \<lambda>_ _. [], gi_isUnlinkedConversationId = \<lambda>_ _. False,
      gi_heldConversationIds = \<lambda>_. [], gi_peerAccountKeysFor = \<lambda>_ _. [],
      gi_accountKeyHex = \<lambda>_. [], gi_contactPhraseFor = \<lambda>_. [], gi_selfDeviceKeyHex = \<lambda>_. [],
      gi_roster = \<lambda>_ _. Inr [], gi_peerRoster = \<lambda>_ _. Inr [], gi_selfGroupDiagnostic = \<lambda>_. Inr [],
      gi_selfContact = \<lambda>_. None, gi_selfFingerprint = \<lambda>_. [],
      gi_closeConversation = \<lambda>i. if i = ''c-bb'' then throw (JsError ''refused'') else skip,
      gi_abandonDeadSelfGroup = \<lambda>_ _. ret False, gi_openSelfConversation = ret ''c-bb'', gi_connectGateway = \<lambda>_. ret True,
      gi_sendMessage = \<lambda>_ _ _. skip, gi_revokeMessage = \<lambda>_ _. skip, gi_recoverWithSeed = \<lambda>_ _. skip\<rparr>"

text \<open>Three documents, under the texts that stand for their JSON.\<close>

definition demo_handles :: json where "demo_handles = JObj [(''bob'', JStr ''c-aa'')]"

definition demo_buddies :: json where
  "demo_buddies = JObj [(''bob'', JObj [(''v'', JNum 3), (''vk'', JStr demo_pin)])]"

definition demo_row :: json where
  "demo_row = JObj [(''id'', JStr ''c-aa''), (''peer'', JStr ''bob''), (''status'', JStr ''secure'')]"

definition demo_ctl_env :: "(nat chan, unit) ctl_env" where
  "demo_ctl_env =
     \<lparr>ke_live = True, ke_sessions = True, ke_group = channel_iface demo_env_ch demo_methods, ke_aead = demo_aead, ke_derive = (\<lambda>c s. s),
      ke_account = demo_account_env,
      ke_parse = (\<lambda>t. if t = ''h'' then Some demo_handles else if t = ''b'' then Some demo_buddies
                      else if t = ''r'' then Some demo_row else None),
      ke_stringify = (\<lambda>v. if v = demo_handles then ''h'' else if v = demo_row then ''r'' else ''b''),
      ke_collate = (\<lambda>a b. False), ke_clock = int, ke_bytes = (\<lambda>_ n. replicate n 7),
      ke_restoreConversation = (\<lambda>_ _. None), ke_sealConversation = (\<lambda>_ _. []),
      ke_local = (\<lambda>_. \<lparr>lt_month = 0, lt_day = 1, lt_year = 2024, lt_hours = 0, lt_minutes = 0\<rparr>)\<rparr>"

definition demo_sealed :: "string \<Rightarrow> string \<Rightarrow> bytes" where
  "demo_sealed aad t = sealUnder demo_aead (replicate 12 7) [9] (TextEncoder_encode t) aad"

definition demo_doc :: "string \<Rightarrow> string \<Rightarrow> string \<times> sealed_session" where
  "demo_doc aad t = (aad, \<lparr>ss_conversationId = aad, ss_sealed = demo_sealed aad t\<rparr>)"

definition demo_ctl :: "nat chan ctl" where
  "demo_ctl = (new_controller
     (empty_db\<lparr>mls_state := [demo_doc ''convhandles:al'' ''h'', demo_doc ''buddies:al'' ''b''],
               channels := [(''c-aa'', \<lparr>ch_id = ''c-aa'', ch_blob = demo_sealed ''channel:c-aa'' ''r''\<rparr>)]\<rparr>) demo_chan)
     \<lparr>k_mskKey := Some [9], k_account := Some ''al'', k_selfGroupIds := Some []\<rparr>"

lemma demo_env_simps [simp]:
  "ke_live demo_ctl_env" "ke_sessions demo_ctl_env" "ke_group demo_ctl_env = channel_iface demo_env_ch demo_methods" "ke_aead demo_ctl_env = demo_aead"
  "ke_account demo_ctl_env = demo_account_env" "ke_clock demo_ctl_env = int" "ke_bytes demo_ctl_env i n = replicate n 7"
  "ke_parse demo_ctl_env ''h'' = Some demo_handles" "ke_parse demo_ctl_env ''b'' = Some demo_buddies"
  "ke_parse demo_ctl_env ''r'' = Some demo_row"
  by (simp_all add: demo_ctl_env_def)

lemma open_demo: "is_ascii t \<Longrightarrow> openUnder demo_aead [9] (demo_sealed aad t) aad = Inr (TextEncoder_encode t)"
  by (simp add: demo_sealed_def openUnder_sealUnder demo_aead_ok)

lemma demo_state [simp]:
  "k_account demo_ctl = Some ''al''" "k_mskKey demo_ctl = Some [9]" "k_selfGroupIds demo_ctl = Some []"
  "k_selfConvId demo_ctl = None" "k_group demo_ctl = demo_chan" "k_clock demo_ctl = 0" "k_aakSeedHex demo_ctl = None"
  "kv_listByConversation i (k_device demo_ctl) = []"
  by (simp_all add: demo_ctl_def new_controller_def new_manager_def new_device_def empty_db_def kv_listByConversation_def
      mine_def)

lemma demo_loads:
  "load_rec ''convhandles:al'' demo_ctl = Some (snd (demo_doc ''convhandles:al'' ''h''))"
  "load_rec ''buddies:al'' demo_ctl = Some (snd (demo_doc ''buddies:al'' ''b''))"
  "read_channel demo_ctl_env [9] ''c-aa'' demo_ctl = Some demo_row"
proof -
  show "load_rec ''convhandles:al'' demo_ctl = Some (snd (demo_doc ''convhandles:al'' ''h''))"
    "load_rec ''buddies:al'' demo_ctl = Some (snd (demo_doc ''buddies:al'' ''b''))"
    by (simp_all add: load_rec_def ss_load_def demo_ctl_def new_controller_def new_manager_def new_device_def demo_doc_def)
  have "openUnder demo_aead [9] (demo_sealed ''channel:c-aa'' ''r'') ''channel:c-aa'' = Inr (TextEncoder_encode ''r'')"
    by (rule open_demo) (simp add: is_ascii_def)
  then show "read_channel demo_ctl_env [9] ''c-aa'' demo_ctl = Some demo_row"
    by (simp add: read_channel_def cs_get_def demo_ctl_def new_controller_def new_manager_def new_device_def decodeChannel_def
        channelAad_def decode_encode_ascii is_ascii_def)
qed

lemma demo_json: "is_ascii t \<Longrightarrow> open_json demo_ctl_env [9] aad (snd (demo_doc aad t)) = ke_parse demo_ctl_env t"
  by (simp add: open_json_def demo_doc_def open_demo decode_encode_ascii)

lemma demo_handles_loaded [simp]: "loadConvHandles demo_ctl_env demo_ctl = (Inr [(''bob'', ''c-aa'')], demo_ctl)"
  by (simp add: loadConvHandles_def load_doc_def bindA_def requireKey_def ret_def keyed_def demo_loads demo_json is_ascii_def
      demo_handles_def handles_of_def parsed_entries_def obj_entries_def is_array_index_def handle_entry_def obj_set_def
      as_string_def)

definition demo_buddy :: buddy_entry where
  "demo_buddy = \<lparr>be_addedAt = 0, be_v = 3, be_removed = False, be_group = DEFAULT_GROUP, be_vk = Some demo_pin\<rparr>"

lemma demo_pin_ok [simp]: "is_account_key demo_pin" "demo_pin \<noteq> []"
  by (simp_all add: demo_pin_def is_account_key_def is_lower_hex_def list_all_iff Let_def)

lemma demo_buddies_loaded [simp]: "loadBuddyMap demo_ctl_env demo_ctl = (Inr [(''bob'', demo_buddy)], demo_ctl)"
  by (simp add: loadBuddyMap_def load_doc_def bindA_def requireKey_def ret_def keyed_def demo_loads demo_json is_ascii_def
      demo_buddies_def normalizeBuddyMap_def parsed_entries_def obj_entries_def is_array_index_def buddy_of_entry_def
      is_object_def coerce_buddy_def json_prop_def number_or_def as_number_def is_true_def as_string_def coerce_vk_def
      obj_set_def demo_buddy_def)

text \<open>What the channel answers, as long as it is in this state.\<close>

lemma demo_answers:
  "peerAccountKeysFor demo_env_ch ''c-aa'' demo_chan = [demo_pin]"
  "isUnlinkedConversationId demo_env_ch i demo_chan = False"
  "isSelfConversationId demo_env_ch i demo_chan = Inr (i = ''c-bb'')"
  "selfConversationId demo_env_ch demo_chan = Inr (Some ''c-bb'')"
  by (simp_all add: peerAccountKeysFor_def isUnlinkedConversationId_def isSelfConversationId_def selfConversationId_def
      selfSession_def selfSessionBest_def session_list_def self_candidate_def better_def gs_peerAccountKeys_def
      gs_unlinked_def gs_isSelfConversation_def gs_isSelfConversationStrict_def gs_roster_def demo_chan_def new_channel_def
      demo_env_ch_def demo_channel_def demo_group_ops_def demo_gops_def convId_def)

lemma demo_query [simp]:
  assumes "k_group s = demo_chan"
  shows "queryK demo_ctl_env [] (\<lambda>G. gi_peerAccountKeysFor G ''c-aa'') s = [demo_pin]"
    "queryK demo_ctl_env False (\<lambda>G. gi_isUnlinkedConversationId G i) s = False"
    "askK demo_ctl_env False (\<lambda>G. gi_isSelfConversationId G i) s = (Inr (i = ''c-bb''), s)"
    "askK demo_ctl_env None gi_selfConversationId s = (Inr (Some ''c-bb''), s)"
  by (simp_all add: assms queryK_def askK_def channel_iface_def demo_answers)

end
