(* ===== verification/ControllerProps.thy ===== *)
theory ControllerProps
  imports ControllerDemo
begin

text \<open>
  What the controller promises: pins and badges of verified keys, revokes, blocking, the identity card,
  the history-off mode and unlocking.
\<close>

section \<open>Running methods\<close>

lemma bindA_Inr: "bindA m f s = (Inr v, s') \<longleftrightarrow> (\<exists>x t. m s = (Inr x, t) \<and> f x t = (Inr v, s'))"
  by (auto simp: bindA_def split: prod.splits sum.splits)

lemma ret_Inr: "ret x s = (Inr v, s') \<longleftrightarrow> v = x \<and> s' = s"
  by (auto simp: ret_def)

lemma readA_Inr: "readA g s = (Inr v, s') \<longleftrightarrow> v = g s \<and> s' = s"
  by (auto simp: readA_def)

lemma load_doc_state [simp]: "snd (load_doc E p d f s) = s"
  by (auto simp: load_doc_def bindA_def requireKey_def ret_def Let_def split: option.splits)

lemma load_doc_Inr: "load_doc E p d f s = (Inr v, s') \<longleftrightarrow> s' = s \<and> fst (load_doc E p d f s) = Inr v"
  using load_doc_state [of E p d f s] by (cases "load_doc E p d f s") auto

lemma handle_state: "handleForConversation E cid s = (Inr v, s') \<Longrightarrow>
    s' = s \<and> (\<exists>hs. fst (loadConvHandles E s) = Inr hs \<and> v = sole_handle cid hs)"
  by (auto simp: handleForConversation_def loadConvHandles_def bindA_Inr ret_Inr load_doc_Inr)

text \<open>What a load depends on.\<close>

definition same_docs :: "'g ctl \<Rightarrow> 'g ctl \<Rightarrow> bool" where
  "same_docs s t \<longleftrightarrow> k_account s = k_account t \<and> k_mskKey s = k_mskKey t \<and> db (k_device s) = db (k_device t)"

lemma load_doc_same: "same_docs s t \<Longrightarrow> fst (load_doc E p d f s) = fst (load_doc E p d f t)"
  by (auto simp: same_docs_def load_doc_def bindA_def requireKey_def ret_def Let_def load_rec_def split: option.splits)

lemma self_ids_state: "loadSelfGroupIds E s = (r, t) \<Longrightarrow> t = s\<lparr>k_selfGroupIds := k_selfGroupIds t\<rparr>"
  by (auto simp: loadSelfGroupIds_def load_quiet_def act_simps bindA_def catchA_def load_doc_def requireKey_def Let_def
      split: option.splits if_splits prod.splits sum.splits)

lemma ask_state: "askK E d q s = (r, t) \<Longrightarrow> t = s"
  by (simp add: askK_def)

lemma recognize_state: "recognize_self E cid b ids s = (r, t) \<Longrightarrow> t = s"
  by (auto simp: recognize_self_def act_simps bindA_def askK_def split: if_splits sum.splits)

section \<open>The badge\<close>

lemma trust_verified:
  "trust_badge E cid secure isSelf vs s = (Inr (TrustVerified, n), t) \<Longrightarrow>
     secure \<and> \<not> isSelf \<and> \<not> queryK E False (\<lambda>G. gi_isUnlinkedConversationId G cid) s \<and> vs = Some Verified \<and> t = s"
  by (auto simp: trust_badge_def own_trust_def Let_def bindA_Inr ret_Inr readA_Inr askK_def
      split: if_splits option.splits verify_state.splits)

lemma conversation_verified: "conversation_state keys vk = Verified \<longleftrightarrow> vk \<noteq> [] \<and> keys = [vk]"
  by (auto simp: conversation_state_def split: list.splits if_splits)

lemma vk_at_pinned: "vk_at m u = k \<Longrightarrow> k \<noteq> [] \<Longrightarrow> \<exists>e. obj_at m u = Own e \<and> be_vk e = Some k"
  by (auto simp: vk_at_def or_empty_def split: slot.splits option.splits)

definition pinned_to :: "('g, 'c) ctl_env \<Rightarrow> string \<Rightarrow> string \<Rightarrow> 'g ctl \<Rightarrow> bool" where
  "pinned_to E cid k s \<longleftrightarrow>
     (\<exists>hs u m e. fst (loadConvHandles E s) = Inr hs \<and> sole_handle cid hs = Some u
        \<and> fst (loadBuddyMap E s) = Inr m \<and> obj_at m u = Own e \<and> be_vk e = Some k)"

lemma verify_of_verified:
  assumes "verify_of E cid s = (Inr Verified, t)"
  shows "t = s \<and> (\<exists>k. pinned_to E cid k s \<and> k \<noteq> [] \<and> queryK E [] (\<lambda>G. gi_peerAccountKeysFor G cid) s = [k])"
proof -
  obtain hs where h: "fst (loadConvHandles E s) = Inr hs" "t = s"
    and k: "\<exists>vk. (case sole_handle cid hs of Some u \<Rightarrow> \<exists>m. fst (loadBuddyMap E s) = Inr m \<and> vk = vk_at m u | None \<Rightarrow> vk = [])
        \<and> conversation_state (queryK E [] (\<lambda>G. gi_peerAccountKeysFor G cid) s) vk = Verified"
    using assms
    by (cases "sole_handle cid (projr (fst (loadConvHandles E s)))")
      (auto simp: verify_of_def bindA_Inr readA_Inr loadBuddyMap_def load_doc_Inr ret_Inr dest!: handle_state)
  from k obtain vk where vk: "vk \<noteq> []" "queryK E [] (\<lambda>G. gi_peerAccountKeysFor G cid) s = [vk]"
      "case sole_handle cid hs of Some u \<Rightarrow> \<exists>m. fst (loadBuddyMap E s) = Inr m \<and> vk = vk_at m u | None \<Rightarrow> vk = []"
    by (auto simp: conversation_verified)
  from vk(1,3) obtain u m where u: "sole_handle cid hs = Some u" "fst (loadBuddyMap E s) = Inr m" "vk = vk_at m u"
    by (auto split: option.splits)
  moreover obtain e where "obj_at m u = Own e" "be_vk e = Some vk" using vk_at_pinned [OF u(3) [symmetric] vk(1)] by blast
  ultimately show ?thesis using h vk(1,2) by (auto simp: pinned_to_def)
qed

lemma recognize_other:
  assumes "recognize E cid b s = (Inr (key, summary, ids, False), t)"
  shows "\<exists>c. t = s\<lparr>k_selfGroupIds := c\<rparr>"
  using assms
  by (auto simp: recognize_def bindA_Inr readA_Inr ret_Inr requireKey_def whenA_def skip_def
      dest!: self_ids_state recognize_state split: option.splits)

lemma pinned_to_cache [simp]: "pinned_to E cid k (s\<lparr>k_selfGroupIds := c\<rparr>) \<longleftrightarrow> pinned_to E cid k s"
  by (simp add: pinned_to_def loadConvHandles_def loadBuddyMap_def
      load_doc_same [of "s\<lparr>k_selfGroupIds := c\<rparr>" s] same_docs_def)

lemma query_cache [simp]: "queryK E d q (s\<lparr>k_selfGroupIds := c\<rparr>) = queryK E d q s"
  by (simp add: queryK_def)

lemma badge_earned:
  assumes "openChannel E cid b s = (Inr v, s')" "tm_trust v = TrustVerified"
  shows "\<not> tm_selfNote v \<and> tm_secure v \<and> \<not> queryK E False (\<lambda>G. gi_isUnlinkedConversationId G cid) s
     \<and> (\<exists>k. pinned_to E cid k s \<and> k \<noteq> [] \<and> queryK E [] (\<lambda>G. gi_peerAccountKeysFor G cid) s = [k])"
proof -
  obtain known t h t1 where k: "recognize E cid b s = (Inr known, t)" "head_of E cid known t = (Inr h, t1)"
      and v: "tm_trust v = vh_trust h" "tm_selfNote v = vh_self h" "tm_secure v = vh_secure h"
    using assms(1) by (auto simp: openChannel_def bindA_Inr view_of_def ret_Inr)
  obtain key summary ids isSelf where known: "known = (key, summary, ids, isSelf)" by (cases known)
  obtain vs t2 n where h: "vh_self h = isSelf" "vh_secure h = is_secure isSelf summary"
      "(if isSelf then ret None else bindA (verify_of E cid) (\<lambda>x. ret (Some x))) t = (Inr vs, t2)"
      "trust_badge E cid (is_secure isSelf summary) isSelf vs t2 = (Inr (vh_trust h, n), t1)"
    using k(2) by (auto simp: known head_of_def bindA_Inr readA_Inr ret_Inr)
  from h(4) assms(2) v have tr: "is_secure isSelf summary" "\<not> isSelf" "vs = Some Verified"
      "\<not> queryK E False (\<lambda>G. gi_isUnlinkedConversationId G cid) t2"
    using trust_verified by fastforce+
  from h(3) tr(2,3) have ver: "verify_of E cid t = (Inr Verified, t2)" by (auto simp: bindA_Inr ret_Inr)
  from k(1) tr(2) known obtain c where "t = s\<lparr>k_selfGroupIds := c\<rparr>" using recognize_other by fastforce
  with verify_of_verified [OF ver] tr h(1,2) v show ?thesis by auto
qed

text \<open>
  C30. A conversation is shown as verified only when it is. When \<open>openChannel\<close> over the group channel
  gives the badge \<open>verified\<close>, the conversation was not taken for an own group, exactly one handle is
  tagged with it, the user pinned a key for the buddy of that name, and the group of the conversation's
  session in the channel has that key as its one and only foreign account key and is not unlinked.
\<close>

theorem verified_badge_is_earned:
  assumes "ke_live E" "ke_group E = channel_iface C rest"
    and "openChannel E cid b s = (Inr v, s')" "tm_trust v = TrustVerified"
  shows "\<not> tm_selfNote v \<and> tm_secure v \<and>
    (\<exists>en k. pinned_to E cid k s \<and> k \<noteq> [] \<and> jm_get (ch_sessions (k_group s)) cid = Some en
       \<and> (let g = en_session en; w = ch_heap (k_group s) ! gs_conv g in
          gs_peerAccountKeys (ce_ops C) (gs_groupId g) w = [k] \<and> \<not> gs_unlinked (ce_ops C) (gs_groupId g) w))"
  using badge_earned [OF assms(3,4)] assms(1,2)
  by (auto simp: queryK_def channel_iface_def peerAccountKeysFor_def isUnlinkedConversationId_def Let_def split: option.splits)

definition demo_view :: transmit_model where
  "demo_view =
     \<lparr>tm_secure = True, tm_peer = ''bob'', tm_fingerprint = None, tm_selfNote = False, tm_trust = TrustVerified,
      tm_trustNote = None, tm_selfDiag = None, tm_peerHandle = Some ''bob'', tm_peerIsBuddy = True,
      tm_verifyState = Some Verified, tm_log = opening_log False (Some Verified), tm_conversationId = ''c-aa''\<rparr>"

theorem verified_badge_is_earned_witness:
  "openChannel demo_ctl_env ''c-aa'' False demo_ctl = (Inr demo_view, demo_ctl)
   \<and> tm_secure demo_view \<and> (\<exists>k. pinned_to demo_ctl_env ''c-aa'' k demo_ctl)"
proof -
  have other: "loadSelfGroupIds demo_ctl_env demo_ctl = (Inr [], demo_ctl)" by (simp add: loadSelfGroupIds_def)
  have known: "recognize demo_ctl_env ''c-aa'' False demo_ctl = (Inr ([9], Some demo_row, [], False), demo_ctl)"
    by (simp add: recognize_def act_simps requireKey_def demo_loads other recognize_self_def)
  have hdl: "handleForConversation demo_ctl_env ''c-aa'' demo_ctl = (Inr (Some ''bob''), demo_ctl)"
    by (simp add: handleForConversation_def act_simps sole_handle_def obj_entries_def is_array_index_def)
  have state: "verify_of demo_ctl_env ''c-aa'' demo_ctl = (Inr Verified, demo_ctl)"
    by (simp add: verify_of_def act_simps hdl vk_at_def obj_at_def demo_buddy_def or_empty_def conversation_state_def)
  have row: "is_secure False (Some demo_row)" "shown_peer False (Some demo_row) = ''bob''"
      "as_string (json_prop demo_row ''fingerprint'') = None"
    by (simp_all add: is_secure_def shown_peer_def text_prop_def json_prop_def demo_row_def as_string_def or_empty_def)
  have run: "openChannel demo_ctl_env ''c-aa'' False demo_ctl = (Inr demo_view, demo_ctl)"
    by (simp add: openChannel_def act_simps known head_of_def state row trust_badge_def read_log_def view_records_def
        view_of_def hdl is_buddy_def obj_at_def demo_buddy_def demo_view_def)
  have "tm_trust demo_view = TrustVerified" by (simp add: demo_view_def)
  from verified_badge_is_earned [OF _ _ run this] run show ?thesis by auto
qed

section \<open>Sealed documents\<close>

text \<open>What the engine's \<open>JSON\<close> and text codecs promise for one value.\<close>

definition survives_json :: "('g, 'c) ctl_env \<Rightarrow> json \<Rightarrow> bool" where
  "survives_json E v \<longleftrightarrow> ke_parse E (TextDecoder_decode (encode_json E v)) = Some v"

definition bytes_ok :: "('g, 'c) ctl_env \<Rightarrow> bool" where
  "bytes_ok E \<longleftrightarrow> (\<forall>i n. length (ke_bytes E i n) = n)"

lemma open_saved:
  assumes "aead_ok (ke_aead E)" "bytes_ok E"
  shows "openUnder (ke_aead E) key (sealUnder (ke_aead E) (ke_bytes E i 12) key p aad) aad = Inr p"
  using assms by (simp add: openUnder_sealUnder bytes_ok_def)

lemma save_sealed_run:
  "k_mskKey s = Some key \<Longrightarrow> save_sealed E aad p s =
     (Inr (), s\<lparr>k_drawn := k_drawn s + 1,
       k_lm := (k_lm s)\<lparr>store := (k_device s)\<lparr>db := ss_save \<lparr>ss_conversationId = aad,
         ss_sealed = sealUnder (ke_aead E) (ke_bytes E (k_drawn s) 12) key p aad\<rparr> (db (k_device s))\<rparr>\<rparr>\<rparr>)"
  by (simp add: save_sealed_def bindA_def requireKey_def drawK_def on_db_def on_device_def modA_def)

lemma load_saved: "load_rec aad (snd (save_sealed E aad' p s)) =
    (case k_mskKey s of
       Some key \<Rightarrow> if aad = aad' then Some \<lparr>ss_conversationId = aad',
           ss_sealed = sealUnder (ke_aead E) (ke_bytes E (k_drawn s) 12) key p aad'\<rparr> else load_rec aad s
     | None \<Rightarrow> load_rec aad s)"
  by (cases "k_mskKey s")
    (auto simp: save_sealed_run load_rec_def ss_save_def ss_load_def jsmap_simps, simp_all add: save_sealed_def bindA_def requireKey_def)

text \<open>
  What the controller seals it reads back, under the account that sealed it, and nothing else
  changes: every document is found under its own name, so that saving one leaves all others as they were.
\<close>

theorem sealed_documents_read_back:
  assumes "aead_ok (ke_aead E)" "bytes_ok E" "ke_sessions E" "survives_json E v"
    and "k_account s = Some a" "k_mskKey s = Some key"
  shows "load_doc E p d f (snd (save_doc E p v s)) = (Inr (f v), snd (save_doc E p v s))
    \<and> load_rec aad (snd (save_doc E p v s)) = (if aad = p @ a then load_rec (p @ a) (snd (save_doc E p v s)) else load_rec aad s)"
proof -
  let ?s = "snd (save_doc E p v s)"
  have save: "?s = snd (save_sealed E (p @ a) (encode_json E v) s)"
    using assms by (simp add: save_doc_def keyed_def)
  have fields: "k_account ?s = Some a" "k_mskKey ?s = Some key"
    using assms by (simp_all add: save save_sealed_run)
  have "load_rec (p @ a) ?s = Some \<lparr>ss_conversationId = p @ a,
      ss_sealed = sealUnder (ke_aead E) (ke_bytes E (k_drawn s) 12) key (encode_json E v) (p @ a)\<rparr>"
    using assms by (simp add: save load_saved)
  then have "load_doc E p d f ?s = (Inr (f v), ?s)"
    using assms fields open_saved [OF assms(1,2)]
    by (simp add: load_doc_def bindA_def requireKey_def keyed_def Let_def ret_def open_json_def survives_json_def)
  then show ?thesis using assms by (auto simp: save load_saved)
qed

theorem sealed_documents_read_back_witness:
  "value_of (load_doc demo_ctl_env ''convhandles:'' [] handles_of) (snd (save_doc demo_ctl_env ''convhandles:'' demo_handles demo_ctl))
     = Inr [(''bob'', ''c-aa'')]"
proof -
  have fine: "survives_json demo_ctl_env demo_handles" "bytes_ok demo_ctl_env"
    by (simp_all add: survives_json_def bytes_ok_def encode_json_def demo_ctl_env_def decode_encode_ascii is_ascii_def)
  have "handles_of demo_handles = [(''bob'', ''c-aa'')]"
    by (simp add: demo_handles_def handles_of_def parsed_entries_def obj_entries_def is_array_index_def handle_entry_def
        obj_set_def as_string_def)
  with sealed_documents_read_back [of demo_ctl_env demo_handles demo_ctl "''al''" "[9]" "''convhandles:''" "[]" handles_of]
  show ?thesis by (simp add: fine demo_aead_ok value_of_def)
qed

section \<open>Pinning a key\<close>

lemma buddyPeerKey_single:
  "buddyPeerKey E hs u s = k \<Longrightarrow> k \<noteq> [] \<Longrightarrow>
     \<exists>cid. obj_at hs (normalizeUsername (ke_account E) u) = Own cid \<and> queryK E [] (\<lambda>G. gi_peerAccountKeysFor G cid) s = [k]"
  by (auto simp: buddyPeerKey_def split: slot.splits list.splits)

lemma is_account_key_nonempty: "is_account_key k \<Longrightarrow> k \<noteq> []"
  by (auto simp: is_account_key_def)

text \<open>
  C31. Only the key on screen is pinned. A confirmation is accepted only for a well-formed key that is
  the single verified foreign account key of the conversation tagged for that buddy, for a buddy on the
  list whose pin is the one the panel was drawn with; it then changes nothing but that buddy's pin and
  version, and publishes the list. A refused confirmation changes nothing at all.
\<close>

theorem only_the_key_on_screen_is_pinned:
  assumes "markBuddyVerified E username peerKey expectedPrev s = (Inr r, s')"
  shows "if r then is_account_key peerKey
       \<and> (\<exists>hs u cid m e. u = normalizeUsername (ke_account E) username \<and> fst (loadConvHandles E s) = Inr hs
           \<and> obj_at hs (normalizeUsername (ke_account E) u) = Own cid
           \<and> queryK E [] (\<lambda>G. gi_peerAccountKeysFor G cid) s = [peerKey]
           \<and> fst (loadBuddyMap E s) = Inr m \<and> present_buddy m u = Some e \<and> or_empty (be_vk e) = expectedPrev
           \<and> commitBuddies E (obj_set u (e\<lparr>be_vk := Some peerKey, be_v := of_int (ke_clock E (k_clock s))\<rparr>) m)
               (s\<lparr>k_clock := k_clock s + 1\<rparr>) = (Inr (), s'))
     else s' = s"
proof (cases r)
  case False
  then show ?thesis using assms
    by (auto simp: markBuddyVerified_def Let_def bindA_Inr readA_Inr ret_Inr loadConvHandles_def loadBuddyMap_def load_doc_Inr
        split: if_splits option.splits)
next
  case True
  let ?u = "normalizeUsername (ke_account E) username"
  obtain hs m e where k: "is_account_key peerKey" "buddyPeerKey E hs ?u s = peerKey"
    and l: "fst (loadConvHandles E s) = Inr hs" "fst (loadBuddyMap E s) = Inr m" "present_buddy m ?u = Some e" "or_empty (be_vk e) = expectedPrev"
    and c: "commitBuddies E (obj_set ?u (e\<lparr>be_vk := Some peerKey, be_v := of_int (ke_clock E (k_clock s))\<rparr>) m)
               (s\<lparr>k_clock := k_clock s + 1\<rparr>) = (Inr (), s')"
    using assms True
    by (auto simp: markBuddyVerified_def Let_def bindA_Inr readA_Inr ret_Inr loadConvHandles_def loadBuddyMap_def load_doc_Inr
        nowK_def split: if_splits option.splits)
  with buddyPeerKey_single [OF k(2) is_account_key_nonempty [OF k(1)]] True show ?thesis by auto
qed

theorem only_the_key_on_screen_is_pinned_witness:
  "fst (markBuddyVerified demo_ctl_env ''bob'' demo_pin demo_pin demo_ctl) = Inr True
   \<and> fst (commitBuddies demo_ctl_env [(''bob'', demo_buddy\<lparr>be_v := 0\<rparr>)] (demo_ctl\<lparr>k_clock := 1\<rparr>)) = Inr ()"
proof -
  have name: "normalizeUsername demo_account_env ''bob'' = ''bob''"
    by (simp add: normalizeUsername_def toLowerCase_def js_trim_visible visible_def is_ascii_def ascii_lower_def)
  have "queryK demo_ctl_env [] (\<lambda>G. gi_peerAccountKeysFor G ''c-aa'') demo_ctl = [demo_pin]" by simp
  then have key: "buddyPeerKey demo_ctl_env [(''bob'', ''c-aa'')] ''bob'' demo_ctl = demo_pin"
    by (simp add: buddyPeerKey_def name obj_at_def)
  obtain t where run: "markBuddyVerified demo_ctl_env ''bob'' demo_pin demo_pin demo_ctl = (Inr True, t)"
    by (simp add: markBuddyVerified_def Let_def act_simps name key present_buddy_def present_def obj_at_def demo_buddy_def or_empty_def
        nowK_def commitBuddies_def saveBuddyMap_def save_doc_def save_sealed_def requireKey_def drawK_def on_db_def
        on_device_def liveK_def outK_def)
  have pinned: "demo_buddy\<lparr>be_vk := Some demo_pin, be_v := 0\<rparr> = demo_buddy\<lparr>be_v := 0\<rparr>" by (simp add: demo_buddy_def)
  from only_the_key_on_screen_is_pinned [OF run]
  have "commitBuddies demo_ctl_env [(''bob'', demo_buddy\<lparr>be_v := 0\<rparr>)] (demo_ctl\<lparr>k_clock := 1\<rparr>) = (Inr (), t)"
    by (auto simp: name present_buddy_def present_def obj_at_def obj_set_def pinned split: if_splits)
  with run show ?thesis by simp
qed

section \<open>Revokes\<close>

text \<open>
  C36. A member's revoke erases only what its author marked recallable. Whatever revoke arrives in a
  conversation, the stored messages stay as they are, except that the named message is erased when it
  belongs to that conversation, was sent as until-revoked, and is not our own outbound copy unless the
  revoke came from one of our own devices.
\<close>

theorem inbound_revoke_erases_only_the_recallable:
  "kv_get (k_device (snd (applyInboundRevoke E cid mid fromOwnAccount s))) i =
     (if i = mid \<and> ke_live E \<and>
         (case kv_get (k_device s) mid of
            None \<Rightarrow> False
          | Some r \<Rightarrow> conversationId r = cid \<and> lifetimeKind r = ''until-revoked'' \<and> (direction r = In \<or> fromOwnAccount))
      then None else kv_get (k_device s) i)"
proof -
  have dir: "direction r \<noteq> Out \<longleftrightarrow> direction r = In" for r by (cases "direction r") auto
  show ?thesis
    by (auto simp: applyInboundRevoke_def revocable_by_def revokeK_def lifetimeK_def revoke_def expire_def whenA_def skip_def ret_def
        hook_onErased_def cancel_timer_def hook_cancel_def cryptoErase_def kv_get_delete Let_def dir
        split: option.splits if_splits)
qed


section \<open>The identity card of the own devices\<close>

definition adopt :: "nat \<times> json \<Rightarrow> json \<Rightarrow> json" where
  "adopt frm current = (case adopted_card (fst frm) (snd frm) current of Some c \<Rightarrow> c | None \<Rightarrow> current)"

definition frame_version :: "nat \<times> json \<Rightarrow> rat" where
  "frame_version frm = number_or 0 (json_prop (snd frm) ''v'')"

lemma json_prop_sets: "json_prop (JObj (fold (\<lambda>(k, x) m. jm_set k x m) ks m)) k =
    (case map_of (rev ks) k of Some x \<Rightarrow> Some x | None \<Rightarrow> json_prop (JObj m) k)" if "jm_wf m"
proof -
  have rev: "map_of (rev m) k = map_of m k" if "jm_wf m" for m :: "(string \<times> json) list"
  proof -
    have "distinct (map fst m)" using that by (simp add: jm_wf_def)
    then have "map_of (rev m) = map_of m" using map_of_inject_set [of "rev m" m] by (simp add: rev_map [symmetric])
    then show ?thesis by simp
  qed
  have "map_of (fold (\<lambda>(k, x) m. jm_set k x m) ks m) k = (case map_of (rev ks) k of Some x \<Rightarrow> Some x | None \<Rightarrow> map_of m k)" for m
    by (induction ks arbitrary: m) (auto simp: jsmap_simps split: option.splits)
  then show ?thesis using rev [OF that] rev [OF jm_wf_parsed [OF that, of ks]] by (simp add: json_prop_def cong: option.case_cong)
qed


lemma json_prop_spread_set: "json_prop (spread_set v ks) k =
    (case map_of (rev ks) k of Some x \<Rightarrow> Some x | None \<Rightarrow> json_prop v k)"
proof (cases v)
  case (JObj ps)
  have "json_prop (JObj (fold (\<lambda>(k, x) m. jm_set k x m) ps [])) k = json_prop (JObj ps) k"
    using json_prop_sets [of "[]" ps k] by (simp add: json_prop_def split: option.splits)
  then show ?thesis
    using json_prop_sets [OF jm_wf_parsed [of "[]" ps], of ks k]
    by (simp add: JObj spread_set_def own_props_def split: option.split)
qed (use json_prop_sets [of "[]" ks k] in \<open>simp_all add: spread_set_def own_props_def json_prop_def split: option.splits\<close>)

definition frame_field :: "nat \<Rightarrow> string" where
  "frame_field t = (if t = CONTROL_BUDDY_ICON then ''icon'' else if t = CONTROL_PROFILE then ''bio'' else ''away'')"

definition frame_content :: "nat \<times> json \<Rightarrow> json option" where
  "frame_content frm =
     (let (t, p) = frm in
      if t = CONTROL_BUDDY_ICON then Some (sanitizeIcon (json_prop p ''icon''))
      else if t = CONTROL_PROFILE then Some (clamp_text PROFILE_MAX_CHARS (json_prop p ''bio''))
      else if t = CONTROL_AWAY then json_prop p ''away'' else None)"

definition takes :: "nat \<times> json \<Rightarrow> json \<Rightarrow> bool" where
  "takes frm current \<longleftrightarrow> frame_content frm \<noteq> None \<and>
     version_of (- 1) current (frame_field (fst frm) @ ''Version'') < frame_version frm"

lemma adopt_prop: "json_prop (adopt frm c) k =
    (if takes frm c \<and> k = frame_field (fst frm) then frame_content frm
     else if takes frm c \<and> k = frame_field (fst frm) @ ''Version'' then Some (JNum (frame_version frm))
     else json_prop c k)"
proof -
  obtain t p where "frm = (t, p)" by (cases frm)
  then show ?thesis
    by (auto simp: adopt_def adopted_card_def takes_def frame_content_def frame_field_def frame_version_def
        json_prop_spread_set Let_def split: option.splits)
qed

lemma adopt_version: "version_of (- 1) (adopt frm c) (frame_field t @ ''Version'') =
    (if takes frm c \<and> frame_field t = frame_field (fst frm) then frame_version frm
     else version_of (- 1) c (frame_field t @ ''Version''))"
  by (auto simp: version_of_def adopt_prop number_or_def as_number_def frame_field_def)

lemma frame_field_eq: "frame_content f \<noteq> None \<Longrightarrow> frame_content g \<noteq> None \<Longrightarrow>
    frame_field (fst f) = frame_field (fst g) \<longleftrightarrow> fst f = fst g"
  by (cases f; cases g) (auto simp: frame_content_def frame_field_def split: if_splits)

text \<open>
  C33. The own devices agree on one identity card. Two frames of siblings leave the same card in either
  order, unless they set the same part of it with the same version: of the same part the newer version
  stays, and different parts do not disturb each other.
\<close>

theorem identity_frames_converge:
  assumes "fst f \<noteq> fst g \<or> frame_version f \<noteq> frame_version g"
  shows "json_prop (adopt f (adopt g c)) k = json_prop (adopt g (adopt f c)) k"
proof (cases "frame_content f \<noteq> None \<and> frame_content g \<noteq> None")
  case T: True
  have names: "frame_field t \<noteq> frame_field u @ ''Version''" for t u by (auto simp: frame_field_def)
  show ?thesis
  proof (cases "fst f = fst g")
    case True
    with assms have ne: "frame_version f \<noteq> frame_version g" by simp
    have after: "takes x (adopt y c) \<longleftrightarrow> (if takes y c then frame_version y < frame_version x else takes x c)"
      if "frame_content x \<noteq> None" "fst x = fst y" for x y
      using that by (auto simp: takes_def [of x] adopt_version)
    let ?v = "version_of (- 1) c (frame_field (fst g) @ ''Version'')"
    have takes: "takes f c \<longleftrightarrow> ?v < frame_version f" "takes g c \<longleftrightarrow> ?v < frame_version g"
      using T True by (auto simp: takes_def)
    have "takes f (adopt g c) \<longleftrightarrow> takes f c \<and> (takes g c \<longrightarrow> frame_version g < frame_version f)"
      "takes g (adopt f c) \<longleftrightarrow> takes g c \<and> (takes f c \<longrightarrow> frame_version f < frame_version g)"
      using T True by (simp_all add: after, simp_all add: takes) (use order.strict_trans in blast)+
    with True ne show ?thesis by (auto simp: adopt_prop)
  next
    case False
    then have fields: "frame_field (fst f) \<noteq> frame_field (fst g)" using frame_field_eq [of f g] T by blast
    then have "takes f (adopt g c) = takes f c" "takes g (adopt f c) = takes g c"
      by (simp_all add: takes_def [of f] takes_def [of g] adopt_version)
    with fields names names [symmetric] show ?thesis by (simp add: adopt_prop)
  qed
next
  case False
  have idle: "adopt x c = c" if "frame_content x = None" for x c
    using that by (cases x) (auto simp: adopt_def adopted_card_def frame_content_def Let_def split: if_splits option.splits)
  from False show ?thesis using idle [of f] idle [of g] by (cases "frame_content f = None") auto
qed

theorem identity_frames_converge_witness:
  "json_prop (adopt (1, JObj [(''v'', JNum 5)]) (adopt (2, JObj [(''v'', JNum 3), (''bio'', JStr ''hi'')]) DEFAULT_IDENTITY)) ''bio''
   = json_prop (adopt (2, JObj [(''v'', JNum 3), (''bio'', JStr ''hi'')]) (adopt (1, JObj [(''v'', JNum 5)]) DEFAULT_IDENTITY)) ''bio''"
  by (rule identity_frames_converge) simp

section \<open>Accounts\<close>

text \<open>What a method leaves alone.\<close>

definition seed_kept :: "'g ctl \<Rightarrow> 'g ctl \<Rightarrow> bool" where
  "seed_kept s t \<longleftrightarrow> k_aakSeedHex t = k_aakSeedHex s"

interpretation seed: step_relation seed_kept
  by unfold_locales (auto simp: seed_kept_def)

lemma seed_statements:
  "seed_kept s (snd (on_device f s))" "seed_kept s (snd (on_db g s))" "seed_kept s (snd (outK e s))"
  "seed_kept s (snd (nowK E s))" "seed_kept s (snd (drawK E n s))" "seed_kept s (snd (lifetimeK E h s))"
  "seed_kept s (snd (modA (\<lambda>s. s\<lparr>k_account := a, k_mskKey := m, k_mskRaw := r s\<rparr>) s))"
  "seed_kept s (snd (modA (\<lambda>s. s\<lparr>k_mskKey := m, k_mskRaw := x, k_account := a\<rparr>) s))"
  "seed_kept s (snd (modA (\<lambda>s. s\<lparr>k_historyOff := b\<rparr>) s))"
  by (simp_all add: seed_kept_def on_device_def on_db_def outK_def nowK_def drawK_def lifetimeK_def modA_def split: prod.split)

lemma seed_block: "list_all (\<lambda>a. \<forall>t. seed_kept t (snd (a t))) as \<Longrightarrow> seed_kept s (snd (block as s))"
  by (rule seed.step_block) (auto simp: list_all_iff)

lemma seed_hydrate: "seed_kept s (snd (hydrateHistoryMode E s))"
  by (auto simp: hydrateHistoryMode_def applyHistoryMode_def on_device_def modA_def bindA_def skip_def ret_def seed_kept_def Let_def)

lemma seed_open_session: "seed_kept s (snd (open_session E account raw s))"
  unfolding open_session_def liveK_def
  by (rule seed_block) (simp add: seed_statements seed_hydrate seed.step_when seed.step_bind)

lemma seed_unlock: "seed_kept s (snd (unlock E username passphrase s))"
proof -
  have create: "seed_kept s (snd (vault_create E a c s))" for a c s
    unfolding vault_create_def Let_def by (intro seed.step_bind seed_statements seed.step_ret)
  have opened: "seed_kept s (snd (bindA (open_session E a raw) (\<lambda>_. ret x) s))" for a raw s and x :: unlock_result
    by (intro seed.step_bind seed_open_session seed.step_ret)
  have created: "seed_kept s (snd (bindA (vault_create E a c) (\<lambda>raw. bindA (open_session E a raw) (\<lambda>_. ret x)) s))" for a c s and x :: unlock_result
    by (intro seed.step_bind create opened)
  show ?thesis
    by (simp add: unlock_def Let_def ret_def seed.step_refl opened [unfolded ret_def] created [unfolded ret_def] split: option.split)
qed

lemma seed_discard: "seed_kept s (snd (discardAccount E username s))"
  unfolding discardAccount_def Let_def
  by (rule seed_block) (simp add: seed_statements seed.step_when seed.step_bind seed.step_skip)

text \<open>
  C37. The recovery seed outlives its account. Discarding an account and unlocking another leaves the
  cached seed of the first in the controller, and \<open>loadAccountSeed\<close> hands it out as the second account's
  seed, whatever that account has stored.
\<close>

theorem discarded_seed_is_handed_to_the_next_account:
  assumes "k_aakSeedHex s = Some seed"
  shows "value_of (loadAccountSeed E) (final (unlock E other passphrase) (final (discardAccount E username) s)) = Inr seed"
  using assms seed_discard [of s E username] seed_unlock [of "final (discardAccount E username) s" E other passphrase]
  by (simp add: seed_kept_def final_def value_of_def loadAccountSeed_def)

theorem discarded_seed_is_handed_to_the_next_account_witness:
  "value_of (loadAccountSeed demo_ctl_env)
     (final (unlock demo_ctl_env ''eve'' ''pw'') (final (discardAccount demo_ctl_env ''al'') (demo_ctl\<lparr>k_aakSeedHex := Some ''5eed''\<rparr>)))
   = Inr ''5eed''"
  by (rule discarded_seed_is_handed_to_the_next_account) simp

section \<open>Own groups\<close>

text \<open>Everything by which the controller knows an own group, in the state of the call.\<close>

definition known_own :: "('g, 'c) ctl_env \<Rightarrow> string \<Rightarrow> string list \<Rightarrow> 'g ctl \<Rightarrow> bool" where
  "known_own E cid recorded s \<longleftrightarrow>
     cid \<in> set recorded
     \<or> (\<exists>live. queryK E (Inr None) gi_selfConversationId s = Inr live \<and>
          (live = Some cid \<or> queryK E (Inr False) (\<lambda>G. gi_isSelfConversationId G cid) s = Inr True))"

lemma classifies_known: "known_own E cid recorded s \<Longrightarrow> classifies_self E cid recorded s = (Inr True, s)"
  by (auto simp: known_own_def classifies_self_def askK_def act_simps)

lemma record_self_run:
  assumes "ke_sessions E" "k_account s = Some a" "k_mskKey s = Some key"
  shows "fst (remember_self E cid recorded s) = Inr ()"
    "k_group (snd (remember_self E cid recorded s)) = k_group s"
    "k_selfGroupIds (snd (remember_self E cid recorded s)) = Some (set_add cid recorded)"
    "kv_get (k_device (snd (remember_self E cid recorded s))) i = kv_get (k_device s) i"
    "aad \<noteq> ''selfgroups:'' @ a \<Longrightarrow> load_rec aad (snd (remember_self E cid recorded s)) = load_rec aad s"
  using assms
  by (simp_all add: remember_self_def recordSelfGroupIds_def save_doc_def keyed_def act_simps save_sealed_run kv_get_def
      ss_save_def load_rec_def ss_load_def jsmap_simps cong: option.case_cong)

lemma hide_row:
  "kv_get (cs_delete cid d) i = kv_get d i" "cs_get cid (cs_delete cid d) = None"
  "mls_state (db (cs_delete cid d)) = mls_state (db d)"
  by (simp_all add: cs_delete_def kv_get_def cs_get_def jsmap_simps cong: option.case_cong)

lemma unless_self_known:
  assumes "loadSelfGroupIds E s = (Inr recorded, t)" "known_own E cid recorded s" "queryK E (Inr None) gi_selfConversationId t = queryK E (Inr None) gi_selfConversationId s"
    "queryK E (Inr False) (\<lambda>G. gi_isSelfConversationId G cid) t = queryK E (Inr False) (\<lambda>G. gi_isSelfConversationId G cid) s"
  shows "unless_self E cid m s = block [remember_self E cid recorded, on_device (cs_delete cid)] t"
proof -
  have "known_own E cid recorded t" using assms(2-4) by (simp add: known_own_def)
  then show ?thesis by (simp add: unless_self_def bindA_def assms(1) classifies_known)
qed

definition only_hidden :: "string \<Rightarrow> string list \<Rightarrow> string \<Rightarrow> 'g ctl \<Rightarrow> (unit result \<times> 'g ctl) \<Rightarrow> bool" where
  "only_hidden cid recorded a s r \<longleftrightarrow>
     fst r = Inr () \<and> k_group (snd r) = k_group s \<and> k_selfGroupIds (snd r) = Some (set_add cid recorded)
     \<and> (\<forall>i. kv_get (k_device (snd r)) i = kv_get (k_device s) i) \<and> cs_get cid (k_device (snd r)) = None
     \<and> (\<forall>aad. aad \<noteq> ''selfgroups:'' @ a \<longrightarrow> load_rec aad (snd r) = load_rec aad s)"

lemma hidden_run:
  assumes "ke_sessions E" "k_account s = Some a" "k_mskKey s = Some key" and load: "loadSelfGroupIds E s = (Inr recorded, t)"
  shows "only_hidden cid recorded a s (block [remember_self E cid recorded, on_device (cs_delete cid)] t)"
proof -
  obtain c where t: "t = s\<lparr>k_selfGroupIds := c\<rparr>" using self_ids_state [OF load] by blast
  have acc: "k_account t = Some a" "k_mskKey t = Some key" using assms by (simp_all add: t)
  obtain u where u: "remember_self E cid recorded t = (Inr (), u)"
    using record_self_run(1) [OF assms(1) acc, of cid recorded] by (cases "remember_self E cid recorded t") auto
  note run = record_self_run(2-5) [OF assms(1) acc, where cid = cid and recorded = recorded, unfolded u load_rec_def ss_load_def, simplified]
  show ?thesis
    by (auto simp: only_hidden_def act_simps u on_device_def run hide_row load_rec_def ss_load_def, simp_all add: t)
qed

text \<open>
  C35. An own group is never blocked or closed. Whatever the controller knows to be a group of the user's
  own devices, from its record, from the live channel or from its classification, blocking and removing
  leave the channel, every stored message and every other document alone: the row is hidden and the id
  recorded.
\<close>

theorem own_groups_are_only_hidden:
  assumes "ke_live E" "ke_sessions E" "k_account s = Some a" "k_mskKey s = Some key"
    and "fst (loadSelfGroupIds E s) = Inr recorded" "known_own E cid recorded s"
  shows "only_hidden cid recorded a s (blockConversation E cid s) \<and> only_hidden cid recorded a s (removeConversation E cid s)"
proof -
  obtain t where load: "loadSelfGroupIds E s = (Inr recorded, t)" using assms(5) by (cases "loadSelfGroupIds E s") auto
  then obtain c where t: "t = s\<lparr>k_selfGroupIds := c\<rparr>" using self_ids_state by blast
  show ?thesis
    using assms hidden_run [OF assms(2-4) load, of cid] unless_self_known [OF load assms(6)]
    by (simp add: blockConversation_def removeConversation_def t)
qed

theorem own_groups_are_only_hidden_witness:
  "only_hidden ''c-bb'' [] ''al'' demo_ctl (blockConversation demo_ctl_env ''c-bb'' demo_ctl)
   \<and> only_hidden ''c-bb'' [] ''al'' demo_ctl (removeConversation demo_ctl_env ''c-bb'' demo_ctl)"
  by (rule own_groups_are_only_hidden [where key = "[9]"])
    (simp_all add: loadSelfGroupIds_def known_own_def queryK_def channel_iface_def demo_answers)

section \<open>Unlocking\<close>

text \<open>
  A wrong passphrase opens nothing. When an account exists and the passphrase does not open its
  store key, \<open>unlock\<close> refuses with one message and leaves the whole controller as it was: the stored
  record, the keys of an account that is open, the pending effects.
\<close>

theorem wrong_passphrase_changes_nothing:
  assumes "js_trim username \<noteq> []" "passphrase \<noteq> []"
    and "mv_exists (accountIdFor E username) (db (k_device s))" "\<not> verifyPassphrase E username passphrase s"
  shows "unlock E username passphrase s = (Inr (Refused ''wrong username or passphrase''), s)"
  using assms by (simp add: unlock_def verifyPassphrase_def Let_def)

definition demo_foreign :: "nat chan ctl" where
  "demo_foreign = demo_ctl\<lparr>k_lm := new_manager (new_device (mv_putRecord
     \<lparr>msk_id = MSK_PREFIX @ ''00'', wrappedMsk = [], msk_salt = [1], msk_wrapNonce = [2], msk_kdf = KDF_DESCRIPTOR\<rparr> empty_db))\<rparr>"

theorem wrong_passphrase_changes_nothing_witness:
  "unlock demo_ctl_env ''eve'' ''pw''
     demo_foreign
   = (Inr (Refused ''wrong username or passphrase''),
      demo_foreign)"
proof -
  have acc: "accountIdFor demo_ctl_env ''eve'' = ''00''" by (simp add: accountIdFor_def)
  show ?thesis
    by (rule wrong_passphrase_changes_nothing)
      (simp_all add: js_trim_visible visible_def acc verifyPassphrase_def vault_unlock_def mv_exists_def mv_unlock_def mv_get_def
        demo_foreign_def mv_putRecord_def new_manager_def new_device_def empty_db_def jsmap_simps aead_ok_short [OF demo_aead_ok])
qed

end
