(* ===== verification/ControllerHistory.thy ===== *)
theory ControllerHistory
  imports ControllerDemo
begin

text \<open>
  The history-off mode of \<open>controller.ts\<close> over the stores: once the mode is switched on, what arrives, in
  any order, adds nothing to the databases of the device but the sealed documents of the account itself,
  and those only on account of its own devices.
\<close>

section \<open>What incoming traffic causes\<close>

text \<open>
  The methods that the channel calls for incoming traffic. A peer causes the first four: a message, an
  identity frame, an away reply, a list row; and a revoke. A sibling device of the account sends its
  identity card, its buddy list and its group list. A Welcome or commit makes the channel seal its MLS
  state again, and admitting a device makes it record the Welcome until it is fetched.
\<close>

datatype 'c inbound =
    InMessage seal_meta bytes
  | InIdentity string string nat bytes
  | InAway string string
  | InRow json
  | InRevoke string string bool
  | InSibling nat bytes
  | InBuddies bytes
  | InGroups bytes
  | InReseal 'c
  | InWelcomes "json list"

definition take_in :: "('g, 'c) ctl_env \<Rightarrow> 'c inbound \<Rightarrow> ('g, unit) kact" where
  "take_in E x =
     (case x of
        InMessage meta plaintext \<Rightarrow> persistLiveMessage E meta plaintext
      | InIdentity cid peer t payload \<Rightarrow> savePeerIdentity E cid peer t payload
      | InAway cid peer \<Rightarrow> bindA (awayReplyText E cid peer) (\<lambda>_. skip)
      | InRow summary \<Rightarrow> saveChannel E summary
      | InRevoke cid mid fromOwnAccount \<Rightarrow> applyInboundRevoke E cid mid fromOwnAccount
      | InSibling t payload \<Rightarrow> adoptSiblingIdentity E t payload
      | InBuddies payload \<Rightarrow> adoptBuddies E payload
      | InGroups payload \<Rightarrow> adoptGroups E payload
      | InReseal conv \<Rightarrow> bindA (resealSelf_ctl E conv) (\<lambda>_. skip)
      | InWelcomes entries \<Rightarrow> saveWelcomeOutbox E entries)"

fun take_all :: "('g, 'c) ctl_env \<Rightarrow> 'c inbound list \<Rightarrow> 'g ctl \<Rightarrow> 'g ctl" where
  "take_all E [] s = s"
| "take_all E (x # xs) s = take_all E xs (snd (take_in E x s))"

fun from_peer :: "'c inbound \<Rightarrow> bool" where
  "from_peer (InMessage meta plaintext) \<longleftrightarrow> True"
| "from_peer (InIdentity cid peer t payload) \<longleftrightarrow> True"
| "from_peer (InAway cid peer) \<longleftrightarrow> True"
| "from_peer (InRow summary) \<longleftrightarrow> True"
| "from_peer (InRevoke cid mid fromOwnAccount) \<longleftrightarrow> True"
| "from_peer _ \<longleftrightarrow> False"

text \<open>The sealed documents of the account that its own devices may change.\<close>

definition own_documents :: "string option \<Rightarrow> string set" where
  "own_documents account =
     (\<lambda>prefix. keyed prefix account) ` {''identity:'', ''buddies:'', ''groups:'', ''self:'', ''authorized:'', ''welcome-outbox:''}"

section \<open>The relation every statement keeps\<close>

definition off_record :: "'g ctl \<Rightarrow> bool" where
  "off_record s \<longleftrightarrow> k_historyOff s \<and> kv_ephemeral (k_device s) \<and> cs_ephemeral (k_device s)"

definition disk_ids :: "'g ctl \<Rightarrow> string set" where
  "disk_ids s = fst ` set (messages (db (k_device s)))"

definition documents_kept :: "bool \<Rightarrow> 'g ctl \<Rightarrow> 'g ctl \<Rightarrow> bool" where
  "documents_kept own s t \<longleftrightarrow>
     (if own then \<forall>k. k \<notin> own_documents (k_account s) \<longrightarrow> ss_load k (db (k_device t)) = ss_load k (db (k_device s))
      else mls_state (db (k_device t)) = mls_state (db (k_device s)))"

definition nothing_added :: "bool \<Rightarrow> 'g ctl \<Rightarrow> 'g ctl \<Rightarrow> bool" where
  "nothing_added own s t \<longleftrightarrow>
     (off_record s \<longrightarrow> off_record t \<and> k_account t = k_account s \<and> disk_ids t \<subseteq> disk_ids s \<and> documents_kept own s t
        \<and> (db (k_device t))\<lparr>messages := [], mls_state := []\<rparr> = (db (k_device s))\<lparr>messages := [], mls_state := []\<rparr>)"

interpretation na: step_relation "nothing_added own" for own
  by unfold_locales (auto simp: nothing_added_def documents_kept_def split: if_splits)

lemmas na_defs = nothing_added_def documents_kept_def off_record_def disk_ids_def

lemma na_quiet:
  "nothing_added own s (snd (requireKey s))" "nothing_added own s (snd (requireAccount s))" "nothing_added own s (snd (nowK E s))"
  "nothing_added own s (snd (drawK E n s))" "nothing_added own s (snd (liveK E (outK e) s))" "nothing_added own s (snd (draw_seal E s))"
  "nothing_added own s (snd (load_doc E p d f s))" "nothing_added own s (snd (getIdentity E s))"
  "nothing_added own s (snd (awayDedupeAt E cid s))"
proof -
  show "nothing_added own s (snd (requireKey s))" "nothing_added own s (snd (requireAccount s))"
    by (simp_all add: requireKey_def requireAccount_def na.step_refl split: option.split)
  show "nothing_added own s (snd (nowK E s))" by (simp add: nowK_def na_defs)
  show "nothing_added own s (snd (liveK E (outK e) s))"
    by (cases "ke_live E") (simp_all add: liveK_def outK_def modA_def whenA_def skip_def ret_def na_defs)
  have draw: "nothing_added own s (snd (drawK E n s))" for s :: "'a ctl" and n
    by (simp add: drawK_def na_defs)
  then show "nothing_added own s (snd (drawK E n s))" by blast
  show "nothing_added own s (snd (draw_seal E s))"
    unfolding draw_seal_def by (intro na.step_bind na.step_ret draw)
  show "nothing_added own s (snd (load_doc E p d f s))"
    by (simp add: load_doc_def bindA_def requireKey_def ret_def na.step_refl Let_def split: option.split)
  show "nothing_added own s (snd (getIdentity E s))" "nothing_added own s (snd (awayDedupeAt E cid s))"
    by (simp_all add: getIdentity_def awayDedupeAt_def load_doc_def bindA_def requireKey_def ret_def na.step_refl Let_def
        split: option.split)
qed

text \<open>An operation of the lifetime manager.\<close>

lemma na_lifetime:
  assumes "\<And>m. snd (f m) = snd (lm_run A idb_keyvault key [e] m)"
  shows "nothing_added own s (snd (lifetimeK E f s))"
proof -
  let ?m = "snd (f (k_lm s))"
  note run = assms [of "k_lm s"]
  have "cs_ephemeral (store ?m) = cs_ephemeral (k_device s)"
    unfolding run
    by (rule lm_run_store_preserved [where P = "\<lambda>d. cs_ephemeral d = cs_ephemeral (k_device s)"])
      (simp_all add: kv_put_def kv_delete_def)
  moreover note history_off_adds_nothing_to_disk [OF _ run]
  ultimately show ?thesis
    by (cases "db (store ?m)", cases "db (k_device s)", cases "f (k_lm s)") (auto simp: lifetimeK_def na_defs ss_load_def)
qed

lemma na_message: "nothing_added own s (snd (persistLiveMessage E meta plaintext s))"
proof -
  have store: "nothing_added own s (snd (lifetimeK E (\<lambda>m. ((), snd (storeIncoming A idb_keyvault rnd now key meta p arm m))) s))"
    for A rnd now key p arm and s :: "'a ctl"
    by (rule na_lifetime [of _ A key "(now, Store rnd meta p arm)"]) (simp split: prod.split)
  show ?thesis
    unfolding persistLiveMessage_def by (auto intro!: na.step_skip na.step_bind na_quiet store)
qed

lemma na_revoke: "nothing_added own s (snd (applyInboundRevoke E cid mid fromOwnAccount s))"
proof -
  have "nothing_added own s (snd (lifetimeK E (\<lambda>m. ((), revoke idb_keyvault mid m)) s))" for s :: "'a ctl"
    by (rule na_lifetime [of _ A key "(now, Revoke mid)" for A key now]) simp
  then show ?thesis by (simp add: applyInboundRevoke_def revokeK_def whenA_def na.step_skip)
qed

lemma na_identity: "nothing_added own s (snd (savePeerIdentity E cid peer t payload s))"
proof (cases "\<not> ke_sessions E \<or> k_historyOff s")
  case True
  then show ?thesis by (simp add: savePeerIdentity_def na.step_skip)
next
  case False
  then show ?thesis by (simp add: nothing_added_def off_record_def)
qed

lemma na_away: "nothing_added own s (snd (bindA (awayReplyText E cid peer) (\<lambda>_. skip) s))"
proof -
  have set: "nothing_added own s (snd (setAwayDedupe E cid now s))" for now and s :: "'a ctl"
    by (cases "k_historyOff s") (simp_all add: setAwayDedupe_def modA_def na_defs)
  show ?thesis
    unfolding awayReplyText_def
    by (intro na.step_bind na.step_skip na_quiet)
      (auto intro!: na.step_bind na.step_throw na.step_ret na_quiet set split: option.split)
qed

lemma na_row: "nothing_added own s (snd (saveChannel E summary s))"
proof -
  have put: "nothing_added own s (snd (on_device (cs_put r) s))" for r and s :: "'a ctl"
    by (simp add: on_device_def modA_def cs_put_def na_defs)
  show ?thesis unfolding saveChannel_def Let_def by (intro na.step_bind na_quiet put)
qed

section \<open>The documents of the account\<close>

lemma na_save: "aad \<in> own_documents (k_account s) \<Longrightarrow> ss_conversationId r = aad \<Longrightarrow> nothing_added True s (snd (on_db (ss_save r) s))"
  by (auto simp: on_db_def on_device_def modA_def na_defs ss_save_def ss_load_def jsmap_simps)

lemma na_save_doc:
  assumes "p \<in> {''identity:'', ''buddies:'', ''groups:'', ''welcome-outbox:''}"
  shows "nothing_added True s (snd (save_doc E p v s))"
proof -
  have "keyed p (k_account t) \<in> own_documents (k_account t)" for t :: "'a ctl"
    using assms by (auto simp: own_documents_def)
  then show ?thesis
    by (auto simp: save_doc_def save_sealed_def bindA_def requireKey_def drawK_def skip_def ret_def on_db_def on_device_def
        modA_def na_defs ss_save_def ss_load_def jsmap_simps split: option.split)
qed

lemma na_sibling: "nothing_added True s (snd (adoptSiblingIdentity E t payload s))"
  unfolding adoptSiblingIdentity_def saveIdentityCard_def
  by (auto intro!: na.step_skip na.step_throw na.step_bind na.step_block na_quiet na_save_doc split: option.split)

lemma na_buddies: "nothing_added True s (snd (adoptBuddies E payload s))"
  unfolding adoptBuddies_def commitBuddies_def saveBuddyMap_def loadBuddyMap_def
  by (auto intro!: na.step_skip na.step_bind na.step_when na.step_block na_quiet na_save_doc split: option.split prod.split)

lemma na_groups: "nothing_added True s (snd (adoptGroups E payload s))"
  unfolding adoptGroups_def commitGroups_def saveGroupMap_def loadGroupMap_def
  by (auto intro!: na.step_skip na.step_bind na.step_when na.step_block na_quiet na_save_doc split: option.split prod.split)

lemma na_reseal: "nothing_added True s (snd (bindA (resealSelf_ctl E conv) (\<lambda>_. skip) s))"
  by (auto simp: resealSelf_ctl_def selfKey_def requireAccount_def authorizedKey_def act_simps on_db_def on_device_def
      na_defs own_documents_def keyed_def ss_save_def ss_load_def jsmap_simps split: option.split)

lemma na_take_in: "nothing_added (\<not> from_peer x) s (snd (take_in E x s))"
  by (cases x) (simp_all add: take_in_def na_message na_identity na_away na_row na_revoke na_sibling na_buddies na_groups
      na_reseal saveWelcomeOutbox_def na_save_doc)

lemma na_weaken: "nothing_added own s t \<Longrightarrow> own \<longrightarrow> own' \<Longrightarrow> nothing_added own' s t"
  by (auto simp: nothing_added_def documents_kept_def ss_load_def split: if_splits)

lemma na_take_all: "nothing_added (\<exists>x \<in> set xs. \<not> from_peer x) s (take_all E xs s)"
proof (induction xs arbitrary: s)
  case (Cons x xs)
  have "nothing_added (\<exists>x \<in> set (x # xs). \<not> from_peer x) s (snd (take_in E x s))"
    by (rule na_weaken [OF na_take_in]) simp
  moreover have "nothing_added (\<exists>x \<in> set (x # xs). \<not> from_peer x) (snd (take_in E x s)) (take_all E xs (snd (take_in E x s)))"
    by (rule na_weaken [OF Cons.IH]) simp
  ultimately show ?case using na.step_trans by fastforce
qed (simp add: na.step_refl)

section \<open>Switching the mode\<close>

lemma switched_on:
  assumes "ke_sessions E" "setHistoryOff E True purge s = (Inr (), t)"
  shows "off_record t"
proof -
  obtain u where "save_sealed E (keyed ''history:'' (k_account s)) (encode_json E (JBool True)) s = (Inr (), u)"
    using assms by (auto simp: setHistoryOff_def bindA_def split: prod.splits sum.splits)
  then show ?thesis
    using assms
    by (auto simp: setHistoryOff_def bindA_def modA_def whenA_def skip_def ret_def applyHistoryMode_def on_device_def
        off_record_def cs_setEphemeral_def kv_setEphemeral_def kv_purgeDurable_def cs_purgeDurable_def split: if_splits)
qed

text \<open>C34.
  With history off incoming traffic adds nothing to the disk but the account's own documents. After
  \<open>setHistoryOff(true)\<close> succeeded and any sequence of incoming messages, identity frames, away replies, list
  rows, revokes, frames of sibling devices and renewals of the MLS state, the mode is still on, no message
  id is on disk that was not there before, and every other object store is as it was, except that a
  sibling's frame or a renewal may have changed the account's own sealed documents: its identity card,
  buddy list and group list, its MLS state and authorization mark, and the Welcomes it still has to deliver.
  If everything came from peers, not even those changed.
\<close>

theorem history_off_keeps_traffic_off_the_disk:
  assumes "ke_sessions E" "setHistoryOff E True purge s = (Inr (), t)"
  shows "off_record (take_all E xs t) \<and> disk_ids (take_all E xs t) \<subseteq> disk_ids t
    \<and> (db (k_device (take_all E xs t)))\<lparr>messages := [], mls_state := []\<rparr> = (db (k_device t))\<lparr>messages := [], mls_state := []\<rparr>
    \<and> (\<forall>k. ss_load k (db (k_device (take_all E xs t))) \<noteq> ss_load k (db (k_device t)) \<longrightarrow> k \<in> own_documents (k_account t))
    \<and> (list_all from_peer xs \<longrightarrow> mls_state (db (k_device (take_all E xs t))) = mls_state (db (k_device t)))"
proof -
  have off: "off_record t" by (rule switched_on [OF assms])
  have "nothing_added True t (take_all E xs t)" by (rule na_weaken [OF na_take_all]) simp
  moreover have "nothing_added False t (take_all E xs t)" if "list_all from_peer xs"
    by (rule na_weaken [OF na_take_all]) (use that in \<open>auto simp: list_all_iff\<close>)
  ultimately show ?thesis
    using off by (auto simp: nothing_added_def documents_kept_def)
qed

definition demo_off :: "nat chan ctl" where
  "demo_off = snd (setHistoryOff demo_ctl_env True True demo_ctl)"

theorem history_off_keeps_traffic_off_the_disk_witness:
  "disk_ids (take_all demo_ctl_env [InMessage (demo_meta ''m1'' BurnOnRead) [42], InRow demo_row] demo_off) \<subseteq> disk_ids demo_off
   \<and> ss_load ''convhandles:al'' (db (k_device (take_all demo_ctl_env [InSibling 1 [], InBuddies []] demo_off)))
     = ss_load ''convhandles:al'' (db (k_device demo_off))"
proof -
  have on: "setHistoryOff demo_ctl_env True True demo_ctl = (Inr (), demo_off)"
    by (simp add: demo_off_def setHistoryOff_def act_simps save_sealed_def requireKey_def drawK_def on_db_def on_device_def
        applyHistoryMode_def)
  note all = history_off_keeps_traffic_off_the_disk [OF _ on]
  have "''convhandles:al'' \<notin> own_documents (k_account demo_off)"
    by (auto simp: own_documents_def keyed_def split: option.splits)
  then have "ss_load ''convhandles:al'' (db (k_device (take_all demo_ctl_env [InSibling 1 [], InBuddies []] demo_off)))
     = ss_load ''convhandles:al'' (db (k_device demo_off))"
    using all [of "[InSibling 1 [], InBuddies []]"] by auto
  with all [of "[InMessage (demo_meta ''m1'' BurnOnRead) [42], InRow demo_row]"] show ?thesis by (simp del: take_all.simps)
qed

end
