(* ===== verification/ControllerDevices.thy ===== *)
theory ControllerDevices
  imports ControllerDemo
begin

text \<open>
  The methods of \<open>controller.ts\<close> that hand over to the group channel: provisioning, certificates and
  revocations, devices in conversations, and the signals of file transfers and calls. Like \<open>group_iface\<close>,
  \<open>device_iface\<close> has the methods of the channel they call; its queries are instantiated with the channel's model.
\<close>

section \<open>The interface\<close>

text \<open>What \<open>syncEpoch\<close> answers; \<open>'m\<close> is the view of a started conversation.\<close>

record epoch_state =
  es_ready :: bool
  es_stale :: bool

record ('g, 'm) device_iface =
  di_openProvisioningWindow :: "string \<Rightarrow> ('g, unit) act"
  di_joinDevice :: "string \<Rightarrow> ('g, unit) act"
  di_confirmProvisioning :: "('g, unit) act"
  di_closeProvisioning :: "('g, unit) act"
  di_startQrPairing :: "('g, string) act"
  di_grantScannedDevice :: "string \<Rightarrow> ('g, unit) act"
  di_freshKeyPackages :: "nat \<Rightarrow> ('g, bytes list) act"
  di_syncEpoch :: "nat \<Rightarrow> ('g, epoch_state) act"
  di_revokeDeviceKey :: "string \<Rightarrow> nat \<Rightarrow> ('g, string option) act"
  di_ingestRevocations :: "string list \<Rightarrow> ('g, nat) act"
  di_addDevice :: "string \<Rightarrow> device_target \<Rightarrow> ('g, unit) act"
  di_reconcileSelf :: "string list \<Rightarrow> device_target list \<Rightarrow> ('g, unit) act"
  di_reconcileSiblings :: "string list \<Rightarrow> device_target list \<Rightarrow> ('g, unit) act"
  di_reconcileRemovals :: "string list \<Rightarrow> string list \<Rightarrow> ('g, unit) act"
  di_createSelfGroup :: "device_target list \<Rightarrow> ('g, unit) act"
  di_excludeEverywhere :: "string \<Rightarrow> ('g, unit) act"
  di_startConversation :: "device_target list \<Rightarrow> ('g, 'm) act"
  di_sendFileSignal :: "string \<Rightarrow> bytes \<Rightarrow> ('g, unit) act"
  di_sendCallSignal :: "string \<Rightarrow> bytes \<Rightarrow> ('g, unit) act"
  di_certEpoch :: "'g \<Rightarrow> nat option"
  di_revocationState :: "'g \<Rightarrow> nat \<times> nat"
  di_isDeviceRevoked :: "string \<Rightarrow> 'g \<Rightarrow> bool"
  di_hasMissingSiblings :: "string list \<Rightarrow> 'g \<Rightarrow> bool result"
  di_selfSiblingState :: "string \<Rightarrow> 'g \<Rightarrow> sibling_state result"
  di_hasSelfGroup :: "'g \<Rightarrow> bool result"

text \<open>The queries of the channel's model; the methods that change it are those of \<open>rest\<close>.\<close>

definition channel_devices :: "'w chan_env \<Rightarrow> ('w chan, 'm) device_iface \<Rightarrow> ('w chan, 'm) device_iface" where
  "channel_devices C rest = rest
     \<lparr>di_certEpoch := own_certEpoch C, di_revocationState := revocationState C, di_isDeviceRevoked := isDeviceRevoked C,
      di_hasMissingSiblings := hasMissingSiblings C, di_selfSiblingState := selfSiblingState C,
      di_hasSelfGroup := hasSelfGroup C\<rparr>"

section \<open>Methods that need the channel\<close>

definition openProvisioningWindow_ctl :: "('g, 'c) ctl_env \<Rightarrow> ('g, 'm) device_iface \<Rightarrow> ('g, unit) kact" where
  "openProvisioningWindow_ctl E D =
     (if \<not> ke_live E then throw channel_needs_gateway
      else bindA requireAccount (\<lambda>account. groupK (di_openProvisioningWindow D account)))"

definition joinDevice_ctl :: "('g, 'c) ctl_env \<Rightarrow> ('g, 'm) device_iface \<Rightarrow> ('g, unit) kact" where
  "joinDevice_ctl E D =
     (if \<not> ke_live E then throw channel_needs_gateway
      else bindA requireAccount (\<lambda>account. groupK (di_joinDevice D account)))"

definition confirmProvisioning_ctl :: "('g, 'c) ctl_env \<Rightarrow> ('g, 'm) device_iface \<Rightarrow> ('g, unit) kact" where
  "confirmProvisioning_ctl E D = requireGroupK E (di_confirmProvisioning D)"

definition closeProvisioning_ctl :: "('g, 'c) ctl_env \<Rightarrow> ('g, 'm) device_iface \<Rightarrow> ('g, unit) kact" where
  "closeProvisioning_ctl E D = requireGroupK E (di_closeProvisioning D)"

definition startQrPairing_ctl :: "('g, 'c) ctl_env \<Rightarrow> ('g, 'm) device_iface \<Rightarrow> ('g, string) kact" where
  "startQrPairing_ctl E D = requireGroupK E (di_startQrPairing D)"

definition grantScannedDevice_ctl :: "('g, 'c) ctl_env \<Rightarrow> ('g, 'm) device_iface \<Rightarrow> string \<Rightarrow> ('g, unit) kact" where
  "grantScannedDevice_ctl E D qrPayload = requireGroupK E (di_grantScannedDevice D qrPayload)"

definition keyPackages_ctl :: "('g, 'c) ctl_env \<Rightarrow> ('g, 'm) device_iface \<Rightarrow> nat \<Rightarrow> ('g, string list) kact" where
  "keyPackages_ctl E D n =
     bindA (requireGroupK E (di_freshKeyPackages D n)) (\<lambda>kps. ret (map bytesToHex kps))"

definition addDevice_ctl ::
    "('g, 'c) ctl_env \<Rightarrow> ('g, 'm) device_iface \<Rightarrow> string \<Rightarrow> device_target \<Rightarrow> ('g, unit) kact" where
  "addDevice_ctl E D cid target = requireGroupK E (di_addDevice D cid target)"

definition startConversation_ctl ::
    "('g, 'c) ctl_env \<Rightarrow> ('g, 'm) device_iface \<Rightarrow> device_target list \<Rightarrow> ('g, 'm) kact" where
  "startConversation_ctl E D targets = requireGroupK E (di_startConversation D targets)"

section \<open>Methods that answer without one\<close>

definition syncEpoch_ctl :: "('g, 'c) ctl_env \<Rightarrow> ('g, 'm) device_iface \<Rightarrow> nat \<Rightarrow> ('g, epoch_state) kact" where
  "syncEpoch_ctl E D epoch =
     (if \<not> ke_live E then ret \<lparr>es_ready = False, es_stale = False\<rparr> else groupK (di_syncEpoch D epoch))"

definition certEpoch_ctl :: "('g, 'c) ctl_env \<Rightarrow> ('g, 'm) device_iface \<Rightarrow> ('g, nat) kact" where
  "certEpoch_ctl E D = readA (\<lambda>s.
     case (if ke_live E then di_certEpoch D (k_group s) else None) of Some n \<Rightarrow> n | None \<Rightarrow> 0)"

definition revokeDeviceKey_ctl ::
    "('g, 'c) ctl_env \<Rightarrow> ('g, 'm) device_iface \<Rightarrow> string \<Rightarrow> nat \<Rightarrow> ('g, string option) kact" where
  "revokeDeviceKey_ctl E D deviceSigKeyHex issuedSeq =
     (if \<not> ke_live E then ret None
      else catchA (groupK (di_revokeDeviceKey D deviceSigKeyHex issuedSeq)) (\<lambda>_. ret None))"

definition ingestRevocations_ctl ::
    "('g, 'c) ctl_env \<Rightarrow> ('g, 'm) device_iface \<Rightarrow> string list \<Rightarrow> ('g, nat) kact" where
  "ingestRevocations_ctl E D records =
     (if \<not> ke_live E then ret 0 else catchA (groupK (di_ingestRevocations D records)) (\<lambda>_. ret 0))"

definition revocationState_ctl :: "('g, 'c) ctl_env \<Rightarrow> ('g, 'm) device_iface \<Rightarrow> ('g, nat \<times> nat) kact" where
  "revocationState_ctl E D = readA (\<lambda>s. if ke_live E then di_revocationState D (k_group s) else (0, 0))"

definition isDeviceRevoked_ctl :: "('g, 'c) ctl_env \<Rightarrow> ('g, 'm) device_iface \<Rightarrow> string \<Rightarrow> ('g, bool) kact" where
  "isDeviceRevoked_ctl E D key = readA (\<lambda>s. ke_live E \<and> di_isDeviceRevoked D key (k_group s))"

definition accountFingerprint :: "('g, 'c) ctl_env \<Rightarrow> ('g, string) kact" where
  "accountFingerprint E = readA (\<lambda>s. fingerprint_or_empty (queryK E [] gi_accountKeyHex s))"

definition hasMissingSiblings_ctl :: "('g, 'c) ctl_env \<Rightarrow> ('g, 'm) device_iface \<Rightarrow> string list \<Rightarrow> ('g, bool) kact" where
  "hasMissingSiblings_ctl E D keys = (\<lambda>s. (if ke_live E then di_hasMissingSiblings D keys (k_group s) else Inr False, s))"

definition selfSiblingState_ctl :: "('g, 'c) ctl_env \<Rightarrow> ('g, 'm) device_iface \<Rightarrow> string \<Rightarrow> ('g, sibling_state) kact" where
  "selfSiblingState_ctl E D key = (\<lambda>s. (if ke_live E then di_selfSiblingState D key (k_group s) else Inr NoGroup, s))"

definition hasSelfGroup_ctl :: "('g, 'c) ctl_env \<Rightarrow> ('g, 'm) device_iface \<Rightarrow> ('g, bool) kact" where
  "hasSelfGroup_ctl E D = (\<lambda>s. (if ke_live E then di_hasSelfGroup D (k_group s) else Inr False, s))"

definition reconcileSelf_ctl ::
    "('g, 'c) ctl_env \<Rightarrow> ('g, 'm) device_iface \<Rightarrow> string list \<Rightarrow> device_target list \<Rightarrow> ('g, unit) kact" where
  "reconcileSelf_ctl E D keys candidates = liveK E (groupK (di_reconcileSelf D keys candidates))"

definition reconcileSiblings_ctl ::
    "('g, 'c) ctl_env \<Rightarrow> ('g, 'm) device_iface \<Rightarrow> string list \<Rightarrow> device_target list \<Rightarrow> ('g, unit) kact" where
  "reconcileSiblings_ctl E D keys candidates = liveK E (groupK (di_reconcileSiblings D keys candidates))"

definition reconcileRemovals_ctl ::
    "('g, 'c) ctl_env \<Rightarrow> ('g, 'm) device_iface \<Rightarrow> string list \<Rightarrow> string list \<Rightarrow> ('g, unit) kact" where
  "reconcileRemovals_ctl E D keys revoked = liveK E (groupK (di_reconcileRemovals D keys revoked))"

definition ensureSelfGroup :: "('g, 'c) ctl_env \<Rightarrow> ('g, 'm) device_iface \<Rightarrow> device_target list \<Rightarrow> ('g, unit) kact" where
  "ensureSelfGroup E D targets = liveK E (groupK (di_createSelfGroup D targets))"

definition excludeDevice :: "('g, 'c) ctl_env \<Rightarrow> ('g, 'm) device_iface \<Rightarrow> string \<Rightarrow> ('g, unit) kact" where
  "excludeDevice E D sigKeyHex =
     liveK E (catchA (groupK (di_excludeEverywhere D sigKeyHex)) (\<lambda>_. skip))"

section \<open>Signals\<close>

definition sendFileSignal_ctl :: "('g, 'c) ctl_env \<Rightarrow> ('g, 'm) device_iface \<Rightarrow> string \<Rightarrow> string \<Rightarrow> ('g, unit) kact" where
  "sendFileSignal_ctl E D cid json = liveK E (groupK (di_sendFileSignal D cid (TextEncoder_encode json)))"

definition sendCallSignal_ctl :: "('g, 'c) ctl_env \<Rightarrow> ('g, 'm) device_iface \<Rightarrow> string \<Rightarrow> string \<Rightarrow> ('g, unit) kact" where
  "sendCallSignal_ctl E D cid json = liveK E (groupK (di_sendCallSignal D cid (TextEncoder_encode json)))"

definition signal_event :: "string \<Rightarrow> string \<Rightarrow> bytes \<Rightarrow> ctl_out" where
  "signal_event kind cid payload =
     PushEvent kind (JObj [(''conversationId'', JStr cid), (''json'', JStr (TextDecoder_decode payload))])"

definition relayFileSignal :: "('g, 'c) ctl_env \<Rightarrow> string \<Rightarrow> bytes \<Rightarrow> ('g, unit) kact" where
  "relayFileSignal E cid payload = liveK E (outK (signal_event ''file-signal'' cid payload))"

definition relayCallSignal :: "('g, 'c) ctl_env \<Rightarrow> string \<Rightarrow> bytes \<Rightarrow> ('g, unit) kact" where
  "relayCallSignal E cid payload = liveK E (outK (signal_event ''call-signal'' cid payload))"

section \<open>A new key exchange\<close>

record key_exchange =
  kx_conversationId :: string
  kx_selfFingerprint :: string
  kx_selfContact :: "string option"

text \<open>\<open>identity\<close> is the constructor's provider of a fingerprint, \<open>uuid\<close> a fresh one.\<close>

definition startKeyExchange :: "('g, 'c) ctl_env \<Rightarrow> ('g, string) kact option \<Rightarrow> string \<Rightarrow> ('g, key_exchange) kact" where
  "startKeyExchange E identity uuid =
     bindA (readA (queryK E None gi_selfContact)) (\<lambda>contact.
     bindA (if ke_live E then readA (\<lambda>s. gi_selfFingerprint (ke_group E) (k_group s))
            else (case identity of Some f \<Rightarrow> f | None \<Rightarrow> ret ''pending'')) (\<lambda>fingerprint.
     ret \<lparr>kx_conversationId = ''c-'' @ uuid, kx_selfFingerprint = fingerprint, kx_selfContact = contact\<rparr>))"

section \<open>What they leave alone\<close>

datatype device_call =
    OpenProvisioningWindow | JoinDevice | ConfirmProvisioning | CloseProvisioning | StartQrPairing
  | GrantScannedDevice string | KeyPackages nat | AddDevice string device_target | StartConversation "device_target list"
  | SyncEpoch nat | CertEpoch | RevokeDeviceKey string nat | IngestRevocations "string list" | RevocationState
  | IsDeviceRevoked string | AccountFingerprint | HasMissingSiblings "string list" | SelfSiblingState string | HasSelfGroup
  | ReconcileSelf "string list" "device_target list" | ReconcileSiblings "string list" "device_target list"
  | ReconcileRemovals "string list" "string list" | EnsureSelfGroup "device_target list" | ExcludeDevice string
  | SendFileSignal string string | SendCallSignal string string
  | RelayFileSignal string bytes | RelayCallSignal string bytes

definition to_unit :: "('s, 'a) act \<Rightarrow> ('s, unit) act" where
  "to_unit m = bindA m (\<lambda>_. skip)"

definition device_step :: "('g, 'c) ctl_env \<Rightarrow> ('g, 'm) device_iface \<Rightarrow> device_call \<Rightarrow> ('g, unit) kact" where
  "device_step E D c = (case c of
     OpenProvisioningWindow \<Rightarrow> openProvisioningWindow_ctl E D
   | JoinDevice \<Rightarrow> joinDevice_ctl E D
   | ConfirmProvisioning \<Rightarrow> confirmProvisioning_ctl E D
   | CloseProvisioning \<Rightarrow> closeProvisioning_ctl E D
   | StartQrPairing \<Rightarrow> to_unit (startQrPairing_ctl E D)
   | GrantScannedDevice qr \<Rightarrow> grantScannedDevice_ctl E D qr
   | KeyPackages n \<Rightarrow> to_unit (keyPackages_ctl E D n)
   | AddDevice cid t \<Rightarrow> addDevice_ctl E D cid t
   | StartConversation ts \<Rightarrow> to_unit (startConversation_ctl E D ts)
   | SyncEpoch n \<Rightarrow> to_unit (syncEpoch_ctl E D n)
   | CertEpoch \<Rightarrow> to_unit (certEpoch_ctl E D)
   | RevokeDeviceKey k n \<Rightarrow> to_unit (revokeDeviceKey_ctl E D k n)
   | IngestRevocations rs \<Rightarrow> to_unit (ingestRevocations_ctl E D rs)
   | RevocationState \<Rightarrow> to_unit (revocationState_ctl E D)
   | IsDeviceRevoked k \<Rightarrow> to_unit (isDeviceRevoked_ctl E D k)
   | AccountFingerprint \<Rightarrow> to_unit (accountFingerprint E)
   | HasMissingSiblings ks \<Rightarrow> to_unit (hasMissingSiblings_ctl E D ks)
   | SelfSiblingState k \<Rightarrow> to_unit (selfSiblingState_ctl E D k)
   | HasSelfGroup \<Rightarrow> to_unit (hasSelfGroup_ctl E D)
   | ReconcileSelf ks ts \<Rightarrow> reconcileSelf_ctl E D ks ts
   | ReconcileSiblings ks ts \<Rightarrow> reconcileSiblings_ctl E D ks ts
   | ReconcileRemovals ks rs \<Rightarrow> reconcileRemovals_ctl E D ks rs
   | EnsureSelfGroup ts \<Rightarrow> ensureSelfGroup E D ts
   | ExcludeDevice k \<Rightarrow> excludeDevice E D k
   | SendFileSignal cid j \<Rightarrow> sendFileSignal_ctl E D cid j
   | SendCallSignal cid j \<Rightarrow> sendCallSignal_ctl E D cid j
   | RelayFileSignal cid p \<Rightarrow> relayFileSignal E cid p
   | RelayCallSignal cid p \<Rightarrow> relayCallSignal E cid p)"

text \<open>A change of the channel and events for the page.\<close>

definition only_channel :: "'g ctl \<Rightarrow> 'g ctl \<Rightarrow> bool" where
  "only_channel s t \<longleftrightarrow> (\<exists>g es. t = s\<lparr>k_group := g, k_out := k_out s @ es\<rparr>)"

interpretation oc: step_relation only_channel
proof unfold_locales
  fix s t u :: "'g ctl"
  show "only_channel s s" unfolding only_channel_def by (rule exI [of _ "k_group s"], rule exI [of _ "[]"]) simp
  show "only_channel s u" if st: "only_channel s t" and tu: "only_channel t u"
  proof -
    from st obtain g es where "t = s\<lparr>k_group := g, k_out := k_out s @ es\<rparr>" by (auto simp: only_channel_def)
    moreover from tu obtain g' es' where "u = t\<lparr>k_group := g', k_out := k_out t @ es'\<rparr>" by (auto simp: only_channel_def)
    ultimately have "u = s\<lparr>k_group := g', k_out := k_out s @ (es @ es')\<rparr>" by simp
    then show ?thesis unfolding only_channel_def by blast
  qed
qed

lemma oc_group: "only_channel s (snd (groupK m s))"
proof (cases "m (k_group s)")
  case (Pair r g)
  then have "snd (groupK m s) = s\<lparr>k_group := g, k_out := k_out s @ []\<rparr>" by (simp add: groupK_def)
  then show ?thesis unfolding only_channel_def by blast
qed

lemma oc_out: "only_channel s (snd (outK e s))"
proof -
  have "snd (outK e s) = s\<lparr>k_group := k_group s, k_out := k_out s @ [e]\<rparr>" by (simp add: outK_def modA_def)
  then show ?thesis unfolding only_channel_def by blast
qed

lemma oc_account: "only_channel s (snd (requireAccount s))"
  by (simp add: requireAccount_def oc.step_refl split: option.split)

lemma oc_require: "only_channel s (snd (requireGroupK E m s))"
  by (simp add: requireGroupK_def oc_group oc.step_throw)

lemma oc_live: "(\<And>s. only_channel s (snd (m s))) \<Longrightarrow> only_channel s (snd (liveK E m s))"
  by (simp add: liveK_def whenA_def oc.step_skip)

lemma oc_to_unit: "(\<And>s. only_channel s (snd (m s))) \<Longrightarrow> only_channel s (snd (to_unit m s))"
  unfolding to_unit_def by (intro oc.step_bind oc.step_skip)

lemmas oc_rules = oc.step_refl oc.step_bind oc.step_catch oc.step_ret oc.step_throw oc.step_skip oc.step_read
  oc_group oc_out oc_account oc_require oc_live oc_to_unit

lemmas device_defs = openProvisioningWindow_ctl_def joinDevice_ctl_def confirmProvisioning_ctl_def
  closeProvisioning_ctl_def startQrPairing_ctl_def grantScannedDevice_ctl_def keyPackages_ctl_def addDevice_ctl_def
  startConversation_ctl_def syncEpoch_ctl_def certEpoch_ctl_def revokeDeviceKey_ctl_def ingestRevocations_ctl_def
  revocationState_ctl_def isDeviceRevoked_ctl_def accountFingerprint_def hasMissingSiblings_ctl_def
  selfSiblingState_ctl_def hasSelfGroup_ctl_def reconcileSelf_ctl_def reconcileSiblings_ctl_def
  reconcileRemovals_ctl_def ensureSelfGroup_def excludeDevice_def sendFileSignal_ctl_def sendCallSignal_ctl_def
  relayFileSignal_def relayCallSignal_def

lemma device_step_only_channel: "only_channel s (snd (device_step E D c s))"
  by (cases c) (simp_all add: device_step_def device_defs oc_rules)

definition device_run :: "('g, 'c) ctl_env \<Rightarrow> ('g, 'm) device_iface \<Rightarrow> device_call list \<Rightarrow> 'g ctl \<Rightarrow> 'g ctl" where
  "device_run E D cs s = foldl (\<lambda>s c. final (device_step E D c) s) s cs"

text \<open>
  No sequence of these methods, whatever the channel does and wherever one throws, changes the stores of the
  device, the keys, the account, the cached seed or any other field of the controller but the channel itself and
  the events for the page.
\<close>

theorem device_calls_touch_only_the_channel:
  "\<exists>g es. device_run E D cs s = s\<lparr>k_group := g, k_out := k_out s @ es\<rparr>"
proof -
  have "only_channel s (device_run E D cs s)"
  proof (induction cs arbitrary: s)
    case Nil
    then show ?case by (simp add: device_run_def oc.step_refl)
  next
    case (Cons c cs)
    have "only_channel s (final (device_step E D c) s)"
      by (simp add: final_def device_step_only_channel)
    then show ?case using Cons [of "final (device_step E D c) s"] by (auto simp: device_run_def intro: oc.step_trans)
  qed
  then show ?thesis by (simp add: only_channel_def)
qed

text \<open>
  Without a channel nothing changes, and exactly the methods that need one throw. With one, revoking,
  ingesting and excluding never throw, whatever the channel answers.
\<close>

definition needs_channel :: "device_call \<Rightarrow> bool" where
  "needs_channel c \<longleftrightarrow> c \<in> {OpenProvisioningWindow, JoinDevice, ConfirmProvisioning, CloseProvisioning, StartQrPairing}
     \<or> (case c of GrantScannedDevice _ \<Rightarrow> True | KeyPackages _ \<Rightarrow> True | AddDevice _ _ \<Rightarrow> True | StartConversation _ \<Rightarrow> True | _ \<Rightarrow> False)"

theorem device_calls_without_a_channel:
  assumes "\<not> ke_live E"
  shows "device_step E D c s = (if needs_channel c then Inl channel_needs_gateway else Inr (), s)"
  using assms
  by (cases c) (simp_all add: device_step_def device_defs needs_channel_def requireGroupK_def liveK_def to_unit_def act_simps)

theorem tolerant_device_calls_never_throw:
  "\<exists>x t. revokeDeviceKey_ctl E D k n s = (Inr x, t)"
  "\<exists>x t. ingestRevocations_ctl E D rs s = (Inr x, t)"
  "\<exists>x t. excludeDevice E D k s = (Inr x, t)"
  by (simp_all add: device_defs liveK_def whenA_def groupK_def act_simps split: prod.splits sum.splits)

end
