(* ===== verification/Qr.thy ===== *)
theory Qr
  imports Auth
begin

text \<open>
  The QR encoder (\<open>client/src/qr.ts\<close>): the tables of the field GF(256), the Reed-Solomon encoder, the
  function patterns, the placement of the code words, masks, format information and penalty, and the two
  exported functions. A typed array is a list: a store outside of it has no effect, as \<open>xs[i := v]\<close>.
\<close>

unbundle bit_operations_syntax

section \<open>Arithmetic in GF(256)\<close>

definition gf_next :: "nat \<Rightarrow> nat" where
  "gf_next x = (let y = push_bit 1 x in if y AND 0x100 \<noteq> 0 then y XOR 0x11d else y)"

text \<open>The first loop that fills the tables, with the running power.\<close>

definition gf_fill :: "nat \<times> bytes \<times> bytes \<Rightarrow> nat \<Rightarrow> nat \<times> bytes \<times> bytes" where
  "gf_fill s i = (case s of (x, e, l) \<Rightarrow> (gf_next x, e[i := of_nat x], l[x := of_nat i]))"

definition gf_filled :: "nat \<times> bytes \<times> bytes" where
  "gf_filled = foldl gf_fill (1, replicate 512 0, replicate 256 0) [0..<255]"

definition GF_LOG :: bytes where "GF_LOG = snd (snd gf_filled)"

definition GF_EXP :: bytes where
  "GF_EXP = foldl (\<lambda>e i. e[i := e ! (i - 255)]) (fst (snd gf_filled)) [255..<512]"

definition gfMul :: "8 word \<Rightarrow> 8 word \<Rightarrow> 8 word" where
  "gfMul a b = (if a = 0 \<or> b = 0 then 0 else GF_EXP ! (unat (GF_LOG ! unat a) + unat (GF_LOG ! unat b)))"

section \<open>Reed-Solomon\<close>

text \<open>Multiplication of a polynomial by \<open>x + 2 ^ d\<close>, highest coefficient first.\<close>

definition gen_times :: "bytes \<Rightarrow> nat \<Rightarrow> bytes" where
  "gen_times poly d =
     foldl (\<lambda>next i.
         let next' = next[i := next ! i XOR poly ! i]
         in next'[i + 1 := next' ! (i + 1) XOR gfMul (poly ! i) (GF_EXP ! d)])
       (replicate (length poly + 1) 0) [0..<length poly]"

definition rsGenerator :: "nat \<Rightarrow> bytes" where
  "rsGenerator degree = foldl gen_times [1] [0..<degree]"

definition rs_step :: "bytes \<Rightarrow> bytes \<Rightarrow> nat \<Rightarrow> bytes" where
  "rs_step gen res i =
     (let factor = res ! i in
      if factor \<noteq> 0 then foldl (\<lambda>r j. r[i + j := r ! (i + j) XOR gfMul (gen ! j) factor]) res [0..<length gen]
      else res)"

definition rsEncode :: "bytes \<Rightarrow> nat \<Rightarrow> bytes" where
  "rsEncode data ecCount =
     drop (length data) (foldl (rs_step (rsGenerator ecCount)) (data @ replicate ecCount 0) [0..<length data])"

section \<open>Versions\<close>

definition DATA_CODEWORDS_L :: "nat list" where "DATA_CODEWORDS_L = [19, 34, 55, 80, 108]"

definition EC_CODEWORDS_L :: "nat list" where "EC_CODEWORDS_L = [7, 10, 15, 20, 26]"

definition pickVersion :: "nat \<Rightarrow> nat" where
  "pickVersion byteLen =
     (case find (\<lambda>v. byteLen \<le> DATA_CODEWORDS_L ! (v - 1) - 2) [1..<6] of Some v \<Rightarrow> v | None \<Rightarrow> 0)"

section \<open>The bit buffer\<close>

definition bb_put :: "nat \<Rightarrow> nat \<Rightarrow> bool list \<Rightarrow> bool list" where
  "bb_put v len bits = bits @ map (bit v) (List.rev [0..<len])"

definition bb_toBytes :: "bool list \<Rightarrow> bytes" where
  "bb_toBytes bits =
     foldl (\<lambda>bs i. if bits ! i then bs[i div 8 := bs ! (i div 8) OR drop_bit (i mod 8) 0x80] else bs)
       (replicate ((length bits + 7) div 8) 0) [0..<length bits]"

section \<open>Placement\<close>

record qr_grid =
  qg_m :: "int list"
  qg_reserved :: "bool list"
  qg_size :: nat

definition newMatrix :: "nat \<Rightarrow> qr_grid" where
  "newMatrix n = \<lparr>qg_m = replicate (n * n) (- 1), qg_reserved = replicate (n * n) False, qg_size = n\<rparr>"

definition setModule :: "nat \<Rightarrow> nat \<Rightarrow> bool \<Rightarrow> qr_grid \<Rightarrow> qr_grid" where
  "setModule r c dark mx =
     mx\<lparr>qg_m := (qg_m mx)[r * qg_size mx + c := (if dark then 1 else 0)],
        qg_reserved := (qg_reserved mx)[r * qg_size mx + c := True]\<rparr>"

definition finder_dark :: "int \<Rightarrow> int \<Rightarrow> bool" where
  "finder_dark r c \<longleftrightarrow>
     (0 \<le> r \<and> r \<le> 6 \<and> 0 \<le> c \<and> c \<le> 6) \<and>
     ((r = 0 \<or> r = 6 \<or> c = 0 \<or> c = 6) \<or> (2 \<le> r \<and> r \<le> 4 \<and> 2 \<le> c \<and> c \<le> 4))"

definition finder_cell :: "int \<Rightarrow> int \<Rightarrow> qr_grid \<Rightarrow> int \<times> int \<Rightarrow> qr_grid" where
  "finder_cell r0 c0 mx rc =
     (let (r, c) = rc; rr = r0 + r; cc = c0 + c; n = int (qg_size mx) in
      if rr < 0 \<or> n \<le> rr \<or> cc < 0 \<or> n \<le> cc then mx
      else setModule (nat rr) (nat cc) (finder_dark r c) mx)"

definition placeFinder :: "int \<Rightarrow> int \<Rightarrow> qr_grid \<Rightarrow> qr_grid" where
  "placeFinder r0 c0 mx = foldl (finder_cell r0 c0) mx (List.product [-1..7] [-1..7])"

definition placeAlignment :: "nat \<Rightarrow> nat \<Rightarrow> qr_grid \<Rightarrow> qr_grid" where
  "placeAlignment cr cc mx =
     foldl (\<lambda>mx (r, c). setModule (nat (int cr + r)) (nat (int cc + c)) (max \<bar>r\<bar> \<bar>c\<bar> \<noteq> 1) mx)
       mx (List.product [-2..2] [-2..2])"

definition reserve :: "qr_grid \<Rightarrow> nat \<Rightarrow> qr_grid" where
  "reserve mx i = mx\<lparr>qg_reserved := (qg_reserved mx)[i := True]\<rparr>"

definition reserveFormat :: "qr_grid \<Rightarrow> qr_grid" where
  "reserveFormat mx =
     (let n = qg_size mx;
          mx1 = foldl (\<lambda>mx i. if i \<noteq> 6 then reserve (reserve mx (8 * n + i)) (i * n + 8) else mx) mx [0..<9];
          mx2 = foldl (\<lambda>mx i. reserve (reserve mx (8 * n + (n - 1 - i))) ((n - 1 - i) * n + 8)) mx1 [0..<8];
          mx3 = reserve mx2 ((n - 8) * n + 8)
      in mx3\<lparr>qg_m := (qg_m mx3)[(n - 8) * n + 8 := 1]\<rparr>)"

definition placeTiming :: "qr_grid \<Rightarrow> qr_grid" where
  "placeTiming mx =
     foldl (\<lambda>mx i. setModule i 6 (i mod 2 = 0) (setModule 6 i (i mod 2 = 0) mx)) mx [8..<qg_size mx - 8]"

definition buildFunctionalPatterns :: "nat \<Rightarrow> qr_grid" where
  "buildFunctionalPatterns version =
     (let side = 17 + 4 * version;
          mx = placeTiming (placeFinder (int side - 7) 0 (placeFinder 0 (int side - 7) (placeFinder 0 0 (newMatrix side))));
          p = 4 * version + 10
      in reserveFormat (if 2 \<le> version then placeAlignment p p mx else mx))"

definition bitAt :: "bytes \<Rightarrow> nat \<Rightarrow> bool" where
  "bitAt bs i = (if i < length bs * 8 then bit (bs ! (i div 8)) (7 - i mod 8) else False)"

text \<open>One cell of the zig-zag: reserved cells are passed over.\<close>

definition place_cell :: "bytes \<Rightarrow> bool list \<Rightarrow> nat \<times> int list \<Rightarrow> nat \<Rightarrow> nat \<times> int list" where
  "place_cell bs reserved s i =
     (case s of (k, m) \<Rightarrow> if reserved ! i then (k, m) else (k + 1, m[i := (if bitAt bs k then 1 else 0)]))"

text \<open>The cells of a pair of columns, in the order of the loops over rows and over the two columns.\<close>

definition column_cells :: "nat \<Rightarrow> nat \<Rightarrow> bool \<Rightarrow> nat list" where
  "column_cells n col upward =
     concat (map (\<lambda>i. let row = (if upward then n - 1 - i else i) in map (\<lambda>dc. row * n + (col - dc)) [0..<2]) [0..<n])"

function place_columns :: "bytes \<Rightarrow> bool list \<Rightarrow> nat \<Rightarrow> nat \<Rightarrow> bool \<Rightarrow> nat \<times> int list \<Rightarrow> nat \<times> int list" where
  "place_columns bs reserved n col upward s =
     (if col = 0 then s
      else (let col' = (if col = 6 then col - 1 else col) in
        place_columns bs reserved n (col' - 2) (\<not> upward)
          (foldl (place_cell bs reserved) s (column_cells n col' upward))))"
  by auto

termination
  by (relation "measure (\<lambda>(_, _, _, col, _, _). col)") auto

declare place_columns.simps [simp del]

definition placeData :: "bytes \<Rightarrow> qr_grid \<Rightarrow> qr_grid" where
  "placeData bs mx =
     mx\<lparr>qg_m := snd (place_columns bs (qg_reserved mx) (qg_size mx) (qg_size mx - 1) True (0, qg_m mx))\<rparr>"

section \<open>Masks and format information\<close>

definition maskCondition :: "nat \<Rightarrow> nat \<Rightarrow> nat \<Rightarrow> bool" where
  "maskCondition msk r c =
     (if msk = 0 then (r + c) mod 2 = 0
      else if msk = 1 then r mod 2 = 0
      else if msk = 2 then c mod 3 = 0
      else if msk = 3 then (r + c) mod 3 = 0
      else if msk = 4 then (r div 2 + c div 3) mod 2 = 0
      else if msk = 5 then (r * c) mod 2 + (r * c) mod 3 = 0
      else if msk = 6 then ((r * c) mod 2 + (r * c) mod 3) mod 2 = 0
      else ((r + c) mod 2 + (r * c) mod 3) mod 2 = 0)"

definition formatBits :: "nat \<Rightarrow> nat" where
  "formatBits msk =
     (let data = push_bit 3 1 OR msk;
          bch = foldl (\<lambda>b i. if bit b i then b XOR push_bit (i - 10) 0x537 else b) (push_bit 10 data) [14, 13, 12, 11, 10]
      in (push_bit 10 data OR bch) XOR 0x5412)"

text \<open>The modules the fifteen bits are stored in: the copy near the first finder, and the split one.\<close>

definition first_copy :: "nat \<Rightarrow> (nat \<times> nat) list" where
  "first_copy n =
     map (\<lambda>i. (8 * n + i, i)) [0..<6] @ [(8 * n + 7, 6), (8 * n + 8, 7), (7 * n + 8, 8)]
     @ map (\<lambda>i. ((14 - i) * n + 8, i)) [9..<15]"

definition second_copy :: "nat \<Rightarrow> (nat \<times> nat) list" where
  "second_copy n =
     map (\<lambda>i. (8 * n + (n - 1 - i), i)) [0..<8] @ map (\<lambda>i. ((n - 15 + i) * n + 8, i)) [8..<15]"

definition writeFormat :: "nat \<Rightarrow> qr_grid \<Rightarrow> qr_grid" where
  "writeFormat msk mx =
     (let n = qg_size mx; bits = formatBits msk in
      mx\<lparr>qg_m := foldl (\<lambda>m (p, i). m[p := (if bit bits i then 1 else 0)]) (qg_m mx) (first_copy n @ second_copy n)\<rparr>)"

text \<open>The loop over rows and columns that inverts the data modules of a mask.\<close>

definition applyMask :: "nat \<Rightarrow> qr_grid \<Rightarrow> qr_grid" where
  "applyMask msk mx =
     (let n = qg_size mx in
      mx\<lparr>qg_m := foldl (\<lambda>m (r, c).
          if \<not> qg_reserved mx ! (r * n + c) \<and> maskCondition msk r c then m[r * n + c := m ! (r * n + c) XOR 1] else m)
        (qg_m mx) (List.product [0..<n] [0..<n])\<rparr>)"

section \<open>Penalty\<close>

text \<open>Runs of five or more equal modules: three for the first five, one for each more.\<close>

fun run_score :: "int list \<Rightarrow> int \<Rightarrow> nat \<Rightarrow> nat" where
  "run_score [] prev run = 0"
| "run_score (x # xs) prev run =
     (if x = prev then (if run + 1 = 5 then 3 else if 5 < run + 1 then 1 else 0) + run_score xs prev (run + 1)
      else run_score xs x 1)"

definition line_score :: "int list \<Rightarrow> nat" where
  "line_score xs = run_score (tl xs) (hd xs) 1"

definition grid_row :: "int list \<Rightarrow> nat \<Rightarrow> nat \<Rightarrow> int list" where
  "grid_row m n r = map (\<lambda>c. m ! (r * n + c)) [0..<n]"

definition grid_col :: "int list \<Rightarrow> nat \<Rightarrow> nat \<Rightarrow> int list" where
  "grid_col m n c = map (\<lambda>r. m ! (r * n + c)) [0..<n]"

definition block_score :: "int list \<Rightarrow> nat \<Rightarrow> nat \<Rightarrow> nat \<Rightarrow> nat" where
  "block_score m n r c =
     (let v = m ! (r * n + c) in
      if v = m ! (r * n + (c + 1)) \<and> v = m ! ((r + 1) * n + c) \<and> v = m ! ((r + 1) * n + (c + 1)) then 3 else 0)"

definition finder_like :: "int list \<Rightarrow> bool" where
  "finder_like xs \<longleftrightarrow> xs = [1, 0, 1, 1, 1, 0, 1, 0, 0, 0, 0] \<or> xs = [0, 0, 0, 0, 1, 0, 1, 1, 1, 0, 1]"

definition window_score :: "int list \<Rightarrow> nat" where
  "window_score xs =
     sum_list (map (\<lambda>c. if c + 11 \<le> length xs \<and> finder_like (take 11 (drop c xs)) then 40 else 0) [0..<length xs])"

text \<open>
  The share of dark modules is computed in floating point; its distance to a multiple of five percent is
  zero or far above the rounding error, so that the floor is that of the exact quotient.
\<close>

definition penalty :: "int list \<Rightarrow> nat \<Rightarrow> nat" where
  "penalty m n =
     sum_list (map (\<lambda>r. line_score (grid_row m n r) + line_score (grid_col m n r)) [0..<n])
     + sum_list (map (\<lambda>(r, c). block_score m n r c) (List.product [0..<n - 1] [0..<n - 1]))
     + sum_list (map (\<lambda>r. window_score (grid_row m n r) + window_score (grid_col m n r)) [0..<n])
     + nat (\<bar>100 * int (count_list (take (n * n) m) 1) - 50 * int (n * n)\<bar> div (5 * int (n * n))) * 10"

section \<open>The exported functions\<close>

text \<open>The data code words: header, bytes, terminator, zero bits to the byte, padding.\<close>

definition stream_bits :: "bytes \<Rightarrow> nat \<Rightarrow> bool list" where
  "stream_bits data capacityBits =
     (let bits = fold (\<lambda>b. bb_put (unat b) 8) data (bb_put (length data) 8 (bb_put 4 4 []));
          ended = bb_put 0 (min 4 (capacityBits - length bits)) bits
      in ended @ replicate ((8 - length ended mod 8) mod 8) False)"

definition data_codewords :: "bytes \<Rightarrow> nat \<Rightarrow> bytes" where
  "data_codewords data dataCodewords =
     (let bits = stream_bits data (dataCodewords * 8); used = bb_toBytes bits
      in take dataCodewords (used @ map (\<lambda>p. if p mod 2 = 0 then 0xec else 0x11) [0..<dataCodewords - length bits div 8]))"

definition code_words :: "nat \<Rightarrow> bytes \<Rightarrow> bytes" where
  "code_words version data =
     (let dataBytes = data_codewords data (DATA_CODEWORDS_L ! (version - 1))
      in dataBytes @ rsEncode dataBytes (EC_CODEWORDS_L ! (version - 1)))"

definition masked_symbol :: "nat \<Rightarrow> bytes \<Rightarrow> nat \<Rightarrow> qr_grid" where
  "masked_symbol version ws msk = writeFormat msk (applyMask msk (placeData ws (buildFunctionalPatterns version)))"

text \<open>The loop over the masks: the first of the lowest penalty.\<close>

definition try_mask :: "nat \<Rightarrow> bytes \<Rightarrow> (int list \<times> nat) option \<Rightarrow> nat \<Rightarrow> (int list \<times> nat) option" where
  "try_mask version ws best msk =
     (let mx = masked_symbol version ws msk; score = penalty (qg_m mx) (qg_size mx) in
      case best of Some (_, bestScore) \<Rightarrow> if score < bestScore then Some (qg_m mx, score) else best
      | None \<Rightarrow> Some (qg_m mx, score))"

definition qrMatrix :: "string \<Rightarrow> js_error + bool list list \<times> nat" where
  "qrMatrix t =
     (let data = TextEncoder_encode t; version = pickVersion (length data) in
      if version = 0 then Inl (JsError ''qr: text too long for a v1-5 code'')
      else
        (let ws = code_words version data;
             side = 17 + 4 * version;
             grid = (case foldl (try_mask version ws) None [0..<8] of Some (m, _) \<Rightarrow> m | None \<Rightarrow> [])
         in Inr (map (\<lambda>r. map (\<lambda>c. grid ! (r * side + c) = 1) [0..<side]) [0..<side], side)))"

definition module_path :: "bool list list \<Rightarrow> nat \<Rightarrow> nat \<times> nat \<Rightarrow> string" where
  "module_path modules quiet rc =
     (case rc of (r, c) \<Rightarrow>
        if modules ! r ! c then ''M'' @ decimal (c + quiet) @ '' '' @ decimal (r + quiet) @ ''h1v1h-1z'' else [])"

definition qrSvg :: "string \<Rightarrow> nat \<Rightarrow> js_error + string" where
  "qrSvg t px =
     (case qrMatrix t of
        Inl e \<Rightarrow> Inl e
      | Inr (modules, side) \<Rightarrow>
          (let quiet = 4; dim = decimal (side + quiet * 2);
               path = concat (map (module_path modules quiet) (List.product [0..<side] [0..<side]))
           in Inr (''<svg class=\"dd-qr-svg\" viewBox=\"0 0 '' @ dim @ '' '' @ dim @ ''\" width=\"'' @ decimal px
              @ ''\" height=\"'' @ decimal px @ ''\" ''
              @ ''shape-rendering=\"crispEdges\" xmlns=\"http://www.w3.org/2000/svg\" role=\"img\" aria-label=\"QR code\">''
              @ ''<rect width=\"'' @ dim @ ''\" height=\"'' @ dim @ ''\" fill=\"#ffffff\"/>''
              @ ''<path d=\"'' @ path @ ''\" fill=\"#000000\"/>'' @ ''</svg>'')))"

end
