(* ===== verification/QrField.thy ===== *)
theory QrField
  imports Qr
begin

text \<open>
  The tables of \<open>qr.ts\<close> make up the field GF(256), and the Reed-Solomon encoder produces code words: data
  and check bytes together vanish at every root of the generator polynomial.
\<close>

section \<open>Multiplication by the generator\<close>

definition xtime :: "8 word \<Rightarrow> 8 word" where
  "xtime w = (if bit w 7 then push_bit 1 w XOR 0x1d else push_bit 1 w)"

definition pw :: "nat \<Rightarrow> 8 word" where
  "pw i = (xtime ^^ i) 1"

lemma xtime_xor: "xtime (a XOR b) = xtime a XOR xtime b"
  by (auto simp: xtime_def bit_xor_iff push_bit_xor ac_simps)

lemma xtime_0 [simp]: "xtime 0 = 0"
  by (simp add: xtime_def)

lemma xtime_pow_xor: "(xtime ^^ i) (a XOR b) = (xtime ^^ i) a XOR (xtime ^^ i) b"
  by (induction i) (simp_all add: xtime_xor)

lemma xtime_pow_0 [simp]: "(xtime ^^ i) 0 = 0"
  by (induction i) simp_all

lemma xtime_eq_0: "xtime a = 0 \<Longrightarrow> a = 0"
proof (rule bit_word_eqI)
  fix n assume n: "n < LENGTH(8)" and z: "xtime a = 0"
  have "\<not> bit a 7"
  proof
    assume "bit a 7"
    with z have "bit (push_bit 1 a XOR 0x1d) 0 = bit (0 :: 8 word) 0" by (simp add: xtime_def)
    then show False by (simp only: bit_xor_iff bit_push_bit_iff) (simp add: bit_0)
  qed
  with z have "push_bit 1 a = 0" by (simp only: xtime_def if_False)
  then have "bit (push_bit 1 a) (Suc n) = bit (0 :: 8 word) (Suc n)" by (simp only:)
  with n \<open>\<not> bit a 7\<close> show "bit a n = bit (0 :: 8 word) n"
    by (cases "n = 7") (simp_all only: bit_push_bit_iff, simp_all)
qed

lemma xtime_inject: "xtime a = xtime b \<longleftrightarrow> a = b"
proof
  assume "xtime a = xtime b"
  then have "xtime (a XOR b) = 0" by (simp add: xtime_xor)
  then have "a XOR b = 0" by (rule xtime_eq_0)
  moreover have "a = (a XOR b) XOR b" by (simp add: xor.assoc)
  ultimately show "a = b" by simp
qed simp

lemma pw_neq_0: "pw i \<noteq> 0"
  by (induction i) (auto simp: pw_def dest: xtime_eq_0)

lemma pw_Suc: "pw (Suc i) = xtime (pw i)"
  by (simp add: pw_def)

lemma pw_add: "pw (i + j) = (xtime ^^ i) (pw j)"
  by (simp add: pw_def funpow_add)

section \<open>The order of the generator\<close>

fun powers :: "nat \<Rightarrow> 8 word \<Rightarrow> 8 word list" where
  "powers 0 w = []"
| "powers (Suc k) w = w # powers k (xtime w)"

lemma powers_nth: "i < k \<Longrightarrow> powers k w ! i = (xtime ^^ i) w"
proof (induction k arbitrary: i w)
  case (Suc k)
  then show ?case by (cases i) (simp_all del: funpow.simps add: funpow_Suc_right)
qed simp

lemma length_powers: "length (powers k w) = k"
  by (induction k arbitrary: w) simp_all

lemma powers_numeral: "powers (numeral k) w = w # powers (pred_numeral k) (xtime w)"
  by (simp add: numeral_eq_Suc)

lemma all_powers: "powers 256 1 =
     [1, 2, 4, 8, 16, 32, 64, 128, 29, 58, 116, 232, 205, 135, 19, 38, 76, 152, 45, 90, 180, 117,
      234, 201, 143, 3, 6, 12, 24, 48, 96, 192, 157, 39, 78, 156, 37, 74, 148, 53, 106, 212, 181,
      119, 238, 193, 159, 35, 70, 140, 5, 10, 20, 40, 80, 160, 93, 186, 105, 210, 185, 111, 222,
      161, 95, 190, 97, 194, 153, 47, 94, 188, 101, 202, 137, 15, 30, 60, 120, 240, 253, 231, 211,
      187, 107, 214, 177, 127, 254, 225, 223, 163, 91, 182, 113, 226, 217, 175, 67, 134, 17, 34,
      68, 136, 13, 26, 52, 104, 208, 189, 103, 206, 129, 31, 62, 124, 248, 237, 199, 147, 59, 118,
      236, 197, 151, 51, 102, 204, 133, 23, 46, 92, 184, 109, 218, 169, 79, 158, 33, 66, 132, 21,
      42, 84, 168, 77, 154, 41, 82, 164, 85, 170, 73, 146, 57, 114, 228, 213, 183, 115, 230, 209,
      191, 99, 198, 145, 63, 126, 252, 229, 215, 179, 123, 246, 241, 255, 227, 219, 171, 75, 150,
      49, 98, 196, 149, 55, 110, 220, 165, 87, 174, 65, 130, 25, 50, 100, 200, 141, 7, 14, 28, 56,
      112, 224, 221, 167, 83, 166, 81, 162, 89, 178, 121, 242, 249, 239, 195, 155, 43, 86, 172, 69,
      138, 9, 18, 36, 72, 144, 61, 122, 244, 245, 247, 243, 251, 235, 203, 139, 11, 22, 44, 88,
      176, 125, 250, 233, 207, 131, 27, 54, 108, 216, 173, 71, 142, 1]"
  by (simp add: powers_numeral xtime_def)

lemma pw_255: "pw 255 = 1"
  using powers_nth [of 255 256 1] by (simp add: all_powers pw_def)

lemma pw_order: assumes "0 < d" "d < 255" shows "pw d \<noteq> 1"
proof -
  obtain e where "d = Suc e" "e < 254" using assms by (cases d) auto
  then have "pw d = take 254 (drop 1 (powers 256 1)) ! e" by (simp add: powers_nth pw_def length_powers)
  then have "pw d \<in> set (take 254 (drop 1 (powers 256 1)))"
    using \<open>e < 254\<close> nth_mem [of e "take 254 (drop 1 (powers 256 1))"] by (simp add: length_powers)
  moreover have "1 \<notin> set (take 254 (drop 1 (powers 256 1)))" unfolding all_powers by simp
  ultimately show ?thesis by metis
qed

lemma pw_periodic: "pw (i + 255) = pw i"
  using pw_255 by (simp add: pw_add) (simp add: pw_def)

lemma pw_mod: "pw (i mod 255) = pw i"
proof -
  have "pw (r + 255 * q) = pw r" for q r
    by (induction q) (simp, metis add.assoc add.commute mult_Suc_right pw_periodic)
  from this [of "i mod 255" "i div 255"] show ?thesis by simp
qed

lemma pw_inject: "i < 255 \<Longrightarrow> j < 255 \<Longrightarrow> pw i = pw j \<longleftrightarrow> i = j"
proof -
  have step: "False" if "i < j" "j < 255" "pw i = pw j" for i j
  proof -
    have inj: "(xtime ^^ k) a = (xtime ^^ k) b \<Longrightarrow> a = b" for k a b
      by (induction k) (simp_all add: xtime_inject)
    have "(xtime ^^ i) (pw (j - i)) = (xtime ^^ i) 1"
      using that by (simp add: pw_add [symmetric]) (simp add: pw_def)
    then have "pw (j - i) = 1" by (rule inj)
    moreover have "0 < j - i" "j - i < 255" using that by simp_all
    ultimately show False using pw_order by blast
  qed
  assume "i < 255" "j < 255"
  with step [of i j] step [of j i] show ?thesis by (metis linorder_neqE_nat)
qed

lemma pw_surj: assumes "b \<noteq> 0" obtains i where "i < 255" "b = pw i"
proof -
  let ?P = "pw ` {i. i < 255}"
  have "inj_on pw {i. i < 255}" by (simp add: inj_on_def pw_inject)
  then have "card ?P = 255" by (simp only: card_image card_Collect_less_nat)
  moreover have "card (UNIV - {0 :: 8 word}) = 255"
    by (subst card_Diff_singleton) (simp_all add: card_word)
  moreover have "?P \<subseteq> UNIV - {0}" using pw_neq_0 by (simp add: image_subset_iff)
  ultimately have "?P = UNIV - {0}" using card_subset_eq [OF finite] by metis
  with assms that show thesis by blast
qed

section \<open>The tables\<close>

lemma gf_next_bits: "gf_next x = (if bit x 7 then push_bit 1 x XOR 0x11d else push_bit 1 x)"
proof -
  have "(push_bit 1 x AND 0x100 \<noteq> 0) = bit (push_bit 1 x) 8"
    using and_exp_eq_0_iff_not_bit [of "push_bit 1 x" 8] by simp
  also have "\<dots> = bit x 7" by (simp only: bit_push_bit_iff) simp
  finally show ?thesis by (simp only: gf_next_def Let_def)
qed
lemma of_nat_gf_next: "of_nat (gf_next x) = xtime (of_nat x)"
proof -
  have "bit (of_nat x :: 8 word) 7 = bit x 7" by (simp add: bit_of_nat_iff)
  moreover have "(of_nat 0x11d :: 8 word) = 0x1d" by simp
  ultimately show ?thesis
    by (simp only: gf_next_bits xtime_def of_nat_xor_eq push_bit_of_nat split: if_split) simp
qed
lemma gf_next_less: assumes "x < 256" shows "gf_next x < 256"
proof (cases "bit x 7")
  case False
  then have "take_bit 8 x = take_bit 7 x" by (simp add: take_bit_Suc_from_most [of 7, simplified])
  then have "x < 128" using assms take_bit_nat_eq_self_iff [of 8 x] take_bit_nat_eq_self_iff [of 7 x] by simp
  with False show ?thesis by (simp add: gf_next_bits)
next
  case True
  have "take_bit 8 (gf_next x) = gf_next x"
  proof (rule bit_eqI)
    fix n
    have x: "bit x m \<longrightarrow> m < 8" for m
      using assms take_bit_nat_eq_self_iff [of 8 x] bit_take_bit_iff [of 8 x m] by auto
    have c: "bit (0x11d :: nat) n \<longrightarrow> n < 9"
      using bit_take_bit_iff [of 9 "0x11d :: nat" n] by auto
    have "bit (gf_next x) n \<longrightarrow> n < 8"
    proof (cases "n = 8")
      case True
      have "bit (push_bit 1 x) 8" using \<open>bit x 7\<close> by (simp only: bit_push_bit_iff) simp
      then show ?thesis using \<open>bit x 7\<close> True by (simp only: gf_next_bits bit_xor_iff if_True) (simp add: bit_0)
    next
      case False
      then show ?thesis using x [of "n - 1"] c
        by (simp only: gf_next_bits \<open>bit x 7\<close> if_True bit_xor_iff bit_push_bit_iff) auto
    qed
    then show "bit (take_bit 8 (gf_next x)) n = bit (gf_next x) n" by (auto simp: bit_take_bit_iff)
  qed
  then show ?thesis using take_bit_nat_eq_self_iff [of 8 "gf_next x"] by simp
qed
definition filled :: "nat \<Rightarrow> nat \<times> bytes \<times> bytes" where
  "filled k = foldl gf_fill (1, replicate 512 0, replicate 256 0) [0..<k]"

lemma filled_Suc: "filled (Suc k) = gf_fill (filled k) k"
  by (simp add: filled_def)

lemma filled_ok:
  assumes "k \<le> 255"
  shows "case filled k of (x, e, l) \<Rightarrow> x < 256 \<and> of_nat x = pw k \<and> length e = 512 \<and> length l = 256
    \<and> (\<forall>i < k. e ! i = pw i \<and> l ! unat (pw i) = of_nat i)"
  using assms
proof (induction k)
  case 0
  then show ?case by (simp add: filled_def pw_def)
next
  case (Suc k)
  obtain x e l where f: "filled k = (x, e, l)" by (cases "filled k")
  with Suc have h: "x < 256" "of_nat x = pw k" "length e = 512" "length l = 256"
    "\<And>i. i < k \<Longrightarrow> e ! i = pw i \<and> l ! unat (pw i) = of_nat i" by auto
  have x: "x = unat (pw k)" using h(1,2) by (simp add: unat_of_nat flip: h(2))
  have other: "unat (pw i) \<noteq> x" if "i < k" for i
    using that Suc.prems pw_inject [of i k] by (simp add: x) (metis word_unat_eq_iff)
  show ?case
    using h Suc.prems gf_next_less [OF h(1)] other
    by (auto simp: filled_Suc f gf_fill_def of_nat_gf_next pw_Suc nth_list_update less_Suc_eq x [symmetric])
qed

lemma gf_filled_255: "gf_filled = filled 255"
  by (simp add: gf_filled_def filled_def)

lemma gf_log: "i < 255 \<Longrightarrow> unat (GF_LOG ! unat (pw i)) = i"
  using filled_ok [of 255] by (auto simp: GF_LOG_def gf_filled_255 unat_of_nat)

lemma gf_exp: assumes "i < 512" shows "GF_EXP ! i = pw i"
proof -
  let ?e = "fst (snd gf_filled)"
  have e: "length ?e = 512" "\<And>i. i < 255 \<Longrightarrow> ?e ! i = pw i"
    using filled_ok [of 255] by (auto simp: gf_filled_255)
  define tab where "tab n = foldl (\<lambda>e i. e[i := e ! (i - 255)]) ?e [255..<n]" for n
  have Suc: "tab (Suc n) = (tab n)[n := tab n ! (n - 255)]" if "255 \<le> n" for n
    using that by (simp add: tab_def)
  have start: "tab 255 = ?e" by (simp add: tab_def)
  have "length (tab n) = 512 \<and> (\<forall>i < n. tab n ! i = pw i)" if "255 \<le> n" "n \<le> 512" for n
    using that
  proof (induction n rule: dec_induct)
    case base
    then show ?case unfolding start using e by blast
  next
    case (step n)
    have "pw (n - 255) = pw n" using pw_periodic [of "n - 255"] step.hyps(1) by simp
    then have "tab n ! (n - 255) = pw n" using step by simp
    then show ?case using step by (simp add: Suc nth_list_update less_Suc_eq)
  qed
  then have inv: "tab n ! i = pw i" if "255 \<le> n" "n \<le> 512" "i < n" for n using that by blast
  have "tab 512 ! i = pw i" by (rule inv) (use assms in simp_all)
  moreover have "GF_EXP = tab 512" unfolding GF_EXP_def tab_def ..
  ultimately show ?thesis by (simp only:)
qed

section \<open>The multiplication of a field\<close>

lemma gfMul_pw: "i < 255 \<Longrightarrow> j < 255 \<Longrightarrow> gfMul (pw i) (pw j) = pw (i + j)"
  by (simp add: gfMul_def pw_neq_0 gf_log gf_exp)

lemma gfMul_0 [simp]: "gfMul 0 b = 0" "gfMul a 0 = 0"
  by (simp_all add: gfMul_def)

lemma gfMul_powers: "gfMul (pw i) (pw j) = pw (i + j)"
  using gfMul_pw [of "i mod 255" "j mod 255"] pw_mod [of i] pw_mod [of j] pw_mod [of "i mod 255 + j mod 255"] pw_mod [of "i + j"]
  by (simp add: mod_add_eq)

lemma gfMul_xtime: "gfMul (pw i) b = (xtime ^^ i) b"
  by (cases "b = 0") (simp, metis gfMul_powers pw_add pw_surj)

lemma gfMul_commute: "gfMul a b = gfMul b a"
  by (simp add: gfMul_def ac_simps)

lemma gfMul_xor: "gfMul a (b XOR c) = gfMul a b XOR gfMul a c"
proof (cases "a = 0")
  case False
  then obtain i where "a = pw i" by (rule pw_surj)
  then show ?thesis by (simp add: gfMul_xtime xtime_pow_xor)
qed simp

lemma gfMul_assoc: "gfMul (gfMul a b) c = gfMul a (gfMul b c)"
proof (cases "a = 0 \<or> b = 0")
  case False
  then obtain i j where "a = pw i" "b = pw j" by (meson pw_surj)
  then show ?thesis by (simp only: gfMul_powers) (simp only: gfMul_xtime funpow_add comp_apply)
qed auto

lemma gfMul_1 [simp]: "gfMul 1 b = b"
  using gfMul_xtime [of 0 b] by (simp add: pw_def)

section \<open>Polynomials\<close>

text \<open>A polynomial, highest coefficient first, at a point; the exclusive or of two of the same length.\<close>

definition peval :: "8 word \<Rightarrow> bytes \<Rightarrow> 8 word \<Rightarrow> 8 word" where
  "peval acc xs y = foldl (\<lambda>a x. gfMul a y XOR x) acc xs"

abbreviation value_at :: "bytes \<Rightarrow> 8 word \<Rightarrow> 8 word" where
  "value_at xs y \<equiv> peval 0 xs y"

definition xor_list :: "bytes \<Rightarrow> bytes \<Rightarrow> bytes" where
  "xor_list xs ys = map (\<lambda>(x, y). x XOR y) (zip xs ys)"

lemma peval_simps [simp]:
  "peval acc [] y = acc"
  "peval acc (x # xs) y = peval (gfMul acc y XOR x) xs y"
  "peval acc (xs @ ys) y = peval (peval acc xs y) ys y"
  by (simp_all add: peval_def)

lemma xor_list_simps [simp]:
  "xor_list [] ys = []" "xor_list (x # xs) (y # ys) = (x XOR y) # xor_list xs ys" "xor_list xs [] = []"
  by (simp_all add: xor_list_def)

lemma length_xor_list [simp]: "length (xor_list xs ys) = min (length xs) (length ys)"
  by (simp add: xor_list_def)

lemma nth_xor_list: "i < length xs \<Longrightarrow> i < length ys \<Longrightarrow> xor_list xs ys ! i = xs ! i XOR ys ! i"
  by (simp add: xor_list_def)

lemma gfMul_xor_left: "gfMul (a XOR b) c = gfMul a c XOR gfMul b c"
  using gfMul_xor [of c a b] by (simp add: gfMul_commute [of c])

lemma peval_xor: "length xs = length ys \<Longrightarrow> peval (a XOR b) (xor_list xs ys) y = peval a xs y XOR peval b ys y"
proof (induction xs ys arbitrary: a b rule: list_induct2)
  case (Cons x xs z ys)
  have "gfMul (a XOR b) y XOR (x XOR z) = (gfMul a y XOR x) XOR (gfMul b y XOR z)"
    by (simp add: gfMul_xor_left ac_simps)
  with Cons.IH show ?case by simp
qed simp

lemma peval_scale: "peval (gfMul c a) (map (gfMul c) xs) y = gfMul c (peval a xs y)"
proof (induction xs arbitrary: a)
  case (Cons x xs)
  have "gfMul (gfMul c a) y XOR gfMul c x = gfMul c (gfMul a y XOR x)" by (simp add: gfMul_assoc gfMul_xor)
  with Cons.IH show ?case by simp
qed simp

lemma value_scale: "value_at (map (gfMul c) xs) y = gfMul c (value_at xs y)"
  using peval_scale [of c 0] by simp

lemma value_zeros [simp]: "value_at (replicate k 0) y = 0"
  by (induction k) simp_all

lemma xor_list_right: "xor_list (xs @ [x]) (ys @ [y]) = xor_list xs ys @ [x XOR y]" if "length xs = length ys"
  using that by (simp add: xor_list_def)

section \<open>The generator\<close>

text \<open>What the two stores of one turn of the inner loop leave in the array.\<close>

definition two_stores :: "nat \<Rightarrow> 8 word \<Rightarrow> 8 word \<Rightarrow> bytes \<Rightarrow> bytes" where
  "two_stores i a b xs = (let ys = xs[i := xs ! i XOR a] in ys[i + 1 := ys ! (i + 1) XOR b])"

lemma length_two_stores [simp]: "length (two_stores i a b xs) = length xs"
  by (simp add: two_stores_def Let_def)

lemma nth_two_stores: "i + 1 < length xs \<Longrightarrow> two_stores i a b xs ! j =
    xs ! j XOR (if j = i then a else 0) XOR (if j = i + 1 then b else 0)"
  by (auto simp: two_stores_def Let_def nth_list_update)

lemma gen_times_xor: "gen_times poly d = xor_list (poly @ [0]) (0 # map (gfMul (GF_EXP ! d)) poly)"
proof -
  let ?c = "GF_EXP ! d"
  define loop where "loop k = foldl (\<lambda>xs i. two_stores i (poly ! i) (gfMul (poly ! i) ?c) xs) (replicate (length poly + 1) 0) [0..<k]" for k
  have gen: "gen_times poly d = loop (length poly)"
    by (simp add: gen_times_def loop_def two_stores_def Let_def)
  have len: "length (loop k) = length poly + 1" for k
    by (induction k) (simp_all add: loop_def)
  have vals: "loop k ! j = (if j < k then poly ! j else 0) XOR (if 0 < j \<and> j \<le> k then gfMul ?c (poly ! (j - 1)) else 0)"
    if "k \<le> length poly" "j \<le> length poly" for k j
    using that
  proof (induction k)
    case 0
    then show ?case by (auto simp: loop_def nth_Cons')
  next
    case (Suc k)
    have "loop (Suc k) = two_stores k (poly ! k) (gfMul (poly ! k) ?c) (loop k)" by (simp add: loop_def)
    then have "loop (Suc k) ! j = loop k ! j XOR (if j = k then poly ! k else 0) XOR (if j = k + 1 then gfMul ?c (poly ! k) else 0)"
      using Suc.prems by (simp add: nth_two_stores len gfMul_commute)
    moreover have "loop k ! j = (if j < k then poly ! j else 0) XOR (if 0 < j \<and> j \<le> k then gfMul ?c (poly ! (j - 1)) else 0)"
      using Suc by simp
    moreover consider "j < k" | "j = k" | "j = k + 1" | "k + 1 < j" by linarith
    ultimately show ?case by cases (simp_all add: ac_simps)
  qed
  show ?thesis
  proof (rule nth_equalityI)
    show "length (gen_times poly d) = length (xor_list (poly @ [0]) (0 # map (gfMul ?c) poly))"
      by (simp add: gen len)
    fix j assume "j < length (gen_times poly d)"
    then have j: "j \<le> length poly" by (simp add: gen len)
    then have right: "xor_list (poly @ [0]) (0 # map (gfMul ?c) poly) ! j
        = (poly @ [0]) ! j XOR (0 # map (gfMul ?c) poly) ! j" by (simp add: nth_xor_list)
    show "gen_times poly d ! j = xor_list (poly @ [0]) (0 # map (gfMul ?c) poly) ! j"
      unfolding gen vals [OF order.refl j] right using j by (cases "poly = []") (auto simp: nth_append nth_Cons')
  qed
qed

lemma gen_times_value: "value_at (gen_times poly d) y = gfMul (value_at poly y) (y XOR GF_EXP ! d)"
proof -
  have "value_at (gen_times poly d) y = value_at (poly @ [0]) y XOR value_at (0 # map (gfMul (GF_EXP ! d)) poly) y"
    using peval_xor [of "poly @ [0]" "0 # map (gfMul (GF_EXP ! d)) poly" 0 0 y] by (simp add: gen_times_xor)
  then show ?thesis by (simp add: value_scale gfMul_xor gfMul_commute)
qed

lemma rsGenerator_Suc: "rsGenerator (Suc n) = gen_times (rsGenerator n) n"
  by (simp add: rsGenerator_def)

lemma rsGenerator_shape: "length (rsGenerator n) = n + 1 \<and> rsGenerator n ! 0 = 1"
proof (induction n)
  case (Suc n)
  then show ?case by (auto simp: rsGenerator_Suc gen_times_xor nth_xor_list nth_append)
qed (simp add: rsGenerator_def)

lemma rsGenerator_root: "d < n \<Longrightarrow> value_at (rsGenerator n) (GF_EXP ! d) = 0"
  by (induction n) (auto simp: rsGenerator_Suc gen_times_value less_Suc_eq)

section \<open>The encoder\<close>

lemma xor_loop:
  "i + k \<le> length res \<Longrightarrow>
     length (foldl (\<lambda>r j. r[i + j := r ! (i + j) XOR f j]) res [0..<k]) = length res
     \<and> (\<forall>n. foldl (\<lambda>r j. r[i + j := r ! (i + j) XOR f j]) res [0..<k] ! n
          = res ! n XOR (if i \<le> n \<and> n < i + k then f (n - i) else (0 :: 8 word)))"
proof (induction k)
  case (Suc k)
  define prev where "prev = foldl (\<lambda>r j. r[i + j := r ! (i + j) XOR f j]) res [0..<k]"
  have h: "length prev = length res" "\<And>n. prev ! n = res ! n XOR (if i \<le> n \<and> n < i + k then f (n - i) else 0)"
    using Suc by (simp_all add: prev_def)
  have "foldl (\<lambda>r j. r[i + j := r ! (i + j) XOR f j]) res [0..<Suc k] = prev[i + k := prev ! (i + k) XOR f k]"
    by (simp add: prev_def)
  then show ?case using Suc.prems by (auto simp: h nth_list_update)
qed auto

lemma rs_step_xor:
  assumes "i + length gen \<le> length res"
  shows "rs_step gen res i
    = xor_list res (replicate i 0 @ map (gfMul (res ! i)) gen @ replicate (length res - i - length gen) 0)"
proof -
  let ?l = "foldl (\<lambda>r j. r[i + j := r ! (i + j) XOR gfMul (gen ! j) (res ! i)]) res [0..<length gen]"
  let ?r = "xor_list res (replicate i 0 @ map (gfMul (res ! i)) gen @ replicate (length res - i - length gen) 0)"
  have "?l = ?r"
  proof (rule nth_equalityI)
    show "length ?l = length ?r" using xor_loop [OF assms] assms by simp
    fix n assume "n < length ?l"
    then have "n < length res" using xor_loop [OF assms] by simp
    with xor_loop [OF assms] assms show "?l ! n = ?r ! n"
      by (auto simp: nth_xor_list nth_append gfMul_commute)
  qed
  moreover have "?r = res" if "res ! i = 0"
    using assms by (intro nth_equalityI) (auto simp: that nth_xor_list nth_append)
  ultimately show ?thesis by (simp add: rs_step_def Let_def)
qed

text \<open>Each step keeps the value at a root of the generator, and clears one more coefficient.\<close>

lemma rs_step_value:
  assumes "i + length gen \<le> length res" "value_at gen y = 0"
  shows "value_at (rs_step gen res i) y = value_at res y"
proof -
  have zeros: "peval 0 (replicate k 0) y = 0" for k by (rule value_zeros)
  have "value_at (replicate i 0 @ map (gfMul (res ! i)) gen @ replicate (length res - i - length gen) 0) y = 0"
    by (simp add: value_scale assms(2))
  then show ?thesis using assms(1) peval_xor [of res _ 0 0 y] by (simp add: rs_step_xor)
qed

lemma rs_steps:
  assumes "length res = k + ec" "length gen = ec + 1" "gen ! 0 = 1" "value_at gen y = 0" "m \<le> k"
  shows "length (foldl (rs_step gen) res [0..<m]) = k + ec
    \<and> value_at (foldl (rs_step gen) res [0..<m]) y = value_at res y
    \<and> (\<forall>n < m. foldl (rs_step gen) res [0..<m] ! n = 0)"
  using assms(5)
proof (induction m)
  case (Suc m)
  define prev where "prev = foldl (rs_step gen) res [0..<m]"
  have h: "length prev = k + ec" "value_at prev y = value_at res y" "\<forall>n < m. prev ! n = 0"
    using Suc by (simp_all add: prev_def)
  have fits: "m + length gen \<le> length prev" using Suc.prems assms(2) h(1) by simp
  have "rs_step gen prev m ! n = 0" if "n \<le> m" for n
    using that h fits assms(2,3) by (cases "n = m") (simp_all add: rs_step_xor nth_xor_list nth_append gfMul_commute [of _ 1])
  moreover have "length (rs_step gen prev m) = k + ec" using fits h(1) by (simp add: rs_step_xor)
  moreover have "foldl (rs_step gen) res [0..<Suc m] = rs_step gen prev m" by (simp add: prev_def)
  ultimately show ?case using rs_step_value [OF fits assms(4)] h(2) by (simp add: less_Suc_eq_le)
qed (simp add: assms(1))

lemma length_rsEncode [simp]: "length (rsEncode data ec) = ec"
proof -
  have "length (rs_step gen res i) = length res" for gen res i
  proof -
    have "length (foldl (\<lambda>r j. r[i + j := f r j]) res js) = length res" for f :: "bytes \<Rightarrow> nat \<Rightarrow> 8 word" and js
      by (induction js rule: rev_induct) simp_all
    then show ?thesis by (simp add: rs_step_def Let_def)
  qed
  then have "length (foldl (rs_step gen) res is) = length res" for gen res "is"
    by (induction "is" rule: rev_induct) simp_all
  then show ?thesis by (simp add: rsEncode_def)
qed

lemma code_word_value:
  assumes "d < ec"
  shows "value_at (data @ rsEncode data ec) (GF_EXP ! d) = 0"
proof -
  let ?y = "GF_EXP ! d" let ?k = "length data"
  let ?final = "foldl (rs_step (rsGenerator ec)) (data @ replicate ec 0) [0..<?k]"
  have inv: "length ?final = ?k + ec" "value_at ?final ?y = value_at (data @ replicate ec 0) ?y" "\<forall>n < ?k. ?final ! n = 0"
    using rs_steps [of "data @ replicate ec 0" ?k ec "rsGenerator ec" ?y ?k] rsGenerator_shape [of ec]
      rsGenerator_root [OF assms] by simp_all
  have "take ?k ?final = replicate ?k 0" using inv(1,3) by (auto intro: nth_equalityI)
  then have split: "?final = replicate ?k 0 @ rsEncode data ec"
    using append_take_drop_id [of ?k ?final] by (simp add: rsEncode_def)
  have "data @ rsEncode data ec = xor_list (data @ replicate ec 0) ?final"
    unfolding split by (intro nth_equalityI) (auto simp: nth_xor_list nth_append)
  then show ?thesis
    using peval_xor [of "data @ replicate ec 0" ?final 0 0 ?y] inv(1,2) by simp
qed

end
