(* ===== verification/QrLayout.thy ===== *)
theory QrLayout
  imports QrField
begin

text \<open>
  Where the modules of a symbol are: the function patterns the encoder reserves are those of the standard,
  and its zig-zag visits every other module once.
\<close>

section \<open>The layout of the standard\<close>

text \<open>The modules that hold no data: finders with separator and format strips, timing, alignment.\<close>

definition iso_functional :: "nat \<Rightarrow> nat \<Rightarrow> nat \<Rightarrow> bool" where
  "iso_functional n r c \<longleftrightarrow>
     (r \<le> 8 \<and> c \<le> 8) \<or> (r \<le> 8 \<and> n - 8 \<le> c) \<or> (n - 8 \<le> r \<and> c \<le> 8) \<or> r = 6 \<or> c = 6
     \<or> (21 < n \<and> n - 9 \<le> r \<and> r \<le> n - 5 \<and> n - 9 \<le> c \<and> c \<le> n - 5)"

text \<open>The right columns of the pairs, and the order of the modules: up and down in turn.\<close>

definition iso_edges :: "nat \<Rightarrow> nat list" where
  "iso_edges n = map (\<lambda>k. n - 1 - 2 * k) [0..<(n - 7) div 2] @ [5, 3, 1]"

definition iso_pair :: "nat \<Rightarrow> nat \<Rightarrow> nat \<Rightarrow> (nat \<times> nat) list" where
  "iso_pair n j col = concat (map (\<lambda>i. let r = (if even j then n - 1 - i else i) in [(r, col), (r, col - 1)]) [0..<n])"

definition iso_scan :: "nat \<Rightarrow> (nat \<times> nat) list" where
  "iso_scan n = concat (map (\<lambda>(j, col). iso_pair n j col) (enumerate 0 (iso_edges n)))"

definition data_cells :: "nat \<Rightarrow> (nat \<times> nat) list" where
  "data_cells n = filter (\<lambda>(r, c). \<not> iso_functional n r c) (iso_scan n)"

abbreviation at_cell :: "nat \<Rightarrow> nat \<times> nat \<Rightarrow> nat" where
  "at_cell n rc \<equiv> (case rc of (r, c) \<Rightarrow> r * n + c)"

section \<open>Cells\<close>

lemma cell_inject:
  assumes c: "c < n" "c' < (n :: nat)"
  shows "r * n + c = r' * n + c' \<longleftrightarrow> r = r' \<and> c = c'"
proof
  assume e: "r * n + c = r' * n + c'"
  have "(r * n + c) div n = r" "(r' * n + c') div n = r'" "(r * n + c) mod n = c" "(r' * n + c') mod n = c'"
    using c by simp_all
  with e show "r = r' \<and> c = c'" by metis
qed simp

lemma cell_less: "r < n \<Longrightarrow> c < n \<Longrightarrow> r * n + c < n * (n :: nat)"
  by (metis add_less_cancel_left less_le_trans mult_Suc mult_le_mono1 Suc_leI add.commute)

text \<open>Stores at positions of a list, one after another.\<close>

definition put_all :: "(nat \<times> 'a) list \<Rightarrow> 'a list \<Rightarrow> 'a list" where
  "put_all ps m = foldl (\<lambda>m (p, v). m[p := v]) m ps"

lemma put_all_simps [simp]:
  "put_all [] m = m"
  "put_all ((p, v) # ps) m = put_all ps (m[p := v])"
  "put_all (ps @ qs) m = put_all qs (put_all ps m)"
  by (simp_all add: put_all_def)

lemma length_put_all [simp]: "length (put_all ps m) = length m"
  by (induction ps arbitrary: m) auto

lemma put_all_other: "p \<notin> fst ` set ps \<Longrightarrow> put_all ps m ! p = m ! p"
  by (induction ps arbitrary: m) (auto simp: image_iff)

lemma put_all_at: "(p, v) \<in> set ps \<Longrightarrow> distinct (map fst ps) \<Longrightarrow> p < length m \<Longrightarrow> put_all ps m ! p = v"
  by (induction ps arbitrary: m) (auto simp: put_all_other)

section \<open>The reserved modules\<close>

definition grid_ok :: "nat \<Rightarrow> qr_grid \<Rightarrow> bool" where
  "grid_ok n mx \<longleftrightarrow> qg_size mx = n \<and> length (qg_m mx) = n * n \<and> length (qg_reserved mx) = n * n"

definition rsv :: "qr_grid \<Rightarrow> nat \<Rightarrow> nat \<Rightarrow> bool" where
  "rsv mx r c = qg_reserved mx ! (r * qg_size mx + c)"

lemma grid_ok_setModule [simp]: "grid_ok n (setModule r c d mx) = grid_ok n mx"
  by (simp add: grid_ok_def setModule_def)

lemma grid_ok_reserve [simp]: "grid_ok n (reserve mx i) = grid_ok n mx"
  by (simp add: grid_ok_def reserve_def)

lemma grid_ok_newMatrix [simp]: "grid_ok n (newMatrix n)"
  by (simp add: grid_ok_def newMatrix_def)

lemma shifted: "(\<exists>x \<in> {l..u}. (i :: int) = a + x) \<longleftrightarrow> a + l \<le> i \<and> i \<le> a + u"
  by (auto intro!: bexI [of _ "i - a"])

lemma shifted_product:
  "(\<exists>x \<in> set (List.product [l..u] [l..u]). case x of (a, b) \<Rightarrow> i = p + a \<and> j = q + b)
     \<longleftrightarrow> p + l \<le> i \<and> i \<le> p + u \<and> q + l \<le> j \<and> j \<le> q + u"
  using shifted [of l u i p] shifted [of l u j q] by auto

lemma rsv_newMatrix: "r < n \<Longrightarrow> c < n \<Longrightarrow> \<not> rsv (newMatrix n) r c"
  by (simp add: rsv_def newMatrix_def cell_less)

lemma rsv_setModule:
  "grid_ok n mx \<Longrightarrow> r < n \<Longrightarrow> c < n \<Longrightarrow> b < n \<Longrightarrow> rsv (setModule a b d mx) r c \<longleftrightarrow> r = a \<and> c = b \<or> rsv mx r c"
  using cell_inject [of b n c a r] cell_inject [of c n b r a] cell_less [of r n c]
  by (auto simp: rsv_def setModule_def grid_ok_def nth_list_update)

lemma rsv_reserve:
  "grid_ok n mx \<Longrightarrow> r < n \<Longrightarrow> c < n \<Longrightarrow> b < n \<Longrightarrow> rsv (reserve mx (a * n + b)) r c \<longleftrightarrow> r = a \<and> c = b \<or> rsv mx r c"
  using cell_inject [of b n c a r] cell_inject [of c n b r a] cell_less [of r n c]
  by (auto simp: rsv_def reserve_def grid_ok_def nth_list_update)

lemma rsv_loop:
  assumes "\<And>mx x. grid_ok n mx \<Longrightarrow> x \<in> set xs \<Longrightarrow> grid_ok n (f mx x)"
    "\<And>mx x. grid_ok n mx \<Longrightarrow> x \<in> set xs \<Longrightarrow> rsv (f mx x) r c \<longleftrightarrow> P x \<or> rsv mx r c" "grid_ok n mx"
  shows "grid_ok n (foldl f mx xs) \<and> (rsv (foldl f mx xs) r c \<longleftrightarrow> (\<exists>x \<in> set xs. P x) \<or> rsv mx r c)"
  using assms
proof (induction xs arbitrary: mx)
  case (Cons x xs)
  have "grid_ok n (foldl f (f mx x) xs) \<and> (rsv (foldl f (f mx x) xs) r c \<longleftrightarrow> (\<exists>x \<in> set xs. P x) \<or> rsv (f mx x) r c)"
    by (rule Cons.IH) (simp_all add: Cons.prems)
  then show ?case using Cons.prems(2) [of mx x] Cons.prems(3) by auto
qed simp

lemma placeFinder_rsv:
  assumes "grid_ok n mx" "r < n" "c < n"
  shows "grid_ok n (placeFinder r0 c0 mx) \<and> (rsv (placeFinder r0 c0 mx) r c \<longleftrightarrow>
    (r0 - 1 \<le> int r \<and> int r \<le> r0 + 7 \<and> c0 - 1 \<le> int c \<and> int c \<le> c0 + 7) \<or> rsv mx r c)"
proof -
  let ?P = "\<lambda>(a, b). int r = r0 + a \<and> int c = c0 + b"
  have step: "grid_ok n (finder_cell r0 c0 mx x) \<and> (rsv (finder_cell r0 c0 mx x) r c \<longleftrightarrow> ?P x \<or> rsv mx r c)"
    if "grid_ok n mx" for mx x
  proof -
    have "qg_size mx = n" using that by (simp add: grid_ok_def)
    then show ?thesis using that assms(2,3) by (cases x) (auto simp: finder_cell_def Let_def rsv_setModule [of n])
  qed
  have "(\<exists>x \<in> set (List.product [-1..7] [-1..7]). ?P x)
      \<longleftrightarrow> (r0 - 1 \<le> int r \<and> int r \<le> r0 + 7 \<and> c0 - 1 \<le> int c \<and> int c \<le> c0 + 7)"
    by (simp only: shifted_product) simp
  then show ?thesis
    using rsv_loop [of n "List.product [-1..7] [-1..7]" "finder_cell r0 c0" r c ?P mx] step assms
    unfolding placeFinder_def by blast
qed

lemma placeAlignment_rsv:
  assumes "grid_ok n mx" "r < n" "c < n" "2 \<le> p" "p + 2 < n"
  shows "grid_ok n (placeAlignment p p mx) \<and> (rsv (placeAlignment p p mx) r c \<longleftrightarrow>
    (p - 2 \<le> r \<and> r \<le> p + 2 \<and> p - 2 \<le> c \<and> c \<le> p + 2) \<or> rsv mx r c)"
proof -
  let ?f = "\<lambda>mx (a, b). setModule (nat (int p + a)) (nat (int p + b)) (max \<bar>a\<bar> \<bar>b\<bar> \<noteq> 1) mx"
  let ?P = "\<lambda>(a, b). int r = int p + a \<and> int c = int p + b"
  have step: "grid_ok n (?f mx x) \<and> (rsv (?f mx x) r c \<longleftrightarrow> ?P x \<or> rsv mx r c)"
    if h: "grid_ok n mx" "x \<in> set (List.product [-2..2] [-2..2])" for mx x
  proof -
    obtain a b where x: "x = (a, b)" "- 2 \<le> a" "a \<le> 2" "- 2 \<le> b" "b \<le> 2" using h(2) by auto
    then have "nat (int p + b) < n" "r = nat (int p + a) \<longleftrightarrow> int r = int p + a" "c = nat (int p + b) \<longleftrightarrow> int c = int p + b"
      using assms(4,5) by auto
    then show ?thesis using h(1) assms(2,3) by (simp add: x(1) rsv_setModule [of n])
  qed
  have "(\<exists>x \<in> set (List.product [-2..2] [-2..2]). ?P x) \<longleftrightarrow> (p - 2 \<le> r \<and> r \<le> p + 2 \<and> p - 2 \<le> c \<and> c \<le> p + 2)"
    using assms(4) by (simp only: shifted_product) (auto simp: of_nat_diff)
  then show ?thesis
    using rsv_loop [of n "List.product [-2..2] [-2..2]" ?f r c ?P mx] step assms(1)
    unfolding placeAlignment_def by blast
qed

lemma placeTiming_rsv:
  assumes "grid_ok n mx" "r < n" "c < n" "6 < n"
  shows "grid_ok n (placeTiming mx) \<and> (rsv (placeTiming mx) r c \<longleftrightarrow>
    (r = 6 \<and> 8 \<le> c \<and> c < n - 8 \<or> c = 6 \<and> 8 \<le> r \<and> r < n - 8) \<or> rsv mx r c)"
proof -
  let ?f = "\<lambda>mx i. setModule i 6 (i mod 2 = 0) (setModule 6 i (i mod 2 = 0) mx)"
  let ?P = "\<lambda>i. r = 6 \<and> c = i \<or> r = i \<and> c = 6"
  have step: "grid_ok n (?f mx i) \<and> (rsv (?f mx i) r c \<longleftrightarrow> ?P i \<or> rsv mx r c)"
    if "grid_ok n mx" "i \<in> set [8..<n - 8]" for mx i
    using that assms(2-4) by (auto simp: rsv_setModule [of n])
  have "(\<exists>i \<in> set [8..<n - 8]. ?P i) \<longleftrightarrow> (r = 6 \<and> 8 \<le> c \<and> c < n - 8 \<or> c = 6 \<and> 8 \<le> r \<and> r < n - 8)" by auto
  then show ?thesis
    using rsv_loop [of n "[8..<n - 8]" ?f r c ?P mx] step assms(1)
    unfolding placeTiming_def by (simp add: grid_ok_def [of n mx])
qed

lemma reserveFormat_rsv:
  assumes "grid_ok n mx" "r < n" "c < n" "17 < n"
  shows "grid_ok n (reserveFormat mx) \<and> (rsv (reserveFormat mx) r c \<longleftrightarrow>
    (r = 8 \<and> (c \<le> 8 \<and> c \<noteq> 6 \<or> n - 8 \<le> c) \<or> c = 8 \<and> (r \<le> 8 \<and> r \<noteq> 6 \<or> n - 8 \<le> r)) \<or> rsv mx r c)"
proof -
  let ?f = "\<lambda>mx i. if i \<noteq> 6 then reserve (reserve mx (8 * n + i)) (i * n + 8) else mx"
  let ?g = "\<lambda>mx i. reserve (reserve mx (8 * n + (n - 1 - i))) ((n - 1 - i) * n + 8)"
  let ?P = "\<lambda>i. i \<noteq> 6 \<and> (r = 8 \<and> c = i \<or> r = i \<and> c = 8)"
  let ?Q = "\<lambda>i. r = 8 \<and> c = n - 1 - i \<or> r = n - 1 - i \<and> c = 8"
  let ?mx1 = "foldl ?f mx [0..<9]" let ?mx2 = "foldl ?g ?mx1 [0..<8]" let ?mx3 = "reserve ?mx2 ((n - 8) * n + 8)"
  have f: "grid_ok n (?f mx i)" "rsv (?f mx i) r c \<longleftrightarrow> ?P i \<or> rsv mx r c" if "grid_ok n mx" "i \<in> set [0..<9]" for mx i
    using that assms(2-4) by (auto simp: rsv_reserve [of n])
  have one: "grid_ok n ?mx1 \<and> (rsv ?mx1 r c \<longleftrightarrow> (\<exists>i \<in> set [0..<9]. ?P i) \<or> rsv mx r c)"
    by (rule rsv_loop [OF f assms(1)])
  have g: "grid_ok n (?g mx i)" "rsv (?g mx i) r c \<longleftrightarrow> ?Q i \<or> rsv mx r c" if "grid_ok n mx" "i \<in> set [0..<8]" for mx i
  proof -
    have "n - 1 - i < n" "8 < n" using assms(4) by simp_all
    then show "grid_ok n (?g mx i)" "rsv (?g mx i) r c \<longleftrightarrow> ?Q i \<or> rsv mx r c"
      using that(1) rsv_reserve [of n mx r c "n - 1 - i" 8] assms(2,3)
        rsv_reserve [of n "reserve mx (8 * n + (n - 1 - i))" r c 8 "n - 1 - i"] by auto
  qed
  have two: "grid_ok n ?mx2 \<and> (rsv ?mx2 r c \<longleftrightarrow> (\<exists>i \<in> set [0..<8]. ?Q i) \<or> rsv ?mx1 r c)"
    by (rule rsv_loop [OF g conjunct1 [OF one]])
  have three: "grid_ok n ?mx3 \<and> (rsv ?mx3 r c \<longleftrightarrow> r = n - 8 \<and> c = 8 \<or> rsv ?mx2 r c)"
    using two assms(2-4) by (simp add: rsv_reserve [of n])
  have size: "qg_size mx = n" "qg_size ?mx3 = n" using assms(1) three by (simp_all add: grid_ok_def)
  have last: "reserveFormat mx = ?mx3\<lparr>qg_m := (qg_m ?mx3)[(n - 8) * n + 8 := 1]\<rparr>"
    by (simp only: reserveFormat_def Let_def size(1))
  have four: "grid_ok n (reserveFormat mx) \<and> (rsv (reserveFormat mx) r c \<longleftrightarrow> rsv ?mx3 r c)"
    unfolding last using three by (simp add: grid_ok_def rsv_def)
  have nine: "(\<exists>i \<in> set [0..<9]. ?P i) \<longleftrightarrow> (r = 8 \<and> c \<le> 8 \<and> c \<noteq> 6 \<or> c = 8 \<and> r \<le> 8 \<and> r \<noteq> 6)" by auto
  have eight: "(\<exists>i \<in> set [0..<8]. ?Q i) \<longleftrightarrow> (r = 8 \<and> n - 8 \<le> c \<or> c = 8 \<and> n - 8 \<le> r)"
  proof -
    have "(\<exists>i \<in> set [0..<8]. x = n - 1 - i) \<longleftrightarrow> n - 8 \<le> x" if "x < n" for x
    proof
      assume "n - 8 \<le> x"
      then have "n - 1 - x \<in> set [0..<8]" "x = n - 1 - (n - 1 - x)" using that assms(4) by auto
      then show "\<exists>i \<in> set [0..<8]. x = n - 1 - i" by blast
    qed auto
    from this [OF assms(2)] this [OF assms(3)] show ?thesis by blast
  qed
  show ?thesis
    unfolding conjunct2 [OF four] conjunct2 [OF three] conjunct2 [OF two] conjunct2 [OF one] nine eight
    using conjunct1 [OF four] by (simp only: simp_thms) (rule iffI; elim disjE conjE; simp)
qed

lemma buildFunctionalPatterns_rsv:
  assumes "1 \<le> v" "v \<le> 5" "n = 17 + 4 * v" "r < n" "c < n"
  shows "grid_ok n (buildFunctionalPatterns v) \<and> (rsv (buildFunctionalPatterns v) r c \<longleftrightarrow> iso_functional n r c)"
proof -
  define a where "a = placeFinder 0 0 (newMatrix n)"
  define b where "b = placeFinder 0 (int n - 7) a"
  define d where "d = placeFinder (int n - 7) 0 b"
  define e where "e = placeTiming d"
  define f where "f = (if 2 \<le> v then placeAlignment (n - 7) (n - 7) e else e)"
  have n: "21 \<le> n" using assms by simp
  have a: "grid_ok n a \<and> (rsv a r c \<longleftrightarrow> r \<le> 7 \<and> c \<le> 7)"
    using placeFinder_rsv [of n "newMatrix n" r c 0 0] assms(4,5) by (auto simp: a_def rsv_newMatrix)
  have b: "grid_ok n b \<and> (rsv b r c \<longleftrightarrow> (r \<le> 7 \<and> c \<le> 7) \<or> (r \<le> 7 \<and> n - 8 \<le> c))"
    using placeFinder_rsv [of n a r c 0 "int n - 7"] assms(4,5) a n by (auto simp: b_def)
  have d: "grid_ok n d \<and> (rsv d r c \<longleftrightarrow> (r \<le> 7 \<and> c \<le> 7) \<or> (r \<le> 7 \<and> n - 8 \<le> c) \<or> (n - 8 \<le> r \<and> c \<le> 7))"
    using placeFinder_rsv [of n b r c "int n - 7" 0] assms(4,5) b n by (auto simp: d_def)
  have e: "grid_ok n e \<and> (rsv e r c \<longleftrightarrow> (r = 6 \<and> 8 \<le> c \<and> c < n - 8 \<or> c = 6 \<and> 8 \<le> r \<and> r < n - 8) \<or> rsv d r c)"
    using placeTiming_rsv [of n d r c] assms(4,5) d n by (simp add: e_def)
  have f: "grid_ok n f \<and> (rsv f r c \<longleftrightarrow> (21 < n \<and> n - 9 \<le> r \<and> r \<le> n - 5 \<and> n - 9 \<le> c \<and> c \<le> n - 5) \<or> rsv e r c)"
    using placeAlignment_rsv [of n e r c "n - 7"] assms(1,3-5) e n by (auto simp: f_def)
  have "4 * v + 10 = n - 7" "int (17 + 4 * v) = int n" "17 + 4 * v = n" using assms(3) by simp_all
  then have "buildFunctionalPatterns v = reserveFormat f"
    unfolding buildFunctionalPatterns_def Let_def f_def e_def d_def b_def a_def by (simp only:)
  then have g: "grid_ok n (buildFunctionalPatterns v)"
    "rsv (buildFunctionalPatterns v) r c \<longleftrightarrow>
      (r = 8 \<and> (c \<le> 8 \<and> c \<noteq> 6 \<or> n - 8 \<le> c) \<or> c = 8 \<and> (r \<le> 8 \<and> r \<noteq> 6 \<or> n - 8 \<le> r)) \<or> rsv f r c"
    using reserveFormat_rsv [of n f r c] f assms(4,5) n by simp_all
  have "n = 21 \<or> n = 25 \<or> n = 29 \<or> n = 33 \<or> n = 37" using assms(1-3) by arith
  then have "rsv (buildFunctionalPatterns v) r c \<longleftrightarrow> iso_functional n r c"
    unfolding g(2) conjunct2 [OF f] conjunct2 [OF e] conjunct2 [OF d] iso_functional_def
    by (elim disjE; hypsubst; presburger)
  with g(1) show ?thesis by simp
qed

end
