(* ===== verification/QrScan.thy ===== *)
theory QrScan
  imports QrLayout
begin

text \<open>The zig-zag of the encoder, against the scan of the standard.\<close>

section \<open>The scan visits every module outside of the timing column once\<close>

lemma length_iso_pair [simp]: "length (iso_pair n j col) = 2 * n"
  by (simp add: iso_pair_def Let_def length_concat comp_def sum_list_triv)

lemma set_iso_pair: "set (iso_pair n j col) = {(r, c). r < n \<and> (c = col \<or> c = col - 1)}"
proof -
  have "r \<in> (\<lambda>i. if even j then n - 1 - i else i) ` {..<n}" if "r < n" for r
    using that by (intro image_eqI [of _ _ "if even j then n - 1 - r else r"]) auto
  moreover have "(\<lambda>i. if even j then n - 1 - i else i) ` {..<n} \<subseteq> {..<n}" by auto
  ultimately have rows: "(\<lambda>i. if even j then n - 1 - i else i) ` {..<n} = {..<n}" by blast
  have "set (iso_pair n j col) = (\<Union>r \<in> (\<lambda>i. if even j then n - 1 - i else i) ` {..<n}. {(r, col), (r, col - 1)})"
    by (simp add: iso_pair_def Let_def atLeast0LessThan del: One_nat_def)
  then show ?thesis unfolding rows by auto
qed

lemma iso_scan_edges: "iso_scan n = concat (map (\<lambda>(j, col). iso_pair n j col) (enumerate 0 (iso_edges n)))"
  by (simp add: iso_scan_def)

lemma length_concat_pairs: "length (concat (map (\<lambda>(j, col). iso_pair n j col) xs)) = 2 * n * length xs"
  by (induction xs) auto

lemma set_iso_scan: "set (iso_scan n) = {(r, c). r < n \<and> (\<exists>col \<in> set (iso_edges n). c = col \<or> c = col - 1)}"
proof -
  have "set (iso_scan n) = (\<Union>col \<in> snd ` set (enumerate 0 (iso_edges n)). {(r, c). r < n \<and> (c = col \<or> c = col - 1)})"
    by (simp add: iso_scan_def set_iso_pair case_prod_unfold del: One_nat_def)
  moreover have "snd ` set (enumerate 0 (iso_edges n)) = set (iso_edges n)"
    using map_snd_enumerate [of 0 "iso_edges n"] by (metis set_map)
  ultimately show ?thesis by auto
qed

lemma set_iso_scan_square:
  assumes "odd n" "9 \<le> n"
  shows "set (iso_scan n) = {(r, c). r < n \<and> c < n \<and> c \<noteq> 6}"
proof -
  obtain m where n: "n = 2 * m + 1" using assms(1) by (rule oddE)
  have "(\<exists>col \<in> set (iso_edges n). c = col \<or> c = col - 1) \<longleftrightarrow> c < n \<and> c \<noteq> 6" for c
  proof
    assume "c < n \<and> c \<noteq> 6"
    then consider "c \<le> 5" | "7 \<le> c" "c < n" by linarith
    then show "\<exists>col \<in> set (iso_edges n). c = col \<or> c = col - 1"
    proof cases
      case 1
      then have "c = 0 \<or> c = 1 \<or> c = 2 \<or> c = 3 \<or> c = 4 \<or> c = 5" by linarith
      then show ?thesis by (auto simp: iso_edges_def)
    next
      case 2
      obtain k where k: "n - 1 - c = 2 * k \<or> n - 1 - c = 2 * k + 1" by (metis oddE evenE)
      have "n - 7 = 2 * (m - 3)" using n by simp
      then have "k < (n - 7) div 2" using 2 n k by auto
      then have "n - 1 - 2 * k \<in> set (iso_edges n)" by (simp add: iso_edges_def)
      moreover have "c = n - 1 - 2 * k \<or> c = n - 1 - 2 * k - 1" using 2 k by linarith
      ultimately show ?thesis by blast
    qed
  next
    assume "\<exists>col \<in> set (iso_edges n). c = col \<or> c = col - 1"
    then obtain col where c: "c = col \<or> c = col - 1" and "col \<in> set (iso_edges n)" by blast
    then consider "col \<in> {5, 3, 1}" | k where "k < (n - 7) div 2" "col = n - 1 - 2 * k"
      by (auto simp: iso_edges_def)
    then show "c < n \<and> c \<noteq> 6"
    proof cases
      case 1
      with c assms(2) show ?thesis by auto
    next
      case 2
      with c n assms(2) show ?thesis by auto
    qed
  qed
  then show ?thesis by (auto simp: set_iso_scan)
qed

lemma distinct_iso_scan:
  assumes "odd n" "9 \<le> n"
  shows "distinct (iso_scan n)"
proof (rule card_distinct)
  have "{(r, c). r < n \<and> c < n \<and> c \<noteq> 6} = {..<n} \<times> ({..<n} - {6})" by auto
  moreover have "card ({..<n} \<times> ({..<n} - {6})) = n * (n - 1)"
    using assms by (simp add: card_cartesian_product)
  moreover have "length (iso_scan n) = 2 * n * ((n - 7) div 2 + 3)"
    by (simp add: iso_scan_def length_concat_pairs iso_edges_def algebra_simps)
  moreover have "2 * ((n - 7) div 2 + 3) = n - 1" using assms by (auto elim!: oddE)
  ultimately show "card (set (iso_scan n)) = length (iso_scan n)"
    using set_iso_scan_square [OF assms] by (metis mult.assoc mult.left_commute)
qed

lemma distinct_data_cells: "odd n \<Longrightarrow> 9 \<le> n \<Longrightarrow> distinct (data_cells n)"
  by (simp add: data_cells_def distinct_iso_scan)

lemma set_data_cells:
  "odd n \<Longrightarrow> 9 \<le> n \<Longrightarrow> set (data_cells n) = {(r, c). r < n \<and> c < n \<and> \<not> iso_functional n r c}"
  by (auto simp: data_cells_def set_iso_scan_square iso_functional_def)

section \<open>The number of data modules\<close>

definition data_row :: "nat \<Rightarrow> nat \<Rightarrow> nat" where
  "data_row n r = length (filter (\<lambda>c. \<not> iso_functional n r c) [0..<n])"

lemma length_data_cells:
  assumes "odd n" "9 \<le> n"
  shows "length (data_cells n) = sum_list (map (data_row n) [0..<n])"
proof -
  have "length (data_cells n) = card {(r, c). r < n \<and> c < n \<and> \<not> iso_functional n r c}"
    using distinct_card [OF distinct_data_cells [OF assms]] set_data_cells [OF assms] by simp
  also have "{(r, c). r < n \<and> c < n \<and> \<not> iso_functional n r c} = (SIGMA r : {..<n}. {c. c < n \<and> \<not> iso_functional n r c})"
    by auto
  also have "card \<dots> = (\<Sum>r < n. card {c. c < n \<and> \<not> iso_functional n r c})" by simp
  also have "\<dots> = (\<Sum>r < n. data_row n r)"
  proof (rule sum.cong [OF refl])
    fix r
    have "{c. c < n \<and> \<not> iso_functional n r c} = set (filter (\<lambda>c. \<not> iso_functional n r c) [0..<n])" by auto
    then show "card {c. c < n \<and> \<not> iso_functional n r c} = data_row n r"
      by (simp only: data_row_def distinct_card [OF distinct_filter [OF distinct_upt]])
  qed
  also have "\<dots> = sum_list (map (data_row n) [0..<n])" by (simp add: sum_list_sum_nth atLeast0LessThan)
  finally show ?thesis .
qed

lemma data_totals:
  "sum_list (map (data_row 21) [0..<21]) = 208"
  "sum_list (map (data_row 25) [0..<25]) = 359"
  "sum_list (map (data_row 29) [0..<29]) = 567"
  "sum_list (map (data_row 33) [0..<33]) = 807"
  "sum_list (map (data_row 37) [0..<37]) = 1079"
  by (simp_all add: data_row_def iso_functional_def upt_conv_Cons)

section \<open>The encoder fills the modules in that order\<close>

lemma column_cells_pair:
  assumes "1 \<le> col"
  shows "column_cells n col (even j) = map (at_cell n) (iso_pair n j col)"
proof -
  have "[0..<2] = [0, 1 :: nat]" by (simp add: upt_rec)
  then show ?thesis using assms
    by (simp add: column_cells_def iso_pair_def Let_def map_concat comp_def)
qed

text \<open>One cell after another: the next bit goes into the next unreserved cell.\<close>

lemma place_cells:
  "foldl (place_cell ws res) (k, m) xs =
     (k + length (filter (\<lambda>i. \<not> res ! i) xs),
      put_all (map (\<lambda>(j, i). (i, if bitAt ws j then 1 else 0)) (enumerate k (filter (\<lambda>i. \<not> res ! i) xs))) m)"
  by (induction xs arbitrary: k m) (simp_all add: place_cell_def)

lemma place_columns_scan:
  assumes "n \<in> {21, 25, 29, 33, 37}"
  shows "place_columns ws res n (n - 1) True s = foldl (place_cell ws res) s (map (at_cell n) (iso_scan n))"
proof -
  have pairs: "map (at_cell n) (concat (map (\<lambda>(j, col). iso_pair n j col) (enumerate j cols)))
      = concat (map (\<lambda>(j, col). column_cells n col (even j)) (enumerate j cols))"
    if "0 \<notin> set cols" for j cols
    using that
  proof (induction cols arbitrary: j)
    case (Cons col cols)
    then show ?case using column_cells_pair [of col n j] by simp
  qed simp
  have "0 \<notin> set (iso_edges n)" using assms by (auto simp: iso_edges_def)
  then show ?thesis
    using assms unfolding iso_scan_def
    by (auto simp: pairs iso_edges_def place_columns.simps upt_conv_Cons)
qed

end
