(* ===== verification/QrRead.thy ===== *)
theory QrRead
  imports QrScan
begin

text \<open>
  A reader of symbols after the standard, and the proof that it returns the bytes the encoder was given.
\<close>

section \<open>The reader\<close>

text \<open>The format words of level L, and the module of each bit in the copy at the other two finders; the masks; data and check words.\<close>

definition iso_formats :: "nat list" where
  "iso_formats = [0x77c4, 0x72f3, 0x7daa, 0x789d, 0x662f, 0x6318, 0x6c41, 0x6976]"

definition iso_format_cell :: "nat \<Rightarrow> nat \<Rightarrow> nat \<times> nat" where
  "iso_format_cell n i = (if i < 8 then (8, n - 1 - i) else (n - 15 + i, 8))"

definition iso_masks :: "(nat \<Rightarrow> nat \<Rightarrow> bool) list" where
  "iso_masks =
     [\<lambda>i j. (i + j) mod 2 = 0, \<lambda>i j. i mod 2 = 0, \<lambda>i j. j mod 3 = 0, \<lambda>i j. (i + j) mod 3 = 0,
      \<lambda>i j. (i div 2 + j div 3) mod 2 = 0, \<lambda>i j. (i * j) mod 2 + (i * j) mod 3 = 0,
      \<lambda>i j. ((i * j) mod 2 + (i * j) mod 3) mod 2 = 0, \<lambda>i j. ((i + j) mod 2 + (i * j) mod 3) mod 2 = 0]"

definition iso_blocks :: "nat \<Rightarrow> nat \<times> nat" where
  "iso_blocks n = (if n = 21 then (19, 7) else if n = 25 then (34, 10) else if n = 29 then (55, 15)
     else if n = 33 then (80, 20) else (108, 26))"

definition bits_value :: "bool list \<Rightarrow> 'a :: comm_semiring_1" where
  "bits_value bs = horner_sum of_bool 2 (rev bs)"

definition read_mask :: "nat \<Rightarrow> (nat \<times> nat \<Rightarrow> bool) \<Rightarrow> nat option" where
  "read_mask n dark =
     find (\<lambda>msk. \<forall>i \<in> set [0..<15]. dark (iso_format_cell n i) = bit (iso_formats ! msk) i) [0..<8]"

definition read_bits :: "nat \<Rightarrow> nat \<Rightarrow> (nat \<times> nat \<Rightarrow> bool) \<Rightarrow> bool list" where
  "read_bits n msk dark = map (\<lambda>(r, c). dark (r, c) \<noteq> (iso_masks ! msk) r c) (data_cells n)"

definition read_word :: "bool list \<Rightarrow> nat \<Rightarrow> 8 word" where
  "read_word bits p = bits_value (take 8 (drop p bits))"

definition syndromes_zero :: "bytes \<Rightarrow> nat \<Rightarrow> bool" where
  "syndromes_zero ws ec = list_all (\<lambda>d. value_at ws (pw d) = 0) [0..<ec]"

definition qr_read :: "bool list list \<times> nat \<Rightarrow> bytes option" where
  "qr_read symbol =
     (let (modules, n) = symbol; dark = (\<lambda>(r, c). modules ! r ! c); (words, ec) = iso_blocks n in
      case read_mask n dark of
        None \<Rightarrow> None
      | Some msk \<Rightarrow>
          (let bits = read_bits n msk dark; len = bits_value (take 8 (drop 4 bits)) in
           if syndromes_zero (map (\<lambda>k. read_word bits (8 * k)) [0..<words + ec]) ec
             \<and> bits_value (take 4 bits) = (4 :: nat) \<and> 12 + 8 * len \<le> 8 * words
           then Some (map (\<lambda>k. read_word bits (12 + 8 * k)) [0..<len]) else None))"

section \<open>Bits and words\<close>

lemma bits_value_bits: "bits_value (map (bit v) (rev [0..<len])) = (take_bit len v :: 'a :: linordered_euclidean_semiring_bit_operations)"
  by (simp add: bits_value_def rev_map horner_sum_bit_eq_take_bit)

lemma bits_value_word: "bits_value (map (bit w) (rev [0..<8])) = (w :: 8 word)"
  by (simp only: bits_value_def rev_map rev_rev_ident horner_sum_bit_eq_take_bit) (simp add: take_bit_word_eq_self)

lemma length_bb_toBytes [simp]: "length (bb_toBytes bits) = (length bits + 7) div 8"
proof -
  have "length (foldl (\<lambda>bs i. if bits ! i then bs[i div 8 := f bs i] else bs) bs js) = length bs"
    for f :: "bytes \<Rightarrow> nat \<Rightarrow> 8 word" and bs js
    by (induction js arbitrary: bs) simp_all
  then show ?thesis by (simp add: bb_toBytes_def)
qed

lemma bit_drop_0x80: "s < 8 \<Longrightarrow> bit (drop_bit s (0x80 :: 8 word)) b \<longleftrightarrow> b = 7 - s"
proof -
  have "(0x80 :: 8 word) = push_bit 7 1" by simp
  then show "s < 8 \<Longrightarrow> ?thesis"
    by (simp only: bit_drop_bit_eq comp_apply bit_push_bit_iff) (auto simp: bit_1_iff)
qed

lemma bb_toBytes_bit: "k < length bits \<Longrightarrow> bitAt (bb_toBytes bits) k = bits ! k"
proof -
  define fill where "fill m = foldl (\<lambda>bs i. if bits ! i then bs[i div 8 := bs ! (i div 8) OR drop_bit (i mod 8) 0x80] else bs)
       (replicate ((length bits + 7) div 8) (0 :: 8 word)) [0..<m]" for m
  have fill_Suc: "fill (Suc m) = (if bits ! m then (fill m)[m div 8 := fill m ! (m div 8) OR drop_bit (m mod 8) 0x80] else fill m)" for m
    by (simp add: fill_def)
  have len: "length (fill m) = (length bits + 7) div 8" for m
    by (induction m) (simp add: fill_def, simp add: fill_Suc)
  have "bit (fill m ! (k div 8)) (7 - k mod 8) \<longleftrightarrow> k < m \<and> bits ! k" if "m \<le> length bits" "k < length bits" for m k
    using that(1)
  proof (induction m)
    case 0
    have "k div 8 < (length bits + 7) div 8" using that(2) by linarith
    then show ?case by (simp add: fill_def)
  next
    case (Suc m)
    have in_range: "k div 8 < length (fill m)" unfolding len using that(2) by linarith
    have other: "7 - k mod 8 = 7 - m mod 8 \<and> k div 8 = m div 8 \<longleftrightarrow> k = m"
    proof
      assume "7 - k mod 8 = 7 - m mod 8 \<and> k div 8 = m div 8"
      moreover have "k mod 8 < 8" "m mod 8 < 8" by simp_all
      ultimately have "k mod 8 = m mod 8" "k div 8 = m div 8" by linarith+
      then show "k = m" by (metis div_mult_mod_eq)
    qed simp
    show ?case
    proof (cases "bits ! m \<and> m div 8 = k div 8")
      case True
      then have "fill (Suc m) ! (k div 8) = fill m ! (k div 8) OR drop_bit (m mod 8) 0x80"
        using in_range by (simp add: fill_Suc)
      then have "bit (fill (Suc m) ! (k div 8)) (7 - k mod 8) \<longleftrightarrow> (k < m \<and> bits ! k) \<or> 7 - k mod 8 = 7 - m mod 8"
        using Suc by (simp only: bit_or_iff bit_drop_0x80 mod_less_divisor zero_less_numeral)
      then show ?thesis using True other by (auto simp: less_Suc_eq)
    next
      case False
      then have "fill (Suc m) ! (k div 8) = fill m ! (k div 8)"
        by (auto simp: fill_Suc)
      then show ?thesis using Suc False other by (auto simp: less_Suc_eq)
    qed
  qed
  moreover have "bb_toBytes bits = fill (length bits)" by (simp add: bb_toBytes_def fill_def)
  moreover have "k < length bits \<Longrightarrow> k < (length bits + 7) div 8 * 8" by linarith
  ultimately show "k < length bits \<Longrightarrow> ?thesis" using len by (simp add: bitAt_def)
qed

section \<open>The bit stream\<close>

definition byte_bits :: "8 word \<Rightarrow> bool list" where
  "byte_bits b = map (bit b) (rev [0..<8])"

lemma length_byte_bits [simp]: "length (byte_bits b) = 8"
  by (simp add: byte_bits_def)

lemma bits_value_byte: "bits_value (byte_bits b) = b"
  unfolding byte_bits_def by (rule bits_value_word)

lemma put_bytes: "fold (\<lambda>b. bb_put (unat b) 8) data bits = bits @ concat (map byte_bits data)"
proof (induction data arbitrary: bits)
  case (Cons b data)
  have "map (bit (unat b)) (List.rev [0..<8]) = byte_bits b" by (simp add: byte_bits_def bit_unsigned_iff)
  with Cons show ?case by (simp add: bb_put_def)
qed simp

lemma length_concat_bytes [simp]: "length (concat (map byte_bits data)) = 8 * length data"
  by (induction data) simp_all

lemma take_drop_bytes: "k < length data \<Longrightarrow> take 8 (drop (8 * k) (concat (map byte_bits data) @ xs)) = byte_bits (data ! k)"
proof (induction data arbitrary: k)
  case (Cons b data)
  then show ?case by (cases k) simp_all
qed simp

definition payload :: "bytes \<Rightarrow> bool list" where
  "payload data = map (bit (4 :: nat)) (List.rev [0..<4]) @ map (bit (length data)) (List.rev [0..<8])
     @ concat (map byte_bits data) @ replicate 4 False"

lemma length_payload [simp]: "length (payload data) = 16 + 8 * length data"
  by (simp add: payload_def)

lemma stream_bits_payload: "length data + 2 \<le> dcw \<Longrightarrow> stream_bits data (dcw * 8) = payload data"
proof -
  assume "length data + 2 \<le> dcw"
  then have four: "min 4 (dcw * 8 - (12 + 8 * length data)) = 4" by simp
  have zeros: "map (bit (0 :: nat)) (List.rev [0..<4]) = replicate 4 False" by (simp add: upt_rec numeral_eq_Suc)
  show ?thesis
    by (simp add: stream_bits_def Let_def put_bytes bb_put_def four zeros [simplified] payload_def add.commute)
qed

lemma data_codewords_bits:
  assumes "length data + 2 \<le> dcw"
  shows "length (data_codewords data dcw) = dcw"
    "k < 16 + 8 * length data \<Longrightarrow> bitAt (data_codewords data dcw) k = payload data ! k"
proof -
  let ?pads = "map (\<lambda>p. if p mod 2 = 0 then 0xec else 0x11) [0..<dcw - (2 + length data)]"
  have div: "(16 + 8 * length data) div 8 = 2 + length data" by simp
  have all: "data_codewords data dcw = bb_toBytes (payload data) @ ?pads"
    using assms by (simp add: data_codewords_def Let_def stream_bits_payload div)
  show "length (data_codewords data dcw) = dcw" using assms by (simp add: all)
  assume k: "k < 16 + 8 * length data"
  then have "bitAt (bb_toBytes (payload data) @ xs) k = bitAt (bb_toBytes (payload data)) k" for xs
    by (auto simp: bitAt_def nth_append)
  with k show "bitAt (data_codewords data dcw) k = payload data ! k" by (simp add: all bb_toBytes_bit)
qed

text \<open>What a list of bits holds that starts with the payload.\<close>

lemma payload_header:
  assumes "length data < 256"
  shows "bits_value (take 4 (payload data @ xs)) = (4 :: nat)"
    "bits_value (take 8 (drop 4 (payload data @ xs))) = length data"
proof -
  have "take 4 (payload data @ xs) = map (bit (4 :: nat)) (List.rev [0..<4])" by (simp add: payload_def)
  then show "bits_value (take 4 (payload data @ xs)) = (4 :: nat)"
    by (simp only: bits_value_bits) (simp add: take_bit_eq_mod)
  have "take 8 (drop 4 (payload data @ xs)) = map (bit (length data)) (List.rev [0..<8])" by (simp add: payload_def)
  then show "bits_value (take 8 (drop 4 (payload data @ xs))) = length data"
    using assms by (simp only: bits_value_bits) (simp add: take_bit_eq_mod)
qed

lemma payload_word: "k < length data \<Longrightarrow> read_word (payload data @ xs) (12 + 8 * k) = data ! k"
proof -
  assume "k < length data"
  moreover have "drop (12 + 8 * k) (payload data @ xs) = drop (8 * k) (concat (map byte_bits data) @ replicate 4 False @ xs)"
    by (simp add: payload_def)
  ultimately show ?thesis by (simp only: read_word_def take_drop_bytes bits_value_byte)
qed

text \<open>Bits that are those of code words give the code words back.\<close>

lemma read_word_bits:
  assumes "8 * length ws \<le> length bits" "\<And>j. j < 8 * length ws \<Longrightarrow> bits ! j = bitAt ws j" "k < length ws"
  shows "read_word bits (8 * k) = ws ! k"
proof -
  have "take 8 (drop (8 * k) bits) = byte_bits (ws ! k)"
  proof (rule nth_equalityI)
    fix i assume "i < length (take 8 (drop (8 * k) bits))"
    then have i: "i < 8" "i + 8 * k < 8 * length ws" using assms(3) by auto
    have "(i + 8 * k) div 8 = k" "(i + 8 * k) mod 8 = i" using i(1) by simp_all
    then show "take 8 (drop (8 * k) bits) ! i = byte_bits (ws ! k) ! i"
      using i assms by (simp add: add.commute bitAt_def byte_bits_def rev_nth)
  qed (use assms(1,3) in simp)
  then show ?thesis by (simp add: read_word_def bits_value_byte)
qed

section \<open>The modules of a masked symbol\<close>

text \<open>The modules of the format information, by row and column.\<close>

definition format_cells :: "nat \<Rightarrow> ((nat \<times> nat) \<times> nat) list" where
  "format_cells n =
     map (\<lambda>i. ((8, i), i)) [0..<6] @ [((8, 7), 6), ((8, 8), 7), ((7, 8), 8)] @ map (\<lambda>i. ((14 - i, 8), i)) [9..<15]
     @ map (\<lambda>i. (iso_format_cell n i, i)) [0..<15]"

lemma format_cells_copies: "map (\<lambda>(rc, i). (at_cell n rc, i)) (format_cells n) = first_copy n @ second_copy n"
proof -
  have "map (\<lambda>i. (iso_format_cell n i, i)) [0..<15]
      = map (\<lambda>i. ((8, n - 1 - i), i)) [0..<8] @ map (\<lambda>i. ((n - 15 + i, 8), i)) [8..<15]"
    unfolding upt_add_eq_append [of 0 8 7, simplified] map_append by (simp add: iso_format_cell_def)
  then show ?thesis by (simp add: format_cells_def first_copy_def second_copy_def comp_def)
qed

lemma format_cells_functional:
  "((r, c), i) \<in> set (format_cells n) \<Longrightarrow> 15 < n \<Longrightarrow> r < n \<and> c < n \<and> iso_functional n r c"
  by (auto simp: format_cells_def iso_format_cell_def iso_functional_def split: if_splits)

definition format_writes :: "nat \<Rightarrow> nat \<Rightarrow> (nat \<times> int) list" where
  "format_writes n msk = map (\<lambda>(rc, i). (at_cell n rc, if bit (formatBits msk) i then 1 else 0)) (format_cells n)"

lemma writeFormat_put:
  "qg_m (writeFormat msk mx) = put_all (format_writes (qg_size mx) msk) (qg_m mx)"
  "qg_size (writeFormat msk mx) = qg_size mx"
proof -
  have "foldl (\<lambda>m (p, i). m[p := f i]) m xs = put_all (map (\<lambda>(p, i). (p, f i)) xs) m" for f :: "nat \<Rightarrow> int" and m xs
    by (induction xs arbitrary: m) auto
  moreover have "map (\<lambda>(p, i). (p, f i)) (first_copy n @ second_copy n) = map (\<lambda>(rc, i). (at_cell n rc, f i)) (format_cells n)"
    for f :: "nat \<Rightarrow> int" and n
    unfolding format_cells_copies [symmetric] by (simp add: comp_def case_prod_unfold)
  ultimately show "qg_m (writeFormat msk mx) = put_all (format_writes (qg_size mx) msk) (qg_m mx)"
    by (simp only: writeFormat_def Let_def format_writes_def) simp
qed (simp add: writeFormat_def Let_def)

lemma format_writes_other:
  assumes "15 < n" "c < n" "\<not> iso_functional n r c"
  shows "r * n + c \<notin> fst ` set (format_writes n msk)"
proof
  assume "r * n + c \<in> fst ` set (format_writes n msk)"
  then obtain a b i where w: "((a, b), i) \<in> set (format_cells n)" "r * n + c = a * n + b"
    by (auto simp: format_writes_def)
  with format_cells_functional [OF w(1) assms(1)] assms show False by (simp add: cell_inject)
qed

text \<open>The thirty writes go to different modules.\<close>

lemma format_cells_distinct:
  "distinct (map (\<lambda>x. at_cell 21 (fst x)) (format_cells 21))" "distinct (map (\<lambda>x. at_cell 25 (fst x)) (format_cells 25))"
  "distinct (map (\<lambda>x. at_cell 29 (fst x)) (format_cells 29))" "distinct (map (\<lambda>x. at_cell 33 (fst x)) (format_cells 33))"
  "distinct (map (\<lambda>x. at_cell 37 (fst x)) (format_cells 37))"
  by (simp_all add: format_cells_def iso_format_cell_def upt_conv_Cons)

lemma format_writes_at:
  assumes "n \<in> {21, 25, 29, 33, 37}" "length m = n * n" "(rc, i) \<in> set (format_cells n)"
  shows "put_all (format_writes n msk) m ! at_cell n rc = (if bit (formatBits msk) i then 1 else 0)"
proof (rule put_all_at)
  show "(at_cell n rc, if bit (formatBits msk) i then 1 else 0) \<in> set (format_writes n msk)"
    using assms(3) by (force simp: format_writes_def)
  have writes: "map fst (format_writes n msk) = map (\<lambda>x. at_cell n (fst x)) (format_cells n)"
    by (simp add: format_writes_def comp_def case_prod_unfold)
  show "distinct (map fst (format_writes n msk))"
    unfolding writes using assms(1) format_cells_distinct by (elim insertE emptyE) (simp_all only:)
  obtain r c where rc: "rc = (r, c)" by (cases rc)
  then have "r < n" "c < n" using format_cells_functional assms(1,3) by force+
  then show "at_cell n rc < length m" by (simp add: rc assms(2) cell_less)
qed

lemma mask_loop:
  assumes "distinct xs" "set xs \<subseteq> {(r, c). r < n \<and> c < n}" "length m = n * n" "r < n" "c < n"
  shows "length (foldl (\<lambda>m (r, c). if P r c then m[r * n + c := f (m ! (r * n + c))] else m) m xs) = n * n
    \<and> foldl (\<lambda>m (r, c). if P r c then m[r * n + c := f (m ! (r * n + c))] else m) m xs ! (r * n + c)
      = (if (r, c) \<in> set xs \<and> P r c then f (m ! (r * n + c)) else m ! (r * n + c))"
  using assms(1,2,3)
proof (induction xs rule: rev_induct)
  case (snoc x xs)
  obtain a b where x: "x = (a, b)" by (cases x)
  then have "a < n" "b < n" using snoc.prems by auto
  with snoc assms(4,5) x show ?case
    by (auto simp: nth_list_update cell_inject cell_less)
qed simp

lemma applyMask_at:
  assumes "grid_ok n mx" "r < n" "c < n"
  shows "length (qg_m (applyMask msk mx)) = n * n"
    "qg_m (applyMask msk mx) ! (r * n + c)
      = (if \<not> rsv mx r c \<and> maskCondition msk r c then qg_m mx ! (r * n + c) XOR 1 else qg_m mx ! (r * n + c))"
proof -
  have n: "qg_size mx = n" "length (qg_m mx) = n * n" using assms(1) by (simp_all add: grid_ok_def)
  have xs: "distinct (List.product [0..<n] [0..<n])" "set (List.product [0..<n] [0..<n]) \<subseteq> {(r, c). r < n \<and> c < n}"
    by (auto simp: distinct_product)
  note loop = mask_loop [OF xs n(2) assms(2,3), where f = "\<lambda>x. x XOR 1"
      and P = "\<lambda>r c. \<not> qg_reserved mx ! (r * n + c) \<and> maskCondition msk r c"]
  show "length (qg_m (applyMask msk mx)) = n * n" using loop by (simp add: applyMask_def Let_def n)
  show "qg_m (applyMask msk mx) ! (r * n + c)
      = (if \<not> rsv mx r c \<and> maskCondition msk r c then qg_m mx ! (r * n + c) XOR 1 else qg_m mx ! (r * n + c))"
    using loop assms(2,3) by (simp add: applyMask_def Let_def n rsv_def)
qed

end
