(* ===== verification/QrProps.thy ===== *)
theory QrProps
  imports QrRead
begin

text \<open>What the finished symbols hold: the property that a reader returns the text, and the format copies.\<close>

lemma sizes: "1 \<le> v \<Longrightarrow> v \<le> 5 \<Longrightarrow> 17 + 4 * v \<in> {21, 25, 29, 33, 37 :: nat}"
  by auto

lemma patterns_ok:
  assumes "1 \<le> v" "v \<le> 5"
  shows "grid_ok (17 + 4 * v) (buildFunctionalPatterns v)"
  using buildFunctionalPatterns_rsv [OF assms refl, of 0 0] by simp

lemma reserved_functional:
  assumes "1 \<le> v" "v \<le> 5" "n = 17 + 4 * v" "r < n" "c < n"
  shows "qg_reserved (buildFunctionalPatterns v) ! (r * n + c) = iso_functional n r c"
  using buildFunctionalPatterns_rsv [OF assms] unfolding rsv_def grid_ok_def by metis

lemma placeData_at:
  assumes "1 \<le> v" "v \<le> 5" "n = 17 + 4 * v"
  shows "grid_ok n (placeData ws (buildFunctionalPatterns v))"
    "qg_reserved (placeData ws (buildFunctionalPatterns v)) = qg_reserved (buildFunctionalPatterns v)"
    "k < length (data_cells n) \<Longrightarrow>
      qg_m (placeData ws (buildFunctionalPatterns v)) ! at_cell n (data_cells n ! k) = (if bitAt ws k then 1 else 0)"
proof -
  let ?mx = "buildFunctionalPatterns v"
  have n: "n \<in> {21, 25, 29, 33, 37}" using sizes assms by metis
  then have odd: "odd n" "9 \<le> n" by auto
  have ok: "grid_ok n ?mx" using patterns_ok assms by metis
  note rsv = reserved_functional [OF assms]
  have "filter (\<lambda>i. \<not> qg_reserved ?mx ! i) (map (at_cell n) (iso_scan n)) = map (at_cell n) (data_cells n)"
    unfolding filter_map data_cells_def
    by (rule arg_cong [where f = "map (at_cell n)"], rule filter_cong) (auto simp: rsv set_iso_scan_square odd)
  then have m: "qg_m (placeData ws ?mx)
      = put_all (map (\<lambda>(j, i). (i, if bitAt ws j then 1 else 0)) (enumerate 0 (map (at_cell n) (data_cells n)))) (qg_m ?mx)"
    using ok by (simp add: placeData_def grid_ok_def place_columns_scan [OF n] place_cells del: One_nat_def)
  show "grid_ok n (placeData ws ?mx)" using ok m by (simp add: grid_ok_def placeData_def)
  show "qg_reserved (placeData ws ?mx) = qg_reserved ?mx" by (simp add: placeData_def)
  assume k: "k < length (data_cells n)"
  let ?ps = "map (\<lambda>(j, i). (i, if bitAt ws j then 1 else (0 :: int))) (enumerate 0 (map (at_cell n) (data_cells n)))"
  have "inj_on (at_cell n) (set (data_cells n))"
    by (auto simp: inj_on_def set_data_cells odd cell_inject)
  then have "distinct (map (at_cell n) (data_cells n))" by (simp add: distinct_map distinct_data_cells odd)
  moreover have "map fst ?ps = map (at_cell n) (data_cells n)" by (simp add: comp_def case_prod_unfold)
  moreover have "(at_cell n (data_cells n ! k), if bitAt ws k then 1 else 0) \<in> set ?ps"
    using k by (force simp: in_set_conv_nth nth_enumerate_eq)
  moreover have "at_cell n (data_cells n ! k) < length (qg_m ?mx)"
    using nth_mem [OF k] ok by (auto simp: set_data_cells odd grid_ok_def cell_less)
  ultimately show "qg_m (placeData ws ?mx) ! at_cell n (data_cells n ! k) = (if bitAt ws k then 1 else 0)"
    unfolding m by (intro put_all_at) metis+
qed

lemma masked_symbol_at:
  assumes "1 \<le> v" "v \<le> 5" "n = 17 + 4 * v"
  shows "qg_size (masked_symbol v ws msk) = n"
    "k < length (data_cells n) \<Longrightarrow> data_cells n ! k = (r, c) \<Longrightarrow>
      qg_m (masked_symbol v ws msk) ! (r * n + c) = (if bitAt ws k \<noteq> maskCondition msk r c then 1 else 0)"
    "(rc, i) \<in> set (format_cells n) \<Longrightarrow> qg_m (masked_symbol v ws msk) ! at_cell n rc = (if bit (formatBits msk) i then 1 else 0)"
proof -
  let ?mx = "placeData ws (buildFunctionalPatterns v)"
  have n: "n \<in> {21, 25, 29, 33, 37}" "15 < n" using sizes assms by auto
  then have odd: "odd n" "9 \<le> n" by auto
  have ok: "grid_ok n ?mx" by (rule placeData_at [OF assms])
  then have size: "qg_size (applyMask msk ?mx) = n" by (simp add: applyMask_def Let_def grid_ok_def)
  show "qg_size (masked_symbol v ws msk) = n" by (simp add: masked_symbol_def writeFormat_put size)
  have m: "qg_m (masked_symbol v ws msk) = put_all (format_writes n msk) (qg_m (applyMask msk ?mx))"
    by (simp add: masked_symbol_def writeFormat_put size)
  show "qg_m (masked_symbol v ws msk) ! at_cell n rc = (if bit (formatBits msk) i then 1 else 0)"
    if "(rc, i) \<in> set (format_cells n)"
    unfolding m using n by (intro format_writes_at applyMask_at [OF ok, of 0 0] that) auto
  assume k: "k < length (data_cells n)" and rc: "data_cells n ! k = (r, c)"
  then have in_range: "r < n" "c < n" "\<not> iso_functional n r c"
    using nth_mem [OF k] by (auto simp: set_data_cells odd)
  have "qg_m (masked_symbol v ws msk) ! (r * n + c) = qg_m (applyMask msk ?mx) ! (r * n + c)"
    unfolding m by (rule put_all_other [OF format_writes_other [OF n(2) in_range(2,3)]])
  moreover have "\<not> rsv ?mx r c"
    using reserved_functional [OF assms in_range(1,2)] in_range(3) ok
    by (simp add: rsv_def placeData_at(2) [OF assms] grid_ok_def)
  ultimately show "qg_m (masked_symbol v ws msk) ! (r * n + c) = (if bitAt ws k \<noteq> maskCondition msk r c then 1 else 0)"
    using placeData_at(3) [OF assms k] by (simp add: applyMask_at [OF ok in_range(1,2)] rc)
qed

section \<open>The chosen mask\<close>

lemma formatBits_values:
  "formatBits 0 = 0x77c4" "formatBits 1 = 0x72f3" "formatBits 2 = 0x7daa" "formatBits 3 = 0x789d"
  "formatBits 4 = 0x662f" "formatBits 5 = 0x6318" "formatBits 6 = 0x6c41" "formatBits 7 = 0x6976"
  by (simp_all add: formatBits_def Let_def bit_0)

lemma formatBits_iso: "msk < 8 \<Longrightarrow> formatBits msk = iso_formats ! msk"
proof -
  assume "msk < 8"
  then have "msk \<in> {0, 1, 2, 3, 4, 5, 6, 7}" by auto
  then show ?thesis by (auto simp: formatBits_values [simplified] iso_formats_def)
qed

lemma maskCondition_iso: "msk < 8 \<Longrightarrow> maskCondition msk r c = (iso_masks ! msk) r c"
proof -
  assume "msk < 8"
  then have "msk \<in> {0, 1, 2, 3, 4, 5, 6, 7}" by auto
  then show ?thesis by (elim insertE emptyE) (simp_all add: maskCondition_def iso_masks_def)
qed

text \<open>The grid of \<open>qrMatrix\<close> is the symbol of one of the eight masks, and no other has a lower penalty.\<close>

definition chosen :: "nat \<Rightarrow> bytes \<Rightarrow> int list \<Rightarrow> bool" where
  "chosen v ws m \<longleftrightarrow> (\<exists>msk < 8. m = qg_m (masked_symbol v ws msk)
     \<and> (\<forall>k < 8. penalty m (17 + 4 * v) \<le> penalty (qg_m (masked_symbol v ws k)) (17 + 4 * v)))"

lemma try_masks:
  assumes "1 \<le> v" "v \<le> 5"
  obtains m s where "foldl (try_mask v ws) None [0..<8] = Some (m, s)" "chosen v ws m"
proof -
  let ?m = "\<lambda>k. qg_m (masked_symbol v ws k)" and ?p = "\<lambda>m. penalty m (17 + 4 * v)"
  have size: "qg_size (masked_symbol v ws k) = 17 + 4 * v" for k by (rule masked_symbol_at [OF assms refl])
  have "\<exists>msk < Suc j. foldl (try_mask v ws) None [0..<Suc j] = Some (?m msk, ?p (?m msk))
      \<and> (\<forall>k < Suc j. ?p (?m msk) \<le> ?p (?m k))" for j
  proof (induction j)
    case 0
    then show ?case by (simp add: try_mask_def Let_def size)
  next
    case (Suc j)
    then obtain msk where msk: "msk < Suc j" "foldl (try_mask v ws) None [0..<Suc j] = Some (?m msk, ?p (?m msk))"
      "\<forall>k < Suc j. ?p (?m msk) \<le> ?p (?m k)" by blast
    let ?best = "if ?p (?m (Suc j)) < ?p (?m msk) then Suc j else msk"
    have "foldl (try_mask v ws) None [0..<Suc (Suc j)] = Some (?m ?best, ?p (?m ?best))"
      unfolding upt_Suc_append [OF le0, of "Suc j"] foldl_append msk(2)
      by (simp add: try_mask_def Let_def size)
    moreover have "\<forall>k < Suc (Suc j). ?p (?m ?best) \<le> ?p (?m k)"
      using msk(3) by (auto simp: less_Suc_eq not_less intro: le_trans less_imp_le)
    moreover have "?best < Suc (Suc j)" using msk(1) by simp
    ultimately show ?case by blast
  qed
  from this [of 7] that show thesis by (auto simp: chosen_def numeral_eq_Suc)
qed

section \<open>The code words\<close>

lemma version_tables:
  assumes "1 \<le> v" "v \<le> 5" "n = 17 + 4 * v"
  shows "iso_blocks n = (DATA_CODEWORDS_L ! (v - 1), EC_CODEWORDS_L ! (v - 1))"
    "8 * (DATA_CODEWORDS_L ! (v - 1) + EC_CODEWORDS_L ! (v - 1)) \<le> length (data_cells n)"
proof -
  have "v = 1 \<or> v = 2 \<or> v = 3 \<or> v = 4 \<or> v = 5" using assms(1,2) by arith
  then show "iso_blocks n = (DATA_CODEWORDS_L ! (v - 1), EC_CODEWORDS_L ! (v - 1))"
    "8 * (DATA_CODEWORDS_L ! (v - 1) + EC_CODEWORDS_L ! (v - 1)) \<le> length (data_cells n)"
    unfolding assms(3)
    by (auto simp: iso_blocks_def DATA_CODEWORDS_L_def EC_CODEWORDS_L_def length_data_cells data_totals)
qed

lemma code_words_ok:
  assumes "1 \<le> v" "v \<le> 5" "dcw = DATA_CODEWORDS_L ! (v - 1)" "ec = EC_CODEWORDS_L ! (v - 1)" "length data + 2 \<le> dcw"
  shows "length (code_words v data) = dcw + ec"
    "k < 16 + 8 * length data \<Longrightarrow> bitAt (code_words v data) k = payload data ! k"
    "syndromes_zero (code_words v data) ec"
proof -
  have ws: "code_words v data = data_codewords data dcw @ rsEncode (data_codewords data dcw) ec"
    by (simp add: code_words_def Let_def assms(3,4))
  show "length (code_words v data) = dcw + ec" by (simp add: ws data_codewords_bits [OF assms(5)])
  show "bitAt (code_words v data) k = payload data ! k" if "k < 16 + 8 * length data"
  proof -
    have "bitAt (code_words v data) k = bitAt (data_codewords data dcw) k"
      using that assms(5) by (auto simp: ws bitAt_def nth_append data_codewords_bits [OF assms(5)])
    then show ?thesis using data_codewords_bits(2) [OF assms(5) that] by simp
  qed
  have "ec \<le> 26" using assms(1,2,4) by (auto simp: EC_CODEWORDS_L_def nth_Cons' split: if_splits)
  then show "syndromes_zero (code_words v data) ec"
    using code_word_value [of _ ec "data_codewords data dcw"]
    by (auto simp: syndromes_zero_def list_all_iff ws gf_exp)
qed

section \<open>Reading a symbol\<close>

lemma find_unique: "x \<in> set xs \<Longrightarrow> P x \<Longrightarrow> (\<And>y. y \<in> set xs \<Longrightarrow> P y \<Longrightarrow> y = x) \<Longrightarrow> find P xs = Some x"
proof (induction xs)
  case (Cons a xs)
  show ?case
  proof (cases "P a")
    case True
    then have "a = x" by (intro Cons.prems(3)) simp_all
    with True show ?thesis by simp
  next
    case False
    then have "x \<in> set xs" using Cons.prems(1,2) by auto
    then have "find P xs = Some x" using Cons.prems(2,3) by (intro Cons.IH) simp_all
    with False show ?thesis by simp
  qed
qed simp

lemma iso_formats_differ: "k < 8 \<Longrightarrow> j < 8 \<Longrightarrow> (\<forall>i < 15. bit (iso_formats ! k) i = bit (iso_formats ! j) i) \<Longrightarrow> k = j"
proof -
  assume kj: "k < 8" "j < 8" and same: "\<forall>i < 15. bit (iso_formats ! k) i = bit (iso_formats ! j) i"
  have "\<forall>f \<in> set iso_formats. f < 2 ^ 15" "length iso_formats = 8" by (simp_all add: iso_formats_def)
  then have "iso_formats ! k < 2 ^ 15" if "k < 8" for k using that nth_mem by metis
  then have "take_bit 15 (iso_formats ! k) = iso_formats ! k" "take_bit 15 (iso_formats ! j) = iso_formats ! j"
    using kj by (simp_all only: take_bit_nat_eq_self_iff)
  moreover have "take_bit 15 (iso_formats ! k) = take_bit 15 (iso_formats ! j)"
    by (rule bit_eqI) (simp only: bit_take_bit_iff, metis same)
  ultimately have "iso_formats ! k = iso_formats ! j" by metis
  moreover have "distinct iso_formats" "length iso_formats = 8" by (simp_all add: iso_formats_def)
  ultimately show "k = j" using kj by (metis nth_eq_iff_index_eq)
qed

lemma read_mask_of:
  assumes "msk < 8" "\<And>i. i < 15 \<Longrightarrow> dark (iso_format_cell n i) = bit (iso_formats ! msk) i"
  shows "read_mask n dark = Some msk"
  unfolding read_mask_def using assms iso_formats_differ by (intro find_unique) (auto simp del: upt_Suc)

lemma symbol_reads_back:
  assumes v: "1 \<le> v" "v \<le> 5" "n = 17 + 4 * v" and fits: "length data + 2 \<le> DATA_CODEWORDS_L ! (v - 1)"
    and msk: "msk < 8" and m: "m = qg_m (masked_symbol v (code_words v data) msk)"
  shows "qr_read (map (\<lambda>r. map (\<lambda>c. m ! (r * n + c) = 1) [0..<n]) [0..<n], n) = Some data"
proof -
  let ?ms = "map (\<lambda>r. map (\<lambda>c. m ! (r * n + c) = 1) [0..<n]) [0..<n]"
  let ?dark = "\<lambda>(r, c). ?ms ! r ! c" and ?ws = "code_words v data"
  obtain dcw ec where blocks: "iso_blocks n = (dcw, ec)" "dcw = DATA_CODEWORDS_L ! (v - 1)" "ec = EC_CODEWORDS_L ! (v - 1)"
    using version_tables(1) [OF v] by blast
  have fits': "length data + 2 \<le> dcw" using fits blocks(2) by simp
  note ws = code_words_ok [OF v(1,2) blocks(2,3) fits']
  have room: "8 * length ?ws \<le> length (data_cells n)" using version_tables(2) [OF v] blocks ws(1) by simp
  have odd: "odd n" "9 \<le> n" "15 < n" using v by auto
  have dark: "?dark (r, c) = (m ! (r * n + c) = 1)" if "r < n" "c < n" for r c using that by simp
  have "?dark (iso_format_cell n i) = bit (iso_formats ! msk) i" if "i < 15" for i
  proof -
    have "fst (iso_format_cell n i) < n" "snd (iso_format_cell n i) < n"
      using that odd by (auto simp: iso_format_cell_def)
    then have "?dark (iso_format_cell n i) = (m ! at_cell n (iso_format_cell n i) = 1)"
      by (cases "iso_format_cell n i") simp
    moreover have "(iso_format_cell n i, i) \<in> set (format_cells n)" using that by (simp add: format_cells_def image_iff)
    ultimately show ?thesis using masked_symbol_at(3) [OF v] by (simp add: m formatBits_iso [OF msk])
  qed
  then have mask: "read_mask n ?dark = Some msk" by (rule read_mask_of [OF msk])
  define bits where "bits = read_bits n msk ?dark"
  have len: "length bits = length (data_cells n)" by (simp add: bits_def read_bits_def)
  have at: "bits ! k = bitAt ?ws k" if "k < length (data_cells n)" for k
  proof -
    obtain r c where rc: "data_cells n ! k = (r, c)" by (cases "data_cells n ! k")
    then have "r < n" "c < n" using nth_mem [OF that] by (auto simp: set_data_cells odd)
    then show ?thesis using masked_symbol_at(2) [OF v that rc] that rc by (simp add: bits_def read_bits_def m dark maskCondition_iso [OF msk])
  qed
  have words: "map (\<lambda>k. read_word bits (8 * k)) [0..<dcw + ec] = ?ws"
    using read_word_bits [OF _ at, of _] room len by (intro nth_equalityI) (simp_all add: ws(1))
  have payload: "bits = payload data @ drop (length (payload data)) bits"
  proof -
    have short: "16 + 8 * length data \<le> length bits" using fits' room ws(1) len by simp
    have "take (length (payload data)) bits = payload data"
      by (rule nth_equalityI) (use short at len ws(2) in simp_all)
    then show ?thesis by (metis append_take_drop_id)
  qed
  have "length data < 256" "12 + 8 * length data \<le> 8 * dcw"
    using fits' blocks(2) v(1,2) by (auto simp: DATA_CODEWORDS_L_def nth_Cons' split: if_splits)
  moreover note payload_header [of data "drop (length (payload data)) bits", folded payload]
    payload_word [of _ data "drop (length (payload data)) bits", folded payload]
  moreover have "map (\<lambda>k. read_word bits (12 + 8 * k)) [0..<length data] = data"
    using calculation by (intro nth_equalityI) simp_all
  ultimately show ?thesis
    by (simp add: qr_read_def Let_def blocks(1) mask words ws(3) flip: bits_def)
qed

lemma pickVersion_spec:
  "pickVersion len = 0 \<and> 106 < len \<or>
   1 \<le> pickVersion len \<and> pickVersion len \<le> 5 \<and> len \<le> 106 \<and> len + 2 \<le> DATA_CODEWORDS_L ! (pickVersion len - 1)"
  by (simp add: pickVersion_def DATA_CODEWORDS_L_def upt_rec)

text \<open>The grid the loop over the masks ends with, and the symbol made of it.\<close>

lemma qrMatrix_cases:
  fixes t :: string
  defines "data \<equiv> TextEncoder_encode t"
  obtains "qrMatrix t = Inl (JsError ''qr: text too long for a v1-5 code'')" "106 < length data"
  | v n m where "1 \<le> v" "v \<le> 5" "n = 17 + 4 * v" "length data \<le> 106" "length data + 2 \<le> DATA_CODEWORDS_L ! (v - 1)"
      "chosen v (code_words v data) m" "qrMatrix t = Inr (map (\<lambda>r. map (\<lambda>c. m ! (r * n + c) = 1) [0..<n]) [0..<n], n)"
proof (cases "pickVersion (length data) = 0")
  case True
  then show thesis using pickVersion_spec [of "length data"] that(1) by (simp add: qrMatrix_def data_def Let_def)
next
  case False
  let ?v = "pickVersion (length data)"
  have v: "1 \<le> ?v" "?v \<le> 5" "length data \<le> 106" "length data + 2 \<le> DATA_CODEWORDS_L ! (?v - 1)"
    using pickVersion_spec [of "length data"] False by auto
  obtain m s where "foldl (try_mask ?v (code_words ?v data)) None [0..<8] = Some (m, s)" "chosen ?v (code_words ?v data) m"
    using try_masks [OF v(1,2)] by blast
  then show thesis using that(2) [of ?v "17 + 4 * ?v" m] v False by (simp add: qrMatrix_def data_def Let_def)
qed

section \<open>Properties\<close>

text \<open>C25. Every text of at most 106 bytes gets a symbol, and a reader that follows the standard (format word, mask, scan, check bytes, header) gets the bytes of the text back from it; a longer text is refused.\<close>

theorem qr_reads_back:
  "case qrMatrix t of
     Inl e \<Rightarrow> e = JsError ''qr: text too long for a v1-5 code'' \<and> 106 < length (TextEncoder_encode t)
   | Inr symbol \<Rightarrow> length (TextEncoder_encode t) \<le> 106 \<and> qr_read symbol = Some (TextEncoder_encode t)"
proof (cases t rule: qrMatrix_cases)
  case (2 v n m)
  then obtain msk where "msk < 8" "m = qg_m (masked_symbol v (code_words v (TextEncoder_encode t)) msk)"
    by (auto simp: chosen_def)
  with symbol_reads_back [OF 2(1-3,5) this] 2 show ?thesis by simp
qed simp

text \<open>The module of each bit of the format word in the copy around the first finder, as the standard has it.\<close>

definition iso_first_cell :: "nat \<Rightarrow> nat \<times> nat" where
  "iso_first_cell i = (if i < 6 then (i, 8) else if i = 6 then (7, 8) else if i = 7 then (8, 8)
     else if i = 8 then (8, 7) else (8, 14 - i))"

definition first_copy_mask :: "(nat \<times> nat \<Rightarrow> bool) \<Rightarrow> nat option" where
  "first_copy_mask dark =
     find (\<lambda>k. \<forall>i \<in> set [0..<15]. dark (iso_first_cell i) = bit (iso_formats ! k) i) [0..<8]"

lemma format_bit_lists: "map (\<lambda>f. map (bit f) [0..<15]) iso_formats =
    [[False, False, True, False, False, False, True, True, True, True, True, False, True, True, True],
     [True, True, False, False, True, True, True, True, False, True, False, False, True, True, True],
     [False, True, False, True, False, True, False, True, True, False, True, True, True, True, True],
     [True, False, True, True, True, False, False, True, False, False, False, True, True, True, True],
     [True, True, True, True, False, True, False, False, False, True, True, False, False, True, True],
     [False, False, False, True, True, False, False, False, True, True, False, False, False, True, True],
     [True, False, False, False, False, False, True, False, False, False, True, True, False, True, True],
     [False, True, True, False, True, True, True, False, True, False, False, True, False, True, True]]"
  by (simp add: iso_formats_def upt_conv_Cons bit_0)

lemma mirrored_formats:
  assumes "msk < 8" "k < 8"
  shows "\<exists>i < 15. bit (iso_formats ! msk) (14 - i) \<noteq> bit (iso_formats ! k) i"
proof (rule ccontr)
  assume "\<not> ?thesis"
  then have "rev (map (bit (iso_formats ! msk)) [0..<15]) = map (bit (iso_formats ! k)) [0..<15]"
    by (intro nth_equalityI) (auto simp: rev_nth simp del: upt_Suc)
  moreover have "map (bit (iso_formats ! j)) [0..<15] \<in> set (map (\<lambda>f. map (bit f) [0..<15]) iso_formats)" if "j < 8" for j
    using that nth_mem [of j iso_formats] by (simp only: set_map) (intro imageI, simp add: iso_formats_def)
  ultimately have "\<exists>xs \<in> set (map (\<lambda>f. map (bit f) [0..<15]) iso_formats). rev xs \<in> set (map (\<lambda>f. map (bit f) [0..<15]) iso_formats)"
    using assms by metis
  then show False unfolding format_bit_lists by simp
qed

text \<open>C26. The copy of the format word around the first finder is written mirrored: a reader that looks there finds no format word of the level in any symbol.\<close>

theorem qr_first_copy_unreadable:
  "case qrMatrix t of Inl e \<Rightarrow> True | Inr (modules, n) \<Rightarrow> first_copy_mask (\<lambda>(r, c). modules ! r ! c) = None"
proof (cases t rule: qrMatrix_cases)
  case (2 v n m)
  then obtain msk where msk: "msk < 8" "m = qg_m (masked_symbol v (code_words v (TextEncoder_encode t)) msk)"
    by (auto simp: chosen_def)
  let ?dark = "\<lambda>(r, c). map (\<lambda>r. map (\<lambda>c. m ! (r * n + c) = 1) [0..<n]) [0..<n] ! r ! c"
  have bit: "?dark (iso_first_cell i) = bit (iso_formats ! msk) (14 - i)" if "i < 15" for i
  proof -
    have "(iso_first_cell i, 14 - i) \<in> set (format_cells n)"
    proof -
      have "i \<in> {..<15}" using that by simp
      also have "{..<15} = {0, 1, 2, 3, 4, 5, 6, 7, 8, 9, 10, 11, 12, 13, 14 :: nat}"
        by (simp add: lessThan_nat_numeral lessThan_Suc insert_commute)
      finally have "i \<in> {0, 1, 2, 3, 4, 5, 6, 7, 8, 9, 10, 11, 12, 13, 14}" .
      then show ?thesis by (elim insertE emptyE) (simp_all add: iso_first_cell_def format_cells_def upt_conv_Cons)
    qed
    moreover have "fst (iso_first_cell i) < n" "snd (iso_first_cell i) < n"
      using that 2(3) by (auto simp: iso_first_cell_def)
    then have "?dark (iso_first_cell i) = (m ! at_cell n (iso_first_cell i) = 1)"
      by (cases "iso_first_cell i") simp
    ultimately show ?thesis using masked_symbol_at(3) [OF 2(1-3)] by (simp add: msk(2) formatBits_iso [OF msk(1)])
  qed
  have "first_copy_mask ?dark = None"
    unfolding first_copy_mask_def find_None_iff using mirrored_formats [OF msk(1)] bit by fastforce
  with 2(7) show ?thesis by simp
qed simp

end
