(* ===== verification/WorkerProxy.thy ===== *)
theory WorkerProxy
  imports Prelude
begin

text \<open>
  The page's proxy of the application controller (\<open>client/src/workerproxy.ts\<close>) and the pump of the owning
  worker (\<open>client/worker.js\<close>): requests with consecutive ids, one promise per id, the table of operations
  and the chain that runs them one at a time. What an operation does, and when it settles, is an input.
\<close>

section \<open>Messages\<close>

text \<open>What crosses from the page: \<open>{id, op, args}\<close>.\<close>

record 'v worker_request =
  rq_id :: nat
  rq_op :: string
  rq_args :: "'v list"

text \<open>A thrown value: its message, empty if it has none, and its text as a string.\<close>

type_synonym thrown = "string \<times> string"

text \<open>What crosses from the worker: an object with these properties, each absent or present.\<close>

record ('e, 'v) to_page =
  tp_event :: "'e option"
  tp_id :: "nat option"
  tp_ok :: "bool option"
  tp_result :: "'v option"
  tp_error :: "string option"

definition response_ok :: "nat \<Rightarrow> 'v \<Rightarrow> ('e, 'v) to_page" where
  "response_ok i v = \<lparr>tp_event = None, tp_id = Some i, tp_ok = Some True, tp_result = Some v, tp_error = None\<rparr>"

definition response_error :: "nat \<Rightarrow> string \<Rightarrow> ('e, 'v) to_page" where
  "response_error i e = \<lparr>tp_event = None, tp_id = Some i, tp_ok = Some False, tp_result = None, tp_error = Some e\<rparr>"

definition worker_event :: "'e \<Rightarrow> ('e, 'v) to_page" where
  "worker_event e = \<lparr>tp_event = Some e, tp_id = None, tp_ok = None, tp_result = None, tp_error = None\<rparr>"

section \<open>The proxy\<close>

text \<open>A promise is named by its id; the map of the pending ones is kept in insertion order.\<close>

record proxy =
  px_seq :: nat
  px_pending :: "nat list"
  px_listening :: bool

definition new_proxy :: proxy where
  "new_proxy = \<lparr>px_seq = 0, px_pending = [], px_listening = False\<rparr>"

datatype ('e, 'v) px_out =
    PxPost "'v worker_request"
  | PxSettle nat "string + 'v option"
  | PxEvent 'e

definition onEvent :: "proxy \<Rightarrow> proxy" where
  "onEvent p = p\<lparr>px_listening := True\<rparr>"

text \<open>
  A request is remembered before it is posted; when the arguments cannot be cloned the post throws inside
  of the executor, so the promise is rejected and the entry stays.
\<close>

definition px_call :: "string option \<Rightarrow> string \<Rightarrow> 'v list \<Rightarrow> proxy \<Rightarrow> ('e, 'v) px_out list \<times> proxy" where
  "px_call refused op args p =
     (let i = px_seq p; p' = p\<lparr>px_seq := i + 1, px_pending := px_pending p @ [i]\<rparr> in
      case refused of
        None \<Rightarrow> ([PxPost \<lparr>rq_id = i, rq_op = op, rq_args = args\<rparr>], p')
      | Some e \<Rightarrow> ([PxSettle i (Inl e)], p'))"

definition isEvent :: "('e, 'v) to_page option \<Rightarrow> bool" where
  "isEvent m = (case m of None \<Rightarrow> False | Some x \<Rightarrow> tp_event x \<noteq> None)"

definition isResponse :: "('e, 'v) to_page option \<Rightarrow> bool" where
  "isResponse m = (case m of None \<Rightarrow> False | Some x \<Rightarrow> tp_id x \<noteq> None \<and> tp_ok x \<noteq> None)"

text \<open>A message of the worker, \<open>None\<close> when it is not an object.\<close>

definition px_handle :: "('e, 'v) to_page option \<Rightarrow> proxy \<Rightarrow> ('e, 'v) px_out list \<times> proxy" where
  "px_handle m p =
     (if isEvent m then (if px_listening p then [PxEvent (the (tp_event (the m)))] else [], p)
      else if \<not> isResponse m then ([], p)
      else (let x = the m; i = the (tp_id x) in
        if i \<notin> set (px_pending p) then ([], p)
        else
          ([PxSettle i (if tp_ok x = Some True then Inr (tp_result x)
              else Inl (case tp_error x of Some e \<Rightarrow> e | None \<Rightarrow> ''worker error''))],
           p\<lparr>px_pending := remove1 i (px_pending p)\<rparr>)))"

section \<open>The methods of the proxy\<close>

text \<open>
  Every method posts the operation of its own name with its parameters in order: the number of parameters
  of each. The methods for sign-in, conversations, devices and trust; for history, pins and healing; for
  the identity card, lists, settings and signals.
\<close>

definition account_methods :: "(string \<times> nat) list" where
  "account_methods =
     [(''ping'', 0), (''deriveAuthKey'', 2), (''unlock'', 2), (''verifyPassphrase'', 2),
      (''deviceAuthState'', 0), (''discardAccount'', 1), (''peerFor'', 1), (''listChannels'', 0),
      (''openChannel'', 1), (''openNoteToSelf'', 0), (''startKeyExchange'', 0),
      (''channelKeyExchange'', 1), (''acceptKeyExchange'', 1), (''connectGateway'', 1),
      (''startConversation'', 1), (''sendMessage'', 3), (''revokeMessage'', 2),
      (''recoverySecret'', 0), (''ensureAccountSeed'', 0), (''openProvisioningWindow'', 0),
      (''joinDevice'', 0), (''confirmProvisioning'', 0), (''closeProvisioning'', 0),
      (''startQrPairing'', 0), (''grantScannedDevice'', 1), (''keyPackages'', 1),
      (''isGroupReady'', 0), (''recoverWithSeed'', 2), (''syncEpoch'', 1), (''certEpoch'', 0),
      (''revokeDeviceKey'', 2), (''ingestRevocations'', 1), (''revocationState'', 0),
      (''isDeviceRevoked'', 1), (''accountFingerprint'', 0), (''historyOffEnabled'', 0)]"

definition healing_methods :: "(string \<times> nat) list" where
  "healing_methods =
     [(''setHistoryOff'', 2), (''buddyVerifyInfo'', 1), (''buddyVerifyStates'', 1),
      (''markBuddyVerified'', 3), (''clearBuddyVerified'', 1), (''addDevice'', 2),
      (''excludeDevice'', 1), (''hasMissingSiblings'', 1), (''reconcileSiblings'', 2),
      (''reconcileRemovals'', 2), (''reconcileSelf'', 2), (''selfSiblingState'', 1),
      (''hasSelfGroup'', 0), (''ensureSelfGroup'', 1)]"

definition list_methods :: "(string \<times> nat) list" where
  "list_methods =
     [(''getIdentity'', 0), (''setIdentity'', 1), (''getPeerIdentities'', 1),
      (''tagConversationHandle'', 2), (''getBuddyInfo'', 1), (''buddyIcons'', 1),
      (''listBuddies'', 0), (''addBuddy'', 2), (''removeBuddy'', 1), (''setBuddyGroup'', 2),
      (''listGroups'', 0), (''addGroup'', 1), (''renameGroup'', 2), (''deleteGroup'', 1),
      (''blockConversation'', 1), (''removeConversation'', 1), (''listBlocked'', 0),
      (''unblock'', 1), (''getPresenceEnabled'', 0), (''setPresenceEnabled'', 1),
      (''getNotifyEnabled'', 0), (''setNotifyEnabled'', 1), (''sendFileSignal'', 2),
      (''sendCallSignal'', 2)]"

definition proxy_methods :: "(string \<times> nat) list" where
  "proxy_methods = account_methods @ healing_methods @ list_methods"

text \<open>Values the engine supplies, and the texts of its errors.\<close>

record 'v engine =
  en_undefined :: 'v
  en_true :: 'v
  en_empty :: 'v
  en_cloneable :: "'v \<Rightarrow> bool"
  en_clone_error :: thrown
  en_null_error :: "string \<Rightarrow> thrown"

text \<open>The two parameters with a default, which an absent or undefined argument takes.\<close>

definition default_of :: "'v engine \<Rightarrow> string \<Rightarrow> nat \<Rightarrow> 'v" where
  "default_of N m i =
     (if m = ''setHistoryOff'' \<and> i = 1 then en_true N
      else if m = ''markBuddyVerified'' \<and> i = 2 then en_empty N
      else en_undefined N)"

definition bound_args :: "'v engine \<Rightarrow> string \<Rightarrow> nat \<Rightarrow> 'v list \<Rightarrow> 'v list" where
  "bound_args N m n given =
     map (\<lambda>i. if i < length given \<and> given ! i \<noteq> en_undefined N then given ! i else default_of N m i) [0..<n]"

definition px_invoke :: "'v engine \<Rightarrow> string \<Rightarrow> 'v list \<Rightarrow> proxy \<Rightarrow> (('e, 'v) px_out list \<times> proxy) option" where
  "px_invoke N m given p =
     (case map_of proxy_methods m of None \<Rightarrow> None | Some n \<Rightarrow> Some (px_call None m (bound_args N m n given) p))"

section \<open>The operations of the worker\<close>

datatype worker_op = OpPing | OpDeriveAuthKey | OpController nat

definition OPS :: "(string \<times> worker_op) list" where
  "OPS =
     [(''ping'', OpPing), (''deriveAuthKey'', OpDeriveAuthKey), (''unlock'', OpController 2),
      (''verifyPassphrase'', OpController 2), (''deviceAuthState'', OpController 0),
      (''discardAccount'', OpController 1), (''listChannels'', OpController 0),
      (''peerFor'', OpController 1), (''openChannel'', OpController 1),
      (''openNoteToSelf'', OpController 0), (''startKeyExchange'', OpController 0),
      (''channelKeyExchange'', OpController 1), (''acceptKeyExchange'', OpController 1),
      (''connectGateway'', OpController 1), (''startConversation'', OpController 1),
      (''sendMessage'', OpController 3), (''revokeMessage'', OpController 2),
      (''recoverySecret'', OpController 0), (''ensureAccountSeed'', OpController 0),
      (''openProvisioningWindow'', OpController 0), (''joinDevice'', OpController 0),
      (''confirmProvisioning'', OpController 0), (''closeProvisioning'', OpController 0),
      (''startQrPairing'', OpController 0), (''grantScannedDevice'', OpController 1),
      (''keyPackages'', OpController 1), (''isGroupReady'', OpController 0),
      (''recoverWithSeed'', OpController 2), (''syncEpoch'', OpController 1),
      (''certEpoch'', OpController 0), (''revokeDeviceKey'', OpController 2),
      (''ingestRevocations'', OpController 1), (''revocationState'', OpController 0),
      (''isDeviceRevoked'', OpController 1), (''accountFingerprint'', OpController 0),
      (''historyOffEnabled'', OpController 0), (''setHistoryOff'', OpController 2),
      (''buddyVerifyInfo'', OpController 1), (''buddyVerifyStates'', OpController 1),
      (''markBuddyVerified'', OpController 3), (''clearBuddyVerified'', OpController 1),
      (''addDevice'', OpController 2), (''excludeDevice'', OpController 1),
      (''hasMissingSiblings'', OpController 1), (''reconcileSiblings'', OpController 2),
      (''reconcileRemovals'', OpController 2), (''reconcileSelf'', OpController 2),
      (''selfSiblingState'', OpController 1), (''hasSelfGroup'', OpController 0),
      (''ensureSelfGroup'', OpController 1), (''getIdentity'', OpController 0),
      (''setIdentity'', OpController 1), (''getPeerIdentities'', OpController 1),
      (''tagConversationHandle'', OpController 2), (''getBuddyInfo'', OpController 1),
      (''buddyIcons'', OpController 1), (''listBuddies'', OpController 0),
      (''addBuddy'', OpController 2), (''removeBuddy'', OpController 1),
      (''setBuddyGroup'', OpController 2), (''listGroups'', OpController 0),
      (''addGroup'', OpController 1), (''renameGroup'', OpController 2),
      (''deleteGroup'', OpController 1), (''blockConversation'', OpController 1),
      (''removeConversation'', OpController 1), (''listBlocked'', OpController 0),
      (''unblock'', OpController 1), (''getPresenceEnabled'', OpController 0),
      (''setPresenceEnabled'', OpController 1), (''getNotifyEnabled'', OpController 0),
      (''setNotifyEnabled'', OpController 1), (''sendFileSignal'', OpController 2),
      (''sendCallSignal'', OpController 2)]"

text \<open>The elements \<open>a[0]\<close> to \<open>a[n-1]\<close> of the argument array.\<close>

definition first_args :: "'v engine \<Rightarrow> nat \<Rightarrow> 'v list \<Rightarrow> 'v list" where
  "first_args N n args = map (\<lambda>i. if i < length args then args ! i else en_undefined N) [0..<n]"

text \<open>
  What starting an operation comes to: an answer at once, or a call (a method of the controller, the key
  derivation) that settles later. The controller is null until the start-up is over. A name that every
  object inherits is no operation here; no method of the proxy posts one.
\<close>

datatype 'v started = Immediate "thrown + 'v" | Calls string "'v list"

definition unknown_op :: "string \<Rightarrow> thrown" where
  "unknown_op op = (''unknown op: '' @ op, ''Error: unknown op: '' @ op)"

definition start_op :: "'v engine \<Rightarrow> bool \<Rightarrow> 'v worker_request \<Rightarrow> 'v started" where
  "start_op N has_controller r =
     (case map_of OPS (rq_op r) of
        None \<Rightarrow> Immediate (Inl (unknown_op (rq_op r)))
      | Some OpPing \<Rightarrow> Immediate (Inr (en_true N))
      | Some OpDeriveAuthKey \<Rightarrow> Calls ''deriveMasterKey'' (first_args N 2 (rq_args r))
      | Some (OpController n) \<Rightarrow>
          if has_controller then Calls (rq_op r) (first_args N n (rq_args r))
          else Immediate (Inl (en_null_error N (rq_op r))))"

section \<open>The chain\<close>

datatype chain_link = Unsettled | Fulfilled | Rejected thrown

record 'v worker =
  wk_chain :: chain_link
  wk_queue :: "'v worker_request list"
  wk_running :: "'v worker_request option"
  wk_controller :: bool

definition new_worker :: "'v worker" where
  "new_worker = \<lparr>wk_chain = Unsettled, wk_queue = [], wk_running = None, wk_controller = False\<rparr>"

datatype ('e, 'v) wk_out = WkPost "('e, 'v) to_page" | WkCall string "'v list"

definition error_text :: "thrown \<Rightarrow> string" where
  "error_text e = (if fst e \<noteq> [] then fst e else snd e)"

text \<open>
  The two handlers after an operation. A result that cannot be cloned makes the post throw in the first
  handler, which the second does not catch: nothing is posted and the chain is rejected.
\<close>

definition wk_answer :: "'v engine \<Rightarrow> nat \<Rightarrow> thrown + 'v \<Rightarrow> ('e, 'v) wk_out list \<times> chain_link" where
  "wk_answer N i out =
     (case out of
        Inr v \<Rightarrow> if en_cloneable N v then ([WkPost (response_ok i v)], Fulfilled) else ([], Rejected (en_clone_error N))
      | Inl e \<Rightarrow> ([WkPost (response_error i (error_text e))], Fulfilled))"

text \<open>
  The links that follow a settled one, up to an operation that has to be waited for: a rejected link
  skips the operation of the next and goes to its second handler.
\<close>

fun wk_drain :: "'v engine \<Rightarrow> bool \<Rightarrow> chain_link \<Rightarrow> 'v worker_request list \<Rightarrow> ('e, 'v) wk_out list \<times> chain_link \<times> 'v worker_request option \<times> 'v worker_request list" where
  "wk_drain N c l [] = ([], l, None, [])"
| "wk_drain N c l (r # q) =
     (case l of
        Unsettled \<Rightarrow> ([], Unsettled, None, r # q)
      | Rejected e \<Rightarrow>
          (let (a, l') = wk_answer N (rq_id r) (Inl e); (b, rest) = wk_drain N c l' q in (a @ b, rest))
      | Fulfilled \<Rightarrow>
          (case start_op N c r of
             Calls m args \<Rightarrow> ([WkCall m args], Unsettled, Some r, q)
           | Immediate out \<Rightarrow>
               (let (a, l') = wk_answer N (rq_id r) out; (b, rest) = wk_drain N c l' q in (a @ b, rest))))"

definition wk_continue :: "'v engine \<Rightarrow> 'v worker \<Rightarrow> ('e, 'v) wk_out list \<times> 'v worker" where
  "wk_continue N w =
     (let (out, l, run, q) = wk_drain N (wk_controller w) (wk_chain w) (wk_queue w)
      in (out, w\<lparr>wk_chain := l, wk_queue := q, wk_running := (if run = None then wk_running w else run)\<rparr>))"

text \<open>A message of the page; the end of the start-up; the end of the running operation.\<close>

definition wk_onmessage :: "'v engine \<Rightarrow> 'v worker_request \<Rightarrow> 'v worker \<Rightarrow> ('e, 'v) wk_out list \<times> 'v worker" where
  "wk_onmessage N r w = wk_continue N (w\<lparr>wk_queue := wk_queue w @ [r]\<rparr>)"

definition wk_ready :: "'v engine \<Rightarrow> thrown option \<Rightarrow> 'v worker \<Rightarrow> ('e, 'v) wk_out list \<times> 'v worker" where
  "wk_ready N failed w =
     wk_continue N (case failed of None \<Rightarrow> w\<lparr>wk_chain := Fulfilled, wk_controller := True\<rparr>
       | Some e \<Rightarrow> w\<lparr>wk_chain := Rejected e\<rparr>)"

definition wk_settles :: "'v engine \<Rightarrow> thrown + 'v \<Rightarrow> 'v worker \<Rightarrow> ('e, 'v) wk_out list \<times> 'v worker" where
  "wk_settles N out w =
     (case wk_running w of
        None \<Rightarrow> ([], w)
      | Some r \<Rightarrow>
          (let (a, l) = wk_answer N (rq_id r) out; (b, w') = wk_continue N (w\<lparr>wk_chain := l, wk_running := None\<rparr>)
           in (a @ b, w')))"

end
