(* ===== verification/WorkerProps.thy ===== *)
theory WorkerProps
  imports WorkerProxy
begin

text \<open>
  The proxy and the worker put together over the two message queues between them, and the server they
  implement: one that takes the calls in order and finishes each before it looks at the next.
\<close>

section \<open>Page and worker\<close>

text \<open>
  What can happen: the page calls an operation or starts listening, a message arrives on either side, the
  start-up of the worker ends, the running operation ends, the worker pushes an event.
\<close>

datatype ('e, 'v) action =
    ACall string "'v list" | AListen | ADown | AUp | AReady "thrown option" | ASettle "thrown + 'v" | APush 'e

type_synonym 'v settlement = "nat \<times> (string + 'v option)"

record ('e, 'v) sys =
  sy_px :: proxy
  sy_wk :: "'v worker"
  sy_down :: "'v worker_request list"
  sy_up :: "('e, 'v) to_page list"
  sy_ready :: "thrown option option"
  sy_calls :: "'v worker_request list"
  sy_outcomes :: "(thrown + 'v) list"
  sy_made :: "(string \<times> 'v list) list"
  sy_settled :: "'v settlement list"
  sy_heard :: "'e list"

definition sys0 :: "('e, 'v) sys" where
  "sys0 = \<lparr>sy_px = new_proxy, sy_wk = new_worker, sy_down = [], sy_up = [], sy_ready = None, sy_calls = [],
     sy_outcomes = [], sy_made = [], sy_settled = [], sy_heard = []\<rparr>"

definition page_out :: "('e, 'v) sys \<Rightarrow> ('e, 'v) px_out \<Rightarrow> ('e, 'v) sys" where
  "page_out s x = (case x of
     PxPost r \<Rightarrow> s\<lparr>sy_down := sy_down s @ [r], sy_calls := sy_calls s @ [r]\<rparr>
   | PxSettle i v \<Rightarrow> s\<lparr>sy_settled := sy_settled s @ [(i, v)]\<rparr>
   | PxEvent e \<Rightarrow> s\<lparr>sy_heard := sy_heard s @ [e]\<rparr>)"

definition page_acts :: "('e, 'v) px_out list \<times> proxy \<Rightarrow> ('e, 'v) sys \<Rightarrow> ('e, 'v) sys" where
  "page_acts r s = foldl page_out (s\<lparr>sy_px := snd r\<rparr>) (fst r)"

definition posts :: "('e, 'v) wk_out list \<Rightarrow> ('e, 'v) to_page list" where
  "posts out = concat (map (\<lambda>x. case x of WkPost m \<Rightarrow> [m] | WkCall m args \<Rightarrow> []) out)"

definition calls_of :: "('e, 'v) wk_out list \<Rightarrow> (string \<times> 'v list) list" where
  "calls_of out = concat (map (\<lambda>x. case x of WkPost m \<Rightarrow> [] | WkCall m args \<Rightarrow> [(m, args)]) out)"

definition worker_acts :: "('e, 'v) wk_out list \<times> 'v worker \<Rightarrow> ('e, 'v) sys \<Rightarrow> ('e, 'v) sys" where
  "worker_acts r s = s\<lparr>sy_wk := snd r, sy_up := sy_up s @ posts (fst r), sy_made := sy_made s @ calls_of (fst r)\<rparr>"

definition sys_step :: "'v engine \<Rightarrow> ('e, 'v) sys \<Rightarrow> ('e, 'v) action \<Rightarrow> ('e, 'v) sys" where
  "sys_step N s a = (case a of
     ACall op args \<Rightarrow> page_acts (px_call None op args (sy_px s)) s
   | AListen \<Rightarrow> s\<lparr>sy_px := onEvent (sy_px s)\<rparr>
   | ADown \<Rightarrow> (case sy_down s of [] \<Rightarrow> s
       | r # rs \<Rightarrow> worker_acts (wk_onmessage N r (sy_wk s)) (s\<lparr>sy_down := rs\<rparr>))
   | AUp \<Rightarrow> (case sy_up s of [] \<Rightarrow> s | m # ms \<Rightarrow> page_acts (px_handle (Some m) (sy_px s)) (s\<lparr>sy_up := ms\<rparr>))
   | AReady failed \<Rightarrow>
       (if sy_ready s = None then worker_acts (wk_ready N failed (sy_wk s)) (s\<lparr>sy_ready := Some failed\<rparr>) else s)
   | ASettle out \<Rightarrow>
       (if wk_running (sy_wk s) = None then s
        else worker_acts (wk_settles N out (sy_wk s)) (s\<lparr>sy_outcomes := sy_outcomes s @ [out]\<rparr>))
   | APush e \<Rightarrow> s\<lparr>sy_up := sy_up s @ [worker_event e]\<rparr>)"

definition sys_run :: "'v engine \<Rightarrow> ('e, 'v) action list \<Rightarrow> ('e, 'v) sys" where
  "sys_run N as = foldl (sys_step N) sys0 as"

section \<open>The serial server\<close>

text \<open>What it answers and which calls it makes, given the outcomes of those that ended.\<close>

definition settlement :: "'v engine \<Rightarrow> nat \<Rightarrow> thrown + 'v \<Rightarrow> 'v settlement list \<times> chain_link" where
  "settlement N i out = (case out of
     Inr v \<Rightarrow> if en_cloneable N v then ([(i, Inr (Some v))], Fulfilled) else ([], Rejected (en_clone_error N))
   | Inl e \<Rightarrow> ([(i, Inl (error_text e))], Fulfilled))"

fun serve :: "'v engine \<Rightarrow> bool \<Rightarrow> chain_link \<Rightarrow> 'v worker_request list \<Rightarrow> (thrown + 'v) list \<Rightarrow> 'v settlement list \<times> (string \<times> 'v list) list" where
  "serve N c l [] outs = ([], [])"
| "serve N c Unsettled (r # rs) outs = ([], [])"
| "serve N c (Rejected e) (r # rs) outs =
     (let (a, l) = settlement N (rq_id r) (Inl e); (b, calls) = serve N c l rs outs in (a @ b, calls))"
| "serve N c Fulfilled (r # rs) outs =
     (case start_op N c r of
        Immediate out \<Rightarrow> (let (a, l) = settlement N (rq_id r) out; (b, calls) = serve N c l rs outs in (a @ b, calls))
      | Calls m args \<Rightarrow>
          (case outs of
             [] \<Rightarrow> ([], [(m, args)])
           | out # outs' \<Rightarrow>
               (let (a, l) = settlement N (rq_id r) out; (b, calls) = serve N c l rs outs' in (a @ b, (m, args) # calls))))"

definition server :: "'v engine \<Rightarrow> thrown option option \<Rightarrow> 'v worker_request list \<Rightarrow> (thrown + 'v) list \<Rightarrow> 'v settlement list \<times> (string \<times> 'v list) list" where
  "server N ready reqs outs = (case ready of
     None \<Rightarrow> ([], [])
   | Some None \<Rightarrow> serve N True Fulfilled reqs outs
   | Some (Some e) \<Rightarrow> serve N False (Rejected e) reqs outs)"

definition replies :: "('e, 'v) to_page list \<Rightarrow> 'v settlement list" where
  "replies ms = concat (map (\<lambda>m. if tp_event m = None
     then [(the (tp_id m), if tp_ok m = Some True then Inr (tp_result m) else Inl (the (tp_error m)))] else []) ms)"

lemma posts_simps [simp]:
  "posts [] = []" "posts (WkPost m # out) = m # posts out" "posts (WkCall f args # out) = posts out"
  "posts (xs @ ys) = posts xs @ posts ys"
  by (simp_all add: posts_def)

lemma calls_of_simps [simp]:
  "calls_of [] = []" "calls_of (WkPost m # out) = calls_of out" "calls_of (WkCall f args # out) = (f, args) # calls_of out"
  "calls_of (xs @ ys) = calls_of xs @ calls_of ys"
  by (simp_all add: calls_of_def)

lemma replies_simps [simp]:
  "replies [] = []" "replies (response_ok i v # ms) = (i, Inr (Some v)) # replies ms"
  "replies (response_error i t # ms) = (i, Inl t) # replies ms" "replies (worker_event e # ms) = replies ms"
  "replies (xs @ ys) = replies xs @ replies ys"
  by (simp_all add: replies_def response_ok_def response_error_def worker_event_def)

lemma answer_settlement: "wk_answer N i out = (a, l) \<Longrightarrow> settlement N i out = (replies (posts a), l) \<and> calls_of a = []"
  by (auto simp: wk_answer_def settlement_def split: sum.splits if_splits)

section \<open>The chain implements the server\<close>

text \<open>What the server still has to do from a state of the worker on.\<close>

definition rest :: "'v engine \<Rightarrow> bool \<Rightarrow> chain_link \<Rightarrow> 'v worker_request option \<Rightarrow> 'v worker_request list \<Rightarrow> (thrown + 'v) list \<Rightarrow> 'v settlement list \<times> (string \<times> 'v list) list" where
  "rest N c l run q outs = (case run of
     None \<Rightarrow> serve N c l q outs
   | Some r \<Rightarrow> (case outs of [] \<Rightarrow> ([], [])
       | out # outs' \<Rightarrow> (let (a, l') = settlement N (rq_id r) out; (b, calls) = serve N c l' q outs' in (a @ b, calls))))"

lemma serve_Unsettled [simp]: "serve N c Unsettled q outs = ([], [])"
  by (cases q) simp_all

lemma drain_serves:
  assumes "wk_drain N c l q = (out, l', run, q')"
  shows "serve N c l (q @ later) outs
    = (replies (posts out) @ fst (rest N c l' run (q' @ later) outs), calls_of out @ snd (rest N c l' run (q' @ later) outs))"
  using assms
proof (induction q arbitrary: l out)
  case Nil
  then show ?case by (auto simp: rest_def)
next
  case (Cons r q)
  have one: "serve N c l (r # q @ later) outs
      = (replies (posts out) @ fst (rest N c l' run (q' @ later) outs), calls_of out @ snd (rest N c l' run (q' @ later) outs))"
    if h: "wk_answer N (rq_id r) res = (a, l1)" "wk_drain N c l1 q = (b, l', run, q')" "out = a @ b"
      and s: "serve N c l (r # q @ later) outs = (let (a, l) = settlement N (rq_id r) res; (b, calls) = serve N c l (q @ later) outs in (a @ b, calls))"
    for res a l1 b
    using Cons.IH [OF h(2)] answer_settlement [OF h(1)] h(3) s by simp
  show ?case
  proof (cases l)
    case Unsettled
    with Cons.prems show ?thesis by (auto simp: rest_def)
  next
    case (Rejected e)
    obtain a l1 b where h: "wk_answer N (rq_id r) (Inl e) = (a, l1)" "wk_drain N c l1 q = (b, l', run, q')" "out = a @ b"
      using Cons.prems Rejected by (auto split: prod.splits)
    show ?thesis using one [OF h] Rejected by simp
  next
    case Fulfilled
    show ?thesis
    proof (cases "start_op N c r")
      case (Immediate res)
      obtain a l1 b where h: "wk_answer N (rq_id r) res = (a, l1)" "wk_drain N c l1 q = (b, l', run, q')" "out = a @ b"
        using Cons.prems Fulfilled Immediate by (auto split: prod.splits)
      show ?thesis using one [OF h] Fulfilled Immediate by simp
    next
      case (Calls f args)
      with Fulfilled Cons.prems show ?thesis by (auto simp: rest_def split: list.splits prod.splits)
    qed
  qed
qed

lemma settlement_link: "settlement N i out = (a, l) \<Longrightarrow> l \<noteq> Unsettled \<and> fst ` set a \<subseteq> {i} \<and> length a \<le> 1"
  by (auto simp: settlement_def split: sum.splits if_splits)

lemma drain_shape:
  "wk_drain N c l q = (out, l', run, q') \<Longrightarrow> l \<noteq> Unsettled \<Longrightarrow>
     (case run of None \<Rightarrow> q' = [] \<and> l' \<noteq> Unsettled | Some r \<Rightarrow> l' = Unsettled)"
proof (induction q arbitrary: l out)
  case (Cons r q)
  have link: "l1 \<noteq> Unsettled" if "wk_answer N i res = (a, l1)" for i res a l1
    using that by (auto simp: wk_answer_def split: sum.splits if_splits)
  from Cons show ?case
    by (auto split: chain_link.splits started.splits prod.splits dest: link)
qed auto

lemma ids_cons:
  assumes "settlement N i out = (a, l)" "sorted_wrt (<) (map fst b) \<and> fst ` set b \<subseteq> S" "\<forall>j \<in> S. i < j"
  shows "sorted_wrt (<) (map fst (a @ b)) \<and> fst ` set (a @ b) \<subseteq> insert i S"
proof -
  have "\<forall>x \<in> set b. i < fst x" using assms(2,3) by blast
  then show ?thesis using assms(1,2) by (auto simp: settlement_def split: sum.splits if_splits)
qed

lemma serve_ids:
  "sorted_wrt (<) (map rq_id rs) \<Longrightarrow>
     sorted_wrt (<) (map fst (fst (serve N c l rs outs))) \<and> fst ` set (fst (serve N c l rs outs)) \<subseteq> rq_id ` set rs"
proof (induction rs arbitrary: l outs)
  case (Cons r rs)
  have less: "\<forall>j \<in> rq_id ` set rs. rq_id r < j" using Cons.prems by auto
  have step: "sorted_wrt (<) (map fst (a @ fst (serve N c l rs outs)))
      \<and> fst ` set (a @ fst (serve N c l rs outs)) \<subseteq> insert (rq_id r) (rq_id ` set rs)"
    if "settlement N (rq_id r) res = (a, l)" for res a l outs
    using ids_cons [OF that Cons.IH less] Cons.prems by simp
  show ?case
  proof (cases l)
    case (Rejected e)
    obtain a l1 where a: "settlement N (rq_id r) (Inl e) = (a, l1)" by (cases "settlement N (rq_id r) (Inl e)")
    show ?thesis using step [OF a, of outs] by (simp add: Rejected a Let_def case_prod_unfold)
  next
    case Fulfilled
    show ?thesis
    proof (cases "start_op N c r")
      case (Immediate res)
      obtain a l1 where a: "settlement N (rq_id r) res = (a, l1)" by (cases "settlement N (rq_id r) res")
      show ?thesis using step [OF a, of outs] by (simp add: Fulfilled Immediate a Let_def case_prod_unfold)
    next
      case (Calls f args)
      show ?thesis
      proof (cases outs)
        case (Cons res outs')
        obtain a l1 where a: "settlement N (rq_id r) res = (a, l1)" by (cases "settlement N (rq_id r) res")
        show ?thesis using step [OF a, of outs'] by (simp add: Fulfilled Calls Cons a Let_def case_prod_unfold)
      qed (simp add: Fulfilled Calls)
    qed
  qed simp
qed simp

section \<open>Every run\<close>

definition shape :: "'v worker \<Rightarrow> bool" where
  "shape w = (case wk_running w of
     None \<Rightarrow> wk_queue w = [] \<and> wk_chain w \<noteq> Unsettled | Some r \<Rightarrow> wk_chain w = Unsettled)"

definition left :: "'v engine \<Rightarrow> 'v worker \<Rightarrow> 'v worker_request list \<Rightarrow> (thrown + 'v) list \<Rightarrow> 'v settlement list \<times> (string \<times> 'v list) list" where
  "left N w later outs = rest N (wk_controller w) (wk_chain w) (wk_running w) (wk_queue w @ later) outs"

definition serves :: "'v engine \<Rightarrow> ('e, 'v) sys \<Rightarrow> 'v worker_request list \<Rightarrow> bool" where
  "serves N s D \<longleftrightarrow>
     (\<forall>later outs. server N (sy_ready s) (D @ later) (sy_outcomes s @ outs)
        = (sy_settled s @ replies (sy_up s) @ fst (left N (sy_wk s) later outs), sy_made s @ snd (left N (sy_wk s) later outs)))"

definition started_ok :: "'v engine \<Rightarrow> ('e, 'v) sys \<Rightarrow> bool" where
  "started_ok N s \<longleftrightarrow>
     (\<exists>D. sy_calls s = D @ sy_down s \<and> serves N s D \<and>
       (case sy_ready s of
          None \<Rightarrow> sy_wk s = \<lparr>wk_chain = Unsettled, wk_queue = D, wk_running = None, wk_controller = False\<rparr> \<and> sy_outcomes s = []
        | Some failed \<Rightarrow> wk_controller (sy_wk s) = (failed = None) \<and> shape (sy_wk s)))"

definition promises_ok :: "('e, 'v) sys \<Rightarrow> bool" where
  "promises_ok s \<longleftrightarrow>
     map rq_id (sy_calls s) = [0..<px_seq (sy_px s)]
     \<and> px_pending (sy_px s) = filter (\<lambda>i. i \<notin> fst ` set (sy_settled s)) [0..<px_seq (sy_px s)]"

text \<open>What the worker posts are events and answers.\<close>

definition up_ok :: "('e, 'v) to_page list \<Rightarrow> bool" where
  "up_ok ms \<longleftrightarrow> list_all (\<lambda>m. (\<exists>e. m = worker_event e) \<or> (\<exists>i v. m = response_ok i v) \<or> (\<exists>i t. m = response_error i t)) ms"

lemma up_ok_simps [simp]: "up_ok []" "up_ok (xs @ ys) = (up_ok xs \<and> up_ok ys)" "up_ok [worker_event e]"
  by (auto simp: up_ok_def)

lemma up_ok_answer: "up_ok [response_ok i v]" "up_ok [response_error i t]"
  by (simp_all add: up_ok_def) blast+

lemma drain_up_ok: "wk_drain N c l q = (out, l', run, q') \<Longrightarrow> up_ok (posts out)"
proof (induction q arbitrary: l out)
  case (Cons r q)
  have answer: "up_ok (posts a)" if "wk_answer N i res = (a, l1)" for i res a l1
    using that by (auto simp: wk_answer_def up_ok_answer split: sum.splits if_splits)
  from Cons show ?case
    by (auto split: chain_link.splits started.splits prod.splits dest: answer)
qed auto

lemma continue_ok:
  assumes "wk_continue N w = (out, w')" "wk_chain w \<noteq> Unsettled" "wk_running w = None"
  shows "serve N (wk_controller w) (wk_chain w) (wk_queue w @ later) outs
      = (replies (posts out) @ fst (left N w' later outs), calls_of out @ snd (left N w' later outs))"
    "shape w'" "wk_controller w' = wk_controller w" "up_ok (posts out)"
proof -
  obtain l run q where d: "wk_drain N (wk_controller w) (wk_chain w) (wk_queue w) = (out, l, run, q)"
      and w': "w' = w\<lparr>wk_chain := l, wk_queue := q, wk_running := run\<rparr>"
    using assms(1,3) by (auto simp: wk_continue_def split: prod.splits if_splits)
  show "serve N (wk_controller w) (wk_chain w) (wk_queue w @ later) outs
      = (replies (posts out) @ fst (left N w' later outs), calls_of out @ snd (left N w' later outs))"
    using drain_serves [OF d] by (simp add: w' left_def)
  show "shape w'" using drain_shape [OF d assms(2)] by (simp add: w' shape_def split: option.splits)
  show "wk_controller w' = wk_controller w" by (simp add: w')
  show "up_ok (posts out)" by (rule drain_up_ok [OF d])
qed

lemma continue_waits: "wk_chain w = Unsettled \<Longrightarrow> wk_continue N w = ([], w)"
  by (cases "wk_queue w") (simp_all add: wk_continue_def)

lemma left_idle: "wk_running w = None \<Longrightarrow> left N w later outs = serve N (wk_controller w) (wk_chain w) (wk_queue w @ later) outs"
  by (simp add: left_def rest_def)

lemma worker_acts_simps [simp]:
  "sy_wk (worker_acts r s) = snd r" "sy_up (worker_acts r s) = sy_up s @ posts (fst r)"
  "sy_made (worker_acts r s) = sy_made s @ calls_of (fst r)" "sy_px (worker_acts r s) = sy_px s"
  "sy_down (worker_acts r s) = sy_down s" "sy_ready (worker_acts r s) = sy_ready s"
  "sy_calls (worker_acts r s) = sy_calls s" "sy_outcomes (worker_acts r s) = sy_outcomes s"
  "sy_settled (worker_acts r s) = sy_settled s" "sy_heard (worker_acts r s) = sy_heard s"
  by (simp_all add: worker_acts_def)

lemma delivered_ok:
  fixes s :: "('e, 'v) sys"
  assumes "started_ok N s" "up_ok (sy_up s)" "sy_down s = r # rs"
  shows "started_ok N (sys_step N s ADown) \<and> up_ok (sy_up (sys_step N s ADown))"
proof -
  obtain D where D: "sy_calls s = D @ r # rs" "serves N s D"
    and at: "case sy_ready s of
          None \<Rightarrow> sy_wk s = \<lparr>wk_chain = Unsettled, wk_queue = D, wk_running = None, wk_controller = False\<rparr> \<and> sy_outcomes s = []
        | Some failed \<Rightarrow> wk_controller (sy_wk s) = (failed = None) \<and> shape (sy_wk s)"
    using assms(1,3) by (auto simp: started_ok_def)
  let ?w = "sy_wk s\<lparr>wk_queue := wk_queue (sy_wk s) @ [r]\<rparr>"
  obtain out :: "('e, 'v) wk_out list" and w' where c: "wk_continue N ?w = (out, w')" by fastforce
  have s': "sys_step N s ADown = worker_acts (out, w') (s\<lparr>sy_down := rs\<rparr>)"
    by (simp add: sys_step_def assms(3) wk_onmessage_def c)
  have more: "left N ?w later outs = left N (sy_wk s) (r # later) outs" for later outs
    by (simp add: left_def)
  have K: "server N (sy_ready s) ((D @ [r]) @ later) (sy_outcomes s @ outs)
      = (sy_settled s @ replies (sy_up s) @ fst (left N ?w later outs), sy_made s @ snd (left N ?w later outs))" for later outs
    using D(2) unfolding serves_def more by (metis append_Cons append_Nil append_assoc)
  show ?thesis
  proof (cases "wk_chain (sy_wk s) = Unsettled")
    case True
    then have "(out, w') = ([], ?w)" unfolding c [symmetric] by (intro continue_waits) simp
    then have "out = []" "w' = ?w" by simp_all
    with True K at assms(2) D(1) show ?thesis
      unfolding s' started_ok_def
      by (intro conjI exI [of _ "D @ [r]"]) (auto simp: serves_def shape_def split: option.splits)
  next
    case False
    then obtain failed where ready: "sy_ready s = Some failed" using at by (cases "sy_ready s") auto
    then have idle: "wk_running (sy_wk s) = None" "wk_controller (sy_wk s) = (failed = None)"
      using at False by (auto simp: shape_def split: option.splits)
    have chain: "wk_chain ?w \<noteq> Unsettled" "wk_running ?w = None" using False idle by simp_all
    note go = continue_ok [OF c chain]
    have "serves N (sys_step N s ADown) (D @ [r])"
      unfolding s' serves_def using K left_idle [OF chain(2), of N] go(1) by simp
    then show ?thesis
      using go(2-4) idle(2) ready D(1) assms(2) unfolding s' started_ok_def by auto
  qed
qed

lemma ready_ok:
  fixes s :: "('e, 'v) sys"
  assumes "started_ok N s" "up_ok (sy_up s)" "sy_ready s = None"
  shows "started_ok N (sys_step N s (AReady failed)) \<and> up_ok (sy_up (sys_step N s (AReady failed)))"
proof -
  obtain D where D: "sy_calls s = D @ sy_down s" "serves N s D"
    and w: "sy_wk s = \<lparr>wk_chain = Unsettled, wk_queue = D, wk_running = None, wk_controller = False\<rparr>" and o: "sy_outcomes s = []"
    using assms(1,3) by (auto simp: started_ok_def)
  have empty: "sy_settled s = []" "replies (sy_up s) = []" "sy_made s = []"
    using D(2) assms(3) by (auto simp: serves_def server_def)
  define w0 where "w0 = (case failed of None \<Rightarrow> sy_wk s\<lparr>wk_chain := Fulfilled, wk_controller := True\<rparr>
     | Some e \<Rightarrow> sy_wk s\<lparr>wk_chain := Rejected e\<rparr>)"
  obtain out :: "('e, 'v) wk_out list" and w' where c: "wk_continue N w0 = (out, w')" by fastforce
  have s': "sys_step N s (AReady failed) = worker_acts (out, w') (s\<lparr>sy_ready := Some failed\<rparr>)"
    using assms(3) c by (simp add: sys_step_def wk_ready_def w0_def)
  have w0: "wk_chain w0 \<noteq> Unsettled" "wk_running w0 = None" "wk_queue w0 = D" "wk_controller w0 = (failed = None)"
    "serve N (wk_controller w0) (wk_chain w0) q os = server N (Some failed) q os" for q os
    by (simp_all add: w0_def w server_def split: option.splits)
  note go = continue_ok [OF c w0(1,2)]
  have "serves N (sys_step N s (AReady failed)) D"
    unfolding s' serves_def using go(1) w0 empty by (simp add: o)
  then show ?thesis
    using go(2-4) w0(4) D(1) assms(2) unfolding s' started_ok_def by auto
qed

lemma settles_ok:
  fixes s :: "('e, 'v) sys"
  assumes "started_ok N s" "up_ok (sy_up s)" "wk_running (sy_wk s) = Some r"
  shows "started_ok N (sys_step N s (ASettle res)) \<and> up_ok (sy_up (sys_step N s (ASettle res)))"
proof -
  obtain D where D: "sy_calls s = D @ sy_down s" "serves N s D"
    and at: "case sy_ready s of
          None \<Rightarrow> sy_wk s = \<lparr>wk_chain = Unsettled, wk_queue = D, wk_running = None, wk_controller = False\<rparr> \<and> sy_outcomes s = []
        | Some failed \<Rightarrow> wk_controller (sy_wk s) = (failed = None) \<and> shape (sy_wk s)"
    using assms(1) by (auto simp: started_ok_def)
  obtain failed where ready: "sy_ready s = Some failed" "wk_controller (sy_wk s) = (failed = None)"
    using at assms(3) by (cases "sy_ready s") auto
  obtain a :: "('e, 'v) wk_out list" and l where a: "wk_answer N (rq_id r) res = (a, l)" by fastforce
  let ?w = "sy_wk s\<lparr>wk_chain := l, wk_running := None\<rparr>"
  obtain out :: "('e, 'v) wk_out list" and w' where c: "wk_continue N ?w = (out, w')" by fastforce
  have s': "sys_step N s (ASettle res) = worker_acts (a @ out, w') (s\<lparr>sy_outcomes := sy_outcomes s @ [res]\<rparr>)"
    by (simp add: sys_step_def wk_settles_def assms(3) a c)
  have link: "l \<noteq> Unsettled" "up_ok (posts a)"
    using a by (auto simp: wk_answer_def up_ok_answer split: sum.splits if_splits)
  have chain: "wk_chain ?w \<noteq> Unsettled" "wk_running ?w = None" using link by simp_all
  note go = continue_ok [OF c chain]
  have "server N (sy_ready s) (D @ later) ((sy_outcomes s @ [res]) @ outs)
      = (sy_settled s @ replies (sy_up s) @ replies (posts (a @ out)) @ fst (left N w' later outs),
         sy_made s @ calls_of (a @ out) @ snd (left N w' later outs))" for later outs
  proof -
    have "left N (sy_wk s) later (res # outs)
        = (replies (posts (a @ out)) @ fst (left N w' later outs), calls_of (a @ out) @ snd (left N w' later outs))"
      using answer_settlement [OF a] go(1) by (simp add: left_def rest_def assms(3))
    then show ?thesis using D(2) unfolding serves_def by simp
  qed
  then have "serves N (sys_step N s (ASettle res)) D" unfolding s' serves_def by simp
  then show ?thesis
    using go(2-4) ready D(1) assms(2) link(2) unfolding s' started_ok_def by auto
qed

section \<open>The page's side\<close>

lemma page_acts_simps [simp]:
  "page_acts ([], p) s = s\<lparr>sy_px := p\<rparr>"
  "page_acts ([PxPost r], p) s = s\<lparr>sy_px := p, sy_down := sy_down s @ [r], sy_calls := sy_calls s @ [r]\<rparr>"
  "page_acts ([PxSettle i v], p) s = s\<lparr>sy_px := p, sy_settled := sy_settled s @ [(i, v)]\<rparr>"
  "page_acts ([PxEvent e], p) s = s\<lparr>sy_px := p, sy_heard := sy_heard s @ [e]\<rparr>"
  by (simp_all add: page_acts_def page_out_def)

lemma server_ids:
  assumes "sorted_wrt (<) (map rq_id D)"
  shows "sorted_wrt (<) (map fst (fst (server N ready D outs))) \<and> fst ` set (fst (server N ready D outs)) \<subseteq> rq_id ` set D"
  using serve_ids [OF assms] by (auto simp: server_def split: option.splits)

lemma left_over: "wk_running w \<noteq> None \<or> wk_queue w = [] \<or> wk_chain w = Unsettled \<Longrightarrow> left N w [] [] = ([], [])"
  by (auto simp: left_def rest_def split: option.splits)

text \<open>The state in one equation: what was settled or is on its way is what the server answers.\<close>

lemma started_server:
  assumes "started_ok N s"
  shows "\<exists>D. sy_calls s = D @ sy_down s
    \<and> server N (sy_ready s) D (sy_outcomes s) = (sy_settled s @ replies (sy_up s), sy_made s)"
proof -
  obtain D where D: "sy_calls s = D @ sy_down s" "serves N s D"
    and "wk_running (sy_wk s) \<noteq> None \<or> wk_queue (sy_wk s) = [] \<or> wk_chain (sy_wk s) = Unsettled"
    using assms by (auto simp: started_ok_def shape_def split: option.splits)
  then have "left N (sy_wk s) [] [] = ([], [])" by (intro left_over)
  then show ?thesis using D unfolding serves_def by (metis append_Nil2 fst_conv snd_conv)
qed

lemma started_ids:
  assumes "started_ok N s" "promises_ok s"
  shows "sorted_wrt (<) (map fst (sy_settled s @ replies (sy_up s)))"
    "fst ` set (sy_settled s @ replies (sy_up s)) \<subseteq> {..<px_seq (sy_px s)}"
proof -
  obtain D where D: "sy_calls s = D @ sy_down s"
    "server N (sy_ready s) D (sy_outcomes s) = (sy_settled s @ replies (sy_up s), sy_made s)"
    using started_server [OF assms(1)] by blast
  have ids: "map rq_id D @ map rq_id (sy_down s) = [0..<px_seq (sy_px s)]"
    using assms(2) D(1) by (simp add: promises_ok_def)
  have "sorted_wrt (<) (map rq_id D @ map rq_id (sy_down s))" unfolding ids by (rule sorted_wrt_upt)
  then have "sorted_wrt (<) (map rq_id D)" by (simp add: sorted_wrt_append)
  from server_ids [OF this, of N "sy_ready s" "sy_outcomes s"] D(2)
  show "sorted_wrt (<) (map fst (sy_settled s @ replies (sy_up s)))" by simp
  have "set (map rq_id D @ map rq_id (sy_down s)) = {..<px_seq (sy_px s)}" unfolding ids by auto
  then have "rq_id ` set D \<subseteq> {..<px_seq (sy_px s)}" by auto
  moreover have "fst ` set (sy_settled s @ replies (sy_up s)) \<subseteq> rq_id ` set D"
    using server_ids [OF \<open>sorted_wrt (<) (map rq_id D)\<close>, of N "sy_ready s" "sy_outcomes s"] D(2) by simp
  ultimately show "fst ` set (sy_settled s @ replies (sy_up s)) \<subseteq> {..<px_seq (sy_px s)}" by blast
qed

definition run_ok :: "'v engine \<Rightarrow> ('e, 'v) sys \<Rightarrow> bool" where
  "run_ok N s \<longleftrightarrow> started_ok N s \<and> promises_ok s \<and> up_ok (sy_up s)"

text \<open>A step of the page leaves the worker's part as it is.\<close>

lemma started_frame:
  assumes "started_ok N s" "sy_wk s' = sy_wk s" "sy_ready s' = sy_ready s" "sy_outcomes s' = sy_outcomes s" "sy_made s' = sy_made s"
    "sy_settled s' @ replies (sy_up s') = sy_settled s @ replies (sy_up s)"
    "sy_calls s' = sy_calls s @ rs" "sy_down s' = sy_down s @ rs"
  shows "started_ok N s'"
proof -
  have "serves N s' D = serves N s D" for D
    unfolding serves_def assms(2-5) using assms(6) by (metis append_assoc)
  then show ?thesis using assms(1) unfolding started_ok_def assms(2-4,7,8) by auto
qed

lemma call_ok:
  assumes "run_ok N s"
  shows "run_ok N (sys_step N s (ACall op args))"
proof -
  let ?r = "\<lparr>rq_id = px_seq (sy_px s), rq_op = op, rq_args = args\<rparr>"
  let ?p = "(sy_px s)\<lparr>px_seq := px_seq (sy_px s) + 1, px_pending := px_pending (sy_px s) @ [px_seq (sy_px s)]\<rparr>"
  have s': "sys_step N s (ACall op args) = s\<lparr>sy_px := ?p, sy_down := sy_down s @ [?r], sy_calls := sy_calls s @ [?r]\<rparr>"
    by (simp add: sys_step_def px_call_def Let_def)
  have "px_seq (sy_px s) \<notin> fst ` set (sy_settled s)"
    using started_ids(2) assms by (fastforce simp: run_ok_def)
  moreover have p: "started_ok N s" "promises_ok s" "up_ok (sy_up s)" using assms by (simp_all add: run_ok_def)
  ultimately have "promises_ok (sys_step N s (ACall op args))" by (simp add: s' promises_ok_def)
  moreover have "started_ok N (sys_step N s (ACall op args))" unfolding s' by (rule started_frame [OF p(1)]) simp_all
  ultimately show ?thesis using p(3) by (simp add: run_ok_def s')
qed

lemma settled_ok:
  assumes "run_ok N s" "sy_up s = m # ms" "replies [m] = [(i, v)]"
  shows "run_ok N (s\<lparr>sy_px := (sy_px s)\<lparr>px_pending := remove1 i (px_pending (sy_px s))\<rparr>, sy_up := ms,
      sy_settled := sy_settled s @ [(i, v)]\<rparr>)"
    "i \<in> set (px_pending (sy_px s))"
proof -
  have all: "replies (sy_up s) = (i, v) # replies ms"
    using assms(2,3) replies_simps(5) [of "[m]" ms] by simp
  have ids: "sorted_wrt (<) (map fst (sy_settled s @ replies (sy_up s)))" "i < px_seq (sy_px s)"
    using started_ids assms(1) all by (fastforce simp: run_ok_def)+
  then have new: "i \<notin> fst ` set (sy_settled s)"
    by (auto simp: all sorted_wrt_append)
  have p: "promises_ok s" "started_ok N s" "up_ok (sy_up s)" using assms(1) by (simp_all add: run_ok_def)
  then show "i \<in> set (px_pending (sy_px s))" using new ids(2) by (simp add: promises_ok_def)
  have P: "px_pending (sy_px s) = filter (\<lambda>j. j \<notin> fst ` set (sy_settled s)) [0..<px_seq (sy_px s)]"
    using p(1) by (simp add: promises_ok_def)
  then have "distinct (px_pending (sy_px s))" by simp
  then have "remove1 i (px_pending (sy_px s)) = filter (\<lambda>j. i \<noteq> j) (px_pending (sy_px s))"
    by (simp add: distinct_remove1_removeAll removeAll_filter_not_eq)
  also have "\<dots> = filter (\<lambda>j. j \<notin> fst ` set (sy_settled s @ [(i, v)])) [0..<px_seq (sy_px s)]"
    unfolding P filter_filter by (rule filter_cong) auto
  finally have "remove1 i (px_pending (sy_px s)) = filter (\<lambda>j. j \<notin> fst ` set (sy_settled s @ [(i, v)])) [0..<px_seq (sy_px s)]" .
  moreover have "up_ok ms" using p(3) assms(2) by (simp add: up_ok_def)
  moreover have "started_ok N (s\<lparr>sy_px := (sy_px s)\<lparr>px_pending := remove1 i (px_pending (sy_px s))\<rparr>, sy_up := ms,
      sy_settled := sy_settled s @ [(i, v)]\<rparr>)"
    by (rule started_frame [OF p(2), of _ "[]"]) (simp_all add: all)
  ultimately show "run_ok N (s\<lparr>sy_px := (sy_px s)\<lparr>px_pending := remove1 i (px_pending (sy_px s))\<rparr>, sy_up := ms,
      sy_settled := sy_settled s @ [(i, v)]\<rparr>)"
    using p(1) by (simp add: run_ok_def promises_ok_def)
qed

lemma heard_ok:
  assumes "run_ok N s" "sy_up s = m # ms"
  shows "run_ok N (sys_step N s AUp)"
proof -
  from assms have "up_ok (m # ms)" by (simp add: run_ok_def)
  then consider e where "m = worker_event e" | i v where "m = response_ok i v" | i t where "m = response_error i t"
    by (auto simp: up_ok_def)
  then show ?thesis
  proof cases
    case 1
    let ?s = "s\<lparr>sy_up := ms, sy_heard := sy_heard s @ (if px_listening (sy_px s) then [e] else [])\<rparr>"
    have "replies (sy_up s) = replies ms" "up_ok ms" using \<open>up_ok (m # ms)\<close> assms(2) 1 by (auto simp: up_ok_def)
    moreover have "started_ok N s" "promises_ok s" using assms(1) by (simp_all add: run_ok_def)
    ultimately have "run_ok N ?s" using started_frame [of N s ?s "[]"] by (simp add: run_ok_def promises_ok_def)
    moreover have "sys_step N s AUp = ?s"
      using assms(2) 1 by (simp add: sys_step_def px_handle_def isEvent_def worker_event_def)
    ultimately show ?thesis by simp
  next
    case (2 i v)
    note ok = settled_ok [OF assms, of i "Inr (Some v)"]
    have "sys_step N s AUp = s\<lparr>sy_px := (sy_px s)\<lparr>px_pending := remove1 i (px_pending (sy_px s))\<rparr>, sy_up := ms,
        sy_settled := sy_settled s @ [(i, Inr (Some v))]\<rparr>"
      using assms(2) 2 ok(2) unfolding response_ok_def
      by (simp add: sys_step_def px_handle_def isEvent_def isResponse_def Let_def replies_def)
    with ok(1) 2 show ?thesis by simp
  next
    case (3 i t)
    note ok = settled_ok [OF assms, of i "Inl t"]
    have "sys_step N s AUp = s\<lparr>sy_px := (sy_px s)\<lparr>px_pending := remove1 i (px_pending (sy_px s))\<rparr>, sy_up := ms,
        sy_settled := sy_settled s @ [(i, Inl t)]\<rparr>"
      using assms(2) 3 ok(2) unfolding response_error_def
      by (simp add: sys_step_def px_handle_def isEvent_def isResponse_def Let_def replies_def)
    with ok(1) 3 show ?thesis by simp
  qed
qed

lemma worker_promises: "promises_ok (worker_acts r s) = promises_ok s"
  by (simp add: promises_ok_def)

lemma step_ok:
  assumes "run_ok N s"
  shows "run_ok N (sys_step N s a)"
proof (cases a)
  case (ACall op args)
  with assms show ?thesis by (simp add: call_ok)
next
  case AListen
  then show ?thesis using assms started_frame [of N s "sys_step N s a" "[]"]
    by (simp add: sys_step_def onEvent_def run_ok_def promises_ok_def)
next
  case ADown
  have "promises_ok (sys_step N s ADown)" using assms
    by (auto simp: sys_step_def worker_promises run_ok_def promises_ok_def split: list.splits)
  with ADown assms show ?thesis using delivered_ok [of N s] by (cases "sy_down s") (auto simp: run_ok_def sys_step_def)
next
  case AUp
  with assms show ?thesis using heard_ok [of N s] by (cases "sy_up s") (auto simp: sys_step_def)
next
  case (AReady failed)
  have "promises_ok (sys_step N s (AReady failed))" using assms
    by (auto simp: sys_step_def worker_promises run_ok_def promises_ok_def)
  with AReady assms show ?thesis using ready_ok [of N s failed] by (cases "sy_ready s") (auto simp: run_ok_def sys_step_def)
next
  case (ASettle res)
  have "promises_ok (sys_step N s (ASettle res))" using assms
    by (auto simp: sys_step_def worker_promises run_ok_def promises_ok_def)
  with ASettle assms show ?thesis
    using settles_ok [of N s] by (cases "wk_running (sy_wk s)") (auto simp: run_ok_def sys_step_def)
next
  case (APush e)
  then show ?thesis using assms started_frame [of N s "sys_step N s a" "[]"]
    by (simp add: sys_step_def run_ok_def promises_ok_def)
qed

lemma run_ok_run: "run_ok N (sys_run N as)"
proof (induction "as" rule: rev_induct)
  case Nil
  show ?case
    by (simp add: sys_run_def sys0_def run_ok_def started_ok_def promises_ok_def new_proxy_def new_worker_def
        serves_def server_def left_def rest_def)
next
  case (snoc a "as")
  then show ?case using step_ok by (simp add: sys_run_def)
qed

section \<open>Every call is answered\<close>

definition clean :: "'v engine \<Rightarrow> thrown + 'v \<Rightarrow> bool" where
  "clean N out = (case out of Inl e \<Rightarrow> True | Inr v \<Rightarrow> en_cloneable N v)"

definition clean_action :: "'v engine \<Rightarrow> ('e, 'v) action \<Rightarrow> bool" where
  "clean_action N a = (case a of ASettle out \<Rightarrow> clean N out | _ \<Rightarrow> True)"

definition idle :: "('e, 'v) sys \<Rightarrow> bool" where
  "idle s \<longleftrightarrow> sy_down s = [] \<and> sy_up s = [] \<and> wk_running (sy_wk s) = None \<and> sy_ready s \<noteq> None"

lemma settlement_clean: "clean N out \<Longrightarrow> \<exists>v. settlement N i out = ([(i, v)], Fulfilled)"
  by (auto simp: clean_def settlement_def split: sum.splits)

lemma start_op_clean: "start_op N c r = Immediate out \<Longrightarrow> en_cloneable N (en_true N) \<Longrightarrow> clean N out"
  by (auto simp: start_op_def clean_def split: option.splits worker_op.splits if_splits)

lemma serve_all:
  "l \<noteq> Unsettled \<Longrightarrow> length rs \<le> length outs \<Longrightarrow> list_all (clean N) outs \<Longrightarrow> en_cloneable N (en_true N) \<Longrightarrow>
     map fst (fst (serve N c l rs outs)) = map rq_id rs"
proof (induction rs arbitrary: l outs)
  case (Cons r rs)
  have next_one: "map fst (a @ fst (serve N c l rs outs')) = rq_id r # map rq_id rs"
    if "settlement N (rq_id r) res = (a, l)" "clean N res" "length rs \<le> length outs'" "list_all (clean N) outs'" for res a l outs'
    using settlement_clean [OF that(2), of "rq_id r"] that Cons.IH Cons.prems(4) by auto
  show ?case
  proof (cases l)
    case (Rejected e)
    obtain a l1 where a: "settlement N (rq_id r) (Inl e) = (a, l1)" by (cases "settlement N (rq_id r) (Inl e)")
    show ?thesis using next_one [OF a, of outs] Cons.prems by (simp add: Rejected a Let_def case_prod_unfold clean_def)
  next
    case Fulfilled
    show ?thesis
    proof (cases "start_op N c r")
      case (Immediate res)
      obtain a l1 where a: "settlement N (rq_id r) res = (a, l1)" by (cases "settlement N (rq_id r) res")
      show ?thesis using next_one [OF a start_op_clean [OF Immediate], of outs] Cons.prems
        by (simp add: Fulfilled Immediate a Let_def case_prod_unfold)
    next
      case (Calls f args)
      obtain res outs' where outs: "outs = res # outs'" using Cons.prems(2) by (cases outs) auto
      obtain a l1 where a: "settlement N (rq_id r) res = (a, l1)" by (cases "settlement N (rq_id r) res")
      show ?thesis using next_one [OF a, of outs'] Cons.prems
        by (simp add: Fulfilled Calls outs a Let_def case_prod_unfold)
    qed
  qed (use Cons.prems in simp)
qed simp

lemma page_outcomes_loop: "sy_outcomes (foldl page_out s xs) = sy_outcomes s"
  by (induction xs arbitrary: s) (auto simp: page_out_def split: px_out.splits)

lemma page_outcomes: "sy_outcomes (page_acts r s) = sy_outcomes s"
  by (simp add: page_acts_def page_outcomes_loop)

lemma run_outcomes: "list_all (clean_action N) as \<Longrightarrow> list_all (clean N) (sy_outcomes (sys_run N as))"
proof (induction "as" rule: rev_induct)
  case (snoc a "as")
  from snoc show ?case
    by (cases a) (auto simp: sys_run_def sys_step_def page_outcomes clean_action_def onEvent_def split: list.splits)
qed (simp add: sys_run_def sys0_def)

lemma run_facts:
  "\<exists>D. sy_calls (sys_run N as) = D @ sy_down (sys_run N as)
     \<and> server N (sy_ready (sys_run N as)) D (sy_outcomes (sys_run N as))
       = (sy_settled (sys_run N as) @ replies (sy_up (sys_run N as)), sy_made (sys_run N as))"
  "map rq_id (sy_calls (sys_run N as)) = [0..<length (sy_calls (sys_run N as))]"
  "sorted_wrt (<) (map fst (sy_settled (sys_run N as)))"
  "px_pending (sy_px (sys_run N as)) = filter (\<lambda>i. i \<notin> fst ` set (sy_settled (sys_run N as))) [0..<length (sy_calls (sys_run N as))]"
proof -
  let ?s = "sys_run N as"
  have ok: "started_ok N ?s" "promises_ok ?s" using run_ok_run [of N "as"] by (simp_all add: run_ok_def)
  then have seq: "px_seq (sy_px ?s) = length (sy_calls ?s)"
    unfolding promises_ok_def by (metis diff_zero length_map length_upt)
  show "\<exists>D. sy_calls ?s = D @ sy_down ?s \<and> server N (sy_ready ?s) D (sy_outcomes ?s) = (sy_settled ?s @ replies (sy_up ?s), sy_made ?s)"
    by (rule started_server [OF ok(1)])
  show "map rq_id (sy_calls ?s) = [0..<length (sy_calls ?s)]"
    "px_pending (sy_px ?s) = filter (\<lambda>i. i \<notin> fst ` set (sy_settled ?s)) [0..<length (sy_calls ?s)]"
    using ok(2) by (simp_all add: promises_ok_def seq)
  show "sorted_wrt (<) (map fst (sy_settled ?s))" using started_ids(1) [OF ok] by (simp add: sorted_wrt_append)
qed

section \<open>Properties\<close>

text \<open>C27. In every interleaving of calls, messages, start-up, ends of operations and events, the page and its worker implement a server that takes the calls in order and ends each before it looks at the next: what was settled or is on its way, and the calls made, are what that server answers and makes. Ids are consecutive, each promise is settled at most once and in order of the calls, and exactly the others are pending.\<close>

theorem proxy_refines_serial_server:
  "let s = sys_run N as in
     (\<exists>D. sy_calls s = D @ sy_down s
        \<and> server N (sy_ready s) D (sy_outcomes s) = (sy_settled s @ replies (sy_up s), sy_made s))
     \<and> map rq_id (sy_calls s) = [0..<length (sy_calls s)]
     \<and> sorted_wrt (<) (map fst (sy_settled s))
     \<and> px_pending (sy_px s) = filter (\<lambda>i. i \<notin> fst ` set (sy_settled s)) [0..<length (sy_calls s)]"
  using run_facts [of N "as"] by (simp add: Let_def)

text \<open>C28. When every result can be cloned, no call is left hanging: once nothing is under way any more, every promise has been settled.\<close>

theorem idle_proxy_has_settled_every_call:
  assumes "list_all (clean_action N) as" "en_cloneable N (en_true N)" "idle (sys_run N as)"
  shows "map fst (sy_settled (sys_run N as)) = [0..<length (sy_calls (sys_run N as))] \<and> px_pending (sy_px (sys_run N as)) = []"
proof -
  let ?s = "sys_run N as"
  have ok: "started_ok N ?s" "promises_ok ?s" using run_ok_run [of N "as"] by (simp_all add: run_ok_def)
  obtain failed where at: "sy_ready ?s = Some failed" "sy_down ?s = []" "sy_up ?s = []" "wk_running (sy_wk ?s) = None"
    using assms(3) by (auto simp: idle_def)
  have D: "serves N ?s (sy_calls ?s)" "wk_queue (sy_wk ?s) = []"
    using ok(1) at by (auto simp: started_ok_def shape_def)
  let ?outs = "replicate (length (sy_calls ?s)) (Inr (en_true N))"
  have "left N (sy_wk ?s) [] ?outs = ([], [])" by (simp add: left_def rest_def at(4) D(2))
  then have "fst (server N (Some failed) (sy_calls ?s) (sy_outcomes ?s @ ?outs)) = sy_settled ?s"
    using D(1) at unfolding serves_def by (metis append_Nil2 fst_conv replies_simps(1))
  moreover have "list_all (clean N) (sy_outcomes ?s @ ?outs)"
    using run_outcomes [OF assms(1)] assms(2) by (auto simp: clean_def list_all_iff set_replicate_conv_if)
  then have "map fst (fst (server N (Some failed) (sy_calls ?s) (sy_outcomes ?s @ ?outs))) = map rq_id (sy_calls ?s)"
    using assms(2) by (auto simp: server_def split: option.splits intro!: serve_all)
  ultimately have "map fst (sy_settled ?s) = map rq_id (sy_calls ?s)" by metis
  then have all: "map fst (sy_settled ?s) = [0..<length (sy_calls ?s)]" by (simp add: run_facts(2))
  then have "fst ` set (sy_settled ?s) = {0..<length (sy_calls ?s)}" by (metis atLeastLessThan_upt list.set_map)
  then have "px_pending (sy_px ?s) = []" using run_facts(4) [of N "as"] by (simp add: filter_empty_conv)
  with all show ?thesis by blast
qed

text \<open>A run: a call before the start-up is over, one of an operation, and one of an unknown name.\<close>

definition demo_engine :: "nat engine" where
  "demo_engine = \<lparr>en_undefined = 0, en_true = 1, en_empty = 2, en_cloneable = (\<lambda>v. v < 100),
     en_clone_error = (''DataCloneError'', ''DataCloneError''), en_null_error = (\<lambda>m. (''null'', ''TypeError: null''))\<rparr>"

definition demo_run :: "(string, nat) action list" where
  "demo_run =
     [ACall ''ping'' [], ACall ''peerFor'' [7], ADown, ADown, AReady None, ACall ''nothing'' [], AListen, APush ''inbound'', AUp, AUp, ADown,
      ASettle (Inr 9), AUp, AUp]"

lemma idle_proxy_has_settled_every_call_witness:
  "map fst (sy_settled (sys_run demo_engine demo_run)) = [0..<length (sy_calls (sys_run demo_engine demo_run))]
     \<and> px_pending (sy_px (sys_run demo_engine demo_run)) = []"
proof (rule idle_proxy_has_settled_every_call)
  show "list_all (clean_action demo_engine) demo_run"
    by (simp add: demo_run_def clean_action_def clean_def demo_engine_def)
  show "en_cloneable demo_engine (en_true demo_engine)" by (simp add: demo_engine_def)
  show "idle (sys_run demo_engine demo_run)" by code_simp
qed

text \<open>A result that cannot be cloned: its own call stays pending, and the next one fails in its place without being run.\<close>

lemma uncloneable_result_fails_the_next_call:
  "let s = sys_run demo_engine ([ACall ''certEpoch'' [], ACall ''discardAccount'' [5], AReady None, ADown, ADown, ASettle (Inr 100), AUp, AUp] :: (string, nat) action list)
   in sy_settled s = [(1, Inl ''DataCloneError'')] \<and> px_pending (sy_px s) = [0] \<and> sy_made s = [(''certEpoch'', [])]"
  by code_simp

text \<open>After a failed start-up only the first call learns of the failure: a later ping says that the worker is ready.\<close>

lemma failed_start_is_reported_once:
  "let s = sys_run demo_engine ([ACall ''ping'' [], ACall ''ping'' [], ADown, AReady (Some (''no wasm'', ''Error: no wasm'')), ADown, AUp, AUp] :: (string, nat) action list)
   in sy_settled s = [(0, Inl ''no wasm''), (1, Inr (Some (en_true demo_engine)))]"
  by code_simp

section \<open>The two tables\<close>

definition op_arity :: "worker_op \<Rightarrow> nat" where
  "op_arity x = (case x of OpPing \<Rightarrow> 0 | OpDeriveAuthKey \<Rightarrow> 2 | OpController n \<Rightarrow> n)"

lemmas table_defs = proxy_methods_def account_methods_def healing_methods_def list_methods_def OPS_def

lemma tables_distinct: "distinct (map fst proxy_methods)" "distinct (map fst OPS)"
  by (simp_all add: table_defs)

lemma tables_agree: "set proxy_methods = (\<lambda>(m, x). (m, op_arity x)) ` set OPS"
  by (simp add: table_defs op_arity_def insert_commute)

lemma proxy_arity: "map_of proxy_methods m = map_option op_arity (map_of OPS m)"
proof -
  let ?ops = "map (\<lambda>(m, x). (m, op_arity x)) OPS"
  have "distinct (map fst ?ops)" using tables_distinct(2) by (simp add: comp_def case_prod_unfold)
  then have "map_of proxy_methods = map_of ?ops"
    using map_of_inject_set [OF tables_distinct(1)] tables_agree by simp
  then show ?thesis by (simp add: map_of_map)
qed

lemma op_kinds:
  "map_of OPS m = Some OpPing \<longleftrightarrow> m = ''ping''" "map_of OPS m = Some OpDeriveAuthKey \<longleftrightarrow> m = ''deriveAuthKey''"
  by (simp_all add: map_of_eq_Some_iff [OF tables_distinct(2)]) (simp_all add: OPS_def)

lemma first_bound: "first_args N n (bound_args N m n given) = bound_args N m n given"
  by (simp add: first_args_def bound_args_def cong: map_cong)

text \<open>C29. Every method of the proxy reaches the operation of its name: with the controller up the worker calls the controller's method of that name (the key derivation, for one) with exactly the parameters the page gave, defaults filled in; and the worker has no other operation.\<close>

theorem every_method_reaches_its_operation:
  "case px_invoke N m given p of
     None \<Rightarrow> map_of OPS m = None
   | Some (out, p') \<Rightarrow>
       (\<exists>n. map_of proxy_methods m = Some n
         \<and> out = [PxPost \<lparr>rq_id = px_seq p, rq_op = m, rq_args = bound_args N m n given\<rparr>]
         \<and> start_op N True \<lparr>rq_id = px_seq p, rq_op = m, rq_args = bound_args N m n given\<rparr>
           = (if m = ''ping'' then Immediate (Inr (en_true N))
              else Calls (if m = ''deriveAuthKey'' then ''deriveMasterKey'' else m) (bound_args N m n given)))"
proof (cases "map_of OPS m")
  case None
  then show ?thesis by (simp add: px_invoke_def proxy_arity)
next
  case (Some x)
  then show ?thesis
    using op_kinds [of m] first_bound [of N "op_arity x" m given]
    by (cases x) (auto simp: px_invoke_def proxy_arity px_call_def Let_def start_op_def op_arity_def)
qed

end
