(* ===== verification/LiveChannel.thy ===== *)
theory LiveChannel
  imports Session Channel
begin

text \<open>
  The two-party live channel (\<open>client/src/live.ts\<close>): one transport, one conversation object shared by all
  sessions, and the sessions by conversation id. The dependencies the worker injects are the record
  \<open>live_env\<close>; what they are asked to do is the list \<open>lc_out\<close>, and any of them may refuse. The methods are
  cut at their awaits; the storage of an inbound message is a job that is settled later.
\<close>

section \<open>Contacts\<close>

record contact =
  ct_routingKey :: string
  ct_sigKeyHex :: string

fun split_colon :: "string \<Rightarrow> string list" where
  "split_colon [] = [[]]"
| "split_colon (c # cs) = (if c = CHR '':'' then [] # split_colon cs
     else (case split_colon cs of w # ws \<Rightarrow> (c # w) # ws | [] \<Rightarrow> [[c]]))"

definition parseContact :: "string \<Rightarrow> contact result" where
  "parseContact s =
     (case split_colon (js_trim s) of
        [tag, version, routingKey, sigKeyHex] \<Rightarrow>
          if tag \<noteq> ''deaddrop'' \<or> version \<noteq> ''1'' then Inl (JsError ''that does not look like a DEAD DROP contact'')
          else if routingKey = [] \<or> sigKeyHex = [] then Inl (JsError ''that contact is incomplete'')
          else Inr \<lparr>ct_routingKey = routingKey, ct_sigKeyHex = sigKeyHex\<rparr>
      | _ \<Rightarrow> Inl (JsError ''that does not look like a DEAD DROP contact''))"

section \<open>State\<close>

record 'r active_session =
  as_session :: "'r session"
  as_make :: 'r
  as_conversationId :: string
  as_peerSigHex :: string
  as_peerLabel :: string
  as_established :: bool

datatype live_event =
    LeConnection string
  | LeError int string
  | LeOffer string string string
  | LeEstablished string
  | LeInbound string

text \<open>What the dependencies are asked to do; a transport is named by its number.\<close>

datatype 'r live_fx =
    LfSaveSelf 'r
  | LfConnect nat string
  | LfSubscribe nat string
  | LfOffer nat offer_msg
  | LfAccept nat accept_msg
  | LfPublish nat envelope_msg
  | LfAck nat bytes
  | LfStoreIn nat string string lifetime bytes
  | LfStoreOut string string lifetime bytes
  | LfSaveChannel string string string
  | LfEvent live_event

record ('r, 'w) live =
  lc_transport :: "nat option"
  lc_conv :: "'r option"
  lc_identity :: "identity option"
  lc_selfRoutingKey :: string
  lc_sessions :: "(string, 'r active_session) jsmap"
  lc_world :: 'w
  lc_out :: "'r live_fx list"
  lc_connections :: nat
  lc_jobs :: "(nat \<times> bytes \<times> string) list"
  lc_stores :: nat
  lc_accepts :: nat

record ('r, 'w) live_env =
  le_ops :: "('r, 'w) conv_ops"
  le_signatureKeyHex :: "'r \<Rightarrow> 'w \<Rightarrow> string"
  le_keyPackage :: "'r \<Rightarrow> 'w \<Rightarrow> bytes result \<times> 'w"
  le_durable :: bool
  le_refuses :: "'r live_fx \<Rightarrow> 'w \<Rightarrow> js_error option"

type_synonym ('r, 'w, 'a) live_act = "(('r, 'w) live, 'a) act"

definition new_live :: "'w \<Rightarrow> ('r, 'w) live" where
  "new_live w = \<lparr>lc_transport = None, lc_conv = None, lc_identity = None, lc_selfRoutingKey = [], lc_sessions = [],
     lc_world = w, lc_out = [], lc_connections = 0, lc_jobs = [], lc_stores = 0, lc_accepts = 0\<rparr>"

definition ask :: "('r, 'w) live_env \<Rightarrow> 'r live_fx \<Rightarrow> ('r, 'w, unit) live_act" where
  "ask E x = (\<lambda>s. case le_refuses E x (lc_world s) of
     Some e \<Rightarrow> (Inl e, s) | None \<Rightarrow> (Inr (), s\<lparr>lc_out := lc_out s @ [x]\<rparr>))"

definition pushEv :: "('r, 'w) live_env \<Rightarrow> live_event \<Rightarrow> ('r, 'w, unit) live_act" where
  "pushEv E ev = ask E (LfEvent ev)"

definition of_result :: "'a result \<Rightarrow> ('s, 'a) act" where
  "of_result r = (case r of Inl e \<Rightarrow> throw e | Inr x \<Rightarrow> ret x)"

definition requireTransport_live :: "('r, 'w, nat) live_act" where
  "requireTransport_live = bindA (readA lc_transport)
     (\<lambda>t. case t of None \<Rightarrow> throw (JsError ''connect to the gateway first'') | Some n \<Rightarrow> ret n)"

definition selfContact_live :: "('r, 'w) live \<Rightarrow> string option" where
  "selfContact_live s = map_option (\<lambda>i. formatContact (id_signatureKeyHex i)) (lc_identity s)"

definition selfFingerprint_live :: "('r, 'w) live \<Rightarrow> string" where
  "selfFingerprint_live s = (case lc_identity s of Some i \<Rightarrow> fingerprintOf (id_signatureKeyHex i) | None \<Rightarrow> ''pending'')"

section \<open>Sessions\<close>

definition newSession :: "string \<Rightarrow> ('r, 'w, 'r session \<times> 'r) live_act" where
  "newSession conversationId = bindA (readA (\<lambda>s. (lc_identity s, lc_conv s)))
     (\<lambda>(i, c). case (i, c) of
        (Some identity, Some conv) \<Rightarrow> ret (new_session identity conversationId, conv)
      | _ \<Rightarrow> throw (JsError ''connect to the gateway first''))"

text \<open>The factory of a session returns the conversation object it was created with.\<close>

definition shared_ops :: "('r, 'w) live_env \<Rightarrow> 'r \<Rightarrow> ('r, 'w) conv_ops" where
  "shared_ops E conv = (le_ops E)\<lparr>co_make := \<lambda>_ w. (conv, w)\<rparr>"

definition put_session :: "string \<Rightarrow> 'r active_session \<Rightarrow> ('r, 'w, unit) live_act" where
  "put_session cid a = modA (\<lambda>s. s\<lparr>lc_sessions := jm_set cid a (lc_sessions s)\<rparr>)"

text \<open>A method of the session of an entry: its new state stays in the entry, also when it throws.\<close>

definition on_session ::
    "string \<Rightarrow> 'r active_session \<Rightarrow> ('r session \<Rightarrow> 'w \<Rightarrow> 'a result \<times> 'r session \<times> 'w) \<Rightarrow> ('r, 'w, 'a) live_act" where
  "on_session cid a f = (\<lambda>s. case f (as_session a) (lc_world s) of
     (r, se, w) \<Rightarrow> (r, s\<lparr>lc_world := w, lc_sessions := jm_set cid (a\<lparr>as_session := se\<rparr>) (lc_sessions s)\<rparr>))"

definition establish :: "string \<Rightarrow> ('r, 'w, unit) live_act" where
  "establish cid = modA (\<lambda>s. case jm_get (lc_sessions s) cid of None \<Rightarrow> s
     | Some a \<Rightarrow> s\<lparr>lc_sessions := jm_set cid (a\<lparr>as_established := True\<rparr>) (lc_sessions s)\<rparr>)"

definition mailbox_of :: "('r, 'w) live_env \<Rightarrow> string \<Rightarrow> ('r, 'w, string) live_act" where
  "mailbox_of E cid = (\<lambda>s. case jm_get (lc_sessions s) cid of None \<Rightarrow> (Inl TypeError, s)
     | Some a \<Rightarrow> (inboundMailbox (shared_ops E (as_make a)) (as_session a) (lc_world s), s))"

text \<open>The channel row; its storage is best effort.\<close>

definition persist :: "('r, 'w) live_env \<Rightarrow> 'r active_session \<Rightarrow> ('r, 'w, unit) live_act" where
  "persist E a = catchA (ask E (LfSaveChannel (as_conversationId a) (as_peerLabel a) (fingerprintOf (as_peerSigHex a))))
     (\<lambda>_. skip)"

section \<open>Connecting\<close>

definition connect_saved_live :: "('r, 'w) live_env \<Rightarrow> string \<Rightarrow> ('r, 'w, unit) live_act" where
  "connect_saved_live E url = bindA (readA (\<lambda>s. (lc_connections s, lc_selfRoutingKey s)))
     (\<lambda>(n, key). block
       [ask E (LfConnect n url),
        modA (\<lambda>s. s\<lparr>lc_transport := Some n, lc_connections := n + 1\<rparr>),
        ask E (LfSubscribe n key),
        pushEv E (LeConnection ''live'')])"

definition connect_loaded_live :: "('r, 'w) live_env \<Rightarrow> 'r option \<Rightarrow> string \<Rightarrow> ('r, 'w, unit) live_act" where
  "connect_loaded_live E restored url = (\<lambda>s.
     let (conv, w) = (case restored of Some c \<Rightarrow> (c, lc_world s) | None \<Rightarrow> co_make (le_ops E) ''me'' (lc_world s));
         key = le_signatureKeyHex E conv w in
     case le_keyPackage E conv w of
       (Inl e, w') \<Rightarrow> (Inl e, s\<lparr>lc_world := w'\<rparr>)
     | (Inr kp, w') \<Rightarrow>
         (let s' = s\<lparr>lc_world := w', lc_conv := Some conv,
                lc_identity := Some \<lparr>id_signatureKeyHex = key, id_keyPackage = kp, id_label = ''me''\<rparr>, lc_selfRoutingKey := key\<rparr>
          in if le_durable E then ask E (LfSaveSelf conv) s' else connect_saved_live E url s'))"

section \<open>The page's operations\<close>

definition offerToContact :: "('r, 'w) live_env \<Rightarrow> string \<Rightarrow> string \<Rightarrow> ('r, 'w, string \<times> string \<times> string) live_act" where
  "offerToContact E conversationId contactStr =
     bindA (of_result (parseContact contactStr)) (\<lambda>c.
     bindA requireTransport_live (\<lambda>t.
     bindA (newSession conversationId) (\<lambda>(se, conv).
       case makeOffer (ct_routingKey c) se of
         (Inl e, _) \<Rightarrow> throw e
       | (Inr offer, se') \<Rightarrow>
           bindA (ask E (LfOffer t offer)) (\<lambda>_.
           bindA (put_session conversationId
             \<lparr>as_session = se', as_make = conv, as_conversationId = conversationId, as_peerSigHex = ct_sigKeyHex c,
              as_peerLabel = shortName (ct_sigKeyHex c), as_established = False\<rparr>) (\<lambda>_.
           ret (shortName (ct_sigKeyHex c), fingerprintOf (ct_sigKeyHex c), conversationId))))))"

definition acceptKeyExchange_live :: "('r, 'w) live_env \<Rightarrow> string \<Rightarrow> ('r, 'w, unit) live_act" where
  "acceptKeyExchange_live E cid =
     bindA (readA (\<lambda>s. jm_get (lc_sessions s) cid)) (\<lambda>x. case x of
       None \<Rightarrow> throw (JsError ''no pending offer for this channel'')
     | Some a \<Rightarrow>
         bindA requireTransport_live (\<lambda>t.
         bindA (on_session cid a (acceptOffer (shared_ops E (as_make a)) (as_peerSigHex a))) (\<lambda>acc.
         bindA (ask E (LfAccept t acc)) (\<lambda>_.
         bindA (mailbox_of E cid) (\<lambda>m.
           block [ask E (LfSubscribe t m), establish cid, persist E a,
                  modA (\<lambda>s. s\<lparr>lc_accepts := lc_accepts s + 1\<rparr>)])))))"

text \<open>The row was stored, or its storage failed: the same.\<close>

definition accept_persisted :: "('r, 'w) live_env \<Rightarrow> ('r, 'w, unit) live_act" where
  "accept_persisted E = bindA (readA lc_accepts) (\<lambda>n. whenA (0 < n)
     (block [modA (\<lambda>s. s\<lparr>lc_accepts := n - 1\<rparr>), pushEv E (LeConnection ''secure'')]))"

definition sendMessage_live :: "('r, 'w) live_env \<Rightarrow> bytes \<Rightarrow> string \<Rightarrow> string \<Rightarrow> ('r, 'w, unit) live_act" where
  "sendMessage_live E rnd cid t =
     bindA (readA (\<lambda>s. jm_get (lc_sessions s) cid)) (\<lambda>x.
       case x of
         None \<Rightarrow> throw (JsError ''this channel is not open yet'')
       | Some a \<Rightarrow>
           if \<not> as_established a then throw (JsError ''this channel is not open yet'')
           else
             bindA (on_session cid a (\<lambda>se w. let (r, w') =
                 Session.sendMessage (shared_ops E (as_make a)) rnd (TextEncoder_encode t) None None se w in (r, se, w'))) (\<lambda>env.
             bindA requireTransport_live (\<lambda>n. block
               [ask E (LfPublish n env),
                ask E (LfStoreOut (bytesToHex (ev_messageId env)) cid (se_defaultLifetime (as_session a)) (TextEncoder_encode t))])))"

section \<open>The handlers of the transport\<close>

definition report :: "('r, 'w) live_env \<Rightarrow> js_error \<Rightarrow> ('r, 'w, unit) live_act" where
  "report E e = pushEv E (LeError (- 1) (errMsg e))"

definition onOffer_live :: "('r, 'w) live_env \<Rightarrow> offer_msg \<Rightarrow> ('r, 'w, unit) live_act" where
  "onOffer_live E offer =
     (let cid = of_conversationId offer; peer = bytesToHex (of_fromSignatureKey offer) in
      bindA (newSession cid) (\<lambda>(se, conv).
        case onOfferReceived offer se of
          (Inl e, _) \<Rightarrow> report E e
        | (Inr _, se') \<Rightarrow> block
            [put_session cid \<lparr>as_session = se', as_make = conv, as_conversationId = cid, as_peerSigHex = peer,
               as_peerLabel = shortName peer, as_established = False\<rparr>,
             pushEv E (LeOffer cid (shortName peer) (fingerprintOf peer))]))"

definition onAccept_live :: "('r, 'w) live_env \<Rightarrow> accept_msg \<Rightarrow> ('r, 'w, unit) live_act" where
  "onAccept_live E acc =
     (let cid = ac_conversationId acc in
      bindA (readA (\<lambda>s. jm_get (lc_sessions s) cid)) (\<lambda>x. case x of
        None \<Rightarrow> skip
      | Some a \<Rightarrow>
          if bytesToHex (ac_fromSignatureKey acc) \<noteq> as_peerSigHex a
          then pushEv E (LeError (- 1) ''peer key did not match the contact you used'')
          else
            bindA (catchA (bindA (on_session cid a (onAcceptReceived (shared_ops E (as_make a)) acc)) (\<lambda>_. ret True))
                (\<lambda>e. bindA (report E e) (\<lambda>_. ret False)))
              (\<lambda>ok. whenA ok
                (bindA requireTransport_live (\<lambda>t.
                 bindA (mailbox_of E cid) (\<lambda>m. block
                   [ask E (LfSubscribe t m), establish cid, persist E a, pushEv E (LeConnection ''secure''),
                    pushEv E (LeEstablished (as_conversationId a))]))))))"

text \<open>A message goes to the first established session.\<close>

definition onDeliver_live :: "('r, 'w) live_env \<Rightarrow> envelope_msg \<Rightarrow> ('r, 'w, unit) live_act" where
  "onDeliver_live E env =
     bindA (readA (\<lambda>s. find (\<lambda>(cid, a). as_established a) (lc_sessions s))) (\<lambda>x. case x of
       None \<Rightarrow> skip
     | Some (cid, a) \<Rightarrow>
         bindA (catchA (bindA (on_session cid a (receiveMessage (shared_ops E (as_make a)) env)) (\<lambda>f. ret (Some f)))
             (\<lambda>e. bindA (report E e) (\<lambda>_. ret None)))
           (\<lambda>f. case f of
              None \<Rightarrow> skip
            | Some (Incoming (Message plaintext l)) \<Rightarrow>
                bindA (readA lc_stores) (\<lambda>j. block
                  [modA (\<lambda>s. s\<lparr>lc_stores := j + 1, lc_jobs := lc_jobs s @ [(j, ev_messageId env, as_conversationId a)]\<rparr>),
                   ask E (LfStoreIn j (bytesToHex (ev_messageId env)) (as_conversationId a) l plaintext)])
            | Some _ \<Rightarrow> bindA requireTransport_live (\<lambda>t. ask E (LfAck t (ev_messageId env)))))"

text \<open>The end of the storage of an inbound message.\<close>

definition stored_live :: "('r, 'w) live_env \<Rightarrow> nat \<Rightarrow> js_error option \<Rightarrow> ('r, 'w, unit) live_act" where
  "stored_live E j failed =
     bindA (readA (\<lambda>s. map_of (lc_jobs s) j)) (\<lambda>x. case x of
       None \<Rightarrow> skip
     | Some (mid, cid) \<Rightarrow>
         bindA (modA (\<lambda>s. s\<lparr>lc_jobs := filter (\<lambda>(i, _). i \<noteq> j) (lc_jobs s)\<rparr>)) (\<lambda>_.
         catchA
           (case failed of
              Some e \<Rightarrow> throw e
            | None \<Rightarrow> bindA requireTransport_live (\<lambda>t. block [ask E (LfAck t mid), pushEv E (LeInbound cid)]))
           (report E)))"

section \<open>Runs\<close>

datatype 'r live_action =
    LaLoaded "'r option" string
  | LaSaved string
  | LaOffer string string
  | LaAccept string
  | LaPersisted
  | LaSend bytes string string
  | LaOnOffer offer_msg
  | LaOnAccept accept_msg
  | LaOnDeliver envelope_msg
  | LaOnError int string
  | LaOnClose
  | LaStored nat "js_error option"

definition live_step :: "('r, 'w) live_env \<Rightarrow> 'r live_action \<Rightarrow> ('r, 'w) live \<Rightarrow> ('r, 'w) live" where
  "live_step E a s = (case a of
     LaLoaded restored url \<Rightarrow> final (connect_loaded_live E restored url) s
   | LaSaved url \<Rightarrow> final (connect_saved_live E url) s
   | LaOffer cid c \<Rightarrow> final (offerToContact E cid c) s
   | LaAccept cid \<Rightarrow> final (acceptKeyExchange_live E cid) s
   | LaPersisted \<Rightarrow> final (accept_persisted E) s
   | LaSend rnd cid t \<Rightarrow> final (sendMessage_live E rnd cid t) s
   | LaOnOffer offer \<Rightarrow> final (onOffer_live E offer) s
   | LaOnAccept acc \<Rightarrow> final (onAccept_live E acc) s
   | LaOnDeliver env \<Rightarrow> final (onDeliver_live E env) s
   | LaOnError code detail \<Rightarrow> final (pushEv E (LeError code detail)) s
   | LaOnClose \<Rightarrow> final (pushEv E (LeConnection ''offline'')) s
   | LaStored j failed \<Rightarrow> final (stored_live E j failed) s)"

definition live_run :: "('r, 'w) live_env \<Rightarrow> 'r live_action list \<Rightarrow> ('r, 'w) live \<Rightarrow> ('r, 'w) live" where
  "live_run E as s = foldl (\<lambda>s a. live_step E a s) s as"

end
