(* ===== verification/LiveProps.thy ===== *)
theory LiveProps
  imports LiveChannel
begin

text \<open>Which keys the sessions of the live channel are pinned to, and when an inbound message is acknowledged.\<close>

section \<open>Sessions stay pinned\<close>

definition hs_pinned :: "string \<Rightarrow> string \<Rightarrow> handshake_state \<Rightarrow> bool" where
  "hs_pinned cid key h = (case h of
     handshake_state.Idle \<Rightarrow> True | OfferSent c \<Rightarrow> c = cid | OfferReceived c k \<Rightarrow> c = cid \<and> k = key
   | Established c k \<Rightarrow> c = cid \<and> k = key | Blocked c \<Rightarrow> c = cid)"

definition hs_closed :: "handshake_state \<Rightarrow> bool" where
  "hs_closed h = (case h of Established c k \<Rightarrow> True | Blocked c \<Rightarrow> True | _ \<Rightarrow> False)"

definition entry_ok :: "string \<times> 'r active_session \<Rightarrow> bool" where
  "entry_ok x = (case x of (cid, a) \<Rightarrow>
     as_conversationId a = cid \<and> se_conversationId (as_session a) = cid
     \<and> hs_pinned cid (as_peerSigHex a) (se_handshake (as_session a))
     \<and> (as_established a \<longrightarrow> hs_closed (se_handshake (as_session a))))"

definition sessions_ok :: "('r, 'w) live \<Rightarrow> bool" where
  "sessions_ok s \<longleftrightarrow> list_all entry_ok (lc_sessions s)"

lemmas hs_defs = hs_pinned_def hs_closed_def observePeerKey_def canSendMessage_def

lemma observe_pinned: "hs_pinned cid key h \<Longrightarrow> hs_pinned cid key (observePeerKey k h)"
  by (cases h) (simp_all add: hs_defs)

lemma observe_closed: "hs_closed h \<Longrightarrow> hs_closed (observePeerKey k h)"
  by (cases h) (simp_all add: hs_defs)

lemma canSend_closed: "canSendMessage h \<Longrightarrow> hs_closed h"
  by (cases h) (simp_all add: hs_defs)

text \<open>What each method of a session does to it, whatever the conversation object answers.\<close>

definition session_keeps :: "string \<Rightarrow> string \<Rightarrow> 'r session \<Rightarrow> 'r session \<Rightarrow> bool" where
  "session_keeps cid key s s' \<longleftrightarrow>
     se_conversationId s' = se_conversationId s
     \<and> (hs_pinned cid key (se_handshake s) \<longrightarrow> hs_pinned cid key (se_handshake s'))
     \<and> (hs_closed (se_handshake s) \<longrightarrow> hs_closed (se_handshake s'))"

lemma keeps_refl [simp]: "session_keeps cid key s s"
  by (simp add: session_keeps_def)

lemma keeps_conv [simp]: "session_keeps cid key s (s\<lparr>se_conv := c\<rparr>)"
  by (simp add: session_keeps_def)

lemma keeps_trans: "session_keeps cid key s t \<Longrightarrow> session_keeps cid key t u \<Longrightarrow> session_keeps cid key s u"
  by (simp add: session_keeps_def)

lemma keeps_observe: "session_keeps cid key s (s\<lparr>se_handshake := observePeerKey k (se_handshake s)\<rparr>)"
  by (simp add: session_keeps_def observe_pinned observe_closed)

lemma crossCheck_keeps: "session_keeps cid key s (snd (crossCheckPeerKey ops conv s w))"
  by (auto simp: crossCheckPeerKey_def Let_def keeps_observe split: sum.splits)

lemma crossCheck_sends: "crossCheckPeerKey ops conv s w = (Inr x, s') \<Longrightarrow> hs_closed (se_handshake s')"
  by (auto simp: crossCheckPeerKey_def Let_def canSend_closed split: sum.splits if_splits)

text \<open>Both accepts install the conversation object, close the handshake and check the key.\<close>

lemma closing_keeps:
  assumes "hs_pinned cid key (se_handshake s) \<longrightarrow> hs_pinned cid key h" "hs_closed h"
  shows "session_keeps cid key s (snd (crossCheckPeerKey ops conv (s\<lparr>se_conv := c, se_handshake := h\<rparr>) w))"
  by (rule keeps_trans [OF _ crossCheck_keeps]) (use assms in \<open>simp add: session_keeps_def\<close>)

lemma accept_closes: "accept h = Inr h' \<Longrightarrow> (hs_pinned cid key h \<longrightarrow> hs_pinned cid key h') \<and> hs_closed h'"
  by (auto simp: accept_def hs_defs split: handshake_state.splits)

lemma receiveAccept_closes: "receiveAccept key h = Inr h' \<Longrightarrow> (hs_pinned cid key h \<longrightarrow> hs_pinned cid key h') \<and> hs_closed h'"
  by (auto simp: receiveAccept_def hs_defs split: handshake_state.splits)

lemma acceptOffer_keeps:
  assumes "acceptOffer ops k s w = (r, s', w')"
  shows "session_keeps cid key s s'" "r = Inr x \<Longrightarrow> hs_closed (se_handshake s')"
proof -
  have close: "session_keeps cid key s s2"
    if "accept (se_handshake s) = Inr h" "crossCheckPeerKey ops conv (s\<lparr>se_conv := c, se_handshake := h\<rparr>) w2 = (r2, s2)" for h conv c w2 r2 s2
    using closing_keeps [of cid key s h ops conv c w2] accept_closes [OF that(1)] that(2) by simp
  show "session_keeps cid key s s'"
    using assms close
    by (auto simp: acceptOffer_def Let_def split: option.splits prod.splits sum.splits)
  show "r = Inr x \<Longrightarrow> hs_closed (se_handshake s')"
    using assms
    by (auto simp: acceptOffer_def Let_def split: option.splits prod.splits sum.splits dest: crossCheck_sends)
qed

lemma onAcceptReceived_keeps:
  assumes "onAcceptReceived ops acc s w = (r, s', w')" "bytesToHex (ac_fromSignatureKey acc) = key"
  shows "session_keeps cid key s s'" "r = Inr x \<Longrightarrow> hs_closed (se_handshake s')"
proof -
  have close: "session_keeps cid key s s2"
    if "receiveAccept key (se_handshake s) = Inr h" "crossCheckPeerKey ops conv (s\<lparr>se_conv := c, se_handshake := h\<rparr>) w2 = (r2, s2)" for h conv c w2 r2 s2
    using closing_keeps [of cid key s h ops conv c w2] receiveAccept_closes [OF that(1)] that(2) by simp
  show "session_keeps cid key s s'"
    using assms close
    by (auto simp: onAcceptReceived_def Let_def split: option.splits prod.splits sum.splits if_splits)
  show "r = Inr x \<Longrightarrow> hs_closed (se_handshake s')"
    using assms
    by (auto simp: onAcceptReceived_def Let_def split: option.splits prod.splits sum.splits if_splits dest: crossCheck_sends)
qed

lemma receiveMessage_keeps: "receiveMessage ops env s w = (r, s', w') \<Longrightarrow> session_keeps cid key s s'"
  by (auto simp: receiveMessage_def Let_def keeps_observe split: sum.splits prod.splits if_splits)

section \<open>Actions that leave the sessions alone\<close>

definition keeps :: "('r, 'w, 'a) live_act \<Rightarrow> bool" where
  "keeps m \<longleftrightarrow> (\<forall>s. lc_sessions (snd (m s)) = lc_sessions s)"

lemma keeps_basic [intro]:
  "keeps (ask E x)" "keeps (pushEv E ev)" "keeps (report E e)" "keeps requireTransport_live" "keeps (mailbox_of E cid)"
  "keeps (readA f)" "keeps (ret x)" "keeps (throw e)" "keeps skip" "keeps (of_result r)"
  by (auto simp: keeps_def ask_def pushEv_def report_def requireTransport_live_def mailbox_of_def of_result_def act_simps
      split: option.splits sum.splits)

lemma keeps_bind [intro]: "keeps m \<Longrightarrow> (\<And>x. keeps (f x)) \<Longrightarrow> keeps (bindA m f)"
  by (auto simp: keeps_def bindA_def split: prod.splits sum.splits) (metis snd_conv)+

lemma keeps_catch [intro]: "keeps m \<Longrightarrow> (\<And>e. keeps (h e)) \<Longrightarrow> keeps (catchA m h)"
  by (auto simp: keeps_def catchA_def split: prod.splits sum.splits) (metis snd_conv)+

lemma keeps_block [intro]: "(\<And>m. m \<in> set ms \<Longrightarrow> keeps m) \<Longrightarrow> keeps (block ms)"
  by (induction ms) auto

lemma keeps_when [intro]: "keeps m \<Longrightarrow> keeps (whenA b m)"
  by (auto simp: whenA_def)

lemma keeps_persist [intro]: "keeps (persist E a)"
  by (auto simp: persist_def)

lemma keeps_mod: "(\<And>s. lc_sessions (f s) = lc_sessions s) \<Longrightarrow> keeps (modA f)"
  by (simp add: keeps_def modA_def)

lemma keeps_ok: "keeps m \<Longrightarrow> sessions_ok s \<Longrightarrow> sessions_ok (snd (m s))"
  by (simp add: keeps_def sessions_ok_def)

lemma after_keeps:
  assumes "keeps m" "sessions_ok s" "\<And>x t. lc_sessions t = lc_sessions s \<Longrightarrow> sessions_ok (snd (f x t))"
  shows "sessions_ok (snd (bindA m f s))"
proof (cases "m s")
  case (Pair r t)
  then have "lc_sessions t = lc_sessions s" using assms(1) by (auto simp: keeps_def dest: spec [of _ s])
  with assms(2,3) Pair show ?thesis by (auto simp: bindA_def sessions_ok_def split: sum.splits)
qed

section \<open>Changes of the sessions\<close>

lemma sessions_ok_set: "list_all entry_ok m \<Longrightarrow> entry_ok (cid, a) \<Longrightarrow> list_all entry_ok (jm_set cid a m)"
  by (induction m) auto

lemma sessions_ok_get: "list_all entry_ok m \<Longrightarrow> jm_get m cid = Some a \<Longrightarrow> entry_ok (cid, a)"
  by (auto simp: list_all_iff dest: map_of_SomeD)

lemma sessions_ok_eq: "lc_sessions t = lc_sessions s \<Longrightarrow> sessions_ok t = sessions_ok s"
  by (simp add: sessions_ok_def)

lemma put_session_ok: "sessions_ok s \<Longrightarrow> entry_ok (cid, a) \<Longrightarrow> sessions_ok (snd (put_session cid a s))"
  by (simp add: put_session_def modA_def sessions_ok_def sessions_ok_set)

text \<open>A method of a session that keeps it pinned, and what may follow it.\<close>

lemma on_session_ok:
  assumes "sessions_ok s" "entry_ok (cid, a)"
    "\<And>r se w w'. f (as_session a) w = (r, se, w') \<Longrightarrow> session_keeps cid (as_peerSigHex a) (as_session a) se"
  shows "sessions_ok (snd (on_session cid a f s))"
    "jm_get (lc_sessions (snd (on_session cid a f s))) cid = Some (a\<lparr>as_session := fst (snd (f (as_session a) (lc_world s)))\<rparr>)"
proof -
  obtain r se w' where f: "f (as_session a) (lc_world s) = (r, se, w')" by (cases "f (as_session a) (lc_world s)")
  have "entry_ok (cid, a\<lparr>as_session := se\<rparr>)"
    using assms(2) assms(3) [OF f] by (auto simp: entry_ok_def session_keeps_def)
  then show "sessions_ok (snd (on_session cid a f s))"
    using assms(1) by (simp add: on_session_def f sessions_ok_def sessions_ok_set)
  show "jm_get (lc_sessions (snd (on_session cid a f s))) cid = Some (a\<lparr>as_session := fst (snd (f (as_session a) (lc_world s)))\<rparr>)"
    by (simp add: on_session_def f jsmap_simps)
qed

text \<open>A statement sequence that establishes a closed session.\<close>

definition closed_at :: "string \<Rightarrow> ('r, 'w) live \<Rightarrow> bool" where
  "closed_at cid s \<longleftrightarrow> (case jm_get (lc_sessions s) cid of None \<Rightarrow> True | Some a \<Rightarrow> hs_closed (se_handshake (as_session a)))"

lemma establish_ok:
  assumes "sessions_ok s" "closed_at cid s"
  shows "sessions_ok (snd (establish cid s))"
proof (cases "jm_get (lc_sessions s) cid")
  case None
  with assms show ?thesis by (simp add: establish_def modA_def)
next
  case (Some a)
  with assms have "entry_ok (cid, a)" "hs_closed (se_handshake (as_session a))"
    by (auto simp: sessions_ok_def closed_at_def intro: sessions_ok_get)
  then have "entry_ok (cid, a\<lparr>as_established := True\<rparr>)" by (simp add: entry_ok_def)
  with assms Some show ?thesis by (simp add: establish_def modA_def sessions_ok_def sessions_ok_set)
qed

lemma live_bind_ok:
  assumes "sessions_ok (snd (m s))" "\<And>x t. m s = (Inr x, t) \<Longrightarrow> sessions_ok (snd (f x t))"
  shows "sessions_ok (snd (bindA m f s))"
  using assms by (cases "m s") (auto simp: bindA_def split: sum.splits)

lemma establish_block_ok:
  assumes "sessions_ok s" "closed_at cid s" "keeps m" "\<And>x. x \<in> set ms \<Longrightarrow> keeps x"
  shows "sessions_ok (snd (block (m # establish cid # ms) s))"
proof -
  have "sessions_ok (snd (block (establish cid # ms) t))" if "lc_sessions t = lc_sessions s" for t
  proof -
    have "sessions_ok t" "closed_at cid t" using assms(1,2) that by (simp_all add: sessions_ok_def closed_at_def)
    then have ok: "sessions_ok (snd (establish cid t))" by (rule establish_ok)
    have "keeps (block ms)" using assms(4) by (rule keeps_block)
    with ok show ?thesis unfolding block.simps by (intro live_bind_ok) (auto intro!: keeps_ok)
  qed
  then show ?thesis using assms(1,3) by (auto intro: after_keeps)
qed

section \<open>Every action\<close>

lemma connect_saved_ok: "keeps (connect_saved_live E url)"
  unfolding connect_saved_live_def by (intro keeps_bind) (auto split: prod.splits intro!: keeps_bind keeps_mod)

lemma connect_loaded_ok: "lc_sessions (snd (connect_loaded_live E restored url s)) = lc_sessions s"
  using connect_saved_ok [of E url]
  by (auto simp: connect_loaded_live_def keeps_def ask_def Let_def split: prod.splits sum.splits option.splits)

lemma bind_keeps_ok: "sessions_ok (snd (m s)) \<Longrightarrow> (\<And>x. keeps (f x)) \<Longrightarrow> sessions_ok (snd (bindA m f s))"
  by (rule live_bind_ok) (auto intro: keeps_ok)

lemma read_ok: "sessions_ok (snd (f (g s) s)) \<Longrightarrow> sessions_ok (snd (bindA (readA g) f s))"
  by (simp add: bindA_def readA_def)

lemma transport_ok:
  "sessions_ok s \<Longrightarrow> (\<And>n. sessions_ok (snd (f n s))) \<Longrightarrow> sessions_ok (snd (bindA requireTransport_live f s))"
  by (auto simp: requireTransport_live_def act_simps split: option.splits)

lemma newSession_ok:
  assumes "sessions_ok s" "\<And>identity conv. sessions_ok (snd (f (new_session identity cid, conv) s))"
  shows "sessions_ok (snd (bindA (newSession cid) f s))"
  using assms by (auto simp: newSession_def act_simps split: option.splits)

lemma offerToContact_ok: "sessions_ok s \<Longrightarrow> sessions_ok (snd (offerToContact E cid c s))"
proof -
  assume ok: "sessions_ok s"
  have entry: "entry_ok (cid, \<lparr>as_session = se', as_make = conv, as_conversationId = cid, as_peerSigHex = key,
      as_peerLabel = l, as_established = False\<rparr>)"
    if "makeOffer k (new_session identity cid) = (Inr offer, se')" for k identity offer se' conv key l
    using that by (auto simp: makeOffer_def new_session_def sendOffer_def requireKind_def state_kind_def entry_ok_def hs_defs
        split: sum.splits if_splits)
  show ?thesis
    unfolding offerToContact_def
  proof (intro after_keeps [OF _ ok])
    fix c :: contact and t :: "('a, 'b) live"
    assume "lc_sessions t = lc_sessions s"
    then have t: "sessions_ok t" using ok by (simp add: sessions_ok_def)
    have put: "sessions_ok (snd (bindA (ask E x) (\<lambda>_. bindA (put_session cid a) (\<lambda>_. ret y)) t))"
      if "entry_ok (cid, a)" for x a and y :: "string \<times> string \<times> string"
    proof (intro after_keeps [OF _ t])
      fix u :: "('a, 'b) live" assume "lc_sessions u = lc_sessions t"
      then have "sessions_ok u" using t by (simp add: sessions_ok_def)
      then show "sessions_ok (snd (bindA (put_session cid a) (\<lambda>_. ret y) u))"
        using put_session_ok [OF _ that] by (intro live_bind_ok) (auto simp: ret_def put_session_def modA_def)
    qed auto
    show "sessions_ok (snd (bindA requireTransport_live (\<lambda>n. bindA (newSession cid) (\<lambda>(se, conv).
       case makeOffer (ct_routingKey c) se of
         (Inl e, _) \<Rightarrow> throw e
       | (Inr offer, se') \<Rightarrow>
           bindA (ask E (LfOffer n offer)) (\<lambda>_.
           bindA (put_session cid
             \<lparr>as_session = se', as_make = conv, as_conversationId = cid, as_peerSigHex = ct_sigKeyHex c,
              as_peerLabel = shortName (ct_sigKeyHex c), as_established = False\<rparr>) (\<lambda>_.
           ret (shortName (ct_sigKeyHex c), fingerprintOf (ct_sigKeyHex c), cid))))) t))"
      by (intro transport_ok t newSession_ok) (auto simp: throw_def t intro!: put entry split: prod.splits sum.splits)
  qed auto
qed

lemma accept_persisted_ok: "keeps (accept_persisted E)"
  unfolding accept_persisted_def by (auto intro!: keeps_bind keeps_mod keeps_when)

lemma acceptKeyExchange_ok:
  assumes ok: "sessions_ok s"
  shows "sessions_ok (snd (acceptKeyExchange_live E cid s))"
  unfolding acceptKeyExchange_live_def
proof (rule read_ok)
  show "sessions_ok (snd ((case jm_get (lc_sessions s) cid of
       None \<Rightarrow> throw (JsError ''no pending offer for this channel'')
     | Some a \<Rightarrow>
         bindA requireTransport_live (\<lambda>t.
         bindA (on_session cid a (acceptOffer (shared_ops E (as_make a)) (as_peerSigHex a))) (\<lambda>acc.
         bindA (ask E (LfAccept t acc)) (\<lambda>_.
         bindA (mailbox_of E cid) (\<lambda>m.
           block [ask E (LfSubscribe t m), establish cid, persist E a,
                  modA (\<lambda>s. s\<lparr>lc_accepts := lc_accepts s + 1\<rparr>)]))))) s))"
  proof (cases "jm_get (lc_sessions s) cid")
    case (Some a)
    then have a: "entry_ok (cid, a)" using ok by (auto simp: sessions_ok_def intro: sessions_ok_get)
    let ?f = "acceptOffer (shared_ops E (as_make a)) (as_peerSigHex a)"
    have on1: "sessions_ok (snd (on_session cid a ?f s))"
      by (rule on_session_ok(1) [OF ok a]) (rule acceptOffer_keeps(1))
    have on2: "jm_get (lc_sessions (snd (on_session cid a ?f s))) cid = Some (a\<lparr>as_session := fst (snd (?f (as_session a) (lc_world s)))\<rparr>)"
      by (rule on_session_ok(2) [OF ok a]) (rule acceptOffer_keeps(1))
    have "sessions_ok (snd (bindA (on_session cid a ?f) (\<lambda>acc.
         bindA (ask E (LfAccept n acc)) (\<lambda>_.
         bindA (mailbox_of E cid) (\<lambda>m.
           block [ask E (LfSubscribe n m), establish cid, persist E a,
                  modA (\<lambda>s. s\<lparr>lc_accepts := lc_accepts s + 1\<rparr>)]))) s))" for n
    proof (rule live_bind_ok, rule on1)
      fix acc t assume t: "on_session cid a ?f s = (Inr acc, t)"
      obtain r se w' where f: "?f (as_session a) (lc_world s) = (r, se, w')" by (cases "?f (as_session a) (lc_world s)")
      then have "hs_closed (se_handshake se)" using t acceptOffer_keeps(2) [OF f] by (auto simp: on_session_def)
      then have ct: "closed_at cid t" using on2 by (simp add: closed_at_def t f)
      have okt: "sessions_ok t" using on1 by (simp add: t)
      show "sessions_ok (snd (bindA (ask E (LfAccept n acc)) (\<lambda>_. bindA (mailbox_of E cid) (\<lambda>m.
           block [ask E (LfSubscribe n m), establish cid, persist E a,
                  modA (\<lambda>s. s\<lparr>lc_accepts := lc_accepts s + 1\<rparr>)])) t))"
      proof (intro after_keeps okt)
        fix u v :: "('a, 'b) live" and m
        assume u: "lc_sessions u = lc_sessions t"
        then show "sessions_ok u" using okt by (simp add: sessions_ok_def)
        assume "lc_sessions v = lc_sessions u"
        with u have "sessions_ok v" "closed_at cid v" using okt ct by (simp_all add: sessions_ok_def closed_at_def)
        then show "sessions_ok (snd (block [ask E (LfSubscribe n m), establish cid, persist E a,
                  modA (\<lambda>s. s\<lparr>lc_accepts := lc_accepts s + 1\<rparr>)] v))"
          by (rule establish_block_ok) (auto intro: keeps_mod)
      qed auto
    qed
    then show ?thesis using Some ok by (simp add: transport_ok)
  qed (simp add: throw_def ok)
qed

lemma sendMessage_ok:
  assumes ok: "sessions_ok s"
  shows "sessions_ok (snd (sendMessage_live E rnd cid t s))"
  unfolding sendMessage_live_def
proof (rule read_ok, cases "jm_get (lc_sessions s) cid")
  case (Some a)
  then have a: "entry_ok (cid, a)" using ok by (auto simp: sessions_ok_def intro: sessions_ok_get)
  let ?f = "\<lambda>se w. let (r, w') = Session.sendMessage (shared_ops E (as_make a)) rnd (TextEncoder_encode t) None None se w in (r, se, w')"
  have "sessions_ok (snd (on_session cid a ?f s))"
    by (rule on_session_ok [OF ok a]) (auto split: prod.splits)
  moreover have "keeps (bindA requireTransport_live (\<lambda>n. block
      [ask E (LfPublish n env), ask E (LfStoreOut (bytesToHex (ev_messageId env)) cid (se_defaultLifetime (as_session a)) (TextEncoder_encode t))]))" for env
    by (intro keeps_bind keeps_block) auto
  ultimately have "sessions_ok (snd (bindA (on_session cid a ?f) (\<lambda>env. bindA requireTransport_live (\<lambda>n. block
      [ask E (LfPublish n env), ask E (LfStoreOut (bytesToHex (ev_messageId env)) cid (se_defaultLifetime (as_session a)) (TextEncoder_encode t))])) s))"
    by (rule bind_keeps_ok)
  then show "sessions_ok (snd ((case jm_get (lc_sessions s) cid of
         None \<Rightarrow> throw (JsError ''this channel is not open yet'')
       | Some a \<Rightarrow>
           if \<not> as_established a then throw (JsError ''this channel is not open yet'')
           else
             bindA (on_session cid a (\<lambda>se w. let (r, w') =
                 Session.sendMessage (shared_ops E (as_make a)) rnd (TextEncoder_encode t) None None se w in (r, se, w'))) (\<lambda>env.
             bindA requireTransport_live (\<lambda>n. block
               [ask E (LfPublish n env),
                ask E (LfStoreOut (bytesToHex (ev_messageId env)) cid (se_defaultLifetime (as_session a)) (TextEncoder_encode t))]))) s))"
    using ok Some by (simp add: throw_def)
qed (simp add: throw_def ok)

lemma onOffer_ok:
  assumes ok: "sessions_ok s"
  shows "sessions_ok (snd (onOffer_live E offer s))"
proof -
  have entry: "entry_ok (of_conversationId offer, \<lparr>as_session = se', as_make = conv, as_conversationId = of_conversationId offer,
      as_peerSigHex = bytesToHex (of_fromSignatureKey offer), as_peerLabel = l, as_established = False\<rparr>)"
    if "onOfferReceived offer (new_session identity (of_conversationId offer)) = (Inr x, se')" for identity x se' conv l
    using that by (auto simp: onOfferReceived_def new_session_def receiveOffer_def requireKind_def state_kind_def entry_ok_def hs_defs
        split: sum.splits if_splits)
  have put: "sessions_ok (snd (block [put_session cid a, pushEv E ev] s))" if "entry_ok (cid, a)" for cid a ev
    unfolding block.simps by (rule bind_keeps_ok, rule put_session_ok [OF ok that]) auto
  have rep: "sessions_ok (snd (report E e s))" for e by (rule keeps_ok [OF _ ok]) auto
  show ?thesis
    unfolding onOffer_live_def Let_def
    by (intro newSession_ok ok)
      (auto split: prod.splits sum.splits intro!: put entry rep simp del: block.simps)
qed

text \<open>\<open>try\<close> a method of a session, report what it throws, go on when it returned.\<close>

lemma tried_ok:
  assumes ok: "sessions_ok s" and a: "entry_ok (cid, a)"
    and f: "\<And>r se w w'. f (as_session a) w = (r, se, w') \<Longrightarrow> session_keeps cid (as_peerSigHex a) (as_session a) se"
    and go: "\<And>x t. on_session cid a f s = (Inr x, t) \<Longrightarrow> sessions_ok t \<Longrightarrow> sessions_ok (snd (k (g x) t))"
    and failed: "\<And>t. sessions_ok t \<Longrightarrow> sessions_ok (snd (k d t))"
  shows "sessions_ok (snd (bindA (catchA (bindA (on_session cid a f) (\<lambda>x. ret (g x))) (\<lambda>e. bindA (report E e) (\<lambda>_. ret d))) k s))"
proof -
  obtain r t where t: "on_session cid a f s = (r, t)" by fastforce
  have "sessions_ok (snd (on_session cid a f s))" by (rule on_session_ok(1) [OF ok a]) (rule f)
  with t have okt: "sessions_ok t" by simp
  show ?thesis
  proof (cases r)
    case (Inr x)
    with t go okt show ?thesis by (simp add: act_simps)
  next
    case (Inl e)
    obtain r' u where u: "report E e t = (r', u)" by fastforce
    have "keeps (report E e)" by (rule keeps_basic)
    then have "sessions_ok (snd (report E e t))" using okt by (rule keeps_ok)
    then have "sessions_ok u" by (simp add: u)
    with t Inl u failed show ?thesis by (cases r') (simp_all add: act_simps)
  qed
qed

lemma onAccept_ok:
  assumes ok: "sessions_ok s"
  shows "sessions_ok (snd (onAccept_live E acc s))"
  unfolding onAccept_live_def Let_def
proof (rule read_ok, cases "jm_get (lc_sessions s) (ac_conversationId acc)")
  case (Some a)
  let ?cid = "ac_conversationId acc" let ?f = "onAcceptReceived (shared_ops E (as_make a)) acc"
  let ?after = "\<lambda>ok. whenA ok
                (bindA requireTransport_live (\<lambda>t.
                 bindA (mailbox_of E ?cid) (\<lambda>m. block
                   [ask E (LfSubscribe t m), establish ?cid, persist E a, pushEv E (LeConnection ''secure''),
                    pushEv E (LeEstablished (as_conversationId a))])))"
  from Some have a: "entry_ok (?cid, a)" using ok by (auto simp: sessions_ok_def intro: sessions_ok_get)
  have "sessions_ok (snd (bindA (catchA (bindA (on_session ?cid a ?f) (\<lambda>_. ret True))
      (\<lambda>e. bindA (report E e) (\<lambda>_. ret False))) ?after s))"
    if key: "bytesToHex (ac_fromSignatureKey acc) = as_peerSigHex a"
  proof (rule tried_ok [OF ok a, where g = "\<lambda>_. True"])
    show "session_keeps ?cid (as_peerSigHex a) (as_session a) se" if "?f (as_session a) w = (r, se, w')" for r se w w'
      by (rule onAcceptReceived_keeps(1) [OF that key])
    show "sessions_ok (snd (?after False t))" if "sessions_ok t" for t using that by (simp add: act_simps)
    fix x t assume t: "on_session ?cid a ?f s = (Inr x, t)" and okt: "sessions_ok t"
    obtain r se w' where f: "?f (as_session a) (lc_world s) = (r, se, w')" by (cases "?f (as_session a) (lc_world s)")
    have "hs_closed (se_handshake se)" using t onAcceptReceived_keeps(2) [OF f key] f by (auto simp: on_session_def)
    moreover have "jm_get (lc_sessions t) ?cid = Some (a\<lparr>as_session := se\<rparr>)"
      using t f by (auto simp: on_session_def jsmap_simps)
    ultimately have ct: "closed_at ?cid t" by (simp add: closed_at_def)
    have "sessions_ok (snd (bindA (mailbox_of E ?cid) (\<lambda>m. block
                   [ask E (LfSubscribe n m), establish ?cid, persist E a, pushEv E (LeConnection ''secure''),
                    pushEv E (LeEstablished (as_conversationId a))]) t))" for n
    proof (rule after_keeps [OF _ okt])
      fix m and u :: "('a, 'b) live" assume "lc_sessions u = lc_sessions t"
      then have "sessions_ok u" "closed_at ?cid u" using okt ct by (simp_all add: sessions_ok_def closed_at_def)
      then show "sessions_ok (snd (block
                   [ask E (LfSubscribe n m), establish ?cid, persist E a, pushEv E (LeConnection ''secure''),
                    pushEv E (LeEstablished (as_conversationId a))] u))"
        by (rule establish_block_ok) auto
    qed auto
    then show "sessions_ok (snd (?after True t))" by (simp add: whenA_def transport_ok okt del: block.simps)
  qed
  moreover have "sessions_ok (snd (pushEv E ev s))" for ev by (rule keeps_ok [OF _ ok]) auto
  ultimately show "sessions_ok (snd ((case jm_get (lc_sessions s) ?cid of
        None \<Rightarrow> skip
      | Some a \<Rightarrow>
          if bytesToHex (ac_fromSignatureKey acc) \<noteq> as_peerSigHex a
          then pushEv E (LeError (- 1) ''peer key did not match the contact you used'')
          else
            bindA (catchA (bindA (on_session ?cid a (onAcceptReceived (shared_ops E (as_make a)) acc)) (\<lambda>_. ret True))
                (\<lambda>e. bindA (report E e) (\<lambda>_. ret False)))
              (\<lambda>ok. whenA ok
                (bindA requireTransport_live (\<lambda>t.
                 bindA (mailbox_of E ?cid) (\<lambda>m. block
                   [ask E (LfSubscribe t m), establish ?cid, persist E a, pushEv E (LeConnection ''secure''),
                    pushEv E (LeEstablished (as_conversationId a))]))))) s))"
    using Some by (simp del: block.simps)
qed (simp add: act_simps ok)

lemma onDeliver_ok:
  assumes ok: "sessions_ok s"
  shows "sessions_ok (snd (onDeliver_live E env s))"
proof -
  define after where "after a f = (case f of
              None \<Rightarrow> skip
            | Some (Incoming (Message plaintext l)) \<Rightarrow>
                bindA (readA lc_stores) (\<lambda>j. block
                  [modA (\<lambda>s. s\<lparr>lc_stores := j + 1, lc_jobs := lc_jobs s @ [(j, ev_messageId env, as_conversationId a)]\<rparr>),
                   ask E (LfStoreIn j (bytesToHex (ev_messageId env)) (as_conversationId a) l plaintext)])
            | Some _ \<Rightarrow> bindA requireTransport_live (\<lambda>t. ask E (LfAck t (ev_messageId env))))" for a :: "'a active_session" and f
  have after: "keeps (after a f)" for a f
    unfolding after_def
    by (auto split: option.splits parsed_frame.splits incoming_frame.splits intro!: keeps_bind keeps_mod)
  show ?thesis
    unfolding onDeliver_live_def
  proof (rule read_ok, cases "find (\<lambda>(cid, a). as_established a) (lc_sessions s)")
    case (Some x)
    obtain cid a where x: "x = (cid, a)" by (cases x)
    have "x \<in> set (lc_sessions s)" using Some by (metis find_Some_iff nth_mem)
    then have a: "entry_ok (cid, a)" using ok x by (auto simp: sessions_ok_def list_all_iff)
    have "sessions_ok (snd (bindA (catchA (bindA (on_session cid a (receiveMessage (shared_ops E (as_make a)) env)) (\<lambda>f. ret (Some f)))
             (\<lambda>e. bindA (report E e) (\<lambda>_. ret None))) (after a) s))"
      by (rule tried_ok [OF ok a, where g = Some]) (auto intro: receiveMessage_keeps keeps_ok [OF after])
    then show "sessions_ok (snd ((case find (\<lambda>(cid, a). as_established a) (lc_sessions s) of
       None \<Rightarrow> skip
     | Some (cid, a) \<Rightarrow>
         bindA (catchA (bindA (on_session cid a (receiveMessage (shared_ops E (as_make a)) env)) (\<lambda>f. ret (Some f)))
             (\<lambda>e. bindA (report E e) (\<lambda>_. ret None)))
           (\<lambda>f. case f of
              None \<Rightarrow> skip
            | Some (Incoming (Message plaintext l)) \<Rightarrow>
                bindA (readA lc_stores) (\<lambda>j. block
                  [modA (\<lambda>s. s\<lparr>lc_stores := j + 1, lc_jobs := lc_jobs s @ [(j, ev_messageId env, as_conversationId a)]\<rparr>),
                   ask E (LfStoreIn j (bytesToHex (ev_messageId env)) (as_conversationId a) l plaintext)])
            | Some _ \<Rightarrow> bindA requireTransport_live (\<lambda>t. ask E (LfAck t (ev_messageId env))))) s))"
      unfolding Some x option.case prod.case after_def .
  qed (simp add: act_simps ok)
qed

lemma stored_ok: "keeps (stored_live E j failed)"
  unfolding stored_live_def by (auto split: option.splits intro!: keeps_bind keeps_mod keeps_catch)

lemma live_step_ok: "sessions_ok s \<Longrightarrow> sessions_ok (live_step E a s)"
  by (cases a)
    (auto simp: live_step_def final_def sessions_ok_eq [OF connect_loaded_ok] offerToContact_ok acceptKeyExchange_ok
      sendMessage_ok onOffer_ok onAccept_ok onDeliver_ok
      intro: keeps_ok [OF connect_saved_ok] keeps_ok [OF accept_persisted_ok] keeps_ok [OF stored_ok] keeps_ok [OF keeps_basic(2)])

lemma live_run_ok: "sessions_ok s \<Longrightarrow> sessions_ok (live_run E as s)"
  by (induction "as" arbitrary: s) (simp_all add: live_run_def live_step_ok)

section \<open>Acknowledgements\<close>

definition acks :: "('r, 'w) live \<Rightarrow> (nat \<times> bytes) list" where
  "acks s = concat (map (\<lambda>x. case x of LfAck n mid \<Rightarrow> [(n, mid)] | _ \<Rightarrow> []) (lc_out s))"

definition is_ack :: "'r live_fx \<Rightarrow> bool" where
  "is_ack x = (case x of LfAck n mid \<Rightarrow> True | _ \<Rightarrow> False)"

definition quiet :: "('r, 'w, 'a) live_act \<Rightarrow> bool" where
  "quiet m \<longleftrightarrow> (\<forall>s. acks (snd (m s)) = acks s)"

lemma quiet_ask: "\<not> is_ack x \<Longrightarrow> quiet (ask E x)"
  by (auto simp: quiet_def ask_def acks_def is_ack_def split: option.splits live_fx.splits)

lemma quiet_basic [intro]:
  "quiet (pushEv E ev)" "quiet (report E e)" "quiet requireTransport_live" "quiet (mailbox_of E cid)" "quiet (newSession cid)"
  "quiet (readA f)" "quiet (ret x)" "quiet (throw e)" "quiet skip" "quiet (of_result r)"
  by (auto simp: report_def pushEv_def is_ack_def intro!: quiet_ask)
    (auto simp: quiet_def requireTransport_live_def newSession_def mailbox_of_def of_result_def act_simps split: option.splits sum.splits)

lemma quiet_state [intro]: "quiet (put_session cid a)" "quiet (on_session cid a f)" "quiet (establish cid)"
  by (auto simp: quiet_def acks_def put_session_def on_session_def establish_def modA_def split: prod.splits option.splits)

lemma quiet_mod: "(\<And>s. lc_out (f s) = lc_out s) \<Longrightarrow> quiet (modA f)"
  by (simp add: quiet_def modA_def acks_def)

lemma quiet_bind [intro]: "quiet m \<Longrightarrow> (\<And>x. quiet (f x)) \<Longrightarrow> quiet (bindA m f)"
  by (auto simp: quiet_def bindA_def split: prod.splits sum.splits) (metis snd_conv)+

lemma quiet_catch [intro]: "quiet m \<Longrightarrow> (\<And>e. quiet (h e)) \<Longrightarrow> quiet (catchA m h)"
  by (auto simp: quiet_def catchA_def split: prod.splits sum.splits) (metis snd_conv)+

lemma quiet_block [intro]: "(\<And>m. m \<in> set ms \<Longrightarrow> quiet m) \<Longrightarrow> quiet (block ms)"
  by (induction ms) auto

lemma quiet_when [intro]: "quiet m \<Longrightarrow> quiet (whenA b m)"
  by (auto simp: whenA_def)

lemma quiet_persist [intro]: "quiet (persist E a)"
  by (auto simp: persist_def is_ack_def intro!: quiet_catch quiet_ask)

lemmas quiet_rules = quiet_bind quiet_catch quiet_when quiet_ask quiet_mod

lemma quiet_operations:
  "quiet (connect_saved_live E url)" "quiet (offerToContact E cid c)" "quiet (acceptKeyExchange_live E cid)"
  "quiet (accept_persisted E)" "quiet (sendMessage_live E rnd cid t)" "quiet (onOffer_live E offer)"
  "quiet (onAccept_live E acc)" "quiet (stored_live E j (Some e))"
  unfolding connect_saved_live_def offerToContact_def acceptKeyExchange_live_def accept_persisted_def sendMessage_live_def
    onOffer_live_def onAccept_live_def stored_live_def Let_def
  by (auto simp: is_ack_def split: prod.splits option.splits sum.splits intro!: quiet_rules)

lemma quiet_loaded: "acks (snd (connect_loaded_live E restored url s)) = acks s"
  using quiet_operations(1) [of E url]
  by (auto simp: connect_loaded_live_def quiet_def ask_def acks_def Let_def split: prod.splits sum.splits option.splits)

text \<open>The storage of an inbound message and its acknowledgement.\<close>

lemma stored_acks:
  "acks (snd (stored_live E j None s)) = acks s
   \<or> (\<exists>mid cid n. map_of (lc_jobs s) j = Some (mid, cid) \<and> lc_transport s = Some n \<and> acks (snd (stored_live E j None s)) = acks s @ [(n, mid)])"
proof (cases "map_of (lc_jobs s) j")
  case None
  then show ?thesis by (simp add: stored_live_def act_simps)
next
  case (Some x)
  obtain mid cid where x: "x = (mid, cid)" by (cases x)
  show ?thesis
    by (simp add: stored_live_def act_simps Some x requireTransport_live_def)
      (auto simp: ask_def pushEv_def report_def acks_def act_simps split: option.splits)
qed

lemma deliver_acks:
  "acks (snd (onDeliver_live E env s)) = acks s
   \<or> (\<exists>cid a n f se w. (cid, a) \<in> set (lc_sessions s) \<and> as_established a
        \<and> receiveMessage (shared_ops E (as_make a)) env (as_session a) (lc_world s) = (Inr f, se, w)
        \<and> (\<forall>p l. f \<noteq> Incoming (Message p l)) \<and> acks (snd (onDeliver_live E env s)) = acks s @ [(n, ev_messageId env)])"
proof (cases "find (\<lambda>(cid, a). as_established a) (lc_sessions s)")
  case None
  then show ?thesis by (simp add: onDeliver_live_def act_simps)
next
  case (Some x)
  obtain cid a where x: "x = (cid, a)" by (cases x)
  have mem: "(cid, a) \<in> set (lc_sessions s)" "as_established a" using Some x by (auto simp: find_Some_iff) (metis nth_mem)
  let ?r = "receiveMessage (shared_ops E (as_make a)) env (as_session a) (lc_world s)"
  obtain r se w where r: "?r = (r, se, w)" by (cases ?r)
  show ?thesis
  proof (cases r)
    case (Inl e)
    then show ?thesis
      by (auto simp: onDeliver_live_def act_simps Some x on_session_def r report_def pushEv_def ask_def acks_def split: option.splits)
  next
    case (Inr f)
    show ?thesis
    proof (cases "\<exists>p l. f = Incoming (Message p l)")
      case True
      then show ?thesis
        by (auto simp: onDeliver_live_def act_simps Some x on_session_def r Inr ask_def acks_def split: option.splits)
    next
      case False
      have "snd (onDeliver_live E env s) = snd (bindA requireTransport_live (\<lambda>t. ask E (LfAck t (ev_messageId env)))
          (s\<lparr>lc_world := w, lc_sessions := jm_set cid (a\<lparr>as_session := se\<rparr>) (lc_sessions s)\<rparr>))"
        using False by (auto simp: onDeliver_live_def act_simps Some x on_session_def r Inr split: parsed_frame.splits incoming_frame.splits)
      then have "acks (snd (onDeliver_live E env s)) = acks s \<or> (\<exists>n. acks (snd (onDeliver_live E env s)) = acks s @ [(n, ev_messageId env)])"
        by (auto simp: requireTransport_live_def act_simps ask_def acks_def split: option.splits)
      with False mem r Inr show ?thesis by blast
    qed
  qed
qed

text \<open>An inbound message is acknowledged when its storage has succeeded, and by nothing else.\<close>

theorem live_message_is_acknowledged_after_storage:
  "acks (live_step E a s) = acks s
   \<or> (\<exists>j mid cid n. a = LaStored j None \<and> map_of (lc_jobs s) j = Some (mid, cid) \<and> acks (live_step E a s) = acks s @ [(n, mid)])
   \<or> (\<exists>env cid b n f se w. a = LaOnDeliver env \<and> (cid, b) \<in> set (lc_sessions s) \<and> as_established b
        \<and> receiveMessage (shared_ops E (as_make b)) env (as_session b) (lc_world s) = (Inr f, se, w)
        \<and> (\<forall>p l. f \<noteq> Incoming (Message p l)) \<and> acks (live_step E a s) = acks s @ [(n, ev_messageId env)])"
proof (cases a)
  case (LaOnDeliver env)
  with deliver_acks [of E env s] show ?thesis by (auto simp: live_step_def final_def)
next
  case (LaStored j failed)
  show ?thesis
  proof (cases failed)
    case None
    with LaStored stored_acks [of E j s] show ?thesis by (auto simp: live_step_def final_def)
  next
    case (Some e)
    then show ?thesis using quiet_operations(8) [of E j e] by (simp add: LaStored live_step_def final_def quiet_def)
  qed
next
  case (LaLoaded restored url)
  then show ?thesis by (simp add: live_step_def final_def quiet_loaded)
qed (use quiet_operations [of E] quiet_basic(1) [of E] in \<open>simp_all add: live_step_def final_def quiet_def\<close>)

lemma entry_pinned:
  assumes "entry_ok (cid, a)"
  shows "as_conversationId a = cid
    \<and> se_handshake (as_session a) \<in> (if as_established a then {Established cid (as_peerSigHex a), Blocked cid} else UNIV)"
  using assms by (cases "se_handshake (as_session a)") (simp_all add: entry_ok_def hs_defs)

text \<open>
  Whatever the network, the peer and the conversation object do, every session that counts as established
  is bound to its conversation id and pinned to the key that was shown with it, or blocked.
\<close>

theorem live_sessions_stay_pinned:
  "list_all (\<lambda>(cid, a). as_conversationId a = cid
     \<and> se_handshake (as_session a)
         \<in> (if as_established a then {Established cid (as_peerSigHex a), Blocked cid} else UNIV))
     (lc_sessions (live_run E as (new_live w)))"
proof -
  have "sessions_ok (live_run E as (new_live w))"
    by (rule live_run_ok) (simp add: sessions_ok_def new_live_def)
  then have "list_all entry_ok (lc_sessions (live_run E as (new_live w)))" by (simp add: sessions_ok_def)
  then show ?thesis by (rule list.pred_mono_strong) (use entry_pinned in \<open>fastforce split: prod.splits\<close>)
qed

text \<open>
  An offer for the id of an open conversation replaces its session: the peer's messages are no longer read
  and the page can no longer send, until the new offer is accepted.
\<close>

lemma offer_replaces_open_session:
  fixes s :: "('r, 'w) live"
  assumes "lc_identity s = Some identity" "lc_conv s = Some conv"
  shows "\<exists>a. jm_get (lc_sessions (live_step E (LaOnOffer offer) s)) (of_conversationId offer) = Some a \<and> \<not> as_established a"
proof -
  have new: "\<exists>x (se :: 'r session). onOfferReceived offer (new_session identity (of_conversationId offer)) = (Inr x, se)"
    by (simp add: onOfferReceived_def new_session_def receiveOffer_def requireKind_def state_kind_def)
  have push: "lc_sessions (snd (pushEv E ev t)) = lc_sessions t" for ev t
    using keeps_basic(2) [of E ev] by (simp add: keeps_def)
  from new obtain x and se :: "'r session" where "onOfferReceived offer (new_session identity (of_conversationId offer)) = (Inr x, se)" by blast
  note offered = this
  show ?thesis
    using assms
    by (simp add: offered live_step_def final_def onOffer_live_def Let_def newSession_def put_session_def act_simps)
      (auto simp: pushEv_def ask_def act_simps jsmap_simps split: option.splits)
qed

end
