(* ===== verification/PinnedShell.thy ===== *)
theory PinnedShell
  imports Integrity
begin

text \<open>
  What runs before the application: the service worker that serves the pinned shell
  (\<open>client/public/sw.js\<close>), and the start of the page in \<open>client/boot.js\<close>: the forced update, the endpoints and
  the choice of the controller. Cache objects live in a heap, since an installation keeps writing to the object
  it opened when its name is deleted meanwhile; the event handlers are cut at their awaits. Responses carry no
  \<open>Vary\<close> header.
\<close>

section \<open>The service worker\<close>

text \<open>
  The versions of the worker, by number: each has the name of its cache and its pinned assets, which the build
  writes into the file.
\<close>

record shell_env =
  sw_digest :: account_env
  sw_cache :: "nat \<Rightarrow> string"
  sw_pinned :: "nat \<Rightarrow> pinned_manifest"
  sw_origin :: string

datatype fetched = FetchFails | Response nat bytes

definition status_ok :: "nat \<Rightarrow> bool" where
  "status_ok status \<longleftrightarrow> 200 \<le> status \<and> status < 300"

text \<open>
  One round of the loop over the pinned assets: the body to store, or nothing when the round throws.
  \<open>cache.put\<close> refuses a partial response.
\<close>

definition sw_asset :: "account_env \<Rightarrow> string \<Rightarrow> fetched \<Rightarrow> bytes option" where
  "sw_asset D expected r = (case r of
     FetchFails \<Rightarrow> None
   | Response status body \<Rightarrow>
       if \<not> status_ok status then None
       else if integrity_sha256Hex D body \<noteq> toLowerCase D expected then None
       else if status = 206 then None
       else Some body)"

record install_job =
  ij_version :: nat
  ij_cache :: nat
  ij_rest :: pinned_manifest

datatype sw_answer = FromNetwork | FromCache bytes | NotInPinnedCache

text \<open>
  The caches by name, the cache objects with the name they were opened under, the installations and activations
  under way, the versions that finished installing with their cache objects, the answers given and
  how often pages were sent to their own address again.
\<close>

record shell =
  sh_names :: "(string, nat) jsmap"
  sh_heap :: "(string \<times> (string, bytes) jsmap) list"
  sh_installs :: "(nat \<times> install_job) list"
  sh_next :: nat
  sh_installed :: "(nat \<times> nat) list"
  sh_activations :: "(nat \<times> string list) list"
  sh_answers :: "(nat \<times> string \<times> sw_answer) list"
  sh_navigations :: nat

text \<open>\<open>caches.open(name)\<close>\<close>

definition caches_open :: "string \<Rightarrow> shell \<Rightarrow> nat \<times> shell" where
  "caches_open name s = (case jm_get (sh_names s) name of
     Some c \<Rightarrow> (c, s)
   | None \<Rightarrow> (length (sh_heap s),
       s\<lparr>sh_names := jm_set name (length (sh_heap s)) (sh_names s), sh_heap := sh_heap s @ [(name, [])]\<rparr>))"

text \<open>The rest of an installation: when no asset is left, \<open>skipWaiting\<close> and the handler ends.\<close>

definition put_job :: "nat \<Rightarrow> install_job \<Rightarrow> shell \<Rightarrow> shell" where
  "put_job j job s =
     (if ij_rest job = [] then s\<lparr>sh_installs := jm_delete j (sh_installs s),
        sh_installed := (ij_version job, ij_cache job) # sh_installed s\<rparr>
      else s\<lparr>sh_installs := jm_set j job (sh_installs s)\<rparr>)"

definition sw_install :: "shell_env \<Rightarrow> nat \<Rightarrow> shell \<Rightarrow> shell" where
  "sw_install E v s = (case caches_open (sw_cache E v) s of
     (c, s') \<Rightarrow> put_job (sh_next s') \<lparr>ij_version = v, ij_cache = c, ij_rest = sw_pinned E v\<rparr>
       (s'\<lparr>sh_next := sh_next s' + 1\<rparr>))"

definition sw_fetched :: "shell_env \<Rightarrow> nat \<Rightarrow> fetched \<Rightarrow> shell \<Rightarrow> shell" where
  "sw_fetched E j r s = (case map_of (sh_installs s) j of
     None \<Rightarrow> s
   | Some job \<Rightarrow> (case ij_rest job of
       [] \<Rightarrow> s
     | (path, expected) # rest \<Rightarrow> (case sw_asset (sw_digest E) expected r of
         None \<Rightarrow> s\<lparr>sh_installs := jm_delete j (sh_installs s)\<rparr>
       | Some body \<Rightarrow> put_job j (job\<lparr>ij_rest := rest\<rparr>)
           (s\<lparr>sh_heap := (sh_heap s)[ij_cache job :=
              (fst (sh_heap s ! ij_cache job), jm_set path body (snd (sh_heap s ! ij_cache job)))]\<rparr>))))"

text \<open>\<open>/^deaddrop-pinned-[0-9a-f]{16}$/\<close>\<close>

definition versioned_name :: "string \<Rightarrow> bool" where
  "versioned_name n \<longleftrightarrow> take 16 n = ''deaddrop-pinned-'' \<and> length n = 32 \<and> list_all is_lower_hex (drop 16 n)"

text \<open>Activation, up to the names it found, and the deletion of the stale ones with the recovery of legacy pages.\<close>

definition sw_activate :: "shell_env \<Rightarrow> nat \<Rightarrow> shell \<Rightarrow> shell" where
  "sw_activate E v s =
     s\<lparr>sh_activations := sh_activations s @ [(v, filter (\<lambda>n. n \<noteq> sw_cache E v) (map fst (sh_names s)))]\<rparr>"

definition sw_sweep :: "nat \<Rightarrow> nat \<Rightarrow> shell \<Rightarrow> shell" where
  "sw_sweep k windows s =
     (if k < length (sh_activations s) then
        (let stale = snd (sh_activations s ! k); legacy = filter (\<lambda>n. \<not> versioned_name n) stale in
         s\<lparr>sh_names := fold jm_delete stale (sh_names s),
           sh_activations := take k (sh_activations s) @ drop (Suc k) (sh_activations s),
           sh_navigations := sh_navigations s + (if 0 < length legacy then windows else 0)\<rparr>)
      else s)"

text \<open>
  A request: its origin, its path, and whether it is a plain \<open>GET\<close> of that path, which is what
  \<open>cache.match\<close> finds.
\<close>

record request_for =
  rf_origin :: string
  rf_pathname :: string
  rf_plain :: bool

definition sw_fetch :: "shell_env \<Rightarrow> nat \<Rightarrow> request_for \<Rightarrow> shell \<Rightarrow> shell" where
  "sw_fetch E v q s =
     (if rf_origin q \<noteq> sw_origin E \<or> rf_pathname q \<notin> set (map fst (sw_pinned E v))
      then s\<lparr>sh_answers := sh_answers s @ [(v, rf_pathname q, FromNetwork)]\<rparr>
      else (case caches_open (sw_cache E v) s of
        (c, s') \<Rightarrow>
          (let cached = (if rf_plain q then jm_get (snd (sh_heap s' ! c)) (rf_pathname q) else None) in
           s'\<lparr>sh_answers := sh_answers s' @
             [(v, rf_pathname q, case cached of Some body \<Rightarrow> FromCache body | None \<Rightarrow> NotInPinnedCache)]\<rparr>)))"

text \<open>Events of all versions of the worker, in any order.\<close>

datatype sw_event =
    SwInstall nat
  | SwFetched nat fetched
  | SwActivate nat
  | SwSweep nat nat
  | SwFetch nat request_for

definition sw_step :: "shell_env \<Rightarrow> sw_event \<Rightarrow> shell \<Rightarrow> shell" where
  "sw_step E e s = (case e of
     SwInstall v \<Rightarrow> sw_install E v s
   | SwFetched j r \<Rightarrow> sw_fetched E j r s
   | SwActivate v \<Rightarrow> sw_activate E v s
   | SwSweep k windows \<Rightarrow> sw_sweep k windows s
   | SwFetch v q \<Rightarrow> sw_fetch E v q s)"

definition sw_run :: "shell_env \<Rightarrow> sw_event list \<Rightarrow> shell \<Rightarrow> shell" where
  "sw_run E es s = foldl (\<lambda>s e. sw_step E e s) s es"

text \<open>A device whose caches, if it has any, belong to other software or to older pages.\<close>

definition new_shell :: "(string \<times> (string, bytes) jsmap) list \<Rightarrow> shell" where
  "new_shell others =
     \<lparr>sh_names = zip (map fst others) [0..<length others], sh_heap = others, sh_installs = [], sh_next = 0,
      sh_installed = [], sh_activations = [], sh_answers = [], sh_navigations = 0\<rparr>"

section \<open>The forced update\<close>

text \<open>
  What a start of the page meets: whether there are service workers and caches, the cache names, the answer
  of \<open>/build.txt\<close>, whether the session storage can be read and written, the registration, and what the
  polls of the caches and the clock say.
\<close>

datatype registration = LookupFails | NoRegistration | Registered

record boot_env =
  bt_supported :: bool
  bt_caches :: "string list option"
  bt_build :: "(bool \<times> string) option"
  bt_readable :: bool
  bt_writable :: bool
  bt_registration :: registration
  bt_polls :: "nat \<Rightarrow> string list option"
  bt_clock :: "nat \<Rightarrow> int"

fun contains_str :: "string \<Rightarrow> string \<Rightarrow> bool" where
  "contains_str [] w = (w = [])"
| "contains_str (c # cs) w = (starts_with (c # cs) w \<or> contains_str cs w)"

text \<open>The loop that waits for the new cache, 300 ms a round: the number of waits when it ends.\<close>

partial_function (option) poll_from :: "boot_env \<Rightarrow> string \<Rightarrow> int \<Rightarrow> nat \<Rightarrow> nat option" where
  "poll_from B latest deadline i =
     (case bt_polls B i of
        None \<Rightarrow> Some i
      | Some names \<Rightarrow>
          if list_ex (\<lambda>n. contains_str n latest) names \<or> deadline < bt_clock B (Suc i) then Some i
          else poll_from B latest deadline (Suc i))"

datatype boot_outcome = Proceeds | Reloads string | Hangs

text \<open>The loop reads the clock once before its first round.\<close>

definition reload_when_ready :: "boot_env \<Rightarrow> string \<Rightarrow> boot_outcome" where
  "reload_when_ready B latest = (case bt_registration B of
     LookupFails \<Rightarrow> Proceeds
   | NoRegistration \<Rightarrow> Reloads latest
   | Registered \<Rightarrow>
       (case poll_from B latest (bt_clock B 0 + 10000) 0 of Some _ \<Rightarrow> Reloads latest | None \<Rightarrow> Hangs))"

text \<open>\<open>ensureLatestClient\<close>, on the latch in the session storage.\<close>

definition ensureLatestClient :: "boot_env \<Rightarrow> string option \<Rightarrow> boot_outcome \<times> string option" where
  "ensureLatestClient B latch =
     (if \<not> bt_supported B then (Proceeds, latch)
      else case (bt_caches B, bt_build B) of
        (Some names, Some (ok, body)) \<Rightarrow>
          (let bootVersion = bootVersionFrom names;
               latest = (if ok then parseBuildVersion (Some body) else None);
               tried = (if bt_readable B then latch else None) in
           case latest of
             None \<Rightarrow> (Proceeds, latch)
           | Some v \<Rightarrow>
               if bootVersion = Some v then (Proceeds, if bt_writable B then None else latch)
               else if \<not> shouldForceUpdate bootVersion latest tried then (Proceeds, latch)
               else (let latch' = (if bt_writable B then Some v else latch);
                         latched = (bt_writable B \<and> bt_readable B \<and> latch' = Some v) in
                     if \<not> latched then (Proceeds, latch') else (reload_when_ready B v, latch')))
      | _ \<Rightarrow> (Proceeds, latch))"

text \<open>The starts of a page in one tab.\<close>

fun boots :: "boot_env list \<Rightarrow> string option \<Rightarrow> boot_outcome list" where
  "boots [] latch = []"
| "boots (B # Bs) latch = (case ensureLatestClient B latch of (r, latch') \<Rightarrow> r # boots Bs latch')"

section \<open>Endpoints, key derivation and the choice of the controller\<close>

record page_location =
  pl_https :: bool
  pl_host :: string
  pl_hostname :: string

definition wsUrl :: "string option \<Rightarrow> page_location \<Rightarrow> string" where
  "wsUrl override L = (case override of
     Some u \<Rightarrow> u
   | None \<Rightarrow> if pl_https L then ''wss://'' @ pl_host L @ ''/ws'' else ''ws://'' @ pl_hostname L @ '':8443/ws'')"

definition apiBase :: "string option \<Rightarrow> page_location \<Rightarrow> string option" where
  "apiBase override L = (case override of Some b \<Rightarrow> Some b | None \<Rightarrow> if pl_https L then Some [] else None)"

text \<open>The key derivation of the account client: in the worker if it offers one, else on the main thread.\<close>

definition strong_kdf :: "memory_hard_kdf option \<Rightarrow> memory_hard_kdf \<Rightarrow> memory_hard_kdf" where
  "strong_kdf offThread mainThread = (case offThread of
     None \<Rightarrow> mainThread
   | Some f \<Rightarrow> (\<lambda>passphrase salt. case f passphrase salt of Some k \<Rightarrow> Some k | None \<Rightarrow> mainThread passphrase salt))"

definition wireStrongKdf ::
    "memory_hard_kdf \<Rightarrow> memory_hard_kdf option \<Rightarrow> account_client option \<Rightarrow> account_client option" where
  "wireStrongKdf mainThread offThread account = map_option (useStrongKdf (strong_kdf offThread mainThread)) account"

text \<open>The controllers that were tried to be mounted, in order, each with whether it was given the account client.\<close>

datatype 'c mounted = Mounted 'c bool

datatype worker_outcome = NoWorker | WorkerFails | WorkerReady

datatype host = OwningWorker | MainThread | Demo

definition mount_chain :: "worker_outcome \<Rightarrow> bool \<Rightarrow> (host \<Rightarrow> bool) \<Rightarrow> host mounted list" where
  "mount_chain w mainReady mounts =
     (let rest = (if mainReady \<and> mounts MainThread then [Mounted MainThread True]
                  else if mainReady then [Mounted MainThread True, Mounted Demo False]
                  else [Mounted Demo False]) in
      if w \<noteq> WorkerReady then rest
      else if mounts OwningWorker then [Mounted OwningWorker True]
      else Mounted OwningWorker True # rest)"

end
