(* ===== verification/ShellProps.thy ===== *)
theory ShellProps
  imports PinnedShell
begin

text \<open>
  What the pinned shell guarantees: only verified bytes are served, a completed installation serves every
  asset, and the forced update cannot loop.
\<close>

section \<open>The caches\<close>

definition pinned_body :: "shell_env \<Rightarrow> nat \<Rightarrow> string \<Rightarrow> bytes \<Rightarrow> bool" where
  "pinned_body E v p b \<longleftrightarrow>
     (\<exists>expected. (p, expected) \<in> set (sw_pinned E v)
        \<and> integrity_sha256Hex (sw_digest E) b = toLowerCase (sw_digest E) expected)"

definition verified :: "shell_env \<Rightarrow> nat \<Rightarrow> (string, bytes) jsmap \<Rightarrow> bool" where
  "verified E v m \<longleftrightarrow> (\<forall>p b. jm_get m p = Some b \<longrightarrow> pinned_body E v p b)"

text \<open>All versions that use a cache name pin the same assets: the name is a hash of them.\<close>

definition names_match :: "shell_env \<Rightarrow> bool" where
  "names_match E \<longleftrightarrow> (\<forall>u v. sw_cache E u = sw_cache E v \<longrightarrow> sw_pinned E u = sw_pinned E v)"

definition holds_all :: "(string, bytes) jsmap \<Rightarrow> string set \<Rightarrow> bool" where
  "holds_all m P \<longleftrightarrow> (\<forall>p \<in> P. jm_get m p \<noteq> None)"

definition job_ok :: "shell_env \<Rightarrow> shell \<Rightarrow> install_job \<Rightarrow> bool" where
  "job_ok E s job \<longleftrightarrow> ij_cache job < length (sh_heap s) \<and> fst (sh_heap s ! ij_cache job) = sw_cache E (ij_version job)
     \<and> set (ij_rest job) \<subseteq> set (sw_pinned E (ij_version job))
     \<and> holds_all (snd (sh_heap s ! ij_cache job)) (fst ` set (sw_pinned E (ij_version job)) - fst ` set (ij_rest job))"

definition caches_ok :: "shell_env \<Rightarrow> shell \<Rightarrow> bool" where
  "caches_ok E s \<longleftrightarrow>
     (\<forall>n c. jm_get (sh_names s) n = Some c \<longrightarrow> c < length (sh_heap s) \<and> fst (sh_heap s ! c) = n)
     \<and> (\<forall>c < length (sh_heap s). \<forall>v. fst (sh_heap s ! c) = sw_cache E v \<longrightarrow> verified E v (snd (sh_heap s ! c)))"

definition jobs_ok :: "shell_env \<Rightarrow> shell \<Rightarrow> bool" where
  "jobs_ok E s \<longleftrightarrow> (\<forall>j job. map_of (sh_installs s) j = Some job \<longrightarrow> job_ok E s job)"

definition installed_ok :: "shell_env \<Rightarrow> shell \<Rightarrow> bool" where
  "installed_ok E s \<longleftrightarrow> (\<forall>(v, c) \<in> set (sh_installed s). job_ok E s \<lparr>ij_version = v, ij_cache = c, ij_rest = []\<rparr>)"

definition answers_ok :: "shell_env \<Rightarrow> shell \<Rightarrow> bool" where
  "answers_ok E s \<longleftrightarrow> (\<forall>v p b. (v, p, FromCache b) \<in> set (sh_answers s) \<longrightarrow> pinned_body E v p b)"

definition shell_ok :: "shell_env \<Rightarrow> shell \<Rightarrow> bool" where
  "shell_ok E s \<longleftrightarrow> caches_ok E s \<and> jobs_ok E s \<and> installed_ok E s \<and> answers_ok E s"

text \<open>The cache objects of a later state: the same or more, with more in them.\<close>

definition grown :: "shell \<Rightarrow> shell \<Rightarrow> bool" where
  "grown s t \<longleftrightarrow> length (sh_heap s) \<le> length (sh_heap t)
     \<and> (\<forall>c < length (sh_heap s). fst (sh_heap t ! c) = fst (sh_heap s ! c)
          \<and> (\<forall>p. jm_get (snd (sh_heap s ! c)) p \<noteq> None \<longrightarrow> jm_get (snd (sh_heap t ! c)) p \<noteq> None))"

lemma job_grown: "grown s t \<Longrightarrow> job_ok E s job \<Longrightarrow> job_ok E t job"
  by (auto simp: grown_def job_ok_def holds_all_def)

lemma jobs_grown: "grown s t \<Longrightarrow> sh_installs t = sh_installs s \<Longrightarrow> jobs_ok E s \<Longrightarrow> jobs_ok E t"
  by (auto simp: jobs_ok_def intro: job_grown)

lemma installed_grown: "grown s t \<Longrightarrow> sh_installed t = sh_installed s \<Longrightarrow> installed_ok E s \<Longrightarrow> installed_ok E t"
  by (auto simp: installed_ok_def intro: job_grown)

lemma grown_refl: "sh_heap t = sh_heap s \<Longrightarrow> grown s t"
  by (simp add: grown_def)

section \<open>Opening a cache\<close>

lemma caches_open_ok:
  assumes ok: "shell_ok E s" and o: "caches_open n s = (c, t)"
  shows "shell_ok E t" "c < length (sh_heap t)" "fst (sh_heap t ! c) = n" "jm_get (sh_names t) n = Some c"
    "jm_get (sh_names s) n = Some d \<Longrightarrow> c = d \<and> t = s"
proof -
  have "shell_ok E t \<and> c < length (sh_heap t) \<and> fst (sh_heap t ! c) = n \<and> jm_get (sh_names t) n = Some c"
  proof (cases "jm_get (sh_names s) n")
    case None
    then have t: "c = length (sh_heap s)"
      "t = s\<lparr>sh_names := jm_set n (length (sh_heap s)) (sh_names s), sh_heap := sh_heap s @ [(n, [])]\<rparr>"
      using o by (auto simp: caches_open_def)
    have g: "grown s t" by (simp add: grown_def t nth_append)
    have "caches_ok E t"
      using ok by (auto simp: shell_ok_def caches_ok_def t nth_append verified_def jsmap_simps less_Suc_eq split: if_splits)
    with ok g show ?thesis
      by (auto simp: shell_ok_def answers_ok_def t jsmap_simps intro: jobs_grown installed_grown)
  next
    case (Some d)
    with o ok show ?thesis by (auto simp: caches_open_def shell_ok_def caches_ok_def)
  qed
  then show "shell_ok E t" "c < length (sh_heap t)" "fst (sh_heap t ! c) = n" "jm_get (sh_names t) n = Some c" by auto
  show "jm_get (sh_names s) n = Some d \<Longrightarrow> c = d \<and> t = s" using o by (simp add: caches_open_def)
qed

section \<open>Every event\<close>

lemma put_job_ok: "shell_ok E s \<Longrightarrow> job_ok E s job \<Longrightarrow> shell_ok E (put_job j job s)"
  by (cases job)
    (auto simp: put_job_def shell_ok_def caches_ok_def jobs_ok_def installed_ok_def answers_ok_def job_ok_def jsmap_simps
      split: if_splits)

lemma install_ok:
  assumes "shell_ok E s"
  shows "shell_ok E (sw_install E v s)"
proof -
  obtain c t where t: "caches_open (sw_cache E v) s = (c, t)" by fastforce
  note o = caches_open_ok [OF assms t]
  have "shell_ok E (t\<lparr>sh_next := n\<rparr>)" for n
    using o(1) by (simp add: shell_ok_def caches_ok_def jobs_ok_def installed_ok_def answers_ok_def job_ok_def)
  moreover have "job_ok E (t\<lparr>sh_next := n\<rparr>) \<lparr>ij_version = v, ij_cache = c, ij_rest = sw_pinned E v\<rparr>" for n
    using o(2,3) by (simp add: job_ok_def holds_all_def)
  ultimately show ?thesis by (simp add: sw_install_def t put_job_ok)
qed

lemma sw_asset_pinned:
  "sw_asset D expected r = Some body \<Longrightarrow> integrity_sha256Hex D body = toLowerCase D expected"
  by (auto simp: sw_asset_def split: fetched.splits if_splits)

lemma fetched_ok:
  assumes ok: "shell_ok E s" and names: "names_match E"
  shows "shell_ok E (sw_fetched E j r s)"
proof (cases "map_of (sh_installs s) j")
  case (Some job)
  show ?thesis
  proof (cases "ij_rest job")
    case (Cons a rest)
    obtain path expected where a: "a = (path, expected)" by (cases a)
    have job: "job_ok E s job" using ok Some by (simp add: shell_ok_def jobs_ok_def)
    show ?thesis
    proof (cases "sw_asset (sw_digest E) expected r")
      case None
      then show ?thesis using ok
        by (auto simp: sw_fetched_def Some Cons a shell_ok_def caches_ok_def jobs_ok_def installed_ok_def answers_ok_def
            job_ok_def jsmap_simps split: if_splits)
    next
      case body: (Some body)
      let ?c = "ij_cache job" and ?v = "ij_version job"
      let ?t = "s\<lparr>sh_heap := (sh_heap s)[?c := (fst (sh_heap s ! ?c), jm_set path body (snd (sh_heap s ! ?c)))]\<rparr>"
      have c: "?c < length (sh_heap s)" "fst (sh_heap s ! ?c) = sw_cache E ?v"
        and rest: "set (ij_rest job) \<subseteq> set (sw_pinned E ?v)" using job by (simp_all add: job_ok_def)
      have pinned: "(path, expected) \<in> set (sw_pinned E ?v)" using rest Cons a by auto
      have g: "grown s ?t" using c by (auto simp: grown_def nth_list_update jsmap_simps)
      have "verified E w (jm_set path body (snd (sh_heap s ! ?c)))" if w: "sw_cache E w = sw_cache E ?v" for w
      proof -
        have "sw_pinned E w = sw_pinned E ?v" using names w unfolding names_match_def by blast
        then have "pinned_body E w path body"
          using pinned sw_asset_pinned [OF body] by (auto simp: pinned_body_def)
        moreover have "verified E w (snd (sh_heap s ! ?c))"
          using ok c w by (auto simp: shell_ok_def caches_ok_def)
        ultimately show ?thesis by (auto simp: verified_def jsmap_simps)
      qed
      then have "caches_ok E ?t"
        using ok c by (auto simp: shell_ok_def caches_ok_def nth_list_update)
      then have "shell_ok E ?t"
        using ok g by (auto simp: shell_ok_def answers_ok_def intro: jobs_grown installed_grown)
      moreover have "job_ok E ?t (job\<lparr>ij_rest := rest\<rparr>)"
        using job c Cons a by (auto simp: job_ok_def holds_all_def jsmap_simps)
      ultimately show ?thesis by (simp add: sw_fetched_def Some Cons a body put_job_ok)
    qed
  qed (simp add: sw_fetched_def Some ok)
qed (simp add: sw_fetched_def ok)

lemma deletes_get: "jm_get (fold jm_delete ns m) n = (if n \<in> set ns then None else jm_get m n)"
  by (induction ns arbitrary: m) (auto simp: jsmap_simps)

lemma shell_sweep_ok: "shell_ok E s \<Longrightarrow> shell_ok E (sw_sweep k windows s)"
  by (auto simp: sw_sweep_def Let_def shell_ok_def caches_ok_def jobs_ok_def installed_ok_def answers_ok_def job_ok_def
      deletes_get split: if_splits)

lemma activate_ok: "shell_ok E s \<Longrightarrow> shell_ok E (sw_activate E v s)"
  by (simp add: sw_activate_def shell_ok_def caches_ok_def jobs_ok_def installed_ok_def answers_ok_def job_ok_def)

lemma answer_ok:
  assumes "shell_ok E s" "\<And>b. a = FromCache b \<Longrightarrow> pinned_body E v p b"
  shows "shell_ok E (s\<lparr>sh_answers := sh_answers s @ [(v, p, a)]\<rparr>)"
  using assms by (auto simp: shell_ok_def caches_ok_def jobs_ok_def installed_ok_def answers_ok_def job_ok_def)

lemma fetch_ok:
  assumes ok: "shell_ok E s"
  shows "shell_ok E (sw_fetch E v q s)"
proof (cases "rf_origin q \<noteq> sw_origin E \<or> rf_pathname q \<notin> set (map fst (sw_pinned E v))")
  case True
  then show ?thesis using answer_ok [OF ok, of FromNetwork] by (auto simp: sw_fetch_def)
next
  case False
  obtain c t where t: "caches_open (sw_cache E v) s = (c, t)" by fastforce
  note o = caches_open_ok [OF ok t]
  have "verified E v (snd (sh_heap t ! c))" using o(1-3) by (auto simp: shell_ok_def caches_ok_def)
  then show ?thesis
    using False by (auto simp: sw_fetch_def t Let_def verified_def intro!: answer_ok [OF o(1)] split: option.splits if_splits)
qed

lemma sw_step_ok: "names_match E \<Longrightarrow> shell_ok E s \<Longrightarrow> shell_ok E (sw_step E e s)"
  by (cases e) (simp_all add: sw_step_def install_ok fetched_ok activate_ok shell_sweep_ok fetch_ok)

lemma sw_run_ok: "names_match E \<Longrightarrow> shell_ok E s \<Longrightarrow> shell_ok E (sw_run E es s)"
  by (induction es arbitrary: s) (simp_all add: sw_run_def sw_step_ok)

lemma map_of_zip_index:
  "jm_get (zip xs [0..<length xs]) n = Some c \<Longrightarrow> c < length xs \<and> xs ! c = n"
  by (auto dest!: map_of_SomeD simp: set_zip)

lemma new_shell_ok:
  assumes "\<forall>v. sw_cache E v \<notin> fst ` set others"
  shows "shell_ok E (new_shell others)"
proof -
  have "c < length others \<and> fst (others ! c) = n" if "jm_get (zip (map fst others) [0..<length others]) n = Some c" for n c
    using map_of_zip_index [of "map fst others" n c] that by auto
  moreover have "fst (others ! c) \<noteq> sw_cache E v" if "c < length others" for c v
    using assms that nth_mem [OF that] by (metis imageI)
  ultimately have "caches_ok E (new_shell others)" by (auto simp: caches_ok_def new_shell_def)
  then show ?thesis by (simp add: shell_ok_def jobs_ok_def installed_ok_def answers_ok_def new_shell_def)
qed

section \<open>What is served\<close>

text \<open>
  Whatever the origin answers and however the events of the versions interleave, a body that a version of the
  worker serves from its cache has the digest pinned for that path in that version.
\<close>

theorem shell_serves_only_pinned_code:
  assumes "names_match E" "\<forall>v. sw_cache E v \<notin> fst ` set others"
    "(v, path, FromCache body) \<in> set (sh_answers (sw_run E es (new_shell others)))"
  shows "\<exists>expected. (path, expected) \<in> set (sw_pinned E v)
    \<and> bytesToHex (sha256 (sw_digest E) body) = toLowerCase (sw_digest E) expected"
proof -
  have "shell_ok E (sw_run E es (new_shell others))"
    by (rule sw_run_ok [OF assms(1) new_shell_ok [OF assms(2)]])
  with assms(3) show ?thesis by (auto simp: shell_ok_def answers_ok_def pinned_body_def integrity_sha256Hex_def)
qed

text \<open>A version that finished installing, and whose cache was not deleted, serves every pinned asset.\<close>

theorem installed_version_serves_every_asset:
  fixes others :: "(string \<times> (string, bytes) jsmap) list"
  defines "reached es \<equiv> \<lambda>E. sw_run E es (new_shell others)"
  assumes "names_match E" "\<forall>v. sw_cache E v \<notin> fst ` set others"
    "(v, c) \<in> set (sh_installed (reached es E))" "jm_get (sh_names (reached es E)) (sw_cache E v) = Some c"
    "rf_origin q = sw_origin E" "rf_pathname q \<in> fst ` set (sw_pinned E v)" "rf_plain q"
  shows "\<exists>body. sh_answers (sw_fetch E v q (reached es E)) = sh_answers (reached es E) @ [(v, rf_pathname q, FromCache body)]"
proof -
  have "shell_ok E (reached es E)"
    unfolding reached_def by (rule sw_run_ok [OF assms(2) new_shell_ok [OF assms(3)]])
  then have "holds_all (snd (sh_heap (reached es E) ! c)) (fst ` set (sw_pinned E v))"
    using assms(4) by (auto simp: shell_ok_def installed_ok_def job_ok_def)
  then obtain body where "jm_get (snd (sh_heap (reached es E) ! c)) (rf_pathname q) = Some body"
    using assms(7) by (auto simp: holds_all_def)
  then show ?thesis using assms(5-8) by (simp add: sw_fetch_def caches_open_def)
qed

section \<open>The installation and \<open>integrity.ts\<close>\<close>

text \<open>The bundle as the loop fetched it: the bodies of the responses it does not refuse for their status.\<close>

definition usable :: "(string \<Rightarrow> fetched) \<Rightarrow> pinned_manifest \<Rightarrow> (string, bytes) jsmap" where
  "usable answers pinned = List.map_filter (\<lambda>(path, _). case answers path of
     FetchFails \<Rightarrow> None | Response status body \<Rightarrow> if status_ok status \<and> status \<noteq> 206 then Some (path, body) else None) pinned"

lemma usable_get: "jm_get (usable answers pinned) path = (if path \<notin> fst ` set pinned then None else
  case answers path of FetchFails \<Rightarrow> None | Response status body \<Rightarrow> if status_ok status \<and> status \<noteq> 206 then Some body else None)"
  by (induction pinned) (auto simp: usable_def List.map_filter_simps split: fetched.splits option.splits)

lemma asset_iff_verified:
  assumes "(path, expected) \<in> set pinned"
  shows "sw_asset D expected (answers path) \<noteq> None \<longleftrightarrow>
    (\<exists>body. jm_get (usable answers pinned) path = Some body \<and> bytesToHex (sha256 D body) = toLowerCase D expected)"
proof -
  have "path \<in> fst ` set pinned" using assms by force
  then show ?thesis
    by (auto simp: usable_get sw_asset_def integrity_sha256Hex_def split: fetched.splits)
qed

lemma feeding:
  assumes "sh_installs s = [(j, job)]" "sh_installed s = []" "ij_rest job = xs" "xs \<noteq> []"
  shows "sh_installed (sw_run E (map (\<lambda>(path, expected). SwFetched j (answers path)) xs) s) \<noteq> []
    \<longleftrightarrow> (\<forall>(path, expected) \<in> set xs. sw_asset (sw_digest E) expected (answers path) \<noteq> None)"
  using assms
proof (induction xs arbitrary: s job)
  case (Cons a xs)
  obtain path expected where a: "a = (path, expected)" by (cases a)
  have idle: "sh_installed (sw_run E (map (\<lambda>(path, expected). SwFetched j (answers path)) ys) t) = sh_installed t"
    if "sh_installs t = []" for ys t
    using that by (induction ys) (auto simp: sw_run_def sw_step_def sw_fetched_def)
  show ?case
  proof (cases "sw_asset (sw_digest E) expected (answers path)")
    case None
    then have "sw_step E (SwFetched j (answers path)) s = s\<lparr>sh_installs := []\<rparr>"
      using Cons.prems by (simp add: sw_step_def sw_fetched_def a)
    then show ?thesis using idle [of "s\<lparr>sh_installs := []\<rparr>" xs] Cons.prems None by (simp add: sw_run_def a)
  next
    case (Some body)
    define t where "t = sw_step E (SwFetched j (answers path)) s"
    have run: "sw_run E (map (\<lambda>(path, expected). SwFetched j (answers path)) (a # xs)) s
        = sw_run E (map (\<lambda>(path, expected). SwFetched j (answers path)) xs) t"
      by (simp add: sw_run_def t_def a)
    show ?thesis
    proof (cases xs)
      case Nil
      then have "sh_installed t \<noteq> []"
        using Cons.prems Some by (simp add: t_def sw_step_def sw_fetched_def a put_job_def)
      with Some Nil run show ?thesis by (simp add: sw_run_def a)
    next
      case more: (Cons b ys)
      then have "sh_installs t = [(j, job\<lparr>ij_rest := xs\<rparr>)]" "sh_installed t = []"
        using Cons.prems Some by (simp_all add: t_def sw_step_def sw_fetched_def a put_job_def)
      from Cons.IH [OF this] more Some run show ?thesis by (simp add: a)
    qed
  qed
qed simp

text \<open>
  The loop of the service worker and \<open>verifyManifest\<close> of \<open>integrity.ts\<close> are in step: an installation that is
  fed its assets succeeds exactly when that function accepts what was fetched.
\<close>

theorem install_agrees_with_verifyManifest:
  "sh_installed (sw_run E (SwInstall v # map (\<lambda>(path, _). SwFetched 0 (answers path)) (sw_pinned E v)) (new_shell [])) \<noteq> []
   \<longleftrightarrow> mr_ok (verifyManifest (sw_digest E) (usable answers (sw_pinned E v)) (sw_pinned E v))"
proof -
  have iff: "(sw_asset (sw_digest E) expected (answers path) \<noteq> None) = (\<exists>body. jm_get (usable answers (sw_pinned E v)) path = Some body
      \<and> bytesToHex (sha256 (sw_digest E) body) = toLowerCase (sw_digest E) expected)"
    if "(path, expected) \<in> set (sw_pinned E v)" for path expected
    by (rule asset_iff_verified [OF that])
  have accepted: "(\<forall>(path, expected) \<in> set (sw_pinned E v). sw_asset (sw_digest E) expected (answers path) \<noteq> None)
      \<longleftrightarrow> mr_ok (verifyManifest (sw_digest E) (usable answers (sw_pinned E v)) (sw_pinned E v))"
    unfolding verifyManifest_ok by (intro ball_cong refl) (simp add: iff case_prod_beta del: not_None_eq)
  define s where "s = sw_step E (SwInstall v) (new_shell [])"
  have run: "sw_run E (SwInstall v # xs) (new_shell []) = sw_run E xs s" for xs by (simp add: sw_run_def s_def)
  show ?thesis
  proof (cases "sw_pinned E v = []")
    case True
    then have "sh_installed s \<noteq> []" by (simp add: s_def sw_step_def sw_install_def caches_open_def new_shell_def put_job_def)
    with True run [of "[]"] accepted show ?thesis by (simp add: sw_run_def s_def)
  next
    case False
    then have "sh_installs s = [(0, \<lparr>ij_version = v, ij_cache = 0, ij_rest = sw_pinned E v\<rparr>)]" "sh_installed s = []"
      by (simp_all add: s_def sw_step_def sw_install_def caches_open_def new_shell_def put_job_def)
    from feeding [OF this _ False, of E answers] run accepted show ?thesis by simp
  qed
qed

section \<open>The forced update\<close>

text \<open>The wait for the new cache ends after at most 34 rounds of 300 ms.\<close>

lemma poll_ends:
  assumes clock: "\<And>i. bt_clock B 0 + 300 * int i \<le> bt_clock B (Suc i)" and "i \<le> 34"
  shows "\<exists>k. i \<le> k \<and> k \<le> 34 \<and> poll_from B latest (bt_clock B 0 + 10000) i = Some k"
  using assms(2)
proof (induction "34 - i" arbitrary: i)
  case 0
  then have "i = 34" by simp
  moreover have "bt_clock B 0 + 10000 < bt_clock B (Suc 34)" using clock [of 34] by simp
  ultimately show ?case by (subst poll_from.simps) (auto split: option.splits)
next
  case (Suc d)
  then have "\<exists>k. Suc i \<le> k \<and> k \<le> 34 \<and> poll_from B latest (bt_clock B 0 + 10000) (Suc i) = Some k" by simp
  then show ?case using Suc.prems by (subst poll_from.simps) (auto split: option.splits)
qed

definition clock_advances :: "boot_env \<Rightarrow> bool" where
  "clock_advances B \<longleftrightarrow> (\<forall>i. bt_clock B 0 + 300 * int i \<le> bt_clock B (Suc i))"

text \<open>The version a start is told of, and the one it runs.\<close>

definition advertised :: "boot_env \<Rightarrow> string option" where
  "advertised B = (case bt_build B of Some (True, body) \<Rightarrow> parseBuildVersion (Some body) | _ \<Rightarrow> None)"

definition running :: "boot_env \<Rightarrow> string option" where
  "running B = (case bt_caches B of Some names \<Rightarrow> bootVersionFrom names | None \<Rightarrow> None)"

lemma boot_cases:
  assumes "running B \<noteq> Some v" "advertised B \<in> {None, Some v}"
  shows "ensureLatestClient B (Some v) = (Proceeds, Some v)"
    "ensureLatestClient B latch \<in> {(Proceeds, latch)} \<union> ({Proceeds, Reloads v, Hangs} \<times> {Some v})"
  using assms
  by (auto simp: ensureLatestClient_def advertised_def running_def reload_when_ready_def shouldForceUpdate_def Let_def
      split: option.splits prod.splits registration.splits bool.splits if_splits)

lemma ends_boot:
  assumes "clock_advances B"
  shows "fst (ensureLatestClient B latch) \<noteq> Hangs"
proof -
  have poll: "(poll_from B latest (bt_clock B 0 + 10000) 0 = None) = False" for latest
    using poll_ends [of B 0 latest] assms by (auto simp: clock_advances_def)
  show ?thesis
    by (auto simp: poll ensureLatestClient_def reload_when_ready_def Let_def
        split: option.splits prod.splits registration.splits if_splits)
qed

lemma boots_latched:
  "\<forall>B \<in> set Bs. running B \<noteq> Some v \<and> advertised B \<in> {None, Some v} \<Longrightarrow> boots Bs (Some v) = map (\<lambda>_. Proceeds) Bs"
  by (induction Bs) (simp_all add: boot_cases(1))

text \<open>
  While the origin advertises one version and the page does not come to run it, the starts of a tab reload
  the page at most once, and every start comes to its end.
\<close>

theorem failed_update_never_loops:
  assumes "\<forall>B \<in> set Bs. running B \<noteq> Some v \<and> advertised B \<in> {None, Some v} \<and> clock_advances B"
  shows "length (filter (\<lambda>r. r = Reloads v) (boots Bs latch)) \<le> 1 \<and> set (boots Bs latch) \<subseteq> {Proceeds, Reloads v}"
  using assms
proof (induction Bs arbitrary: latch)
  case (Cons B Bs)
  obtain r latch' where r: "ensureLatestClient B latch = (r, latch')" by fastforce
  have "r \<noteq> Hangs" using ends_boot [of B latch] Cons.prems r by simp
  then have "(r = Proceeds \<and> latch' = latch) \<or> (r \<in> {Proceeds, Reloads v} \<and> latch' = Some v)"
    using boot_cases(2) [of B v latch] Cons.prems r by auto
  then show ?case using Cons r boots_latched [of Bs v] by auto
qed simp

text \<open>
  The latch holds a single version. When the origin advertises two versions by turns and the page comes to run
  neither, every start reloads the page once more.
\<close>

definition updatable :: "boot_env \<Rightarrow> string \<Rightarrow> string \<Rightarrow> bool" where
  "updatable B old new \<longleftrightarrow> bt_supported B \<and> bt_readable B \<and> bt_writable B \<and> bt_registration B = Registered
     \<and> clock_advances B \<and> running B = Some old \<and> advertised B = Some new \<and> new \<noteq> old"

lemma forced_reload:
  assumes "updatable B old new" "latch \<noteq> Some new"
  shows "ensureLatestClient B latch = (Reloads new, Some new)"
proof -
  obtain k where poll: "poll_from B new (bt_clock B 0 + 10000) 0 = Some k"
    using poll_ends [of B 0 new] assms(1) by (auto simp: updatable_def clock_advances_def)
  obtain names body where "bt_caches B = Some names" "bootVersionFrom names = Some old"
    "bt_build B = Some (True, body)" "parseBuildVersion (Some body) = Some new"
    using assms(1) by (auto simp: updatable_def running_def advertised_def split: option.splits prod.splits bool.splits)
  then show ?thesis
    using assms poll by (auto simp add: updatable_def ensureLatestClient_def shouldForceUpdate_def reload_when_ready_def Let_def)
qed

theorem alternating_versions_reload_again:
  assumes "updatable B old u" "updatable B' old v" "u \<noteq> v"
  shows "boots [B, B', B, B'] None = [Reloads u, Reloads v, Reloads u, Reloads v]"
  using assms by (simp add: forced_reload)

section \<open>An installation that is swept away\<close>

definition two_versions :: shell_env where
  "two_versions = \<lparr>sw_digest = demo_account_env, sw_cache = (\<lambda>v. if v = 0 then ''old'' else ''new''),
     sw_pinned = (\<lambda>_. [(''/a'', ''00'')]), sw_origin = ''o''\<rparr>"

lemma two_versions_names_match: "names_match two_versions"
  by (simp add: names_match_def two_versions_def)

definition overlapping :: "sw_event list" where
  "overlapping = [SwInstall 0, SwFetched 0 (Response 200 [1]), SwInstall 1, SwActivate 0, SwSweep 0 0,
     SwFetched 1 (Response 200 [2]), SwActivate 1, SwSweep 0 0]"

text \<open>
  The old version activates while the new one is filling its cache, and deletes that cache with the others. The
  new version ends its installation without an error, takes over, and has nothing to serve.
\<close>

theorem sweep_empties_a_running_install:
  "let s = sw_run two_versions overlapping (new_shell []) in
     1 \<in> fst ` set (sh_installed s)
   \<and> sh_answers (sw_fetch two_versions 1 \<lparr>rf_origin = ''o'', rf_pathname = ''/a'', rf_plain = True\<rparr> s) = [(1, ''/a'', NotInPinnedCache)]"
proof -
  have asset: "sw_asset demo_account_env ''00'' (Response 200 body) = Some body" for body
    by (simp add: sw_asset_def status_ok_def integrity_sha256Hex_def toLowerCase_def demo_account_env_def bytesToHex_def
        hex_byte_def hex_digits_def ascii_lower_def)
  show ?thesis
    by (simp add: Let_def sw_run_def overlapping_def sw_step_def sw_install_def sw_fetched_def sw_activate_def sw_sweep_def
        caches_open_def put_job_def new_shell_def two_versions_def asset sw_fetch_def jsmap_simps)
qed

end
