(* ===== verification/Spec2Isabelle.thy ===== *)
theory Spec2Isabelle
  imports Prelude Codec Handshake Framing Session Group Transport Vault Idb Lifetime LifetimeSweep Base64 Provisioning Json FileTransfer CallSession Auth Sas Integrity ChannelProps ChannelSafety ChannelMembers JsText BuddyMerge RichTextProps RichTextRoundtrip ControllerProps ControllerHistory ControllerDevices QrProps WorkerProps LiveProps ShellProps
begin

text \<open>
  The client of DEAD DROP (\<open>client/src\<close>), an end-to-end encrypted messenger that runs in the browser.
  All paths below are relative to \<open>src/\<close>.

  \<^bold>\<open>The program.\<close> A page draws the user interface (\<open>app.ts\<close>) and talks to one dedicated worker through
  \<open>WorkerController\<close> (\<open>workerproxy.ts\<close>). The worker (\<open>client/worker.js\<close>) runs one operation after the other
  on the application controller (\<open>controller.ts\<close>), which owns the key of the account, the object stores of
  the device (\<open>idb.ts\<close>, \<open>vault.ts\<close>, \<open>lifetime.ts\<close>) and one \<open>GroupChannel\<close> (\<open>groupchannel.ts\<close>). The channel holds
  the conversations (\<open>group.ts\<close>, on an MLS object compiled from Rust to wasm), the connection to the gateway
  (\<open>transport.ts\<close>, \<open>wsadapter.ts\<close>) and the machine that adds devices (\<open>provisioning.ts\<close>). File transfers and
  calls (\<open>filetransfer.ts\<close>, \<open>callsession.ts\<close>) run on the page and signal over the channel. The account client
  (\<open>auth.ts\<close>) talks to the control plane. \<open>handshake.ts\<close>, \<open>session.ts\<close> and \<open>live.ts\<close> are the two-party stack
  that the group channel replaced; \<open>session.ts\<close> still provides the frames, the padding and the lifetimes.

  \<^bold>\<open>Conventions.\<close> \<open>Prelude\<close> has the byte strings (\<open>8 word list\<close>), the error values (\<open>js_error\<close>, and
  \<open>'a result\<close> with \<open>Inl\<close> for a throw), hexadecimal, big-endian and UTF-8 conversions, and JavaScript maps in
  insertion order (\<open>jsmap\<close>). \<open>Effects\<close> has actions that change a state and may throw, with what was done before the
  throw kept; \<open>step_relation\<close> is the locale by which a relation that every basic action keeps is carried through
  whole methods. \<open>Codec\<close> has the contract of a wire format, \<open>Json\<close> the values of \<open>JSON.parse\<close>, \<open>JsText\<close> the UTF-16 view
  of strings, \<open>Base64\<close> the platform's \<open>btoa\<close> and \<open>atob\<close>. Asynchronous methods are cut at their awaits: each part
  up to an await is one definition that returns or queues what it waits for, and the continuation is
  another; the runs of a component interleave those parts freely. Timers, sockets, promises and calls of
  the platform are numbers in the state and entries of an output list.

  \<^bold>\<open>Handshake and two-party session.\<close> \<open>Handshake\<close> models the five states and seven methods of \<open>handshake.ts\<close>;
  \<open>Framing\<close> the frames, lifetimes and padding buckets of \<open>session.ts\<close> and \<open>index.ts\<close>, as \<open>byte_codec\<close> and
  \<open>layered_codec\<close>; \<open>Session\<close> the class of that name over any conversation object. Shown: the send gate opens only when
  both sides agreed, frames survive padding, a closed gate stops all traffic, a changed key blocks the
  session. \<open>LiveChannel\<close> and \<open>LiveProps\<close> model \<open>live.ts\<close>, every method and handler, with dependencies that may
  refuse: established sessions stay bound to their id and pinned to the key shown with them, an inbound
  message is acknowledged only after its storage, and an offer that repeats an id replaces the session.

  \<^bold>\<open>Group conversations and transport.\<close> \<open>Group\<close> models the byte codecs shared with the Rust core, the dispatch of
  received results and every method of \<open>GroupSession\<close>. \<open>Transport\<close> models pacing, retransmission and dispatch of
  \<open>transport.ts\<close> over the locale \<open>socket_iface\<close>, interpreted on the browser socket of \<open>wsadapter.ts\<close>: no
  unconfirmed frame is lost while at most 256 publishes are pending, which is the limit of the source.

  \<^bold>\<open>Group channel.\<close> \<open>Channel\<close> has the state, the helpers and the choice of the canonical own-devices group;
  \<open>ChannelOps\<close> the operations of the page, \<open>ChannelHeal\<close> the self-heal of memberships, \<open>ChannelGateway\<close>
  connecting, handlers, provisioning and the events of a run (\<open>chan_step\<close>). Conversation objects live in a heap, as
  the code shares them. \<open>ChannelProps\<close>, \<open>ChannelSafety\<close> and \<open>ChannelMembers\<close> show: exactly one device is
  designated to heal a group, healing stages one commit only and that commit is published sealed and current, revokes are
  confirmed only by a live receipt, conversations are keyed by their group, messages are acknowledged after storage,
  and the promise chains of the storage refine one queue per conversation. \<open>ChannelDemo\<close> is the concrete channel of the
  witnesses.

  \<^bold>\<open>Storage.\<close> \<open>Vault\<close> models the sealed record of a message over a cipher with the documented laws of AES-GCM, and the
  locales \<open>keyvault_store\<close> and \<open>exact_keyvault_store\<close>; \<open>Idb\<close> the adapters, the master key vault and the panic
  wipe, and interprets those locales; \<open>Lifetime\<close> the manager of timers, burn-on-read and revocation.
  Shown: the panic wipe destroys keys first and a burn-on-read message is opened once. \<open>LifetimeSweep\<close> adds the events
  under which the store loses records on its own (history-off mode, purges, restarts) and shows that the resume sweep
  enforces every deadline under all of them.

  \<^bold>\<open>Devices, files and calls.\<close> \<open>Provisioning\<close> models the rendezvous messages, the QR payload and the state
  machine of both sides: only what the user confirmed is authorized, only the live attempt is adopted. \<open>FileTransfer\<close>
  and \<open>CallSession\<close> model the two classes with their tables, candidate buffers and races: a transfer stays within
  the consent given, an uninterrupted stream arrives whole, captures are released in every orderly run, and two runs outside it leak. \<open>Sas\<close> has the word list of
  the short authentication strings.

  \<^bold>\<open>Accounts and bundle.\<close> \<open>Auth\<close> models the derived credentials, the proof of work, the parsers of
  server answers and every method of \<open>AccountClient\<close>: requests are authorized, answers are parsed fail-closed. The search
  for a proof of work has the source's bound of \<open>2 ^ 22\<close> attempts as its measure. \<open>Integrity\<close> has the pinned manifests
  and the update decision of \<open>integrity.ts\<close> and \<open>appversion.ts\<close>.

  \<^bold>\<open>Controller.\<close> \<open>Buddies\<close> has the buddy and group lists and their coercion, \<open>BuddyMerge\<close> the laws of the
  last-writer-wins merge (locale \<open>lww_register\<close>, interpreted on both lists): the lists of two devices converge.
  \<open>Controller\<close> has the state, the interface \<open>group_iface\<close> of the channel and the sealed documents;
  \<open>ControllerLists\<close> the identity card, peers, handles and list edits; \<open>ControllerBuddies\<close> pins, badges and the block
  list; \<open>ControllerAccount\<close> unlocking, history mode, seeds and revokes; \<open>ControllerView\<close> the channel list and the
  view of a conversation; \<open>ControllerDevices\<close> the methods that hand over to the group channel.
  \<open>ControllerProps\<close> and \<open>ControllerHistory\<close> show that the verified badge is earned, that only the key on
  screen is pinned, that own groups are only hidden, what a peer's revoke can erase, and that with history off incoming
  traffic adds nothing to the disk but the account's own documents. \<open>ControllerDemo\<close> is the concrete controller of the witnesses; it uses the group
  channel of \<open>ChannelDemo\<close>.

  \<^bold>\<open>Page.\<close> \<open>RichText\<close> models the message markup of \<open>app.ts\<close> and the special characters of \<open>specials.ts\<close>;
  \<open>RichTextProps\<close> shows that whatever a peer writes is rendered as a well-nested sequence of known tags, and
  \<open>RichTextRoundtrip\<close> that typed text is shown as typed and that editor and renderer agree. The
  recursion of the renderer ends because each step shortens the rest of the text.
  \<open>PinnedShell\<close> models what runs before it: the service worker \<open>client/public/sw.js\<close>, any number of its versions
  interleaved, and the start of the page in \<open>client/boot.js\<close>; \<open>ShellProps\<close> shows that only bytes with the pinned digest
  are served, that a finished installation serves every asset, and that a failed update cannot loop: the wait for the new
  cache ends after at most 34 rounds, since the clock gains 300 ms with each. \<open>WorkerProxy\<close> models the proxy and the pump of the worker, \<open>WorkerProps\<close> shows that they
  refine a server that finishes each call before the next. \<open>Qr\<close> models the QR encoder; \<open>QrField\<close> shows that its tables are
  the field of 256 elements and that its check words are those of a Reed-Solomon code, \<open>QrLayout\<close> and
  \<open>QrScan\<close> compare its layout with the standard, \<open>QrRead\<close> defines a reader after the standard and \<open>QrProps\<close> shows
  that it reads back every text of at most 106 bytes, the capacity of versions 1 to 5.

  \<^bold>\<open>Parameters.\<close> Code outside \<open>src/\<close> and the Rust core enter as arguments of the definitions: SHA-256,
  Argon2id and AES-GCM (WebCrypto, hash-wasm), the MLS conversation object, the wasm primitives of provisioning,
  the generated protobuf codec, the Unicode case tables and the collation of \<open>localeCompare\<close>, random bytes and the clock.
  What a theorem assumes of them is a hypothesis with a witness on a concrete instance.

  \<^bold>\<open>Simplifications.\<close> A promise that is already resolved continues at once. The provisioning machine's
  requests are carried out after the call of the machine that made them. Methods of the controller are one step at
  their awaits on the stores; the callbacks of the channel are operations of their own. Numbers of
  \<open>JSON\<close> that overflow to infinity, \<open>__proto__\<close> and inherited property names in spreads are read as ordinary
  entries, except where a definition says otherwise. The texts of errors that the engine itself raises are one
  value. The account and device keys are constant over a run of the provisioning machine. When a file transfer is
  accepted again, writes that its former chain still holds are left out. \<open>console.warn\<close> is left out. Arguments of the page that cannot be cloned are errors of \<open>px_call\<close> only.

  \<^bold>\<open>Not modelled.\<close> The rest of \<open>app.ts\<close>: rendering of windows, event wiring, drag and drop, audio and timers act on the
  document object model, which has no counterpart here. \<open>qrdecode.ts\<close> calls the vendored jsQR. \<open>persist.ts\<close> asks the
  browser for persistent storage. The wiring of the wasm module and the database in \<open>client/worker.js\<close> and the
  adapters of WebRTC and the media devices in \<open>client/boot.js\<close> pass calls on. The schema upgrade of the database and failing
  requests of it are left out of \<open>Idb\<close>, backpressure and the construction of blobs out of \<open>FileTransfer\<close>.
  The Rust core, the Go gateway and the PHP control plane are other programs in other languages.
\<close>

end
